(* ===== verification/Behest_Prelude.thy ===== *)
theory Behest_Prelude
  imports Main "HOL-Library.Word"
begin

text \<open>
  The prelude of the development: machine integers as the Rust code uses them, the
  pieces of the standard library's slices and UTF-8 strings that several components
  call, and the generic lemmas and collections their proofs share.

  \<^item> \<open>usize\<close> is modelled by \<open>nat\<close>. Lengths and sums of lengths stay below the address
    space, so plain additions are unbounded here; every saturating operation of the source is
    written with its bound \<open>usize_max\<close>.
  \<^item> \<open>u64\<close>, \<open>u32\<close> and \<open>u8\<close> values that the code stores, wraps or
    truncates are words of that width.
  \<^item> A Rust \<open>String\<close> is its list of UTF-8 bytes, so \<open>length\<close> is \<open>str::len\<close>;
    \<open>utf8_chars\<close> groups the bytes of a string into characters, as \<open>str::chars\<close> does.
\<close>

named_theorems op_defs \<open>definitions of the operations of a component\<close>
named_theorems inv_intros \<open>preservation lemmas of the invariants\<close>

section \<open>Fallible operations on an environment\<close>

text \<open>\<open>let a = m?; k(a)\<close>: an error ends the computation and keeps the effects so far. \<open>try_err\<close> is
  \<open>map_err\<close>.\<close>

definition try_then :: "('e \<Rightarrow> ('x + 'a) \<times> 'e) \<Rightarrow> ('a \<Rightarrow> 'e \<Rightarrow> ('x + 'b) \<times> 'e) \<Rightarrow> 'e \<Rightarrow> ('x + 'b) \<times> 'e" where
  "try_then m k e = (case m e of (Inl x, e') \<Rightarrow> (Inl x, e') | (Inr a, e') \<Rightarrow> k a e')"

definition try_err :: "('x \<Rightarrow> 'y) \<Rightarrow> ('e \<Rightarrow> ('x + 'a) \<times> 'e) \<Rightarrow> 'e \<Rightarrow> ('y + 'a) \<times> 'e" where
  "try_err f m e = (case m e of (Inl x, e') \<Rightarrow> (Inl (f x), e') | (Inr a, e') \<Rightarrow> (Inr a, e'))"

lemma try_then_Inr [elim!]:
  assumes "try_then m k e = (Inr b, e'')"
  obtains a e' where "m e = (Inr a, e')" and "k a e' = (Inr b, e'')"
  using assms by (auto simp: try_then_def split: prod.splits sum.splits)

lemma try_err_Inr [simp]: "try_err f m e = (Inr a, e') \<longleftrightarrow> m e = (Inr a, e')"
  by (auto simp: try_err_def split: prod.splits sum.splits)

lemma try_then_Inl [elim!]:
  assumes "try_then m k e = (Inl x, e'')"
  obtains (first) "m e = (Inl x, e'')" | (later) a e' where "m e = (Inr a, e')" and "k a e' = (Inl x, e'')"
  using assms by (auto simp: try_then_def split: prod.splits sum.splits)

lemma try_err_Inl [elim!]:
  assumes "try_err f m e = (Inl y, e')"
  obtains x where "m e = (Inl x, e')" and "y = f x"
  using assms by (auto simp: try_err_def split: prod.splits sum.splits)

section \<open>Machine integers\<close>

type_synonym usize = nat
type_synonym u64 = "64 word"
type_synonym u32 = "32 word"
type_synonym u8 = "8 word"

definition usize_max :: nat where
  "usize_max = 18446744073709551615"

definition saturating_mul :: "usize \<Rightarrow> usize \<Rightarrow> usize" where
  "saturating_mul a b = min (a * b) usize_max"

definition saturating_add :: "usize \<Rightarrow> usize \<Rightarrow> usize" where
  "saturating_add a b = min (a + b) usize_max"

text \<open>Saturating subtraction of unsigned values is the truncated subtraction of \<open>nat\<close>.\<close>

definition saturating_sub :: "usize \<Rightarrow> usize \<Rightarrow> usize" where
  "saturating_sub a b = a - b"

definition div_ceil :: "usize \<Rightarrow> usize \<Rightarrow> usize" where
  "div_ceil a b = (if a mod b > 0 then a div b + 1 else a div b)"

definition sat_add_word :: "'a::len word \<Rightarrow> 'a word \<Rightarrow> 'a word" where
  "sat_add_word a b = (if a \<le> a + b then a + b else - 1)"

definition sat_sub_word :: "'a::len word \<Rightarrow> 'a word \<Rightarrow> 'a word" where
  "sat_sub_word a b = (if b \<le> a then a - b else 0)"

lemma saturating_mul_le [simp]: "saturating_mul a b \<le> usize_max"
  by (simp add: saturating_mul_def)

lemma saturating_mul_mono: "a \<le> b \<Longrightarrow> saturating_mul a c \<le> saturating_mul b c"
  by (auto simp: saturating_mul_def intro: min.coboundedI1 mult_le_mono1)

lemma saturating_add_le [simp]: "saturating_add a b \<le> usize_max"
  by (simp add: saturating_add_def)

lemma div_ceil_zero [simp]: "div_ceil 0 b = 0"
  by (simp add: div_ceil_def)

lemma div_ceil_bounds:
  assumes "0 < b"
  shows "a \<le> b * div_ceil a b" and "b * div_ceil a b < a + b"
proof -
  have a: "b * (a div b) + a mod b = a" by simp
  have r: "a mod b < b" using assms by simp
  have m: "b * (a div b + 1) = b * (a div b) + b" by simp
  have c: "b * div_ceil a b = (if a mod b > 0 then b * (a div b) + b else b * (a div b))"
    using m by (simp add: div_ceil_def)
  show "a \<le> b * div_ceil a b" unfolding c using a r by (split if_split) linarith
  show "b * div_ceil a b < a + b" unfolding c using a assms by (split if_split) linarith
qed

lemma div_ceil_mono:
  assumes "a \<le> c"
  shows "div_ceil a b \<le> div_ceil c b"
proof (cases "b = 0")
  case True
  then show ?thesis using assms by (simp add: div_ceil_def)
next
  case False
  then have "b * div_ceil a b < a + b" and "c \<le> b * div_ceil c b"
    using div_ceil_bounds by auto
  with assms have "b * div_ceil a b < b * (div_ceil c b + 1)" by simp
  then have "div_ceil a b < div_ceil c b + 1" by (simp only: mult_less_cancel1)
  then show ?thesis by simp
qed

lemma unat_sat_sub_word: "unat (sat_sub_word a b) = unat a - unat b"
  by (auto simp: sat_sub_word_def unat_sub word_le_nat_alt)

lemma unat_max_word: "unat (- 1 :: 'a::len word) = 2 ^ LENGTH('a) - 1"
  by (simp add: unsigned_minus_1_eq_mask mask_eq_exp_minus_1)

lemma unat_max_u64: "unat (- 1 :: u64) = 18446744073709551615"
  by (simp add: unat_max_word)

lemma unat_Suc_below:
  fixes x y :: "'a::len word"
  assumes "x < y"
  shows "unat (x + 1) = Suc (unat x)"
proof -
  have "unat y < 2 ^ LENGTH('a)" by (rule unsigned_less)
  moreover from assms have "unat x < unat y" by (simp add: word_less_nat_alt)
  ultimately have "Suc (unat x) < 2 ^ LENGTH('a)" by linarith
  then show ?thesis by (simp add: unat_word_ariths)
qed

lemma word_less_Suc: "x < y \<Longrightarrow> x < x + 1" for x y :: "'a::len word"
  using unat_Suc_below [of x y] by (simp add: word_less_nat_alt)

end
