(* ===== verification/Rust_Str.thy ===== *)
theory Rust_Str
  imports Behest_Prelude
begin

text \<open>
  The operations of Rust's \<open>str\<close> that the modelled code calls, over the UTF-8 bytes of a
  string: \<open>chars\<close>, \<open>lines\<close>, \<open>trim\<close>, \<open>find\<close>, \<open>contains\<close>, \<open>join\<close> and the
  decimal rendering of unsigned integers by \<open>format!\<close>.
\<close>

section \<open>Characters of a UTF-8 string\<close>

definition is_continuation :: "char \<Rightarrow> bool" where
  "is_continuation c \<longleftrightarrow> 128 \<le> (of_char c :: nat) \<and> (of_char c :: nat) < 192"

text \<open>A character is a lead byte followed by its continuation bytes.\<close>

function utf8_chars :: "string \<Rightarrow> string list" where
  "utf8_chars [] = []"
| "utf8_chars (c # cs) =
     (c # takeWhile is_continuation cs) # utf8_chars (dropWhile is_continuation cs)"
  by pat_completeness auto
termination
  by (relation "measure length") (auto simp: less_Suc_eq_le length_dropWhile_le)

lemma concat_utf8_chars [simp]: "concat (utf8_chars s) = s"
  by (induction s rule: utf8_chars.induct) auto

lemma utf8_chars_nonempty: "c \<in> set (utf8_chars s) \<Longrightarrow> c \<noteq> []"
  by (induction s rule: utf8_chars.induct) auto

lemma length_utf8_chars: "length (utf8_chars s) \<le> length s"
proof (induction s rule: utf8_chars.induct)
  case (2 c cs)
  have "length (dropWhile is_continuation cs) \<le> length cs" by (rule length_dropWhile_le)
  with "2.IH" show ?case by simp
qed simp

text \<open>\<open>s.chars().take(n).collect()\<close> and the same from the end.\<close>

definition take_chars :: "nat \<Rightarrow> string \<Rightarrow> string" where
  "take_chars n s = concat (take n (utf8_chars s))"

definition take_last_chars :: "nat \<Rightarrow> string \<Rightarrow> string" where
  "take_last_chars n s = concat (rev (take n (rev (utf8_chars s))))"

lemma take_chars_prefix: "\<exists>rest. s = take_chars n s @ rest"
proof
  have "s = concat (utf8_chars s)" by simp
  also have "\<dots> = concat (take n (utf8_chars s)) @ concat (drop n (utf8_chars s))"
    by (metis append_take_drop_id concat_append)
  finally show "s = take_chars n s @ concat (drop n (utf8_chars s))"
    by (simp add: take_chars_def)
qed

lemma take_chars_all: "length s \<le> n \<Longrightarrow> take_chars n s = s"
  using length_utf8_chars [of s] by (simp add: take_chars_def)

lemma length_take_chars_le: "length (take_chars n s) \<le> length s"
  using take_chars_prefix [of s n] by (metis le_add1 length_append)

definition ascii :: "string \<Rightarrow> bool" where
  "ascii s \<longleftrightarrow> list_all (\<lambda>c. (of_char c :: nat) < 128) s"

lemma ascii_chars: "ascii s \<Longrightarrow> utf8_chars s = map (\<lambda>c. [c]) s"
proof (induction s rule: utf8_chars.induct)
  case (2 c cs)
  then have "ascii cs" by (simp add: ascii_def)
  then have "takeWhile is_continuation cs = [] \<and> dropWhile is_continuation cs = cs"
    by (cases cs) (auto simp: ascii_def is_continuation_def)
  with 2 \<open>ascii cs\<close> show ?case by simp
qed simp

lemma ascii_take_chars: "ascii s \<Longrightarrow> take_chars n s = take n s"
  by (simp add: take_chars_def ascii_chars take_map)

section \<open>White space and trimming\<close>

text \<open>The code points with the Unicode property White_Space, by their UTF-8 encoding.\<close>

definition is_whitespace :: "string \<Rightarrow> bool" where
  "is_whitespace c \<longleftrightarrow>
     (let b = map (of_char :: char \<Rightarrow> nat) c in
      (case b of
         [x] \<Rightarrow> 9 \<le> x \<and> x \<le> 13 \<or> x = 32
       | [x, y] \<Rightarrow> x = 194 \<and> (y = 133 \<or> y = 160)
       | [x, y, z] \<Rightarrow>
           x = 225 \<and> y = 154 \<and> z = 128
         \<or> x = 226 \<and> y = 128 \<and> (128 \<le> z \<and> z \<le> 138 \<or> z = 168 \<or> z = 169 \<or> z = 175)
         \<or> x = 226 \<and> y = 129 \<and> z = 159
         \<or> x = 227 \<and> y = 128 \<and> z = 128
       | _ \<Rightarrow> False))"

definition trim_end_list :: "('a \<Rightarrow> bool) \<Rightarrow> 'a list \<Rightarrow> 'a list" where
  "trim_end_list p xs = rev (dropWhile p (rev xs))"

definition str_trim :: "string \<Rightarrow> string" where
  "str_trim s = concat (trim_end_list is_whitespace (dropWhile is_whitespace (utf8_chars s)))"

lemma length_concat_dropWhile: "length (concat (dropWhile p xs)) \<le> length (concat xs)"
  by (induction xs) auto

lemma trim_end_list_append: "\<exists>ys. xs = trim_end_list p xs @ ys"
proof -
  have "rev xs = takeWhile p (rev xs) @ dropWhile p (rev xs)" by simp
  then have "xs = rev (dropWhile p (rev xs)) @ rev (takeWhile p (rev xs))"
    by (metis rev_append rev_rev_ident)
  then show ?thesis unfolding trim_end_list_def by blast
qed

lemma length_str_trim_le: "length (str_trim s) \<le> length s"
proof -
  let ?d = "dropWhile is_whitespace (utf8_chars s)"
  obtain ys where "?d = trim_end_list is_whitespace ?d @ ys"
    using trim_end_list_append by blast
  then have "concat ?d = str_trim s @ concat ys"
    unfolding str_trim_def by (metis concat_append)
  then have "length (str_trim s) \<le> length (concat ?d)" by simp
  also have "\<dots> \<le> length (concat (utf8_chars s))" by (rule length_concat_dropWhile)
  finally show ?thesis by simp
qed

section \<open>Lines, substrings and joining\<close>

definition newline :: char where "newline = CHR 0x0A"
definition carriage_return :: char where "carriage_return = CHR 0x0D"

definition strip_cr :: "string \<Rightarrow> string" where
  "strip_cr l = (if l \<noteq> [] \<and> last l = carriage_return then butlast l else l)"

fun lines_from :: "string \<Rightarrow> string \<Rightarrow> string list" where
  "lines_from acc [] = (if acc = [] then [] else [acc])"
| "lines_from acc (c # cs) =
     (if c = newline then strip_cr acc # lines_from [] cs else lines_from (acc @ [c]) cs)"

text \<open>\<open>str::lines\<close>: a line ends at a newline, with a carriage return before it dropped; a last
  line without a newline counts when it is not empty.\<close>

definition str_lines :: "string \<Rightarrow> string list" where
  "str_lines s = lines_from [] s"

fun is_prefix_of :: "string \<Rightarrow> string \<Rightarrow> bool" where
  "is_prefix_of [] s = True"
| "is_prefix_of (p # ps) [] = False"
| "is_prefix_of (p # ps) (c # cs) = (p = c \<and> is_prefix_of ps cs)"

text \<open>\<open>str::find\<close>: the byte index of the first occurrence.\<close>

fun str_find :: "string \<Rightarrow> string \<Rightarrow> nat option" where
  "str_find p [] = (if p = [] then Some 0 else None)"
| "str_find p (c # cs) =
     (if is_prefix_of p (c # cs) then Some 0 else map_option Suc (str_find p cs))"

definition str_contains :: "string \<Rightarrow> string \<Rightarrow> bool" where
  "str_contains p s = (str_find p s \<noteq> None)"

fun str_join :: "string \<Rightarrow> string list \<Rightarrow> string" where
  "str_join sep [] = []"
| "str_join sep [x] = x"
| "str_join sep (x # y # xs) = x @ sep @ str_join sep (y # xs)"

lemma is_prefix_of_iff: "is_prefix_of p s \<longleftrightarrow> take (length p) s = p"
  by (induction p s rule: is_prefix_of.induct) auto

lemma str_find_Some:
  "str_find p s = Some i \<Longrightarrow> i + length p \<le> length s \<and> take (length p) (drop i s) = p"
proof (induction s arbitrary: i)
  case Nil
  then show ?case by (auto split: if_splits)
next
  case (Cons c cs)
  show ?case
  proof (cases "is_prefix_of p (c # cs)")
    case True
    with Cons.prems have "i = 0" and "take (length p) (c # cs) = p"
      by (auto simp: is_prefix_of_iff)
    then show ?thesis by (metis add_0 drop0 length_take min.cobounded1)
  next
    case False
    with Cons.prems obtain j where "str_find p cs = Some j" and "i = Suc j" by auto
    with Cons.IH show ?thesis by auto
  qed
qed

fun show_nat :: "nat \<Rightarrow> string" where
  "show_nat n =
     (if n < 10 then [char_of (48 + n)] else show_nat (n div 10) @ [char_of (48 + n mod 10)])"

declare show_nat.simps [simp del]

lemma show_nat_ne [simp]: "show_nat n \<noteq> []"
  by (subst show_nat.simps) simp

end
