(* ===== verification/Core_Types.thy ===== *)
theory Core_Types
  imports Rust_Str
begin

text \<open>
  The provider-neutral data of \<open>behest-core\<close>: cache markers (\<open>cache.rs\<close>), tool
  definitions, calls and limits (\<open>tool_types.rs\<close>), and messages, requests and token usage
  (\<open>message.rs\<close>). Enums are datatypes with the source's constructors, structs are records whose
  fields carry a prefix (HOL's field names are global), and \<open>u64\<close> counters are 64-bit words.
  JSON values (\<open>serde_json::Value\<close>, a documented public enum) are a datatype; a number
  keeps its printed token and an object its entries in order.
\<close>

section \<open>JSON values\<close>

datatype json =
    JNull
  | JBool bool
  | JNumber string
  | JString string
  | JArray "json list"
  | JObject "(string \<times> json) list"

section \<open>Cache markers\<close>

datatype cache_control_kind = Ephemeral
datatype cache_ttl = FiveMinutes | OneHour

record cache_control =
  cc_kind :: cache_control_kind
  cc_ttl :: cache_ttl

definition cache_ephemeral :: cache_control where
  "cache_ephemeral = \<lparr>cc_kind = Ephemeral, cc_ttl = FiveMinutes\<rparr>"

definition cache_with_ttl :: "cache_control \<Rightarrow> cache_ttl \<Rightarrow> cache_control" where
  "cache_with_ttl c ttl = c\<lparr>cc_ttl := ttl\<rparr>"

definition ttl_wire :: "cache_control \<Rightarrow> string" where
  "ttl_wire c = (case cc_ttl c of FiveMinutes \<Rightarrow> ''5m'' | OneHour \<Rightarrow> ''1h'')"

section \<open>Tools\<close>

record tool_spec =
  ts_name :: string
  ts_description :: string
  ts_parameters_schema :: json
  ts_cache_control :: "cache_control option"

definition tool_spec_new :: "string \<Rightarrow> string \<Rightarrow> json \<Rightarrow> tool_spec" where
  "tool_spec_new n d schema =
     \<lparr>ts_name = n, ts_description = d, ts_parameters_schema = schema, ts_cache_control = None\<rparr>"

definition tool_spec_with_cache_control :: "tool_spec \<Rightarrow> cache_control \<Rightarrow> tool_spec" where
  "tool_spec_with_cache_control t c = t\<lparr>ts_cache_control := Some c\<rparr>"

datatype tool_choice = ChoiceAuto | ChoiceNone | ChoiceRequired | ChoiceTool string

record tool_call =
  tc_id :: string
  tc_name :: string
  tc_arguments :: json

definition tool_call_new :: "string \<Rightarrow> string \<Rightarrow> json \<Rightarrow> tool_call" where
  "tool_call_new i n a = \<lparr>tc_id = i, tc_name = n, tc_arguments = a\<rparr>"

lemma tool_call_new_sel [simp]:
  "tc_id (tool_call_new i n a) = i" "tc_name (tool_call_new i n a) = n"
  "tc_arguments (tool_call_new i n a) = a"
  by (simp_all add: tool_call_new_def)

datatype tool_source = Server | Client

fun is_server :: "tool_source \<Rightarrow> bool" where
  "is_server Server = True"
| "is_server Client = False"

fun is_client :: "tool_source \<Rightarrow> bool" where
  "is_client Client = True"
| "is_client Server = False"

subsection \<open>Sandbox profiles\<close>

text \<open>\<open>SandboxProfile\<close> derives \<open>Ord\<close>: the variants are ordered as they are declared.\<close>

datatype sandbox_profile = Inherited | ReadOnly | WorkspaceWrite | NetworkEnabled

fun sandbox_rank :: "sandbox_profile \<Rightarrow> nat" where
  "sandbox_rank Inherited = 0"
| "sandbox_rank ReadOnly = 1"
| "sandbox_rank WorkspaceWrite = 2"
| "sandbox_rank NetworkEnabled = 3"

lemma sandbox_rank_inj: "sandbox_rank a = sandbox_rank b \<Longrightarrow> a = b"
  by (cases a; cases b) auto

instantiation sandbox_profile :: linorder
begin

definition less_eq_sandbox_profile :: "sandbox_profile \<Rightarrow> sandbox_profile \<Rightarrow> bool" where
  "a \<le> b \<longleftrightarrow> sandbox_rank a \<le> sandbox_rank b"

definition less_sandbox_profile :: "sandbox_profile \<Rightarrow> sandbox_profile \<Rightarrow> bool" where
  "a < b \<longleftrightarrow> sandbox_rank a < sandbox_rank b"

instance
  by standard (auto simp: less_eq_sandbox_profile_def less_sandbox_profile_def intro: sandbox_rank_inj)

end

definition sandbox_allows :: "sandbox_profile \<Rightarrow> sandbox_profile \<Rightarrow> bool" where
  "sandbox_allows self requested = (requested \<le> self)"

record tool_runtime_limits =
  max_input_bytes :: "usize option"
  max_output_bytes :: "usize option"
  max_timeout :: "nat option"
  max_parallel_tools :: "usize option"
  max_calls_per_turn :: "usize option"
  max_cumulative_output_bytes :: "usize option"
  max_sandbox :: "sandbox_profile option"

definition limits_none :: tool_runtime_limits where
  "limits_none =
     \<lparr>max_input_bytes = None, max_output_bytes = None, max_timeout = None,
      max_parallel_tools = None, max_calls_per_turn = None,
      max_cumulative_output_bytes = None, max_sandbox = None\<rparr>"

definition limits_is_empty :: "tool_runtime_limits \<Rightarrow> bool" where
  "limits_is_empty l \<longleftrightarrow>
     max_input_bytes l = None \<and> max_output_bytes l = None \<and> max_timeout l = None \<and>
     max_parallel_tools l = None \<and> max_calls_per_turn l = None \<and>
     max_cumulative_output_bytes l = None \<and> max_sandbox l = None"

lemma limits_is_empty_iff: "limits_is_empty l \<longleftrightarrow> l = limits_none"
  by (cases l) (simp add: limits_is_empty_def limits_none_def)

end
