(* ===== verification/Core_Messages.thy ===== *)
theory Core_Messages
  imports Core_Types
begin

text \<open>
  Messages, requests, responses and token usage (\<open>behest-core/src/message.rs\<close>). The
  numeric fields of \<open>TokenUsage\<close> are \<open>u64\<close>: their sums are taken on 64-bit words, so
  they wrap as the release build does. \<open>f32\<close> sampling parameters are carried as their
  32 bits and never computed with.
\<close>

section \<open>Content parts\<close>

datatype content_part =
    Text string "cache_control option"
  | Json json "cache_control option"
  | ImageUrl string "string option" "cache_control option"

definition part_text :: "string \<Rightarrow> content_part" where
  "part_text t = Text t None"

definition part_json :: "json \<Rightarrow> content_part" where
  "part_json v = Json v None"

definition part_image_url :: "string \<Rightarrow> string option \<Rightarrow> content_part" where
  "part_image_url u m = ImageUrl u m None"

fun set_cache_control :: "content_part \<Rightarrow> cache_control \<Rightarrow> content_part" where
  "set_cache_control (Text t _) c = Text t (Some c)"
| "set_cache_control (Json v _) c = Json v (Some c)"
| "set_cache_control (ImageUrl u m _) c = ImageUrl u m (Some c)"

fun part_cache_control :: "content_part \<Rightarrow> cache_control option" where
  "part_cache_control (Text _ c) = c"
| "part_cache_control (Json _ c) = c"
| "part_cache_control (ImageUrl _ _ c) = c"

lemma part_cache_control_set [simp]: "part_cache_control (set_cache_control p c) = Some c"
  by (cases p) auto

section \<open>Messages\<close>

datatype message =
    System "content_part list"
  | User "content_part list"
  | Assistant "content_part list" "tool_call list"
  | Tool string string "content_part list"

definition system_text :: "string \<Rightarrow> message" where
  "system_text t = System [part_text t]"

definition user_text :: "string \<Rightarrow> message" where
  "user_text t = User [part_text t]"

definition assistant_text :: "string \<Rightarrow> message" where
  "assistant_text t = Assistant [part_text t] []"

definition tool_text :: "string \<Rightarrow> string \<Rightarrow> string \<Rightarrow> message" where
  "tool_text i n t = Tool i n [part_text t]"

fun tool_calls :: "message \<Rightarrow> tool_call list" where
  "tool_calls (Assistant _ calls) = calls"
| "tool_calls _ = []"

fun message_content :: "message \<Rightarrow> content_part list" where
  "message_content (System c) = c"
| "message_content (User c) = c"
| "message_content (Assistant c _) = c"
| "message_content (Tool _ _ c) = c"

lemma message_text_sel [simp]:
  "tool_calls (system_text t) = []" "tool_calls (user_text t) = []"
  "tool_calls (assistant_text t) = []" "tool_calls (tool_text i n t) = []"
  by (simp_all add: system_text_def user_text_def assistant_text_def tool_text_def)

text \<open>\<open>content.last_mut()\<close> is \<open>None\<close> on an empty list: the marker is then a no-op.\<close>

definition mark_last :: "content_part list \<Rightarrow> content_part list" where
  "mark_last c = (if c = [] then [] else butlast c @ [set_cache_control (last c) cache_ephemeral])"

fun mark_cache_breakpoint :: "message \<Rightarrow> message" where
  "mark_cache_breakpoint (System c) = System (mark_last c)"
| "mark_cache_breakpoint (User c) = User (mark_last c)"
| "mark_cache_breakpoint (Tool i n c) = Tool i n (mark_last c)"
| "mark_cache_breakpoint (Assistant c calls) = Assistant (mark_last c) calls"

lemma mark_last_idem [simp]: "mark_last (mark_last c) = mark_last c"
proof (cases "c = []")
  case False
  have "set_cache_control (set_cache_control p k) k = set_cache_control p k" for p k
    by (cases p) auto
  with False show ?thesis by (simp add: mark_last_def)
qed (simp add: mark_last_def)

lemma length_mark_last [simp]: "length (mark_last c) = length c"
  by (simp add: mark_last_def)

section \<open>Requests and responses\<close>

datatype response_format = FormatText | FormatJsonObject | FormatJsonSchema string json bool

record chat_request =
  cr_model :: string
  cr_messages :: "message list"
  cr_tools :: "tool_spec list"
  cr_tool_choice :: tool_choice
  cr_response_format :: "response_format option"
  cr_temperature :: "u32 option"
  cr_top_p :: "u32 option"
  cr_max_output_tokens :: "u32 option"
  cr_stop :: "string list"
  cr_metadata :: json

definition chat_request_new :: "string \<Rightarrow> chat_request" where
  "chat_request_new m =
     \<lparr>cr_model = m, cr_messages = [], cr_tools = [], cr_tool_choice = ChoiceAuto,
      cr_response_format = None, cr_temperature = None, cr_top_p = None,
      cr_max_output_tokens = None, cr_stop = [], cr_metadata = JNull\<rparr>"

definition with_message :: "chat_request \<Rightarrow> message \<Rightarrow> chat_request" where
  "with_message r m = r\<lparr>cr_messages := cr_messages r @ [m]\<rparr>"

definition with_user_text :: "chat_request \<Rightarrow> string \<Rightarrow> chat_request" where
  "with_user_text r t = with_message r (user_text t)"

definition with_tool :: "chat_request \<Rightarrow> tool_spec \<Rightarrow> chat_request" where
  "with_tool r t = r\<lparr>cr_tools := cr_tools r @ [t]\<rparr>"

datatype finish_reason =
    Stop | ToolCallsReason | LengthReason | ContentFilter | ErrorReason | UnknownReason string

section \<open>Token usage\<close>

record token_usage =
  input_tokens :: u64
  output_tokens :: u64
  total_tokens :: u64
  cache_creation_input_tokens :: "u64 option"
  cache_read_input_tokens :: "u64 option"
  cached_input_tokens :: "u64 option"

definition usage_new :: "u64 \<Rightarrow> u64 \<Rightarrow> token_usage" where
  "usage_new i out =
     \<lparr>input_tokens = i, output_tokens = out, total_tokens = i + out,
      cache_creation_input_tokens = None, cache_read_input_tokens = None,
      cached_input_tokens = None\<rparr>"

definition with_cache_stats ::
  "token_usage \<Rightarrow> u64 option \<Rightarrow> u64 option \<Rightarrow> u64 option \<Rightarrow> token_usage" where
  "with_cache_stats u cr rd ca =
     u\<lparr>cache_creation_input_tokens := cr, cache_read_input_tokens := rd,
       cached_input_tokens := ca\<rparr>"

fun unwrap_or_zero :: "u64 option \<Rightarrow> u64" where
  "unwrap_or_zero None = 0"
| "unwrap_or_zero (Some x) = x"

definition cache_tokens :: "token_usage \<Rightarrow> u64" where
  "cache_tokens u =
     unwrap_or_zero (cache_creation_input_tokens u) + unwrap_or_zero (cache_read_input_tokens u) +
     unwrap_or_zero (cached_input_tokens u)"

fun add_opt :: "u64 option \<Rightarrow> u64 option \<Rightarrow> u64 option" where
  "add_opt None None = None"
| "add_opt (Some x) None = Some x"
| "add_opt None (Some x) = Some x"
| "add_opt (Some x) (Some y) = Some (x + y)"

definition usage_merge :: "token_usage \<Rightarrow> token_usage \<Rightarrow> token_usage" where
  "usage_merge a b =
     \<lparr>input_tokens = input_tokens a + input_tokens b,
      output_tokens = output_tokens a + output_tokens b,
      total_tokens = input_tokens a + input_tokens b + output_tokens a + output_tokens b,
      cache_creation_input_tokens =
        add_opt (cache_creation_input_tokens a) (cache_creation_input_tokens b),
      cache_read_input_tokens = add_opt (cache_read_input_tokens a) (cache_read_input_tokens b),
      cached_input_tokens = add_opt (cached_input_tokens a) (cached_input_tokens b)\<rparr>"

text \<open>A usage is consistent when its total is the sum of its input and output.\<close>

definition usage_consistent :: "token_usage \<Rightarrow> bool" where
  "usage_consistent u \<longleftrightarrow> total_tokens u = input_tokens u + output_tokens u"

lemma add_opt_commute: "add_opt a b = add_opt b a"
  by (cases a; cases b) (auto simp: add.commute)

lemma add_opt_assoc: "add_opt (add_opt a b) c = add_opt a (add_opt b c)"
  by (cases a; cases b; cases c) (auto simp: add.assoc)

lemma add_opt_None [simp]: "add_opt None a = a" "add_opt a None = a"
  by (cases a; simp)+

lemma unwrap_add_opt: "unwrap_or_zero (add_opt a b) = unwrap_or_zero a + unwrap_or_zero b"
  by (cases a; cases b) auto

lemma usage_new_consistent [simp]: "usage_consistent (usage_new i k)"
  by (simp add: usage_consistent_def usage_new_def)

lemma usage_merge_consistent [simp]: "usage_consistent (usage_merge a b)"
  by (simp add: usage_consistent_def usage_merge_def algebra_simps)

lemma usage_merge_commute: "usage_merge a b = usage_merge b a"
  by (simp add: usage_merge_def add_opt_commute algebra_simps)

lemma usage_merge_assoc: "usage_merge (usage_merge a b) c = usage_merge a (usage_merge b c)"
  by (simp add: usage_merge_def add_opt_assoc algebra_simps)

lemma usage_merge_zero: "usage_consistent u \<Longrightarrow> usage_merge (usage_new 0 0) u = u"
  by (cases u) (simp add: usage_merge_def usage_new_def usage_consistent_def)

lemma usage_merge_zero_right: "usage_consistent u \<Longrightarrow> usage_merge u (usage_new 0 0) = u"
  using usage_merge_zero usage_merge_commute [of u "usage_new 0 0"] by simp

lemma cache_tokens_merge: "cache_tokens (usage_merge a b) = cache_tokens a + cache_tokens b"
  by (simp add: cache_tokens_def usage_merge_def unwrap_add_opt algebra_simps)

text \<open>Accumulating a list of usages, as the run loop and the event replay both do.\<close>

definition usage_sum :: "token_usage list \<Rightarrow> token_usage" where
  "usage_sum us = foldl usage_merge (usage_new 0 0) us"

lemma foldl_usage_merge_consistent: "usage_consistent u \<Longrightarrow> usage_consistent (foldl usage_merge u us)"
  by (induction us arbitrary: u) auto

lemma usage_sum_Nil [simp]: "usage_sum [] = usage_new 0 0"
  by (simp add: usage_sum_def)

lemma usage_sum_snoc [simp]: "usage_sum (us @ [u]) = usage_merge (usage_sum us) u"
  by (simp add: usage_sum_def)

lemma usage_sum_consistent [simp]: "usage_consistent (usage_sum us)"
  by (simp add: usage_sum_def foldl_usage_merge_consistent)

lemma foldl_usage_merge_shift:
  "usage_consistent u \<Longrightarrow> foldl usage_merge u us = usage_merge u (usage_sum us)"
proof (induction us rule: rev_induct)
  case Nil
  then show ?case by (simp add: usage_merge_zero_right)
next
  case (snoc x xs)
  have "foldl usage_merge u (xs @ [x]) = usage_merge (usage_merge u (usage_sum xs)) x"
    using snoc by simp
  then show ?case by (simp only: usage_merge_assoc usage_sum_snoc)
qed

lemma usage_sum_append: "usage_sum (us @ vs) = usage_merge (usage_sum us) (usage_sum vs)"
  using foldl_usage_merge_shift [of "usage_sum us" vs] by (simp add: usage_sum_def foldl_usage_merge_consistent)

lemma input_tokens_usage_sum: "input_tokens (usage_sum us) = (\<Sum>u\<leftarrow>us. input_tokens u)"
  by (induction us rule: rev_induct) (auto simp: usage_sum_def usage_new_def usage_merge_def)

lemma output_tokens_usage_sum: "output_tokens (usage_sum us) = (\<Sum>u\<leftarrow>us. output_tokens u)"
  by (induction us rule: rev_induct) (auto simp: usage_sum_def usage_new_def usage_merge_def)

end
