(* ===== verification/Journal.thy ===== *)
theory Journal
  imports Core_Messages
begin

text \<open>
  The event-sourced conversation journal (\<open>behest-core/src/journal.rs\<close>): its events, entries
  and checkpoints, recording and restoring, the binary search of \<open>entries_since\<close>, and the
  prompt projection. Offsets are \<open>u64\<close> words; the clock of \<open>record\<close> is the argument \<open>now\<close>.
\<close>

section \<open>Events, entries, checkpoints\<close>

record tool_result =
  tr_call_id :: string
  tr_tool_name :: string
  tr_output :: string
  tr_is_error :: bool
  tr_value :: "json option"

definition tool_result_success :: "string \<Rightarrow> string \<Rightarrow> string \<Rightarrow> tool_result" where
  "tool_result_success i n out =
     \<lparr>tr_call_id = i, tr_tool_name = n, tr_output = out, tr_is_error = False, tr_value = None\<rparr>"

definition tool_result_error :: "string \<Rightarrow> string \<Rightarrow> string \<Rightarrow> tool_result" where
  "tool_result_error i n err =
     \<lparr>tr_call_id = i, tr_tool_name = n, tr_output = err, tr_is_error = True, tr_value = None\<rparr>"

definition tool_result_with_value :: "tool_result \<Rightarrow> json \<Rightarrow> tool_result" where
  "tool_result_with_value r v = r\<lparr>tr_value := Some v\<rparr>"

record session_checkpoint =
  compacted_until_offset :: u64
  cp_summary :: "string option"
  preserved_messages :: "message list"

datatype compaction_boundary =
    Microcompact usize
  | Autocompact usize usize
  | FullCompact usize usize

datatype session_event =
    InputReceived string
  | MessageAppended message
  | ToolCallStarted tool_call
  | ToolCallFinished tool_result
  | CheckpointCreated session_checkpoint
  | CompactionBoundary compaction_boundary

record log_entry =
  le_offset :: u64
  le_timestamp_ms :: u64
  le_event :: session_event

record journal =
  entries :: "log_entry list"
  next_offset :: u64

section \<open>Recording and restoring\<close>

definition journal_new :: journal where
  "journal_new = \<lparr>entries = [], next_offset = 0\<rparr>"

definition from_entries :: "log_entry list \<Rightarrow> journal" where
  "from_entries es =
     \<lparr>entries = es,
      next_offset = (if es = [] then 0 else sat_add_word (le_offset (last es)) 1)\<rparr>"

definition journal_record :: "u64 \<Rightarrow> session_event \<Rightarrow> journal \<Rightarrow> u64 \<times> journal" where
  "journal_record now ev j =
     (let off = next_offset j
      in (off, j\<lparr>entries := entries j @ [\<lparr>le_offset = off, le_timestamp_ms = now, le_event = ev\<rparr>],
                 next_offset := off + 1\<rparr>))"

definition journal_len :: "journal \<Rightarrow> usize" where
  "journal_len j = length (entries j)"

definition journal_is_empty :: "journal \<Rightarrow> bool" where
  "journal_is_empty j = (entries j = [])"

text \<open>\<open>slice::binary_search_by_key\<close>: \<open>Inr\<close> the index of a match, \<open>Inl\<close> the insertion point.\<close>

function binary_search_by_offset :: "log_entry list \<Rightarrow> u64 \<Rightarrow> nat \<Rightarrow> nat \<Rightarrow> nat + nat" where
  "binary_search_by_offset es k lo hi =
     (if lo < hi then
        let mid = lo + (hi - lo) div 2; c = le_offset (es ! mid)
        in if c = k then Inr mid
           else if c < k then binary_search_by_offset es k (mid + 1) hi
           else binary_search_by_offset es k lo mid
      else Inl lo)"
  by pat_completeness auto
termination
  by (relation "measure (\<lambda>(es, k, lo, hi). hi - lo)") auto

declare binary_search_by_offset.simps [simp del]

definition entries_since :: "journal \<Rightarrow> u64 \<Rightarrow> log_entry list" where
  "entries_since j off =
     (case binary_search_by_offset (entries j) off 0 (length (entries j)) of
        Inr idx \<Rightarrow> drop idx (entries j)
      | Inl idx \<Rightarrow> drop idx (entries j))"

section \<open>The prompt projection\<close>

definition push_open :: "tool_call list \<Rightarrow> tool_call \<Rightarrow> tool_call list" where
  "push_open opn call =
     (if list_ex (\<lambda>c. tc_id c = tc_id call) opn then opn else opn @ [call])"

definition close_call :: "string \<Rightarrow> tool_call list \<Rightarrow> tool_call list" where
  "close_call cid opn = filter (\<lambda>c. tc_id c \<noteq> cid) opn"

fun reopen_step :: "tool_call list \<Rightarrow> message \<Rightarrow> tool_call list" where
  "reopen_step opn (Tool cid _ _) = close_call cid opn"
| "reopen_step opn msg = foldl push_open opn (tool_calls msg)"

definition reopen_tool_calls :: "message list \<Rightarrow> tool_call list" where
  "reopen_tool_calls ms = foldl reopen_step [] ms"

record prompt_projection =
  pp_summary :: "string option"
  pp_messages :: "message list"
  pp_open_tool_calls :: "tool_call list"

text \<open>The local variables of \<open>build_prompt\<close>: the projection under construction and the offset
  below which entries are skipped.\<close>

record prompt_builder =
  pb_projection :: prompt_projection
  pb_compacted_until :: u64

definition apply_checkpoint :: "session_checkpoint \<Rightarrow> prompt_builder" where
  "apply_checkpoint cp =
     \<lparr>pb_projection = \<lparr>pp_summary = cp_summary cp, pp_messages = preserved_messages cp,
                       pp_open_tool_calls = reopen_tool_calls (preserved_messages cp)\<rparr>,
      pb_compacted_until = compacted_until_offset cp\<rparr>"

definition empty_builder :: prompt_builder where
  "empty_builder =
     \<lparr>pb_projection = \<lparr>pp_summary = None, pp_messages = [], pp_open_tool_calls = []\<rparr>,
      pb_compacted_until = 0\<rparr>"

fun replay_event :: "prompt_builder \<Rightarrow> session_event \<Rightarrow> prompt_builder" where
  "replay_event b (MessageAppended m) =
     b\<lparr>pb_projection := (pb_projection b)
        \<lparr>pp_open_tool_calls := foldl push_open (pp_open_tool_calls (pb_projection b)) (tool_calls m),
         pp_messages := pp_messages (pb_projection b) @ [m]\<rparr>\<rparr>"
| "replay_event b (ToolCallStarted call) =
     b\<lparr>pb_projection := (pb_projection b)
        \<lparr>pp_open_tool_calls := push_open (pp_open_tool_calls (pb_projection b)) call\<rparr>\<rparr>"
| "replay_event b (ToolCallFinished r) =
     b\<lparr>pb_projection := (pb_projection b)
        \<lparr>pp_open_tool_calls := close_call (tr_call_id r) (pp_open_tool_calls (pb_projection b))\<rparr>\<rparr>"
| "replay_event b (CheckpointCreated cp) = apply_checkpoint cp"
| "replay_event b (InputReceived _) = b"
| "replay_event b (CompactionBoundary _) = b"

definition replay_entry :: "prompt_builder \<Rightarrow> log_entry \<Rightarrow> prompt_builder" where
  "replay_entry b e =
     (if le_offset e < pb_compacted_until b then b else replay_event b (le_event e))"

definition build_prompt :: "journal \<Rightarrow> session_checkpoint list \<Rightarrow> prompt_projection" where
  "build_prompt j cps =
     pb_projection
       (foldl replay_entry (if cps = [] then empty_builder else apply_checkpoint (last cps))
         (entries j))"

definition to_prompt_messages :: "prompt_projection \<Rightarrow> message list" where
  "to_prompt_messages p =
     (case pp_summary p of None \<Rightarrow> [] | Some s \<Rightarrow> [system_text s]) @ pp_messages p"

section \<open>The invariant of the journal\<close>

definition offsets_sorted :: "log_entry list \<Rightarrow> bool" where
  "offsets_sorted es \<longleftrightarrow> sorted_wrt (\<lambda>a b. le_offset a < le_offset b) es"

definition journal_inv :: "journal \<Rightarrow> bool" where
  "journal_inv j \<longleftrightarrow> offsets_sorted (entries j) \<and>
     (entries j \<noteq> [] \<longrightarrow> le_offset (last (entries j)) < next_offset j \<and>
        next_offset j = le_offset (last (entries j)) + 1)"

lemma offsets_sorted_append:
  "offsets_sorted (xs @ ys) \<longleftrightarrow> offsets_sorted xs \<and> offsets_sorted ys \<and>
     (\<forall>x\<in>set xs. \<forall>y\<in>set ys. le_offset x < le_offset y)"
  by (simp add: offsets_sorted_def sorted_wrt_append)

lemma offsets_sorted_last:
  assumes "offsets_sorted es" and "e \<in> set es"
  shows "le_offset e \<le> le_offset (last es)"
proof (cases es rule: rev_cases)
  case (snoc xs x)
  with assms show ?thesis by (auto simp: offsets_sorted_append)
qed (use assms in simp)

lemma journal_inv_below:
  "journal_inv j \<Longrightarrow> e \<in> set (entries j) \<Longrightarrow> le_offset e < next_offset j"
  using offsets_sorted_last [of "entries j" e] by (fastforce simp: journal_inv_def)

lemma journal_inv_new [simp, inv_intros]: "journal_inv journal_new"
  by (simp add: journal_inv_def journal_new_def offsets_sorted_def)

lemma journal_inv_record [inv_intros]:
  assumes "journal_inv j" and "next_offset j < -1"
  shows "journal_inv (snd (journal_record now ev j))"
  using assms journal_inv_below [OF assms(1)]
  by (auto simp: journal_inv_def journal_record_def offsets_sorted_append Let_def
      offsets_sorted_def [of "[_]"] word_less_Suc)

lemma journal_inv_from_entries [inv_intros]:
  assumes "offsets_sorted es" and "es \<noteq> [] \<Longrightarrow> le_offset (last es) < -1"
  shows "journal_inv (from_entries es)"
  using assms word_less_Suc [of "le_offset (last es)" "- 1"]
  by (auto simp: journal_inv_def from_entries_def sat_add_word_def)

lemma journal_record_sel [simp]:
  "fst (journal_record now ev j) = next_offset j"
  "entries (snd (journal_record now ev j)) =
     entries j @ [\<lparr>le_offset = next_offset j, le_timestamp_ms = now, le_event = ev\<rparr>]"
  "next_offset (snd (journal_record now ev j)) = next_offset j + 1"
  by (simp_all add: journal_record_def Let_def)

text \<open>Recording several events, each with the clock it is recorded at.\<close>

fun record_all :: "(u64 \<times> session_event) list \<Rightarrow> journal \<Rightarrow> journal" where
  "record_all [] j = j"
| "record_all ((now, ev) # evs) j = record_all evs (snd (journal_record now ev j))"

fun logged_from :: "u64 \<Rightarrow> (u64 \<times> session_event) list \<Rightarrow> log_entry list" where
  "logged_from off [] = []"
| "logged_from off ((now, ev) # evs) =
     \<lparr>le_offset = off, le_timestamp_ms = now, le_event = ev\<rparr> # logged_from (off + 1) evs"

lemma record_all_entries: "entries (record_all evs j) = entries j @ logged_from (next_offset j) evs"
  by (induction evs j rule: record_all.induct) auto

lemma length_logged_from [simp]: "length (logged_from off evs) = length evs"
  by (induction off evs rule: logged_from.induct) auto

lemma unat_next: "unat (x :: u64) + Suc n < 2 ^ 64 \<Longrightarrow> x < -1 \<and> unat (x + 1) = Suc (unat x)"
  by (auto simp: word_less_nat_alt unat_max_u64 unat_word_ariths)

lemma record_all_inv:
  "journal_inv j \<Longrightarrow> unat (next_offset j) + length evs < 2 ^ 64 \<Longrightarrow> journal_inv (record_all evs j)"
proof (induction evs j rule: record_all.induct)
  case (2 now ev evs j)
  then have "next_offset j < -1 \<and> unat (next_offset j + 1) = Suc (unat (next_offset j))"
    using unat_next [of "next_offset j" "length evs"] by simp
  with 2 show ?case by (simp add: journal_inv_record)
qed simp

lemma logged_from_ge:
  "unat off + length evs < 2 ^ 64 \<Longrightarrow> e \<in> set (logged_from off evs) \<Longrightarrow> off \<le> le_offset e"
proof (induction off evs rule: logged_from.induct)
  case (2 off now ev evs)
  then have n: "off < -1 \<and> unat (off + 1) = Suc (unat off)"
    using unat_next [of off "length evs"] by simp
  then have "off < off + 1" using word_less_Suc by blast
  with n 2 show ?case by fastforce
qed simp

section \<open>The binary search\<close>

lemma binary_search_spec:
  assumes "offsets_sorted es" and "lo \<le> hi" and "hi \<le> length es"
    and "\<And>i. i < lo \<Longrightarrow> le_offset (es ! i) < k"
    and "\<And>i. hi \<le> i \<Longrightarrow> i < length es \<Longrightarrow> k \<le> le_offset (es ! i)"
  shows "\<exists>r. (binary_search_by_offset es k lo hi = Inr r \<or> binary_search_by_offset es k lo hi = Inl r)
    \<and> r \<le> length es \<and> (\<forall>i<r. le_offset (es ! i) < k)
    \<and> (\<forall>i. r \<le> i \<and> i < length es \<longrightarrow> k \<le> le_offset (es ! i))"
  using assms
proof (induction es k lo hi rule: binary_search_by_offset.induct)
  case (1 es k lo hi)
  let ?mid = "lo + (hi - lo) div 2"
  have mono: "i < i' \<Longrightarrow> i' < length es \<Longrightarrow> le_offset (es ! i) < le_offset (es ! i')" for i i'
    using "1.prems"(1) by (simp add: offsets_sorted_def sorted_wrt_iff_nth_less)
  consider "\<not> lo < hi" | "lo < hi" "le_offset (es ! ?mid) = k"
    | "lo < hi" "le_offset (es ! ?mid) < k" | "lo < hi" "k < le_offset (es ! ?mid)"
    by fastforce
  then show ?case
  proof cases
    case 1
    then have "binary_search_by_offset es k lo hi = Inl lo"
      by (subst binary_search_by_offset.simps) simp
    moreover have "lo = hi" using 1 "1.prems"(2) by simp
    ultimately show ?thesis using "1.prems" by (intro exI [of _ lo]) auto
  next
    case 2
    then have m: "?mid < length es" using "1.prems"(3) by linarith
    have "k \<le> le_offset (es ! i)" if "?mid \<le> i" "i < length es" for i
      using that mono [of ?mid i] 2(2) by (cases "i = ?mid") auto
    moreover have "\<forall>i<?mid. le_offset (es ! i) < k" using mono [of _ ?mid] m 2(2) by auto
    ultimately show ?thesis
      by (subst binary_search_by_offset.simps, subst binary_search_by_offset.simps)
        (use 2 m in \<open>auto simp: Let_def\<close>)
  next
    case 3
    have low: "le_offset (es ! i) < k" if "i < ?mid + 1" for i
      using that mono [of i ?mid] 3 "1.prems"(3) by (cases "i = ?mid") fastforce+
    have eq: "binary_search_by_offset es k lo hi = binary_search_by_offset es k (?mid + 1) hi"
      by (subst binary_search_by_offset.simps) (use 3 in \<open>auto simp: Let_def\<close>)
    show ?thesis unfolding eq
      by (rule "1.IH"(1) [OF _ refl refl]) (use 3 "1.prems" low in auto)
  next
    case 4
    have high: "k \<le> le_offset (es ! i)" if "?mid \<le> i" "i < length es" for i
      using that mono [of ?mid i] 4(2) by (cases "i = ?mid") auto
    have eq: "binary_search_by_offset es k lo hi = binary_search_by_offset es k lo ?mid"
      by (subst binary_search_by_offset.simps) (use 4 in \<open>auto simp: Let_def\<close>)
    show ?thesis unfolding eq
      by (rule "1.IH"(2) [OF _ refl refl]) (use 4 "1.prems" high in auto)
  qed
qed

lemma drop_eq_filter:
  assumes "r \<le> length xs" and "\<forall>i<r. \<not> P (xs ! i)" and "\<forall>i. r \<le> i \<and> i < length xs \<longrightarrow> P (xs ! i)"
  shows "drop r xs = filter P xs"
proof -
  have "filter P (take r xs) = []" using assms by (auto simp: filter_empty_conv in_set_conv_nth)
  moreover have "filter P (drop r xs) = drop r xs"
    using assms by (auto simp: filter_id_conv in_set_conv_nth)
  ultimately show ?thesis by (metis append_Nil append_take_drop_id filter_append)
qed

lemma entries_since_filter:
  assumes "offsets_sorted (entries j)"
  shows "entries_since j off = filter (\<lambda>e. off \<le> le_offset e) (entries j)"
proof -
  obtain r where r: "binary_search_by_offset (entries j) off 0 (length (entries j)) = Inr r
      \<or> binary_search_by_offset (entries j) off 0 (length (entries j)) = Inl r"
    "r \<le> length (entries j)" "\<forall>i<r. le_offset (entries j ! i) < off"
    "\<forall>i. r \<le> i \<and> i < length (entries j) \<longrightarrow> off \<le> le_offset (entries j ! i)"
    using binary_search_spec [OF assms, of 0 "length (entries j)" off] by auto
  then have "entries_since j off = drop r (entries j)" by (auto simp: entries_since_def)
  also have "\<dots> = filter (\<lambda>e. off \<le> le_offset e) (entries j)"
    using r by (intro drop_eq_filter) (auto simp: not_le)
  finally show ?thesis .
qed

lemma from_entries_entries:
  assumes "journal_inv j" and "entries j \<noteq> []"
  shows "from_entries (entries j) = j"
  using assms
  by (cases j) (auto simp: from_entries_def journal_inv_def sat_add_word_def)

section \<open>Open tool calls and checkpoints\<close>

lemma distinct_push_open [simp]:
  "distinct (map tc_id opn) \<Longrightarrow> distinct (map tc_id (push_open opn c))"
  by (auto simp: push_open_def list_ex_iff)

lemma distinct_foldl_push_open:
  "distinct (map tc_id opn) \<Longrightarrow> distinct (map tc_id (foldl push_open opn cs))"
  by (induction cs arbitrary: opn) auto

lemma distinct_close_call [simp]:
  "distinct (map tc_id opn) \<Longrightarrow> distinct (map tc_id (close_call cid opn))"
  by (simp add: close_call_def distinct_map_filter)

lemma distinct_reopen_tool_calls: "distinct (map tc_id (reopen_tool_calls ms))"
proof -
  have step: "distinct (map tc_id opn) \<Longrightarrow> distinct (map tc_id (reopen_step opn m))" for opn m
    by (cases m) (auto simp: distinct_foldl_push_open)
  have "distinct (map tc_id opn) \<Longrightarrow> distinct (map tc_id (foldl reopen_step opn ms))" for opn
    by (induction ms arbitrary: opn) (auto simp: step)
  then show ?thesis by (simp add: reopen_tool_calls_def)
qed

definition builder_distinct :: "prompt_builder \<Rightarrow> bool" where
  "builder_distinct b \<longleftrightarrow> distinct (map tc_id (pp_open_tool_calls (pb_projection b)))"

lemma builder_distinct_start:
  "builder_distinct empty_builder" "builder_distinct (apply_checkpoint cp)"
  by (simp_all add: builder_distinct_def empty_builder_def apply_checkpoint_def
      distinct_reopen_tool_calls)

lemma builder_distinct_replay: "builder_distinct b \<Longrightarrow> builder_distinct (replay_entry b e)"
  by (cases "le_event e")
    (auto simp: builder_distinct_def replay_entry_def distinct_foldl_push_open apply_checkpoint_def
      distinct_reopen_tool_calls)

lemma foldl_builder_distinct: "builder_distinct b \<Longrightarrow> builder_distinct (foldl replay_entry b es)"
  by (induction es arbitrary: b) (auto simp: builder_distinct_replay)

text \<open>Entries below the offset of the builder are skipped, the others are replayed.\<close>

lemma foldl_skip:
  "(\<And>e. e \<in> set es \<Longrightarrow> le_offset e < pb_compacted_until b) \<Longrightarrow> foldl replay_entry b es = b"
  by (induction es) (auto simp: replay_entry_def)

lemma build_prompt_record:
  "build_prompt (snd (journal_record now ev j)) cps =
     pb_projection (replay_entry
       (foldl replay_entry (if cps = [] then empty_builder else apply_checkpoint (last cps)) (entries j))
       \<lparr>le_offset = next_offset j, le_timestamp_ms = now, le_event = ev\<rparr>)"
  by (simp add: build_prompt_def)

lemma foldl_replay_messages:
  assumes "\<And>e. e \<in> set es \<Longrightarrow> pb_compacted_until b \<le> le_offset e"
    and "map le_event es = map MessageAppended ms"
  shows "pp_messages (pb_projection (foldl replay_entry b es)) = pp_messages (pb_projection b) @ ms"
    and "pp_summary (pb_projection (foldl replay_entry b es)) = pp_summary (pb_projection b)"
  using assms
  by (induction es arbitrary: b ms) (auto simp: replay_entry_def not_less [symmetric])

text \<open>Which tool calls an event opens and which one it closes.\<close>

definition event_opens :: "session_event \<Rightarrow> string \<Rightarrow> bool" where
  "event_opens ev cid =
     (case ev of MessageAppended m \<Rightarrow> cid \<in> tc_id ` set (tool_calls m)
      | ToolCallStarted c \<Rightarrow> tc_id c = cid | _ \<Rightarrow> False)"

definition event_closes :: "session_event \<Rightarrow> string \<Rightarrow> bool" where
  "event_closes ev cid = (case ev of ToolCallFinished r \<Rightarrow> tr_call_id r = cid | _ \<Rightarrow> False)"

definition is_checkpoint :: "session_event \<Rightarrow> bool" where
  "is_checkpoint ev = (case ev of CheckpointCreated _ \<Rightarrow> True | _ \<Rightarrow> False)"

definition open_ids :: "prompt_builder \<Rightarrow> string set" where
  "open_ids b = tc_id ` set (pp_open_tool_calls (pb_projection b))"

lemma ids_push_open: "tc_id ` set (push_open opn c) = insert (tc_id c) (tc_id ` set opn)"
  by (auto simp: push_open_def list_ex_iff) (metis imageI)

lemma ids_foldl_push_open: "tc_id ` set (foldl push_open opn cs) = tc_id ` set opn \<union> tc_id ` set cs"
  by (induction cs arbitrary: opn) (auto simp: ids_push_open)

lemma ids_close_call: "tc_id ` set (close_call cid opn) = tc_id ` set opn - {cid}"
  by (auto simp: close_call_def)

lemma open_ids_replay:
  "\<not> is_checkpoint ev \<Longrightarrow> cid \<in> open_ids (replay_event b ev) \<longleftrightarrow>
     event_opens ev cid \<or> (cid \<in> open_ids b \<and> \<not> event_closes ev cid)"
  by (cases ev) (auto simp: open_ids_def event_opens_def event_closes_def is_checkpoint_def
      ids_push_open ids_foldl_push_open ids_close_call)

lemma replay_event_until:
  "\<not> is_checkpoint ev \<Longrightarrow> pb_compacted_until (replay_event b ev) = pb_compacted_until b"
  by (cases ev) (auto simp: is_checkpoint_def)

lemma foldl_replay_until:
  "\<forall>e\<in>set es. \<not> is_checkpoint (le_event e) \<Longrightarrow>
     pb_compacted_until (foldl replay_entry b es) = pb_compacted_until b"
  by (induction es arbitrary: b) (auto simp: replay_entry_def replay_event_until)

definition opened_and_not_closed :: "log_entry list \<Rightarrow> string \<Rightarrow> bool" where
  "opened_and_not_closed es cid \<longleftrightarrow>
     (\<exists>pre e post. es = pre @ e # post \<and> event_opens (le_event e) cid \<and>
        (\<forall>e'\<in>set post. \<not> event_closes (le_event e') cid))"

lemma opened_snoc:
  "opened_and_not_closed (es @ [e]) cid \<longleftrightarrow>
     event_opens (le_event e) cid \<or>
     (opened_and_not_closed es cid \<and> \<not> event_closes (le_event e) cid)" (is "?l \<longleftrightarrow> ?r")
proof
  assume ?l
  then obtain pre x post where d: "es @ [e] = pre @ x # post" "event_opens (le_event x) cid"
    "\<forall>e'\<in>set post. \<not> event_closes (le_event e') cid"
    by (auto simp: opened_and_not_closed_def)
  show ?r
  proof (cases post rule: rev_cases)
    case (snoc post' y)
    with d have "es = pre @ x # post'" "y = e" by auto
    with d snoc show ?thesis by (auto simp: opened_and_not_closed_def)
  qed (use d in auto)
next
  assume ?r
  then consider "event_opens (le_event e) cid"
    | pre x post where "es = pre @ x # post" "event_opens (le_event x) cid"
      "\<forall>e'\<in>set post. \<not> event_closes (le_event e') cid" "\<not> event_closes (le_event e) cid"
    by (auto simp: opened_and_not_closed_def)
  then show ?l
  proof cases
    case 1
    then show ?thesis unfolding opened_and_not_closed_def by (intro exI [of _ es] exI) auto
  next
    case (2 pre x post)
    then show ?thesis unfolding opened_and_not_closed_def
      by (intro exI [of _ pre] exI [of _ x] exI [of _ "post @ [e]"]) auto
  qed
qed

lemma foldl_open_ids:
  assumes "\<forall>e\<in>set es. \<not> is_checkpoint (le_event e)" and "pb_compacted_until b = 0"
  shows "cid \<in> open_ids (foldl replay_entry b es) \<longleftrightarrow>
     opened_and_not_closed es cid \<or>
     (cid \<in> open_ids b \<and> (\<forall>e\<in>set es. \<not> event_closes (le_event e) cid))"
  using assms(1)
proof (induction es rule: rev_induct)
  case Nil
  then show ?case by (simp add: opened_and_not_closed_def)
next
  case (snoc e es)
  then have "pb_compacted_until (foldl replay_entry b es) = 0"
    using assms(2) by (simp add: foldl_replay_until)
  then have "foldl replay_entry b (es @ [e]) = replay_event (foldl replay_entry b es) (le_event e)"
    by (simp add: replay_entry_def)
  with snoc show ?case by (simp only: open_ids_replay opened_snoc) (auto simp: open_ids_replay)
qed

text \<open>Every checkpoint in sight covers only offsets already assigned.\<close>

definition checkpoints_below :: "journal \<Rightarrow> session_checkpoint list \<Rightarrow> bool" where
  "checkpoints_below j cps \<longleftrightarrow>
     (\<forall>cp\<in>set cps. compacted_until_offset cp \<le> next_offset j) \<and>
     (\<forall>e\<in>set (entries j). case le_event e of
        CheckpointCreated cp \<Rightarrow> compacted_until_offset cp \<le> next_offset j | _ \<Rightarrow> True)"

lemma foldl_replay_until_le:
  assumes "pb_compacted_until b \<le> n"
    and "\<forall>e\<in>set es. case le_event e of CheckpointCreated cp \<Rightarrow> compacted_until_offset cp \<le> n
      | _ \<Rightarrow> True"
  shows "pb_compacted_until (foldl replay_entry b es) \<le> n"
  using assms
proof (induction es arbitrary: b)
  case (Cons e es)
  then have "pb_compacted_until (replay_entry b e) \<le> n"
    by (cases "le_event e") (auto simp: replay_entry_def apply_checkpoint_def)
  with Cons show ?case by simp
qed simp

lemma builder_until_le:
  assumes "checkpoints_below j cps"
  shows "pb_compacted_until (foldl replay_entry
     (if cps = [] then empty_builder else apply_checkpoint (last cps)) (entries j)) \<le> next_offset j"
  using assms
  by (intro foldl_replay_until_le)
    (auto simp: checkpoints_below_def empty_builder_def apply_checkpoint_def)

lemma map_le_event_logged: "map le_event (logged_from off evs) = map snd evs"
  by (induction off evs rule: logged_from.induct) auto

section \<open>Properties\<close>

text \<open>C10: Incremental persistence. After any sequence of recordings on a well-formed journal,
  \<open>entries_since\<close> at the offset the journal had before returns exactly the entries recorded
  since, and a journal restored from the entries persisted before plus that increment is the
  current journal: same entries, same next offset.\<close>

theorem journal_incremental_persistence:
  assumes "journal_inv j" and "unat (next_offset j) + length evs < 2 ^ 64" and "evs \<noteq> []"
  shows "entries_since (record_all evs j) (next_offset j) = logged_from (next_offset j) evs \<and>
    from_entries (entries j @ entries_since (record_all evs j) (next_offset j)) = record_all evs j"
proof -
  have inv: "journal_inv (record_all evs j)" by (rule record_all_inv [OF assms(1,2)])
  have old: "filter (\<lambda>e. next_offset j \<le> le_offset e) (entries j) = []"
    using journal_inv_below [OF assms(1)] by (fastforce simp: filter_empty_conv not_le)
  have new: "filter (\<lambda>e. next_offset j \<le> le_offset e) (logged_from (next_offset j) evs)
      = logged_from (next_offset j) evs"
    using logged_from_ge [OF assms(2)] by (simp add: filter_id_conv)
  have since: "entries_since (record_all evs j) (next_offset j) = logged_from (next_offset j) evs"
    using inv by (simp add: entries_since_filter journal_inv_def record_all_entries old new)
  have "logged_from (next_offset j) evs \<noteq> []" using assms(3) length_logged_from
    by (metis length_0_conv)
  then show ?thesis
    using from_entries_entries [OF inv] by (simp add: since record_all_entries)
qed

lemma journal_incremental_persistence_witness:
  "let j = record_all [(5, InputReceived ''a'')] journal_new;
       evs = [(7, MessageAppended (user_text ''b'')), (8, InputReceived ''c'')]
   in entries_since (record_all evs j) 1 = logged_from 1 evs \<and>
      from_entries (entries j @ entries_since (record_all evs j) 1) = record_all evs j"
proof -
  let ?j = "record_all [(5, InputReceived ''a'')] journal_new"
  have j: "journal_inv ?j"
    by (rule record_all_inv [OF journal_inv_new]) (simp add: journal_new_def)
  have n: "next_offset ?j = 1" by (simp add: journal_new_def)
  show ?thesis unfolding Let_def
    by (rule journal_incremental_persistence [OF j, unfolded n]) simp_all
qed



text \<open>Open tool calls. In a log without checkpoint events the projection lists a call id as open
  exactly when some entry opened it (an assistant message carrying it, or \<open>ToolCallStarted\<close>) and no
  later entry finished it, and it never lists an id twice.\<close>

theorem open_tool_calls_exact:
  assumes "\<forall>e\<in>set (entries j). \<not> is_checkpoint (le_event e)"
  shows "(cid \<in> tc_id ` set (pp_open_tool_calls (build_prompt j []))
       \<longleftrightarrow> opened_and_not_closed (entries j) cid)
    \<and> distinct (map tc_id (pp_open_tool_calls (build_prompt j [])))"
proof (rule conjI)
  have "pb_compacted_until empty_builder = 0" "open_ids empty_builder = {}"
    by (simp_all add: empty_builder_def open_ids_def)
  then show "(cid \<in> tc_id ` set (pp_open_tool_calls (build_prompt j []))
       \<longleftrightarrow> opened_and_not_closed (entries j) cid)"
    using foldl_open_ids [OF assms, of empty_builder cid] by (simp add: build_prompt_def open_ids_def)
  show "distinct (map tc_id (pp_open_tool_calls (build_prompt j [])))"
    using foldl_builder_distinct [OF builder_distinct_start(1)]
    by (simp add: build_prompt_def builder_distinct_def)
qed

lemma open_tool_calls_exact_witness:
  "let j = record_all [(1, ToolCallStarted (tool_call_new ''1'' ''x'' JNull)),
                       (2, ToolCallStarted (tool_call_new ''2'' ''y'' JNull)),
                       (3, ToolCallFinished (tool_result_success ''1'' ''x'' ''ok''))] journal_new
   in (''2'' \<in> tc_id ` set (pp_open_tool_calls (build_prompt j []))
         \<longleftrightarrow> opened_and_not_closed (entries j) ''2'')
      \<and> distinct (map tc_id (pp_open_tool_calls (build_prompt j [])))
      \<and> map tc_id (pp_open_tool_calls (build_prompt j [])) = [''2'']"
proof -
  let ?j = "record_all [(1, ToolCallStarted (tool_call_new ''1'' ''x'' JNull)),
                       (2, ToolCallStarted (tool_call_new ''2'' ''y'' JNull)),
                       (3, ToolCallFinished (tool_result_success ''1'' ''x'' ''ok''))] journal_new"
  have e: "\<forall>e\<in>set (entries ?j). \<not> is_checkpoint (le_event e)"
    by (simp add: journal_new_def is_checkpoint_def)
  have v: "map tc_id (pp_open_tool_calls (build_prompt ?j [])) = [''2'']"
    by (simp add: journal_new_def build_prompt_def replay_entry_def empty_builder_def push_open_def
        close_call_def tool_call_new_def tool_result_success_def)
  show ?thesis using open_tool_calls_exact [OF e] v unfolding Let_def by blast
qed

end
