(* ===== verification/Recovery.thy ===== *)
theory Recovery
  imports Journal Rust_Str
begin

text \<open>
  Loop recovery (\<open>behest-core/src/recovery.rs\<close>): the message templates and their injection into a
  journal, snipping entries below an offset, and the compaction checkpoint that replaces a snip.
  The em dash of the first template is written as its three UTF-8 bytes.
\<close>

section \<open>Requirements and message templates\<close>

datatype completion_requirement = WorkspaceFile "string option"

definition requirement_file :: "string \<Rightarrow> completion_requirement" where
  "requirement_file p = WorkspaceFile (Some p)"

definition requirement_any_file :: completion_requirement where
  "requirement_any_file = WorkspaceFile None"

fun render :: "completion_requirement \<Rightarrow> string" where
  "render (WorkspaceFile (Some p)) =
     ''You must create or update the workspace file `'' @ p
     @ ''` before replying with a final answer.''"
| "render (WorkspaceFile None) =
     ''You must create or update a file in the workspace containing the requested result before replying with a final answer.''"

definition max_tokens_recovery_message :: "usize \<Rightarrow> string" where
  "max_tokens_recovery_message turn =
     ''Output token limit hit. Resume directly '' @ [CHR 0xE2, CHR 0x80, CHR 0x94]
     @ '' no apology, no recap of what you were doing. Pick up mid-thought if that is where the cut happened. Break remaining work into smaller pieces.''"

definition permission_retry_message :: "usize \<Rightarrow> string list \<Rightarrow> string" where
  "permission_retry_message turn tool_names =
     (let names = str_join '', '' tool_names
      in ''A permission-denied hook requested one retry for the blocked tool call(s): '' @ names @ ''.''
         @ [newline] @
         ''Continue from where you left off. If you still need the action, retry with safer input or a narrower scope instead of stopping.'')"

definition completion_reminder_message :: "usize \<Rightarrow> completion_requirement list \<Rightarrow> string" where
  "completion_reminder_message turn reqs =
     (let start = [''Continue from where you left off.'', ''The task is not complete yet.''];
          all = start @ map render reqs
            @ [''Use a filesystem tool now instead of describing the next step.'']
      in str_join [newline] all)"

section \<open>Injection\<close>

definition inject_max_tokens_recovery :: "u64 \<Rightarrow> journal \<Rightarrow> usize \<Rightarrow> u64 \<times> journal" where
  "inject_max_tokens_recovery now j turn =
     (let msg = user_text (max_tokens_recovery_message turn)
      in journal_record now (MessageAppended msg) j)"

definition inject_permission_retry ::
  "u64 \<Rightarrow> journal \<Rightarrow> usize \<Rightarrow> string list \<Rightarrow> u64 \<times> journal" where
  "inject_permission_retry now j turn tool_names =
     (let msg = user_text (permission_retry_message turn tool_names)
      in journal_record now (MessageAppended msg) j)"

definition inject_completion_reminder ::
  "u64 \<Rightarrow> journal \<Rightarrow> usize \<Rightarrow> completion_requirement list \<Rightarrow> u64 \<times> journal" where
  "inject_completion_reminder now j turn reqs =
     (let msg = user_text (completion_reminder_message turn reqs)
      in journal_record now (MessageAppended msg) j)"

section \<open>Snipping\<close>

definition snip_before_offset :: "journal \<Rightarrow> u64 \<Rightarrow> usize \<times> journal" where
  "snip_before_offset j off =
     (let before = journal_len j
      in if before = 0 then (0, j)
         else let kept = filter (\<lambda>e. off \<le> le_offset e) (entries j);
                  removed = before - length kept
              in (removed, from_entries kept))"

definition build_compaction_checkpoint ::
  "u64 \<Rightarrow> string \<Rightarrow> message list \<Rightarrow> session_checkpoint" where
  "build_compaction_checkpoint until s preserved =
     \<lparr>compacted_until_offset = until, cp_summary = Some s, preserved_messages = preserved\<rparr>"

lemma snip_entries:
  "entries (snd (snip_before_offset j off)) = filter (\<lambda>e. off \<le> le_offset e) (entries j)"
  by (simp add: snip_before_offset_def journal_len_def from_entries_def Let_def)

lemma sorted_filter_split:
  assumes "offsets_sorted es"
  shows "es = filter (\<lambda>e. le_offset e < off) es @ filter (\<lambda>e. off \<le> le_offset e) es"
  using assms
proof (induction es)
  case (Cons e es)
  then have "offsets_sorted es" "\<forall>x\<in>set es. le_offset e < le_offset x"
    by (simp_all add: offsets_sorted_def)
  moreover from this have "filter (\<lambda>e. le_offset e < off) es = []" if "off \<le> le_offset e"
    using that by (fastforce simp: filter_empty_conv not_less)
  ultimately show ?case using Cons.IH
    by (cases "le_offset e < off") (auto simp: not_less filter_id_conv)
qed simp

lemma last_filter_kept:
  assumes "offsets_sorted es" and "\<exists>e\<in>set es. off \<le> le_offset e"
  shows "last (filter (\<lambda>e. off \<le> le_offset e) es) = last es"
proof -
  have "filter (\<lambda>e. off \<le> le_offset e) es \<noteq> []" using assms(2) by (auto simp: filter_empty_conv)
  then have "last (filter (\<lambda>e. le_offset e < off) es @ filter (\<lambda>e. off \<le> le_offset e) es)
      = last (filter (\<lambda>e. off \<le> le_offset e) es)" by simp
  then show ?thesis using sorted_filter_split [OF assms(1), of off] by simp
qed

text \<open>Two builders that agree but for the offset below which they skip replay the same entries in
  the same way, when neither skips any.\<close>

lemma foldl_replay_same_projection:
  assumes "\<forall>e\<in>set es. off \<le> le_offset e"
    and "b' = b\<lparr>pb_compacted_until := off'\<rparr>" and "pb_compacted_until b \<le> off" and "off' \<le> off"
    and "offsets_sorted es"
  shows "pb_projection (foldl replay_entry b' es) = pb_projection (foldl replay_entry b es)"
  using assms
proof (induction es arbitrary: b b' off)
  case (Cons e es)
  have step: "replay_entry b e = replay_event b (le_event e)"
      "replay_entry b' e = replay_event b' (le_event e)"
    using Cons.prems by (auto simp: replay_entry_def not_less [symmetric])
  show ?case
  proof (cases "is_checkpoint (le_event e)")
    case True
    then have "replay_entry b e = replay_entry b' e"
      unfolding step by (cases "le_event e") (auto simp: is_checkpoint_def)
    then show ?thesis by simp
  next
    case False
    then have "replay_entry b' e = (replay_entry b e)\<lparr>pb_compacted_until := off'\<rparr>"
      unfolding step using Cons.prems(2) by (cases "le_event e") (auto simp: is_checkpoint_def)
    moreover have "pb_compacted_until (replay_entry b e) \<le> off"
      unfolding step replay_event_until [OF False] by (rule Cons.prems(3))
    ultimately show ?thesis
      using Cons.IH [of off "replay_entry b' e" "replay_entry b e"] Cons.prems
      by (simp add: offsets_sorted_def)
  qed
qed simp

section \<open>Properties\<close>

text \<open>Snipping is a checkpoint without summary. On a well-formed journal the prompt after
  \<open>snip_before_offset\<close> is the prompt the untouched journal gives under a checkpoint at that offset
  that preserves nothing, and the number returned is the number of entries below the offset.\<close>

theorem snip_is_empty_checkpoint:
  assumes "journal_inv j"
  shows "build_prompt (snd (snip_before_offset j off)) [] =
      build_prompt j [\<lparr>compacted_until_offset = off, cp_summary = None, preserved_messages = []\<rparr>]
    \<and> fst (snip_before_offset j off) = length (filter (\<lambda>e. le_offset e < off) (entries j))"
proof (rule conjI)
  let ?cp = "\<lparr>compacted_until_offset = off, cp_summary = None, preserved_messages = []\<rparr>"
  let ?old = "filter (\<lambda>e. le_offset e < off) (entries j)"
  let ?new = "filter (\<lambda>e. off \<le> le_offset e) (entries j)"
  have sorted: "offsets_sorted (entries j)" using assms by (simp add: journal_inv_def)
  have split: "entries j = ?old @ ?new" by (rule sorted_filter_split [OF sorted])
  have b: "pb_projection empty_builder = pb_projection (apply_checkpoint ?cp)"
      "pb_compacted_until (apply_checkpoint ?cp) = off"
    by (simp_all add: empty_builder_def apply_checkpoint_def reopen_tool_calls_def)
  have skip: "foldl replay_entry (apply_checkpoint ?cp) ?old = apply_checkpoint ?cp"
    by (rule foldl_skip) (simp add: b)
  have "build_prompt j [?cp] = pb_projection (foldl replay_entry (apply_checkpoint ?cp) (?old @ ?new))"
    using split by (simp add: build_prompt_def)
  also have "\<dots> = pb_projection (foldl replay_entry (apply_checkpoint ?cp) ?new)"
    by (simp add: skip)
  also have "\<dots> = pb_projection (foldl replay_entry empty_builder ?new)"
    using sorted
    by (intro foldl_replay_same_projection [where off = off and off' = off])
      (auto simp: empty_builder_def apply_checkpoint_def reopen_tool_calls_def
        offsets_sorted_def sorted_wrt_filter)
  finally show "build_prompt (snd (snip_before_offset j off)) [] = build_prompt j [?cp]"
    by (simp add: build_prompt_def snip_entries)
  have "length (entries j) = length ?old + length ?new" by (metis split length_append)
  then show "fst (snip_before_offset j off) = length ?old"
    by (simp add: snip_before_offset_def journal_len_def Let_def)
qed

lemma snip_is_empty_checkpoint_witness:
  "let j = record_all [(1, MessageAppended (user_text ''a'')), (2, MessageAppended (user_text ''b''))]
             journal_new
   in build_prompt (snd (snip_before_offset j 1)) [] =
      build_prompt j [\<lparr>compacted_until_offset = 1, cp_summary = None, preserved_messages = []\<rparr>]
    \<and> fst (snip_before_offset j 1) = length (filter (\<lambda>e. le_offset e < 1) (entries j))"
  unfolding Let_def
  by (rule snip_is_empty_checkpoint, rule record_all_inv [OF journal_inv_new])
    (simp add: journal_new_def)

text \<open>Snipping and later offsets. Snipping keeps the journal well formed, and keeps its next
  offset as long as one entry survives; when every entry is snipped the next offset falls back to 0,
  so the following recording is given an offset that was assigned before.\<close>

theorem snip_next_offset:
  assumes "journal_inv j" and "entries j \<noteq> []" and "next_offset j < -1"
  shows "journal_inv (snd (snip_before_offset j off)) \<and>
    next_offset (snd (snip_before_offset j off)) =
      (if \<exists>e\<in>set (entries j). off \<le> le_offset e then next_offset j else 0)"
proof -
  let ?new = "filter (\<lambda>e. off \<le> le_offset e) (entries j)"
  have s: "snd (snip_before_offset j off) = from_entries ?new"
    using assms(2) by (simp add: snip_before_offset_def journal_len_def Let_def)
  have sorted: "offsets_sorted (entries j)" using assms by (simp add: journal_inv_def)
  then have sorted': "offsets_sorted ?new" by (simp add: offsets_sorted_def sorted_wrt_filter)
  have lt: "le_offset (last (entries j)) < -1" and nx: "next_offset j = le_offset (last (entries j)) + 1"
    using assms by (auto simp: journal_inv_def intro: less_trans)
  show ?thesis
  proof (cases "\<exists>e\<in>set (entries j). off \<le> le_offset e")
    case True
    then have "?new \<noteq> []" by (auto simp: filter_empty_conv)
    then show ?thesis
      using True last_filter_kept [OF sorted True] lt nx journal_inv_from_entries [OF sorted']
        word_less_Suc [OF lt, THEN less_imp_le]
      by (simp add: s) (simp add: from_entries_def sat_add_word_def)
  next
    case False
    then have "?new = []" by (simp add: filter_empty_conv)
    then show ?thesis unfolding s using False
      by (auto simp: from_entries_def journal_inv_def offsets_sorted_def)
  qed
qed

lemma snip_next_offset_witness:
  "let j = record_all [(1, MessageAppended (user_text ''a''))] journal_new
   in next_offset (snd (snip_before_offset j 0)) = 1 \<and> next_offset (snd (snip_before_offset j 1)) = 0"
proof -
  let ?j = "record_all [(1, MessageAppended (user_text ''a''))] journal_new"
  have j: "journal_inv ?j"
    by (rule record_all_inv [OF journal_inv_new]) (simp add: journal_new_def)
  have "(1 :: u64) < - 1" by (simp add: word_less_nat_alt unat_max_u64)
  then show ?thesis
    using snip_next_offset [OF j, of 0] snip_next_offset [OF j, of 1]
    by (simp add: journal_new_def)
qed

text \<open>The consequence of the reset: after all entries of a journal were snipped, a message
  recorded next is invisible in every prompt built with a checkpoint the host stored earlier for a
  positive offset.\<close>

theorem snip_all_hides_new_messages:
  assumes "entries j \<noteq> []" and "\<forall>e\<in>set (entries j). le_offset e < off"
    and "0 < compacted_until_offset cp"
  shows "build_prompt (snd (journal_record now (MessageAppended m) (snd (snip_before_offset j off)))) [cp]
     = pb_projection (apply_checkpoint cp)"
proof -
  have "filter (\<lambda>e. off \<le> le_offset e) (entries j) = []"
    using assms(2) by (simp add: filter_empty_conv not_le)
  then have "snd (snip_before_offset j off) = from_entries []"
    using assms(1) by (simp add: snip_before_offset_def journal_len_def Let_def)
  then show ?thesis using assms(3)
    by (simp add: build_prompt_def from_entries_def replay_entry_def apply_checkpoint_def)
qed

lemma snip_all_hides_new_messages_witness:
  "build_prompt (snd (journal_record 9 (MessageAppended (user_text ''new''))
       (snd (snip_before_offset (record_all [(1, InputReceived ''x'')] journal_new) 1))))
     [build_compaction_checkpoint 1 ''s'' []]
   = \<lparr>pp_summary = Some ''s'', pp_messages = [], pp_open_tool_calls = []\<rparr>"
  using snip_all_hides_new_messages [of "record_all [(1, InputReceived ''x'')] journal_new" 1
      "build_compaction_checkpoint 1 ''s'' []" 9 "user_text ''new''"]
  by (simp add: journal_new_def build_compaction_checkpoint_def apply_checkpoint_def
      reopen_tool_calls_def)

end
