(* ===== verification/Sub_Engine.thy ===== *)
theory Sub_Engine
  imports Journal
begin

text \<open>
  Sub-agent engines (\<open>behest-core/src/sub_engine.rs\<close>): the sliding creation quota, the fan-out
  bounds, and the tree of engines that share the two \<open>AtomicU32\<close> counters. Instants and durations
  are nanoseconds since boot (\<open>nat\<close>); \<open>Instant::now\<close> is the argument \<open>now\<close>.
\<close>

section \<open>The quota window\<close>

record quota_window =
  max_creations :: u32
  window :: nat
  timestamps :: "nat list"

definition quota_new :: "u32 \<Rightarrow> nat \<Rightarrow> quota_window" where
  "quota_new m w = \<lparr>max_creations = m, window = w, timestamps = []\<rparr>"

definition quota_default :: quota_window where
  "quota_default = quota_new 24 60000000000"

definition checked_sub :: "nat \<Rightarrow> nat \<Rightarrow> nat option" where
  "checked_sub a b = (if b \<le> a then Some (a - b) else None)"

definition evict_expired :: "nat \<Rightarrow> quota_window \<Rightarrow> quota_window" where
  "evict_expired now q =
     (case checked_sub now (window q) of
        Some cutoff \<Rightarrow> q\<lparr>timestamps := filter (\<lambda>t. cutoff \<le> t) (timestamps q)\<rparr>
      | None \<Rightarrow> q)"

text \<open>\<open>len() as u32\<close> truncates.\<close>

definition active_count :: "nat \<Rightarrow> quota_window \<Rightarrow> u32 \<times> quota_window" where
  "active_count now q =
     (let q = evict_expired now q in (of_nat (length (timestamps q)), q))"

definition quota_check :: "nat \<Rightarrow> quota_window \<Rightarrow> u32 \<times> quota_window" where
  "quota_check now q =
     (let q = evict_expired now q
      in (sat_sub_word (max_creations q) (of_nat (length (timestamps q))), q))"

definition quota_record :: "nat \<Rightarrow> quota_window \<Rightarrow> bool \<times> quota_window" where
  "quota_record now q =
     (let q = evict_expired now q
      in if (of_nat (length (timestamps q)) :: u32) \<ge> max_creations q then (False, q)
         else (True, q\<lparr>timestamps := timestamps q @ [now]\<rparr>))"

definition quota_reset :: "quota_window \<Rightarrow> quota_window" where
  "quota_reset q = q\<lparr>timestamps := []\<rparr>"

text \<open>A run of timed operations on one window; it collects the times of the accepted creations.\<close>

datatype quota_op = OpRecord | OpCheck | OpActive

fun quota_run :: "(quota_op \<times> nat) list \<Rightarrow> quota_window \<Rightarrow> nat list \<Rightarrow> quota_window \<times> nat list" where
  "quota_run [] q acc = (q, acc)"
| "quota_run ((OpRecord, now) # ops) q acc =
     (let (ok, q') = quota_record now q in quota_run ops q' (if ok then acc @ [now] else acc))"
| "quota_run ((OpCheck, now) # ops) q acc = quota_run ops (snd (quota_check now q)) acc"
| "quota_run ((OpActive, now) # ops) q acc = quota_run ops (snd (active_count now q)) acc"

lemma evict_filter: "evict_expired now q = q\<lparr>timestamps := filter (\<lambda>t. now \<le> t + window q) (timestamps q)\<rparr>"
proof (cases "window q \<le> now")
  case True
  then have "(\<lambda>t. now - window q \<le> t) = (\<lambda>t. now \<le> t + window q)" by auto
  with True show ?thesis by (simp add: evict_expired_def checked_sub_def)
next
  case False
  then have "\<forall>t. now \<le> t + window q" by (simp add: trans_le_add2)
  with False show ?thesis by (simp add: evict_expired_def checked_sub_def)
qed

text \<open>\<open>acc\<close> holds the accepted times up to \<open>c\<close>, of which the window keeps those not older than
  its length.\<close>

definition quota_inv :: "quota_window \<Rightarrow> nat list \<Rightarrow> nat \<Rightarrow> bool" where
  "quota_inv q acc c \<longleftrightarrow>
     timestamps q = filter (\<lambda>t. c \<le> t + window q) acc \<and> (\<forall>t\<in>set acc. t \<le> c) \<and>
     (\<forall>s. length (filter (\<lambda>t. s \<le> t \<and> t \<le> s + window q) acc) \<le> unat (max_creations q))"

lemma quota_inv_new: "quota_inv (quota_new m w) [] 0"
  by (simp add: quota_inv_def quota_new_def)

lemma evict_sel [simp]:
  "window (evict_expired now q) = window q"
  "max_creations (evict_expired now q) = max_creations q"
  by (simp_all add: evict_filter)

lemma quota_inv_evict:
  assumes "quota_inv q acc c" and "c \<le> now"
  shows "quota_inv (evict_expired now q) acc now"
proof -
  have "(\<lambda>t. c \<le> t + window q \<and> now \<le> t + window q) = (\<lambda>t. now \<le> t + window q)"
    using assms(2) by auto
  with assms show ?thesis by (auto simp: quota_inv_def evict_filter intro: order_trans)
qed

lemma quota_inv_length:
  assumes "quota_inv q acc c"
  shows "length (timestamps q) \<le> unat (max_creations q)"
    "unat (of_nat (length (timestamps q)) :: u32) = length (timestamps q)"
proof -
  have "timestamps q = filter (\<lambda>t. c - window q \<le> t \<and> t \<le> c - window q + window q) acc"
    using assms unfolding quota_inv_def by (auto intro!: filter_cong)
  then show l: "length (timestamps q) \<le> unat (max_creations q)"
    using assms unfolding quota_inv_def by metis
  have "unat (max_creations q) < 2 ^ 32" using unsigned_less [of "max_creations q"] by simp
  with l show "unat (of_nat (length (timestamps q)) :: u32) = length (timestamps q)"
    by (simp add: unat_of_nat)
qed

text \<open>The decision of \<open>record\<close>: accepted exactly when fewer than \<open>max_creations\<close> accepted times
  lie within the window before it.\<close>

lemma quota_record_iff:
  assumes "quota_inv q acc c" and "c \<le> now"
  shows "fst (quota_record now q) \<longleftrightarrow>
    length (filter (\<lambda>t. now \<le> t + window q) acc) < unat (max_creations q)"
proof -
  let ?q = "evict_expired now q"
  have i: "quota_inv ?q acc now" by (rule quota_inv_evict [OF assms])
  then have "timestamps ?q = filter (\<lambda>t. now \<le> t + window q) acc" by (simp add: quota_inv_def)
  with quota_inv_length(2) [OF i] show ?thesis
    by (auto simp: quota_record_def Let_def word_le_nat_alt)
qed

lemma quota_inv_record:
  assumes "quota_inv q acc c" and "c \<le> now"
  shows "quota_inv (snd (quota_record now q)) (if fst (quota_record now q) then acc @ [now] else acc) now"
proof (cases "fst (quota_record now q)")
  case False
  then show ?thesis
    using quota_inv_evict [OF assms] by (auto simp: quota_record_def Let_def split: if_splits)
next
  case True
  let ?q = "evict_expired now q"
  have i: "quota_inv ?q acc now" by (rule quota_inv_evict [OF assms])
  have few: "length (filter (\<lambda>t. now \<le> t + window q) acc) < unat (max_creations q)"
    using True quota_record_iff [OF assms] by simp
  have bound: "length (filter (\<lambda>t. s \<le> t \<and> t \<le> s + window q) (acc @ [now]))
      \<le> unat (max_creations q)" for s
  proof (cases "s \<le> now \<and> now \<le> s + window q")
    case True
    have "length (filter (\<lambda>t. s \<le> t \<and> t \<le> s + window q) acc) =
        length (filter (\<lambda>t. s \<le> t \<and> t \<le> s + window q) (filter (\<lambda>t. now \<le> t + window q) acc))"
      using True by (auto intro!: arg_cong [where f = length] filter_cong)
    also have "\<dots> \<le> length (filter (\<lambda>t. now \<le> t + window q) acc)"
      by (rule length_filter_le)
    finally show ?thesis using few True by simp
  next
    case False
    with assms(1) show ?thesis by (auto simp: quota_inv_def)
  qed
  have "snd (quota_record now q) = ?q\<lparr>timestamps := timestamps ?q @ [now]\<rparr>"
    using True by (auto simp: quota_record_def Let_def split: if_splits)
  moreover have "timestamps ?q @ [now] = filter (\<lambda>t. now \<le> t + window q) (acc @ [now])"
    using i by (simp add: quota_inv_def)
  moreover have "\<forall>t\<in>set (acc @ [now]). t \<le> now" using i by (simp add: quota_inv_def)
  ultimately show ?thesis using True bound unfolding quota_inv_def by simp
qed

lemma quota_record_sel [simp]:
  "window (snd (quota_record now q)) = window q"
  "max_creations (snd (quota_record now q)) = max_creations q"
  by (simp_all add: quota_record_def Let_def)

lemma quota_run_inv:
  assumes "quota_inv q acc c" and "sorted (c # map snd ops)"
  shows "\<exists>c'. quota_inv (fst (quota_run ops q acc)) (snd (quota_run ops q acc)) c'
    \<and> window (fst (quota_run ops q acc)) = window q
    \<and> max_creations (fst (quota_run ops q acc)) = max_creations q"
  using assms
proof (induction ops q acc arbitrary: c rule: quota_run.induct)
  case (2 now ops q acc)
  have "c \<le> now" using 2 by simp
  note i = quota_inv_record [OF 2(2) this]
  show ?case using "2.IH" [OF refl prod.collapse i] 2(3)
    by (auto simp: split_beta Let_def)
next
  case (3 now ops q acc)
  then show ?case using quota_inv_evict [of q acc c now] by (auto simp: quota_check_def Let_def)
next
  case (4 now ops q acc)
  then show ?case using quota_inv_evict [of q acc c now] by (auto simp: active_count_def Let_def)
qed auto



section \<open>Bounds and the tree of engines\<close>

record subagent_bounds =
  max_child_depth :: u32
  max_live_children :: u32
  max_total_descendants :: u32

definition bounds_default :: subagent_bounds where
  "bounds_default =
     \<lparr>max_child_depth = 4, max_live_children = 6, max_total_descendants = 24\<rparr>"

datatype subagent_error =
    MaxDepthExceeded u32 u32
  | MaxChildrenExceeded u32
  | MaxDescendantsExceeded u32 u32

record sub_engine_config =
  allowed_tools :: "string list option"
  sub_system_prompt :: "string option"
  max_turns :: usize

definition sub_config_default :: sub_engine_config where
  "sub_config_default = \<lparr>allowed_tools = None, sub_system_prompt = None, max_turns = 0\<rparr>"

record sub_engine =
  se_journal :: journal
  se_config :: sub_engine_config
  se_bounds :: subagent_bounds
  se_depth :: u32

text \<open>One tree: the engines alive, by an identity of their own, and the two counters behind the
  \<open>Arc\<close>s every engine of the tree shares.\<close>

record engine_tree =
  engines :: "(nat \<times> sub_engine) list"
  live_children :: u32
  total_descendants :: u32

definition tree_root :: "journal \<Rightarrow> subagent_bounds \<Rightarrow> engine_tree" where
  "tree_root j b =
     \<lparr>engines = [(0, \<lparr>se_journal = j, se_config = sub_config_default, se_bounds = b, se_depth = 0\<rparr>)],
      live_children = 0, total_descendants = 0\<rparr>"

definition can_create_child :: "engine_tree \<Rightarrow> sub_engine \<Rightarrow> bool" where
  "can_create_child t e \<longleftrightarrow>
     se_depth e < max_child_depth (se_bounds e) \<and>
     live_children t < max_live_children (se_bounds e) \<and>
     total_descendants t < max_total_descendants (se_bounds e)"

text \<open>\<open>create_sub_engine\<close> loads the counters and checks them, then increments them: two phases with
  nothing to hold other threads off in between.\<close>

definition create_check :: "engine_tree \<Rightarrow> sub_engine \<Rightarrow> subagent_error option" where
  "create_check t e =
     (let b = se_bounds e in
      if se_depth e \<ge> max_child_depth b then Some (MaxDepthExceeded (max_child_depth b) (se_depth e))
      else if live_children t \<ge> max_live_children b then Some (MaxChildrenExceeded (max_live_children b))
      else if total_descendants t \<ge> max_total_descendants b
      then Some (MaxDescendantsExceeded (max_total_descendants b) (total_descendants t))
      else None)"

definition create_commit :: "engine_tree \<Rightarrow> nat \<Rightarrow> sub_engine \<Rightarrow> sub_engine_config \<Rightarrow> engine_tree" where
  "create_commit t i e cfg =
     t\<lparr>live_children := live_children t + 1, total_descendants := total_descendants t + 1,
       engines := engines t @ [(i, \<lparr>se_journal = journal_new, se_config = cfg,
         se_bounds = se_bounds e, se_depth = se_depth e + 1\<rparr>)]\<rparr>"

definition create_sub_engine ::
  "engine_tree \<Rightarrow> nat \<Rightarrow> sub_engine \<Rightarrow> sub_engine_config \<Rightarrow> subagent_error + engine_tree" where
  "create_sub_engine t i e cfg =
     (case create_check t e of Some err \<Rightarrow> Inl err | None \<Rightarrow> Inr (create_commit t i e cfg))"

definition drop_engine :: "engine_tree \<Rightarrow> nat \<Rightarrow> engine_tree" where
  "drop_engine t i =
     (case map_of (engines t) i of
        None \<Rightarrow> t
      | Some e \<Rightarrow> t\<lparr>engines := filter (\<lambda>(k, _). k \<noteq> i) (engines t),
                   live_children := (if se_depth e > 0 then live_children t - 1 else live_children t)\<rparr>)"

definition sub_record :: "sub_engine \<Rightarrow> u64 \<Rightarrow> session_event \<Rightarrow> u64 \<times> sub_engine" where
  "sub_record e now ev =
     (let (off, j) = journal_record now ev (se_journal e) in (off, e\<lparr>se_journal := j\<rparr>))"

definition sub_append_message :: "sub_engine \<Rightarrow> u64 \<Rightarrow> message \<Rightarrow> u64 \<times> sub_engine" where
  "sub_append_message e now m = sub_record e now (MessageAppended m)"

definition record_one :: "nat \<Rightarrow> u64 \<Rightarrow> session_event \<Rightarrow> nat \<times> sub_engine \<Rightarrow> nat \<times> sub_engine" where
  "record_one i now ev ke =
     (fst ke, if fst ke = i then snd (sub_record (snd ke) now ev) else snd ke)"

definition record_in :: "engine_tree \<Rightarrow> nat \<Rightarrow> u64 \<Rightarrow> session_event \<Rightarrow> engine_tree" where
  "record_in t i now ev = t\<lparr>engines := map (record_one i now ev) (engines t)\<rparr>"

definition sub_build_prompt :: "sub_engine \<Rightarrow> prompt_projection" where
  "sub_build_prompt e = build_prompt (se_journal e) []"

text \<open>The operations of a host on one tree: create a child of the engine with a given identity
  under a fresh one, drop an engine, record an event. A failed creation changes nothing.\<close>

datatype tree_op =
    CreateChild nat nat sub_engine_config
  | DropEngine nat
  | RecordEvent nat u64 session_event

fun tree_apply :: "engine_tree \<Rightarrow> tree_op \<Rightarrow> engine_tree" where
  "tree_apply t (CreateChild p i cfg) =
     (case map_of (engines t) p of
        None \<Rightarrow> t
      | Some e \<Rightarrow> if i \<in> fst ` set (engines t) then t
                  else (case create_sub_engine t i e cfg of Inl _ \<Rightarrow> t | Inr t' \<Rightarrow> t'))"
| "tree_apply t (DropEngine i) = drop_engine t i"
| "tree_apply t (RecordEvent i now ev) = record_in t i now ev"

section \<open>The invariant of the tree\<close>

definition live_count :: "engine_tree \<Rightarrow> nat" where
  "live_count t = length (filter (\<lambda>(_, e). 0 < se_depth e) (engines t))"

definition tree_inv :: "subagent_bounds \<Rightarrow> engine_tree \<Rightarrow> bool" where
  "tree_inv b t \<longleftrightarrow> distinct (map fst (engines t)) \<and>
     (\<forall>(_, e)\<in>set (engines t). se_bounds e = b \<and> se_depth e \<le> max_child_depth b) \<and>
     unat (live_children t) = live_count t \<and>
     live_children t \<le> max_live_children b \<and>
     total_descendants t \<le> max_total_descendants b \<and> live_children t \<le> total_descendants t"

lemma create_check_None: "create_check t e = None \<longleftrightarrow> can_create_child t e"
  by (auto simp: create_check_def can_create_child_def Let_def not_le)

lemma tree_inv_root: "tree_inv b (tree_root j b)"
  by (simp add: tree_inv_def tree_root_def live_count_def)

lemma word_inc_le: "x < y \<Longrightarrow> x + 1 \<le> y" "x < y \<Longrightarrow> unat (x + 1) = Suc (unat x)"
  for x y :: "'a::len word"
  by (simp_all add: unat_Suc_below word_le_nat_alt word_less_nat_alt Suc_le_eq)

lemma tree_inv_create:
  assumes "tree_inv b t" and "(p, e) \<in> set (engines t)" and "can_create_child t e"
    and "i \<notin> fst ` set (engines t)"
  shows "tree_inv b (create_commit t i e cfg)"
proof -
  have e: "se_bounds e = b" using assms(1,2) by (auto simp: tree_inv_def)
  then have lt: "se_depth e < max_child_depth b" "live_children t < max_live_children b"
      "total_descendants t < max_total_descendants b"
    using assms(3) by (auto simp: can_create_child_def)
  have "unat (se_depth e + 1) = Suc (unat (se_depth e))" using lt(1) by (rule word_inc_le(2))
  then have d: "0 < se_depth e + 1" by (simp add: word_less_nat_alt)
  have "live_children t + 1 \<le> total_descendants t + 1"
    using assms(1) word_inc_le(2) [OF lt(2)] word_inc_le(2) [OF lt(3)]
    by (simp add: tree_inv_def word_le_nat_alt)
  then show ?thesis
    using assms(1,4) e lt d word_inc_le(2) [OF lt(2)]
    by (auto simp: tree_inv_def create_commit_def live_count_def word_inc_le(1))
qed

lemma length_filter_remove:
  assumes "distinct (map fst xs)" and "(i, e) \<in> set xs"
  shows "length (filter P xs) =
    length (filter P (filter (\<lambda>(k, _). k \<noteq> i) xs)) + (if P (i, e) then 1 else 0)"
  using assms
proof (induction xs)
  case (Cons x xs)
  show ?case
  proof (cases "fst x = i")
    case True
    with Cons.prems have "x = (i, e)" "i \<notin> fst ` set xs" by (auto intro: rev_image_eqI)
    moreover from this have "filter (\<lambda>(k, _). k \<noteq> i) xs = xs"
      by (force simp: filter_id_conv)
    ultimately show ?thesis by simp
  next
    case False
    with Cons show ?thesis by (cases x) auto
  qed
qed simp

lemma tree_inv_drop:
  assumes "tree_inv b t"
  shows "tree_inv b (drop_engine t i)"
proof (cases "map_of (engines t) i")
  case None
  with assms show ?thesis by (simp add: drop_engine_def)
next
  case (Some e)
  then have m: "(i, e) \<in> set (engines t)" by (rule map_of_SomeD)
  have n: "unat (live_children t) =
      live_count (drop_engine t i) + (if 0 < se_depth e then 1 else 0)"
    using assms m Some length_filter_remove [of "engines t" i e "\<lambda>(_, e). 0 < se_depth e"]
    by (simp add: tree_inv_def live_count_def drop_engine_def)
  have le: "live_children t - 1 \<le> live_children t" "unat (live_children t - 1) = unat (live_children t) - 1"
    if "0 < live_children t"
  proof -
    have "1 \<le> live_children t" using that by (simp add: word_le_nat_alt word_less_nat_alt)
    then show "unat (live_children t - 1) = unat (live_children t) - 1"
      by (simp add: unat_sub)
    then show "live_children t - 1 \<le> live_children t" by (simp add: word_le_nat_alt)
  qed
  have d: "distinct (map fst (filter (\<lambda>(k, _). k \<noteq> i) (engines t)))"
    using assms by (simp add: tree_inv_def distinct_map_filter)
  show ?thesis
  proof (cases "0 < se_depth e")
    case True
    with n have pos: "0 < live_children t" by (simp add: word_less_nat_alt)
    from True Some assms n d le [OF pos] show ?thesis
      by (auto simp: tree_inv_def drop_engine_def)
  next
    case False
    with Some assms n d show ?thesis by (auto simp: tree_inv_def drop_engine_def)
  qed
qed

lemma record_one_sel [simp]:
  "fst (record_one i now ev ke) = fst ke"
  "se_depth (snd (record_one i now ev ke)) = se_depth (snd ke)"
  "se_bounds (snd (record_one i now ev ke)) = se_bounds (snd ke)"
  by (simp_all add: record_one_def sub_record_def split_beta)

lemma tree_inv_record:
  assumes "tree_inv b t"
  shows "tree_inv b (record_in t i now ev)"
proof -
  have "map fst (map (record_one i now ev) es) = map fst es" for es
    by (induction es) auto
  moreover have "filter (\<lambda>(_, e). 0 < se_depth e) (map (record_one i now ev) es) =
      map (record_one i now ev) (filter (\<lambda>(_, e). 0 < se_depth e) es)" for es
    by (induction es) (auto simp: split_beta)
  ultimately show ?thesis using assms
    by (auto simp: tree_inv_def record_in_def live_count_def split_beta simp del: map_map)
qed

lemma tree_inv_apply: "tree_inv b t \<Longrightarrow> tree_inv b (tree_apply t op)"
  by (cases op)
    (auto simp: tree_inv_drop tree_inv_record create_sub_engine_def create_check_None
      dest: map_of_SomeD intro: tree_inv_create split: option.splits sum.splits)

lemma tree_inv_foldl: "tree_inv b t \<Longrightarrow> tree_inv b (foldl tree_apply t ops)"
  by (induction ops arbitrary: t) (auto simp: tree_inv_apply)

text \<open>C14: Fan-out bounds. After any sequence of creations, drops and recordings on a fresh tree the
  live counter equals the number of engines other than the root still alive and is at most
  \<open>max_live_children\<close>, the descendant counter is at most \<open>max_total_descendants\<close>, and no engine is
  deeper than \<open>max_child_depth\<close>: the counters never wrap.\<close>

theorem fan_out_bounded:
  "let t = foldl tree_apply (tree_root j b) ops in
     unat (live_children t) = length (filter (\<lambda>(_, e). 0 < se_depth e) (engines t)) \<and>
     live_children t \<le> max_live_children b \<and>
     total_descendants t \<le> max_total_descendants b \<and>
     list_all (\<lambda>(_, e). se_depth e \<le> max_child_depth b) (engines t)"
  using tree_inv_foldl [OF tree_inv_root, of b j ops]
  by (auto simp: Let_def tree_inv_def live_count_def list_all_iff)

text \<open>\<open>create_sub_engine\<close> succeeds exactly when \<open>can_create_child\<close> says so; on success the child
  is one level deeper with an empty journal and the same bounds, both counters grow by one, and
  every engine that was alive is unchanged.\<close>

theorem create_sub_engine_result:
  "create_sub_engine t i e cfg =
     (if can_create_child t e
      then Inr \<lparr>engines = engines t @ [(i, \<lparr>se_journal = journal_new, se_config = cfg,
                  se_bounds = se_bounds e, se_depth = se_depth e + 1\<rparr>)],
                live_children = live_children t + 1, total_descendants = total_descendants t + 1\<rparr>
      else Inl (if max_child_depth (se_bounds e) \<le> se_depth e
                then MaxDepthExceeded (max_child_depth (se_bounds e)) (se_depth e)
                else if max_live_children (se_bounds e) \<le> live_children t
                then MaxChildrenExceeded (max_live_children (se_bounds e))
                else MaxDescendantsExceeded (max_total_descendants (se_bounds e)) (total_descendants t)))"
  using create_check_None [of t e]
  by (cases t) (auto simp: create_sub_engine_def create_commit_def create_check_def Let_def
      split: if_splits)

section \<open>Interleaved creations\<close>

text \<open>Two threads that hold the same engine: each runs the check, then the increments.\<close>

datatype thread_step = ThreadCheck nat | ThreadCommit nat

record creation_threads =
  ct_tree :: engine_tree
  ct_passed :: "nat list"

fun thread_run :: "sub_engine \<Rightarrow> creation_threads \<Rightarrow> thread_step \<Rightarrow> creation_threads" where
  "thread_run e s (ThreadCheck k) =
     (if create_check (ct_tree s) e = None then s\<lparr>ct_passed := k # ct_passed s\<rparr> else s)"
| "thread_run e s (ThreadCommit k) =
     (if k \<in> set (ct_passed s)
      then s\<lparr>ct_tree := create_commit (ct_tree s) k e sub_config_default,
             ct_passed := remove1 k (ct_passed s)\<rparr>
      else s)"

text \<open>The check and the increment are not atomic: with one live child allowed, two threads that
  both check before either increments leave two live children.\<close>

theorem concurrent_creation_exceeds_bound:
  "\<exists>steps. let b = \<lparr>max_child_depth = 4, max_live_children = 1, max_total_descendants = 24\<rparr>;
       t = tree_root journal_new b;
       t' = ct_tree (foldl (thread_run (snd (hd (engines t)))) \<lparr>ct_tree = t, ct_passed = []\<rparr> steps)
     in max_live_children b < live_children t' \<and> live_count t' = 2"
  by (intro exI [of _ "[ThreadCheck 1, ThreadCheck 2, ThreadCommit 1, ThreadCommit 2]"])
    (simp add: Let_def tree_root_def create_check_def create_commit_def live_count_def
      word_less_nat_alt word_le_nat_alt)

end
