(* ===== verification/Token_Estimate.thy ===== *)
theory Token_Estimate
  imports Core_Messages
begin

text \<open>
  Token estimation (\<open>behest-core/src/token.rs\<close>): a quarter of the bytes, rounded up, plus a
  constant overhead per message and tool call. \<open>Value::to_string\<close> belongs to \<open>serde_json\<close>,
  so its compact printer is the parameter \<open>js\<close> of every definition that reaches it.
\<close>

type_synonym json_printer = "json \<Rightarrow> string"

definition chars_per_token :: usize where
  "chars_per_token = 4"

definition estimate_tokens :: "string \<Rightarrow> usize" where
  "estimate_tokens s = div_ceil (length s) chars_per_token"

fun estimate_content_part_tokens :: "json_printer \<Rightarrow> content_part \<Rightarrow> usize" where
  "estimate_content_part_tokens js (Text t _) = estimate_tokens t"
| "estimate_content_part_tokens js (Json v _) = estimate_tokens (js v)"
| "estimate_content_part_tokens js (ImageUrl u _ _) = estimate_tokens u"

definition estimate_tool_call_tokens :: "json_printer \<Rightarrow> tool_call \<Rightarrow> usize" where
  "estimate_tool_call_tokens js call =
     (let name_tokens = estimate_tokens (tc_name call);
          args_tokens = estimate_tokens (js (tc_arguments call))
      in name_tokens + args_tokens + 20)"

fun estimate_message_tokens :: "json_printer \<Rightarrow> message \<Rightarrow> usize" where
  "estimate_message_tokens js (System content) =
     (\<Sum>p\<leftarrow>content. estimate_content_part_tokens js p) + 8"
| "estimate_message_tokens js (User content) =
     (\<Sum>p\<leftarrow>content. estimate_content_part_tokens js p) + 8"
| "estimate_message_tokens js (Assistant content calls) =
     (\<Sum>p\<leftarrow>content. estimate_content_part_tokens js p) +
     (\<Sum>c\<leftarrow>calls. estimate_tool_call_tokens js c) + 8"
| "estimate_message_tokens js (Tool i n content) =
     estimate_tokens i + estimate_tokens n +
     (\<Sum>p\<leftarrow>content. estimate_content_part_tokens js p) + 10"

definition estimate_messages_tokens :: "json_printer \<Rightarrow> message list \<Rightarrow> usize" where
  "estimate_messages_tokens js ms = (\<Sum>m\<leftarrow>ms. estimate_message_tokens js m)"

section \<open>Bounds\<close>

lemma estimate_tokens_bounds:
  "length s \<le> 4 * estimate_tokens s" "4 * estimate_tokens s < length s + 4"
  using div_ceil_bounds [of 4 "length s"]
  by (simp_all add: estimate_tokens_def chars_per_token_def)

lemma estimate_tokens_mono: "length s \<le> length t \<Longrightarrow> estimate_tokens s \<le> estimate_tokens t"
  by (simp add: estimate_tokens_def div_ceil_mono)

lemma estimate_tokens_append:
  "estimate_tokens (s @ t) \<le> estimate_tokens s + estimate_tokens t"
  using estimate_tokens_bounds [of s] estimate_tokens_bounds [of t]
    estimate_tokens_bounds [of "s @ t"] by simp

lemma estimate_message_tokens_ge8: "8 \<le> estimate_message_tokens js m"
  by (cases m) auto

lemma estimate_messages_tokens_simps [simp]:
  "estimate_messages_tokens js [] = 0"
  "estimate_messages_tokens js (m # ms) =
     estimate_message_tokens js m + estimate_messages_tokens js ms"
  "estimate_messages_tokens js (ms @ ns) =
     estimate_messages_tokens js ms + estimate_messages_tokens js ns"
  by (simp_all add: estimate_messages_tokens_def)

lemma estimate_messages_tokens_length: "8 * length ms \<le> estimate_messages_tokens js ms"
proof (induction ms)
  case (Cons m ms)
  then show ?case using estimate_message_tokens_ge8 [of js m] by simp
qed simp

lemma estimate_messages_tokens_drop:
  "estimate_messages_tokens js (drop n ms) \<le> estimate_messages_tokens js ms"
  using estimate_messages_tokens_simps(3) [of js "take n ms" "drop n ms"] by simp

text \<open>Cache markers do not change the estimate.\<close>

lemma sum_parts_mark_last [simp]:
  "(\<Sum>p\<leftarrow>mark_last c. estimate_content_part_tokens js p) =
   (\<Sum>p\<leftarrow>c. estimate_content_part_tokens js p)"
proof (cases c rule: rev_cases)
  case (snoc ps p)
  then show ?thesis by (cases p) (simp_all add: mark_last_def)
qed (simp add: mark_last_def)

lemma estimate_mark_cache_breakpoint [simp]:
  "estimate_message_tokens js (mark_cache_breakpoint m) = estimate_message_tokens js m"
  by (cases m) simp_all

end
