(* ===== verification/Memory_Window.thy ===== *)
theory Memory_Window
  imports Token_Estimate
begin

text \<open>
  The active window and the in-memory conversation store of \<open>behest-memory/src/lib.rs\<close>. The boxed
  demotion hook and compactor are functions held in the window; the ratio of the policy is kept as
  the bits of its \<open>f64\<close>. The lock of the store is modelled by its poison flag.
\<close>

section \<open>The active window\<close>

record memory_policy =
  max_window_tokens :: usize
  max_window_messages :: usize
  keep_tail_turns :: usize
  demotion_enabled :: bool
  compaction_enabled :: bool
  compaction_trigger_ratio :: u64

definition memory_policy_default :: memory_policy where
  "memory_policy_default =
     \<lparr>max_window_tokens = 100000, max_window_messages = 200, keep_tail_turns = 3,
      demotion_enabled = True, compaction_enabled = True,
      compaction_trigger_ratio = 0x3FE999999999999A\<rparr>"

datatype memory_event =
    MemDemoted usize string
  | MemCompacted usize usize
  | MemRestored usize

type_synonym demotion_hook = "string \<Rightarrow> message list \<Rightarrow> string + usize"
type_synonym compactor = "message list \<Rightarrow> string + string"

record active_window =
  aw_messages :: "message list"
  aw_policy :: memory_policy
  aw_demotion_hook :: "demotion_hook option"
  aw_compactor :: "compactor option"

definition active_window_new :: "memory_policy \<Rightarrow> active_window" where
  "active_window_new p =
     \<lparr>aw_messages = [], aw_policy = p, aw_demotion_hook = None, aw_compactor = None\<rparr>"

definition with_demotion_hook :: "active_window \<Rightarrow> demotion_hook \<Rightarrow> active_window" where
  "with_demotion_hook w h = w\<lparr>aw_demotion_hook := Some h\<rparr>"

definition with_compactor :: "active_window \<Rightarrow> compactor \<Rightarrow> active_window" where
  "with_compactor w c = w\<lparr>aw_compactor := Some c\<rparr>"

definition trim_if_needed :: "json_printer \<Rightarrow> active_window \<Rightarrow> memory_event list \<times> active_window" where
  "trim_if_needed js w =
     (let p = aw_policy w;
          token_count = estimate_messages_tokens js (aw_messages w);
          over_token_limit = token_count > max_window_tokens p;
          over_message_limit = length (aw_messages w) > max_window_messages p
      in if \<not> over_token_limit \<and> \<not> over_message_limit then ([], w)
         else
           let keep_tail = min (keep_tail_turns p) (length (aw_messages w));
               at = length (aw_messages w) - keep_tail;
               tail = drop at (aw_messages w);
               evicted = take at (aw_messages w);
               demoted = (if demotion_enabled p then [MemDemoted (length evicted) []] else []);
               compacted = (if compaction_enabled p \<and> evicted \<noteq> []
                            then [MemCompacted (length evicted) 0] else [])
           in (demoted @ compacted, w\<lparr>aw_messages := tail\<rparr>))"

definition window_push :: "json_printer \<Rightarrow> active_window \<Rightarrow> message \<Rightarrow> memory_event list \<times> active_window" where
  "window_push js w m = trim_if_needed js (w\<lparr>aw_messages := aw_messages w @ [m]\<rparr>)"

definition window_push_all :: "json_printer \<Rightarrow> active_window \<Rightarrow> message list \<Rightarrow> active_window" where
  "window_push_all js w ms = foldl (\<lambda>w m. snd (window_push js w m)) w ms"

lemma trim_messages:
  "aw_messages (snd (trim_if_needed js w)) =
     (if estimate_messages_tokens js (aw_messages w) \<le> max_window_tokens (aw_policy w) \<and>
         length (aw_messages w) \<le> max_window_messages (aw_policy w)
      then aw_messages w
      else drop (length (aw_messages w) - keep_tail_turns (aw_policy w)) (aw_messages w))"
  by (auto simp: trim_if_needed_def Let_def not_less min_def)

lemma trim_policy [simp]: "aw_policy (snd (trim_if_needed js w)) = aw_policy w"
  by (simp add: trim_if_needed_def Let_def)

lemma push_policy [simp]: "aw_policy (snd (window_push js w m)) = aw_policy w"
  by (simp add: window_push_def)

lemma push_all_policy [simp]: "aw_policy (window_push_all js w ms) = aw_policy w"
  unfolding window_push_all_def by (induction ms arbitrary: w) auto

text \<open>The window always holds a suffix of what was pushed.\<close>

lemma push_suffix:
  "\<exists>n. aw_messages (snd (window_push js w m)) = drop n (aw_messages w @ [m])"
  unfolding window_push_def trim_messages by (auto simp del: drop_append intro: exI [of _ 0])

lemma push_all_snoc:
  "window_push_all js w (ms @ [m]) = snd (window_push js (window_push_all js w ms) m)"
  by (simp add: window_push_all_def)

lemma push_all_suffix: "\<exists>n. aw_messages (window_push_all js w ms) = drop n (aw_messages w @ ms)"
proof (induction ms rule: rev_induct)
  case Nil
  show ?case by (rule exI [of _ 0]) (simp add: window_push_all_def)
next
  case (snoc m ms)
  then obtain n where n: "aw_messages (window_push_all js w ms) = drop n (aw_messages w @ ms)"
    and "n \<le> length (aw_messages w @ ms)" by (metis drop_all linorder_linear order_refl)
  then have "aw_messages (window_push_all js w ms) @ [m] = drop n (aw_messages w @ ms @ [m])"
    by (metis append.assoc append_eq_append_conv2 append_take_drop_id drop_append
        diff_is_0_eq drop0)
  then show ?case using push_suffix [of js "window_push_all js w ms" m]
    unfolding push_all_snoc by (metis append.assoc drop_drop)
qed

text \<open>The active window. After any pushes into a fresh window its messages are a suffix of the
  pushed ones, at most \<open>max(max_window_messages, keep_tail_turns)\<close> many, and either their estimate
  is within \<open>max_window_tokens\<close> or no more than the \<open>keep_tail_turns\<close> last messages are left.\<close>

theorem active_window_bounded:
  "let w = window_push_all js (active_window_new p) ms in
     (\<exists>n. aw_messages w = drop n ms) \<and>
     length (aw_messages w) \<le> max (max_window_messages p) (keep_tail_turns p) \<and>
     (estimate_messages_tokens js (aw_messages w) \<le> max_window_tokens p \<or>
      length (aw_messages w) \<le> keep_tail_turns p)"
proof -
  let ?w = "window_push_all js (active_window_new p)"
  have "length (aw_messages (?w ms)) \<le> max (max_window_messages p) (keep_tail_turns p) \<and>
     (estimate_messages_tokens js (aw_messages (?w ms)) \<le> max_window_tokens p \<or>
      length (aw_messages (?w ms)) \<le> keep_tail_turns p)"
  proof (cases ms rule: rev_cases)
    case Nil
    then show ?thesis by (simp add: window_push_all_def active_window_new_def)
  next
    case (snoc ms' m)
    have "aw_policy (?w ms') = p" by (simp add: active_window_new_def)
    then show ?thesis unfolding snoc push_all_snoc window_push_def trim_messages by auto
  qed
  with push_all_suffix [of js "active_window_new p" ms] show ?thesis
    by (simp add: Let_def active_window_new_def)
qed

text \<open>Eviction loses messages. The outcome of a push, its events and the messages left, is the
  same with any demotion hook and any compactor as with none, and the events carry only counts: the
  evicted messages are not handed to anyone.\<close>

theorem eviction_ignores_hooks:
  "window_push js (with_compactor (with_demotion_hook w h) c) m =
     (fst (window_push js w m), with_compactor (with_demotion_hook (snd (window_push js w m)) h) c)"
  by (simp add: window_push_def trim_if_needed_def with_compactor_def with_demotion_hook_def Let_def)

section \<open>The conversation store\<close>

text \<open>What a client of \<open>ConversationMemory\<close> relies on when no operation fails.\<close>

locale conversation_memory =
  fixes load :: "'s \<Rightarrow> string \<Rightarrow> message list"
    and append :: "'s \<Rightarrow> string \<Rightarrow> message list \<Rightarrow> 's"
    and clear :: "'s \<Rightarrow> string \<Rightarrow> 's"
  assumes load_append: "load (append s k ms) k' = (if k = k' then load s k @ ms else load s k')"
    and load_clear: "load (clear s k) k' = (if k = k' then [] else load s k')"
begin

text \<open>A history of appends and clears; \<open>None\<close> clears.\<close>

definition apply_history :: "'s \<Rightarrow> (string \<times> message list option) list \<Rightarrow> 's" where
  "apply_history s h =
     foldl (\<lambda>s (k, x). case x of Some ms \<Rightarrow> append s k ms | None \<Rightarrow> clear s k) s h"

lemma load_history:
  "load (apply_history s h) k =
     foldl (\<lambda>acc x. case x of Some ms \<Rightarrow> acc @ ms | None \<Rightarrow> []) (load s k)
       (map snd (filter (\<lambda>(k', _). k' = k) h))"
  unfolding apply_history_def
  by (induction h arbitrary: s) (auto simp: load_append load_clear split: option.splits)

end

record in_memory_conversations =
  im_messages :: "string \<Rightarrow> message list option"
  im_poisoned :: "string option"

definition conversations_new :: in_memory_conversations where
  "conversations_new = \<lparr>im_messages = (\<lambda>_. None), im_poisoned = None\<rparr>"

definition lock_result :: "in_memory_conversations \<Rightarrow> 'a \<Rightarrow> string + 'a" where
  "lock_result s x = (case im_poisoned s of None \<Rightarrow> Inr x | Some e \<Rightarrow> Inl (''lock error: '' @ e))"

definition unwrap_or_default :: "'a list option \<Rightarrow> 'a list" where
  "unwrap_or_default x = (case x of Some xs \<Rightarrow> xs | None \<Rightarrow> [])"

definition im_load :: "in_memory_conversations \<Rightarrow> string \<Rightarrow> string + message list" where
  "im_load s k = lock_result s (unwrap_or_default (im_messages s k))"

definition im_append ::
  "in_memory_conversations \<Rightarrow> string \<Rightarrow> message list \<Rightarrow> string + in_memory_conversations" where
  "im_append s k ms =
     lock_result s (s\<lparr>im_messages := (im_messages s)(k \<mapsto> unwrap_or_default (im_messages s k) @ ms)\<rparr>)"

definition im_active_window :: "in_memory_conversations \<Rightarrow> string \<Rightarrow> string + message list" where
  "im_active_window s k = im_load s k"

definition im_clear :: "in_memory_conversations \<Rightarrow> string \<Rightarrow> string + in_memory_conversations" where
  "im_clear s k = lock_result s (s\<lparr>im_messages := (im_messages s)(k := None)\<rparr>)"

text \<open>The caller's view: on an error the store is as before.\<close>

definition im_store :: "in_memory_conversations \<Rightarrow> string + in_memory_conversations \<Rightarrow> in_memory_conversations" where
  "im_store s r = (case r of Inl _ \<Rightarrow> s | Inr s' \<Rightarrow> s')"

interpretation unpoisoned: conversation_memory
  "\<lambda>m k. unwrap_or_default (m k)"
  "\<lambda>m k ms. im_messages (im_store \<lparr>im_messages = m, im_poisoned = None\<rparr>
       (im_append \<lparr>im_messages = m, im_poisoned = None\<rparr> k ms))"
  "\<lambda>m k. im_messages (im_store \<lparr>im_messages = m, im_poisoned = None\<rparr>
       (im_clear \<lparr>im_messages = m, im_poisoned = None\<rparr> k))"
  by unfold_locales
    (auto simp: im_append_def im_clear_def im_store_def lock_result_def unwrap_or_default_def)

fun im_run :: "in_memory_conversations \<Rightarrow> (string \<times> message list option) list \<Rightarrow> in_memory_conversations" where
  "im_run s [] = s"
| "im_run s ((k, Some ms) # h) = im_run (im_store s (im_append s k ms)) h"
| "im_run s ((k, None) # h) = im_run (im_store s (im_clear s k)) h"

lemma im_store_poisoned [simp]:
  "im_poisoned (im_store s (im_append s k ms)) = im_poisoned s"
  "im_poisoned (im_store s (im_clear s k)) = im_poisoned s"
  by (auto simp: im_store_def im_append_def im_clear_def lock_result_def split: option.splits)

lemma im_run_unpoisoned:
  "im_poisoned s = None \<Longrightarrow>
     im_poisoned (im_run s h) = None \<and>
     im_messages (im_run s h) = unpoisoned.apply_history (im_messages s) h"
proof (induction s h rule: im_run.induct)
  case (1 s)
  then show ?case by (simp add: unpoisoned.apply_history_def)
next
  case (2 s k ms h)
  obtain m where s: "s = \<lparr>im_messages = m, im_poisoned = None\<rparr>" using 2(2) by (cases s) auto
  from 2 show ?case unfolding s by (simp add: unpoisoned.apply_history_def)
next
  case (3 s k h)
  obtain m where s: "s = \<lparr>im_messages = m, im_poisoned = None\<rparr>" using 3(2) by (cases s) auto
  from 3 show ?case unfolding s by (simp add: unpoisoned.apply_history_def)
qed

text \<open>The in-memory store. Loading a session after any history of appends and clears over all
  sessions gives the messages appended to that session since its last clear, in order.\<close>

theorem in_memory_load:
  "im_load (im_run conversations_new h) k =
     Inr (foldl (\<lambda>acc x. case x of Some ms \<Rightarrow> acc @ ms | None \<Rightarrow> []) []
            (map snd (filter (\<lambda>(k', _). k' = k) h)))"
proof -
  have p: "im_poisoned conversations_new = None" by (simp add: conversations_new_def)
  have "unwrap_or_default (im_messages conversations_new k) = []"
    by (simp add: conversations_new_def unwrap_or_default_def)
  then show ?thesis
    using im_run_unpoisoned [OF p, of h] unpoisoned.load_history [of "im_messages conversations_new" h k]
    by (simp add: im_load_def lock_result_def)
qed

end
