(* ===== verification/Token_Budget.thy ===== *)
theory Token_Budget
  imports Behest_Prelude
begin

text \<open>
  Token budgets and context pressure (\<open>behest-core/src/budget.rs\<close>). All quantities are
  \<open>usize\<close>; \<open>percent_used\<close> saturates its multiplication at \<open>usize_max\<close> and is then
  truncated to a byte after the clamp to 100. \<open>PressureLevel\<close> derives \<open>Ord\<close>.
\<close>

section \<open>Constants and pressure levels\<close>

definition default_context_window :: usize where "default_context_window = 100000"
definition default_reserved_output :: usize where "default_reserved_output = 20000"
definition default_warning_buffer :: usize where "default_warning_buffer = 20000"
definition default_compact_buffer :: usize where "default_compact_buffer = 13000"
definition default_blocking_buffer :: usize where "default_blocking_buffer = 3000"
definition min_effective_window :: usize where "min_effective_window = 1000"
definition min_prompt_budget :: usize where "min_prompt_budget = 8000"

lemmas budget_constants = default_context_window_def default_reserved_output_def
  default_warning_buffer_def default_compact_buffer_def default_blocking_buffer_def
  min_effective_window_def min_prompt_budget_def

datatype pressure_level = Normal | Warning | Compact | Blocking

fun pressure_rank :: "pressure_level \<Rightarrow> nat" where
  "pressure_rank Normal = 0"
| "pressure_rank Warning = 1"
| "pressure_rank Compact = 2"
| "pressure_rank Blocking = 3"

lemma pressure_rank_inj: "pressure_rank a = pressure_rank b \<Longrightarrow> a = b"
  by (cases a; cases b) auto

instantiation pressure_level :: linorder
begin

definition less_eq_pressure_level :: "pressure_level \<Rightarrow> pressure_level \<Rightarrow> bool" where
  "a \<le> b \<longleftrightarrow> pressure_rank a \<le> pressure_rank b"

definition less_pressure_level :: "pressure_level \<Rightarrow> pressure_level \<Rightarrow> bool" where
  "a < b \<longleftrightarrow> pressure_rank a < pressure_rank b"

instance
  by standard
    (auto simp: less_eq_pressure_level_def less_pressure_level_def intro: pressure_rank_inj)

end

section \<open>Budgets\<close>

record token_budget =
  context_window :: usize
  reserved_output :: usize
  warning_buffer :: usize
  compact_buffer :: usize
  blocking_buffer :: usize

definition token_budget_default :: token_budget where
  "token_budget_default =
     \<lparr>context_window = default_context_window, reserved_output = default_reserved_output,
      warning_buffer = default_warning_buffer, compact_buffer = default_compact_buffer,
      blocking_buffer = default_blocking_buffer\<rparr>"

definition token_budget_new :: "usize \<Rightarrow> usize \<Rightarrow> token_budget" where
  "token_budget_new w r =
     token_budget_default\<lparr>context_window := max w min_effective_window, reserved_output := r\<rparr>"

definition with_buffers :: "usize \<Rightarrow> usize \<Rightarrow> usize \<Rightarrow> usize \<Rightarrow> usize \<Rightarrow> token_budget" where
  "with_buffers w r wb cb bb =
     \<lparr>context_window = w, reserved_output = r, warning_buffer = wb, compact_buffer = cb,
      blocking_buffer = bb\<rparr>"

record budget_thresholds =
  th_effective_window :: usize
  warning_threshold :: usize
  compact_threshold :: usize
  blocking_threshold :: usize

record budget_state =
  estimated_tokens :: usize
  bs_effective_window :: usize
  bs_warning_threshold :: usize
  bs_compact_threshold :: usize
  bs_blocking_threshold :: usize
  percent_used :: u8
  percent_remaining :: u8
  pressure :: pressure_level
  is_above_warning :: bool
  is_above_compact :: bool
  is_above_blocking :: bool

text \<open>\<open>clamp(lo, hi)\<close> for \<open>lo \<le> hi\<close>.\<close>

definition clamp :: "usize \<Rightarrow> usize \<Rightarrow> usize \<Rightarrow> usize" where
  "clamp x lo hi = (if x < lo then lo else if hi < x then hi else x)"

definition effective_reserved_output :: "usize \<Rightarrow> usize \<Rightarrow> usize" where
  "effective_reserved_output cw ro =
     (let cw = max cw 1;
          min_prompt = clamp (cw div 2) 1 min_prompt_budget;
          max_reserve = saturating_sub cw min_prompt
      in min ro max_reserve)"

definition effective_context_window :: "usize \<Rightarrow> usize \<Rightarrow> usize" where
  "effective_context_window cw ro =
     (let reserved = effective_reserved_output cw ro
      in max (saturating_sub cw reserved) min_effective_window)"

definition effective_window :: "token_budget \<Rightarrow> usize" where
  "effective_window b = effective_context_window (context_window b) (reserved_output b)"

definition calculate_thresholds :: "token_budget \<Rightarrow> budget_thresholds" where
  "calculate_thresholds b =
     (let effective = effective_window b;
          auto_buffer = min (compact_buffer b) (effective div 3);
          warn_buffer = min (warning_buffer b) (effective div 3);
          block_buffer = max (min (blocking_buffer b) (effective div 10)) 1;
          ct = max (saturating_sub effective auto_buffer) 1;
          wt = min (max (saturating_sub ct warn_buffer) 1) ct;
          bt = min (max (saturating_sub effective block_buffer) ct) effective
      in \<lparr>th_effective_window = effective, warning_threshold = wt, compact_threshold = ct,
          blocking_threshold = bt\<rparr>)"

definition calculate_budget_state :: "usize \<Rightarrow> token_budget \<Rightarrow> budget_state" where
  "calculate_budget_state est b =
     (let t = calculate_thresholds b;
          used = min (if th_effective_window t = 0 then 100
                      else saturating_mul est 100 div th_effective_window t) 100;
          pu = of_nat used;
          pr = sat_sub_word 100 pu;
          ab = est \<ge> blocking_threshold t;
          ac = est \<ge> compact_threshold t;
          aw = est \<ge> warning_threshold t;
          p = (if ab then Blocking else if ac then Compact else if aw then Warning else Normal)
      in \<lparr>estimated_tokens = est, bs_effective_window = th_effective_window t,
          bs_warning_threshold = warning_threshold t,
          bs_compact_threshold = compact_threshold t,
          bs_blocking_threshold = blocking_threshold t,
          percent_used = pu, percent_remaining = pr, pressure = p,
          is_above_warning = aw, is_above_compact = ac, is_above_blocking = ab\<rparr>)"

definition remaining_before_blocking :: "token_budget \<Rightarrow> usize \<Rightarrow> usize" where
  "remaining_before_blocking b est =
     saturating_sub (blocking_threshold (calculate_thresholds b)) est"

definition remaining :: "token_budget \<Rightarrow> usize \<Rightarrow> usize" where
  "remaining b est = saturating_sub (effective_window b) est"

section \<open>The thresholds\<close>

lemma effective_window_ge: "min_effective_window \<le> effective_window b"
  by (simp add: effective_window_def effective_context_window_def Let_def)

lemma effective_window_pos [simp]: "0 < effective_window b"
  using effective_window_ge [of b] by (simp add: min_effective_window_def)

lemma th_effective_window [simp]: "th_effective_window (calculate_thresholds b) = effective_window b"
  by (simp add: calculate_thresholds_def Let_def)

text \<open>The reserve never takes more than half of the window unless half exceeds the prompt budget.\<close>

lemma effective_reserved_output_le:
  "effective_reserved_output cw ro \<le> ro"
  "effective_reserved_output cw ro \<le> cw"
  by (auto simp: effective_reserved_output_def clamp_def saturating_sub_def Let_def
      min_prompt_budget_def)

lemma effective_window_le: "effective_window b \<le> max (context_window b) min_effective_window"
  by (auto simp: effective_window_def effective_context_window_def saturating_sub_def Let_def)

lemma effective_window_prompt:
  assumes "2 \<le> context_window b"
  shows "min (context_window b div 2) min_prompt_budget \<le> effective_window b"
proof -
  let ?c = "context_window b"
  let ?p = "clamp (?c div 2) 1 min_prompt_budget"
  have "?p \<le> ?c" using assms by (auto simp: clamp_def min_prompt_budget_def)
  then have "?p \<le> ?c - min (reserved_output b) (?c - ?p)" by linarith
  moreover have "min (?c div 2) min_prompt_budget \<le> ?p"
    using assms by (auto simp: clamp_def min_prompt_budget_def)
  moreover have "?c - min (reserved_output b) (?c - ?p) \<le> effective_window b"
    using assms
    by (simp add: effective_window_def effective_context_window_def effective_reserved_output_def
        Let_def saturating_sub_def max_absorb1)
  ultimately show ?thesis by linarith
qed

text \<open>The three thresholds over the effective window \<open>e\<close> and the capped buffers.\<close>

lemma threshold_eqs:
  fixes b
  defines "e \<equiv> effective_window b" and "t \<equiv> calculate_thresholds b"
  shows "compact_threshold t = max (e - min (compact_buffer b) (e div 3)) 1"
    "warning_threshold t =
       min (max (compact_threshold t - min (warning_buffer b) (e div 3)) 1) (compact_threshold t)"
    "blocking_threshold t =
       min (max (e - max (min (blocking_buffer b) (e div 10)) 1) (compact_threshold t)) e"
  by (simp_all add: calculate_thresholds_def Let_def saturating_sub_def e_def t_def)

lemma compact_threshold_bounds:
  "1 \<le> compact_threshold (calculate_thresholds b)"
  "compact_threshold (calculate_thresholds b) \<le> effective_window b"
  "2 * effective_window b \<le> 3 * compact_threshold (calculate_thresholds b)"
  by (simp_all add: threshold_eqs Suc_le_eq) linarith?

lemma warning_threshold_bounds:
  "1 \<le> warning_threshold (calculate_thresholds b)"
  "warning_threshold (calculate_thresholds b) \<le> compact_threshold (calculate_thresholds b)"
  "effective_window b \<le> 3 * warning_threshold (calculate_thresholds b)"
proof -
  let ?e = "effective_window b" and ?c = "compact_threshold (calculate_thresholds b)"
  let ?w = "min (warning_buffer b) (?e div 3)"
  note c = compact_threshold_bounds [of b]
  show "1 \<le> warning_threshold (calculate_thresholds b)"
    and "warning_threshold (calculate_thresholds b) \<le> ?c"
    using c by (simp_all add: threshold_eqs(2))
  have "3 * ?w \<le> ?e" by linarith
  then have "?e \<le> 3 * (?c - ?w)" using c(3) by linarith
  moreover have "?c - ?w \<le> warning_threshold (calculate_thresholds b)"
    using c(1) by (simp add: threshold_eqs(2))
  ultimately show "?e \<le> 3 * warning_threshold (calculate_thresholds b)" by linarith
qed

lemma blocking_threshold_bounds:
  "compact_threshold (calculate_thresholds b) \<le> blocking_threshold (calculate_thresholds b)"
  "blocking_threshold (calculate_thresholds b) \<le> effective_window b"
  using compact_threshold_bounds [of b] by (simp_all add: threshold_eqs(3))

lemmas threshold_bounds = compact_threshold_bounds warning_threshold_bounds
  blocking_threshold_bounds

section \<open>The budget state\<close>

lemma percent_words:
  "n \<le> 100 \<Longrightarrow> unat (of_nat n :: u8) = n"
  "n \<le> 100 \<Longrightarrow> unat (sat_sub_word 100 (of_nat n :: u8)) = 100 - n"
  by (simp_all add: unat_sat_sub_word unat_of_nat)

lemma percent_used_unat:
  "unat (percent_used (calculate_budget_state e b)) =
     min (saturating_mul e 100 div effective_window b) 100"
  "unat (percent_remaining (calculate_budget_state e b)) =
     100 - min (saturating_mul e 100 div effective_window b) 100"
  by (simp_all add: calculate_budget_state_def Let_def percent_words)

lemma pressure_cases:
  "pressure (calculate_budget_state e b) =
     (if blocking_threshold (calculate_thresholds b) \<le> e then Blocking
      else if compact_threshold (calculate_thresholds b) \<le> e then Compact
      else if warning_threshold (calculate_thresholds b) \<le> e then Warning
      else Normal)"
  by (simp add: calculate_budget_state_def Let_def)

end
