(* ===== verification/Index_Partition.thy ===== *)
theory Index_Partition
  imports Behest_Prelude
begin

text \<open>
  The contract shared by the two functions of the code that cut a message history into groups of
  indices at boundary messages (\<open>split_into_groups\<close> of behest-memory, \<open>turns\<close> of the
  compaction service): the locale, the facts its clients use, and the loop both functions run.
\<close>

locale index_partition =
  fixes boundary :: "'m \<Rightarrow> bool"
    and groups :: "'m list \<Rightarrow> nat list list"
  assumes concat_groups: "concat (groups ms) = [0..<length ms]"
    and groups_nonempty: "[] \<notin> set (groups ms)"
    and boundary_heads: "g \<in> set (tl (groups ms)) \<Longrightarrow> boundary (ms ! hd g)"
    and inner_not_boundary: "g \<in> set (groups ms) \<Longrightarrow> i \<in> set (tl g) \<Longrightarrow> \<not> boundary (ms ! i)"
begin

definition group_start :: "'m list \<Rightarrow> nat \<Rightarrow> nat" where
  "group_start ms k = length (concat (take k (groups ms)))"

lemma groups_Nil_iff: "groups ms = [] \<longleftrightarrow> ms = []"
proof
  assume "groups ms = []"
  then show "ms = []" using concat_groups [of ms] by (metis concat.simps(1) length_0_conv length_upt diff_zero)
next
  assume "ms = []"
  then have "concat (groups ms) = []" using concat_groups [of ms] by simp
  then show "groups ms = []" using groups_nonempty [of ms] by (cases "groups ms") auto
qed

lemma group_start_le: "group_start ms k \<le> length ms"
proof -
  have "length (concat (take k (groups ms)) @ concat (drop k (groups ms))) = length ms"
    using concat_groups [of ms] by (metis append_take_drop_id concat_append length_upt diff_zero)
  then show ?thesis by (simp add: group_start_def)
qed

lemma concat_take_groups: "concat (take k (groups ms)) = [0..<group_start ms k]"
proof -
  have "concat (take k (groups ms)) @ concat (drop k (groups ms)) = [0..<length ms]"
    using concat_groups [of ms] by (metis append_take_drop_id concat_append)
  then have "concat (take k (groups ms)) = take (group_start ms k) [0..<length ms]"
    unfolding group_start_def by (metis append_eq_conv_conj)
  then show ?thesis using group_start_le [of ms k] by simp
qed

lemma concat_drop_groups: "concat (drop k (groups ms)) = [group_start ms k..<length ms]"
proof -
  have "concat (take k (groups ms)) @ concat (drop k (groups ms)) = [0..<length ms]"
    using concat_groups [of ms] by (metis append_take_drop_id concat_append)
  then have "concat (drop k (groups ms)) = drop (group_start ms k) [0..<length ms]"
    unfolding group_start_def by (metis append_eq_conv_conj)
  then show ?thesis by simp
qed

lemma map_drop_groups: "map ((!) ms) (concat (drop k (groups ms))) = drop (group_start ms k) ms"
  using group_start_le [of ms k]
  by (auto simp: concat_drop_groups intro!: nth_equalityI)

lemma map_take_groups: "map ((!) ms) (concat (take k (groups ms))) = take (group_start ms k) ms"
  using group_start_le [of ms k]
  by (auto simp: concat_take_groups intro!: nth_equalityI)

lemma hd_group:
  assumes "k < length (groups ms)"
  shows "hd (groups ms ! k) = group_start ms k" and "group_start ms k < length ms"
proof -
  have "groups ms ! k \<noteq> []" using assms groups_nonempty nth_mem by metis
  then obtain x xs where x: "groups ms ! k = x # xs" by (cases "groups ms ! k") auto
  have "drop k (groups ms) = groups ms ! k # drop (Suc k) (groups ms)"
    using assms by (simp add: Cons_nth_drop_Suc)
  then have "concat (drop k (groups ms)) = x # xs @ concat (drop (Suc k) (groups ms))"
    using x by simp
  then have "[group_start ms k..<length ms] = x # xs @ concat (drop (Suc k) (groups ms))"
    by (simp add: concat_drop_groups)
  then show "hd (groups ms ! k) = group_start ms k" "group_start ms k < length ms"
    using x by (auto simp: upt_eq_Cons_conv)
qed

lemma boundary_at_start:
  assumes "0 < k" and "k < length (groups ms)"
  shows "boundary (ms ! group_start ms k)"
proof -
  have "groups ms ! k = tl (groups ms) ! (k - 1)" using assms by (simp add: nth_tl)
  then have "groups ms ! k \<in> set (tl (groups ms))" using assms by simp
  then show ?thesis using boundary_heads hd_group [OF assms(2)] by metis
qed

text \<open>The last group has no boundary but its first message.\<close>

lemma last_group_no_boundary:
  assumes "Suc k = length (groups ms)" and "group_start ms k < i" and "i < length ms"
  shows "\<not> boundary (ms ! i)"
proof -
  have "drop k (groups ms) = [groups ms ! k]" using assms(1)
    by (metis Cons_nth_drop_Suc drop_all lessI order_refl)
  then have "groups ms ! k = [group_start ms k..<length ms]"
    using concat_drop_groups [of k ms] by simp
  then have "i \<in> set (tl (groups ms ! k))" using assms(2,3) by (simp add: tl_upt)
  moreover have "groups ms ! k \<in> set (groups ms)" using assms(1) by simp
  ultimately show ?thesis using inner_not_boundary by blast
qed

end

text \<open>The loop: the groups finished, and the indices of the current one.\<close>

fun group_loop :: "('m \<Rightarrow> bool) \<Rightarrow> 'm list \<Rightarrow> nat \<Rightarrow> nat list list \<Rightarrow> nat list \<Rightarrow> nat list list" where
  "group_loop b [] i res cur = (if cur \<noteq> [] then res @ [cur] else res)"
| "group_loop b (m # ms) i res cur =
     (if b m \<and> cur \<noteq> [] then group_loop b ms (i + 1) (res @ [cur]) [i]
      else group_loop b ms (i + 1) res (cur @ [i]))"

lemma concat_group_loop:
  "concat (group_loop b ms i res cur) = concat res @ cur @ [i..<i + length ms]"
  by (induction b ms i res cur rule: group_loop.induct) (auto simp: upt_rec)

lemma group_loop_nonempty: "[] \<notin> set res \<Longrightarrow> [] \<notin> set (group_loop b ms i res cur)"
  by (induction b ms i res cur rule: group_loop.induct) auto

lemma drop_eq_Cons:
  assumes "m # ms = drop i xs"
  shows "m = xs ! i" and "ms = drop (i + 1) xs" and "i + 1 \<le> length xs"
proof -
  have "i < length xs" using assms by (metis drop_eq_Nil2 list.distinct(1) not_le)
  with assms have "m # ms = xs ! i # drop (Suc i) xs" by (simp add: Cons_nth_drop_Suc)
  with \<open>i < length xs\<close> show "m = xs ! i" "ms = drop (i + 1) xs" "i + 1 \<le> length xs" by auto
qed

lemma group_loop_heads:
  assumes "\<forall>g\<in>set (tl (res @ [cur])). cur \<noteq> [] \<longrightarrow> b (all ! hd g)"
    and "res \<noteq> [] \<Longrightarrow> cur \<noteq> []" and "ms = drop i all" and "i \<le> length all"
  shows "\<forall>g\<in>set (tl (group_loop b ms i res cur)). b (all ! hd g)"
  using assms
proof (induction b ms i res cur rule: group_loop.induct)
  case (2 b m ms i res cur)
  note m = drop_eq_Cons [OF "2.prems"(3)]
  show ?case
  proof (cases "b m \<and> cur \<noteq> []")
    case True
    then have "\<forall>g\<in>set (tl ((res @ [cur]) @ [[i]])). [i] \<noteq> [] \<longrightarrow> b (all ! hd g)"
      using "2.prems"(1) m(1) by (cases res) auto
    note h = this
    have eq: "group_loop b (m # ms) i res cur = group_loop b ms (i + 1) (res @ [cur]) [i]"
      using True by simp
    show ?thesis unfolding eq
      by (rule "2.IH"(1) [OF True]) (use m h in simp_all)
  next
    case False
    then have "\<forall>g\<in>set (tl (res @ [cur @ [i]])). cur @ [i] \<noteq> [] \<longrightarrow> b (all ! hd g)"
      using "2.prems"(1,2) by (cases res; cases cur) auto
    note h = this
    have eq: "group_loop b (m # ms) i res cur = group_loop b ms (i + 1) res (cur @ [i])"
      using False by auto
    show ?thesis unfolding eq
      by (rule "2.IH"(2) [OF False]) (use m h in simp_all)
  qed
next
  case (1 b i res cur)
  then show ?case by (cases res) auto
qed

lemma group_loop_inner:
  assumes "\<forall>g\<in>set (res @ [cur]). \<forall>j\<in>set (tl g). \<not> b (all ! j)"
    and "ms = drop i all" and "i \<le> length all"
  shows "\<forall>g\<in>set (group_loop b ms i res cur). \<forall>j\<in>set (tl g). \<not> b (all ! j)"
  using assms
proof (induction b ms i res cur rule: group_loop.induct)
  case (2 b m ms i res cur)
  note m = drop_eq_Cons [OF "2.prems"(2)]
  show ?case
  proof (cases "b m \<and> cur \<noteq> []")
    case True
    have eq: "group_loop b (m # ms) i res cur = group_loop b ms (i + 1) (res @ [cur]) [i]"
      using True by simp
    show ?thesis unfolding eq
      by (rule "2.IH"(1) [OF True]) (use m "2.prems"(1) in auto)
  next
    case False
    then have "\<forall>g\<in>set (res @ [cur @ [i]]). \<forall>j\<in>set (tl g). \<not> b (all ! j)"
      using "2.prems"(1) m(1) by (cases cur) auto
    note h = this
    have eq: "group_loop b (m # ms) i res cur = group_loop b ms (i + 1) res (cur @ [i])"
      using False by auto
    show ?thesis unfolding eq
      by (rule "2.IH"(2) [OF False]) (use m h in simp_all)
  qed
next
  case (1 b i res cur)
  then show ?case by simp
qed

lemma index_partition_group_loop: "index_partition b (\<lambda>ms. group_loop b ms 0 [] [])"
proof
  fix ms g i
  show "concat (group_loop b ms 0 [] []) = [0..<length ms]" by (simp add: concat_group_loop)
  show "[] \<notin> set (group_loop b ms 0 [] [])" by (simp add: group_loop_nonempty)
  show "b (ms ! hd g)" if "g \<in> set (tl (group_loop b ms 0 [] []))"
    using group_loop_heads [of "[]" "[]" b ms ms 0] that by auto
  show "\<not> b (ms ! i)" if "g \<in> set (group_loop b ms 0 [] [])" "i \<in> set (tl g)"
    using group_loop_inner [of "[]" "[]" b ms ms 0] that by auto
qed

end
