(* ===== verification/Memory_Compaction.thy ===== *)
theory Memory_Compaction
  imports Token_Estimate Token_Budget Index_Partition Rust_Str
begin

text \<open>
  The three compaction tiers of \<open>behest-memory/src/compaction.rs\<close>. Parameters stand for the two
  things the crate takes from elsewhere: \<open>js\<close>, the JSON printer, and \<open>alnum\<close>, the Unicode table
  behind \<open>char::is_alphanumeric\<close>. The arrow of the summaries is written as its UTF-8 bytes.
\<close>

section \<open>Microcompact\<close>

record microcompact_config =
  mc_keep_recent :: usize
  keep_recent_tool_outputs :: usize

definition microcompact_config_default :: microcompact_config where
  "microcompact_config_default = \<lparr>mc_keep_recent = 6, keep_recent_tool_outputs = 8\<rparr>"

record microcompact_report =
  changed_messages :: usize
  mc_tokens_freed :: usize

fun is_tool_message :: "message \<Rightarrow> bool" where
  "is_tool_message (Tool _ _ _) = True"
| "is_tool_message _ = False"

definition arrow :: string where
  "arrow = [CHR 0xE2, CHR 0x86, CHR 0x92]"

fun part_text_opt :: "content_part \<Rightarrow> string option" where
  "part_text_opt (Text t _) = Some t"
| "part_text_opt _ = None"

definition summarize_tool_output :: "(string \<Rightarrow> bool) \<Rightarrow> string \<Rightarrow> content_part list \<Rightarrow> string" where
  "summarize_tool_output alnum name content =
     (let txt = str_join '' '' (List.map_filter part_text_opt content);
          exit_info = map_option
            (\<lambda>line. concat (dropWhile (\<lambda>c. \<not> alnum c) (utf8_chars (str_trim line))))
            (List.find (\<lambda>line. str_contains ''exit'' line \<or> str_contains ''returncode'' line)
              (str_lines txt));
          line_count = length (str_lines txt);
          char_count = length txt;
          start = ''['' @ name @ ''] '' @ arrow @ '' ''
      in case exit_info of
           Some exit \<Rightarrow> start @ exit @ '', '' @ show_nat line_count @ '' lines''
         | None \<Rightarrow>
             if line_count > 1
             then start @ show_nat line_count @ '' lines, '' @ show_nat char_count @ '' chars''
             else let truncated = take_chars 80 txt
                  in if length txt > 80 then start @ truncated @ ''...'' else start @ truncated)"

definition compacted_tool :: "(string \<Rightarrow> bool) \<Rightarrow> usize \<Rightarrow> message \<Rightarrow> message" where
  "compacted_tool alnum i m =
     (case m of
        Tool _ name content \<Rightarrow>
          Tool (''compacted-'' @ show_nat i) name [part_text (summarize_tool_output alnum name content)]
      | _ \<Rightarrow> m)"

definition tool_output_indices :: "message list \<Rightarrow> nat list" where
  "tool_output_indices ms = filter (\<lambda>i. is_tool_message (ms ! i)) [0..<length ms]"

definition microcompact ::
  "json_printer \<Rightarrow> (string \<Rightarrow> bool) \<Rightarrow> message list \<Rightarrow> microcompact_config \<Rightarrow>
     microcompact_report \<times> message list" where
  "microcompact js alnum ms cfg =
     (if length ms \<le> mc_keep_recent cfg then (\<lparr>changed_messages = 0, mc_tokens_freed = 0\<rparr>, ms)
      else
        let before = estimate_messages_tokens js ms;
            recent_start = saturating_sub (length ms) (mc_keep_recent cfg);
            tools = tool_output_indices ms;
            tool_keep_start = saturating_sub (length tools) (keep_recent_tool_outputs cfg);
            tool_keep = drop tool_keep_start tools;
            replaced = (\<lambda>i. i < recent_start \<and> is_tool_message (ms ! i) \<and> i \<notin> set tool_keep);
            ms' = map (\<lambda>i. if replaced i then compacted_tool alnum i (ms ! i) else ms ! i)
                    [0..<length ms];
            changed = length (filter replaced [0..<length ms]);
            after = estimate_messages_tokens js ms'
        in (\<lparr>changed_messages = changed, mc_tokens_freed = saturating_sub before after\<rparr>, ms'))"

lemma microcompact_length: "length (snd (microcompact js alnum ms cfg)) = length ms"
  by (simp add: microcompact_def Let_def)

text \<open>A tool output is among the last \<open>k\<close> exactly when fewer than \<open>k\<close> follow it.\<close>

lemma sorted_drop_iff:
  fixes xs :: "nat list"
  assumes "sorted_wrt (<) xs" and "i \<in> set xs"
  shows "i \<in> set (drop (length xs - k) xs) \<longleftrightarrow> length (filter (\<lambda>j. i < j) xs) < k"
  using assms
proof (induction xs)
  case (Cons x xs)
  show ?case
  proof (cases "length xs < k")
    case True
    have "length (filter (\<lambda>j. i < j) (x # xs)) < k"
    proof (cases "i = x")
      case True
      then show ?thesis
        using \<open>length xs < k\<close> le_less_trans [OF length_filter_le [of "\<lambda>j. i < j" xs]] by simp
    next
      case False
      then have "\<not> i < x" using Cons.prems by auto
      then show ?thesis
        using \<open>length xs < k\<close> le_less_trans [OF length_filter_le [of "\<lambda>j. i < j" xs]] by simp
    qed
    with True Cons.prems show ?thesis by simp
  next
    case False
    then have d: "drop (length (x # xs) - k) (x # xs) = drop (length xs - k) xs"
      by (simp add: Suc_diff_le)
    show ?thesis
    proof (cases "i = x")
      case True
      have "x \<notin> set xs" using Cons.prems(1) by auto
      then have "i \<notin> set (drop (length xs - k) xs)" using True by (auto dest: in_set_dropD)
      moreover have "filter (\<lambda>j. i < j) (x # xs) = xs" using Cons.prems(1) True by simp
      ultimately show ?thesis unfolding d using False by simp
    next
      case False
      then have "i \<in> set xs" "\<not> i < x" using Cons.prems by auto
      then show ?thesis unfolding d using Cons by simp
    qed
  qed
qed simp

text \<open>Microcompact. The list keeps its length, and position \<open>i\<close> changes exactly when it holds a
  tool message older than the last \<open>keep_recent\<close> messages with at least
  \<open>keep_recent_tool_outputs\<close> tool messages after it; it then keeps its tool name, its content
  becomes one summary text, and its call id is replaced by a made-up \<open>compacted-i\<close>, which no
  assistant message carries.\<close>

theorem microcompact_effect:
  assumes "i < length ms"
  shows "snd (microcompact js alnum ms cfg) ! i =
    (if i < length ms - mc_keep_recent cfg \<and> is_tool_message (ms ! i) \<and>
        keep_recent_tool_outputs cfg \<le>
          length (filter (\<lambda>j. i < j \<and> is_tool_message (ms ! j)) [0..<length ms])
     then compacted_tool alnum i (ms ! i) else ms ! i)"
proof -
  let ?t = "tool_output_indices ms"
  have t: "i \<in> set ?t \<longleftrightarrow> is_tool_message (ms ! i)"
    using assms by (auto simp: tool_output_indices_def)
  have "sorted_wrt (<) ?t" by (simp add: tool_output_indices_def sorted_wrt_filter)
  note keep = sorted_drop_iff [OF this, of i "keep_recent_tool_outputs cfg"]
  have "filter (\<lambda>j. i < j) ?t = filter (\<lambda>j. i < j \<and> is_tool_message (ms ! j)) [0..<length ms]"
    by (simp add: tool_output_indices_def conj_commute)
  then show ?thesis using assms t keep
    by (auto simp: microcompact_def Let_def saturating_sub_def not_less)
qed

lemma microcompact_effect_witness:
  "snd (microcompact (\<lambda>_. []) (\<lambda>_. True) [tool_text ''c1'' ''sh'' ''hello'', user_text ''x'']
      \<lparr>mc_keep_recent = 1, keep_recent_tool_outputs = 0\<rparr>) ! 0 =
   Tool (''compacted-0'') ''sh''
     [part_text (summarize_tool_output (\<lambda>_. True) ''sh'' [part_text ''hello''])]"
proof -
  have z: "show_nat 0 = ''0''" by code_simp
  show ?thesis
    using microcompact_effect [of 0 "[tool_text ''c1'' ''sh'' ''hello'', user_text ''x'']" "\<lambda>_. []"
        "\<lambda>_. True" "\<lparr>mc_keep_recent = 1, keep_recent_tool_outputs = 0\<rparr>"]
    by (simp add: compacted_tool_def tool_text_def z)
qed

section \<open>Autocompact\<close>

record autocompact_report =
  groups_dropped :: usize
  groups_kept :: usize
  ac_tokens_freed :: usize

fun is_user_message :: "message \<Rightarrow> bool" where
  "is_user_message (User _) = True"
| "is_user_message _ = False"

fun split_loop ::
  "message list \<Rightarrow> nat \<Rightarrow> (nat \<times> nat list) list \<Rightarrow> nat \<Rightarrow> nat list \<Rightarrow> (nat \<times> nat list) list" where
  "split_loop [] i groups start idx = (if idx \<noteq> [] then groups @ [(start, idx)] else groups)"
| "split_loop (m # ms) i groups start idx =
     (if is_user_message m \<and> idx \<noteq> [] then split_loop ms (i + 1) (groups @ [(start, idx)]) i [i]
      else split_loop ms (i + 1) groups start (idx @ [i]))"

definition split_into_groups :: "message list \<Rightarrow> (nat \<times> nat list) list" where
  "split_into_groups ms = split_loop ms 0 [] 0 []"

text \<open>The loop over the groups from newest to oldest.\<close>

fun keep_groups :: "usize \<Rightarrow> usize list \<Rightarrow> usize \<Rightarrow> usize \<Rightarrow> usize \<times> usize" where
  "keep_groups limit [] kept_tokens kept_count = (kept_tokens, kept_count)"
| "keep_groups limit (g # gs) kept_tokens kept_count =
     (if kept_count > 0 \<and> kept_tokens + g > limit then (kept_tokens, kept_count)
      else keep_groups limit gs (kept_tokens + g) (kept_count + 1))"

definition group_tokens :: "json_printer \<Rightarrow> message list \<Rightarrow> nat list \<Rightarrow> usize" where
  "group_tokens js ms is = (\<Sum>i\<leftarrow>is. estimate_message_tokens js (ms ! i))"

definition autocompact ::
  "json_printer \<Rightarrow> message list \<Rightarrow> token_budget \<Rightarrow> autocompact_report \<times> message list" where
  "autocompact js ms budget =
     (if ms = [] then (\<lparr>groups_dropped = 0, groups_kept = 0, ac_tokens_freed = 0\<rparr>, ms)
      else
        let before = estimate_messages_tokens js ms;
            limit = compact_threshold (calculate_thresholds budget)
        in if before \<le> limit then (\<lparr>groups_dropped = 0, groups_kept = 1, ac_tokens_freed = 0\<rparr>, ms)
           else
             let groups = split_into_groups ms
             in if length groups \<le> 1
                then (\<lparr>groups_dropped = 0, groups_kept = 1, ac_tokens_freed = 0\<rparr>, ms)
                else
                  let (_, kept) = keep_groups limit (map (group_tokens js ms \<circ> snd) (rev groups)) 0 0;
                      dropped = length groups - kept
                  in if dropped = 0
                     then (\<lparr>groups_dropped = 0, groups_kept = kept, ac_tokens_freed = 0\<rparr>, ms)
                     else
                       let keep_start = fst (groups ! (length groups - kept));
                           ms' = drop keep_start ms;
                           after = estimate_messages_tokens js ms'
                       in (\<lparr>groups_dropped = dropped, groups_kept = kept,
                            ac_tokens_freed = saturating_sub before after\<rparr>, ms'))"

lemma split_loop_group_loop:
  "map snd (split_loop ms i gs start idx) = group_loop is_user_message ms i (map snd gs) idx"
  by (induction ms i gs start idx rule: split_loop.induct) auto

lemma split_loop_starts:
  assumes "\<forall>(s, g)\<in>set gs. g \<noteq> [] \<and> hd g = s" and "idx \<noteq> [] \<Longrightarrow> hd idx = start"
    and "idx = [] \<Longrightarrow> start = i"
  shows "\<forall>(s, g)\<in>set (split_loop ms i gs start idx). g \<noteq> [] \<and> hd g = s"
  using assms
proof (induction ms i gs start idx rule: split_loop.induct)
  case (2 m ms i groups start idx)
  show ?case
  proof (cases "is_user_message m \<and> idx \<noteq> []")
    case True
    have eq: "split_loop (m # ms) i groups start idx = split_loop ms (i + 1) (groups @ [(start, idx)]) i [i]"
      using True by simp
    show ?thesis unfolding eq
      by (rule "2.IH"(1) [OF True]) (use True "2.prems" in simp_all)
  next
    case False
    have eq: "split_loop (m # ms) i groups start idx = split_loop ms (i + 1) groups start (idx @ [i])"
      using False by auto
    have h: "hd (idx @ [i]) = start" using "2.prems"(2,3) by (cases "idx = []") simp_all
    show ?thesis unfolding eq
      by (rule "2.IH"(2) [OF False "2.prems"(1) h]) simp
  qed
next
  case (1 i groups start idx)
  then show ?case by simp
qed

interpretation user_groups: index_partition is_user_message "\<lambda>ms. map snd (split_into_groups ms)"
  using index_partition_group_loop [of is_user_message]
  by (simp add: split_into_groups_def split_loop_group_loop)

lemma group_fst:
  "k < length (split_into_groups ms) \<Longrightarrow> fst (split_into_groups ms ! k) = user_groups.group_start ms k"
  using split_loop_starts [of "[]" "[]" 0 0 ms] user_groups.hd_group(1) [of k ms]
  by (auto simp: split_into_groups_def dest!: nth_mem)

lemma group_tokens_concat:
  "(\<Sum>g\<leftarrow>gs. group_tokens js ms g) = estimate_messages_tokens js (map ((!) ms) (concat gs))"
  by (induction gs) (simp_all add: group_tokens_def estimate_messages_tokens_def comp_def)

text \<open>What the loop keeps: a number of groups whose tokens fit, or the newest one alone.\<close>

lemma keep_groups_spec:
  assumes "keep_groups limit gs kt kc = (t, c)"
  obtains n where "n \<le> length gs" "c = kc + n" "t = kt + sum_list (take n gs)"
    "kc = 0 \<Longrightarrow> gs \<noteq> [] \<Longrightarrow> 0 < n" "t \<le> limit \<or> c \<le> 1 \<or> n = 0"
  using assms
proof (induction limit gs kt kc arbitrary: thesis rule: keep_groups.induct)
  case (1 limit kt kc)
  then show ?case by simp
next
  case (2 limit g gs kt kc)
  show ?case
  proof (cases "kc > 0 \<and> kt + g > limit")
    case True
    then have "t = kt" "c = kc" using "2.prems"(2) by simp_all
    with True show ?thesis by (intro "2.prems"(1) [of 0]) simp_all
  next
    case False
    then have k: "keep_groups limit gs (kt + g) (kc + 1) = (t, c)" using "2.prems"(2) by auto
    show ?thesis
    proof (rule "2.IH" [OF False _ k])
      fix n
      assume n: "n \<le> length gs" "c = kc + 1 + n" "t = kt + g + sum_list (take n gs)"
        "t \<le> limit \<or> c \<le> 1 \<or> n = 0"
      have "t \<le> limit \<or> c \<le> 1"
      proof (cases "n = 0")
        case True
        then show ?thesis using n(2,3) False by auto
      qed (use n(4) in blast)
      then show ?thesis using n(1,2,3) by (intro "2.prems"(1) [of "Suc n"]) simp_all
    qed
  qed
qed

text \<open>Autocompact. The messages left are a suffix of the history, which when shorter begins at a
  user message; their estimate fits the compact threshold unless they are one group, that is, no
  user message follows the first of them; what is freed is exactly the difference of the estimates;
  and a message list is never emptied.\<close>

theorem autocompact_effect:
  fixes js budget
  assumes "ms \<noteq> []"
  defines "r \<equiv> autocompact js ms budget"
  shows "\<exists>n<length ms. snd r = drop n ms \<and> (0 < n \<longrightarrow> is_user_message (ms ! n)) \<and>
    (estimate_messages_tokens js (snd r) \<le> compact_threshold (calculate_thresholds budget) \<or>
     list_all (\<lambda>m. \<not> is_user_message m) (tl (snd r))) \<and>
    ac_tokens_freed (fst r) = estimate_messages_tokens js ms - estimate_messages_tokens js (snd r)"
proof -
  let ?limit = "compact_threshold (calculate_thresholds budget)"
  let ?gs = "split_into_groups ms" let ?ig = "map snd ?gs"
  let ?toks = "map (group_tokens js ms \<circ> snd) (rev ?gs)"
  obtain t c where tc: "keep_groups ?limit ?toks 0 0 = (t, c)" by fastforce
  have ne: "?gs \<noteq> []" using user_groups.groups_Nil_iff [of ms] assms(1) by simp
  obtain n where n: "n \<le> length ?gs" "c = n" "t = sum_list (take n ?toks)" "0 < n" "t \<le> ?limit \<or> c \<le> 1"
    using keep_groups_spec [OF tc] ne
    by (metis add_0 length_map length_rev list.size(3) length_greater_0_conv not_less0
        bot_nat_0.not_eq_extremum)
  have one: "list_all (\<lambda>m. \<not> is_user_message m) (tl (drop (user_groups.group_start ms k) ms))"
    if "Suc k = length ?gs" for k
    using user_groups.last_group_no_boundary [of k ms] that
    by (auto simp: list_all_length nth_tl less_diff_conv)
  show ?thesis
  proof (cases "estimate_messages_tokens js ms \<le> ?limit")
    case True
    with assms show ?thesis
      by (intro exI [of _ 0]) (simp add: r_def autocompact_def Let_def)
  next
    case big: False
    show ?thesis
    proof (cases "length ?gs \<le> 1 \<or> n = length ?gs")
      case True
      have r: "snd r = ms" "ac_tokens_freed (fst r) = 0"
        using True big assms(1) tc n(2) by (auto simp: r_def autocompact_def Let_def)
      have "length ?gs = 1"
      proof (rule ccontr)
        assume l: "length ?gs \<noteq> 1"
        then have "n = length ?gs" "1 < n" using True ne n(4) length_greater_0_conv [of ?gs] by linarith+
        then have "t = (\<Sum>g\<leftarrow>?ig. group_tokens js ms g)" and fits: "t \<le> ?limit"
          using n by (simp_all add: rev_map [symmetric] sum_list_rev)
        then have "t = estimate_messages_tokens js (map ((!) ms) (concat ?ig))"
          by (simp only: group_tokens_concat)
        then show False
          using big fits user_groups.map_drop_groups [of ms 0]
          by (simp add: user_groups.group_start_def)
      qed
      with one [of 0] r assms(1) show ?thesis
        by (intro exI [of _ 0]) (simp add: user_groups.group_start_def)
    next
      case False
      let ?k = "length ?gs - n" let ?s = "user_groups.group_start ms ?k"
      have k: "?k < length ?gs" "0 < ?k" using False n by auto
      have r: "snd r = drop ?s ms"
          "ac_tokens_freed (fst r) = estimate_messages_tokens js ms - estimate_messages_tokens js (snd r)"
        using False big assms(1) tc n(1,2) k
        by (auto simp: r_def autocompact_def Let_def group_fst saturating_sub_def)
      have "take n ?toks = map (group_tokens js ms) (rev (drop ?k ?ig))"
        using n(1) by (simp add: take_map drop_map rev_map take_rev)
      then have "t = (\<Sum>g\<leftarrow>drop ?k ?ig. group_tokens js ms g)"
        using n(3) by (simp add: rev_map [symmetric] sum_list_rev)
      then have "t = estimate_messages_tokens js (map ((!) ms) (concat (drop ?k ?ig)))"
        by (simp only: group_tokens_concat)
      then have t: "t = estimate_messages_tokens js (snd r)"
        by (simp only: user_groups.map_drop_groups r)
      have "snd r = drop ?s ms \<and> list_all (\<lambda>m. \<not> is_user_message m) (tl (snd r))" if "c \<le> 1"
        using one [of ?k] that n k r by simp
      with r t n(5) k user_groups.boundary_at_start [of ?k ms] user_groups.hd_group(2) [of ?k ms]
      show ?thesis by (intro exI [of _ ?s]) auto
    qed
  qed
qed

lemma autocompact_effect_witness:
  "\<exists>n<2. snd (autocompact (\<lambda>_. []) [user_text ''a'', user_text ''b''] (with_buffers 1 0 0 0 0)) =
      drop n [user_text ''a'', user_text ''b'']"
  using autocompact_effect [of "[user_text ''a'', user_text ''b'']" "\<lambda>_. []"
      "with_buffers 1 0 0 0 0"]
  by (simp add: numeral_2_eq_2) blast

section \<open>Full compaction\<close>

definition compact_candidates :: "message list \<Rightarrow> usize \<Rightarrow> message list" where
  "compact_candidates ms keep_recent =
     (if length ms \<le> keep_recent then [] else take (length ms - keep_recent) ms)"

definition compaction_system_prompt :: string where
  "compaction_system_prompt =
     ''You are a conversation compaction engine. Produce faithful, detailed summaries of agent conversations. Respond with TEXT ONLY ''
     @ [CHR 0xE2, CHR 0x80, CHR 0x94] @ '' never call tools.'' @ [newline] @
     ''Your summary must be under the requested token limit.'' @ [newline] @
     ''Format your response as:'' @ [newline] @
     ''<summary>'' @ [newline] @
     ''1. Primary Request and Intent'' @ [newline] @
     ''2. Key Technical Concepts'' @ [newline] @
     ''3. Files, Commands, and Tools Used'' @ [newline] @
     ''4. Errors and Fixes'' @ [newline] @
     ''5. Problem Solving'' @ [newline] @
     ''6. All User Messages'' @ [newline] @
     ''7. Pending Tasks'' @ [newline] @
     ''8. Current Work'' @ [newline] @
     ''9. Optional Next Step'' @ [newline] @
     ''</summary>''"

definition compaction_user_prompt :: "bool \<Rightarrow> string" where
  "compaction_user_prompt has_retained_context =
     (if has_retained_context
      then ''Create a detailed summary of the RECENT portion of the conversation only. Earlier retained context will remain available after compaction. Focus on what happened in the recent messages and where the current work stopped. Respond with a <summary> block.''
      else ''Create a detailed summary of the conversation so far so the agent can continue working without losing context. The summary must preserve the user'' @ [CHR 0x27] @ ''s intent, the technical state, and the exact place where work stopped. Respond with a <summary> block.'')"

record full_compact_report =
  messages_replaced :: usize
  tokens_before :: usize
  tokens_after :: usize
  summary_extracted :: bool

definition open_tag :: string where "open_tag = ''<summary>''"
definition close_tag :: string where "close_tag = ''</summary>''"

definition extract_summary_tag :: "string \<Rightarrow> string \<times> bool" where
  "extract_summary_tag txt =
     (case str_find open_tag txt of
        None \<Rightarrow> (str_trim txt, False)
      | Some start \<Rightarrow>
          let after_open = start + length open_tag
          in (case str_find close_tag (drop after_open txt) of
                None \<Rightarrow> (str_trim txt, False)
              | Some en \<Rightarrow>
                  let content = str_trim (take en (drop after_open txt))
                  in if content \<noteq> [] then (content, True) else (str_trim txt, False)))"

definition build_resume_message :: "string \<Rightarrow> message" where
  "build_resume_message s =
     system_text
       (''This session is being continued from an earlier conversation that ran out of context.''
        @ [newline, newline] @ ''Summary:'' @ [newline] @ s @ [newline, newline] @
        ''Continue the conversation from where it left off without asking the user to repeat context. Resume directly, do not acknowledge the summary, and do not narrate that you are resuming.'')"

definition apply_summary ::
  "json_printer \<Rightarrow> message list \<Rightarrow> string \<Rightarrow> usize \<Rightarrow> full_compact_report \<times> message list" where
  "apply_summary js ms summary keep_recent =
     (if length ms \<le> keep_recent
      then (\<lparr>messages_replaced = 0, tokens_before = 0, tokens_after = 0, summary_extracted = False\<rparr>, ms)
      else
        let before = estimate_messages_tokens js ms;
            (summary_text, extracted) = extract_summary_tag summary;
            tail = drop (length ms - keep_recent) ms;
            replaced = take (length ms - keep_recent) ms;
            ms' = build_resume_message summary_text # tail
        in (\<lparr>messages_replaced = length replaced, tokens_before = before,
             tokens_after = estimate_messages_tokens js ms', summary_extracted = extracted\<rparr>, ms'))"

lemma str_find_skip:
  assumes "p = c # ps" and "c \<notin> set pre"
  shows "str_find p (pre @ p @ rest) = Some (length pre)"
  using assms(2)
proof (induction pre)
  case Nil
  then show ?case using assms(1) by (simp add: is_prefix_of_iff)
next
  case (Cons x pre)
  then show ?case using assms(1) by simp
qed

text \<open>The summary tag. In a reply whose text before the tag and inside it has no \<open><\<close> character,
  exactly the trimmed text between \<open><summary>\<close> and \<open></summary>\<close> is taken, and flagged as extracted,
  whatever follows the closing tag.\<close>

theorem extract_summary_tag_roundtrip:
  assumes "CHR ''<'' \<notin> set pre" and "CHR ''<'' \<notin> set body" and "str_trim body \<noteq> []"
  shows "extract_summary_tag (pre @ open_tag @ body @ close_tag @ post) = (str_trim body, True)"
proof -
  have "str_find open_tag (pre @ open_tag @ (body @ close_tag @ post)) = Some (length pre)"
    by (rule str_find_skip [OF _ assms(1)]) (simp add: open_tag_def)
  moreover have "str_find close_tag (body @ close_tag @ post) = Some (length body)"
    by (rule str_find_skip [OF _ assms(2)]) (simp add: close_tag_def)
  ultimately show ?thesis using assms(3) by (simp add: extract_summary_tag_def Let_def)
qed

lemma extract_summary_tag_roundtrip_witness:
  "extract_summary_tag (''ok: '' @ open_tag @ '' done '' @ close_tag @ '' <summary>'') = (''done'', True)"
proof -
  have t: "str_trim '' done '' = ''done''" by code_simp
  show ?thesis
    using extract_summary_tag_roundtrip [of "''ok: ''" "'' done ''" "'' <summary>''"] unfolding t by simp
qed

text \<open>Full compaction. The candidates handed to the summarizer and the messages kept after the
  resume message are together the whole history, in order: nothing is lost between
  \<open>compact_candidates\<close> and \<open>apply_summary\<close>, the count reported is the number of candidates, and
  the result has \<open>keep_recent + 1\<close> messages.\<close>

theorem full_compaction_partitions:
  assumes "keep_recent < length ms"
  shows "compact_candidates ms keep_recent @ tl (snd (apply_summary js ms s keep_recent)) = ms \<and>
    messages_replaced (fst (apply_summary js ms s keep_recent)) = length (compact_candidates ms keep_recent) \<and>
    hd (snd (apply_summary js ms s keep_recent)) = build_resume_message (fst (extract_summary_tag s)) \<and>
    length (snd (apply_summary js ms s keep_recent)) = Suc keep_recent"
  using assms
  by (simp add: compact_candidates_def apply_summary_def Let_def split_beta)

lemma full_compaction_partitions_witness:
  "compact_candidates [user_text ''a'', user_text ''b''] 1 @
     tl (snd (apply_summary (\<lambda>_. []) [user_text ''a'', user_text ''b''] ''s'' 1)) =
   [user_text ''a'', user_text ''b'']"
  using full_compaction_partitions [of 1 "[user_text ''a'', user_text ''b'']" "\<lambda>_. []" "''s''"] by simp

end
