(* ===== verification/Run_Machine.thy ===== *)
theory Run_Machine
  imports Core_Messages
begin

text \<open>
  The sans-IO run state machine (\<open>behest-core/src/run.rs\<close>): its states, inputs, actions and
  configuration, the pure function \<open>transition\<close> in the order of the source's match arms, and
  the runs of the machine over a list of inputs.
\<close>

section \<open>States, inputs, actions\<close>

datatype run_state =
    Idle | BuildingContext | CallingModel | StreamingModel | ProcessingResponse
  | ExecutingTools | WaitingApproval | Compacting | Demoting | Finished | Aborted

datatype run_input =
    UserMessageReceived "content_part list"
  | ModelChunkReceived string
  | ModelCompleted message token_usage
  | ToolCallRequested "tool_call list"
  | ToolResultReceived string json
  | ToolApprovalGranted string
  | ToolApprovalRejected string "string option"
  | MemoryCompactionCompleted string
  | RuntimeErrorReceived string
  | CancellationRequested

datatype run_action =
    RequestModel chat_request
  | ExecuteTool "tool_call list"
  | RequestToolApproval tool_call string
  | CompactMemory
  | DemoteMemory
  | FinishRun finish_reason token_usage
  | AbortRun string
  | Noop

record run_config =
  rc_max_iterations :: usize
  rc_max_tokens :: "usize option"
  rc_continue_on_tool_failure :: bool

definition run_config_default :: run_config where
  "run_config_default =
     \<lparr>rc_max_iterations = 10, rc_max_tokens = None, rc_continue_on_tool_failure = True\<rparr>"

definition cancelled_msg :: string where
  "cancelled_msg = ''cancelled''"

section \<open>The transition function\<close>

text \<open>One equation per state; the last branch of each is the source's catch-all arm.\<close>

fun transition :: "run_state \<Rightarrow> run_input \<Rightarrow> run_config \<Rightarrow> run_state \<times> run_action list" where
  "transition Idle i _ = (case i of
      UserMessageReceived _ \<Rightarrow> (BuildingContext, [Noop])
    | CancellationRequested \<Rightarrow> (Aborted, [AbortRun ''cancelled before start''])
    | _ \<Rightarrow> (Idle, [Noop]))"
| "transition BuildingContext i _ = (case i of
      UserMessageReceived _ \<Rightarrow> (CallingModel, [Noop])
    | _ \<Rightarrow> (BuildingContext, [Noop]))"
| "transition CallingModel i _ = (case i of
      ModelChunkReceived _ \<Rightarrow> (StreamingModel, [Noop])
    | ModelCompleted msg _ \<Rightarrow>
        if tool_calls msg \<noteq> [] then (ExecutingTools, [ExecuteTool (tool_calls msg)])
        else (Finished, [FinishRun Stop (usage_new 0 0)])
    | RuntimeErrorReceived e \<Rightarrow> (Aborted, [AbortRun e])
    | CancellationRequested \<Rightarrow> (Aborted, [AbortRun cancelled_msg])
    | _ \<Rightarrow> (CallingModel, [Noop]))"
| "transition StreamingModel i _ = (case i of
      ModelChunkReceived _ \<Rightarrow> (StreamingModel, [Noop])
    | ModelCompleted msg usage \<Rightarrow>
        if tool_calls msg \<noteq> [] then (ExecutingTools, [ExecuteTool (tool_calls msg)])
        else (Finished, [FinishRun Stop usage])
    | RuntimeErrorReceived e \<Rightarrow> (Aborted, [AbortRun e])
    | CancellationRequested \<Rightarrow> (Aborted, [AbortRun cancelled_msg])
    | _ \<Rightarrow> (StreamingModel, [Noop]))"
| "transition ProcessingResponse i _ = (case i of
      ToolCallRequested calls \<Rightarrow> (ExecutingTools, [ExecuteTool calls])
    | _ \<Rightarrow> (ProcessingResponse, [Noop]))"
| "transition ExecutingTools i _ = (case i of
      ToolResultReceived _ _ \<Rightarrow> (ExecutingTools, [Noop])
    | RuntimeErrorReceived _ \<Rightarrow> (BuildingContext, [Noop])
    | _ \<Rightarrow> (ExecutingTools, [Noop]))"
| "transition WaitingApproval i _ = (case i of
      ToolApprovalGranted call_id \<Rightarrow>
        (ExecutingTools, [ExecuteTool [tool_call_new call_id [] JNull]])
    | ToolApprovalRejected _ _ \<Rightarrow> (BuildingContext, [Noop])
    | _ \<Rightarrow> (WaitingApproval, [Noop]))"
| "transition Compacting i _ = (case i of
      MemoryCompactionCompleted _ \<Rightarrow> (BuildingContext, [Noop])
    | _ \<Rightarrow> (Compacting, [Noop]))"
| "transition Demoting i _ = (Demoting, [Noop])"
| "transition Finished i _ = (Finished, [])"
| "transition Aborted i _ = (Aborted, [])"

section \<open>Runs\<close>

fun run_machine :: "run_config \<Rightarrow> run_state \<Rightarrow> run_input list \<Rightarrow> run_state \<times> run_action list" where
  "run_machine cfg s [] = (s, [])"
| "run_machine cfg s (i # is) =
     (let (s', acts) = transition s i cfg; (s'', acts') = run_machine cfg s' is
      in (s'', acts @ acts'))"

inductive run_step :: "run_state \<Rightarrow> run_state \<Rightarrow> bool" where
  step: "run_step s (fst (transition s i cfg))"

inductive run_reachable :: "run_state \<Rightarrow> bool" where
  start: "run_reachable Idle"
| step: "run_reachable s \<Longrightarrow> run_step s t \<Longrightarrow> run_reachable t"

inductive_cases run_stepE: "run_step s t"

fun is_terminal :: "run_state \<Rightarrow> bool" where
  "is_terminal Finished = True"
| "is_terminal Aborted = True"
| "is_terminal _ = False"

fun ends_run :: "run_action \<Rightarrow> bool" where
  "ends_run (FinishRun _ _) = True"
| "ends_run (AbortRun _) = True"
| "ends_run _ = False"

lemma is_terminal_iff: "is_terminal s \<longleftrightarrow> s = Finished \<or> s = Aborted"
  by (cases s) auto

lemma run_machine_fst: "fst (run_machine cfg s (i # is)) = fst (run_machine cfg (fst (transition s i cfg)) is)"
  by (simp add: case_prod_unfold Let_def)

lemma run_machine_snd:
  "snd (run_machine cfg s (i # is)) =
     snd (transition s i cfg) @ snd (run_machine cfg (fst (transition s i cfg)) is)"
  by (simp add: case_prod_unfold Let_def)

lemmas run_machine_Cons = run_machine_fst run_machine_snd

lemma transition_terminal: "is_terminal s \<Longrightarrow> transition s i cfg = (s, [])"
  by (auto simp: is_terminal_iff)

lemma run_machine_terminal: "is_terminal s \<Longrightarrow> run_machine cfg s is = (s, [])"
  by (induction "is") (auto simp: transition_terminal)

text \<open>Case analysis on state and input, used by every property of one transition.\<close>

lemma transition_ends:
  "\<not> is_terminal s \<Longrightarrow>
   length (filter ends_run (snd (transition s i cfg))) =
     (if is_terminal (fst (transition s i cfg)) then 1 else 0)"
  by (cases s; cases i) auto

lemma transition_config: "transition s i cfg = transition s i cfg'"
  by (cases s; cases i) auto

lemma transition_one_action: "\<not> is_terminal s \<Longrightarrow> length (snd (transition s i cfg)) = 1"
  by (cases s; cases i) auto

definition live_states :: "run_state set" where
  "live_states = {Idle, BuildingContext, CallingModel, StreamingModel, ExecutingTools, Finished, Aborted}"

lemma transition_live: "s \<in> live_states \<Longrightarrow> fst (transition s i cfg) \<in> live_states"
  by (cases s; cases i) (auto simp: live_states_def)

lemma run_reachable_live: "run_reachable s \<Longrightarrow> s \<in> live_states"
proof (induction rule: run_reachable.induct)
  case start
  show ?case by (simp add: live_states_def)
next
  case (step s t)
  then show ?case by (auto elim!: run_stepE intro: transition_live)
qed

lemma run_reachable_transition: "run_reachable s \<Longrightarrow> run_reachable (fst (transition s i cfg))"
  by (blast intro: run_reachable.step run_step.step)

text \<open>The calls an action asks the runtime to execute.\<close>

fun action_calls :: "run_action \<Rightarrow> tool_call list" where
  "action_calls (ExecuteTool calls) = calls"
| "action_calls _ = []"

section \<open>Properties\<close>

text \<open>C20: a run of the machine ends exactly once: over any inputs from a state that is not terminal,
  the actions hold one \<open>FinishRun\<close> or \<open>AbortRun\<close> if the final state is terminal and none
  otherwise, so a runtime that obeys the actions never finishes a run twice.\<close>

theorem run_ends_exactly_once:
  assumes "\<not> is_terminal s"
  shows "length (filter ends_run (snd (run_machine cfg s is))) =
           (if is_terminal (fst (run_machine cfg s is)) then 1 else 0)"
  using assms
proof (induction "is" arbitrary: s)
  case Nil
  then show ?case by simp
next
  case (Cons i rest)
  show ?case
  proof (cases "is_terminal (fst (transition s i cfg))")
    case True
    then show ?thesis
      using transition_ends [OF Cons.prems, of i cfg]
      by (simp only: run_machine_Cons run_machine_terminal [OF True]) simp
  next
    case False
    then show ?thesis
      using transition_ends [OF Cons.prems, of i cfg] Cons.IH [OF False]
      by (simp only: run_machine_Cons) simp
  qed
qed

theorem run_ends_exactly_once_witness:
  "\<not> is_terminal Idle \<and>
   length (filter ends_run (snd (run_machine run_config_default Idle
     [UserMessageReceived [], CancellationRequested, UserMessageReceived [], CancellationRequested,
      CancellationRequested]))) = 1"
  using run_ends_exactly_once [of Idle run_config_default
      "[UserMessageReceived [], CancellationRequested, UserMessageReceived [], CancellationRequested,
      CancellationRequested]"]
  by simp

text \<open>the states the machine can reach from \<open>Idle\<close> are exactly seven: \<open>ProcessingResponse\<close>,
  \<open>WaitingApproval\<close>, \<open>Compacting\<close> and \<open>Demoting\<close> are never entered, so approval, compaction
  and demotion are never started by this machine.\<close>

theorem run_reachable_states:
  "run_reachable s \<longleftrightarrow>
     s \<in> {Idle, BuildingContext, CallingModel, StreamingModel, ExecutingTools, Finished, Aborted}"
proof
  assume "run_reachable s"
  then show "s \<in> {Idle, BuildingContext, CallingModel, StreamingModel, ExecutingTools, Finished, Aborted}"
    using run_reachable_live by (simp add: live_states_def)
next
  let ?c = run_config_default
  have ctx: "run_reachable BuildingContext"
    using run_reachable_transition [OF run_reachable.start, of "UserMessageReceived []" ?c] by simp
  have call: "run_reachable CallingModel"
    using run_reachable_transition [OF ctx, of "UserMessageReceived []" ?c] by simp
  have "run_reachable StreamingModel" "run_reachable Aborted" "run_reachable Finished"
    "run_reachable ExecutingTools"
    using run_reachable_transition [OF call, of "ModelChunkReceived ''''" ?c]
      run_reachable_transition [OF call, of CancellationRequested ?c]
      run_reachable_transition [OF call, of "ModelCompleted (assistant_text '''') u" ?c]
      run_reachable_transition [OF call, of "ModelCompleted (Assistant [] [tool_call_new '''' '''' JNull]) u" ?c]
    by simp_all
  moreover assume "s \<in> {Idle, BuildingContext, CallingModel, StreamingModel, ExecutingTools, Finished, Aborted}"
  ultimately show "run_reachable s"
    using ctx call run_reachable.start by blast
qed

text \<open>a cancellation request aborts the run in \<open>Idle\<close>, \<open>CallingModel\<close> and
  \<open>StreamingModel\<close> only; in every other state it leaves the state as it is, so a run that is
  building its context or executing tools cannot be cancelled by this input.\<close>

theorem cancellation_effect:
  "fst (transition s CancellationRequested cfg) =
     (if s \<in> {Idle, CallingModel, StreamingModel} then Aborted else s)"
  by (cases s) auto

end
