(* ===== verification/Circuit_Breaker.thy ===== *)
theory Circuit_Breaker
  imports Behest_Prelude
begin

text \<open>
  The two compaction circuit breakers: \<open>CompactCircuitBreaker\<close> of the journal
  (\<open>behest-core/src/journal.rs\<close>), which compares a saturating counter with its limit, and
  \<open>CompactionCircuitBreaker\<close> of the runtime (\<open>behest-runtime/src/compaction/mod.rs\<close>), which
  keeps an explicit open state. The locale \<open>circuit_breaker\<close> is the contract their callers rely
  on; both are interpretations of it, so its lemmas hold of both.
\<close>

section \<open>The contract\<close>

locale circuit_breaker =
  fixes new :: "nat \<Rightarrow> 'b"
    and failure :: "'b \<Rightarrow> 'b"
    and success :: "'b \<Rightarrow> 'b"
    and is_open :: "'b \<Rightarrow> bool"
    and failures :: "'b \<Rightarrow> nat"
    and limit :: "'b \<Rightarrow> nat"
    and admissible :: "nat \<Rightarrow> bool"
    and invar :: "'b \<Rightarrow> bool"
  assumes new_ok: "admissible n \<Longrightarrow> invar (new n)" "admissible n \<Longrightarrow> failures (new n) = 0"
      "admissible n \<Longrightarrow> limit (new n) = n" "admissible n \<Longrightarrow> 0 < n"
    and invar_failure: "invar b \<Longrightarrow> invar (failure b)"
    and invar_success: "invar b \<Longrightarrow> invar (success b)"
    and open_iff: "invar b \<Longrightarrow> is_open b \<longleftrightarrow> limit b \<le> failures b"
    and limit_failure: "invar b \<Longrightarrow> limit (failure b) = limit b"
    and limit_success: "invar b \<Longrightarrow> limit (success b) = limit b"
    and failures_success: "invar b \<Longrightarrow> failures (success b) = 0"
    and failures_closed: "invar b \<Longrightarrow> \<not> is_open b \<Longrightarrow> failures (failure b) = Suc (failures b)"
    and failures_open: "invar b \<Longrightarrow> is_open b \<Longrightarrow> failures b \<le> failures (failure b)"
begin

text \<open>Replaying outcomes: \<open>True\<close> for a successful compaction.\<close>

fun replay :: "'b \<Rightarrow> bool list \<Rightarrow> 'b" where
  "replay b [] = b"
| "replay b (ok # oks) = replay (if ok then success b else failure b) oks"

lemma replay_append: "replay b (xs @ ys) = replay (replay b xs) ys"
  by (induction xs arbitrary: b) auto

lemma replay_invar: "invar b \<Longrightarrow> invar (replay b oks) \<and> limit (replay b oks) = limit b"
proof (induction oks arbitrary: b)
  case (Cons ok oks)
  then show ?case
    by (simp add: invar_failure invar_success limit_failure limit_success)
qed simp

lemma replay_open:
  assumes "admissible n"
  shows "min (failures (replay (new n) oks)) n = min (length (takeWhile Not (rev oks))) n"
proof (induction oks rule: rev_induct)
  case Nil
  then show ?case using assms by (simp add: new_ok)
next
  case (snoc ok oks)
  let ?b = "replay (new n) oks"
  have b: "invar ?b" "limit ?b = n"
    using replay_invar [of "new n" oks] new_ok [OF assms] by auto
  show ?case
  proof (cases ok)
    case True
    then show ?thesis using b by (simp add: replay_append failures_success)
  next
    case False
    then have step: "replay (new n) (oks @ [ok]) = failure ?b"
      by (simp add: replay_append)
    show ?thesis
    proof (cases "is_open ?b")
      case True
      then have "n \<le> failures ?b" and "n \<le> failures (failure ?b)"
        using b open_iff [of ?b] failures_open [of ?b] by auto
      with snoc.IH False show ?thesis unfolding step by simp
    next
      case closed: False
      then show ?thesis
        using snoc.IH False b failures_closed [OF b(1) closed] unfolding step by auto
    qed
  qed
qed

text \<open>The breaker is open exactly when the last \<open>n\<close> outcomes were all failures.\<close>

lemma open_iff_trailing_failures:
  assumes "admissible n"
  shows "is_open (replay (new n) oks) \<longleftrightarrow> n \<le> length (takeWhile Not (rev oks))"
proof -
  have "invar (replay (new n) oks)" "limit (replay (new n) oks) = n"
    using replay_invar [of "new n" oks] new_ok [OF assms] by auto
  then have "is_open (replay (new n) oks) \<longleftrightarrow> n \<le> failures (replay (new n) oks)"
    by (simp add: open_iff)
  also have "\<dots> \<longleftrightarrow> n \<le> length (takeWhile Not (rev oks))"
    using replay_open [OF assms, of oks] by linarith
  finally show ?thesis .
qed

end

section \<open>The journal's breaker\<close>

record compact_breaker =
  max_consecutive_failures :: usize
  cb_consecutive_failures :: usize

definition compact_breaker_new :: "usize \<Rightarrow> compact_breaker" where
  "compact_breaker_new n = \<lparr>max_consecutive_failures = n, cb_consecutive_failures = 0\<rparr>"

definition cb_is_open :: "compact_breaker \<Rightarrow> bool" where
  "cb_is_open b = (cb_consecutive_failures b \<ge> max_consecutive_failures b)"

definition cb_record_success :: "compact_breaker \<Rightarrow> compact_breaker" where
  "cb_record_success b = b\<lparr>cb_consecutive_failures := 0\<rparr>"

definition cb_record_failure :: "compact_breaker \<Rightarrow> compact_breaker" where
  "cb_record_failure b =
     b\<lparr>cb_consecutive_failures := saturating_add (cb_consecutive_failures b) 1\<rparr>"

definition cb_reset :: "compact_breaker \<Rightarrow> compact_breaker" where
  "cb_reset b = b\<lparr>cb_consecutive_failures := 0\<rparr>"

definition cb_invar :: "compact_breaker \<Rightarrow> bool" where
  "cb_invar b \<longleftrightarrow> 0 < max_consecutive_failures b \<and> max_consecutive_failures b \<le> usize_max
     \<and> cb_consecutive_failures b \<le> usize_max"

lemmas cb_defs = compact_breaker_new_def cb_is_open_def cb_record_success_def cb_record_failure_def
  cb_reset_def cb_invar_def

interpretation journal_breaker: circuit_breaker compact_breaker_new cb_record_failure
  cb_record_success cb_is_open cb_consecutive_failures max_consecutive_failures
  "\<lambda>n. 0 < n \<and> n \<le> usize_max" cb_invar
  by unfold_locales (auto simp: cb_defs saturating_add_def min_def)

section \<open>The runtime's breaker\<close>

datatype breaker_state = Closed | Open nat

record runtime_breaker =
  rb_consecutive_failures :: u32
  rb_threshold :: u32
  rb_state :: breaker_state

definition runtime_breaker_new :: "u32 \<Rightarrow> runtime_breaker" where
  "runtime_breaker_new t = \<lparr>rb_consecutive_failures = 0, rb_threshold = t, rb_state = Closed\<rparr>"

definition rb_record_success :: "runtime_breaker \<Rightarrow> runtime_breaker" where
  "rb_record_success b = b\<lparr>rb_consecutive_failures := 0, rb_state := Closed\<rparr>"

definition rb_is_open :: "runtime_breaker \<Rightarrow> bool" where
  "rb_is_open b = (case rb_state b of Open _ \<Rightarrow> True | Closed \<Rightarrow> False)"

text \<open>\<open>record_failure\<close> reads the clock (\<open>now\<close>) and returns whether this failure opened it.\<close>

definition rb_record_failure :: "nat \<Rightarrow> runtime_breaker \<Rightarrow> bool \<times> runtime_breaker" where
  "rb_record_failure now b =
     (if rb_is_open b then (False, b)
      else let b' = b\<lparr>rb_consecutive_failures := rb_consecutive_failures b + 1\<rparr>
           in if rb_consecutive_failures b' \<ge> rb_threshold b'
              then (True, b'\<lparr>rb_state := Open now\<rparr>)
              else (False, b'))"

definition rb_invar :: "runtime_breaker \<Rightarrow> bool" where
  "rb_invar b \<longleftrightarrow> 0 < rb_threshold b
     \<and> (rb_is_open b \<longleftrightarrow> rb_threshold b \<le> rb_consecutive_failures b)"

lemmas rb_defs = runtime_breaker_new_def rb_record_success_def rb_is_open_def rb_record_failure_def
  rb_invar_def

lemma rb_failure_closed:
  assumes "rb_invar b" and "\<not> rb_is_open b"
  shows "rb_invar (snd (rb_record_failure now b))"
    and "unat (rb_consecutive_failures (snd (rb_record_failure now b))) =
           Suc (unat (rb_consecutive_failures b))"
    and "fst (rb_record_failure now b) = rb_is_open (snd (rb_record_failure now b))"
  using assms
  by (auto simp: rb_defs unat_Suc_below not_le Let_def split: breaker_state.splits)

lemma rb_failure_open: "rb_is_open b \<Longrightarrow> rb_record_failure now b = (False, b)"
  by (simp add: rb_record_failure_def)

lemma rb_failure_threshold: "rb_threshold (snd (rb_record_failure now b)) = rb_threshold b"
  by (simp add: rb_record_failure_def Let_def)

interpretation run_breaker: circuit_breaker "\<lambda>n. runtime_breaker_new (of_nat n)"
  "\<lambda>b. snd (rb_record_failure now b)" rb_record_success rb_is_open
  "\<lambda>b. unat (rb_consecutive_failures b)" "\<lambda>b. unat (rb_threshold b)"
  "\<lambda>n. 0 < n \<and> n < 4294967296" rb_invar
  for now
proof unfold_locales
  fix n :: nat
  assume n: "0 < n \<and> n < 4294967296"
  then have u: "unat (of_nat n :: u32) = n" by (simp add: unat_of_nat)
  then have "(of_nat n :: u32) \<noteq> 0" using n by auto
  then have "0 < (of_nat n :: u32)" by (simp add: word_neq_0_conv)
  then show "rb_invar (runtime_breaker_new (of_nat n))" by (simp add: rb_defs)
  show "unat (rb_consecutive_failures (runtime_breaker_new (of_nat n))) = 0"
    by (simp add: rb_defs)
  show "unat (rb_threshold (runtime_breaker_new (of_nat n))) = n"
    using u by (simp add: rb_defs)
  show "0 < n" using n by simp
next
  fix b
  assume b: "rb_invar b"
  show "rb_invar (snd (rb_record_failure now b))"
    using b rb_failure_closed(1) [OF b] rb_failure_open [of b] by (cases "rb_is_open b") auto
  show "rb_invar (rb_record_success b)" using b by (auto simp: rb_defs)
  show "rb_is_open b \<longleftrightarrow> unat (rb_threshold b) \<le> unat (rb_consecutive_failures b)"
    using b by (simp add: rb_invar_def word_le_nat_alt)
  show "unat (rb_threshold (snd (rb_record_failure now b))) = unat (rb_threshold b)"
    by (simp add: rb_failure_threshold)
  show "unat (rb_threshold (rb_record_success b)) = unat (rb_threshold b)"
    by (simp add: rb_defs)
  show "unat (rb_consecutive_failures (rb_record_success b)) = 0"
    by (simp add: rb_defs)
next
  fix b
  assume "rb_invar b" and "\<not> rb_is_open b"
  then show "unat (rb_consecutive_failures (snd (rb_record_failure now b))) =
    Suc (unat (rb_consecutive_failures b))" by (rule rb_failure_closed(2))
next
  fix b
  assume "rb_is_open b"
  then show "unat (rb_consecutive_failures b)
      \<le> unat (rb_consecutive_failures (snd (rb_record_failure now b)))"
    by (simp add: rb_failure_open)
qed

section \<open>Replays on the model\<close>

fun rb_replay :: "nat \<Rightarrow> runtime_breaker \<Rightarrow> bool list \<Rightarrow> runtime_breaker" where
  "rb_replay now b [] = b"
| "rb_replay now b (ok # oks) =
     rb_replay now (if ok then rb_record_success b else snd (rb_record_failure now b)) oks"

lemma rb_replay_eq: "rb_replay now b oks = run_breaker.replay now b oks"
  by (induction oks arbitrary: b) auto

text \<open>the runtime's breaker with a positive threshold \<open>n\<close> is open after a sequence of
  compaction outcomes exactly when its last \<open>n\<close> outcomes were failures: one success closes it,
  and no shorter run of failures opens it.\<close>

theorem runtime_breaker_opens_iff:
  assumes "0 < n" and "n < 2 ^ 32"
  shows "rb_is_open (rb_replay now (runtime_breaker_new (of_nat n)) oks) \<longleftrightarrow>
           n \<le> length (takeWhile Not (rev oks))"
  unfolding rb_replay_eq using assms by (intro run_breaker.open_iff_trailing_failures) simp

theorem runtime_breaker_opens_iff_witness:
  "rb_is_open (rb_replay 7 (runtime_breaker_new (of_nat 3)) [False, True, False, False, False])
   \<and> \<not> rb_is_open (rb_replay 7 (runtime_breaker_new (of_nat 3)) [False, False, True, False, False])"
  using runtime_breaker_opens_iff [of 3 7 "[False, True, False, False, False]"]
    runtime_breaker_opens_iff [of 3 7 "[False, False, True, False, False]"]
  by simp

end
