(* ===== verification/Tool_Strategy.thy ===== *)
theory Tool_Strategy
  imports Core_Types "HOL-Library.Multiset"
begin

text \<open>
  Execution plans for tool calls (\<open>behest-tool/src/strategy.rs\<close>). A boxed \<open>dyn Tool\<close> is the record
  of the four answers the planner asks it for; the \<open>HashMap\<close> of tools by name keeps the last tool of
  a name.
\<close>

record tool_meta =
  tm_name :: string
  tm_read_only :: bool
  tm_concurrency_safe :: bool
  tm_requires_approval :: bool

datatype tool_execution_strategy = Sequential | Parallel usize | Auto

record execution_group =
  eg_parallel :: bool
  eg_calls :: "tool_call list"

record execution_plan =
  ep_groups :: "execution_group list"

definition plan_sequential :: "tool_call list \<Rightarrow> execution_plan" where
  "plan_sequential calls = \<lparr>ep_groups = [\<lparr>eg_parallel = False, eg_calls = calls\<rparr>]\<rparr>"

definition plan_parallel :: "tool_call list \<Rightarrow> execution_plan" where
  "plan_parallel calls = \<lparr>ep_groups = [\<lparr>eg_parallel = True, eg_calls = calls\<rparr>]\<rparr>"

definition tool_lookup :: "tool_meta list \<Rightarrow> string \<Rightarrow> tool_meta option" where
  "tool_lookup tools = map_of (rev (map (\<lambda>t. (tm_name t, t)) tools))"

definition is_some_and :: "'a option \<Rightarrow> ('a \<Rightarrow> bool) \<Rightarrow> bool" where
  "is_some_and x p = (case x of Some a \<Rightarrow> p a | None \<Rightarrow> False)"

record call_partition =
  cp_parallel_safe :: "tool_call list"
  cp_sequential :: "tool_call list"
  cp_pending_approval :: "tool_call list"

definition classify_call :: "tool_meta list \<Rightarrow> call_partition \<Rightarrow> tool_call \<Rightarrow> call_partition" where
  "classify_call tools p call =
     (let tool = tool_lookup tools (tc_name call);
          is_read_only = is_some_and tool tm_read_only;
          is_concurrency_safe = is_some_and tool tm_concurrency_safe;
          requires_approval = is_some_and tool tm_requires_approval
      in if requires_approval then p\<lparr>cp_pending_approval := cp_pending_approval p @ [call]\<rparr>
         else if is_read_only \<or> is_concurrency_safe
         then p\<lparr>cp_parallel_safe := cp_parallel_safe p @ [call]\<rparr>
         else p\<lparr>cp_sequential := cp_sequential p @ [call]\<rparr>)"

definition partition_calls :: "tool_meta list \<Rightarrow> tool_call list \<Rightarrow> call_partition" where
  "partition_calls tools calls =
     foldl (classify_call tools) \<lparr>cp_parallel_safe = [], cp_sequential = [], cp_pending_approval = []\<rparr> calls"

definition single_group :: "tool_call \<Rightarrow> execution_group" where
  "single_group call = \<lparr>eg_parallel = False, eg_calls = [call]\<rparr>"

definition auto_plan :: "tool_call list \<Rightarrow> tool_meta list \<Rightarrow> execution_plan" where
  "auto_plan calls tools =
     (if length calls \<le> 1 then plan_sequential calls
      else
        let p = partition_calls tools calls;
            groups = map single_group (cp_pending_approval p)
              @ (if cp_parallel_safe p \<noteq> []
                 then [\<lparr>eg_parallel = True, eg_calls = cp_parallel_safe p\<rparr>] else [])
              @ map single_group (cp_sequential p)
        in if groups = [] then plan_sequential calls else \<lparr>ep_groups = groups\<rparr>)"

fun plan :: "tool_execution_strategy \<Rightarrow> tool_call list \<Rightarrow> tool_meta list \<Rightarrow> execution_plan" where
  "plan Sequential calls tools = plan_sequential calls"
| "plan (Parallel _) calls tools = plan_parallel calls"
| "plan Auto calls tools = auto_plan calls tools"

section \<open>The partition\<close>

definition needs_approval :: "tool_meta list \<Rightarrow> tool_call \<Rightarrow> bool" where
  "needs_approval tools c = is_some_and (tool_lookup tools (tc_name c)) tm_requires_approval"

definition may_run_parallel :: "tool_meta list \<Rightarrow> tool_call \<Rightarrow> bool" where
  "may_run_parallel tools c \<longleftrightarrow>
     is_some_and (tool_lookup tools (tc_name c)) tm_read_only \<or>
     is_some_and (tool_lookup tools (tc_name c)) tm_concurrency_safe"

lemma partition_filter:
  "cp_pending_approval (partition_calls tools calls) = filter (needs_approval tools) calls"
  "cp_parallel_safe (partition_calls tools calls) =
     filter (\<lambda>c. \<not> needs_approval tools c \<and> may_run_parallel tools c) calls"
  "cp_sequential (partition_calls tools calls) =
     filter (\<lambda>c. \<not> needs_approval tools c \<and> \<not> may_run_parallel tools c) calls"
  unfolding partition_calls_def
  by (induction calls rule: rev_induct)
    (auto simp: classify_call_def Let_def needs_approval_def may_run_parallel_def)

lemma concat_single_groups: "concat (map eg_calls (map single_group cs)) = cs"
  by (induction cs) (auto simp: single_group_def)

lemma mset_three_filters:
  "mset (filter P xs) + mset (filter (\<lambda>x. \<not> P x \<and> Q x) xs) + mset (filter (\<lambda>x. \<not> P x \<and> \<not> Q x) xs)
    = mset xs"
  by (induction xs) auto

lemma auto_plan_groups:
  assumes "2 \<le> length calls"
  shows "ep_groups (auto_plan calls tools) =
    (let safe = filter (\<lambda>c. \<not> needs_approval tools c \<and> may_run_parallel tools c) calls
     in map single_group (filter (needs_approval tools) calls)
       @ (if safe \<noteq> [] then [\<lparr>eg_parallel = True, eg_calls = safe\<rparr>] else [])
       @ map single_group
           (filter (\<lambda>c. \<not> needs_approval tools c \<and> \<not> may_run_parallel tools c) calls))"
proof -
  have "\<exists>c. c \<in> set calls" using assms by (cases calls) auto
  then have "filter (needs_approval tools) calls \<noteq> []
      \<or> filter (\<lambda>c. \<not> needs_approval tools c \<and> may_run_parallel tools c) calls \<noteq> []
      \<or> filter (\<lambda>c. \<not> needs_approval tools c \<and> \<not> may_run_parallel tools c) calls \<noteq> []"
    by (auto simp: filter_empty_conv)
  then show ?thesis using assms by (auto simp: auto_plan_def partition_filter Let_def)
qed

lemma auto_plan_calls:
  assumes "2 \<le> length calls"
  shows "concat (map eg_calls (ep_groups (auto_plan calls tools))) =
    filter (needs_approval tools) calls
    @ filter (\<lambda>c. \<not> needs_approval tools c \<and> may_run_parallel tools c) calls
    @ filter (\<lambda>c. \<not> needs_approval tools c \<and> \<not> may_run_parallel tools c) calls"
  unfolding auto_plan_groups [OF assms] Let_def map_append concat_append concat_single_groups
  by simp

text \<open>A plan runs every call exactly once. For each strategy the groups of the plan hold exactly
  the given calls, as a multiset; \<open>Sequential\<close> and \<open>Parallel\<close> keep their order.\<close>

theorem plan_runs_each_call_once:
  "mset (concat (map eg_calls (ep_groups (plan s calls tools)))) = mset calls \<and>
   (s \<in> {Sequential} \<union> range Parallel \<longrightarrow>
      concat (map eg_calls (ep_groups (plan s calls tools))) = calls)"
proof (cases s)
  case Auto
  show ?thesis
  proof (cases "length calls \<le> 1")
    case True
    with Auto show ?thesis by (auto simp: auto_plan_def plan_sequential_def)
  next
    case False
    then have "2 \<le> length calls" by simp
    from auto_plan_calls [OF this, of tools] Auto show ?thesis
      using mset_three_filters [of "needs_approval tools" calls "may_run_parallel tools"]
      by (auto simp: union_assoc)
  qed
qed (auto simp: plan_sequential_def plan_parallel_def)

lemma plan_runs_each_call_once_witness:
  "concat (map eg_calls (ep_groups (plan (Parallel 2)
      [tool_call_new ''1'' ''a'' JNull, tool_call_new ''2'' ''b'' JNull] []))) =
     [tool_call_new ''1'' ''a'' JNull, tool_call_new ''2'' ''b'' JNull]"
  using plan_runs_each_call_once [of "Parallel 2"
      "[tool_call_new ''1'' ''a'' JNull, tool_call_new ''2'' ''b'' JNull]" "[]"] by simp

text \<open>What \<open>Auto\<close> lets run together. With two or more calls, a group marked parallel holds only
  calls whose tool is registered, does not require approval, and is read-only or concurrency-safe;
  every other group is a single call, so a call that requires approval is never grouped.\<close>

theorem auto_plan_groups_safe:
  assumes "2 \<le> length calls" and "g \<in> set (ep_groups (auto_plan calls tools))"
  shows "if eg_parallel g
      then list_all (\<lambda>c. \<not> needs_approval tools c \<and> may_run_parallel tools c) (eg_calls g)
      else \<exists>c. c \<in> set calls \<and> eg_calls g = [c] \<and>
        (needs_approval tools c \<or> \<not> may_run_parallel tools c)"
  using assms(2) unfolding auto_plan_groups [OF assms(1)] Let_def
  by (auto simp: single_group_def list_all_iff split: if_splits)

lemma auto_plan_groups_safe_witness:
  "let t = \<lparr>tm_name = ''r'', tm_read_only = True, tm_concurrency_safe = True, tm_requires_approval = False\<rparr>;
       calls = [tool_call_new ''1'' ''r'' JNull, tool_call_new ''2'' ''r'' JNull]
   in list_all (\<lambda>c. \<not> needs_approval [t] c \<and> may_run_parallel [t] c) calls"
proof -
  let ?t = "\<lparr>tm_name = ''r'', tm_read_only = True, tm_concurrency_safe = True, tm_requires_approval = False\<rparr>"
  let ?calls = "[tool_call_new ''1'' ''r'' JNull, tool_call_new ''2'' ''r'' JNull]"
  have "\<lparr>eg_parallel = True, eg_calls = ?calls\<rparr> \<in> set (ep_groups (auto_plan ?calls [?t]))"
    by (simp add: auto_plan_def partition_filter needs_approval_def may_run_parallel_def tool_lookup_def
        is_some_and_def tool_call_new_def)
  from auto_plan_groups_safe [OF _ this] show ?thesis by (simp add: Let_def)
qed

text \<open>Read-only suffices. Two calls of a tool that is read-only but not concurrency-safe are put
  in one parallel group.\<close>

theorem read_only_unsafe_tool_runs_parallel:
  "\<exists>tools calls. list_all (\<lambda>t. \<not> tm_concurrency_safe t) tools \<and> length calls = 2 \<and>
     ep_groups (plan Auto calls tools) = [\<lparr>eg_parallel = True, eg_calls = calls\<rparr>]"
  by (intro exI [of _ "[\<lparr>tm_name = ''r'', tm_read_only = True, tm_concurrency_safe = False,
        tm_requires_approval = False\<rparr>]"]
      exI [of _ "[tool_call_new ''1'' ''r'' JNull, tool_call_new ''2'' ''r'' JNull]"])
    (simp add: auto_plan_def partition_filter needs_approval_def may_run_parallel_def tool_lookup_def
        is_some_and_def tool_call_new_def)

end
