(* ===== verification/Approval_Gate.thy ===== *)
theory Approval_Gate
  imports Core_Types "HOL-Library.AList"
begin

text \<open>
  The approval gate (\<open>behest-approval/src/lib.rs\<close>). \<open>Instant\<close>s and \<open>Duration\<close>s are nanoseconds; the
  clock read inside an operation is its argument \<open>now\<close>. Each operation holds its locks throughout,
  so it is one step. The pending map is an association list in iteration order.
\<close>

section \<open>Policy, pending approvals, decisions\<close>

datatype approval_policy = AlwaysAllow | AlwaysDeny | AskUser | AutoForReadOnly

fun policy_requires_approval :: "approval_policy \<Rightarrow> bool \<Rightarrow> bool \<Rightarrow> bool" where
  "policy_requires_approval AlwaysAllow tool_requires read_only = False"
| "policy_requires_approval AlwaysDeny tool_requires read_only = True"
| "policy_requires_approval AskUser tool_requires read_only = tool_requires"
| "policy_requires_approval AutoForReadOnly tool_requires read_only = (tool_requires \<and> \<not> read_only)"

record pending_approval =
  pa_call :: tool_call
  pa_reason :: string
  pa_requested_at :: nat
  pa_timeout :: "nat option"

definition pending_new :: "nat \<Rightarrow> tool_call \<Rightarrow> string \<Rightarrow> nat option \<Rightarrow> pending_approval" where
  "pending_new now call reason timeout =
     \<lparr>pa_call = call, pa_reason = reason, pa_requested_at = now, pa_timeout = timeout\<rparr>"

definition is_expired :: "nat \<Rightarrow> pending_approval \<Rightarrow> bool" where
  "is_expired now p =
     (case pa_timeout p of None \<Rightarrow> False | Some t \<Rightarrow> t \<le> now - pa_requested_at p)"

datatype approval_decision = Approve | Reject "string option"

section \<open>The gate\<close>

record approval_gate =
  ag_pending :: "(string \<times> pending_approval) list"
  ag_decisions :: "string \<Rightarrow> approval_decision option"

definition gate_new :: approval_gate where
  "gate_new = \<lparr>ag_pending = [], ag_decisions = (\<lambda>_. None)\<rparr>"

definition gate_request ::
  "nat \<Rightarrow> approval_gate \<Rightarrow> tool_call \<Rightarrow> string \<Rightarrow> nat option \<Rightarrow> bool \<times> approval_gate" where
  "gate_request now g call reason timeout =
     (if map_of (ag_pending g) (tc_id call) \<noteq> None then (False, g)
      else (True, g\<lparr>ag_pending := AList.update (tc_id call) (pending_new now call reason timeout)
                                   (ag_pending g)\<rparr>))"

definition gate_decide :: "approval_gate \<Rightarrow> string \<Rightarrow> approval_decision \<Rightarrow> bool \<times> approval_gate" where
  "gate_decide g cid d =
     (if map_of (ag_pending g) cid \<noteq> None
      then (True, g\<lparr>ag_pending := AList.delete cid (ag_pending g),
                    ag_decisions := (ag_decisions g)(cid \<mapsto> d)\<rparr>)
      else (False, g))"

definition gate_is_approved :: "approval_gate \<Rightarrow> string \<Rightarrow> bool" where
  "gate_is_approved g cid = (ag_decisions g cid = Some Approve)"

definition gate_expire :: "nat \<Rightarrow> approval_gate \<Rightarrow> string list \<times> approval_gate" where
  "gate_expire now g =
     (let expired = map fst (filter (\<lambda>(_, p). is_expired now p) (ag_pending g))
      in (expired, g\<lparr>ag_pending := foldl (\<lambda>m i. AList.delete i m) (ag_pending g) expired\<rparr>))"

definition gate_pending_count :: "approval_gate \<Rightarrow> usize" where
  "gate_pending_count g = length (ag_pending g)"

text \<open>A run of operations, each at its time.\<close>

datatype gate_op =
    GateRequest tool_call string "nat option"
  | GateDecide string approval_decision
  | GateExpire

fun gate_step :: "approval_gate \<Rightarrow> nat \<times> gate_op \<Rightarrow> approval_gate" where
  "gate_step g (now, GateRequest call reason timeout) = snd (gate_request now g call reason timeout)"
| "gate_step g (now, GateDecide cid d) = snd (gate_decide g cid d)"
| "gate_step g (now, GateExpire) = snd (gate_expire now g)"

definition gate_run :: "(nat \<times> gate_op) list \<Rightarrow> approval_gate" where
  "gate_run ops = foldl gate_step gate_new ops"

definition is_pending :: "approval_gate \<Rightarrow> string \<Rightarrow> bool" where
  "is_pending g cid \<longleftrightarrow> map_of (ag_pending g) cid \<noteq> None"

text \<open>The operation decides \<open>cid\<close> in the state it runs in.\<close>

definition decides :: "approval_gate \<Rightarrow> nat \<times> gate_op \<Rightarrow> string \<Rightarrow> bool" where
  "decides g op cid =
     (case snd op of GateDecide c _ \<Rightarrow> c = cid \<and> is_pending g c | _ \<Rightarrow> False)"

section \<open>Facts\<close>

lemma decisions_step:
  "ag_decisions (gate_step g op) cid =
     (if decides g op cid
      then (case snd op of GateDecide _ d \<Rightarrow> Some d | _ \<Rightarrow> None) else ag_decisions g cid)"
proof (cases op)
  case (Pair now x)
  then show ?thesis
    by (cases x) (auto simp: gate_request_def gate_decide_def gate_expire_def decides_def
        is_pending_def Let_def)
qed

lemma gate_run_snoc: "gate_run (ops @ [op]) = gate_step (gate_run ops) op"
  by (simp add: gate_run_def)

lemma map_of_foldl_delete:
  "map_of (foldl (\<lambda>m i. AList.delete i m) xs is) k = (if k \<in> set is then None else map_of xs k)"
  by (induction "is" arbitrary: xs) (auto simp: delete_conv)

lemma distinct_foldl_delete:
  "distinct (map fst xs) \<Longrightarrow> distinct (map fst (foldl (\<lambda>m i. AList.delete i m) xs is))"
  by (induction "is" arbitrary: xs) (auto simp: distinct_delete)

lemma distinct_pending: "distinct (map fst (ag_pending (gate_run ops)))"
proof (induction ops rule: rev_induct)
  case Nil
  show ?case by (simp add: gate_run_def gate_new_def)
next
  case (snoc op ops)
  obtain now x where op: "op = (now, x)" by fastforce
  show ?case unfolding gate_run_snoc op
    by (cases x) (use snoc in \<open>auto simp: gate_request_def gate_decide_def gate_expire_def Let_def
        distinct_update distinct_delete distinct_foldl_delete\<close>)
qed

lemma expire_pending:
  assumes "distinct (map fst (ag_pending g))"
  shows "map_of (ag_pending (snd (gate_expire now g))) cid =
    (case map_of (ag_pending g) cid of None \<Rightarrow> None
     | Some p \<Rightarrow> if is_expired now p then None else Some p)"
proof -
  have "cid \<in> set (fst (gate_expire now g)) \<longleftrightarrow>
      (\<exists>p. map_of (ag_pending g) cid = Some p \<and> is_expired now p)"
    using assms by (auto simp: gate_expire_def Let_def map_of_eq_Some_iff image_iff)
  then show ?thesis
    by (auto simp: gate_expire_def Let_def map_of_foldl_delete split: option.splits)
qed

section \<open>Properties\<close>

text \<open>The last operation that decided \<open>cid\<close> approved it.\<close>

definition last_decision_approves :: "(nat \<times> gate_op) list \<Rightarrow> string \<Rightarrow> bool" where
  "last_decision_approves ops cid \<longleftrightarrow>
     (\<exists>pre now post. ops = pre @ (now, GateDecide cid Approve) # post \<and>
        is_pending (gate_run pre) cid \<and>
        (\<forall>p q op. post = p @ op # q \<longrightarrow>
           \<not> decides (gate_run (pre @ (now, GateDecide cid Approve) # p)) op cid))"

lemma last_decision_here:
  assumes "decides (gate_run ops) op cid"
  shows "last_decision_approves (ops @ [op]) cid \<longleftrightarrow> (\<exists>now. op = (now, GateDecide cid Approve))"
proof
  assume "last_decision_approves (ops @ [op]) cid"
  then obtain pre t post where d: "ops @ [op] = pre @ (t, GateDecide cid Approve) # post"
    and no: "\<And>p q x. post = p @ x # q \<Longrightarrow>
       \<not> decides (gate_run (pre @ (t, GateDecide cid Approve) # p)) x cid"
    unfolding last_decision_approves_def by blast
  show "\<exists>now. op = (now, GateDecide cid Approve)"
  proof (cases post rule: rev_cases)
    case (snoc post' y)
    with d have "ops = pre @ (t, GateDecide cid Approve) # post'" "y = op" by auto
    with no [of post' y "[]"] snoc assms show ?thesis by simp
  qed (use d in simp)
next
  assume "\<exists>now. op = (now, GateDecide cid Approve)"
  moreover have "is_pending (gate_run ops) cid"
    using assms by (cases op) (auto simp: decides_def split: gate_op.splits)
  ultimately show "last_decision_approves (ops @ [op]) cid"
    unfolding last_decision_approves_def by (intro exI [of _ ops]) auto
qed

lemma last_decision_before:
  assumes "\<not> decides (gate_run ops) op cid"
  shows "last_decision_approves (ops @ [op]) cid \<longleftrightarrow> last_decision_approves ops cid"
proof
  assume "last_decision_approves ops cid"
  then obtain pre t post where r: "ops = pre @ (t, GateDecide cid Approve) # post"
    "is_pending (gate_run pre) cid" and no: "\<And>p q x. post = p @ x # q \<Longrightarrow>
       \<not> decides (gate_run (pre @ (t, GateDecide cid Approve) # p)) x cid"
    unfolding last_decision_approves_def by blast
  have "\<not> decides (gate_run (pre @ (t, GateDecide cid Approve) # p)) x cid"
    if "post @ [op] = p @ x # q" for p x q
    using that r(1) assms no by (cases q rule: rev_cases) auto
  with r show "last_decision_approves (ops @ [op]) cid" unfolding last_decision_approves_def
    by (intro exI [of _ pre] exI [of _ t] exI [of _ "post @ [op]"]) auto
next
  assume "last_decision_approves (ops @ [op]) cid"
  then obtain pre t post where r: "ops @ [op] = pre @ (t, GateDecide cid Approve) # post"
    "is_pending (gate_run pre) cid" and no: "\<And>p q x. post = p @ x # q \<Longrightarrow>
       \<not> decides (gate_run (pre @ (t, GateDecide cid Approve) # p)) x cid"
    unfolding last_decision_approves_def by blast
  show "last_decision_approves ops cid"
  proof (cases post rule: rev_cases)
    case Nil
    with r assms show ?thesis by (auto simp: decides_def)
  next
    case (snoc post' y)
    with r have o: "ops = pre @ (t, GateDecide cid Approve) # post'" by auto
    have "\<not> decides (gate_run (pre @ (t, GateDecide cid Approve) # p)) x cid"
      if "post' = p @ x # q" for p x q using no [of p x "q @ [y]"] that snoc by simp
    with o r(2) show ?thesis unfolding last_decision_approves_def by blast
  qed
qed

text \<open>Approval needs a decision. After any run of the gate a call id counts as approved exactly
  when some \<open>decide\<close> approved it while it was pending and no later \<open>decide\<close> took effect on it.\<close>

theorem approved_iff_decided:
  "gate_is_approved (gate_run ops) cid \<longleftrightarrow> last_decision_approves ops cid"
proof (induction ops rule: rev_induct)
  case Nil
  show ?case by (simp add: gate_run_def gate_new_def gate_is_approved_def last_decision_approves_def)
next
  case (snoc op ops)
  show ?case
  proof (cases "decides (gate_run ops) op cid")
    case True
    then obtain now d where op: "op = (now, GateDecide cid d)"
      by (cases op) (auto simp: decides_def split: gate_op.splits)
    show ?thesis unfolding last_decision_here [OF True] gate_is_approved_def gate_run_snoc decisions_step
      using True op by simp
  next
    case False
    then show ?thesis
      using snoc unfolding last_decision_before [OF False] gate_is_approved_def gate_run_snoc decisions_step by simp
  qed
qed

text \<open>Expiry. On every reachable gate \<open>expire_timed_out\<close> leaves exactly the pending calls that
  have not timed out, untouched, returns exactly the ids of the others, each once, and approves or
  rejects nothing.\<close>

theorem expire_exact:
  "map_of (ag_pending (snd (gate_expire now (gate_run ops)))) cid =
     (case map_of (ag_pending (gate_run ops)) cid of None \<Rightarrow> None
      | Some p \<Rightarrow> if is_expired now p then None else Some p) \<and>
   (cid \<in> set (fst (gate_expire now (gate_run ops))) \<longleftrightarrow>
      (\<exists>p. map_of (ag_pending (gate_run ops)) cid = Some p \<and> is_expired now p)) \<and>
   distinct (fst (gate_expire now (gate_run ops))) \<and>
   ag_decisions (snd (gate_expire now (gate_run ops))) = ag_decisions (gate_run ops)"
  using expire_pending [OF distinct_pending] distinct_pending [of ops]
  by (auto simp: gate_expire_def Let_def map_of_eq_Some_iff image_iff distinct_map_filter)

text \<open>A decision outlives its request. Once a pending call was approved, requesting approval for
  the same id again registers a new pending request, and the id already counts as approved, before
  anyone decided on the new request.\<close>

theorem stale_approval:
  assumes "is_pending g cid" and "tc_id call = cid"
  shows "let g1 = snd (gate_decide g cid Approve); (ok, g2) = gate_request now g1 call reason timeout
     in ok \<and> is_pending g2 cid \<and> gate_is_approved g2 cid"
  using assms
  by (auto simp: is_pending_def gate_decide_def gate_request_def gate_is_approved_def delete_conv
      update_conv Let_def)

lemma stale_approval_witness:
  "let call = tool_call_new ''c1'' ''rm'' JNull;
       g = gate_run [(0, GateRequest call [] None), (1, GateDecide ''c1'' Approve),
                     (2, GateRequest call [] None)]
   in is_pending g ''c1'' \<and> gate_is_approved g ''c1''"
proof -
  let ?call = "tool_call_new ''c1'' ''rm'' JNull"
  have p: "is_pending (gate_run [(0, GateRequest ?call [] None)]) ''c1''" and i: "tc_id ?call = ''c1''"
    by (simp_all add: is_pending_def gate_run_def gate_request_def gate_new_def tool_call_new_def)
  show ?thesis using stale_approval [OF p i, of 2 "[]" None]
    by (simp add: gate_run_def Let_def split_beta)
qed

text \<open>The timeout is enforced only by the sweep: a decision on a call whose timeout has passed,
  but which was not swept, is still accepted and approves it.\<close>

theorem late_decision_accepted:
  assumes "map_of (ag_pending g) cid = Some p" and "is_expired now p"
  shows "fst (gate_decide g cid Approve) \<and> gate_is_approved (snd (gate_decide g cid Approve)) cid"
  using assms by (simp add: gate_decide_def gate_is_approved_def)

lemma late_decision_accepted_witness:
  "gate_is_approved (gate_run [(0, GateRequest (tool_call_new ''c1'' ''rm'' JNull) [] (Some 5)),
      (100, GateDecide ''c1'' Approve)]) ''c1''"
proof -
  let ?call = "tool_call_new ''c1'' ''rm'' JNull"
  let ?g = "gate_run [(0, GateRequest ?call [] (Some 5))]"
  have m: "map_of (ag_pending ?g) ''c1'' = Some (pending_new 0 ?call [] (Some 5))"
    by (simp add: gate_run_def gate_request_def gate_new_def tool_call_new_def)
  have e: "is_expired 100 (pending_new 0 ?call [] (Some 5))"
    by (simp add: is_expired_def pending_new_def)
  show ?thesis using late_decision_accepted [OF m e] by (simp add: gate_run_def)
qed

end
