(* ===== verification/Core_Errors.thy ===== *)
theory Core_Errors
  imports Core_Messages
begin

text \<open>
  Error values (\<open>behest-core/src/error.rs\<close>, \<open>behest-runtime/src/error.rs\<close>), provider capabilities
  (\<open>capabilities.rs\<close>) and stream events (\<open>events.rs\<close>). An error's boxed source is its text;
  identifiers are their textual form, which is what \<open>Display\<close> prints for them.
\<close>

type_synonym provider_id = string
type_synonym model_name = string
type_synonym uuid = string
type_synonym run_id = string
type_synonym timestamp = nat
type_synonym duration = nat

section \<open>Provider errors\<close>

datatype provider_error =
    Authentication provider_id
  | BadRequest provider_id string
  | RateLimited provider_id "duration option"
  | ProviderTimeout provider_id
  | Overloaded provider_id
  | Unsupported provider_id string
  | Transport provider_id string
  | Decode provider_id string
  | ProviderFailure provider_id "16 word option" string

fun is_retryable :: "provider_error \<Rightarrow> bool" where
  "is_retryable (RateLimited _ _) = True"
| "is_retryable (ProviderTimeout _) = True"
| "is_retryable (Overloaded _) = True"
| "is_retryable (Transport _ _) = True"
| "is_retryable _ = False"

definition overflow_phrase :: "string \<Rightarrow> bool" where
  "overflow_phrase m \<longleftrightarrow>
     str_contains ''context_length_exceeded'' m \<or> str_contains ''maximum context length'' m \<or>
     str_contains ''too many tokens'' m \<or> str_contains ''reduce the length'' m \<or>
     str_contains ''token limit'' m \<or> str_contains ''prompt is too long'' m \<or>
     str_contains ''input length exceeds'' m \<or> str_contains ''context window'' m"

fun is_context_overflow :: "provider_error \<Rightarrow> bool" where
  "is_context_overflow (BadRequest _ m) = overflow_phrase m"
| "is_context_overflow (ProviderFailure _ _ m) = overflow_phrase m"
| "is_context_overflow _ = False"

definition quoted :: "string \<Rightarrow> string" where
  "quoted s = ''`'' @ s @ ''`''"

fun show_provider_error :: "provider_error \<Rightarrow> string" where
  "show_provider_error (Authentication p) = ''authentication failed for provider '' @ quoted p"
| "show_provider_error (BadRequest p m) = ''provider '' @ quoted p @ '' rejected request: '' @ m"
| "show_provider_error (RateLimited p _) = ''provider '' @ quoted p @ '' rate limited request''"
| "show_provider_error (ProviderTimeout p) = ''provider '' @ quoted p @ '' timed out''"
| "show_provider_error (Overloaded p) = ''provider '' @ quoted p @ '' is overloaded''"
| "show_provider_error (Unsupported p f) =
     ''provider '' @ quoted p @ '' does not support feature '' @ quoted f"
| "show_provider_error (Transport p s) =
     ''transport error for provider '' @ quoted p @ '': '' @ s"
| "show_provider_error (Decode p m) =
     ''failed to decode response from provider '' @ quoted p @ '': '' @ m"
| "show_provider_error (ProviderFailure p _ m) =
     ''provider '' @ quoted p @ '' returned error: '' @ m"

section \<open>Tool, context and storage errors\<close>

datatype tool_error =
    ToolNotFound string
  | ToolExecution string string
  | InvalidArguments string string
  | ToolNotImplemented string

fun show_tool_error :: "tool_error \<Rightarrow> string" where
  "show_tool_error (ToolNotFound n) = ''tool '' @ quoted n @ '' is not registered''"
| "show_tool_error (ToolExecution n m) = ''tool '' @ quoted n @ '' failed: '' @ m"
| "show_tool_error (InvalidArguments n m) =
     ''tool '' @ quoted n @ '' received invalid arguments: '' @ m"
| "show_tool_error (ToolNotImplemented n) = ''tool '' @ quoted n @ '' is not implemented''"

datatype context_error =
    AdapterFailed string string
  | InvalidInput string
  | AdapterNotFound string

fun show_context_error :: "context_error \<Rightarrow> string" where
  "show_context_error (AdapterFailed a m) = ''context adapter '' @ quoted a @ '' failed: '' @ m"
| "show_context_error (InvalidInput m) = ''invalid context input: '' @ m"
| "show_context_error (AdapterNotFound a) = ''context adapter '' @ quoted a @ '' is not registered''"

datatype storage_error =
    StorageNotFound string
  | ConnectionFailed string string "string option"
  | SerializationFailed string "string option"
  | BackendError string string "string option"
  | MigrationFailed string string "string option"
  | DataCorruption string string "string option"

fun show_storage_error :: "storage_error \<Rightarrow> string" where
  "show_storage_error (StorageNotFound i) = ''storage entity not found: '' @ quoted i"
| "show_storage_error (ConnectionFailed b m _) =
     ''storage connection failed ('' @ b @ ''): '' @ m"
| "show_storage_error (SerializationFailed m _) = ''storage serialization failed: '' @ m"
| "show_storage_error (BackendError b m _) = ''storage backend error ('' @ b @ ''): '' @ m"
| "show_storage_error (MigrationFailed b m _) = ''storage migration failed ('' @ b @ ''): '' @ m"
| "show_storage_error (DataCorruption f m _) = ''data corruption in '' @ quoted f @ '': '' @ m"

section \<open>Runtime errors\<close>

datatype runtime_error =
    ProviderNotFound string
  | SessionNotFound uuid
  | RunNotFound run_id
  | InvalidRunState string string
  | IterationLimitExceeded usize
  | TokenBudgetExceeded usize usize
  | ContextOverflowError u32 usize
  | SessionBusy uuid
  | ToolTimeout string
  | ProviderErr provider_error
  | ContextErr context_error
  | StorageErr storage_error
  | ToolErr tool_error
  | RecoveryFailed string
  | DoomLoopError string
  | InputRejected uuid string
  | InputAdmissionFailed string

fun show_runtime_error :: "runtime_error \<Rightarrow> string" where
  "show_runtime_error (ProviderNotFound p) = ''provider not found: '' @ p"
| "show_runtime_error (SessionNotFound s) = ''session not found: '' @ s"
| "show_runtime_error (RunNotFound r) = ''run not found: '' @ r"
| "show_runtime_error (InvalidRunState e a) = ''invalid run state: expected '' @ e @ '', got '' @ a"
| "show_runtime_error (IterationLimitExceeded n) = ''iteration limit exceeded: '' @ show_nat n"
| "show_runtime_error (TokenBudgetExceeded u l) =
     ''token budget exceeded: '' @ show_nat u @ '' > '' @ show_nat l"
| "show_runtime_error (ContextOverflowError c e) =
     ''context length exceeded: model context '' @ show_nat (unat c) @ '', estimated '' @ show_nat e"
| "show_runtime_error (SessionBusy s) = ''session busy: '' @ s"
| "show_runtime_error (ToolTimeout t) = ''tool execution timeout: '' @ t"
| "show_runtime_error (ProviderErr e) = show_provider_error e"
| "show_runtime_error (ContextErr e) = show_context_error e"
| "show_runtime_error (StorageErr e) = show_storage_error e"
| "show_runtime_error (ToolErr e) = show_tool_error e"
| "show_runtime_error (RecoveryFailed m) = ''recovery error: '' @ m"
| "show_runtime_error (DoomLoopError d) = ''doom loop detected: '' @ d"
| "show_runtime_error (InputRejected i r) =
     ''input rejected: '' @ i @ '' '' @ [CHR 0xE2, CHR 0x80, CHR 0x94] @ '' '' @ r"
| "show_runtime_error (InputAdmissionFailed m) = ''input admission error: '' @ m"

section \<open>Provider capabilities\<close>

record provider_capabilities =
  pc_chat :: bool
  pc_chat_stream :: bool
  pc_tool_calling :: bool
  pc_parallel_tool_calls :: bool
  pc_json_schema_output :: bool
  pc_vision :: bool
  pc_embeddings :: bool
  pc_max_input_tokens :: "u32 option"
  pc_max_output_tokens :: "u32 option"
  pc_prompt_caching :: bool
  pc_max_cache_breakpoints :: "u8 option"
  pc_cache_ttl_options :: "cache_ttl list"

definition caps_empty :: provider_capabilities where
  "caps_empty =
     \<lparr>pc_chat = False, pc_chat_stream = False, pc_tool_calling = False,
      pc_parallel_tool_calls = False, pc_json_schema_output = False, pc_vision = False,
      pc_embeddings = False, pc_max_input_tokens = None, pc_max_output_tokens = None,
      pc_prompt_caching = False, pc_max_cache_breakpoints = None, pc_cache_ttl_options = []\<rparr>"

definition caps_chat :: provider_capabilities where
  "caps_chat = caps_empty\<lparr>pc_chat := True\<rparr>"

definition caps_embeddings :: provider_capabilities where
  "caps_embeddings = caps_empty\<lparr>pc_embeddings := True\<rparr>"

section \<open>Stream events and responses\<close>

datatype chat_stream_event =
    StreamStarted provider_id model_name
  | StreamText string
  | StreamToolStarted string string
  | StreamToolArguments string string
  | StreamToolCompleted tool_call
  | StreamFinished finish_reason "token_usage option"

record chat_response =
  resp_provider :: provider_id
  resp_model :: model_name
  resp_message :: message
  resp_finish :: finish_reason
  resp_usage :: "token_usage option"
  resp_raw :: "json option"

text \<open>A context overflow is never also retryable as it stands: the two recovery paths of the callers
  do not compete.\<close>

lemma overflow_not_retryable: "is_context_overflow e \<Longrightarrow> \<not> is_retryable e"
  by (cases e) auto

end
