(* ===== verification/Agent_Events.thy ===== *)
theory Agent_Events
  imports Core_Errors
begin

text \<open>
  The runtime's events (\<open>behest-event/src/agent_event.rs\<close>) and run lifecycle types
  (\<open>behest-runtime/src/run.rs\<close>). The payload struct of an event variant is written out as the
  arguments of its constructor, in field order.
\<close>

section \<open>Events\<close>

datatype tool_execution_result = ToolSuccess json | ToolFailure string

datatype agent_event =
    EvRunStarted run_id uuid provider_id model_name timestamp
  | EvContextBuilt run_id usize timestamp
  | EvModelStarted run_id provider_id model_name usize timestamp
  | EvTextDelta run_id string timestamp
  | EvToolCallStarted run_id string string timestamp
  | EvToolCallDelta run_id string string timestamp
  | EvToolCallCompleted run_id tool_call timestamp
  | EvToolExecutionStarted run_id string string timestamp
  | EvToolExecutionFinished run_id string string tool_execution_result u64 timestamp
  | EvAssistantMessageCommitted run_id uuid timestamp
  | EvToolMessageCommitted run_id uuid timestamp
  | EvUsageRecorded run_id token_usage timestamp
  | EvCacheMetrics run_id u64 u64 u64 timestamp
  | EvRunCompleted run_id finish_reason usize timestamp
  | EvRunFailed run_id string timestamp
  | EvRunCancelled run_id timestamp
  | EvDoomLoopDetected run_id string timestamp
  | EvCompactionCircuitOpened run_id u32 timestamp

fun event_run_id :: "agent_event \<Rightarrow> run_id" where
  "event_run_id (EvRunStarted r _ _ _ _) = r"
| "event_run_id (EvContextBuilt r _ _) = r"
| "event_run_id (EvModelStarted r _ _ _ _) = r"
| "event_run_id (EvTextDelta r _ _) = r"
| "event_run_id (EvToolCallStarted r _ _ _) = r"
| "event_run_id (EvToolCallDelta r _ _ _) = r"
| "event_run_id (EvToolCallCompleted r _ _) = r"
| "event_run_id (EvToolExecutionStarted r _ _ _) = r"
| "event_run_id (EvToolExecutionFinished r _ _ _ _ _) = r"
| "event_run_id (EvAssistantMessageCommitted r _ _) = r"
| "event_run_id (EvToolMessageCommitted r _ _) = r"
| "event_run_id (EvUsageRecorded r _ _) = r"
| "event_run_id (EvCacheMetrics r _ _ _ _) = r"
| "event_run_id (EvRunCompleted r _ _ _) = r"
| "event_run_id (EvRunFailed r _ _) = r"
| "event_run_id (EvRunCancelled r _) = r"
| "event_run_id (EvDoomLoopDetected r _ _) = r"
| "event_run_id (EvCompactionCircuitOpened r _ _) = r"

fun event_is_terminal :: "agent_event \<Rightarrow> bool" where
  "event_is_terminal (EvRunCompleted _ _ _ _) = True"
| "event_is_terminal (EvRunFailed _ _ _) = True"
| "event_is_terminal (EvRunCancelled _ _) = True"
| "event_is_terminal _ = False"

fun total_cache_tokens :: "agent_event \<Rightarrow> u64" where
  "total_cache_tokens (EvCacheMetrics _ c r k _) = c + r + k"
| "total_cache_tokens _ = 0"

text \<open>The timestamp every payload carries.\<close>

fun event_timestamp :: "agent_event \<Rightarrow> timestamp" where
  "event_timestamp (EvRunStarted _ _ _ _ t) = t"
| "event_timestamp (EvContextBuilt _ _ t) = t"
| "event_timestamp (EvModelStarted _ _ _ _ t) = t"
| "event_timestamp (EvTextDelta _ _ t) = t"
| "event_timestamp (EvToolCallStarted _ _ _ t) = t"
| "event_timestamp (EvToolCallDelta _ _ _ t) = t"
| "event_timestamp (EvToolCallCompleted _ _ t) = t"
| "event_timestamp (EvToolExecutionStarted _ _ _ t) = t"
| "event_timestamp (EvToolExecutionFinished _ _ _ _ _ t) = t"
| "event_timestamp (EvAssistantMessageCommitted _ _ t) = t"
| "event_timestamp (EvToolMessageCommitted _ _ t) = t"
| "event_timestamp (EvUsageRecorded _ _ t) = t"
| "event_timestamp (EvCacheMetrics _ _ _ _ t) = t"
| "event_timestamp (EvRunCompleted _ _ _ t) = t"
| "event_timestamp (EvRunFailed _ _ t) = t"
| "event_timestamp (EvRunCancelled _ t) = t"
| "event_timestamp (EvDoomLoopDetected _ _ t) = t"
| "event_timestamp (EvCompactionCircuitOpened _ _ t) = t"

text \<open>The usage a list of events records, and how often the model was started.\<close>

definition recorded_usages :: "agent_event list \<Rightarrow> token_usage list" where
  "recorded_usages evs = List.map_filter (\<lambda>e. case e of EvUsageRecorded _ u _ \<Rightarrow> Some u | _ \<Rightarrow> None) evs"

definition is_model_started :: "agent_event \<Rightarrow> bool" where
  "is_model_started e = (case e of EvModelStarted _ _ _ _ _ \<Rightarrow> True | _ \<Rightarrow> False)"

definition is_usage_recorded :: "agent_event \<Rightarrow> bool" where
  "is_usage_recorded e = (case e of EvUsageRecorded _ _ _ \<Rightarrow> True | _ \<Rightarrow> False)"

lemma recorded_usages_simps [simp]:
  "recorded_usages [] = []"
  "recorded_usages (xs @ ys) = recorded_usages xs @ recorded_usages ys"
  "recorded_usages (EvUsageRecorded r u t # xs) = u # recorded_usages xs"
  by (simp_all add: recorded_usages_def map_filter_simps map_filter_def)

lemma recorded_usages_other [simp]:
  "\<not> is_usage_recorded e \<Longrightarrow> recorded_usages (e # xs) = recorded_usages xs"
  by (cases e) (simp_all add: recorded_usages_def map_filter_simps is_usage_recorded_def)

section \<open>Run lifecycle types\<close>

datatype run_status =
    StPending | StSessionLoaded | StBuildingContext | StCallingModel | StWaitingForTools
  | StPersisting | StCompleted | StFailed | StCancelled

fun status_is_terminal :: "run_status \<Rightarrow> bool" where
  "status_is_terminal StCompleted = True"
| "status_is_terminal StFailed = True"
| "status_is_terminal StCancelled = True"
| "status_is_terminal _ = False"

record run_request =
  rq_session_id :: "uuid option"
  rq_run_id :: "run_id option"
  rq_provider :: provider_id
  rq_model :: model_name
  rq_input :: string
  rq_metadata :: json
  rq_tool_choice :: tool_choice
  rq_client_request_id :: "string option"

definition run_request_new :: "provider_id \<Rightarrow> model_name \<Rightarrow> string \<Rightarrow> run_request" where
  "run_request_new p m inp =
     \<lparr>rq_session_id = None, rq_run_id = None, rq_provider = p, rq_model = m, rq_input = inp,
      rq_metadata = JNull, rq_tool_choice = ChoiceAuto, rq_client_request_id = None\<rparr>"

definition rq_with_session_id :: "run_request \<Rightarrow> uuid \<Rightarrow> run_request" where
  "rq_with_session_id r s = r\<lparr>rq_session_id := Some s\<rparr>"

definition rq_with_metadata :: "run_request \<Rightarrow> json \<Rightarrow> run_request" where
  "rq_with_metadata r m = r\<lparr>rq_metadata := m\<rparr>"

definition rq_with_tool_choice :: "run_request \<Rightarrow> tool_choice \<Rightarrow> run_request" where
  "rq_with_tool_choice r t = r\<lparr>rq_tool_choice := t\<rparr>"

definition rq_with_run_id :: "run_request \<Rightarrow> run_id \<Rightarrow> run_request" where
  "rq_with_run_id r i = r\<lparr>rq_run_id := Some i\<rparr>"

definition rq_with_client_request_id :: "run_request \<Rightarrow> string \<Rightarrow> run_request" where
  "rq_with_client_request_id r i = r\<lparr>rq_client_request_id := Some i\<rparr>"

record run_record =
  rr_id :: run_id
  rr_session_id :: uuid
  rr_status :: run_status
  rr_provider :: provider_id
  rr_model :: model_name
  rr_metadata :: json
  rr_client_request_id :: "string option"
  rr_created_at :: timestamp
  rr_updated_at :: timestamp

definition run_record_new ::
  "timestamp \<Rightarrow> run_id \<Rightarrow> uuid \<Rightarrow> provider_id \<Rightarrow> model_name \<Rightarrow> json \<Rightarrow> string option \<Rightarrow> run_record" where
  "run_record_new now i s p m md c =
     \<lparr>rr_id = i, rr_session_id = s, rr_status = StPending, rr_provider = p, rr_model = m,
      rr_metadata = md, rr_client_request_id = c, rr_created_at = now, rr_updated_at = now\<rparr>"

definition rr_update_status :: "timestamp \<Rightarrow> run_record \<Rightarrow> run_status \<Rightarrow> run_record" where
  "rr_update_status now r st = r\<lparr>rr_status := st, rr_updated_at := now\<rparr>"

end
