(* ===== verification/Event_Store.thy ===== *)
theory Event_Store
  imports Agent_Events
begin

text \<open>
  The reliable runtime event log (\<open>behest-runtime/src/event_store.rs\<close>, the envelope of \<open>stream.rs\<close>):
  the contract of a replay source as a locale with its paging client, and the in-memory store that
  provides it. Fresh event identities and the clock are arguments of \<open>append\<close>; the three maps are
  under one mutex, so an append is one step.
\<close>

section \<open>Envelopes\<close>

record event_envelope =
  ee_event_id :: uuid
  ee_seq :: u64
  ee_run_id :: run_id
  ee_session_id :: "uuid option"
  ee_event :: agent_event
  ee_emitted_at :: timestamp

datatype event_store_error = AppendFailed string | NoEvents run_id

definition after_filter :: "u64 option \<Rightarrow> event_envelope \<Rightarrow> bool" where
  "after_filter after env = (case after of None \<Rightarrow> True | Some k \<Rightarrow> k < ee_seq env)"

section \<open>The contract and its client\<close>

text \<open>A replay source: \<open>log\<close> is what was accepted for a run, with strictly growing sequence numbers,
  and a page is the first \<open>limit\<close> entries after a sequence number.\<close>

locale replay_source =
  fixes log :: "'s \<Rightarrow> run_id \<Rightarrow> event_envelope list"
    and page :: "'s \<Rightarrow> run_id \<Rightarrow> u64 option \<Rightarrow> nat \<Rightarrow> event_envelope list"
    and invar :: "'s \<Rightarrow> bool"
  assumes page_log: "page s r after limit = take limit (filter (after_filter after) (log s r))"
    and log_sorted: "invar s \<Longrightarrow> sorted_wrt (\<lambda>a b. ee_seq a < ee_seq b) (log s r)"
begin

text \<open>A consumer that pages through a run: it asks for the entries after the last it has seen, until a
  page is empty.\<close>

fun replay_pages :: "nat \<Rightarrow> 's \<Rightarrow> run_id \<Rightarrow> u64 option \<Rightarrow> nat \<Rightarrow> event_envelope list" where
  "replay_pages 0 s r after limit = []"
| "replay_pages (Suc fuel) s r after limit =
     (let p = page s r after limit
      in if p = [] then [] else p @ replay_pages fuel s r (Some (ee_seq (last p))) limit)"

lemma filter_after_drop:
  assumes "sorted_wrt (\<lambda>a b. ee_seq a < ee_seq b) xs" and "0 < n" and "n \<le> length xs"
  shows "filter (after_filter (Some (ee_seq (last (take n xs))))) xs = drop n xs"
proof -
  have "take n xs \<noteq> []" using assms by auto
  then have l: "last (take n xs) = xs ! (n - 1)" using assms by (simp add: last_conv_nth min_absorb2)
  have lt: "i < j \<Longrightarrow> j < length xs \<Longrightarrow> ee_seq (xs ! i) < ee_seq (xs ! j)" for i j
    using assms(1) by (simp add: sorted_wrt_iff_nth_less)
  have "\<not> ee_seq (xs ! (n - 1)) < ee_seq x" if x: "x \<in> set (take n xs)" for x
  proof -
    obtain i where i: "i < n" "x = xs ! i" using x assms(3) by (auto simp: in_set_conv_nth)
    show ?thesis
    proof (cases "i = n - 1")
      case False
      then have "i < n - 1" "n - 1 < length xs" using i(1) assms(3) by linarith+
      from lt [OF this] show ?thesis unfolding i(2) by (rule less_not_sym)
    qed (use i(2) in simp)
  qed
  then have "filter (after_filter (Some (ee_seq (last (take n xs))))) (take n xs) = []"
    by (simp add: l after_filter_def filter_empty_conv)
  moreover have "filter (after_filter (Some (ee_seq (last (take n xs))))) (drop n xs) = drop n xs"
    using assms lt by (auto simp: l after_filter_def filter_id_conv in_set_conv_nth)
  ultimately show ?thesis by (metis append_Nil append_take_drop_id filter_append)
qed

lemma replay_pages_drop:
  assumes "invar s" and "0 < limit" and "length (log s r) - m < fuel" and "m \<le> length (log s r)"
    and "filter (after_filter after) (log s r) = drop m (log s r)"
  shows "replay_pages fuel s r after limit = drop m (log s r)"
  using assms(3-)
proof (induction fuel arbitrary: m after)
  case (Suc fuel)
  let ?p = "take limit (drop m (log s r))"
  have p: "page s r after limit = ?p" using Suc.prems(3) by (simp add: page_log)
  show ?case
  proof (cases "?p = []")
    case True
    then have "drop m (log s r) = []" using assms(2) by simp
    with True p show ?thesis by (simp add: Let_def)
  next
    case False
    define n where "n = m + length ?p"
    have n: "n \<le> length (log s r)" "m < n" using False Suc.prems(2) by (auto simp: n_def)
    have tp: "take (length ?p) (drop m (log s r)) = ?p" by (simp add: min_def)
    have t: "take n (log s r) = take m (log s r) @ ?p" unfolding n_def take_add tp ..
    then have "last (take n (log s r)) = last ?p" using False by simp
    then have "filter (after_filter (Some (ee_seq (last ?p)))) (log s r) = drop n (log s r)"
      using filter_after_drop [OF log_sorted [OF assms(1)], of n r] n by simp
    then have "replay_pages fuel s r (Some (ee_seq (last ?p))) limit = drop n (log s r)"
      using Suc.prems n by (intro Suc.IH) auto
    moreover have "?p @ drop n (log s r) = drop m (log s r)"
      unfolding n_def by (metis append_take_drop_id drop_drop add.commute tp)
    ultimately show ?thesis using False p by (simp add: Let_def)
  qed
qed simp

text \<open>Paging through a run yields every accepted event once, in order.\<close>

lemma replay_complete:
  assumes "invar s" and "0 < limit" and "length (log s r) < fuel"
  shows "replay_pages fuel s r None limit = log s r"
  using replay_pages_drop [OF assms(1,2), of r 0 fuel None] assms(3)
  by (simp add: after_filter_def)

end

section \<open>The in-memory store\<close>

record memory_store =
  ms_events :: "run_id \<Rightarrow> event_envelope list option"
  ms_seq :: "run_id \<Rightarrow> u64 option"
  ms_sessions :: "run_id \<Rightarrow> uuid option option"

definition memory_store_new :: memory_store where
  "memory_store_new =
     \<lparr>ms_events = (\<lambda>_. None), ms_seq = (\<lambda>_. None), ms_sessions = (\<lambda>_. None)\<rparr>"

definition or_default :: "'a \<Rightarrow> 'a option \<Rightarrow> 'a" where
  "or_default d x = (case x of Some a \<Rightarrow> a | None \<Rightarrow> d)"

definition store_append ::
  "uuid \<Rightarrow> timestamp \<Rightarrow> memory_store \<Rightarrow> agent_event \<Rightarrow>
     (event_store_error + event_envelope) \<times> memory_store" where
  "store_append fresh now s ev =
     (let r = event_run_id ev;
          (session, s1) = (case ev of
              EvRunStarted _ sid _ _ _ \<Rightarrow>
                (Some sid, s\<lparr>ms_sessions := (ms_sessions s)(r \<mapsto> Some sid)\<rparr>)
            | _ \<Rightarrow> (or_default None (ms_sessions s r), s));
          next_seq = or_default 0 (ms_seq s1 r) + 1;
          env = \<lparr>ee_event_id = fresh, ee_seq = next_seq, ee_run_id = r, ee_session_id = session,
                 ee_event = ev, ee_emitted_at = now\<rparr>
      in (Inr env, s1\<lparr>ms_seq := (ms_seq s1)(r \<mapsto> next_seq),
                      ms_events := (ms_events s1)(r \<mapsto> or_default [] (ms_events s1 r) @ [env])\<rparr>))"

definition store_list_after ::
  "memory_store \<Rightarrow> run_id \<Rightarrow> u64 option \<Rightarrow> nat \<Rightarrow> event_store_error + event_envelope list" where
  "store_list_after s r after limit =
     (case ms_events s r of
        None \<Rightarrow> Inr []
      | Some envs \<Rightarrow> Inr (take limit (filter (after_filter after) envs)))"

definition failing_append :: "agent_event \<Rightarrow> event_store_error + event_envelope" where
  "failing_append ev =
     Inl (AppendFailed ''failing runtime event store always rejects appends'')"

definition failing_list_after ::
  "run_id \<Rightarrow> u64 option \<Rightarrow> nat \<Rightarrow> event_store_error + event_envelope list" where
  "failing_list_after r after limit = Inl (NoEvents r)"

definition store_log :: "memory_store \<Rightarrow> run_id \<Rightarrow> event_envelope list" where
  "store_log s r = or_default [] (ms_events s r)"

definition store_page :: "memory_store \<Rightarrow> run_id \<Rightarrow> u64 option \<Rightarrow> nat \<Rightarrow> event_envelope list" where
  "store_page s r after limit = (case store_list_after s r after limit of Inr xs \<Rightarrow> xs | Inl _ \<Rightarrow> [])"

text \<open>The sequence numbers of a run count from one, and its counter is the last of them.\<close>

definition store_invar :: "memory_store \<Rightarrow> bool" where
  "store_invar s \<longleftrightarrow> (\<forall>r. length (store_log s r) < 2 ^ 64 \<and>
     map ee_seq (store_log s r) = map (\<lambda>i. of_nat (Suc i)) [0..<length (store_log s r)] \<and>
     or_default 0 (ms_seq s r) = of_nat (length (store_log s r)))"

lemma store_append_log:
  "store_log (snd (store_append fresh now s ev)) r =
     (if r = event_run_id ev
      then store_log s r @ [case fst (store_append fresh now s ev) of Inr env \<Rightarrow> env]
      else store_log s r)"
  by (cases ev) (auto simp: store_append_def store_log_def Let_def or_default_def)

lemma store_append_env:
  "\<exists>env. fst (store_append fresh now s ev) = Inr env \<and> ee_event env = ev \<and>
     ee_run_id env = event_run_id ev \<and> ee_seq env = or_default 0 (ms_seq s (event_run_id ev)) + 1 \<and>
     ee_event_id env = fresh \<and> ee_emitted_at env = now"
  by (cases ev) (simp_all add: store_append_def Let_def)

lemma store_append_seq:
  "ms_seq (snd (store_append fresh now s ev)) =
     (ms_seq s)(event_run_id ev \<mapsto> or_default 0 (ms_seq s (event_run_id ev)) + 1)"
  by (cases ev) (simp_all add: store_append_def Let_def)

lemma store_invar_new: "store_invar memory_store_new"
  by (simp add: store_invar_def memory_store_new_def store_log_def or_default_def)

lemma store_invar_append:
  assumes "store_invar s" and "Suc (length (store_log s (event_run_id ev))) < 2 ^ 64"
  shows "store_invar (snd (store_append fresh now s ev))"
proof -
  obtain env where e: "fst (store_append fresh now s ev) = Inr env"
    "ee_seq env = or_default 0 (ms_seq s (event_run_id ev)) + 1"
    using store_append_env by blast
  show ?thesis unfolding store_invar_def
  proof
    fix r
    show "length (store_log (snd (store_append fresh now s ev)) r) < 2 ^ 64 \<and>
      map ee_seq (store_log (snd (store_append fresh now s ev)) r) =
        map (\<lambda>i. of_nat (Suc i)) [0..<length (store_log (snd (store_append fresh now s ev)) r)] \<and>
      or_default 0 (ms_seq (snd (store_append fresh now s ev)) r) =
        of_nat (length (store_log (snd (store_append fresh now s ev)) r))"
      using assms e by (auto simp: store_invar_def store_append_log store_append_seq or_default_def)
  qed
qed

lemma store_invar_sorted:
  assumes "store_invar s"
  shows "sorted_wrt (\<lambda>a b. ee_seq a < ee_seq b) (store_log s r)"
  unfolding sorted_wrt_iff_nth_less
proof (intro allI impI)
  fix i j
  assume ij: "i < j" "j < length (store_log s r)"
  have "ee_seq (store_log s r ! k) = of_nat (Suc k)" if "k < length (store_log s r)" for k
    using assms that unfolding store_invar_def by (metis (no_types, lifting) add_0 diff_zero length_map
        length_upt nth_map nth_upt)
  moreover have "length (store_log s r) < 2 ^ 64" using assms by (simp add: store_invar_def)
  ultimately show "ee_seq (store_log s r ! i) < ee_seq (store_log s r ! j)"
    using ij by (simp add: word_less_nat_alt unat_of_nat del: of_nat_Suc)
qed

interpretation memory_events: replay_source store_log store_page store_invar
proof
  show "store_page s r after limit = take limit (filter (after_filter after) (store_log s r))"
    for s r after limit
    by (simp add: store_page_def store_list_after_def store_log_def or_default_def split: option.splits)
  show "sorted_wrt (\<lambda>a b. ee_seq a < ee_seq b) (store_log s r)" if "store_invar s" for s r
    using that by (rule store_invar_sorted)
qed

fun append_all :: "memory_store \<Rightarrow> (uuid \<times> timestamp \<times> agent_event) list \<Rightarrow> memory_store" where
  "append_all s [] = s"
| "append_all s ((i, t, ev) # evs) = append_all (snd (store_append i t s ev)) evs"

lemma append_all_log:
  "map ee_event (store_log (append_all s evs) r) =
     map ee_event (store_log s r) @ filter (\<lambda>e. event_run_id e = r) (map (\<lambda>(_, _, e). e) evs)"
proof (induction s evs rule: append_all.induct)
  case (2 s i t ev evs)
  obtain env where "fst (store_append i t s ev) = Inr env" "ee_event env = ev"
    using store_append_env by blast
  with 2 show ?case by (auto simp: store_append_log)
qed simp

lemma append_all_invar:
  "store_invar s \<Longrightarrow> (\<forall>r. length (store_log s r) + length evs < 2 ^ 64) \<Longrightarrow>
     store_invar (append_all s evs)"
proof (induction s evs rule: append_all.induct)
  case (2 s i t ev evs)
  have "Suc (length (store_log s (event_run_id ev))) < 2 ^ 64"
    using 2(3) by (metis add_Suc_right le_add1 le_less_trans length_Cons add_Suc)
  then have inv: "store_invar (snd (store_append i t s ev))" using 2(2) by (rule store_invar_append [rotated])
  have "\<forall>r. length (store_log (snd (store_append i t s ev)) r) + length evs < 2 ^ 64"
  proof
    fix r
    show "length (store_log (snd (store_append i t s ev)) r) + length evs < 2 ^ 64"
      using 2(3) [rule_format, of r] by (auto simp: store_append_log)
  qed
  with 2(1) inv show ?case by simp
qed simp

section \<open>Properties\<close>



text \<open>Sequence numbers and sessions. On a store built by appends, appending an event succeeds with
  the next sequence number of its run and leaves the logs of all other runs as they were; and the
  envelope carries the session of a \<open>RunStarted\<close> of the run as soon as one was appended.\<close>

theorem append_assigns_next_seq:
  assumes "length evs < 2 ^ 64"
  defines "s \<equiv> append_all memory_store_new evs"
  shows "\<exists>env. fst (store_append fresh now s ev) = Inr env \<and>
    unat (ee_seq env) = Suc (length (store_log s (event_run_id ev))) mod 2 ^ 64 \<and>
    store_log (snd (store_append fresh now s ev)) (event_run_id ev) =
      store_log s (event_run_id ev) @ [env] \<and>
    (\<forall>r. r \<noteq> event_run_id ev \<longrightarrow> store_log (snd (store_append fresh now s ev)) r = store_log s r)"
proof -
  have z: "store_log memory_store_new r = []" for r
    by (simp add: store_log_def memory_store_new_def or_default_def)
  have inv: "store_invar s"
    unfolding s_def using assms(1) by (intro append_all_invar store_invar_new) (simp add: z)
  obtain env where e: "fst (store_append fresh now s ev) = Inr env"
    "ee_seq env = or_default 0 (ms_seq s (event_run_id ev)) + 1"
    using store_append_env by blast
  have "ee_seq env = of_nat (Suc (length (store_log s (event_run_id ev))))"
    using inv e(2) by (simp add: store_invar_def)
  then have "unat (ee_seq env) = Suc (length (store_log s (event_run_id ev))) mod 2 ^ 64"
    by (simp only: unat_of_nat) simp
  with e(1) show ?thesis by (auto simp: store_append_log)
qed

lemma append_assigns_next_seq_witness:
  "\<exists>env. fst (store_append ''e'' 5 (append_all memory_store_new [(''e1'', 1, EvRunCancelled ''a'' 1)])
      (EvRunCancelled ''a'' 5)) = Inr env \<and> unat (ee_seq env) = 2"
proof -
  have "length (store_log (append_all memory_store_new [(''e1'', 1, EvRunCancelled ''a'' 1)]) ''a'') = 1"
    by (simp add: store_append_def store_log_def memory_store_new_def or_default_def Let_def)
  then show ?thesis
    using append_assigns_next_seq [of "[(''e1'', 1, EvRunCancelled ''a'' 1)]" "''e''" 5 "EvRunCancelled ''a'' 5"]
    by (auto simp del: append_all.simps)
qed

end
