(* ===== verification/Loop_Monad.thy ===== *)
theory Loop_Monad
  imports Core_Errors
begin

text \<open>
  Actions of the run loop's body: a state transformer whose result says how control goes on. A
  normal end hands its value to what follows; the others leave the body: \<open>continue\<close>, \<open>break\<close>, an
  error return, or a panic (\<open>unreachable!\<close>).
\<close>

datatype 'a flow = Proceed 'a | Continue_Loop | Break_Loop | Return_Err runtime_error | Panic

type_synonym ('a, 's) act = "'s \<Rightarrow> 'a flow \<times> 's"

definition ret :: "'a \<Rightarrow> ('a, 's) act" where
  "ret x s = (Proceed x, s)"

definition seq :: "('a, 's) act \<Rightarrow> ('a \<Rightarrow> ('b, 's) act) \<Rightarrow> ('b, 's) act" where
  "seq m f s =
     (case m s of
        (Proceed x, s') \<Rightarrow> f x s'
      | (Continue_Loop, s') \<Rightarrow> (Continue_Loop, s')
      | (Break_Loop, s') \<Rightarrow> (Break_Loop, s')
      | (Return_Err e, s') \<Rightarrow> (Return_Err e, s')
      | (Panic, s') \<Rightarrow> (Panic, s'))"

definition continue_loop :: "('a, 's) act" where "continue_loop s = (Continue_Loop, s)"
definition break_loop :: "('a, 's) act" where "break_loop s = (Break_Loop, s)"
definition return_err :: "runtime_error \<Rightarrow> ('a, 's) act" where "return_err e s = (Return_Err e, s)"
definition panic :: "('a, 's) act" where "panic s = (Panic, s)"

definition act_get :: "('s \<Rightarrow> 'a) \<Rightarrow> ('a, 's) act" where "act_get f s = (Proceed (f s), s)"
definition act_modify :: "('s \<Rightarrow> 's) \<Rightarrow> (unit, 's) act" where "act_modify f s = (Proceed (), f s)"

definition act_when :: "bool \<Rightarrow> (unit, 's) act \<Rightarrow> (unit, 's) act" where
  "act_when b m = (if b then m else ret ())"

text \<open>Runs \<open>m\<close> and hands its error on as a value (\<open>match\<close> on a \<open>Result\<close>).\<close>

definition act_try :: "('a, 's) act \<Rightarrow> (runtime_error + 'a, 's) act" where
  "act_try m s =
     (case m s of
        (Proceed x, s') \<Rightarrow> (Proceed (Inr x), s')
      | (Return_Err e, s') \<Rightarrow> (Proceed (Inl e), s')
      | (Continue_Loop, s') \<Rightarrow> (Continue_Loop, s')
      | (Break_Loop, s') \<Rightarrow> (Break_Loop, s')
      | (Panic, s') \<Rightarrow> (Panic, s'))"

fun act_list :: "('x \<Rightarrow> (unit, 's) act) \<Rightarrow> 'x list \<Rightarrow> (unit, 's) act" where
  "act_list f [] = ret ()"
| "act_list f (x # xs) = seq (f x) (\<lambda>_. act_list f xs)"

section \<open>Reasoning\<close>

lemma seq_ret [simp]: "seq (ret x) f = f x"
  by (simp add: seq_def ret_def fun_eq_iff)

text \<open>\<open>m\<close> relates every state it starts in to the state it ends in, however it ends.\<close>

definition relates :: "('s \<Rightarrow> 's \<Rightarrow> bool) \<Rightarrow> ('a, 's) act \<Rightarrow> bool" where
  "relates R m \<longleftrightarrow> (\<forall>s. R s (snd (m s)))"

named_theorems relates_intros

text \<open>From a state with \<open>P\<close>, \<open>m\<close> ends in a result and state with \<open>Q\<close>.\<close>

definition triple :: "('s \<Rightarrow> bool) \<Rightarrow> ('a, 's) act \<Rightarrow> ('a flow \<Rightarrow> 's \<Rightarrow> bool) \<Rightarrow> bool" where
  "triple P m Q \<longleftrightarrow> (\<forall>s. P s \<longrightarrow> Q (fst (m s)) (snd (m s)))"

locale step_relation =
  fixes R :: "'s \<Rightarrow> 's \<Rightarrow> bool"
  assumes R_refl: "R s s"
    and R_trans: "R s t \<Longrightarrow> R t u \<Longrightarrow> R s u"
begin

lemma relates_ret: "relates R (ret x)"
  by (simp add: relates_def ret_def R_refl)

lemma relates_exit:
  "relates R continue_loop" "relates R break_loop" "relates R (return_err e)" "relates R panic"
  by (simp_all add: relates_def continue_loop_def break_loop_def return_err_def panic_def R_refl)

lemma relates_get: "relates R (act_get f)"
  by (simp add: relates_def act_get_def R_refl)

lemma relates_seq: "relates R m \<Longrightarrow> (\<And>x. relates R (f x)) \<Longrightarrow> relates R (seq m f)"
  unfolding relates_def seq_def
  by (auto split: prod.splits flow.splits) (metis R_trans snd_conv)+

lemma relates_when: "(b \<Longrightarrow> relates R m) \<Longrightarrow> relates R (act_when b m)"
  by (simp add: act_when_def relates_ret)

lemma relates_try: "relates R m \<Longrightarrow> relates R (act_try m)"
  unfolding relates_def act_try_def
  by (auto split: prod.splits flow.splits) (metis snd_conv)+

lemma relates_list: "(\<And>x. relates R (f x)) \<Longrightarrow> relates R (act_list f xs)"
  by (induction xs) (auto intro: relates_ret relates_seq)

lemma relates_modify: "(\<And>s. R s (f s)) \<Longrightarrow> relates R (act_modify f)"
  by (simp add: relates_def act_modify_def)

end


text \<open>
  From a state with \<open>P\<close>, \<open>m\<close> ends normally with \<open>N\<close>, continues the loop with \<open>C\<close>, breaks out of it
  with \<open>B\<close> or returns an error with \<open>E\<close>; it does not panic.
\<close>

fun outcome ::
  "('a \<Rightarrow> 's \<Rightarrow> bool) \<Rightarrow> ('s \<Rightarrow> bool) \<Rightarrow> ('s \<Rightarrow> bool) \<Rightarrow> (runtime_error \<Rightarrow> 's \<Rightarrow> bool) \<Rightarrow>
   'a flow \<Rightarrow> 's \<Rightarrow> bool" where
  "outcome N C B E (Proceed x) s = N x s"
| "outcome N C B E Continue_Loop s = C s"
| "outcome N C B E Break_Loop s = B s"
| "outcome N C B E (Return_Err e) s = E e s"
| "outcome N C B E Panic s = False"

lemma triple_seq:
  assumes "triple P m (outcome M C B E)" and "\<And>x. triple (M x) (f x) (outcome N C B E)"
  shows "triple P (seq m f) (outcome N C B E)"
  unfolding triple_def
proof (intro allI impI)
  fix s
  assume "P s"
  obtain r s' where m: "m s = (r, s')" by fastforce
  with \<open>P s\<close> assms(1) have "outcome M C B E r s'" unfolding triple_def by (metis fst_conv snd_conv)
  then show "outcome N C B E (fst (seq m f s)) (snd (seq m f s))"
    using assms(2) m by (cases r) (simp_all add: seq_def triple_def)
qed

lemma triple_conseq:
  "triple P m Q \<Longrightarrow> (\<And>s. P' s \<Longrightarrow> P s) \<Longrightarrow> (\<And>r s. Q r s \<Longrightarrow> Q' r s) \<Longrightarrow> triple P' m Q'"
  by (auto simp: triple_def)

lemma triple_get: "(\<And>s. P s \<Longrightarrow> N (g s) s) \<Longrightarrow> triple P (act_get g) (outcome N C B E)"
  by (simp add: triple_def act_get_def)

lemma triple_modify: "(\<And>s. P s \<Longrightarrow> N () (g s)) \<Longrightarrow> triple P (act_modify g) (outcome N C B E)"
  by (simp add: triple_def act_modify_def)

lemma triple_ret: "(\<And>s. P s \<Longrightarrow> N x s) \<Longrightarrow> triple P (ret x) (outcome N C B E)"
  by (simp add: triple_def ret_def)

lemma triple_exits:
  "(\<And>s. P s \<Longrightarrow> C s) \<Longrightarrow> triple P continue_loop (outcome N C B E)"
  "(\<And>s. P s \<Longrightarrow> B s) \<Longrightarrow> triple P break_loop (outcome N C B E)"
  "(\<And>s. P s \<Longrightarrow> E e s) \<Longrightarrow> triple P (return_err e) (outcome N C B E)"
  by (simp_all add: triple_def continue_loop_def break_loop_def return_err_def)

lemma triple_if:
  "triple (\<lambda>s. P s \<and> b) m Q \<Longrightarrow> triple (\<lambda>s. P s \<and> \<not> b) m' Q \<Longrightarrow> triple P (if b then m else m') Q"
  by (auto simp: triple_def)

lemma triple_when:
  "triple (\<lambda>s. P s \<and> b) m (outcome N C B E) \<Longrightarrow> (\<And>s. P s \<Longrightarrow> \<not> b \<Longrightarrow> N () s) \<Longrightarrow>
   triple P (act_when b m) (outcome N C B E)"
  by (auto simp: triple_def act_when_def ret_def)

lemma triple_list:
  assumes "\<And>x. x \<in> set xs \<Longrightarrow> triple P (f x) (outcome (\<lambda>_. P) C B E)"
  shows "triple P (act_list f xs) (outcome (\<lambda>_. P) C B E)"
  using assms by (induction xs) (auto intro: triple_ret triple_seq [where M = "\<lambda>_. P"])

lemma triple_false: "(\<And>s. \<not> P s) \<Longrightarrow> triple P m Q"
  by (simp add: triple_def)

text \<open>An action that only proceeds or returns an error keeps what its relation keeps.\<close>

definition straight :: "('a, 's) act \<Rightarrow> bool" where
  "straight m \<longleftrightarrow> (\<forall>s. case fst (m s) of Proceed _ \<Rightarrow> True | Return_Err _ \<Rightarrow> True | _ \<Rightarrow> False)"

lemma straight_intros [intro]:
  "straight (ret x)" "straight (return_err e)" "straight (act_get g)" "straight (act_modify h)"
  "straight m \<Longrightarrow> (\<And>y. straight (f y)) \<Longrightarrow> straight (seq m f)"
  "(b \<Longrightarrow> straight n) \<Longrightarrow> straight (act_when b n)"
  "straight m \<Longrightarrow> straight (act_try m)"
proof -
  show "straight m \<Longrightarrow> (\<And>y. straight (f y)) \<Longrightarrow> straight (seq m f)"
  proof -
    assume m: "straight m" and f: "\<And>y. straight (f y)"
    have "case fst (seq m f s) of Proceed _ \<Rightarrow> True | Return_Err _ \<Rightarrow> True | _ \<Rightarrow> False" for s
    proof -
      obtain r s' where ms: "m s = (r, s')" by fastforce
      with m have "case r of Proceed _ \<Rightarrow> True | Return_Err _ \<Rightarrow> True | _ \<Rightarrow> False"
        unfolding straight_def by (metis fst_conv)
      with ms f show ?thesis by (cases r) (simp_all add: seq_def straight_def)
    qed
    then show ?thesis by (simp add: straight_def)
  qed
  show "straight m \<Longrightarrow> straight (act_try m)"
  proof -
    assume m: "straight m"
    have "case fst (act_try m s) of Proceed _ \<Rightarrow> True | Return_Err _ \<Rightarrow> True | _ \<Rightarrow> False" for s
    proof -
      obtain r s' where ms: "m s = (r, s')" by fastforce
      with m have "case r of Proceed _ \<Rightarrow> True | Return_Err _ \<Rightarrow> True | _ \<Rightarrow> False"
        unfolding straight_def by (metis fst_conv)
      with ms show ?thesis by (cases r) (simp_all add: act_try_def)
    qed
    then show ?thesis by (simp add: straight_def)
  qed
qed (auto simp: straight_def ret_def return_err_def act_get_def act_modify_def act_when_def)

lemma straight_list [intro]: "(\<And>x. straight (f x)) \<Longrightarrow> straight (act_list f xs)"
  by (induction xs) auto

lemma triple_straight:
  assumes "straight m" and "relates R m"
    and "\<And>s s' x. P s \<Longrightarrow> R s s' \<Longrightarrow> N x s'" and "\<And>s s' e. P s \<Longrightarrow> R s s' \<Longrightarrow> E e s'"
  shows "triple P m (outcome N C B E)"
  unfolding triple_def
proof (intro allI impI)
  fix s
  assume "P s"
  moreover obtain r s' where m: "m s = (r, s')" by fastforce
  moreover have "R s s'" using assms(2) m unfolding relates_def by (metis snd_conv)
  moreover have "case r of Proceed _ \<Rightarrow> True | Return_Err _ \<Rightarrow> True | _ \<Rightarrow> False"
    using assms(1) m unfolding straight_def by (metis fst_conv)
  ultimately show "outcome N C B E (fst (m s)) (snd (m s))"
    using assms(3,4) by (cases r) auto
qed

end
