(* ===== verification/Turn_Machine.thy ===== *)
theory Turn_Machine
  imports Agent_Events
begin

text \<open>
  The turn-based state machine (\<open>behest-runtime/src/turn.rs\<close>) and the snapshot it is resumed from
  (\<open>snapshot.rs\<close>). The text of an unexpected pair uses the derived \<open>Debug\<close> output of state and
  outcome, a parameter \<open>dbg\<close>.
\<close>

datatype turn_state =
    TsCheckingPolicy | TsBuildingContext | TsCallingModel | TsCompacting | TsProcessingResponse
  | TsExecutingTools | TsPersisting

datatype turn_outcome =
    OutSuccess
  | OutPolicyExceeded string
  | OutContextOverflow
  | OutProviderError string
  | OutPipelineError string
  | OutNoToolCalls
  | OutNotToolCalls finish_reason
  | OutToolFailure string
  | OutOutputTruncated

datatype turn_action =
    ActContinue turn_state
  | ActBreakLoop
  | ActCompactAndRetry
  | ActFail string

type_synonym turn_printer = "turn_state \<Rightarrow> turn_outcome \<Rightarrow> string \<times> string"

definition unexpected :: "turn_printer \<Rightarrow> turn_state \<Rightarrow> turn_outcome \<Rightarrow> turn_action" where
  "unexpected dbg s oc =
     (let (o_text, s_text) = dbg s oc
      in ActFail (''unexpected outcome '' @ o_text @ '' in state '' @ s_text))"

fun resolve :: "turn_printer \<Rightarrow> turn_state \<Rightarrow> turn_outcome \<Rightarrow> turn_action" where
  "resolve dbg TsCheckingPolicy oc =
     (case oc of OutPolicyExceeded reason \<Rightarrow> ActFail reason
      | OutSuccess \<Rightarrow> ActContinue TsBuildingContext
      | _ \<Rightarrow> unexpected dbg TsCheckingPolicy oc)"
| "resolve dbg TsBuildingContext oc =
     (case oc of OutSuccess \<Rightarrow> ActContinue TsCallingModel
      | OutPipelineError _ \<Rightarrow> ActFail ''context build failed''
      | _ \<Rightarrow> unexpected dbg TsBuildingContext oc)"
| "resolve dbg TsCompacting oc =
     (case oc of OutSuccess \<Rightarrow> ActContinue TsCallingModel
      | OutPipelineError _ \<Rightarrow> ActFail ''context build failed''
      | _ \<Rightarrow> unexpected dbg TsCompacting oc)"
| "resolve dbg TsCallingModel oc =
     (case oc of OutSuccess \<Rightarrow> ActContinue TsProcessingResponse
      | OutContextOverflow \<Rightarrow> ActCompactAndRetry
      | OutProviderError _ \<Rightarrow> ActFail ''provider error''
      | _ \<Rightarrow> unexpected dbg TsCallingModel oc)"
| "resolve dbg TsProcessingResponse oc =
     (case oc of OutOutputTruncated \<Rightarrow> ActContinue TsCallingModel
      | OutNoToolCalls \<Rightarrow> ActBreakLoop
      | OutNotToolCalls _ \<Rightarrow> ActBreakLoop
      | OutSuccess \<Rightarrow> ActContinue TsExecutingTools
      | _ \<Rightarrow> unexpected dbg TsProcessingResponse oc)"
| "resolve dbg TsExecutingTools oc =
     (case oc of OutSuccess \<Rightarrow> ActContinue TsPersisting
      | OutToolFailure _ \<Rightarrow> ActFail ''tool execution failed''
      | _ \<Rightarrow> unexpected dbg TsExecutingTools oc)"
| "resolve dbg TsPersisting oc =
     (case oc of OutSuccess \<Rightarrow> ActContinue TsCheckingPolicy
      | OutPipelineError _ \<Rightarrow> ActFail ''persistence failed''
      | _ \<Rightarrow> unexpected dbg TsPersisting oc)"

fun status_for :: "turn_state \<Rightarrow> run_status" where
  "status_for TsCheckingPolicy = StBuildingContext"
| "status_for TsCompacting = StBuildingContext"
| "status_for TsBuildingContext = StBuildingContext"
| "status_for TsCallingModel = StCallingModel"
| "status_for TsProcessingResponse = StCallingModel"
| "status_for TsExecutingTools = StWaitingForTools"
| "status_for TsPersisting = StPersisting"

record snapshot =
  sn_run_id :: run_id
  sn_session_id :: uuid
  sn_status :: run_status
  sn_iteration :: usize
  sn_current_state :: turn_state
  sn_total_usage :: token_usage
  sn_last_finish :: "finish_reason option"
  sn_assistant_message :: "message option"
  sn_assistant_msg_id :: "uuid option"
  sn_request :: run_request
  sn_output_recovery_count :: u32
  sn_timestamp :: timestamp

text \<open>The resolver's table. A turn goes on to the next state exactly on success, save that a
  truncated response goes back to the model; the loop is left successfully only out of
  \<open>ProcessingResponse\<close>, on a response that calls no tools; compaction is retried only when calling
  the model; and no running state maps to a terminal run status.\<close>

theorem resolve_table:
  "(resolve dbg s oc = ActContinue s' \<longleftrightarrow>
      (oc = OutSuccess \<and> (s, s') \<in> {(TsCheckingPolicy, TsBuildingContext),
         (TsBuildingContext, TsCallingModel), (TsCompacting, TsCallingModel),
         (TsCallingModel, TsProcessingResponse), (TsProcessingResponse, TsExecutingTools),
         (TsExecutingTools, TsPersisting), (TsPersisting, TsCheckingPolicy)}) \<or>
      (oc = OutOutputTruncated \<and> s = TsProcessingResponse \<and> s' = TsCallingModel)) \<and>
   (resolve dbg s oc = ActBreakLoop \<longleftrightarrow>
      s = TsProcessingResponse \<and> (oc = OutNoToolCalls \<or> (\<exists>f. oc = OutNotToolCalls f))) \<and>
   (resolve dbg s oc = ActCompactAndRetry \<longleftrightarrow> s = TsCallingModel \<and> oc = OutContextOverflow) \<and>
   \<not> status_is_terminal (status_for s)"
  by (cases s; cases oc; cases s') (auto simp: unexpected_def split: prod.splits)

end
