(* ===== verification/Doom_Loop.thy ===== *)
theory Doom_Loop
  imports Core_Types "HOL-Library.List_Lexorder" "HOL-Library.Char_ord" "HOL-Library.Multiset"
begin

text \<open>
  Doom-loop detection (\<open>behest-runtime/src/doom_loop.rs\<close>). The hash of \<open>DefaultHasher\<close> over the tool
  name and the canonical arguments is a parameter \<open>hash\<close>; strings compare by their bytes, as in
  Rust. Counts are unbounded naturals: the products of the configured lengths stay far below
  \<open>usize::MAX\<close>.
\<close>

section \<open>Configuration\<close>

record doom_loop_config =
  dl_enabled :: bool
  consecutive_threshold :: usize
  min_cycle_length :: usize
  max_cycle_length :: usize
  cycle_repetitions :: usize

definition doom_loop_config_default :: doom_loop_config where
  "doom_loop_config_default =
     \<lparr>dl_enabled = True, consecutive_threshold = 3, min_cycle_length = 2, max_cycle_length = 4,
      cycle_repetitions = 2\<rparr>"

definition with_disabled :: "doom_loop_config \<Rightarrow> doom_loop_config" where
  "with_disabled c = c\<lparr>dl_enabled := False\<rparr>"

definition with_consecutive_threshold :: "doom_loop_config \<Rightarrow> usize \<Rightarrow> doom_loop_config" where
  "with_consecutive_threshold c n = c\<lparr>consecutive_threshold := n\<rparr>"

definition with_min_cycle_length :: "doom_loop_config \<Rightarrow> usize \<Rightarrow> doom_loop_config" where
  "with_min_cycle_length c n = c\<lparr>min_cycle_length := n\<rparr>"

definition with_max_cycle_length :: "doom_loop_config \<Rightarrow> usize \<Rightarrow> doom_loop_config" where
  "with_max_cycle_length c n = c\<lparr>max_cycle_length := n\<rparr>"

definition with_cycle_repetitions :: "doom_loop_config \<Rightarrow> usize \<Rightarrow> doom_loop_config" where
  "with_cycle_repetitions c n = c\<lparr>cycle_repetitions := n\<rparr>"

section \<open>Fingerprints\<close>

fun canonicalize :: "json \<Rightarrow> json" where
  "canonicalize (JObject kvs) =
     JObject (map (\<lambda>(k, v). (k, canonicalize v)) (sort_key fst kvs))"
| "canonicalize (JArray vs) = JArray (map canonicalize vs)"
| "canonicalize v = v"

type_synonym arg_hash = "string \<Rightarrow> json \<Rightarrow> u64"

definition fingerprint_of :: "arg_hash \<Rightarrow> string \<Rightarrow> json \<Rightarrow> u64" where
  "fingerprint_of hash name args = hash name (canonicalize args)"

section \<open>The detector\<close>

datatype doom_loop_type =
    ConsecutiveDuplicate string usize
  | Cycle "string list" usize

record doom_loop_detector =
  dl_config :: doom_loop_config
  dl_history :: "(u64 \<times> string) list"

definition detector_new :: "doom_loop_config \<Rightarrow> doom_loop_detector" where
  "detector_new c = \<lparr>dl_config = c, dl_history = []\<rparr>"

definition check_consecutive_duplicate :: "doom_loop_detector \<Rightarrow> doom_loop_type option" where
  "check_consecutive_duplicate d =
     (let threshold = consecutive_threshold (dl_config d); h = dl_history d
      in if length h < threshold then None
         else if h = [] then None
         else let lst = last h;
                  all_same = list_all (\<lambda>(fp, _). fp = fst lst) (take threshold (rev h))
              in if all_same then Some (ConsecutiveDuplicate (snd lst) threshold) else None)"

text \<open>Whether the \<open>repetitions\<close> blocks that follow the candidate at \<open>start\<close> equal it.\<close>

definition block_matches :: "(u64 \<times> string) list \<Rightarrow> nat \<Rightarrow> nat \<Rightarrow> nat \<Rightarrow> bool" where
  "block_matches h start len rep =
     list_all (\<lambda>i. fst (h ! (start + rep * len + i)) = fst (h ! (start + i))) [0..<len]"

definition try_cycle :: "(u64 \<times> string) list \<Rightarrow> usize \<Rightarrow> usize \<Rightarrow> doom_loop_type option" where
  "try_cycle h repetitions cycle_len =
     (let required = cycle_len * (repetitions + 1)
      in if length h < required then None
         else let start = length h - required;
                  hits = list_all (block_matches h start cycle_len) [1..<repetitions + 1]
              in if hits
                 then Some (Cycle (map snd (take cycle_len (drop start h))) (repetitions + 1))
                 else None)"

fun first_some :: "('a \<Rightarrow> 'b option) \<Rightarrow> 'a list \<Rightarrow> 'b option" where
  "first_some f [] = None"
| "first_some f (x # xs) = (case f x of Some y \<Rightarrow> Some y | None \<Rightarrow> first_some f xs)"

definition check_cycle :: "doom_loop_detector \<Rightarrow> doom_loop_type option" where
  "check_cycle d =
     (let c = dl_config d; h = dl_history d;
          min_required = min_cycle_length c * (cycle_repetitions c + 1)
      in if length h < min_required then None
         else first_some (try_cycle h (cycle_repetitions c))
                [min_cycle_length c..<max_cycle_length c + 1])"

definition record_and_check ::
  "arg_hash \<Rightarrow> doom_loop_detector \<Rightarrow> string \<Rightarrow> json \<Rightarrow> doom_loop_type option \<times> doom_loop_detector" where
  "record_and_check hash d name args =
     (if \<not> dl_enabled (dl_config d) then (None, d)
      else
        let fp = fingerprint_of hash name args;
            d' = d\<lparr>dl_history := dl_history d @ [(fp, name)]\<rparr>
        in case check_consecutive_duplicate d' of
             Some r \<Rightarrow> (Some r, d')
           | None \<Rightarrow> (check_cycle d', d'))"

definition detector_clear :: "doom_loop_detector \<Rightarrow> doom_loop_detector" where
  "detector_clear d = d\<lparr>dl_history := []\<rparr>"

definition history_len :: "doom_loop_detector \<Rightarrow> usize" where
  "history_len d = length (dl_history d)"

section \<open>The fingerprint\<close>

lemma sort_key_perm:
  fixes xs ys :: "(string \<times> 'a) list"
  assumes "mset xs = mset ys" and "distinct (map fst xs)"
  shows "sort_key fst xs = sort_key fst ys"
proof (rule map_sorted_distinct_set_unique [where f = fst])
  have "set xs = set ys" using assms(1) by (rule mset_eq_setD)
  then show "set (sort_key fst xs) = set (sort_key fst ys)" by simp
  have m: "mset (map fst (sort_key fst xs)) = mset (map fst xs)"
      "mset (map fst (sort_key fst ys)) = mset (map fst xs)"
    using assms(1) by simp_all
  show d: "distinct (map fst (sort_key fst xs))" "distinct (map fst (sort_key fst ys))"
    using assms(2) mset_eq_imp_distinct_iff m by metis+
  show "sorted (map fst (sort_key fst xs))" "sorted (map fst (sort_key fst ys))" by simp_all
  show "inj_on fst (set (sort_key fst xs) \<union> set (sort_key fst ys))"
    using d(1) \<open>set xs = set ys\<close> by (simp add: distinct_map)
qed

text \<open>Equality up to the order of object entries, at every depth.\<close>

inductive json_equiv :: "json \<Rightarrow> json \<Rightarrow> bool" where
  equiv_refl: "json_equiv v v"
| equiv_array: "list_all2 json_equiv vs ws \<Longrightarrow> json_equiv (JArray vs) (JArray ws)"
| equiv_object: "list_all2 (rel_prod (=) json_equiv) kvs kvs' \<Longrightarrow> mset kvs' = mset kvs'' \<Longrightarrow>
    distinct (map fst kvs) \<Longrightarrow> json_equiv (JObject kvs) (JObject kvs'')"

lemma canonicalize_sorted_map:
  "canonicalize (JObject kvs) = JObject (sort_key fst (map (\<lambda>(k, v). (k, canonicalize v)) kvs))"
proof -
  have "insort_key fst (k, canonicalize v) (map (\<lambda>(k, v). (k, canonicalize v)) xs) =
      map (\<lambda>(k, v). (k, canonicalize v)) (insort_key fst (k, v) xs)" for k v and xs :: "(string \<times> json) list"
    by (induction xs) auto
  then have "sort_key fst (map (\<lambda>(k, v). (k, canonicalize v)) kvs) =
      map (\<lambda>(k, v). (k, canonicalize v)) (sort_key fst kvs)"
    by (induction kvs) (auto simp: sort_key_def)
  then show ?thesis by simp
qed

lemma canonicalize_equiv: "json_equiv a b \<Longrightarrow> canonicalize a = canonicalize b"
proof (induction rule: json_equiv.induct)
  case (equiv_array vs ws)
  then show ?case by (simp add: list_all2_conv_all_nth list_eq_iff_nth_eq)
next
  case (equiv_object kvs kvs' kvs'')
  let ?c = "map (\<lambda>(k, v). (k, canonicalize v))"
  have eq: "?c kvs = ?c kvs'"
    using equiv_object.IH
    by (induction rule: list_all2_induct) (auto simp: rel_prod_sel)
  have "mset (?c kvs) = mset (?c kvs'')" using eq equiv_object.hyps by (metis mset_map)
  moreover have "map fst (?c kvs) = map fst kvs" by (induction kvs) auto
  ultimately show ?case using sort_key_perm equiv_object.hyps
    by (metis canonicalize_sorted_map)
qed simp

text \<open>The fingerprint identifies a call up to the order of object keys: arguments that differ only
  in the order of the entries of their objects, at any depth, get the same fingerprint, whatever the
  hash.\<close>

theorem fingerprint_ignores_key_order:
  assumes "json_equiv args args'"
  shows "fingerprint_of hash name args = fingerprint_of hash name args'"
  using canonicalize_equiv [OF assms] by (simp add: fingerprint_of_def)

lemma fingerprint_ignores_key_order_witness:
  "\<forall>hash. fingerprint_of hash ''t'' (JObject [(''b'', JNull), (''a'', JBool True)]) =
     fingerprint_of hash ''t'' (JObject [(''a'', JBool True), (''b'', JNull)])"
proof
  fix hash
  have "json_equiv (JObject [(''b'', JNull), (''a'', JBool True)])
      (JObject [(''a'', JBool True), (''b'', JNull)])"
    by (rule equiv_object [of _ "[(''b'', JNull), (''a'', JBool True)]"]) (auto intro: equiv_refl)
  then show "fingerprint_of hash ''t'' (JObject [(''b'', JNull), (''a'', JBool True)]) =
     fingerprint_of hash ''t'' (JObject [(''a'', JBool True), (''b'', JNull)])"
    by (rule fingerprint_ignores_key_order)
qed

section \<open>Detection\<close>

lemma length_concat_replicate: "length (concat (replicate n p)) = n * length p"
  by (induction n) auto

lemma nth_concat_replicate:
  "k < n \<Longrightarrow> i < length p \<Longrightarrow> concat (replicate n p) ! (k * length p + i) = p ! i"
proof (induction n arbitrary: k)
  case (Suc n)
  then show ?case by (cases k) (auto simp: nth_append algebra_simps)
qed simp

text \<open>A list of \<open>n\<close> blocks repeats its first block exactly when every block agrees with it.\<close>

lemma blocks_repeat_iff:
  assumes "length xs = n * L" and "0 < n"
  shows "(\<forall>k<n. \<forall>i<L. xs ! (k * L + i) = xs ! i) \<longleftrightarrow> (\<exists>p. length p = L \<and> xs = concat (replicate n p))"
proof
  assume a: "\<forall>k<n. \<forall>i<L. xs ! (k * L + i) = xs ! i"
  have l: "length (take L xs) = L" using assms by simp
  have "xs = concat (replicate n (take L xs))"
  proof (rule nth_equalityI)
    show "length xs = length (concat (replicate n (take L xs)))"
      using assms l by (simp only: length_concat_replicate)
    fix j
    assume "j < length xs"
    then have j: "j < n * L" "0 < L" using assms by (auto intro: Nat.gr0I)
    then have k: "j div L < n" "j mod L < L" by (simp_all add: less_mult_imp_div_less)
    have "xs ! j = xs ! (j div L * L + j mod L)" by simp
    also have "\<dots> = xs ! (j mod L)" using a k by blast
    also have "\<dots> = take L xs ! (j mod L)" using k by simp
    also have "\<dots> = concat (replicate n (take L xs)) ! (j div L * L + j mod L)"
      using nth_concat_replicate [of "j div L" n "j mod L" "take L xs"] k l by simp
    finally show "xs ! j = concat (replicate n (take L xs)) ! j" by simp
  qed
  with l show "\<exists>p. length p = L \<and> xs = concat (replicate n p)" by blast
next
  assume "\<exists>p. length p = L \<and> xs = concat (replicate n p)"
  then obtain p where p: "length p = L" "xs = concat (replicate n p)" by blast
  show "\<forall>k<n. \<forall>i<L. xs ! (k * L + i) = xs ! i"
    using nth_concat_replicate [of _ n _ p] nth_concat_replicate [of 0 n _ p] assms(2) p by simp
qed

lemma all_blocks_match_iff:
  "list_all (block_matches h s L) [1..<r + 1] \<longleftrightarrow>
     (\<forall>k<r + 1. \<forall>i<L. fst (h ! (s + k * L + i)) = fst (h ! (s + i)))" (is "?l \<longleftrightarrow> ?r")
proof
  assume l: ?l
  show ?r
  proof (intro allI impI)
    fix k i
    assume "k < r + 1" "i < L"
    show "fst (h ! (s + k * L + i)) = fst (h ! (s + i))"
    proof (cases "k = 0")
      case False
      then have "k \<in> set [1..<r + 1]" using \<open>k < r + 1\<close> unfolding set_upt by simp
      with l have "block_matches h s L k" unfolding list_all_iff by blast
      with \<open>i < L\<close> show ?thesis by (simp add: list_all_iff block_matches_def)
    qed simp
  qed
next
  assume ?r
  then show ?l unfolding list_all_iff block_matches_def set_upt by auto
qed

lemma try_cycle_iff:
  "try_cycle h r L \<noteq> None \<longleftrightarrow>
     (\<exists>pre p. length p = L \<and> map fst h = pre @ concat (replicate (r + 1) p))"
proof (cases "length h < L * (r + 1)")
  case True
  then have "map fst h \<noteq> pre @ concat (replicate (r + 1) p)" if "length p = L" for pre p
    using that length_concat_replicate [of "r + 1" p] by (metis length_append length_map
        linorder_not_less le_add2 mult.commute)
  with True show ?thesis by (auto simp: try_cycle_def Let_def)
next
  case False
  let ?s = "length h - L * (r + 1)" let ?t = "drop ?s (map fst h)"
  have t: "length ?t = (r + 1) * L" using False by (simp add: mult.commute)
  have nth: "?t ! j = fst (h ! (?s + j))" if "j < (r + 1) * L" for j using that t by simp
  have "list_all (block_matches h ?s L) [1..<r + 1] \<longleftrightarrow>
      (\<forall>k<r + 1. \<forall>i<L. fst (h ! (?s + k * L + i)) = fst (h ! (?s + i)))"
    by (rule all_blocks_match_iff)
  also have "\<dots> \<longleftrightarrow> (\<forall>k<r + 1. \<forall>i<L. ?t ! (k * L + i) = ?t ! i)"
  proof -
    have lt: "k * L + i < (r + 1) * L" if "k < r + 1" "i < L" for k i
    proof -
      have "k * L + i < Suc k * L" using that by simp
      also have "\<dots> \<le> (r + 1) * L" using that by (intro mult_le_mono1) simp
      finally show ?thesis .
    qed
    have "?t ! (k * L + i) = fst (h ! (?s + k * L + i))" "?t ! i = fst (h ! (?s + i))"
      if "k < r + 1" "i < L" for k i
      using nth [OF lt [OF that]] nth [OF lt [of 0 i]] that by (simp_all add: add.assoc)
    then show ?thesis by (metis (no_types, lifting))
  qed
  also have "\<dots> \<longleftrightarrow> (\<exists>p. length p = L \<and> ?t = concat (replicate (r + 1) p))"
    by (rule blocks_repeat_iff [OF t]) simp
  also have "\<dots> \<longleftrightarrow> (\<exists>pre p. length p = L \<and> map fst h = pre @ concat (replicate (r + 1) p))"
  proof
    assume "\<exists>p. length p = L \<and> ?t = concat (replicate (r + 1) p)"
    then show "\<exists>pre p. length p = L \<and> map fst h = pre @ concat (replicate (r + 1) p)"
      by (metis append_take_drop_id)
  next
    assume "\<exists>pre p. length p = L \<and> map fst h = pre @ concat (replicate (r + 1) p)"
    then obtain pre p where p: "length p = L" "map fst h = pre @ concat (replicate (r + 1) p)" by blast
    then have "length h = length pre + (r + 1) * L"
      by (metis length_append length_concat_replicate length_map)
    then have "?t = concat (replicate (r + 1) p)" using p(2) by (simp add: mult.commute)
    with p show "\<exists>p. length p = L \<and> ?t = concat (replicate (r + 1) p)" by blast
  qed
  finally show ?thesis using False by (simp add: try_cycle_def Let_def)
qed

lemma first_some_iff: "first_some f xs \<noteq> None \<longleftrightarrow> (\<exists>x\<in>set xs. f x \<noteq> None)"
  by (induction xs) (auto split: option.splits)

lemma check_cycle_iff:
  "check_cycle d \<noteq> None \<longleftrightarrow>
     (\<exists>L pre p. min_cycle_length (dl_config d) \<le> L \<and> L \<le> max_cycle_length (dl_config d) \<and>
        length p = L \<and>
        map fst (dl_history d) = pre @ concat (replicate (cycle_repetitions (dl_config d) + 1) p))"
proof (cases "length (dl_history d) < min_cycle_length (dl_config d) * (cycle_repetitions (dl_config d) + 1)")
  case True
  have "map fst (dl_history d) \<noteq> pre @ concat (replicate (cycle_repetitions (dl_config d) + 1) p)"
    if "min_cycle_length (dl_config d) \<le> length p" for pre p
  proof
    assume "map fst (dl_history d) = pre @ concat (replicate (cycle_repetitions (dl_config d) + 1) p)"
    then have "length (dl_history d) = length pre + (cycle_repetitions (dl_config d) + 1) * length p"
      by (metis length_append length_concat_replicate length_map)
    with True mult_le_mono2 [OF that, of "cycle_repetitions (dl_config d) + 1"] show False
      by (simp only: mult.commute)
  qed
  with True show ?thesis by (auto simp: check_cycle_def Let_def)
next
  case False
  then have c: "check_cycle d \<noteq> None \<longleftrightarrow>
      (\<exists>L\<in>set [min_cycle_length (dl_config d)..<max_cycle_length (dl_config d) + 1].
         try_cycle (dl_history d) (cycle_repetitions (dl_config d)) L \<noteq> None)"
    by (simp only: check_cycle_def Let_def first_some_iff if_False)
  have m: "L \<in> set [a..<b + 1] \<longleftrightarrow> a \<le> L \<and> L \<le> b" for L a b :: nat by auto
  show ?thesis unfolding c Bex_def m try_cycle_iff by blast
qed

lemma check_consecutive_iff:
  assumes "dl_history d \<noteq> []"
  shows "check_consecutive_duplicate d \<noteq> None \<longleftrightarrow>
    (\<exists>pre x. map fst (dl_history d) = pre @ replicate (consecutive_threshold (dl_config d)) x)"
proof -
  let ?h = "dl_history d" let ?n = "consecutive_threshold (dl_config d)"
  show ?thesis
  proof (cases "length ?h < ?n")
    case True
    then have "map fst ?h \<noteq> pre @ replicate ?n x" for pre x
      by (metis length_append length_map length_replicate le_add2 linorder_not_less)
    with True show ?thesis by (simp add: check_consecutive_duplicate_def Let_def)
  next
    case False
    let ?t = "drop (length ?h - ?n) (map fst ?h)"
    have rev: "take ?n (rev ?h) = rev (drop (length ?h - ?n) ?h)"
      by (simp add: take_rev)
    have "check_consecutive_duplicate d \<noteq> None \<longleftrightarrow> (\<forall>x\<in>set ?t. x = fst (last ?h))"
      using False assms
      by (auto simp: check_consecutive_duplicate_def Let_def list_all_iff rev drop_map split_beta)
    also have "\<dots> \<longleftrightarrow> (\<exists>x. ?t = replicate ?n x)"
    proof
      assume "\<forall>x\<in>set ?t. x = fst (last ?h)"
      moreover have "length ?t = ?n" using False by simp
      ultimately have "?t = replicate ?n (fst (last ?h))" by (metis replicate_eqI)
      then show "\<exists>x. ?t = replicate ?n x" by blast
    next
      assume "\<exists>x. ?t = replicate ?n x"
      then obtain x where x: "?t = replicate ?n x" by blast
      show "\<forall>y\<in>set ?t. y = fst (last ?h)"
      proof (cases "?n = 0")
        case False
        then have "last ?t = last (map fst ?h)" using \<open>\<not> length ?h < ?n\<close> assms
          by (simp add: last_drop)
        then have "fst (last ?h) = x" using x False assms by (simp add: last_map)
        with x show ?thesis by simp
      qed (use x in simp)
    qed
    also have "\<dots> \<longleftrightarrow> (\<exists>pre x. map fst ?h = pre @ replicate ?n x)"
    proof
      assume "\<exists>x. ?t = replicate ?n x"
      then show "\<exists>pre x. map fst ?h = pre @ replicate ?n x" by (metis append_take_drop_id)
    next
      assume "\<exists>pre x. map fst ?h = pre @ replicate ?n x"
      then obtain pre x where p: "map fst ?h = pre @ replicate ?n x" by blast
      then have "length ?h = length pre + ?n" by (metis length_append length_map length_replicate)
      with p show "\<exists>x. ?t = replicate ?n x" by auto
    qed
    finally show ?thesis .
  qed
qed

text \<open>C16: Detection is exact. With detection enabled, recording a call reports a loop if and only if
  the fingerprints recorded so far, this call included, end in \<open>consecutive_threshold\<close> equal ones,
  or end in \<open>cycle_repetitions + 1\<close> copies of some pattern whose length is between
  \<open>min_cycle_length\<close> and \<open>max_cycle_length\<close>.\<close>

theorem doom_loop_detected_iff:
  assumes "dl_enabled (dl_config d)"
  shows "(let (r, d') = record_and_check hash d name args; c = dl_config d;
              h = map fst (dl_history d) @ [fingerprint_of hash name args]
          in map fst (dl_history d') = h \<and>
             (r \<noteq> None \<longleftrightarrow>
               (\<exists>pre x. h = pre @ replicate (consecutive_threshold c) x) \<or>
               (\<exists>L pre p. min_cycle_length c \<le> L \<and> L \<le> max_cycle_length c \<and> length p = L \<and>
                  h = pre @ concat (replicate (cycle_repetitions c + 1) p))))"
proof -
  let ?d = "d\<lparr>dl_history := dl_history d @ [(fingerprint_of hash name args, name)]\<rparr>"
  have "record_and_check hash d name args =
      (case check_consecutive_duplicate ?d of Some r \<Rightarrow> (Some r, ?d) | None \<Rightarrow> (check_cycle ?d, ?d))"
    using assms by (simp add: record_and_check_def Let_def)
  with check_consecutive_iff [of ?d] check_cycle_iff [of ?d] show ?thesis
    by (cases "check_consecutive_duplicate ?d") (simp_all add: Let_def)
qed

lemma doom_loop_detected_iff_witness:
  "let d = detector_new doom_loop_config_default;
       step = (\<lambda>d. snd (record_and_check (\<lambda>_ _. 7) d ''t'' JNull))
   in fst (record_and_check (\<lambda>_ _. 7) (step d) ''t'' JNull) = None \<and>
      fst (record_and_check (\<lambda>_ _. 7) (step (step d)) ''t'' JNull) \<noteq> None"
proof -
  let ?h = "\<lambda>_ _. 7 :: u64"
  let ?d = "detector_new doom_loop_config_default"
  let ?d1 = "snd (record_and_check ?h ?d ''t'' JNull)"
  let ?d2 = "snd (record_and_check ?h ?d1 ''t'' JNull)"
  have e: "dl_enabled (dl_config ?d)" "dl_enabled (dl_config ?d1)" "dl_enabled (dl_config ?d2)"
    by (simp_all add: detector_new_def doom_loop_config_default_def record_and_check_def Let_def
        split: option.splits)
  have a: "fst (record_and_check ?h ?d1 ''t'' JNull) = None"
    by (simp add: detector_new_def doom_loop_config_default_def record_and_check_def Let_def
        check_consecutive_duplicate_def check_cycle_def)
  have "map fst (dl_history ?d2) @ [fingerprint_of ?h ''t'' JNull] = [] @ replicate 3 7"
    by (simp add: detector_new_def doom_loop_config_default_def record_and_check_def Let_def
        check_consecutive_duplicate_def check_cycle_def fingerprint_of_def eval_nat_numeral)
  moreover have "consecutive_threshold (dl_config ?d2) = 3"
    by (simp add: detector_new_def doom_loop_config_default_def record_and_check_def Let_def
        split: option.splits)
  ultimately have b: "fst (record_and_check ?h ?d2 ''t'' JNull) \<noteq> None"
    using doom_loop_detected_iff [OF e(3), of ?h "''t''" JNull] by (auto simp: Let_def split_beta)
  show ?thesis using a b by (simp add: Let_def)
qed

end
