(* ===== verification/Input_Admission.thy ===== *)
theory Input_Admission
  imports Core_Errors
begin

text \<open>
  The input admission pipeline (\<open>behest-runtime/src/input.rs\<close>). The content hash is a parameter
  \<open>hash\<close>, fresh identifiers and the clock are arguments, and the mutex over the fingerprints is its
  content with a poison flag.
\<close>

section \<open>Records, events, configuration\<close>

datatype input_state = Submitted | Admitted | Processing | Completed | Rejected

fun input_is_terminal :: "input_state \<Rightarrow> bool" where
  "input_is_terminal Completed = True"
| "input_is_terminal Rejected = True"
| "input_is_terminal _ = False"

record input_record =
  ir_id :: uuid
  ir_session_id :: uuid
  ir_state :: input_state
  ir_content :: string
  ir_fingerprint :: u64
  ir_rejection_reason :: "string option"
  ir_submitted_at :: timestamp
  ir_updated_at :: timestamp

definition input_record_new ::
  "(string \<Rightarrow> u64) \<Rightarrow> uuid \<Rightarrow> timestamp \<Rightarrow> uuid \<Rightarrow> string \<Rightarrow> input_record" where
  "input_record_new hash fresh now session content =
     \<lparr>ir_id = fresh, ir_session_id = session, ir_state = Submitted, ir_content = content,
      ir_fingerprint = hash (str_trim content), ir_rejection_reason = None,
      ir_submitted_at = now, ir_updated_at = now\<rparr>"

definition update_state :: "timestamp \<Rightarrow> input_record \<Rightarrow> input_state \<Rightarrow> input_record" where
  "update_state now r s = r\<lparr>ir_state := s, ir_updated_at := now\<rparr>"

definition reject :: "timestamp \<Rightarrow> input_record \<Rightarrow> string \<Rightarrow> input_record" where
  "reject now r reason =
     r\<lparr>ir_state := Rejected, ir_rejection_reason := Some reason, ir_updated_at := now\<rparr>"

datatype input_event =
    EvSubmitted uuid uuid string u64 timestamp
  | EvAdmitted uuid timestamp
  | EvRejected uuid string timestamp
  | EvProcessing uuid timestamp
  | EvCompleted uuid timestamp

fun event_input_id :: "input_event \<Rightarrow> uuid" where
  "event_input_id (EvSubmitted i _ _ _ _) = i"
| "event_input_id (EvAdmitted i _) = i"
| "event_input_id (EvRejected i _ _) = i"
| "event_input_id (EvProcessing i _) = i"
| "event_input_id (EvCompleted i _) = i"

record admission_config =
  ac_enabled :: bool
  ac_reject_empty :: bool
  ac_deduplicate :: bool
  ac_max_length :: usize

definition admission_config_default :: admission_config where
  "admission_config_default =
     \<lparr>ac_enabled = True, ac_reject_empty = True, ac_deduplicate = True, ac_max_length = 0\<rparr>"

definition with_enabled :: "admission_config \<Rightarrow> bool \<Rightarrow> admission_config" where
  "with_enabled c b = c\<lparr>ac_enabled := b\<rparr>"

definition with_reject_empty :: "admission_config \<Rightarrow> bool \<Rightarrow> admission_config" where
  "with_reject_empty c b = c\<lparr>ac_reject_empty := b\<rparr>"

definition with_deduplicate :: "admission_config \<Rightarrow> bool \<Rightarrow> admission_config" where
  "with_deduplicate c b = c\<lparr>ac_deduplicate := b\<rparr>"

definition with_max_length :: "admission_config \<Rightarrow> usize \<Rightarrow> admission_config" where
  "with_max_length c n = c\<lparr>ac_max_length := n\<rparr>"

datatype admission_error = LockPoisoned

section \<open>The pipeline\<close>

record input_admission =
  ia_config :: admission_config
  ia_seen :: "u64 list"
  ia_poisoned :: bool

definition admission_new :: "admission_config \<Rightarrow> input_admission" where
  "admission_new c = \<lparr>ia_config = c, ia_seen = [], ia_poisoned = False\<rparr>"

text \<open>Rejecting with a reason: the record and the events so far with the \<open>Rejected\<close> event.\<close>

definition rejected_with ::
  "timestamp \<Rightarrow> input_record \<Rightarrow> input_event list \<Rightarrow> string \<Rightarrow> input_record \<times> input_event list" where
  "rejected_with now r evs reason = (reject now r reason, evs @ [EvRejected (ir_id r) reason now])"

definition admit ::
  "timestamp \<Rightarrow> input_admission \<Rightarrow> input_record \<Rightarrow>
     (admission_error + input_record \<times> input_event list) \<times> input_admission" where
  "admit now a r =
     (let c = ia_config a in
      if \<not> ac_enabled c then (Inr (update_state now r Admitted, [EvAdmitted (ir_id r) now]), a)
      else
        let evs = [EvSubmitted (ir_id r) (ir_session_id r) (ir_content r) (ir_fingerprint r)
                     (ir_submitted_at r)];
            admitted = (update_state now r Admitted, evs @ [EvAdmitted (ir_id r) now])
        in if ac_reject_empty c \<and> str_trim (ir_content r) = []
           then (Inr (rejected_with now r evs ''empty input''), a)
           else if ac_max_length c > 0 \<and> length (ir_content r) > ac_max_length c
           then (Inr (rejected_with now r evs
                  (''input exceeds maximum length of '' @ show_nat (ac_max_length c))), a)
           else if ac_deduplicate c
           then if ia_poisoned a then (Inl LockPoisoned, a)
                else if ir_fingerprint r \<in> set (ia_seen a)
                then (Inr (rejected_with now r evs ''duplicate input''), a)
                else (Inr admitted, a\<lparr>ia_seen := ir_fingerprint r # ia_seen a\<rparr>)
           else (Inr admitted, a))"

definition mark_processing :: "timestamp \<Rightarrow> input_record \<Rightarrow> input_event \<times> input_record" where
  "mark_processing now r = (EvProcessing (ir_id r) now, update_state now r Processing)"

definition mark_completed :: "timestamp \<Rightarrow> input_record \<Rightarrow> input_event \<times> input_record" where
  "mark_completed now r = (EvCompleted (ir_id r) now, update_state now r Completed)"

definition clear_cache :: "input_admission \<Rightarrow> (admission_error + unit) \<times> input_admission" where
  "clear_cache a =
     (if ia_poisoned a then (Inl LockPoisoned, a) else (Inr (), a\<lparr>ia_seen := []\<rparr>))"

text \<open>Submitting inputs one after another, each a fresh id, a time, a session and a content; the
  collected states.\<close>

fun admit_all ::
  "(string \<Rightarrow> u64) \<Rightarrow> input_admission \<Rightarrow> (uuid \<times> timestamp \<times> uuid \<times> string) list \<Rightarrow>
     (admission_error + input_record \<times> input_event list) list" where
  "admit_all hash a [] = []"
| "admit_all hash a ((fresh, now, session, content) # xs) =
     (let (res, a') = admit now a (input_record_new hash fresh now session content)
      in res # admit_all hash a' xs)"

definition was_admitted :: "admission_error + input_record \<times> input_event list \<Rightarrow> bool" where
  "was_admitted res = (case res of Inl _ \<Rightarrow> False | Inr (r, _) \<Rightarrow> ir_state r = Admitted)"

section \<open>Properties\<close>

lemma admit_admitted_iff:
  assumes "ac_enabled (ia_config a)" and "\<not> ia_poisoned a"
  shows "was_admitted (fst (admit now a r)) \<longleftrightarrow>
    \<not> (ac_reject_empty (ia_config a) \<and> str_trim (ir_content r) = []) \<and>
    (0 < ac_max_length (ia_config a) \<longrightarrow> length (ir_content r) \<le> ac_max_length (ia_config a)) \<and>
    (ac_deduplicate (ia_config a) \<longrightarrow> ir_fingerprint r \<notin> set (ia_seen a))"
  using assms
  by (auto simp: admit_def Let_def was_admitted_def rejected_with_def reject_def update_state_def)

text \<open>The decision of \<open>admit\<close>. An enabled pipeline admits an input exactly when it is not blank
  (if blanks are rejected), not longer in bytes than the limit (if there is one) and its fingerprint
  is new (if inputs are deduplicated); the record then is \<open>Admitted\<close> with events \<open>Submitted\<close>,
  \<open>Admitted\<close>, and otherwise \<open>Rejected\<close> with a reason and events \<open>Submitted\<close>, \<open>Rejected\<close>.\<close>

theorem admit_decision:
  assumes "ac_enabled (ia_config a)" and "\<not> ia_poisoned a"
  shows "\<exists>r' evs. fst (admit now a r) = Inr (r', evs) \<and>
    ir_state r' = (if \<not> (ac_reject_empty (ia_config a) \<and> str_trim (ir_content r) = []) \<and>
        (0 < ac_max_length (ia_config a) \<longrightarrow> length (ir_content r) \<le> ac_max_length (ia_config a)) \<and>
        (ac_deduplicate (ia_config a) \<longrightarrow> ir_fingerprint r \<notin> set (ia_seen a))
      then Admitted else Rejected) \<and>
    map event_input_id evs = [ir_id r, ir_id r] \<and>
    (if ir_state r' = Admitted then last evs = EvAdmitted (ir_id r) now
     else \<exists>reason. ir_rejection_reason r' = Some reason \<and>
       last evs = EvRejected (ir_id r) reason now)"
  using assms
  by (auto simp: admit_def Let_def rejected_with_def reject_def update_state_def)

lemma admit_decision_witness:
  "\<exists>r' evs. fst (admit 5 (admission_new admission_config_default)
      (input_record_new (\<lambda>_. 3) ''i'' 4 ''s'' ''hi'')) = Inr (r', evs) \<and> ir_state r' = Admitted"
proof -
  have t: "str_trim ''hi'' \<noteq> []" by code_simp
  show ?thesis
    using admit_decision [of "admission_new admission_config_default" 5
        "input_record_new (\<lambda>_. 3) ''i'' 4 ''s'' ''hi''"] t
    by (auto simp: admission_new_def admission_config_default_def input_record_new_def)
qed

lemma admit_seen:
  assumes "ia_config a = admission_config_default" and "\<not> ia_poisoned a"
  shows "ia_config (snd (admit now a r)) = admission_config_default"
    and "\<not> ia_poisoned (snd (admit now a r))"
    and "set (ia_seen a) \<subseteq> set (ia_seen (snd (admit now a r)))"
    and "str_trim (ir_content r) \<noteq> [] \<Longrightarrow> ir_fingerprint r \<in> set (ia_seen (snd (admit now a r)))"
  using assms by (auto simp: admit_def Let_def admission_config_default_def)

text \<open>Deduplication is neither per session nor forgetful. With the default configuration, after a
  non-blank content was submitted in one session, any later submission of the same content in any
  session is not admitted, whatever came in between.\<close>

theorem duplicate_rejected_across_sessions:
  assumes "str_trim content \<noteq> []"
  shows "\<not> was_admitted (last (admit_all hash (admission_new admission_config_default)
      ((f1, t1, s1, content) # between @ [(f2, t2, s2, content)])))"
proof -
  let ?a = "snd (admit t1 (admission_new admission_config_default)
      (input_record_new hash f1 t1 s1 content))"
  have new: "ia_config (admission_new admission_config_default) = admission_config_default"
    "\<not> ia_poisoned (admission_new admission_config_default)"
    by (simp_all add: admission_new_def)
  have *: "\<not> was_admitted (last (admit_all hash a (xs @ [(f2, t2, s2, content)])))"
    if "ia_config a = admission_config_default" "\<not> ia_poisoned a"
      "hash (str_trim content) \<in> set (ia_seen a)" for a xs
    using that
  proof (induction xs arbitrary: a)
    case Nil
    let ?r = "input_record_new hash f2 t2 s2 content"
    have "\<not> was_admitted (fst (admit t2 a ?r))"
      using Nil admit_admitted_iff [of a t2 ?r]
      by (auto simp: admission_config_default_def input_record_new_def)
    then show ?case by (simp add: split_beta)
  next
    case (Cons x xs)
    obtain f t s c where x: "x = (f, t, s, c)" by (metis prod.collapse)
    have "admit_all hash a' (xs @ [(f2, t2, s2, content)]) \<noteq> []" for a'
      by (cases xs) (auto simp: split_beta)
    then show ?case
      using Cons.IH [of "snd (admit t a (input_record_new hash f t s c))"] Cons.prems x
        admit_seen [OF Cons.prems(1,2), where now = t and r = "input_record_new hash f t s c"]
      by (auto simp: split_beta)
  qed
  have "admit_all hash ?a (between @ [(f2, t2, s2, content)]) \<noteq> []"
    by (cases between) (auto simp: split_beta)
  then show ?thesis
    using * [of ?a between] admit_seen [OF new, where now = t1 and r = "input_record_new hash f1 t1 s1 content"] assms
    by (simp add: split_beta input_record_new_def)
qed

lemma duplicate_rejected_across_sessions_witness:
  "\<not> was_admitted (last (admit_all (\<lambda>s. of_nat (length s)) (admission_new admission_config_default)
      [(''1'', 1, ''session-a'', ''yes''), (''2'', 2, ''session-b'', ''yes'')]))"
proof -
  have "str_trim ''yes'' \<noteq> []" by code_simp
  from duplicate_rejected_across_sessions [OF this, of _ "''1''" 1 "''session-a''" "[]"]
  show ?thesis by simp
qed

end
