(* ===== verification/Tool_Output.thy ===== *)
theory Tool_Output
  imports Rust_Str
begin

text \<open>
  Tool output truncation (\<open>behest-runtime/src/tool_output.rs\<close>). Writing the full output is an effect:
  \<open>write_ok\<close> says whether creating the directory and writing the file both succeed, and \<open>join\<close> is
  \<open>Path::join\<close> on displayed paths.
\<close>

definition default_max_lines :: usize where "default_max_lines = 2000"
definition default_max_bytes :: usize where "default_max_bytes = 50 * 1024"

record tool_output_config =
  to_max_lines :: "usize option"
  to_max_bytes :: "usize option"
  to_output_dir :: "string option"

definition tool_output_config_default :: tool_output_config where
  "tool_output_config_default =
     \<lparr>to_max_lines = Some default_max_lines, to_max_bytes = Some default_max_bytes,
      to_output_dir = None\<rparr>"

record truncation_result =
  trunc_text :: string
  was_truncated :: bool
  original_lines :: usize
  original_bytes :: usize
  saved_path :: "string option"

definition unwrap_or :: "'a \<Rightarrow> 'a option \<Rightarrow> 'a" where
  "unwrap_or d x = (case x of Some a \<Rightarrow> a | None \<Rightarrow> d)"

definition tool_file :: "(string \<Rightarrow> string \<Rightarrow> string) \<Rightarrow> string \<Rightarrow> string \<Rightarrow> string" where
  "tool_file join dir i = join dir (''tool_'' @ i)"

definition omitted_lines :: "usize \<Rightarrow> usize" where
  "omitted_lines n =
     saturating_sub n (if n > 4 then div_ceil (min n default_max_lines) 2 * 2 else min n 1)"

definition truncation_marker ::
  "(string \<Rightarrow> string \<Rightarrow> string) \<Rightarrow> usize \<Rightarrow> usize \<Rightarrow> string option \<Rightarrow> string option \<Rightarrow> string" where
  "truncation_marker join total_lines total_bytes ident output_dir =
     (let marker = [newline] @ ''... output truncated ('' @ show_nat (omitted_lines total_lines)
        @ '' lines omitted, '' @ show_nat total_bytes @ '' bytes total) ...''
      in case (output_dir, ident) of
           (Some dir, Some i) \<Rightarrow>
             marker @ [newline] @ ''Full output saved to: '' @ tool_file join dir i
         | _ \<Rightarrow> marker)"

text \<open>Head and tail of the allowed lines, or a prefix when fewer than five lines are allowed.\<close>

definition sampled_text ::
  "(string \<Rightarrow> string \<Rightarrow> string) \<Rightarrow> string \<Rightarrow> tool_output_config \<Rightarrow> string option \<Rightarrow> string" where
  "sampled_text join out cfg ident =
     (let lines = str_lines out; n = length lines;
          max_lines = unwrap_or usize_max (to_max_lines cfg);
          max_bytes = unwrap_or usize_max (to_max_bytes cfg);
          line_budget = min max_lines n;
          marker = truncation_marker join n (length out) ident (to_output_dir cfg)
      in if line_budget > 4
         then let head_lines = div_ceil line_budget 2; tail_lines = line_budget div 2;
                  head = take head_lines lines;
                  tail = rev (take tail_lines (rev lines))
              in str_join [newline] head @ [newline] @ marker
                 @ (if tail \<noteq> [] then [newline] @ str_join [newline] tail else [])
         else take_chars (min max_bytes (length out)) out @ [newline] @ marker)"

definition bytes_marker :: "usize \<Rightarrow> usize \<Rightarrow> string" where
  "bytes_marker n b = [newline] @ ''... output truncated ('' @ show_nat n @ '' lines, '' @ show_nat b
     @ '' bytes total) ...'' @ [newline]"

definition bound_bytes :: "string \<Rightarrow> usize \<Rightarrow> usize \<Rightarrow> usize \<Rightarrow> string" where
  "bound_bytes txt max_bytes n b =
     (if length txt > max_bytes
      then let head_bytes = max_bytes * 3 div 4; tail_bytes = max_bytes - head_bytes
           in take_chars head_bytes txt @ bytes_marker n b @ take_last_chars tail_bytes txt
      else txt)"

definition truncate_output ::
  "(string \<Rightarrow> string \<Rightarrow> string) \<Rightarrow> bool \<Rightarrow> string \<Rightarrow> tool_output_config \<Rightarrow> string option \<Rightarrow> truncation_result" where
  "truncate_output join write_ok out cfg ident =
     (let n = length (str_lines out); b = length out;
          max_lines = unwrap_or usize_max (to_max_lines cfg);
          max_bytes = unwrap_or usize_max (to_max_bytes cfg)
      in if n \<le> max_lines \<and> b \<le> max_bytes
         then \<lparr>trunc_text = out, was_truncated = False, original_lines = n, original_bytes = b,
               saved_path = None\<rparr>
         else \<lparr>trunc_text = bound_bytes (sampled_text join out cfg ident) max_bytes n b,
               was_truncated = True, original_lines = n, original_bytes = b,
               saved_path = (case (to_output_dir cfg, ident) of
                  (Some dir, Some i) \<Rightarrow> if write_ok then Some (tool_file join dir i) else None
                | _ \<Rightarrow> None)\<rparr>)"

section \<open>Properties\<close>

text \<open>Outputs within both limits are passed through unchanged and never saved; any other output is
  flagged as truncated, and is saved exactly when a directory and an identifier are given and writing
  succeeds.\<close>

theorem truncate_output_flag:
  "let r = truncate_output join ok out cfg ident;
       fits = (length (str_lines out) \<le> unwrap_or usize_max (to_max_lines cfg) \<and>
               length out \<le> unwrap_or usize_max (to_max_bytes cfg))
   in was_truncated r = (\<not> fits) \<and> (if fits then trunc_text r = out else True) \<and>
      (saved_path r \<noteq> None) = (\<not> fits \<and> to_output_dir cfg \<noteq> None \<and> ident \<noteq> None \<and> ok) \<and>
      original_lines r = length (str_lines out) \<and> original_bytes r = length out"
  by (auto simp: truncate_output_def Let_def split: option.splits)

text \<open>A result that had to be cut by bytes always carries the whole marker beyond the limit when the
  text is ASCII.\<close>

lemma ascii_take_last_chars: "ascii s \<Longrightarrow> take_last_chars n s = rev (take n (rev s))"
  by (simp only: take_last_chars_def ascii_chars rev_map take_map concat_map_singleton
      map_ident)

lemma bound_bytes_length:
  assumes "ascii txt" and "max_bytes < length txt"
  shows "length (bound_bytes txt max_bytes n b) = max_bytes + length (bytes_marker n b)"
proof -
  have h: "max_bytes * 3 div 4 \<le> max_bytes" by linarith
  then show ?thesis using assms
    by (simp add: bound_bytes_def Let_def ascii_take_chars ascii_take_last_chars)
qed

text \<open>The byte limit is not a bound on the result. When an ASCII text is cut because it exceeds
  \<open>max_bytes\<close>, the result is longer than \<open>max_bytes\<close> by exactly the length of the marker.\<close>

theorem byte_limit_exceeded_by_marker:
  assumes "ascii txt" and "max_bytes < length txt"
  shows "max_bytes < length (bound_bytes txt max_bytes n b) \<and>
    length (bound_bytes txt max_bytes n b) = max_bytes + length (bytes_marker n b)"
  using bound_bytes_length [OF assms] by (simp add: bytes_marker_def)

lemma byte_limit_exceeded_by_marker_witness:
  "10 < length (bound_bytes (replicate 11 (CHR ''a'')) 10 1 11)"
  by (rule byte_limit_exceeded_by_marker [THEN conjunct1]) (simp_all add: ascii_def list_all_iff)

text \<open>The marker misreports. The count of omitted lines it prints depends on the default of 2000
  lines, not on the configured limit: an output of at most 2000 (and more than four) lines is reported
  with no line omitted, however few lines the configuration keeps.\<close>

theorem omitted_lines_ignores_limit:
  assumes "4 < n" and "n \<le> default_max_lines"
  shows "truncation_marker join n b None None =
    [newline] @ ''... output truncated (0 lines omitted, '' @ show_nat b @ '' bytes total) ...''"
proof -
  have "n \<le> div_ceil n 2 * 2" using div_ceil_bounds [of 2 n] by (simp add: mult.commute)
  then have "omitted_lines n = 0"
    using assms by (simp add: omitted_lines_def saturating_sub_def min_absorb1)
  moreover have "show_nat 0 = ''0''" by code_simp
  ultimately show ?thesis by (simp add: truncation_marker_def)
qed

lemma omitted_lines_ignores_limit_witness:
  "truncation_marker (\<lambda>d f. d) 100 500 None None =
    [newline] @ ''... output truncated (0 lines omitted, '' @ show_nat 500 @ '' bytes total) ...''"
  by (rule omitted_lines_ignores_limit) (simp_all add: default_max_lines_def)

end
