(* ===== verification/Runtime_Policy.thy ===== *)
theory Runtime_Policy
  imports Doom_Loop Input_Admission Tool_Output
begin

text \<open>
  The runtime policy and its parts (\<open>behest-runtime/src/policy.rs\<close>). Durations are nanoseconds.
\<close>

section \<open>Compaction\<close>

record compaction_config =
  cfg_auto :: bool
  cfg_prune :: bool
  cfg_buffer_tokens :: usize
  cfg_keep_tokens :: usize
  cfg_tail_turns :: usize
  cfg_model :: "model_name option"
  cfg_provider :: "provider_id option"
  cfg_circuit_breaker_threshold :: u32

definition compaction_config_default :: compaction_config where
  "compaction_config_default =
     \<lparr>cfg_auto = True, cfg_prune = False, cfg_buffer_tokens = 20000, cfg_keep_tokens = 8000,
      cfg_tail_turns = 2, cfg_model = None, cfg_provider = None,
      cfg_circuit_breaker_threshold = 3\<rparr>"

definition with_auto_disabled :: "compaction_config \<Rightarrow> compaction_config" where
  "with_auto_disabled c = c\<lparr>cfg_auto := False\<rparr>"

definition with_prune :: "compaction_config \<Rightarrow> compaction_config" where
  "with_prune c = c\<lparr>cfg_prune := True\<rparr>"

definition with_buffer_tokens :: "compaction_config \<Rightarrow> usize \<Rightarrow> compaction_config" where
  "with_buffer_tokens c n = c\<lparr>cfg_buffer_tokens := n\<rparr>"

definition with_keep_tokens :: "compaction_config \<Rightarrow> usize \<Rightarrow> compaction_config" where
  "with_keep_tokens c n = c\<lparr>cfg_keep_tokens := n\<rparr>"

definition with_tail_turns :: "compaction_config \<Rightarrow> usize \<Rightarrow> compaction_config" where
  "with_tail_turns c n = c\<lparr>cfg_tail_turns := n\<rparr>"

definition with_compaction_model :: "compaction_config \<Rightarrow> model_name \<Rightarrow> compaction_config" where
  "with_compaction_model c m = c\<lparr>cfg_model := Some m\<rparr>"

definition with_compaction_provider :: "compaction_config \<Rightarrow> provider_id \<Rightarrow> compaction_config" where
  "with_compaction_provider c p = c\<lparr>cfg_provider := Some p\<rparr>"

definition with_circuit_breaker_threshold :: "compaction_config \<Rightarrow> u32 \<Rightarrow> compaction_config" where
  "with_circuit_breaker_threshold c n = c\<lparr>cfg_circuit_breaker_threshold := n\<rparr>"

text \<open>What the compaction service reports (\<open>compaction/mod.rs\<close>).\<close>

record compaction_result =
  cres_summary_text :: string
  cres_user_id :: uuid
  cres_summary_id :: uuid
  cres_tail_start_id :: uuid
  cres_tokens_saved :: usize

section \<open>Prompt caching\<close>

record prompt_cache_config =
  pcc_enabled :: bool
  pcc_default_ttl :: cache_ttl
  pcc_auto_breakpoints :: bool
  pcc_min_system_tokens :: usize

definition prompt_cache_default :: prompt_cache_config where
  "prompt_cache_default =
     \<lparr>pcc_enabled = True, pcc_default_ttl = FiveMinutes, pcc_auto_breakpoints = True,
      pcc_min_system_tokens = 1024\<rparr>"

definition prompt_cache_disabled :: prompt_cache_config where
  "prompt_cache_disabled = prompt_cache_default\<lparr>pcc_enabled := False\<rparr>"

definition with_default_ttl :: "prompt_cache_config \<Rightarrow> cache_ttl \<Rightarrow> prompt_cache_config" where
  "with_default_ttl c t = c\<lparr>pcc_default_ttl := t\<rparr>"

definition with_auto_breakpoints :: "prompt_cache_config \<Rightarrow> bool \<Rightarrow> prompt_cache_config" where
  "with_auto_breakpoints c b = c\<lparr>pcc_auto_breakpoints := b\<rparr>"

definition with_min_system_tokens :: "prompt_cache_config \<Rightarrow> usize \<Rightarrow> prompt_cache_config" where
  "with_min_system_tokens c n = c\<lparr>pcc_min_system_tokens := n\<rparr>"

section \<open>The policy\<close>

record runtime_policy =
  max_iterations :: usize
  max_tokens :: "usize option"
  max_tool_concurrency :: usize
  tool_timeout :: duration
  provider_timeout :: duration
  continue_on_tool_failure :: bool
  retry_on_provider_error :: bool
  rp_max_retries :: usize
  rp_compaction :: compaction_config
  rp_tool_output :: tool_output_config
  rp_doom_loop :: doom_loop_config
  rp_input_admission :: admission_config
  max_output_recovery_attempts :: usize
  rp_prompt_cache :: prompt_cache_config

definition seconds :: "nat \<Rightarrow> duration" where
  "seconds n = n * 1000000000"

definition runtime_policy_default :: runtime_policy where
  "runtime_policy_default =
     \<lparr>max_iterations = 10, max_tokens = None, max_tool_concurrency = 4, tool_timeout = seconds 30,
      provider_timeout = seconds 60, continue_on_tool_failure = True, retry_on_provider_error = True,
      rp_max_retries = 2, rp_compaction = compaction_config_default,
      rp_tool_output = tool_output_config_default, rp_doom_loop = doom_loop_config_default,
      rp_input_admission = admission_config_default, max_output_recovery_attempts = 3,
      rp_prompt_cache = prompt_cache_default\<rparr>"

definition with_max_iterations :: "runtime_policy \<Rightarrow> usize \<Rightarrow> runtime_policy" where
  "with_max_iterations p n = p\<lparr>max_iterations := n\<rparr>"

definition with_max_tokens :: "runtime_policy \<Rightarrow> usize \<Rightarrow> runtime_policy" where
  "with_max_tokens p n = p\<lparr>max_tokens := Some n\<rparr>"

definition with_max_tool_concurrency :: "runtime_policy \<Rightarrow> usize \<Rightarrow> runtime_policy" where
  "with_max_tool_concurrency p n = p\<lparr>max_tool_concurrency := max n 1\<rparr>"

definition with_tool_timeout :: "runtime_policy \<Rightarrow> duration \<Rightarrow> runtime_policy" where
  "with_tool_timeout p d = p\<lparr>tool_timeout := d\<rparr>"

definition with_provider_timeout :: "runtime_policy \<Rightarrow> duration \<Rightarrow> runtime_policy" where
  "with_provider_timeout p d = p\<lparr>provider_timeout := d\<rparr>"

definition with_continue_on_tool_failure :: "runtime_policy \<Rightarrow> bool \<Rightarrow> runtime_policy" where
  "with_continue_on_tool_failure p b = p\<lparr>continue_on_tool_failure := b\<rparr>"

definition with_retry_on_provider_error :: "runtime_policy \<Rightarrow> bool \<Rightarrow> runtime_policy" where
  "with_retry_on_provider_error p b = p\<lparr>retry_on_provider_error := b\<rparr>"

definition with_max_retries :: "runtime_policy \<Rightarrow> usize \<Rightarrow> runtime_policy" where
  "with_max_retries p n = p\<lparr>rp_max_retries := n\<rparr>"

definition with_compaction :: "runtime_policy \<Rightarrow> compaction_config \<Rightarrow> runtime_policy" where
  "with_compaction p c = p\<lparr>rp_compaction := c\<rparr>"

definition with_tool_output :: "runtime_policy \<Rightarrow> tool_output_config \<Rightarrow> runtime_policy" where
  "with_tool_output p c = p\<lparr>rp_tool_output := c\<rparr>"

definition with_doom_loop :: "runtime_policy \<Rightarrow> doom_loop_config \<Rightarrow> runtime_policy" where
  "with_doom_loop p c = p\<lparr>rp_doom_loop := c\<rparr>"

definition with_input_admission :: "runtime_policy \<Rightarrow> admission_config \<Rightarrow> runtime_policy" where
  "with_input_admission p c = p\<lparr>rp_input_admission := c\<rparr>"

definition with_max_output_recovery_attempts :: "runtime_policy \<Rightarrow> usize \<Rightarrow> runtime_policy" where
  "with_max_output_recovery_attempts p n = p\<lparr>max_output_recovery_attempts := n\<rparr>"

definition with_prompt_cache :: "runtime_policy \<Rightarrow> prompt_cache_config \<Rightarrow> runtime_policy" where
  "with_prompt_cache p c = p\<lparr>rp_prompt_cache := c\<rparr>"

end
