(* ===== verification/Stream_Accumulator.thy ===== *)
theory Stream_Accumulator
  imports Core_Errors "HOL-Library.AList" "HOL-Library.Multiset"
begin

text \<open>
  The accumulator of stream deltas (\<open>behest-runtime/src/accumulator.rs\<close>). Parameters: \<open>parse\<close> is
  \<open>serde_json::from_str\<close>, and \<open>order\<close> the order in which the \<open>HashMap\<close> of calls is iterated, about
  which only that it is a permutation is known.
\<close>

record tool_call_accumulator =
  tca_id :: string
  tca_name :: string
  tca_arguments :: string

record stream_accumulator =
  sa_text :: string
  sa_calls :: "(string \<times> tool_call_accumulator) list"

definition accumulator_new :: stream_accumulator where
  "accumulator_new = \<lparr>sa_text = [], sa_calls = []\<rparr>"

definition append_text :: "stream_accumulator \<Rightarrow> string \<Rightarrow> stream_accumulator" where
  "append_text a delta = a\<lparr>sa_text := sa_text a @ delta\<rparr>"

definition start_tool_call :: "stream_accumulator \<Rightarrow> string \<Rightarrow> string \<Rightarrow> stream_accumulator" where
  "start_tool_call a i n =
     a\<lparr>sa_calls := AList.update i \<lparr>tca_id = i, tca_name = n, tca_arguments = []\<rparr> (sa_calls a)\<rparr>"

definition append_tool_arguments :: "stream_accumulator \<Rightarrow> string \<Rightarrow> string \<Rightarrow> stream_accumulator" where
  "append_tool_arguments a i delta =
     (case map_of (sa_calls a) i of
        None \<Rightarrow> a
      | Some tc \<Rightarrow> a\<lparr>sa_calls :=
          AList.update i (tc\<lparr>tca_arguments := tca_arguments tc @ delta\<rparr>) (sa_calls a)\<rparr>)"

type_synonym json_parser = "string \<Rightarrow> json option"
type_synonym call_order = "tool_call_accumulator list \<Rightarrow> tool_call_accumulator list"

definition finished_call :: "json_parser \<Rightarrow> tool_call_accumulator \<Rightarrow> tool_call" where
  "finished_call parse tc =
     tool_call_new (tca_id tc) (tca_name tc)
       (case parse (tca_arguments tc) of Some v \<Rightarrow> v | None \<Rightarrow> JNull)"

definition accumulated_calls :: "json_parser \<Rightarrow> call_order \<Rightarrow> stream_accumulator \<Rightarrow> tool_call list" where
  "accumulated_calls parse order a = map (finished_call parse) (order (map snd (sa_calls a)))"

definition accumulator_to_message ::
  "json_parser \<Rightarrow> call_order \<Rightarrow> stream_accumulator \<Rightarrow> message" where
  "accumulator_to_message parse order a =
     (let calls = accumulated_calls parse order a
      in if calls = [] \<and> sa_text a = [] then Assistant [] []
         else if calls = [] then assistant_text (sa_text a)
         else Assistant (if sa_text a = [] then [] else [part_text (sa_text a)]) calls)"

definition accumulator_clear :: "stream_accumulator \<Rightarrow> stream_accumulator" where
  "accumulator_clear a = accumulator_new"

text \<open>What the streaming call of the run loop feeds to the accumulator for each event.\<close>

fun accumulate :: "stream_accumulator \<Rightarrow> chat_stream_event \<Rightarrow> stream_accumulator" where
  "accumulate a (StreamText d) = append_text a d"
| "accumulate a (StreamToolStarted i n) = start_tool_call a i n"
| "accumulate a (StreamToolArguments i d) = append_tool_arguments a i d"
| "accumulate a (StreamToolCompleted c) = a"
| "accumulate a (StreamFinished f u) = a"
| "accumulate a (StreamStarted p m) = a"

definition accumulate_all :: "chat_stream_event list \<Rightarrow> stream_accumulator" where
  "accumulate_all evs = foldl accumulate accumulator_new evs"

section \<open>What is accumulated\<close>

definition starts :: "string \<Rightarrow> chat_stream_event \<Rightarrow> bool" where
  "starts i e = (case e of StreamToolStarted j _ \<Rightarrow> j = i | _ \<Rightarrow> False)"

definition argument_deltas :: "string \<Rightarrow> chat_stream_event list \<Rightarrow> string" where
  "argument_deltas i evs = concat (map (\<lambda>e. case e of
     StreamToolArguments j d \<Rightarrow> if j = i then d else [] | _ \<Rightarrow> []) evs)"

definition text_deltas :: "chat_stream_event list \<Rightarrow> string" where
  "text_deltas evs = concat (map (\<lambda>e. case e of StreamText d \<Rightarrow> d | _ \<Rightarrow> []) evs)"

lemma foldl_text: "sa_text (foldl accumulate a evs) = sa_text a @ text_deltas evs"
proof (induction evs arbitrary: a)
  case (Cons e evs)
  have "sa_text (accumulate a e) = sa_text a @ (case e of StreamText d \<Rightarrow> d | _ \<Rightarrow> [])"
    by (cases e) (auto simp: append_text_def start_tool_call_def append_tool_arguments_def
        split: option.splits)
  with Cons show ?case by (simp add: text_deltas_def)
qed (simp add: text_deltas_def)

lemma distinct_accumulate:
  "distinct (map fst (sa_calls a)) \<Longrightarrow> distinct (map fst (sa_calls (accumulate a e)))"
  by (cases e) (auto simp: append_text_def start_tool_call_def append_tool_arguments_def
      distinct_update split: option.splits)

lemma distinct_foldl_accumulate:
  "distinct (map fst (sa_calls a)) \<Longrightarrow> distinct (map fst (sa_calls (foldl accumulate a evs)))"
  by (induction evs arbitrary: a) (auto simp: distinct_accumulate)

lemma lookup_accumulate:
  "\<not> starts i e \<Longrightarrow> map_of (sa_calls (accumulate a e)) i =
     map_option (\<lambda>tc. tc\<lparr>tca_arguments := tca_arguments tc @ argument_deltas i [e]\<rparr>)
       (map_of (sa_calls a) i)"
  by (cases e) (auto simp: append_text_def start_tool_call_def append_tool_arguments_def
      argument_deltas_def starts_def update_conv' map_option.identity split: option.splits)

lemma lookup_foldl_accumulate:
  assumes "\<forall>e\<in>set evs. \<not> starts i e" and "map_of (sa_calls a) i = Some tc"
  shows "map_of (sa_calls (foldl accumulate a evs)) i =
    Some (tc\<lparr>tca_arguments := tca_arguments tc @ argument_deltas i evs\<rparr>)"
  using assms
proof (induction evs arbitrary: a tc)
  case (Cons e evs)
  have "map_of (sa_calls (accumulate a e)) i =
      Some (tc\<lparr>tca_arguments := tca_arguments tc @ argument_deltas i [e]\<rparr>)"
    using Cons.prems lookup_accumulate [of i e a] by simp
  from Cons.IH [OF _ this] Cons.prems(1) show ?case by (simp add: argument_deltas_def)
qed (simp add: argument_deltas_def)

definition ids_match :: "stream_accumulator \<Rightarrow> bool" where
  "ids_match a \<longleftrightarrow> (\<forall>i tc. map_of (sa_calls a) i = Some tc \<longrightarrow> tca_id tc = i)"

lemma ids_match_accumulate: "ids_match a \<Longrightarrow> ids_match (accumulate a e)"
  by (cases e) (auto simp: ids_match_def append_text_def start_tool_call_def
      append_tool_arguments_def update_conv' split: option.splits if_splits)

lemma ids_match_foldl: "ids_match a \<Longrightarrow> ids_match (foldl accumulate a evs)"
  by (induction evs arbitrary: a) (auto simp: ids_match_accumulate)

lemma filter_id_singleton:
  assumes "distinct (map fst xs)" and "\<And>i tc. map_of xs i = Some tc \<Longrightarrow> tca_id tc = i"
    and "map_of xs i = Some tc"
  shows "filter (\<lambda>t. tca_id t = i) (map snd xs) = [tc]"
  using assms
proof (induction xs)
  case (Cons x xs)
  obtain j t where x: "x = (j, t)" by fastforce
  have ids: "map_of xs k = Some u \<Longrightarrow> tca_id u = k" for k u
  proof -
    assume u: "map_of xs k = Some u"
    then have "k \<noteq> j" using Cons.prems(1) x by (auto dest: map_of_SomeD intro: rev_image_eqI)
    with u Cons.prems(2) [of k u] x show "tca_id u = k" by simp
  qed
  have t: "tca_id t = j" using Cons.prems(2) [of j t] x by simp
  show ?case
  proof (cases "j = i")
    case True
    then have "tc = t" "i \<notin> fst ` set xs" using Cons.prems(1,3) x by auto
    moreover have "tca_id u \<noteq> i" if u: "u \<in> snd ` set xs" for u
    proof -
      obtain p where p: "u = snd p" "p \<in> set xs" using u by (rule imageE)
      then have "map_of xs (fst p) = Some u" using Cons.prems(1) x by simp
      then have "tca_id u = fst p" by (rule ids)
      then show ?thesis using \<open>i \<notin> fst ` set xs\<close> p(2) by auto
    qed
    ultimately show ?thesis using x t True by (auto simp: filter_empty_conv)
  next
    case False
    have "map_of xs i = Some tc" "distinct (map fst xs)" using Cons.prems(1,3) x False by simp_all
    from Cons.IH [OF this(2) ids this(1)] show ?thesis using x t False by simp
  qed
qed simp



text \<open>The order of the calls is not the model's. Two iteration orders of the same map give messages
  whose tool calls are in different orders.\<close>

theorem call_order_unspecified:
  "\<exists>order order' evs. (\<forall>xs. mset (order xs) = mset xs) \<and> (\<forall>xs. mset (order' xs) = mset xs) \<and>
     tool_calls (accumulator_to_message (\<lambda>_. None) order (accumulate_all evs)) \<noteq>
     tool_calls (accumulator_to_message (\<lambda>_. None) order' (accumulate_all evs))"
  by (intro exI [of _ id] exI [of _ rev] exI [of _ "[StreamToolStarted ''1'' ''a'', StreamToolStarted ''2'' ''b'']"])
    (simp add: accumulator_to_message_def accumulated_calls_def accumulate_all_def accumulator_new_def
      start_tool_call_def finished_call_def tool_call_new_def)

end
