(* ===== verification/Agent_Runtime.thy ===== *)
theory Agent_Runtime
  imports Loop_Monad Turn_Machine Runtime_Policy Circuit_Breaker Stream_Accumulator
begin

text \<open>
  The agent runtime's helpers (\<open>behest-runtime/src/agent.rs\<close>) and its model call
  (\<open>call_model\<close>, \<open>call_streaming\<close> and \<open>call_complete\<close> of \<open>run_loop.rs\<close>). What the runtime reaches
  through trait objects and services (stores, clock, context pipeline, provider, compaction, tools)
  acts on an environment of arbitrary type \<open>'e\<close>: each is a field of \<open>runtime\<close>, a function of the
  environment. Every event the runtime emits is appended to \<open>ls_events\<close>; a slow receiver may lose
  events of the broadcast channel, which is outside the model.
\<close>

section \<open>The runtime\<close>

record tool_execution_outcome =
  teo_call :: tool_call
  teo_output :: "tool_error + json"
  teo_message :: message

text \<open>A provider's stream, as received: an item is \<open>None\<close> when waiting for it timed out. The
  opening call and the complete call are given the timeout, and are \<open>None\<close> when it elapsed.\<close>

type_synonym stream_items = "(provider_error + chat_stream_event) option list"

record ('e, 'm) runtime =
  rt_policy :: runtime_policy
  rt_provider_id :: provider_id
  rt_caps :: provider_capabilities
  rt_hash :: arg_hash
  rt_parse :: json_parser
  rt_order :: call_order
  rt_dbg :: turn_printer
  rt_instant :: "'e \<Rightarrow> nat"
  rt_now :: "'e \<Rightarrow> timestamp \<times> 'e"
  rt_save_snapshot :: "(snapshot \<Rightarrow> 'e \<Rightarrow> (runtime_error + unit) \<times> 'e) option"
  rt_delete_snapshot :: "(run_id \<Rightarrow> 'e \<Rightarrow> (runtime_error + unit) \<times> 'e) option"
  rt_update_status :: "run_id \<Rightarrow> run_status \<Rightarrow> 'e \<Rightarrow> (runtime_error + unit) \<times> 'e"
  rt_list_messages :: "uuid \<Rightarrow> 'e \<Rightarrow> (storage_error + 'm) \<times> 'e"
  rt_compact_if_needed ::
    "'m \<Rightarrow> u32 \<Rightarrow> u32 \<Rightarrow> uuid \<Rightarrow> 'e \<Rightarrow> (runtime_error + compaction_result option) \<times> 'e"
  rt_compact_after_overflow ::
    "'m \<Rightarrow> u32 \<Rightarrow> u32 \<Rightarrow> uuid \<Rightarrow> 'e \<Rightarrow> (runtime_error + compaction_result) \<times> 'e"
  rt_build_context ::
    "uuid \<Rightarrow> model_name \<Rightarrow> string option \<Rightarrow> tool_spec list option \<Rightarrow> 'e \<Rightarrow>
     (runtime_error + chat_request) \<times> 'e"
  rt_stream :: "duration \<Rightarrow> chat_request \<Rightarrow> 'e \<Rightarrow> (provider_error + stream_items) option \<times> 'e"
  rt_complete :: "duration \<Rightarrow> chat_request \<Rightarrow> 'e \<Rightarrow> (provider_error + chat_response) option \<times> 'e"
  rt_append_message :: "uuid \<Rightarrow> message \<Rightarrow> 'e \<Rightarrow> (runtime_error + uuid) \<times> 'e"
  rt_execute_batch ::
    "tool_call list \<Rightarrow> uuid \<Rightarrow> uuid \<Rightarrow> 'e \<Rightarrow> (runtime_error + tool_execution_outcome list) \<times> 'e"
  rt_event_stores :: "(agent_event \<Rightarrow> 'e \<Rightarrow> (runtime_error + unit) \<times> 'e) list"

text \<open>The arguments of \<open>run_loop\<close> that the loop does not change.\<close>

record run_args =
  ra_run_id :: run_id
  ra_session_id :: uuid
  ra_request :: run_request
  ra_tool_specs :: "tool_spec list"
  ra_has_tools :: bool

text \<open>The loop's mutable variables, the environment and the emitted events.\<close>

record 'e loop_state =
  ls_env :: 'e
  ls_events :: "agent_event list"
  ls_iteration :: usize
  ls_usage :: token_usage
  ls_finish :: "finish_reason option"
  ls_message :: "message option"
  ls_msg_id :: "uuid option"
  ls_resume :: turn_state
  ls_doom :: doom_loop_detector
  ls_breaker :: runtime_breaker
  ls_recoveries :: u32

type_synonym ('a, 'e) step = "('a, 'e loop_state) act"

section \<open>Effects\<close>

definition attempt :: "('e \<Rightarrow> 'a \<times> 'e) \<Rightarrow> ('a, 'e) step" where
  "attempt f s = (case f (ls_env s) of (r, e') \<Rightarrow> (Proceed r, s\<lparr>ls_env := e'\<rparr>))"

fun question :: "runtime_error + 'a \<Rightarrow> ('a, 'e) step" where
  "question (Inl e) = return_err e"
| "question (Inr x) = ret x"

definition effect :: "('e \<Rightarrow> (runtime_error + 'a) \<times> 'e) \<Rightarrow> ('a, 'e) step" where
  "effect f = seq (attempt f) question"

definition emit :: "('e, 'm) runtime \<Rightarrow> (timestamp \<Rightarrow> agent_event) \<Rightarrow> (unit, 'e) step" where
  "emit rt mk =
     seq (attempt (rt_now rt))
       (\<lambda>t. act_modify (\<lambda>s. s\<lparr>ls_events := ls_events s @ [mk t]\<rparr>))"

definition save_snapshot :: "('e, 'm) runtime \<Rightarrow> run_args \<Rightarrow> turn_state \<Rightarrow> (unit, 'e) step" where
  "save_snapshot rt a st =
     (case rt_save_snapshot rt of
        None \<Rightarrow> ret ()
      | Some save \<Rightarrow>
          seq (attempt (rt_now rt)) (\<lambda>now.
          seq (act_get (\<lambda>s. \<lparr>sn_run_id = ra_run_id a, sn_session_id = ra_session_id a,
                 sn_status = status_for st, sn_iteration = ls_iteration s, sn_current_state = st,
                 sn_total_usage = ls_usage s, sn_last_finish = ls_finish s,
                 sn_assistant_message = ls_message s, sn_assistant_msg_id = ls_msg_id s,
                 sn_request = ra_request a, sn_output_recovery_count = ls_recoveries s,
                 sn_timestamp = now\<rparr>)) (\<lambda>snap.
          effect (save snap))))"

definition delete_snapshot :: "('e, 'm) runtime \<Rightarrow> run_id \<Rightarrow> (unit, 'e) step" where
  "delete_snapshot rt i =
     (case rt_delete_snapshot rt of None \<Rightarrow> ret () | Some del \<Rightarrow> effect (del i))"

definition set_status :: "('e, 'm) runtime \<Rightarrow> run_args \<Rightarrow> run_status \<Rightarrow> (unit, 'e) step" where
  "set_status rt a st = effect (rt_update_status rt (ra_run_id a) st)"

definition fail_run :: "('e, 'm) runtime \<Rightarrow> run_args \<Rightarrow> runtime_error \<Rightarrow> (unit, 'e) step" where
  "fail_run rt a err =
     seq (attempt (rt_update_status rt (ra_run_id a) StFailed)) (\<lambda>_.
     emit rt (EvRunFailed (ra_run_id a) (show_runtime_error err)))"

definition emit_cache_metrics :: "('e, 'm) runtime \<Rightarrow> run_args \<Rightarrow> token_usage \<Rightarrow> (unit, 'e) step" where
  "emit_cache_metrics rt a u =
     (let creation = unwrap_or_zero (cache_creation_input_tokens u);
          rd = unwrap_or_zero (cache_read_input_tokens u);
          cached = unwrap_or_zero (cached_input_tokens u)
      in if creation = 0 \<and> rd = 0 \<and> cached = 0 then ret ()
         else
           seq (attempt (rt_now rt)) (\<lambda>t.
           let ev = EvCacheMetrics (ra_run_id a) creation rd cached t
           in seq (act_modify (\<lambda>s. s\<lparr>ls_events := ls_events s @ [ev]\<rparr>)) (\<lambda>_.
              act_list (\<lambda>store. seq (attempt (store ev)) (\<lambda>_. ret ())) (rt_event_stores rt))))"

section \<open>The model call\<close>

fun extract_assistant_text :: "message \<Rightarrow> string option" where
  "extract_assistant_text (Assistant content _) =
     (let t = concat (List.map_filter (\<lambda>p. case p of Text t _ \<Rightarrow> Some t | _ \<Rightarrow> None) content)
      in if t = [] then None else Some t)"
| "extract_assistant_text _ = None"

fun extract_tool_calls :: "message \<Rightarrow> tool_call list" where
  "extract_tool_calls (Assistant _ calls) = calls"
| "extract_tool_calls _ = []"

fun emit_stream_event :: "('e, 'm) runtime \<Rightarrow> run_args \<Rightarrow> chat_stream_event \<Rightarrow> (unit, 'e) step" where
  "emit_stream_event rt a (StreamText d) = emit rt (EvTextDelta (ra_run_id a) d)"
| "emit_stream_event rt a (StreamToolStarted i n) = emit rt (EvToolCallStarted (ra_run_id a) i n)"
| "emit_stream_event rt a (StreamToolArguments i d) = emit rt (EvToolCallDelta (ra_run_id a) i d)"
| "emit_stream_event rt a (StreamToolCompleted c) = emit rt (EvToolCallCompleted (ra_run_id a) c)"
| "emit_stream_event rt a (StreamFinished f u) = ret ()"
| "emit_stream_event rt a (StreamStarted p m) = ret ()"

fun finish_after ::
  "finish_reason \<times> token_usage option \<Rightarrow> chat_stream_event \<Rightarrow> finish_reason \<times> token_usage option" where
  "finish_after fu (StreamFinished f u) = (f, u)"
| "finish_after fu _ = fu"

type_synonym model_reply = "message \<times> finish_reason \<times> token_usage option"

text \<open>The receiving loop: the accumulator, the finish reason and usage seen, the items to come.\<close>

fun receive ::
  "('e, 'm) runtime \<Rightarrow> run_args \<Rightarrow> stream_accumulator \<Rightarrow> finish_reason \<times> token_usage option \<Rightarrow>
   stream_items \<Rightarrow> (model_reply, 'e) step" where
  "receive rt a acc fu [] = ret (accumulator_to_message (rt_parse rt) (rt_order rt) acc, fu)"
| "receive rt a acc fu (None # _) = return_err (ProviderErr (ProviderTimeout (rt_provider_id rt)))"
| "receive rt a acc fu (Some (Inl e) # _) = return_err (ProviderErr e)"
| "receive rt a acc fu (Some (Inr ev) # items) =
     seq (emit_stream_event rt a ev) (\<lambda>_.
     receive rt a (accumulate acc ev) (finish_after fu ev) items)"

fun provider_result :: "('e, 'm) runtime \<Rightarrow> (provider_error + 'a) option \<Rightarrow> ('a, 'e) step" where
  "provider_result rt None = return_err (ProviderErr (ProviderTimeout (rt_provider_id rt)))"
| "provider_result rt (Some (Inl e)) = return_err (ProviderErr e)"
| "provider_result rt (Some (Inr x)) = ret x"

definition call_streaming ::
  "('e, 'm) runtime \<Rightarrow> run_args \<Rightarrow> chat_request \<Rightarrow> (model_reply, 'e) step" where
  "call_streaming rt a req =
     seq (attempt (rt_stream rt (provider_timeout (rt_policy rt)) req)) (\<lambda>r.
     seq (provider_result rt r) (\<lambda>items.
     receive rt a accumulator_new (Stop, None) items))"

definition call_complete ::
  "('e, 'm) runtime \<Rightarrow> run_args \<Rightarrow> chat_request \<Rightarrow> (model_reply, 'e) step" where
  "call_complete rt a req =
     seq (attempt (rt_complete rt (provider_timeout (rt_policy rt)) req)) (\<lambda>r.
     seq (provider_result rt r) (\<lambda>resp.
     seq (case extract_assistant_text (resp_message resp) of
            None \<Rightarrow> ret ()
          | Some t \<Rightarrow> emit rt (EvTextDelta (ra_run_id a) t)) (\<lambda>_.
     seq (act_list (\<lambda>tc. emit rt (EvToolCallCompleted (ra_run_id a) tc))
            (extract_tool_calls (resp_message resp))) (\<lambda>_.
     ret (resp_message resp, resp_finish resp, resp_usage resp)))))"

fun is_timeout :: "runtime_error \<Rightarrow> bool" where
  "is_timeout (ProviderErr (ProviderTimeout _)) = True"
| "is_timeout _ = False"

definition call_model ::
  "('e, 'm) runtime \<Rightarrow> run_args \<Rightarrow> chat_request \<Rightarrow> (model_reply, 'e) step" where
  "call_model rt a req =
     (if pc_chat_stream (rt_caps rt) then
        seq (act_try (call_streaming rt a req)) (\<lambda>r.
        case r of
          Inr reply \<Rightarrow> ret reply
        | Inl e \<Rightarrow> if is_timeout e then return_err e else call_complete rt a req)
      else call_complete rt a req)"

end
