(* ===== verification/Run_Loop.thy ===== *)
theory Run_Loop
  imports Agent_Runtime
begin

text \<open>
  The turn loop (\<open>behest-runtime/src/run_loop.rs\<close>): one definition per section of the loop body, in
  the order of the code, the body, the loop and the completion after it. The local \<open>resume_from\<close> is
  \<open>ls_resume\<close>: a section runs when it is \<open>CheckingPolicy\<close> or names that section. The loop takes fuel;
  running out of it is \<open>None\<close>.
\<close>

section \<open>CheckingPolicy\<close>

definition budget_spent :: "runtime_policy \<Rightarrow> token_usage \<Rightarrow> bool" where
  "budget_spent p u =
     (case max_tokens p of None \<Rightarrow> False | Some budget \<Rightarrow> of_nat budget \<le> total_tokens u)"

definition policy_outcome :: "runtime_policy \<Rightarrow> usize \<Rightarrow> token_usage \<Rightarrow> turn_outcome" where
  "policy_outcome p i u =
     (if i > max_iterations p then
        OutPolicyExceeded (''iteration '' @ show_nat i @ '' exceeds limit '' @ show_nat (max_iterations p))
      else case max_tokens p of
          Some budget \<Rightarrow>
            if total_tokens u \<ge> of_nat budget
            then OutPolicyExceeded (''token budget '' @ show_nat budget @ '' exceeded: '' @
                   show_nat (unat (total_tokens u)) @ '' used'')
            else OutSuccess
        | None \<Rightarrow> OutSuccess)"

definition fail_with :: "('e, 'm) runtime \<Rightarrow> run_args \<Rightarrow> runtime_error \<Rightarrow> ('a, 'e) step" where
  "fail_with rt a err = seq (fail_run rt a err) (\<lambda>_. return_err err)"

definition act_on_policy ::
  "('e, 'm) runtime \<Rightarrow> run_args \<Rightarrow> usize \<Rightarrow> token_usage \<Rightarrow> (unit, 'e) step" where
  "act_on_policy rt a i u =
     (case resolve (rt_dbg rt) TsCheckingPolicy (policy_outcome (rt_policy rt) i u) of
        ActFail _ \<Rightarrow>
          if i > max_iterations (rt_policy rt)
          then fail_with rt a (IterationLimitExceeded (max_iterations (rt_policy rt)))
          else fail_with rt a (TokenBudgetExceeded (unat (total_tokens u))
                 (case max_tokens (rt_policy rt) of Some b \<Rightarrow> b | None \<Rightarrow> 0))
      | ActContinue _ \<Rightarrow> ret ()
      | _ \<Rightarrow> panic)"

definition checking_policy :: "('e, 'm) runtime \<Rightarrow> run_args \<Rightarrow> (unit, 'e) step" where
  "checking_policy rt a =
     seq (act_get ls_resume) (\<lambda>resume.
     act_when (resume = TsCheckingPolicy) (
       seq (act_modify (\<lambda>s. s\<lparr>ls_iteration := ls_iteration s + 1\<rparr>)) (\<lambda>_.
       seq (save_snapshot rt a TsCheckingPolicy) (\<lambda>_.
       seq (act_get ls_iteration) (\<lambda>i.
       seq (act_get ls_usage) (\<lambda>u.
       act_on_policy rt a i u))))))"

section \<open>BuildingContext\<close>

definition compaction_succeeded :: "(unit, 'e) step" where
  "compaction_succeeded = act_modify (\<lambda>s. s\<lparr>ls_breaker := rb_record_success (ls_breaker s)\<rparr>)"

definition compaction_failed :: "('e, 'm) runtime \<Rightarrow> run_args \<Rightarrow> runtime_error \<Rightarrow> (unit, 'e) step" where
  "compaction_failed rt a e =
     seq (act_get (\<lambda>s. rb_record_failure (rt_instant rt (ls_env s)) (ls_breaker s))) (\<lambda>(opened, b).
     seq (act_modify (\<lambda>s. s\<lparr>ls_breaker := b\<rparr>)) (\<lambda>_.
     seq (act_when opened
            (emit rt (EvCompactionCircuitOpened (ra_run_id a) (rb_consecutive_failures b)))) (\<lambda>_.
     return_err e)))"

definition list_messages :: "('e, 'm) runtime \<Rightarrow> run_args \<Rightarrow> ('m, 'e) step" where
  "list_messages rt a =
     seq (attempt (rt_list_messages rt (ra_session_id a))) (\<lambda>r.
     case r of Inl e \<Rightarrow> return_err (StorageErr e) | Inr records \<Rightarrow> ret records)"

definition proactive_compaction :: "('e, 'm) runtime \<Rightarrow> run_args \<Rightarrow> (unit, 'e) step" where
  "proactive_compaction rt a =
     seq (act_get (\<lambda>s. rb_is_open (ls_breaker s))) (\<lambda>opened.
     act_when (cfg_auto (rp_compaction (rt_policy rt)) \<and> \<not> opened) (
       case (pc_max_input_tokens (rt_caps rt), pc_max_output_tokens (rt_caps rt)) of
         (Some ctx, Some max_out) \<Rightarrow>
           seq (list_messages rt a) (\<lambda>records.
           seq (attempt (rt_compact_if_needed rt records ctx max_out (ra_session_id a))) (\<lambda>r.
           case r of
             Inr (Some _) \<Rightarrow> compaction_succeeded
           | Inr None \<Rightarrow> ret ()
           | Inl e \<Rightarrow> compaction_failed rt a e))
       | _ \<Rightarrow> ret ()))"

definition building_context :: "('e, 'm) runtime \<Rightarrow> run_args \<Rightarrow> (chat_request option, 'e) step" where
  "building_context rt a =
     seq (act_get ls_resume) (\<lambda>resume.
     if resume = TsCheckingPolicy \<or> resume = TsBuildingContext \<or> resume = TsCallingModel then
       seq (save_snapshot rt a TsBuildingContext) (\<lambda>_.
       seq (set_status rt a (status_for TsBuildingContext)) (\<lambda>_.
       seq (proactive_compaction rt a) (\<lambda>_.
       seq (act_get ls_iteration) (\<lambda>i.
       seq (effect (rt_build_context rt (ra_session_id a) (rq_model (ra_request a))
              (if i = 1 then Some (rq_input (ra_request a)) else None)
              (if ra_has_tools a then Some (ra_tool_specs a) else None))) (\<lambda>req.
       seq (emit rt (EvContextBuilt (ra_run_id a) (length (cr_messages req)))) (\<lambda>_.
       ret (Some req)))))))
     else ret None)"

section \<open>CallingModel\<close>

definition reactive_compaction :: "('e, 'm) runtime \<Rightarrow> run_args \<Rightarrow> (unit, 'e) step" where
  "reactive_compaction rt a =
     act_when (cfg_auto (rp_compaction (rt_policy rt))) (
       seq (list_messages rt a) (\<lambda>records.
       seq (attempt (rt_compact_after_overflow rt records
              (case pc_max_input_tokens (rt_caps rt) of Some n \<Rightarrow> n | None \<Rightarrow> 128000)
              (case pc_max_output_tokens (rt_caps rt) of Some n \<Rightarrow> n | None \<Rightarrow> 16384)
              (ra_session_id a))) (\<lambda>r.
       case r of
         Inr _ \<Rightarrow> compaction_succeeded
       | Inl e \<Rightarrow> compaction_failed rt a e)))"

fun model_outcome :: "runtime_error + model_reply \<Rightarrow> turn_outcome" where
  "model_outcome (Inr _) = OutSuccess"
| "model_outcome (Inl (ProviderErr e)) =
     (if is_context_overflow e then OutContextOverflow
      else OutProviderError (show_runtime_error (ProviderErr e)))"
| "model_outcome (Inl e) = OutProviderError (show_runtime_error e)"

definition call_or_compact ::
  "('e, 'm) runtime \<Rightarrow> run_args \<Rightarrow> chat_request \<Rightarrow> (model_reply, 'e) step" where
  "call_or_compact rt a req =
     seq (act_try (call_model rt a req)) (\<lambda>r.
     case resolve (rt_dbg rt) TsCallingModel (model_outcome r) of
       ActContinue _ \<Rightarrow> question r
     | ActCompactAndRetry \<Rightarrow> seq (reactive_compaction rt a) (\<lambda>_. continue_loop)
     | ActFail _ \<Rightarrow> (case r of Inl e \<Rightarrow> return_err e | Inr _ \<Rightarrow> panic)
     | ActBreakLoop \<Rightarrow> panic)"

definition record_usage :: "('e, 'm) runtime \<Rightarrow> run_args \<Rightarrow> token_usage option \<Rightarrow> (unit, 'e) step" where
  "record_usage rt a usg =
     (case usg of
        None \<Rightarrow> ret ()
      | Some u \<Rightarrow>
          seq (act_modify (\<lambda>s. s\<lparr>ls_usage := usage_merge (ls_usage s) u\<rparr>)) (\<lambda>_.
          seq (emit rt (EvUsageRecorded (ra_run_id a) u)) (\<lambda>_.
          emit_cache_metrics rt a u)))"

definition commit_reply :: "('e, 'm) runtime \<Rightarrow> run_args \<Rightarrow> model_reply \<Rightarrow> (unit, 'e) step" where
  "commit_reply rt a reply =
     (case reply of (msg, finish, usg) \<Rightarrow>
        seq (record_usage rt a usg) (\<lambda>_.
        seq (act_modify (\<lambda>s. s\<lparr>ls_finish := Some finish\<rparr>)) (\<lambda>_.
        seq (effect (rt_append_message rt (ra_session_id a) msg)) (\<lambda>msg_id.
        seq (emit rt (EvAssistantMessageCommitted (ra_run_id a) msg_id)) (\<lambda>_.
        act_modify (\<lambda>s. s\<lparr>ls_message := Some msg, ls_msg_id := Some msg_id\<rparr>))))))"

definition start_model :: "('e, 'm) runtime \<Rightarrow> run_args \<Rightarrow> (unit, 'e) step" where
  "start_model rt a =
     seq (act_modify (\<lambda>s. s\<lparr>ls_resume := TsCheckingPolicy\<rparr>)) (\<lambda>_.
     seq (save_snapshot rt a TsCallingModel) (\<lambda>_.
     seq (set_status rt a (status_for TsCallingModel)) (\<lambda>_.
     seq (act_get ls_iteration) (\<lambda>i.
     emit rt (EvModelStarted (ra_run_id a) (rq_provider (ra_request a)) (rq_model (ra_request a)) i)))))"

definition take_request :: "chat_request option \<Rightarrow> (chat_request, 'e) step" where
  "take_request req =
     (case req of
        None \<Rightarrow> return_err (RecoveryFailed ''chat request missing in CallingModel'')
      | Some q \<Rightarrow> ret q)"

definition calling_model ::
  "('e, 'm) runtime \<Rightarrow> run_args \<Rightarrow> chat_request option \<Rightarrow>
   (message option \<times> finish_reason option, 'e) step" where
  "calling_model rt a req =
     seq (act_get ls_resume) (\<lambda>resume.
     seq (act_when (resume = TsCheckingPolicy \<or> resume = TsCallingModel) (
       seq (start_model rt a) (\<lambda>_.
       seq (take_request req) (\<lambda>q.
       seq (call_or_compact rt a q) (\<lambda>reply.
       commit_reply rt a reply))))) (\<lambda>_.
     act_get (\<lambda>s. (ls_message s, ls_finish s))))"

section \<open>ProcessingResponse\<close>

definition continue_text :: string where
  "continue_text = ''Your previous response was truncated due to output length limit. '' @
     ''Please continue from where you left off.''"

definition response_outcome :: "tool_call list \<Rightarrow> finish_reason \<Rightarrow> turn_outcome" where
  "response_outcome calls finish =
     (if calls = [] then OutNoToolCalls
      else if finish \<noteq> ToolCallsReason then OutNotToolCalls finish
      else OutSuccess)"

definition recover_truncated :: "('e, 'm) runtime \<Rightarrow> run_args \<Rightarrow> (unit, 'e) step" where
  "recover_truncated rt a =
     seq (act_modify (\<lambda>s. s\<lparr>ls_recoveries := ls_recoveries s + 1\<rparr>)) (\<lambda>_.
     seq (effect (rt_append_message rt (ra_session_id a) (user_text continue_text))) (\<lambda>_.
     case resolve (rt_dbg rt) TsProcessingResponse OutOutputTruncated of
       ActContinue _ \<Rightarrow> continue_loop
     | _ \<Rightarrow> panic))"

definition select_calls :: "('e, 'm) runtime \<Rightarrow> message \<Rightarrow> finish_reason \<Rightarrow> (tool_call list, 'e) step" where
  "select_calls rt msg finish =
     (let calls = tool_calls msg
      in case resolve (rt_dbg rt) TsProcessingResponse (response_outcome calls finish) of
           ActBreakLoop \<Rightarrow> break_loop
         | ActContinue _ \<Rightarrow> ret calls
         | _ \<Rightarrow> panic)"

definition ok_or :: "'a option \<Rightarrow> string \<Rightarrow> ('a, 'e) step" where
  "ok_or x what = (case x of None \<Rightarrow> return_err (RecoveryFailed what) | Some y \<Rightarrow> ret y)"

definition processing_response ::
  "('e, 'm) runtime \<Rightarrow> run_args \<Rightarrow> message option \<Rightarrow> finish_reason option \<Rightarrow> (tool_call list, 'e) step" where
  "processing_response rt a message finish_reason =
     seq (act_get ls_resume) (\<lambda>resume.
     if resume = TsCheckingPolicy \<or> resume = TsProcessingResponse then
       seq (act_modify (\<lambda>s. s\<lparr>ls_resume := TsCheckingPolicy\<rparr>)) (\<lambda>_.
       seq (ok_or message ''assistant message missing in ProcessingResponse'') (\<lambda>msg.
       seq (ok_or finish_reason ''last finish missing in ProcessingResponse'') (\<lambda>finish.
       seq (act_get ls_recoveries) (\<lambda>n.
       seq (act_when (finish = LengthReason \<and>
              unat n < max_output_recovery_attempts (rt_policy rt))
              (recover_truncated rt a)) (\<lambda>_.
       select_calls rt msg finish)))))
     else act_get (\<lambda>s. case ls_message s of Some (Assistant _ calls) \<Rightarrow> calls | _ \<Rightarrow> []))"

section \<open>ExecutingTools\<close>

fun loop_description :: "doom_loop_type \<Rightarrow> string" where
  "loop_description (ConsecutiveDuplicate tool n) =
     ''consecutive duplicate: '' @ tool @ '' called '' @ show_nat n @ '' times''"
| "loop_description (Cycle pat n) =
     ''cycle detected: ['' @ str_join '', '' pat @ ''] repeated '' @ show_nat n @ '' times''"

definition check_call :: "('e, 'm) runtime \<Rightarrow> run_args \<Rightarrow> tool_call \<Rightarrow> (unit, 'e) step" where
  "check_call rt a c =
     seq (act_get (\<lambda>s. record_and_check (rt_hash rt) (ls_doom s) (tc_name c) (tc_arguments c)))
       (\<lambda>(found, d).
     seq (act_modify (\<lambda>s. s\<lparr>ls_doom := d\<rparr>)) (\<lambda>_.
     case found of
       None \<Rightarrow> ret ()
     | Some loop_type \<Rightarrow>
         seq (emit rt (EvDoomLoopDetected (ra_run_id a) (loop_description loop_type))) (\<lambda>_.
         fail_with rt a (DoomLoopError (loop_description loop_type)))))"

definition commit_tool_message ::
  "('e, 'm) runtime \<Rightarrow> run_args \<Rightarrow> tool_execution_outcome \<Rightarrow> (unit, 'e) step" where
  "commit_tool_message rt a oc =
     seq (effect (rt_append_message rt (ra_session_id a) (teo_message oc))) (\<lambda>i.
     emit rt (EvToolMessageCommitted (ra_run_id a) i))"

definition executing_tools ::
  "('e, 'm) runtime \<Rightarrow> run_args \<Rightarrow> tool_call list \<Rightarrow> (unit, 'e) step" where
  "executing_tools rt a calls =
     seq (act_get ls_resume) (\<lambda>resume.
     act_when (resume = TsCheckingPolicy \<or> resume = TsExecutingTools) (
       seq (act_modify (\<lambda>s. s\<lparr>ls_resume := TsCheckingPolicy\<rparr>)) (\<lambda>_.
       seq (save_snapshot rt a TsExecutingTools) (\<lambda>_.
       seq (set_status rt a (status_for TsExecutingTools)) (\<lambda>_.
       seq (act_get ls_msg_id) (\<lambda>id_opt.
       seq (ok_or id_opt ''assistant message ID missing in ExecutingTools'') (\<lambda>msg_id.
       seq (act_list (check_call rt a) calls) (\<lambda>_.
       seq (effect (rt_execute_batch rt calls (ra_session_id a) msg_id)) (\<lambda>outcomes.
       act_list (commit_tool_message rt a) outcomes)))))))))"

section \<open>Persisting\<close>

definition persisting :: "('e, 'm) runtime \<Rightarrow> run_args \<Rightarrow> (unit, 'e) step" where
  "persisting rt a =
     seq (act_get ls_resume) (\<lambda>resume.
     act_when (resume = TsCheckingPolicy \<or> resume = TsPersisting) (
       seq (act_modify (\<lambda>s. s\<lparr>ls_resume := TsCheckingPolicy\<rparr>)) (\<lambda>_.
       seq (save_snapshot rt a TsPersisting) (\<lambda>_.
       seq (set_status rt a (status_for TsPersisting)) (\<lambda>_.
       seq (act_get ls_finish) (\<lambda>f.
       seq (ok_or f ''last finish missing in Persisting'') (\<lambda>finish.
       case resolve (rt_dbg rt) TsPersisting
              (if finish = ToolCallsReason then OutSuccess else OutNotToolCalls finish) of
         ActBreakLoop \<Rightarrow> break_loop
       | ActContinue _ \<Rightarrow> ret ()
       | _ \<Rightarrow> panic)))))))"

section \<open>The loop\<close>

definition turn_body :: "('e, 'm) runtime \<Rightarrow> run_args \<Rightarrow> (unit, 'e) step" where
  "turn_body rt a =
     seq (checking_policy rt a) (\<lambda>_.
     seq (building_context rt a) (\<lambda>req.
     seq (calling_model rt a req) (\<lambda>(msg, finish).
     seq (processing_response rt a msg finish) (\<lambda>calls.
     seq (executing_tools rt a calls) (\<lambda>_.
     seq (persisting rt a) (\<lambda>_.
     act_modify (\<lambda>s. s\<lparr>ls_message := None, ls_msg_id := None\<rparr>)))))))"

record run_output =
  ro_run_id :: run_id
  ro_session_id :: uuid
  ro_iterations :: usize
  ro_finish_reason :: finish_reason
  ro_total_usage :: token_usage

definition complete_run :: "('e, 'm) runtime \<Rightarrow> run_args \<Rightarrow> (run_output, 'e) step" where
  "complete_run rt a =
     seq (set_status rt a StCompleted) (\<lambda>_.
     seq (act_get (\<lambda>s. (case ls_finish s of Some f \<Rightarrow> f | None \<Rightarrow> Stop, ls_iteration s, ls_usage s)))
       (\<lambda>(finish, i, u).
     seq (emit rt (EvRunCompleted (ra_run_id a) finish i)) (\<lambda>_.
     ret \<lparr>ro_run_id = ra_run_id a, ro_session_id = ra_session_id a, ro_iterations = i,
          ro_finish_reason = finish, ro_total_usage = u\<rparr>)))"

fun run_loop_inner ::
  "nat \<Rightarrow> ('e, 'm) runtime \<Rightarrow> run_args \<Rightarrow> 'e loop_state \<Rightarrow> (run_output flow \<times> 'e loop_state) option" where
  "run_loop_inner 0 rt a s = None"
| "run_loop_inner (Suc n) rt a s =
     (case turn_body rt a s of
        (Proceed _, s') \<Rightarrow> run_loop_inner n rt a s'
      | (Continue_Loop, s') \<Rightarrow> run_loop_inner n rt a s'
      | (Break_Loop, s') \<Rightarrow> Some (complete_run rt a s')
      | (Return_Err e, s') \<Rightarrow> Some (Return_Err e, s')
      | (Panic, s') \<Rightarrow> Some (Panic, s'))"

text \<open>The snapshot is deleted whatever the result; a panic unwinds past that.\<close>

definition run_loop ::
  "nat \<Rightarrow> ('e, 'm) runtime \<Rightarrow> run_args \<Rightarrow> 'e loop_state \<Rightarrow> (run_output flow \<times> 'e loop_state) option" where
  "run_loop n rt a s =
     map_option (\<lambda>(r, s'). if r = Panic then (r, s')
                           else (r, snd (act_try (delete_snapshot rt (ra_run_id a)) s')))
       (run_loop_inner n rt a s)"

end
