(* ===== verification/Run_Loop_Calm.thy ===== *)
theory Run_Loop_Calm
  imports Run_Loop
begin

text \<open>
  The parts of the turn loop that leave the loop's own variables alone. \<open>quiet\<close> relates two states
  that differ in the environment, the breaker and the detector, and in events that neither start the
  model, record usage nor end the run; it is a \<open>step_relation\<close>, and \<open>calm\<close> actions stay inside it.
\<close>

definition quiet_event :: "agent_event \<Rightarrow> bool" where
  "quiet_event e \<longleftrightarrow> \<not> is_model_started e \<and> \<not> is_usage_recorded e \<and> \<not> event_is_terminal e"

definition quiet :: "'e loop_state \<Rightarrow> 'e loop_state \<Rightarrow> bool" where
  "quiet s s' \<longleftrightarrow>
     (\<exists>evs. ls_events s' = ls_events s @ evs \<and> list_all quiet_event evs) \<and>
     ls_iteration s' = ls_iteration s \<and> ls_usage s' = ls_usage s \<and> ls_finish s' = ls_finish s \<and>
     ls_message s' = ls_message s \<and> ls_msg_id s' = ls_msg_id s \<and> ls_resume s' = ls_resume s \<and>
     ls_recoveries s' = ls_recoveries s"

interpretation quiet: step_relation quiet
proof
  show "quiet s s" for s :: "'e loop_state" by (simp add: quiet_def)
  show "quiet s u" if "quiet s t" "quiet t u" for s t u :: "'e loop_state"
    using that unfolding quiet_def by (metis append_assoc list_all_append)
qed

definition calm :: "('a, 'e loop_state) act \<Rightarrow> bool" where
  "calm m \<longleftrightarrow> straight m \<and> relates quiet m"

named_theorems calm_intros

lemma calm_basic [calm_intros]:
  "calm (ret x)" "calm (return_err e)" "calm (act_get g)"
  by (auto simp: calm_def intro: quiet.relates_ret quiet.relates_exit quiet.relates_get)

lemma calm_seq [calm_intros]: "calm m \<Longrightarrow> (\<And>x. calm (f x)) \<Longrightarrow> calm (seq m f)"
  by (auto simp: calm_def intro: quiet.relates_seq)

lemma calm_when [calm_intros]: "(b \<Longrightarrow> calm m) \<Longrightarrow> calm (act_when b m)"
  by (auto simp: calm_def intro: quiet.relates_when)

lemma calm_try [calm_intros]: "calm m \<Longrightarrow> calm (act_try m)"
  by (auto simp: calm_def intro: quiet.relates_try)

lemma calm_list [calm_intros]: "(\<And>x. calm (f x)) \<Longrightarrow> calm (act_list f xs)"
  by (auto simp: calm_def intro: quiet.relates_list)

lemma calm_if [calm_intros]: "(b \<Longrightarrow> calm m) \<Longrightarrow> (\<not> b \<Longrightarrow> calm m') \<Longrightarrow> calm (if b then m else m')"
  by simp

lemma calm_modify: "(\<And>s. quiet s (g s)) \<Longrightarrow> calm (act_modify g)"
  by (auto simp: calm_def intro: quiet.relates_modify)

lemma calm_attempt [calm_intros]: "calm (attempt f)"
  by (auto simp: calm_def straight_def relates_def attempt_def quiet_def split: prod.splits)

lemma calm_question [calm_intros]: "calm (question r)"
  by (cases r) (auto intro: calm_intros)

lemma calm_effect [calm_intros]: "calm (effect f)"
  unfolding effect_def by (intro calm_intros)

lemma calm_push: "quiet_event e \<Longrightarrow> calm (act_modify (\<lambda>s. s\<lparr>ls_events := ls_events s @ [e]\<rparr>))"
  by (rule calm_modify) (simp add: quiet_def)

lemma calm_emit: "(\<And>t. quiet_event (mk t)) \<Longrightarrow> calm (emit rt mk)"
  unfolding emit_def by (intro calm_intros calm_push)

lemma quiet_events [simp]:
  "quiet_event (EvRunStarted r i p m t)" "quiet_event (EvContextBuilt r n t)"
  "quiet_event (EvTextDelta r d t)"
  "quiet_event (EvToolCallStarted r i d t)" "quiet_event (EvToolCallDelta r i d t)"
  "quiet_event (EvToolCallCompleted r c t)" "quiet_event (EvAssistantMessageCommitted r i t)"
  "quiet_event (EvToolMessageCommitted r i t)" "quiet_event (EvCacheMetrics r a b k t)"
  "quiet_event (EvDoomLoopDetected r d t)" "quiet_event (EvCompactionCircuitOpened r w t)"
  by (simp_all add: quiet_event_def is_model_started_def is_usage_recorded_def)

lemma calm_save_snapshot [calm_intros]: "calm (save_snapshot rt a st)"
  unfolding save_snapshot_def by (auto split: option.splits intro!: calm_intros)

lemma calm_delete_snapshot [calm_intros]: "calm (delete_snapshot rt i)"
  unfolding delete_snapshot_def by (auto split: option.splits intro!: calm_intros)

lemma calm_set_status [calm_intros]: "calm (set_status rt a st)"
  unfolding set_status_def by (intro calm_intros)

lemma calm_cache_metrics [calm_intros]: "calm (emit_cache_metrics rt a u)"
  unfolding emit_cache_metrics_def Let_def by (intro calm_intros calm_push) simp_all

lemma calm_stream_event [calm_intros]: "calm (emit_stream_event rt a ev)"
  by (cases ev) (auto intro!: calm_intros calm_emit)

lemma calm_receive [calm_intros]: "calm (receive rt a acc fu items)"
proof (induction items arbitrary: acc fu)
  case (Cons item items)
  have err: "calm (return_err e)" for e by (rule calm_intros)
  show ?case
  proof (cases item)
    case (Some r)
    then show ?thesis by (cases r) (simp_all add: err, intro calm_seq calm_stream_event Cons.IH)
  qed (simp add: err)
qed (simp add: calm_intros)

lemma calm_provider_result [calm_intros]: "calm (provider_result rt r)"
  by (cases "(rt, r)" rule: provider_result.cases) (auto intro: calm_intros)

lemma calm_call_streaming [calm_intros]: "calm (call_streaming rt a req)"
  unfolding call_streaming_def by (intro calm_intros)

lemma calm_call_complete [calm_intros]: "calm (call_complete rt a req)"
  unfolding call_complete_def by (auto split: option.splits intro!: calm_intros calm_emit)

lemma calm_call_model [calm_intros]: "calm (call_model rt a req)"
  unfolding call_model_def by (auto split: sum.splits intro!: calm_intros)

lemma calm_breaker: "calm (act_modify (\<lambda>s. s\<lparr>ls_breaker := f s\<rparr>))"
  by (rule calm_modify) (simp add: quiet_def)

lemma calm_compaction_done [calm_intros]:
  "calm compaction_succeeded" "calm (compaction_failed rt a e)"
  unfolding compaction_succeeded_def compaction_failed_def
  by (auto intro!: calm_intros calm_breaker calm_emit)

lemma calm_list_messages [calm_intros]: "calm (list_messages rt a)"
  unfolding list_messages_def by (auto split: sum.splits intro!: calm_intros)

lemma calm_proactive [calm_intros]: "calm (proactive_compaction rt a)"
  unfolding proactive_compaction_def by (auto split: option.splits sum.splits intro!: calm_intros)

lemma calm_reactive [calm_intros]: "calm (reactive_compaction rt a)"
  unfolding reactive_compaction_def by (auto split: option.splits sum.splits intro!: calm_intros)

lemma calm_building_context [calm_intros]: "calm (building_context rt a)"
  unfolding building_context_def by (intro calm_intros calm_emit) simp_all

lemma calm_ok_or [calm_intros]: "calm (ok_or x w)"
  unfolding ok_or_def by (auto split: option.splits intro!: calm_intros)

lemma calm_take_request [calm_intros]: "calm (take_request q)"
  unfolding take_request_def by (auto split: option.splits intro!: calm_intros)

lemma calm_commit_tool_message [calm_intros]: "calm (commit_tool_message rt a oc)"
  unfolding commit_tool_message_def by (intro calm_intros calm_emit) simp

section \<open>Assertions\<close>

text \<open>An assertion that quiet steps keep goes through calm actions.\<close>

definition stable :: "('e loop_state \<Rightarrow> bool) \<Rightarrow> bool" where
  "stable P \<longleftrightarrow> (\<forall>s s'. P s \<longrightarrow> quiet s s' \<longrightarrow> P s')"

lemma triple_calm:
  assumes "calm m" and "stable P" and "\<And>s x. P s \<Longrightarrow> N x s" and "\<And>s e. P s \<Longrightarrow> E e s"
  shows "triple P m (outcome N C B E)"
proof (rule triple_straight [where R = quiet])
  show "straight m" "relates quiet m" using assms(1) by (simp_all add: calm_def)
next
  fix s s' :: "'a loop_state" and x
  assume "P s" "quiet s s'"
  then have "P s'" using assms(2) by (auto simp: stable_def)
  then show "N x s'" by (rule assms(3))
next
  fix s s' :: "'a loop_state" and e
  assume "P s" "quiet s s'"
  then have "P s'" using assms(2) by (auto simp: stable_def)
  then show "E e s'" by (rule assms(4))
qed

text \<open>The usual chain: a calm step in front of what follows.\<close>

lemma triple_calm_seq:
  assumes "calm m" and "stable P" and "\<And>s e. P s \<Longrightarrow> E e s"
    and "\<And>x. triple P (f x) (outcome N C B E)"
  shows "triple P (seq m f) (outcome N C B E)"
proof (rule triple_seq [where M = "\<lambda>_. P"])
  show "triple P m (outcome (\<lambda>_. P) C B E)" using assms(1-3) by (intro triple_calm) auto
qed (rule assms(4))

lemma triple_attempt: "stable P \<Longrightarrow> triple P (attempt f) (outcome (\<lambda>_. P) C B E)"
  unfolding triple_def attempt_def stable_def
  by (auto split: prod.splits simp: quiet_def)

lemma triple_emit:
  assumes "stable P"
    and "\<And>s t. P s \<Longrightarrow> N () (s\<lparr>ls_events := ls_events s @ [mk t]\<rparr>)"
  shows "triple P (emit rt mk) (outcome N C B E)"
  unfolding emit_def using assms
  by (intro triple_seq [where M = "\<lambda>_. P"] triple_attempt triple_modify)

text \<open>A read remembers what it read.\<close>

lemma triple_get_seq:
  assumes "\<And>x. triple (\<lambda>s. g s = x \<and> P s) (f x) (outcome N C B E)"
  shows "triple P (seq (act_get g) f) (outcome N C B E)"
  by (rule triple_seq [where M = "\<lambda>x s. g s = x \<and> P s"]) (auto intro: triple_get assms)

lemma triple_modify_seq:
  assumes "\<And>s. P s \<Longrightarrow> Q (g s)" and "triple Q (f ()) (outcome N C B E)"
  shows "triple P (seq (act_modify g) f) (outcome N C B E)"
  by (rule triple_seq [where M = "\<lambda>_. Q"]) (auto intro: triple_modify assms)

end
