(* ===== verification/Run_Loop_Safety.thy ===== *)
theory Run_Loop_Safety
  imports Run_Loop_Calm
begin

text \<open>
  What the turn loop guarantees when it starts at the head of an iteration, as \<open>run\<close> does: the
  invariants of the body's sections, stated as assertions between them, and the invariant of the
  loop they give. \<open>u0\<close> and \<open>i0\<close> are the usage and the iteration the loop was entered with.
\<close>

section \<open>What the events show\<close>

definition model_iterations :: "agent_event list \<Rightarrow> usize list" where
  "model_iterations evs =
     List.map_filter (\<lambda>e. case e of EvModelStarted _ _ _ i _ \<Rightarrow> Some i | _ \<Rightarrow> None) evs"

definition terminal_events :: "agent_event list \<Rightarrow> agent_event list" where
  "terminal_events evs = filter event_is_terminal evs"

text \<open>The token budget at every start of the model: the usage recorded before it was below it.\<close>

fun calls_in_budget :: "runtime_policy \<Rightarrow> token_usage \<Rightarrow> agent_event list \<Rightarrow> bool" where
  "calls_in_budget p u [] = True"
| "calls_in_budget p u (EvUsageRecorded _ v _ # es) = calls_in_budget p (usage_merge u v) es"
| "calls_in_budget p u (EvModelStarted _ _ _ _ _ # es) = (\<not> budget_spent p u \<and> calls_in_budget p u es)"
| "calls_in_budget p u (_ # es) = calls_in_budget p u es"

lemma model_iterations_append [simp]:
  "model_iterations [] = []"
  "model_iterations (xs @ ys) = model_iterations xs @ model_iterations ys"
  "model_iterations [EvModelStarted r p m i t] = [i]"
  "\<not> is_model_started e \<Longrightarrow> model_iterations [e] = []"
  by (simp_all add: model_iterations_def map_filter_simps map_filter_def is_model_started_def
      split: agent_event.splits)

lemma terminal_events_append [simp]:
  "terminal_events [] = []"
  "terminal_events (xs @ ys) = terminal_events xs @ terminal_events ys"
  "terminal_events [e] = (if event_is_terminal e then [e] else [])"
  by (simp_all add: terminal_events_def)

lemma calls_in_budget_append [simp]:
  "calls_in_budget p u (xs @ ys) \<longleftrightarrow>
     calls_in_budget p u xs \<and> calls_in_budget p (foldl usage_merge u (recorded_usages xs)) ys"
proof (induction p u xs rule: calls_in_budget.induct)
  case (2 p u r v t es)
  then show ?case by (simp)
qed (simp_all add: is_usage_recorded_def)

lemma quiet_event_list:
  assumes "list_all quiet_event evs"
  shows "recorded_usages evs = []" "model_iterations evs = []" "terminal_events evs = []"
    "calls_in_budget p u evs"
proof -
  show "recorded_usages evs = []" using assms
    by (induction evs) (simp_all add: quiet_event_def)
  show "terminal_events evs = []" using assms
    by (induction evs) (simp_all add: quiet_event_def terminal_events_def)
  show "model_iterations evs = []" using assms
  proof (induction evs)
    case (Cons e evs)
    then show ?case
      by (cases e) (simp_all add: model_iterations_def map_filter_simps quiet_event_def is_model_started_def)
  qed simp
  show "calls_in_budget p u evs" using assms
  proof (induction evs)
    case (Cons e evs)
    then show ?case
      by (cases e) (simp_all add: quiet_event_def is_model_started_def is_usage_recorded_def)
  qed simp
qed

section \<open>Assertions between the sections\<close>

text \<open>Common to all: usage is the merge of what was recorded, the budget held at every model call,
  the run has not ended, and the recoveries are within their limit.\<close>

definition accounted :: "runtime_policy \<Rightarrow> token_usage \<Rightarrow> 'e loop_state \<Rightarrow> bool" where
  "accounted p u0 s \<longleftrightarrow>
     ls_usage s = foldl usage_merge u0 (recorded_usages (ls_events s)) \<and>
     calls_in_budget p u0 (ls_events s) \<and>
     unat (ls_recoveries s) \<le> max_output_recovery_attempts p"

definition running :: "runtime_policy \<Rightarrow> token_usage \<Rightarrow> 'e loop_state \<Rightarrow> bool" where
  "running p u0 s \<longleftrightarrow>
     accounted p u0 s \<and> terminal_events (ls_events s) = [] \<and> ls_resume s = TsCheckingPolicy"

text \<open>Between iterations every iteration so far has started the model once; before the model is
  started the current one has not.\<close>

definition at_head :: "runtime_policy \<Rightarrow> token_usage \<Rightarrow> usize \<Rightarrow> 'e loop_state \<Rightarrow> bool" where
  "at_head p u0 i0 s \<longleftrightarrow>
     running p u0 s \<and> i0 \<le> ls_iteration s \<and> ls_iteration s \<le> max_iterations p \<and>
     model_iterations (ls_events s) = [Suc i0..<Suc (ls_iteration s)]"

definition counted :: "runtime_policy \<Rightarrow> token_usage \<Rightarrow> usize \<Rightarrow> 'e loop_state \<Rightarrow> bool" where
  "counted p u0 i0 s \<longleftrightarrow>
     running p u0 s \<and> i0 < ls_iteration s \<and> ls_iteration s \<le> Suc (max_iterations p) \<and>
     model_iterations (ls_events s) = [Suc i0..<ls_iteration s]"

definition checked :: "runtime_policy \<Rightarrow> token_usage \<Rightarrow> usize \<Rightarrow> 'e loop_state \<Rightarrow> bool" where
  "checked p u0 i0 s \<longleftrightarrow>
     counted p u0 i0 s \<and> ls_iteration s \<le> max_iterations p \<and> \<not> budget_spent p (ls_usage s)"

definition called :: "runtime_policy \<Rightarrow> token_usage \<Rightarrow> usize \<Rightarrow> 'e loop_state \<Rightarrow> bool" where
  "called p u0 i0 s \<longleftrightarrow> at_head p u0 i0 s \<and> i0 < ls_iteration s"

text \<open>After the reply: what the message and the finish variables hold.\<close>

definition replied ::
  "runtime_policy \<Rightarrow> token_usage \<Rightarrow> usize \<Rightarrow> message option \<times> finish_reason option \<Rightarrow> 'e loop_state \<Rightarrow> bool" where
  "replied p u0 i0 mf s \<longleftrightarrow>
     called p u0 i0 s \<and> ls_message s = fst mf \<and> ls_finish s = snd mf \<and>
     fst mf \<noteq> None \<and> snd mf \<noteq> None \<and> ls_msg_id s \<noteq> None"

definition to_execute ::
  "runtime_policy \<Rightarrow> token_usage \<Rightarrow> usize \<Rightarrow> tool_call list \<Rightarrow> 'e loop_state \<Rightarrow> bool" where
  "to_execute p u0 i0 calls s \<longleftrightarrow>
     called p u0 i0 s \<and> ls_msg_id s \<noteq> None \<and> ls_finish s = Some ToolCallsReason \<and> calls \<noteq> [] \<and>
     (\<exists>m. ls_message s = Some m \<and> tool_calls m = calls)"

text \<open>Leaving the loop: the reply asked for no tools, and a truncated one had used up the
  recoveries.\<close>

definition finished :: "runtime_policy \<Rightarrow> token_usage \<Rightarrow> usize \<Rightarrow> 'e loop_state \<Rightarrow> bool" where
  "finished p u0 i0 s \<longleftrightarrow>
     called p u0 i0 s \<and>
     (\<exists>m f. ls_message s = Some m \<and> ls_finish s = Some f \<and>
        (tool_calls m = [] \<or> f \<noteq> ToolCallsReason) \<and>
        (f = LengthReason \<longrightarrow> unat (ls_recoveries s) = max_output_recovery_attempts p))"

fun policy_error :: "runtime_error \<Rightarrow> bool" where
  "policy_error (IterationLimitExceeded _) = True"
| "policy_error (TokenBudgetExceeded _ _) = True"
| "policy_error (DoomLoopError _) = True"
| "policy_error _ = False"

text \<open>Returning an error: the run is marked failed at most for the errors the loop raises itself,
  and then that is its last event.\<close>

definition failed_by :: "run_args \<Rightarrow> runtime_error \<Rightarrow> agent_event list \<Rightarrow> bool" where
  "failed_by a e evs \<longleftrightarrow>
     (\<exists>es t. evs = es @ [EvRunFailed (ra_run_id a) (show_runtime_error e) t] \<and>
        terminal_events es = [])"

definition erred ::
  "runtime_policy \<Rightarrow> token_usage \<Rightarrow> usize \<Rightarrow> run_args \<Rightarrow> runtime_error \<Rightarrow> 'e loop_state \<Rightarrow> bool" where
  "erred p u0 i0 a e s \<longleftrightarrow>
     accounted p u0 s \<and>
     (\<exists>k\<le>max_iterations p. model_iterations (ls_events s) = [Suc i0..<Suc k]) \<and>
     (terminal_events (ls_events s) = [] \<or> policy_error e \<and> failed_by a e (ls_events s))"

lemmas assertion_defs = accounted_def running_def at_head_def counted_def checked_def called_def
  replied_def to_execute_def finished_def

lemma stable_assertions:
  "stable (running p u0)" "stable (at_head p u0 i0)" "stable (counted p u0 i0)"
  "stable (checked p u0 i0)" "stable (called p u0 i0)" "stable (replied p u0 i0 mf)"
  "stable (to_execute p u0 i0 calls)" "stable (finished p u0 i0)"
  unfolding stable_def quiet_def assertion_defs
  by (auto simp: quiet_event_list)

lemma stable_fields:
  "stable (\<lambda>s. ls_iteration s = i)" "stable (\<lambda>s. ls_resume s = r)" "stable (\<lambda>s. ls_finish s = f)"
  "stable (\<lambda>s. ls_msg_id s = j)" "stable (\<lambda>s. ls_recoveries s = n)" "stable (\<lambda>s. ls_usage s = u)"
  "stable (\<lambda>s. (ls_iteration s, ls_usage s) = x)" "stable (\<lambda>s. b)"
  unfolding stable_def quiet_def by auto

lemma stable_conj: "stable P \<Longrightarrow> stable Q \<Longrightarrow> stable (\<lambda>s. P s \<and> Q s)"
  unfolding stable_def by blast

lemmas stable_intros = stable_conj stable_assertions stable_fields

text \<open>Whatever fails while the run is not yet marked failed leaves an admissible error state.\<close>

lemma erred_before:
  "counted p u0 i0 s \<Longrightarrow> erred p u0 i0 a e s" "checked p u0 i0 s \<Longrightarrow> erred p u0 i0 a e s"
  "at_head p u0 i0 s \<Longrightarrow> erred p u0 i0 a e s" "called p u0 i0 s \<Longrightarrow> erred p u0 i0 a e s"
proof -
  have c: "erred p u0 i0 a e s" if "counted p u0 i0 s" for s :: "'b loop_state"
    using that unfolding counted_def running_def erred_def
    by (intro conjI exI [where x = "ls_iteration s - 1"]) auto
  have h: "erred p u0 i0 a e s" if "at_head p u0 i0 s" for s :: "'b loop_state"
    using that unfolding at_head_def running_def erred_def by auto
  show "counted p u0 i0 s \<Longrightarrow> erred p u0 i0 a e s" "checked p u0 i0 s \<Longrightarrow> erred p u0 i0 a e s"
    "at_head p u0 i0 s \<Longrightarrow> erred p u0 i0 a e s" "called p u0 i0 s \<Longrightarrow> erred p u0 i0 a e s"
    using c h by (auto simp: checked_def called_def)
qed

lemma triple_fail_with:
  assumes "policy_error err" and "stable P"
    and "\<And>s :: 'e loop_state. P s \<Longrightarrow> terminal_events (ls_events s) = []"
    and "\<And>(s :: 'e loop_state) e. P s \<Longrightarrow> erred p u0 i0 a e s"
  shows "triple P (fail_with rt a err :: ('a, 'e) step) (outcome N C B (erred p u0 i0 a))"
  unfolding fail_with_def fail_run_def emit_def
proof (rule triple_seq [where M = "\<lambda>_. erred p u0 i0 a err"])
  have push: "erred p u0 i0 a err (s\<lparr>ls_events := ls_events s @ [EvRunFailed (ra_run_id a) (show_runtime_error err) t]\<rparr>)"
    if "P s" for s t
    using assms(3) [OF that] assms(4) [OF that] assms(1) unfolding erred_def failed_by_def accounted_def
    by (auto simp: is_usage_recorded_def is_model_started_def)
  show "triple P (seq (attempt (rt_update_status rt (ra_run_id a) StFailed))
      (\<lambda>_. seq (attempt (rt_now rt)) (\<lambda>t. act_modify (\<lambda>s. s\<lparr>ls_events := ls_events s @
        [EvRunFailed (ra_run_id a) (show_runtime_error err) t]\<rparr>))))
      (outcome (\<lambda>_. erred p u0 i0 a err) C B (erred p u0 i0 a))"
    using assms(4) push
    by (intro triple_calm_seq calm_intros assms(2) triple_modify) auto
qed (auto intro: triple_exits)

section \<open>The sections\<close>

lemma policy_outcome_cases:
  "policy_outcome p i u = OutSuccess \<and> i \<le> max_iterations p \<and> \<not> budget_spent p u \<or>
   (\<exists>r. policy_outcome p i u = OutPolicyExceeded r)"
  by (auto simp: policy_outcome_def budget_spent_def split: option.splits)

lemma act_on_policy_triple:
  assumes p: "p = rt_policy rt"
  shows "triple (\<lambda>s. ls_usage s = u \<and> ls_iteration s = i \<and> counted p u0 i0 s) (act_on_policy rt a i u)
     (outcome (\<lambda>_. checked p u0 i0) C B (erred p u0 i0 a))"
proof -
  have fail: "triple (\<lambda>s. ls_usage s = u \<and> ls_iteration s = i \<and> counted p u0 i0 s) (fail_with rt a e)
      (outcome (\<lambda>_. checked p u0 i0) C B (erred p u0 i0 a))"
    if "policy_error e" for e
  proof (rule triple_fail_with [OF that])
    show "stable (\<lambda>s :: 'a loop_state. ls_usage s = u \<and> ls_iteration s = i \<and> counted p u0 i0 s)"
      by (intro stable_intros)
  qed (auto intro: erred_before simp: counted_def running_def)
  show ?thesis
    using policy_outcome_cases [of p i u]
    by (auto intro!: triple_ret fail simp: act_on_policy_def p [symmetric] checked_def)
qed

lemma checking_triple:
  assumes p: "p = rt_policy rt"
  shows "triple (at_head p u0 i0) (checking_policy rt a)
     (outcome (\<lambda>_. checked p u0 i0) C B (erred p u0 i0 a))"
  unfolding checking_policy_def
proof (rule triple_get_seq, rule triple_when, rule triple_modify_seq [where Q = "counted p u0 i0"])
  show "counted p u0 i0 (s\<lparr>ls_iteration := ls_iteration s + 1\<rparr>)"
    if "(ls_resume s = x \<and> at_head p u0 i0 s) \<and> x = TsCheckingPolicy" for x and s :: "'a loop_state"
    using that by (auto simp: at_head_def counted_def running_def accounted_def)
next
  fix x
  show "triple (counted p u0 i0)
      (seq (save_snapshot rt a TsCheckingPolicy) (\<lambda>_.
       seq (act_get ls_iteration) (\<lambda>i. seq (act_get ls_usage) (\<lambda>u. act_on_policy rt a i u))))
      (outcome (\<lambda>_. checked p u0 i0) C B (erred p u0 i0 a))"
    by (rule triple_calm_seq)
      (auto intro!: calm_intros stable_intros triple_get_seq act_on_policy_triple p
        intro: erred_before)
qed (simp add: at_head_def running_def)

lemma building_triple:
  "triple (checked p u0 i0) (building_context rt a)
     (outcome (\<lambda>_. checked p u0 i0) C B (erred p u0 i0 a))"
  by (intro triple_calm calm_intros stable_intros) (auto intro: erred_before)

lemma start_model_triple:
  "triple (checked p u0 i0) (start_model rt a) (outcome (\<lambda>_. called p u0 i0) C B (erred p u0 i0 a))"
  unfolding start_model_def
proof (rule triple_modify_seq [where Q = "checked p u0 i0"])
  show "checked p u0 i0 (s\<lparr>ls_resume := TsCheckingPolicy\<rparr>)" if "checked p u0 i0 s" for s :: "'a loop_state"
    using that by (auto simp: assertion_defs)
  have started: "called p u0 i0 (s\<lparr>ls_events := ls_events s @ [EvModelStarted r q m (ls_iteration s) t]\<rparr>)"
    if "checked p u0 i0 s" for s :: "'a loop_state" and r q m t
    using that by (auto simp: assertion_defs is_usage_recorded_def)
  show "triple (checked p u0 i0)
      (seq (save_snapshot rt a TsCallingModel) (\<lambda>_. seq (set_status rt a (status_for TsCallingModel)) (\<lambda>_.
       seq (act_get ls_iteration) (\<lambda>i. emit rt (EvModelStarted (ra_run_id a) (rq_provider (ra_request a))
         (rq_model (ra_request a)) i)))))
      (outcome (\<lambda>_. called p u0 i0) C B (erred p u0 i0 a))"
    by (intro triple_calm_seq triple_get_seq triple_emit calm_intros stable_intros)
      (auto intro: erred_before started)
qed

lemma call_or_compact_triple:
  "triple (called p u0 i0) (call_or_compact rt a q)
     (outcome (\<lambda>_. called p u0 i0) (at_head p u0 i0) B (erred p u0 i0 a))"
  unfolding call_or_compact_def
proof (rule triple_calm_seq)
  fix r :: "runtime_error + model_reply"
  have stay: "triple (called p u0 i0) (ret reply) (outcome (\<lambda>_. called p u0 i0) (at_head p u0 i0) B (erred p u0 i0 a))"
    for reply by (rule triple_ret)
  have err: "triple (called p u0 i0) (return_err e) (outcome (\<lambda>_. called p u0 i0) (at_head p u0 i0) B (erred p u0 i0 a))"
    for e by (intro triple_exits erred_before)
  have again: "triple (called p u0 i0) (seq (reactive_compaction rt a) (\<lambda>_. continue_loop))
      (outcome (\<lambda>_. called p u0 i0) (at_head p u0 i0) B (erred p u0 i0 a))"
    by (intro triple_calm_seq triple_exits calm_intros stable_intros erred_before)
      (simp_all add: called_def)
  show "triple (called p u0 i0) (case resolve (rt_dbg rt) TsCallingModel (model_outcome r) of
       ActContinue _ \<Rightarrow> question r
     | ActCompactAndRetry \<Rightarrow> seq (reactive_compaction rt a) (\<lambda>_. continue_loop)
     | ActFail _ \<Rightarrow> (case r of Inl e \<Rightarrow> return_err e | Inr _ \<Rightarrow> panic)
     | ActBreakLoop \<Rightarrow> panic) (outcome (\<lambda>_. called p u0 i0) (at_head p u0 i0) B (erred p u0 i0 a))"
    by (cases r rule: model_outcome.cases) (simp_all add: stay err again)
qed (auto intro!: calm_intros stable_intros intro: erred_before)

text \<open>Between merging a usage and recording it, the events lag behind.\<close>

definition usage_ahead :: "('e loop_state \<Rightarrow> bool) \<Rightarrow> token_usage \<Rightarrow> 'e loop_state \<Rightarrow> bool" where
  "usage_ahead P u s \<longleftrightarrow> (\<exists>v. P (s\<lparr>ls_usage := v\<rparr>) \<and> ls_usage s = usage_merge v u)"

lemma stable_usage_ahead: "stable P \<Longrightarrow> stable (usage_ahead P u)"
  unfolding stable_def usage_ahead_def
proof (intro allI impI)
  fix s s' :: "'a loop_state"
  assume P: "\<forall>s s'. P s \<longrightarrow> quiet s s' \<longrightarrow> P s'" and "\<exists>v. P (s\<lparr>ls_usage := v\<rparr>) \<and> ls_usage s = usage_merge v u"
    and q: "quiet s s'"
  then obtain v where v: "P (s\<lparr>ls_usage := v\<rparr>)" "ls_usage s = usage_merge v u" by blast
  have "quiet (s\<lparr>ls_usage := v\<rparr>) (s'\<lparr>ls_usage := v\<rparr>)" using q by (simp add: quiet_def)
  with P v have "P (s'\<lparr>ls_usage := v\<rparr>)" by blast
  with v q show "\<exists>v. P (s'\<lparr>ls_usage := v\<rparr>) \<and> ls_usage s' = usage_merge v u"
    by (auto simp: quiet_def)
qed

lemma record_usage_triple:
  "triple (called p u0 i0) (record_usage rt a usg)
     (outcome (\<lambda>_. called p u0 i0) C B (erred p u0 i0 a))"
proof (cases usg)
  case (Some u)
  have merged: "usage_ahead (called p u0 i0) u (s\<lparr>ls_usage := usage_merge (ls_usage s) u\<rparr>)"
    if "called p u0 i0 s" for s :: "'a loop_state"
    unfolding usage_ahead_def using that by (intro exI [where x = "ls_usage s"]) simp
  have recorded: "called p u0 i0 (s\<lparr>ls_events := ls_events s @ [EvUsageRecorded r u t]\<rparr>)"
    if "usage_ahead (called p u0 i0) u s" for s :: "'a loop_state" and r t
    using that by (auto simp: usage_ahead_def assertion_defs is_model_started_def)
  have metrics: "triple (called p u0 i0) (emit_cache_metrics rt a u)
      (outcome (\<lambda>_. called p u0 i0) C B (erred p u0 i0 a))"
    by (intro triple_calm calm_intros stable_intros) (auto intro: erred_before)
  show ?thesis unfolding record_usage_def Some option.case
    by (rule triple_modify_seq [where Q = "usage_ahead (called p u0 i0) u"], erule merged,
        rule triple_seq [where M = "\<lambda>_. called p u0 i0"],
        intro triple_emit stable_usage_ahead stable_intros recorded, assumption, rule metrics)
qed (simp add: record_usage_def triple_ret)

lemma commit_reply_triple:
  "triple (called p u0 i0) (commit_reply rt a reply)
     (outcome (\<lambda>_ s. \<exists>mf. replied p u0 i0 mf s) C B (erred p u0 i0 a))"
proof -
  obtain msg f usg where reply: "reply = (msg, f, usg)" by (cases reply)
  have fin: "called p u0 i0 (s\<lparr>ls_finish := Some f\<rparr>) \<and> ls_finish (s\<lparr>ls_finish := Some f\<rparr>) = Some f"
    if "called p u0 i0 s" for s :: "'a loop_state"
    using that by (auto simp: assertion_defs)
  have stored: "\<exists>mf. replied p u0 i0 mf (s\<lparr>ls_message := Some msg, ls_msg_id := Some j\<rparr>)"
    if "called p u0 i0 s \<and> ls_finish s = Some f" for s :: "'a loop_state" and j
    using that by (intro exI [where x = "(Some msg, Some f)"]) (auto simp: assertion_defs)
  show ?thesis unfolding commit_reply_def reply prod.case
  proof (rule triple_seq [OF record_usage_triple],
      rule triple_modify_seq [where Q = "\<lambda>s. called p u0 i0 s \<and> ls_finish s = Some f", OF fin])
    show "triple (\<lambda>s. called p u0 i0 s \<and> ls_finish s = Some f)
        (seq (effect (rt_append_message rt (ra_session_id a) msg)) (\<lambda>msg_id.
         seq (emit rt (EvAssistantMessageCommitted (ra_run_id a) msg_id)) (\<lambda>_.
         act_modify (\<lambda>s. s\<lparr>ls_message := Some msg, ls_msg_id := Some msg_id\<rparr>))))
        (outcome (\<lambda>_ s. \<exists>mf. replied p u0 i0 mf s) C B (erred p u0 i0 a))"
      by (intro triple_calm_seq triple_modify calm_intros calm_emit stable_intros stored)
        (auto intro: erred_before)
  qed
qed

lemma calling_triple:
  "triple (checked p u0 i0) (calling_model rt a req)
     (outcome (replied p u0 i0) (at_head p u0 i0) B (erred p u0 i0 a))"
  unfolding calling_model_def
proof (rule triple_get_seq, rule triple_seq, rule triple_when)
  fix resume
  show "triple (\<lambda>s. (ls_resume s = resume \<and> checked p u0 i0 s) \<and>
          (resume = TsCheckingPolicy \<or> resume = TsCallingModel))
      (seq (start_model rt a) (\<lambda>_. seq (take_request req) (\<lambda>q.
       seq (call_or_compact rt a q) (\<lambda>reply. commit_reply rt a reply))))
      (outcome (\<lambda>_ s. \<exists>mf. replied p u0 i0 mf s) (at_head p u0 i0) B (erred p u0 i0 a))"
  proof (rule triple_conseq [OF triple_seq [OF start_model_triple]])
    show "triple (called p u0 i0) (seq (take_request req) (\<lambda>q.
       seq (call_or_compact rt a q) (\<lambda>reply. commit_reply rt a reply)))
      (outcome (\<lambda>_ s. \<exists>mf. replied p u0 i0 mf s) (at_head p u0 i0) B (erred p u0 i0 a))"
      by (intro triple_calm_seq triple_seq [OF call_or_compact_triple] commit_reply_triple
          calm_intros stable_intros erred_before)
  qed auto
next
  fix resume
  show "\<exists>mf. replied p u0 i0 mf s" if "ls_resume s = resume \<and> checked p u0 i0 s"
      "\<not> (resume = TsCheckingPolicy \<or> resume = TsCallingModel)" for s :: "'a loop_state"
    using that by (auto simp: assertion_defs)
next
  show "triple (\<lambda>s. \<exists>mf. replied p u0 i0 mf s) (act_get (\<lambda>s. (ls_message s, ls_finish s)))
      (outcome (replied p u0 i0) (at_head p u0 i0) B (erred p u0 i0 a))"
    by (rule triple_get) (auto simp: replied_def)
qed

lemma recover_triple:
  "triple (\<lambda>s. called p u0 i0 s \<and> unat (ls_recoveries s) < max_output_recovery_attempts p)
     (recover_truncated rt a) (outcome N (at_head p u0 i0) B (erred p u0 i0 a))"
  unfolding recover_truncated_def
proof (rule triple_modify_seq [where Q = "called p u0 i0"])
  fix s :: "'a loop_state"
  assume s: "called p u0 i0 s \<and> unat (ls_recoveries s) < max_output_recovery_attempts p"
  have "unat (ls_recoveries s + 1) \<le> unat (ls_recoveries s) + 1"
    using unat_plus_simple [of "ls_recoveries s" 1] unat_word_ariths(1) [of "ls_recoveries s" 1] by simp
  with s show "called p u0 i0 (s\<lparr>ls_recoveries := ls_recoveries s + 1\<rparr>)"
    by (auto simp: assertion_defs)
next
  show "triple (called p u0 i0)
      (seq (effect (rt_append_message rt (ra_session_id a) (user_text continue_text))) (\<lambda>_.
       case resolve (rt_dbg rt) TsProcessingResponse OutOutputTruncated of
         ActContinue _ \<Rightarrow> continue_loop | _ \<Rightarrow> panic))
      (outcome N (at_head p u0 i0) B (erred p u0 i0 a))"
    by (intro triple_calm_seq calm_intros stable_intros)
      (auto intro!: triple_exits intro: erred_before simp: called_def)
qed

lemma select_calls_triple:
  assumes p: "p = rt_policy rt"
  shows "triple (\<lambda>s. replied p u0 i0 (Some msg, Some f) s \<and>
       (f = LengthReason \<longrightarrow> max_output_recovery_attempts p \<le> unat (ls_recoveries s)))
     (select_calls rt msg f) (outcome (to_execute p u0 i0) C (finished p u0 i0) E)"
proof (cases "tool_calls msg = [] \<or> f \<noteq> ToolCallsReason")
  case True
  have fin: "finished p u0 i0 s" if "replied p u0 i0 (Some msg, Some f) s"
      "f = LengthReason \<longrightarrow> max_output_recovery_attempts p \<le> unat (ls_recoveries s)" for s :: "'c loop_state"
    using that True unfolding finished_def
    by (intro conjI exI [where x = msg] exI [where x = f])
      (auto simp: assertion_defs intro: le_antisym)
  show ?thesis unfolding select_calls_def Let_def response_outcome_def using True
    by (auto intro!: triple_exits fin)
next
  case False
  have "to_execute p u0 i0 (tool_calls msg) s" if "replied p u0 i0 (Some msg, Some f) s" for s :: "'c loop_state"
    using that False by (auto simp: assertion_defs)
  with False show ?thesis
    by (auto intro!: triple_ret simp: select_calls_def response_outcome_def Let_def)
qed

lemma processing_triple:
  assumes p: "p = rt_policy rt"
  shows "triple (replied p u0 i0 mf) (processing_response rt a (fst mf) (snd mf))
     (outcome (to_execute p u0 i0) (at_head p u0 i0) (finished p u0 i0) (erred p u0 i0 a))"
proof (cases "\<exists>msg f. mf = (Some msg, Some f)")
  case True
  then obtain msg f where mf: "mf = (Some msg, Some f)" by blast
  have rest: "triple (replied p u0 i0 mf)
      (seq (act_get ls_recoveries) (\<lambda>n.
       seq (act_when (f = LengthReason \<and> unat n < max_output_recovery_attempts (rt_policy rt))
              (recover_truncated rt a)) (\<lambda>_. select_calls rt msg f)))
      (outcome (to_execute p u0 i0) (at_head p u0 i0) (finished p u0 i0) (erred p u0 i0 a))"
  proof (rule triple_get_seq, rule triple_seq [OF triple_when])
    fix n
    show "triple (\<lambda>s. (ls_recoveries s = n \<and> replied p u0 i0 mf s) \<and>
          f = LengthReason \<and> unat n < max_output_recovery_attempts (rt_policy rt))
        (recover_truncated rt a) (outcome (\<lambda>_ s. replied p u0 i0 mf s \<and>
          (f = LengthReason \<longrightarrow> max_output_recovery_attempts p \<le> unat (ls_recoveries s)))
          (at_head p u0 i0) (finished p u0 i0) (erred p u0 i0 a))"
      by (rule triple_conseq [OF recover_triple]) (auto simp: p replied_def)
  next
    show "triple (\<lambda>s. replied p u0 i0 mf s \<and>
          (f = LengthReason \<longrightarrow> max_output_recovery_attempts p \<le> unat (ls_recoveries s)))
        (select_calls rt msg f) (outcome (to_execute p u0 i0) (at_head p u0 i0) (finished p u0 i0)
          (erred p u0 i0 a))"
      unfolding mf by (rule select_calls_triple [OF p])
  qed (auto simp: p)
  show ?thesis unfolding processing_response_def
  proof (rule triple_get_seq, rule triple_if)
    fix resume
    have keep: "replied p u0 i0 mf (s\<lparr>ls_resume := TsCheckingPolicy\<rparr>)" if "replied p u0 i0 mf s"
      for s :: "'a loop_state" using that by (auto simp: assertion_defs)
    show "triple (\<lambda>s. (ls_resume s = resume \<and> replied p u0 i0 mf s) \<and>
          (resume = TsCheckingPolicy \<or> resume = TsProcessingResponse))
        (seq (act_modify (\<lambda>s. s\<lparr>ls_resume := TsCheckingPolicy\<rparr>)) (\<lambda>_.
         seq (ok_or (fst mf) ''assistant message missing in ProcessingResponse'') (\<lambda>msg.
         seq (ok_or (snd mf) ''last finish missing in ProcessingResponse'') (\<lambda>finish.
         seq (act_get ls_recoveries) (\<lambda>n.
         seq (act_when (finish = LengthReason \<and>
                unat n < max_output_recovery_attempts (rt_policy rt)) (recover_truncated rt a)) (\<lambda>_.
         select_calls rt msg finish))))))
        (outcome (to_execute p u0 i0) (at_head p u0 i0) (finished p u0 i0) (erred p u0 i0 a))"
      by (rule triple_modify_seq [where Q = "replied p u0 i0 mf"])
        (use keep rest in \<open>auto simp: mf ok_or_def\<close>)
  next
    fix resume
    show "triple (\<lambda>s. (ls_resume s = resume \<and> replied p u0 i0 mf s) \<and>
          \<not> (resume = TsCheckingPolicy \<or> resume = TsProcessingResponse)) m Q" for m :: "(tool_call list, 'a) step" and Q
      by (rule triple_false) (auto simp: assertion_defs)
  qed
next
  case False
  then have "\<not> replied p u0 i0 mf s" for s :: "'a loop_state"
    by (cases mf) (auto simp: replied_def)
  then show ?thesis by (intro triple_false)
qed

lemma check_call_triple:
  "triple (to_execute p u0 i0 calls) (check_call rt a c)
     (outcome (\<lambda>_. to_execute p u0 i0 calls) C B (erred p u0 i0 a))"
proof -
  have err: "erred p u0 i0 a e s" "terminal_events (ls_events s) = []"
    if "to_execute p u0 i0 calls s" for e and s :: "'a loop_state"
    using that by (auto intro!: erred_before(4) simp: assertion_defs)
  have keep: "to_execute p u0 i0 calls (s\<lparr>ls_doom := d\<rparr>)" if "to_execute p u0 i0 calls s"
    for s :: "'a loop_state" and d using that by (auto simp: assertion_defs)
  have verdict: "triple (to_execute p u0 i0 calls) (case found of
        None \<Rightarrow> ret ()
      | Some lt \<Rightarrow> seq (emit rt (EvDoomLoopDetected (ra_run_id a) (loop_description lt))) (\<lambda>_.
          fail_with rt a (DoomLoopError (loop_description lt))))
      (outcome (\<lambda>_. to_execute p u0 i0 calls) C B (erred p u0 i0 a))" for found
    by (cases found)
      (auto intro!: triple_ret triple_calm_seq calm_emit stable_intros triple_fail_with err)
  show ?thesis unfolding check_call_def
  proof (rule triple_get_seq)
    fix x :: "doom_loop_type option \<times> doom_loop_detector"
    show "triple (\<lambda>s. record_and_check (rt_hash rt) (ls_doom s) (tc_name c) (tc_arguments c) = x \<and>
          to_execute p u0 i0 calls s)
        (case x of (found, d) \<Rightarrow> seq (act_modify (\<lambda>s. s\<lparr>ls_doom := d\<rparr>)) (\<lambda>_. case found of
           None \<Rightarrow> ret ()
         | Some lt \<Rightarrow> seq (emit rt (EvDoomLoopDetected (ra_run_id a) (loop_description lt))) (\<lambda>_.
             fail_with rt a (DoomLoopError (loop_description lt)))))
        (outcome (\<lambda>_. to_execute p u0 i0 calls) C B (erred p u0 i0 a))"
      unfolding prod.case_eq_if
      by (rule triple_modify_seq [where Q = "to_execute p u0 i0 calls"], rule keep, simp, rule verdict)
  qed
qed

lemma erred_to_execute: "to_execute p u0 i0 calls s \<Longrightarrow> erred p u0 i0 a e s"
  by (auto intro!: erred_before(4) simp: to_execute_def)

lemma triple_to_execute_seq:
  assumes "calm m"
    and "\<And>x. triple (to_execute p u0 i0 calls) (f x) (outcome N C B (erred p u0 i0 a))"
  shows "triple (to_execute p u0 i0 calls) (seq m f) (outcome N C B (erred p u0 i0 a))"
  using assms by (intro triple_calm_seq stable_intros erred_to_execute)

lemma to_execute_resume:
  "to_execute p u0 i0 calls s \<Longrightarrow> to_execute p u0 i0 calls (s\<lparr>ls_resume := TsCheckingPolicy\<rparr>)"
  by (auto simp: assertion_defs)

lemma executing_triple:
  "triple (to_execute p u0 i0 calls) (executing_tools rt a calls)
     (outcome (\<lambda>_. to_execute p u0 i0 calls) C B (erred p u0 i0 a))"
proof -
  have rest: "triple (to_execute p u0 i0 calls)
      (seq (act_list (check_call rt a) calls) (\<lambda>_.
       seq (effect (rt_execute_batch rt calls (ra_session_id a) msg_id)) (\<lambda>outcomes.
       act_list (commit_tool_message rt a) outcomes)))
      (outcome (\<lambda>_. to_execute p u0 i0 calls) C B (erred p u0 i0 a))" for msg_id
    by (rule triple_seq [OF triple_list [OF check_call_triple]])
      (intro triple_to_execute_seq triple_calm calm_intros stable_intros erred_to_execute)
  show ?thesis unfolding executing_tools_def
    by (rule triple_get_seq, rule triple_when,
        rule triple_modify_seq [where Q = "to_execute p u0 i0 calls"],
        blast intro: to_execute_resume,
        rule triple_to_execute_seq [OF calm_save_snapshot],
        rule triple_to_execute_seq [OF calm_set_status],
        rule triple_to_execute_seq [OF calm_basic(3)],
        rule triple_to_execute_seq [OF calm_ok_or], rule rest, simp)
qed

lemma persisting_triple:
  "triple (to_execute p u0 i0 calls) (persisting rt a)
     (outcome (\<lambda>_. to_execute p u0 i0 calls) C B (erred p u0 i0 a))"
proof -
  have decide: "triple (\<lambda>s. ls_finish s = f \<and> to_execute p u0 i0 calls s)
      (seq (ok_or f ''last finish missing in Persisting'') (\<lambda>finish.
       case resolve (rt_dbg rt) TsPersisting
              (if finish = ToolCallsReason then OutSuccess else OutNotToolCalls finish) of
         ActBreakLoop \<Rightarrow> break_loop | ActContinue _ \<Rightarrow> ret () | _ \<Rightarrow> panic))
      (outcome (\<lambda>_. to_execute p u0 i0 calls) C B (erred p u0 i0 a))" for f
  proof (cases "f = Some ToolCallsReason")
    case True
    then show ?thesis by (auto intro: triple_ret simp: ok_or_def)
  next
    case False
    then show ?thesis by (intro triple_false) (auto simp: to_execute_def)
  qed
  show ?thesis unfolding persisting_def
    by (rule triple_get_seq, rule triple_when,
        rule triple_modify_seq [where Q = "to_execute p u0 i0 calls"],
        blast intro: to_execute_resume,
        rule triple_to_execute_seq [OF calm_save_snapshot],
        rule triple_to_execute_seq [OF calm_set_status], rule triple_get_seq, rule decide, simp)
qed

section \<open>The loop\<close>

lemma turn_body_triple:
  assumes p: "p = rt_policy rt"
  shows "triple (at_head p u0 i0) (turn_body rt a)
    (outcome (\<lambda>_. at_head p u0 i0) (at_head p u0 i0) (finished p u0 i0) (erred p u0 i0 a))"
  unfolding turn_body_def
proof (rule triple_seq [OF checking_triple [OF p]], rule triple_seq [OF building_triple],
    rule triple_seq [OF calling_triple], unfold prod.case_eq_if,
    rule triple_seq [OF processing_triple [OF p]], rule triple_seq [OF executing_triple],
    rule triple_seq [OF persisting_triple], rule triple_modify)
  show "at_head p u0 i0 (s\<lparr>ls_message := None, ls_msg_id := None\<rparr>)"
    if "to_execute p u0 i0 calls s" for calls and s :: "'a loop_state"
    using that by (auto simp: assertion_defs)
qed

text \<open>How the loop ends, if the fuel suffices.\<close>

definition completed ::
  "runtime_policy \<Rightarrow> token_usage \<Rightarrow> usize \<Rightarrow> run_args \<Rightarrow> run_output \<Rightarrow> 'e loop_state \<Rightarrow> bool" where
  "completed p u0 i0 a out s \<longleftrightarrow>
     accounted p u0 s \<and> model_iterations (ls_events s) = [Suc i0..<Suc (ls_iteration s)] \<and>
     i0 < ls_iteration s \<and> ls_iteration s \<le> max_iterations p \<and>
     (\<exists>es t. ls_events s = es @ [EvRunCompleted (ra_run_id a) (ro_finish_reason out) (ro_iterations out) t] \<and>
        terminal_events es = []) \<and>
     out = \<lparr>ro_run_id = ra_run_id a, ro_session_id = ra_session_id a, ro_iterations = ls_iteration s,
            ro_finish_reason = the (ls_finish s), ro_total_usage = ls_usage s\<rparr> \<and>
     (\<exists>m f. ls_message s = Some m \<and> ls_finish s = Some f \<and>
        (tool_calls m = [] \<or> f \<noteq> ToolCallsReason) \<and>
        (f = LengthReason \<longrightarrow> unat (ls_recoveries s) = max_output_recovery_attempts p))"

lemma complete_triple:
  "triple (finished p u0 i0) (complete_run rt a) (outcome (completed p u0 i0 a) C B (erred p u0 i0 a))"
  unfolding complete_run_def
proof (rule triple_calm_seq, rule calm_intros, intro stable_intros)
  show "erred p u0 i0 a e s" if "finished p u0 i0 s" for e and s :: "'a loop_state"
    using that by (auto intro!: erred_before(4) simp: finished_def)
next
  fix u :: unit
  show "triple (finished p u0 i0)
      (seq (act_get (\<lambda>s. (case ls_finish s of Some f \<Rightarrow> f | None \<Rightarrow> Stop, ls_iteration s, ls_usage s)))
       (\<lambda>(finish, i, u).
       seq (emit rt (EvRunCompleted (ra_run_id a) finish i)) (\<lambda>_.
       ret \<lparr>ro_run_id = ra_run_id a, ro_session_id = ra_session_id a, ro_iterations = i,
            ro_finish_reason = finish, ro_total_usage = u\<rparr>)))
      (outcome (completed p u0 i0 a) C B (erred p u0 i0 a))"
    unfolding prod.case_eq_if
  proof (rule triple_get_seq, rule triple_seq [OF triple_emit triple_ret])
    fix x :: "finish_reason \<times> usize \<times> token_usage"
    show "stable (\<lambda>s :: 'a loop_state. (case ls_finish s of Some f \<Rightarrow> f | None \<Rightarrow> Stop, ls_iteration s, ls_usage s) = x \<and>
        finished p u0 i0 s)"
      unfolding stable_def quiet_def assertion_defs by (auto simp: quiet_event_list)
    show "completed p u0 i0 a \<lparr>ro_run_id = ra_run_id a, ro_session_id = ra_session_id a,
        ro_iterations = fst (snd x), ro_finish_reason = fst x, ro_total_usage = snd (snd x)\<rparr> s"
      if "\<exists>s' :: 'a loop_state. \<exists>t. ((case ls_finish s' of Some f \<Rightarrow> f | None \<Rightarrow> Stop, ls_iteration s', ls_usage s') = x \<and>
          finished p u0 i0 s') \<and> s = s'\<lparr>ls_events := ls_events s' @ [EvRunCompleted (ra_run_id a) (fst x) (fst (snd x)) t]\<rparr>" for s
      using that by (auto simp: completed_def assertion_defs is_usage_recorded_def is_model_started_def)
  qed blast
qed

lemma run_loop_inner_cases:
  assumes "at_head (rt_policy rt) u0 i0 s" and "run_loop_inner n rt a s = Some (r, s')"
  shows "outcome (completed (rt_policy rt) u0 i0 a) (\<lambda>_. False) (\<lambda>_. False) (erred (rt_policy rt) u0 i0 a) r s'"
  using assms
proof (induction n arbitrary: s)
  case (Suc n)
  obtain r1 s1 where step: "turn_body rt a s = (r1, s1)" by fastforce
  have o: "outcome (\<lambda>_. at_head (rt_policy rt) u0 i0) (at_head (rt_policy rt) u0 i0)
      (finished (rt_policy rt) u0 i0) (erred (rt_policy rt) u0 i0 a) r1 s1"
    using turn_body_triple [OF refl, of rt u0 i0 a] Suc.prems(1) step unfolding triple_def by (metis fst_conv snd_conv)
  show ?case
  proof (cases r1)
    case Break_Loop
    then have "finished (rt_policy rt) u0 i0 s1" using o by simp
    then have "outcome (completed (rt_policy rt) u0 i0 a) (\<lambda>_. False) (\<lambda>_. False)
        (erred (rt_policy rt) u0 i0 a) (fst (complete_run rt a s1)) (snd (complete_run rt a s1))"
      using complete_triple [of "rt_policy rt" u0 i0 rt a "\<lambda>_. False" "\<lambda>_. False"] by (simp add: triple_def)
    then show ?thesis using Break_Loop Suc.prems(2) step by simp
  qed (use o Suc step in \<open>auto\<close>)
qed simp

end
