(* ===== verification/Run_Loop_Progress.thy ===== *)
theory Run_Loop_Progress
  imports Run_Loop_Calm
begin

text \<open>
  Progress of the turn loop: what one execution of the body does to the iteration and to
  \<open>resume_from\<close>, from any state, and the fuel the loop therefore needs.
\<close>

definition keeps :: "'e loop_state \<Rightarrow> 'e loop_state \<Rightarrow> bool" where
  "keeps s s' \<longleftrightarrow> ls_iteration s' = ls_iteration s \<and> ls_resume s' = ls_resume s"

interpretation keeps: step_relation keeps
  by unfold_locales (simp_all add: keeps_def)

lemmas keeps_intros = keeps.relates_ret keeps.relates_exit keeps.relates_get keeps.relates_seq
  keeps.relates_when keeps.relates_list keeps.relates_try

lemma keeps_calm: "calm m \<Longrightarrow> relates keeps m"
  by (auto simp: calm_def relates_def quiet_def keeps_def)

lemma keeps_modify: "(\<And>s. keeps s (g s)) \<Longrightarrow> relates keeps (act_modify g)"
  by (rule keeps.relates_modify)

lemma keeps_emit: "relates keeps (emit rt mk)"
  unfolding emit_def by (intro keeps_intros keeps_calm [OF calm_attempt] keeps_modify) (simp add: keeps_def)

lemma keeps_fail_with: "relates keeps (fail_with rt a e)"
  unfolding fail_with_def fail_run_def
  by (intro keeps_intros keeps_calm [OF calm_attempt] keeps_emit)

lemma keeps_act_on_policy: "relates keeps (act_on_policy rt a i u)"
  unfolding act_on_policy_def by (auto split: turn_action.splits intro!: keeps_intros keeps_fail_with)

lemma keeps_call_or_compact: "relates keeps (call_or_compact rt a q)"
  unfolding call_or_compact_def
  by (auto split: turn_action.splits sum.splits
      intro!: keeps_intros keeps_calm [OF calm_call_model] keeps_calm [OF calm_question]
        keeps_calm [OF calm_reactive])

lemma keeps_commit_reply: "relates keeps (commit_reply rt a reply)"
  unfolding commit_reply_def record_usage_def
  by (auto split: prod.splits option.splits
      intro!: keeps_intros keeps_emit keeps_calm [OF calm_effect] keeps_calm [OF calm_cache_metrics]
        keeps_modify simp: keeps_def)

lemma keeps_recover: "relates keeps (recover_truncated rt a)"
  unfolding recover_truncated_def
  by (auto split: turn_action.splits intro!: keeps_intros keeps_calm [OF calm_effect] keeps_modify
      simp: keeps_def)

lemma keeps_select_calls: "relates keeps (select_calls rt msg f)"
  unfolding select_calls_def Let_def by (auto split: turn_action.splits intro!: keeps_intros)

lemma keeps_check_call: "relates keeps (check_call rt a c)"
  unfolding check_call_def
  by (auto split: prod.splits option.splits
      intro!: keeps_intros keeps_emit keeps_fail_with keeps_modify simp: keeps_def)

section \<open>The sections\<close>

text \<open>A section with resume points \<open>A\<close> moves \<open>resume_from\<close> to \<open>CheckingPolicy\<close> when it runs.\<close>

definition advances :: "turn_state set \<Rightarrow> ('a, 'e loop_state) act \<Rightarrow> bool" where
  "advances A m \<longleftrightarrow>
     (\<forall>s. ls_iteration (snd (m s)) = ls_iteration s \<and>
          ls_resume (snd (m s)) = (if ls_resume s \<in> A then TsCheckingPolicy else ls_resume s) \<and>
          (ls_resume s \<notin> A \<longrightarrow> fst (m s) \<noteq> Continue_Loop))"

lemma advances_when:
  assumes "relates keeps m" and "\<And>r. c r = (r \<in> A)"
  shows "advances A (seq (act_get ls_resume) (\<lambda>r.
    act_when (c r) (seq (act_modify (\<lambda>s. s\<lparr>ls_resume := TsCheckingPolicy\<rparr>)) (\<lambda>_. m))))"
  using assms unfolding advances_def relates_def keeps_def
  by (auto simp: seq_def act_get_def act_modify_def act_when_def ret_def)

lemma advances_if:
  assumes "relates keeps m" and "\<And>r. c r = (r \<in> A)"
  shows "advances A (seq (act_get ls_resume) (\<lambda>r.
    if c r then seq (act_modify (\<lambda>s. s\<lparr>ls_resume := TsCheckingPolicy\<rparr>)) (\<lambda>_. m) else act_get g))"
  using assms unfolding advances_def relates_def keeps_def
  by (auto simp: seq_def act_get_def act_modify_def)

lemma seq_assoc: "seq (seq m f) g = seq m (\<lambda>x. seq (f x) g)"
  by (auto simp: seq_def fun_eq_iff split: prod.splits flow.splits)

lemma advances_calling: "advances {TsCheckingPolicy, TsCallingModel} (calling_model rt a req)"
proof -
  have inner: "relates keeps (seq (save_snapshot rt a TsCallingModel) (\<lambda>_.
      seq (seq (set_status rt a (status_for TsCallingModel)) (\<lambda>_.
      seq (act_get ls_iteration) (\<lambda>i.
      emit rt (EvModelStarted (ra_run_id a) (rq_provider (ra_request a)) (rq_model (ra_request a)) i)))) (\<lambda>_.
      seq (take_request req) (\<lambda>q. seq (call_or_compact rt a q) (\<lambda>reply. commit_reply rt a reply)))))"
    by (intro keeps_intros keeps_emit keeps_call_or_compact keeps_commit_reply
        keeps_calm [OF calm_save_snapshot] keeps_calm [OF calm_set_status] keeps_calm [OF calm_take_request])
  have "advances {TsCheckingPolicy, TsCallingModel} (seq (act_get ls_resume) (\<lambda>resume.
      act_when (resume = TsCheckingPolicy \<or> resume = TsCallingModel) (
       seq (start_model rt a) (\<lambda>_. seq (take_request req) (\<lambda>q.
       seq (call_or_compact rt a q) (\<lambda>reply. commit_reply rt a reply))))))"
    unfolding start_model_def seq_assoc
    by (rule advances_when) (use inner in \<open>simp_all add: seq_assoc\<close>)
  moreover have "advances A (seq m (\<lambda>_. act_get g))" if "advances A m" for A g and m :: "(unit, 'a) step"
    using that unfolding advances_def seq_def act_get_def
    by (auto split: prod.splits flow.splits) (metis fst_conv snd_conv)+
  ultimately show ?thesis
    unfolding calling_model_def seq_assoc [symmetric] by blast
qed

lemma advances_processing:
  "advances {TsCheckingPolicy, TsProcessingResponse} (processing_response rt a msg f)"
  unfolding processing_response_def
  by (rule advances_if)
    (auto intro!: keeps_intros keeps_calm [OF calm_ok_or] keeps_recover keeps_select_calls)

lemma advances_executing: "advances {TsCheckingPolicy, TsExecutingTools} (executing_tools rt a calls)"
  unfolding executing_tools_def
  by (rule advances_when)
    (auto intro!: keeps_intros keeps_calm [OF calm_ok_or] keeps_calm [OF calm_save_snapshot]
      keeps_calm [OF calm_set_status] keeps_check_call keeps_calm [OF calm_effect]
      keeps_calm [OF calm_commit_tool_message])

lemma advances_persisting: "advances {TsCheckingPolicy, TsPersisting} (persisting rt a)"
  unfolding persisting_def
  by (rule advances_when)
    (auto split: turn_action.splits
      intro!: keeps_intros keeps_calm [OF calm_ok_or] keeps_calm [OF calm_save_snapshot]
        keeps_calm [OF calm_set_status])

lemma advances_building: "advances {} (building_context rt a)"
  using keeps_calm [OF calm_building_context, of rt a] calm_building_context [of rt a]
  unfolding advances_def relates_def keeps_def calm_def straight_def by (auto split: flow.splits)

lemma fail_with_errs: "fst (fail_with rt a e s) = Return_Err e"
  by (simp add: fail_with_def fail_run_def emit_def seq_def attempt_def act_modify_def return_err_def
      split: prod.splits)

lemma checking_progress:
  assumes "checking_policy rt a s = (r, s')"
  shows "ls_resume s' = ls_resume s"
    "ls_iteration s' = (if ls_resume s = TsCheckingPolicy then Suc (ls_iteration s) else ls_iteration s)"
    "r \<noteq> Continue_Loop"
    "r = Proceed () \<Longrightarrow> ls_resume s = TsCheckingPolicy \<Longrightarrow> ls_iteration s' \<le> max_iterations (rt_policy rt)"
proof -
  obtain r1 s1 where save: "save_snapshot rt a TsCheckingPolicy (s\<lparr>ls_iteration := ls_iteration s + 1\<rparr>) = (r1, s1)"
    by fastforce
  have k1: "keeps (s\<lparr>ls_iteration := ls_iteration s + 1\<rparr>) s1"
    using keeps_calm [OF calm_save_snapshot, of rt a TsCheckingPolicy] save
    unfolding relates_def by (metis snd_conv)
  have st: "r1 \<noteq> Continue_Loop" "r1 \<noteq> Break_Loop" "r1 \<noteq> Panic"
    using calm_save_snapshot [of rt a TsCheckingPolicy] save unfolding calm_def straight_def
    by (auto dest: spec [where x = "s\<lparr>ls_iteration := ls_iteration s + 1\<rparr>"])
  let ?act = "act_on_policy rt a (ls_iteration s1) (ls_usage s1) s1"
  have k2: "keeps s1 (snd ?act)" using keeps_act_on_policy unfolding relates_def by blast
  have ok: "fst ?act \<noteq> Continue_Loop"
    "fst ?act = Proceed () \<Longrightarrow> ls_iteration s1 \<le> max_iterations (rt_policy rt)"
    by (auto simp: act_on_policy_def policy_outcome_def fail_with_errs ret_def panic_def
        split: turn_action.splits option.splits if_splits)
  show "ls_resume s' = ls_resume s"
    "ls_iteration s' = (if ls_resume s = TsCheckingPolicy then Suc (ls_iteration s) else ls_iteration s)"
    "r \<noteq> Continue_Loop"
    "r = Proceed () \<Longrightarrow> ls_resume s = TsCheckingPolicy \<Longrightarrow> ls_iteration s' \<le> max_iterations (rt_policy rt)"
    using assms save st k1 k2 ok unfolding checking_policy_def keeps_def
    by (cases "ls_resume s = TsCheckingPolicy"; cases r1;
        auto simp: seq_def act_get_def act_modify_def act_when_def ret_def split: prod.splits)+
qed

lemma seq_goes_on:
  assumes "seq m f s = (r, s')" and "r = Proceed x \<or> r = Continue_Loop"
  obtains (here) "m s = (Continue_Loop, s')" "r = Continue_Loop"
  | (on) y t where "m s = (Proceed y, t)" "f y t = (r, s')"
  using assms by (auto simp: seq_def split: prod.splits flow.splits)

text \<open>One turn that does not leave the loop, entered at a point it can resume from.\<close>

definition resumable :: "turn_state set" where
  "resumable = {TsCheckingPolicy, TsCallingModel, TsProcessingResponse, TsExecutingTools, TsPersisting}"

definition moved :: "usize \<Rightarrow> turn_state set \<Rightarrow> 'e loop_state \<Rightarrow> bool" where
  "moved i S s \<longleftrightarrow> ls_iteration s = i \<and> ls_resume s \<in> S"

lemma advances_moved:
  assumes "advances A m" and "m s = (r, s')" and "TsCheckingPolicy \<in> A" and "moved i S s"
  shows "moved i (insert TsCheckingPolicy (S - A)) s'"
    "r = Continue_Loop \<Longrightarrow> moved i {TsCheckingPolicy} s'"
  using assms unfolding advances_def moved_def by (auto dest!: spec [where x = s] split: if_splits)

lemma after_checking:
  assumes rest: "seq (building_context rt a) (\<lambda>req. seq (calling_model rt a req) (\<lambda>(msg, finish).
     seq (processing_response rt a msg finish) (\<lambda>calls. seq (executing_tools rt a calls) (\<lambda>_.
     seq (persisting rt a) (\<lambda>_. act_modify (\<lambda>s. s\<lparr>ls_message := None, ls_msg_id := None\<rparr>)))))) s = (r, s')"
    and r: "r = Proceed () \<or> r = Continue_Loop" and s: "moved i resumable s"
  shows "moved i {TsCheckingPolicy} s'"
  using rest r
proof (cases rule: seq_goes_on)
  case here
  then show ?thesis using advances_building [of rt a] by (auto simp: advances_def dest!: spec [where x = s])
next
  case (on req s2)
  have s2: "moved i resumable s2"
    using advances_building [of rt a] on(1) s by (auto simp: advances_def moved_def dest!: spec [where x = s])
  from on(2) r show ?thesis
  proof (cases rule: seq_goes_on)
    case here
    then show ?thesis using advances_moved(2) [OF advances_calling _ _ s2] by blast
  next
    case (on mf s3)
    have s3: "moved i {TsCheckingPolicy, TsProcessingResponse, TsExecutingTools, TsPersisting} s3"
      using advances_moved(1) [OF advances_calling on(1) _ s2]
      by (auto simp: moved_def resumable_def)
    obtain msg finish where mf: "mf = (msg, finish)" by fastforce
    from on(2)[unfolded mf prod.case] r show ?thesis
    proof (cases rule: seq_goes_on)
      case here
      then show ?thesis using advances_moved(2) [OF advances_processing _ _ s3] by blast
    next
      case (on calls s4)
      have s4: "moved i {TsCheckingPolicy, TsExecutingTools, TsPersisting} s4"
        using advances_moved(1) [OF advances_processing on(1) _ s3] by (auto simp: moved_def)
      from on(2) r show ?thesis
      proof (cases rule: seq_goes_on)
        case here
        then show ?thesis using advances_moved(2) [OF advances_executing _ _ s4] by blast
      next
        case (on u s5)
        have s5: "moved i {TsCheckingPolicy, TsPersisting} s5"
          using advances_moved(1) [OF advances_executing on(1) _ s4] by (auto simp: moved_def)
        from on(2) r show ?thesis
        proof (cases rule: seq_goes_on)
          case here
          then show ?thesis using advances_moved(2) [OF advances_persisting _ _ s5] by blast
        next
          case (on u s6)
          have "moved i {TsCheckingPolicy} s6"
            using advances_moved(1) [OF advances_persisting on(1) _ s5] by (auto simp: moved_def)
          then show ?thesis using on(2) by (auto simp: act_modify_def moved_def)
        qed
      qed
    qed
  qed
qed

lemma turn_body_progress:
  assumes body: "turn_body rt a s = (r, s')" and r: "r = Proceed () \<or> r = Continue_Loop"
    and s: "ls_resume s \<in> resumable"
  shows "ls_resume s' = TsCheckingPolicy \<and>
    ls_iteration s' = (if ls_resume s = TsCheckingPolicy then Suc (ls_iteration s) else ls_iteration s) \<and>
    (ls_resume s = TsCheckingPolicy \<longrightarrow> ls_iteration s' \<le> max_iterations (rt_policy rt))"
  using body [unfolded turn_body_def] r
proof (cases rule: seq_goes_on)
  case here
  then show ?thesis using checking_progress(3) by blast
next
  case (on u s1)
  note c = checking_progress(1,2) [OF on(1)] checking_progress(4) [OF on(1)]
  have "moved (ls_iteration s1) resumable s1" using s c(1) by (simp add: moved_def)
  from after_checking [OF on(2) r this] c show ?thesis by (auto simp: moved_def)
qed

lemma run_loop_inner_returns_checking:
  assumes "ls_resume s = TsCheckingPolicy" and "max_iterations (rt_policy rt) < n + ls_iteration s" and "n > 0"
  shows "run_loop_inner n rt a s \<noteq> None"
  using assms
proof (induction n arbitrary: s)
  case (Suc n)
  obtain r1 s1 where step: "turn_body rt a s = (r1, s1)" by fastforce
  have IH: "run_loop_inner n rt a s1 \<noteq> None" if "r1 = Proceed () \<or> r1 = Continue_Loop"
  proof -
    have "ls_resume s1 = TsCheckingPolicy" "ls_iteration s1 = Suc (ls_iteration s)"
      "ls_iteration s1 \<le> max_iterations (rt_policy rt)"
      using turn_body_progress [OF step that] Suc.prems(1) by (auto simp: resumable_def)
    with Suc show ?thesis by auto
  qed
  then show ?case using step by (cases r1) auto
qed simp

lemma run_loop_inner_returns:
  assumes "ls_resume s \<in> resumable" and "max_iterations (rt_policy rt) + 2 \<le> n + ls_iteration s" and "n > 1"
  shows "run_loop_inner n rt a s \<noteq> None"
proof -
  obtain k where n: "n = Suc k" using assms(3) by (cases n) auto
  obtain r1 s1 where step: "turn_body rt a s = (r1, s1)" by fastforce
  have "run_loop_inner k rt a s1 \<noteq> None" if "r1 = Proceed () \<or> r1 = Continue_Loop"
    using turn_body_progress [OF step that assms(1)] assms(2,3) n
    by (intro run_loop_inner_returns_checking) (auto split: if_splits)
  then show ?thesis using step n by (cases r1) auto
qed

end
