(* ===== verification/Run_State.thy ===== *)
theory Run_State
  imports Agent_Events
begin

text \<open>
  Event-sourced reconstruction of a run (\<open>behest-runtime/src/state.rs\<close>): the projected state, the
  fold of one event and the fold of a log.
\<close>

record run_event_record =
  er_sequence :: u64
  er_run_id :: run_id
  er_event :: agent_event
  er_timestamp :: timestamp

definition event_record_new :: "timestamp \<Rightarrow> u64 \<Rightarrow> run_id \<Rightarrow> agent_event \<Rightarrow> run_event_record" where
  "event_record_new now n r e =
     \<lparr>er_sequence = n, er_run_id = r, er_event = e, er_timestamp = now\<rparr>"

record run_projection =
  rp_run_id :: run_id
  rp_session_id :: uuid
  rp_status :: run_status
  rp_provider :: provider_id
  rp_model :: model_name
  rp_metadata :: json
  rp_iteration :: usize
  rp_total_usage :: token_usage
  rp_last_finish :: "finish_reason option"
  rp_last_error :: "string option"
  rp_event_count :: usize
  rp_created_at :: timestamp
  rp_updated_at :: timestamp

fun apply_event :: "run_projection \<Rightarrow> agent_event \<Rightarrow> run_projection" where
  "apply_event s (EvRunStarted _ _ p m t) =
     s\<lparr>rp_status := StSessionLoaded, rp_provider := p, rp_model := m, rp_updated_at := t\<rparr>"
| "apply_event s (EvModelStarted _ _ _ i t) =
     s\<lparr>rp_iteration := i, rp_status := StCallingModel, rp_updated_at := t\<rparr>"
| "apply_event s (EvUsageRecorded _ u t) =
     s\<lparr>rp_total_usage := usage_merge (rp_total_usage s) u, rp_updated_at := t\<rparr>"
| "apply_event s (EvCacheMetrics _ _ _ _ t) = s\<lparr>rp_updated_at := t\<rparr>"
| "apply_event s (EvRunCompleted _ f _ t) =
     s\<lparr>rp_status := StCompleted, rp_last_finish := Some f, rp_updated_at := t\<rparr>"
| "apply_event s (EvRunFailed _ e t) =
     s\<lparr>rp_status := StFailed, rp_last_error := Some e, rp_updated_at := t\<rparr>"
| "apply_event s (EvRunCancelled _ t) = s\<lparr>rp_status := StCancelled, rp_updated_at := t\<rparr>"
| "apply_event s (EvContextBuilt _ _ t) = s\<lparr>rp_updated_at := t\<rparr>"
| "apply_event s (EvTextDelta _ _ t) = s\<lparr>rp_updated_at := t\<rparr>"
| "apply_event s (EvToolCallStarted _ _ _ t) = s\<lparr>rp_updated_at := t\<rparr>"
| "apply_event s (EvToolCallDelta _ _ _ t) = s\<lparr>rp_updated_at := t\<rparr>"
| "apply_event s (EvToolCallCompleted _ _ t) = s\<lparr>rp_updated_at := t\<rparr>"
| "apply_event s (EvToolExecutionStarted _ _ _ t) = s\<lparr>rp_updated_at := t\<rparr>"
| "apply_event s (EvToolExecutionFinished _ _ _ _ _ t) = s\<lparr>rp_updated_at := t\<rparr>"
| "apply_event s (EvAssistantMessageCommitted _ _ t) = s\<lparr>rp_updated_at := t\<rparr>"
| "apply_event s (EvToolMessageCommitted _ _ t) = s\<lparr>rp_updated_at := t\<rparr>"
| "apply_event s (EvDoomLoopDetected _ _ t) = s\<lparr>rp_updated_at := t\<rparr>"
| "apply_event s (EvCompactionCircuitOpened _ _ t) = s\<lparr>rp_updated_at := t\<rparr>"

definition run_state_create :: "run_record \<Rightarrow> run_event_record list \<Rightarrow> run_projection" where
  "run_state_create rec evs =
     (let updated = (if evs = [] then rr_updated_at rec else er_timestamp (last evs));
          s = \<lparr>rp_run_id = rr_id rec, rp_session_id = rr_session_id rec, rp_status = StPending,
               rp_provider = rr_provider rec, rp_model = rr_model rec, rp_metadata = rr_metadata rec,
               rp_iteration = 0, rp_total_usage = usage_new 0 0, rp_last_finish = None,
               rp_last_error = None, rp_event_count = length evs, rp_created_at = rr_created_at rec,
               rp_updated_at = updated\<rparr>
      in foldl apply_event s (map er_event evs))"

section \<open>The fold\<close>

lemma apply_event_usage:
  "rp_total_usage (apply_event s e) = foldl usage_merge (rp_total_usage s) (recorded_usages [e])"
  by (cases e) (simp_all add: is_usage_recorded_def)

lemma foldl_apply_usage:
  "rp_total_usage (foldl apply_event s evs) = foldl usage_merge (rp_total_usage s) (recorded_usages evs)"
proof (induction evs arbitrary: s)
  case (Cons e evs)
  have "recorded_usages (e # evs) = recorded_usages [e] @ recorded_usages evs"
    by (metis append_Cons append_Nil recorded_usages_simps(2))
  with Cons show ?case by (simp add: apply_event_usage)
qed simp

lemma foldl_apply_count: "rp_event_count (foldl apply_event s evs) = rp_event_count s"
proof -
  have "rp_event_count (apply_event s e) = rp_event_count s" for s e by (cases e) simp_all
  then show ?thesis by (induction evs arbitrary: s) simp_all
qed

lemma foldl_apply_updated:
  "evs \<noteq> [] \<Longrightarrow> rp_updated_at (foldl apply_event s evs) = event_timestamp (last evs)"
proof (induction evs rule: rev_induct)
  case (snoc e evs)
  show ?case by (cases e) simp_all
qed simp

text \<open>The iteration, status and finish a log implies.\<close>

lemma foldl_apply_iteration:
  "\<forall>e\<in>set evs. \<not> is_model_started e \<Longrightarrow> rp_iteration (foldl apply_event s evs) = rp_iteration s"
proof (induction evs arbitrary: s)
  case (Cons e evs)
  then have "rp_iteration (apply_event s e) = rp_iteration s"
    by (cases e) (simp_all add: is_model_started_def)
  with Cons show ?case by simp
qed simp

text \<open>Token accounting by replay. Reconstructing a run from any event log yields as total usage the
  merge of exactly the recorded usages in the log, in order, starting from zero, counts the events of
  the log, and takes the time of the last event as the update time.\<close>

theorem replay_accounts_usage:
  "rp_total_usage (run_state_create rec evs) =
     foldl usage_merge (usage_new 0 0) (recorded_usages (map er_event evs)) \<and>
   rp_event_count (run_state_create rec evs) = length evs \<and>
   rp_updated_at (run_state_create rec evs) =
     (if evs = [] then rr_updated_at rec else event_timestamp (er_event (last evs)))"
  by (simp add: run_state_create_def Let_def foldl_apply_usage foldl_apply_count
      foldl_apply_updated last_map)

text \<open>Incremental application against reload. Applying further events to a reconstructed state
  gives the state reconstructed from the longer log in every field but the event count, which
  \<open>apply\<close> leaves as it was.\<close>

theorem incremental_apply_matches_reload:
  assumes "evs' \<noteq> []"
  shows "foldl apply_event (run_state_create rec evs) (map er_event evs') =
    (run_state_create rec (evs @ evs'))\<lparr>rp_event_count := length evs\<rparr>"
proof -
  have count: "apply_event (s\<lparr>rp_event_count := n\<rparr>) e = (apply_event s e)\<lparr>rp_event_count := n\<rparr>"
    for s e n by (cases e) simp_all
  have foldc: "foldl apply_event (s\<lparr>rp_event_count := n\<rparr>) es =
      (foldl apply_event s es)\<lparr>rp_event_count := n\<rparr>" for s es n
    by (induction es arbitrary: s) (simp_all add: count)
  have upd: "apply_event (s\<lparr>rp_updated_at := n\<rparr>) e = apply_event s e" for s e n
    by (cases e) simp_all
  have foldu: "es \<noteq> [] \<Longrightarrow> foldl apply_event (s\<lparr>rp_updated_at := n\<rparr>) es = foldl apply_event s es"
    for s es n by (cases es) (simp_all add: upd)
  define s where "s n t = \<lparr>rp_run_id = rr_id rec, rp_session_id = rr_session_id rec,
      rp_status = StPending, rp_provider = rr_provider rec, rp_model = rr_model rec,
      rp_metadata = rr_metadata rec, rp_iteration = 0, rp_total_usage = usage_new 0 0,
      rp_last_finish = None, rp_last_error = None, rp_event_count = n,
      rp_created_at = rr_created_at rec, rp_updated_at = t\<rparr>" for n t
  have c: "run_state_create rec es = foldl apply_event (s (length es) (if es = [] then rr_updated_at rec
      else er_timestamp (last es))) (map er_event es)" for es
    by (simp add: run_state_create_def s_def)
  have u: "foldl apply_event (s n t) es = foldl apply_event (s n t') es" if "es \<noteq> []" for n t t' es
    using foldu [OF that, where s = "s n t'" and n = t] by (simp add: s_def)
  have k: "foldl apply_event (s n t) es = (foldl apply_event (s m t) es)\<lparr>rp_event_count := n\<rparr>"
    for n m t es using foldc [where s = "s m t" and n = n and es = es] by (simp add: s_def)
  let ?all = "map er_event evs @ map er_event evs'"
  have ne: "?all \<noteq> []" using assms by simp
  show ?thesis unfolding c map_append
    by (metis foldl_append k u [OF ne] length_append)
qed

lemma incremental_apply_matches_reload_witness:
  "foldl apply_event (run_state_create (run_record_new 1 ''r'' ''s'' ''p'' ''m'' JNull None) [])
     [EvRunCancelled ''r'' 9] =
   (run_state_create (run_record_new 1 ''r'' ''s'' ''p'' ''m'' JNull None)
     [event_record_new 9 1 ''r'' (EvRunCancelled ''r'' 9)])\<lparr>rp_event_count := 0\<rparr>"
  using incremental_apply_matches_reload [of "[event_record_new 9 1 ''r'' (EvRunCancelled ''r'' 9)]"
      "run_record_new 1 ''r'' ''s'' ''p'' ''m'' JNull None" "[]"]
  by (simp add: event_record_new_def)

end
