(* ===== verification/Run_Loop_Properties.thy ===== *)
theory Run_Loop_Properties
  imports Run_Loop_Safety Run_Loop_Progress Run_State
begin

text \<open>
  The properties of the turn loop as a whole: it returns, how often and under which conditions it
  calls the model, what its result and its events say, and where resuming it goes wrong. The runtime
  of the examples answers every request with a fixed reply.
\<close>

section \<open>Starting the loop\<close>

text \<open>The loop's variables as \<open>run\<close> sets them up.\<close>

definition loop_start :: "'e \<Rightarrow> runtime_policy \<Rightarrow> 'e loop_state" where
  "loop_start env p =
     \<lparr>ls_env = env, ls_events = [], ls_iteration = 0, ls_usage = usage_new 0 0, ls_finish = None,
      ls_message = None, ls_msg_id = None, ls_resume = TsCheckingPolicy,
      ls_doom = detector_new (rp_doom_loop p),
      ls_breaker = runtime_breaker_new (cfg_circuit_breaker_threshold (rp_compaction p)),
      ls_recoveries = 0\<rparr>"

lemma at_head_start: "at_head p (usage_new 0 0) 0 (loop_start env p)"
  by (simp add: at_head_def running_def accounted_def loop_start_def)

text \<open>A runtime over the trivial environment whose provider always gives the same response.\<close>

definition echo_runtime :: "runtime_policy \<Rightarrow> chat_response \<Rightarrow> (unit, unit) runtime" where
  "echo_runtime p resp =
     \<lparr>rt_policy = p, rt_provider_id = ''p'', rt_caps = caps_chat, rt_hash = (\<lambda>_ _. 0),
      rt_parse = (\<lambda>_. None), rt_order = (\<lambda>xs. xs), rt_dbg = (\<lambda>_ _. ('''', '''')),
      rt_instant = (\<lambda>_. 0), rt_now = (\<lambda>e. (0, e)), rt_save_snapshot = None,
      rt_delete_snapshot = None, rt_update_status = (\<lambda>_ _ e. (Inr (), e)),
      rt_list_messages = (\<lambda>_ e. (Inr (), e)),
      rt_compact_if_needed = (\<lambda>_ _ _ _ e. (Inr None, e)),
      rt_compact_after_overflow = (\<lambda>_ _ _ _ e. (Inl (RecoveryFailed ''''), e)),
      rt_build_context = (\<lambda>_ m _ _ e. (Inr (chat_request_new m), e)),
      rt_stream = (\<lambda>_ _ e. (None, e)), rt_complete = (\<lambda>_ _ e. (Some (Inr resp), e)),
      rt_append_message = (\<lambda>_ _ e. (Inr ''i'', e)), rt_execute_batch = (\<lambda>_ _ _ e. (Inr [], e)),
      rt_event_stores = []\<rparr>"

definition hello_response :: chat_response where
  "hello_response =
     \<lparr>resp_provider = ''p'', resp_model = ''m'', resp_message = assistant_text ''hi'',
      resp_finish = Stop, resp_usage = Some (usage_new 7 2), resp_raw = None\<rparr>"

definition hello_args :: run_args where
  "hello_args =
     \<lparr>ra_run_id = ''r'', ra_session_id = ''s'', ra_request = run_request_new ''p'' ''m'' ''hello'',
      ra_tool_specs = [], ra_has_tools = False\<rparr>"

definition hello_events :: "agent_event list" where
  "hello_events =
     [EvContextBuilt ''r'' 0 0, EvModelStarted ''r'' ''p'' ''m'' 1 0, EvTextDelta ''r'' ''hi'' 0,
      EvUsageRecorded ''r'' (usage_new 7 2) 0, EvAssistantMessageCommitted ''r'' ''i'' 0,
      EvRunCompleted ''r'' Stop 1 0]"

definition hello_output :: run_output where
  "hello_output =
     \<lparr>ro_run_id = ''r'', ro_session_id = ''s'', ro_iterations = 1, ro_finish_reason = Stop,
      ro_total_usage = usage_merge (usage_new 0 0) (usage_new 7 2)\<rparr>"

lemmas loop_run_defs = run_loop_def turn_body_def checking_policy_def act_on_policy_def
  policy_outcome_def building_context_def proactive_compaction_def calling_model_def start_model_def
  take_request_def call_or_compact_def call_model_def call_complete_def commit_reply_def
  record_usage_def emit_cache_metrics_def processing_response_def ok_or_def select_calls_def
  response_outcome_def executing_tools_def persisting_def complete_run_def fail_with_def fail_run_def
  save_snapshot_def delete_snapshot_def set_status_def effect_def emit_def attempt_def seq_def ret_def
  act_get_def act_modify_def act_when_def act_try_def return_err_def break_loop_def

lemma hello_run:
  "run_loop 2 (echo_runtime runtime_policy_default hello_response) hello_args
     (loop_start () runtime_policy_default) =
   Some (Proceed hello_output,
     (loop_start () runtime_policy_default)\<lparr>ls_events := hello_events, ls_iteration := 1,
       ls_usage := usage_merge (usage_new 0 0) (usage_new 7 2), ls_finish := Some Stop,
       ls_message := Some (assistant_text ''hi''), ls_msg_id := Some ''i''\<rparr>)"
  by (simp add: loop_run_defs numeral_2_eq_2 loop_start_def echo_runtime_def hello_response_def
      hello_args_def run_request_new_def runtime_policy_default_def compaction_config_default_def
      caps_chat_def caps_empty_def assistant_text_def part_text_def map_filter_simps usage_new_def
      chat_request_new_def hello_events_def hello_output_def rb_is_open_def runtime_breaker_new_def)

section \<open>Every result of the loop\<close>

lemma delete_snapshot_env:
  "\<exists>e. snd (act_try (delete_snapshot rt i) s) = s\<lparr>ls_env := e\<rparr>"
proof -
  have "\<exists>e. snd (effect f s) = s\<lparr>ls_env := e\<rparr>" for f :: "'a \<Rightarrow> (runtime_error + unit) \<times> 'a"
    by (cases "f (ls_env s)"; cases "fst (f (ls_env s))")
      (auto simp: effect_def attempt_def seq_def ret_def return_err_def)
  moreover have "\<exists>e. s = s\<lparr>ls_env := e\<rparr>" by (rule exI [where x = "ls_env s"]) simp
  ultimately have "\<exists>e. snd (delete_snapshot rt i s) = s\<lparr>ls_env := e\<rparr>"
    by (simp add: delete_snapshot_def ret_def split: option.splits)
  then show ?thesis by (auto simp: act_try_def split: prod.splits flow.splits)
qed

lemma results_env:
  "completed p u0 i0 a out (s\<lparr>ls_env := e\<rparr>) = completed p u0 i0 a out s"
  "erred p u0 i0 a err (s\<lparr>ls_env := e\<rparr>) = erred p u0 i0 a err s"
  by (simp_all add: completed_def erred_def accounted_def)

lemma run_loop_cases:
  assumes "at_head (rt_policy rt) u0 i0 s" and "run_loop n rt a s = Some (r, s')"
  shows "outcome (completed (rt_policy rt) u0 i0 a) (\<lambda>_. False) (\<lambda>_. False)
    (erred (rt_policy rt) u0 i0 a) r s'"
proof -
  obtain s1 where inner: "run_loop_inner n rt a s = Some (r, s1)"
    and s': "s' = s1 \<or> s' = snd (act_try (delete_snapshot rt (ra_run_id a)) s1)"
    using assms(2) by (auto simp: run_loop_def split: if_splits)
  note o = run_loop_inner_cases [OF assms(1) inner]
  obtain e where e: "snd (act_try (delete_snapshot rt (ra_run_id a)) s1) = s1\<lparr>ls_env := e\<rparr>"
    using delete_snapshot_env [of rt "ra_run_id a" s1] by blast
  from s' show ?thesis
  proof
    assume "s' = s1"
    with o show ?thesis by simp
  next
    assume "s' = snd (act_try (delete_snapshot rt (ra_run_id a)) s1)"
    with o e show ?thesis by (cases r) (simp_all add: results_env)
  qed
qed

section \<open>Termination\<close>




lemma echo_builds:
  "\<exists>req s'. building_context (echo_runtime p resp) a s = (Proceed req, s')"
  by (simp add: building_context_def proactive_compaction_def echo_runtime_def caps_chat_def
      caps_empty_def save_snapshot_def set_status_def effect_def emit_def attempt_def seq_def ret_def
      act_get_def act_modify_def act_when_def)


section \<open>Model calls, budget and usage\<close>

text \<open>C4: Bounded model calls. A run starts the model once per iteration, in order, and at most
  \<open>max_iterations\<close> times; a completed run reports as its iterations exactly the calls it made.\<close>

theorem model_calls_bounded:
  assumes "run_loop n rt a (loop_start env (rt_policy rt)) = Some (r, s')"
  shows "\<exists>k\<le>max_iterations (rt_policy rt). model_iterations (ls_events s') = [1..<Suc k] \<and>
    (\<forall>out. r = Proceed out \<longrightarrow> ro_iterations out = k \<and> 0 < k)"
proof -
  have "outcome (completed (rt_policy rt) (usage_new 0 0) 0 a) (\<lambda>_. False) (\<lambda>_. False)
    (erred (rt_policy rt) (usage_new 0 0) 0 a) r s'"
    using run_loop_cases [OF at_head_start assms] .
  then show ?thesis
  proof (cases r)
    case (Proceed out)
    with \<open>outcome _ _ _ _ r s'\<close> show ?thesis
      by (intro exI [where x = "ls_iteration s'"]) (auto simp: completed_def)
  qed (auto simp: erred_def)
qed

lemma model_calls_bounded_witness:
  "\<exists>k\<le>10. model_iterations hello_events = [1..<Suc k] \<and> 1 = k \<and> 0 < k"
proof -
  have p: "rt_policy (echo_runtime runtime_policy_default hello_response) = runtime_policy_default"
    "max_iterations runtime_policy_default = 10"
    by (simp_all add: echo_runtime_def runtime_policy_default_def)
  from model_calls_bounded [where rt = "echo_runtime runtime_policy_default hello_response" and
      env = "()" and n = 2 and a = hello_args, unfolded p, OF hello_run]
  obtain k where "k \<le> 10" "model_iterations hello_events = [1..<Suc k]"
    "ro_iterations hello_output = k \<and> 0 < k" by auto
  then show ?thesis by (auto simp: hello_output_def)
qed

lemma hello_policy:
  "rt_policy (echo_runtime runtime_policy_default hello_response) = runtime_policy_default"
  by (simp add: echo_runtime_def)

text \<open>C5: Token budget. No model call starts once the usage recorded before it has reached the
  policy's \<open>max_tokens\<close>.\<close>

theorem no_call_over_budget:
  assumes "run_loop n rt a (loop_start env (rt_policy rt)) = Some (r, s')"
    and "ls_events s' = before @ EvModelStarted i q m k t # after"
  shows "\<not> budget_spent (rt_policy rt) (foldl usage_merge (usage_new 0 0) (recorded_usages before))"
proof -
  have "calls_in_budget (rt_policy rt) (usage_new 0 0) (ls_events s')"
    using run_loop_cases [OF at_head_start assms(1)]
    by (cases r) (auto simp: completed_def erred_def accounted_def)
  then show ?thesis unfolding assms(2) by simp
qed

lemma no_call_over_budget_witness:
  "\<not> budget_spent runtime_policy_default (foldl usage_merge (usage_new 0 0) (recorded_usages
     [EvContextBuilt ''r'' 0 0]))"
  by (rule no_call_over_budget [where rt = "echo_runtime runtime_policy_default hello_response" and
        env = "()" and n = 2 and a = hello_args, unfolded hello_policy, OF hello_run])
    (simp add: hello_events_def)

text \<open>C2: How a run ends. It never panics; a completed run has exactly one terminal event, its last,
  which reports the result; a run that returns an error is marked failed at most for an error the
  loop raises itself (iterations, budget, doom loop), with that error as its one terminal event,
  and is otherwise left without a terminal event.\<close>

theorem run_ends:
  assumes "run_loop n rt a (loop_start env (rt_policy rt)) = Some (r, s')"
  shows "(\<exists>out es t. r = Proceed out \<and> terminal_events es = [] \<and>
       ls_events s' = es @ [EvRunCompleted (ra_run_id a) (ro_finish_reason out) (ro_iterations out) t]) \<or>
    (\<exists>e. r = Return_Err e \<and>
       (terminal_events (ls_events s') = [] \<or> policy_error e \<and> failed_by a e (ls_events s')))"
  using run_loop_cases [OF at_head_start assms]
  by (cases r) (auto simp: completed_def erred_def)

lemma run_ends_witness:
  "(\<exists>out es t. (Proceed hello_output :: run_output flow) = Proceed out \<and> terminal_events es = [] \<and>
      hello_events = es @ [EvRunCompleted ''r'' (ro_finish_reason out) (ro_iterations out) t])"
  using run_ends [where rt = "echo_runtime runtime_policy_default hello_response" and
      env = "()" and n = 2 and a = hello_args, unfolded hello_policy, OF hello_run]
  by (simp add: hello_args_def)

text \<open>When a run completes. The last reply asked for no tools or finished for another reason than
  tool calls, it is the reply the result names, and a reply cut off by the output limit ends the run
  only after every permitted recovery was used.\<close>

theorem completed_reply:
  assumes "run_loop n rt a (loop_start env (rt_policy rt)) = Some (Proceed out, s')"
  shows "\<exists>m. ls_message s' = Some m \<and> ls_finish s' = Some (ro_finish_reason out) \<and>
    (tool_calls m = [] \<or> ro_finish_reason out \<noteq> ToolCallsReason) \<and>
    unat (ls_recoveries s') \<le> max_output_recovery_attempts (rt_policy rt) \<and>
    (ro_finish_reason out = LengthReason \<longrightarrow>
       unat (ls_recoveries s') = max_output_recovery_attempts (rt_policy rt))"
  using run_loop_cases [OF at_head_start assms]
  by (auto simp: completed_def accounted_def)

lemma completed_reply_witness:
  "\<exists>m. Some (assistant_text ''hi'') = Some m \<and> tool_calls m = []"
  using completed_reply [where rt = "echo_runtime runtime_policy_default hello_response" and
      env = "()" and n = 2 and a = hello_args, unfolded hello_policy, OF hello_run]
  by simp

section \<open>The events rebuild the run\<close>

lemma foldl_apply_model_iterations:
  "rp_iteration (foldl apply_event s evs) =
     (if model_iterations evs = [] then rp_iteration s else last (model_iterations evs))"
proof (induction evs rule: rev_induct)
  case (snoc e evs)
  then show ?case
    by (cases e) (simp_all add: is_model_started_def)
qed simp

text \<open>C3: Replaying a completed run. Reconstructing the run's state from the events it emitted gives
  status \<open>Completed\<close>, the reported finish reason, the iterations and the token usage the caller got.\<close>

theorem replay_rebuilds_result:
  assumes "run_loop n rt a (loop_start env (rt_policy rt)) = Some (Proceed out, s')"
    and "map er_event log = ls_events s'"
  shows "rp_status (run_state_create rec log) = StCompleted \<and>
    rp_last_finish (run_state_create rec log) = Some (ro_finish_reason out) \<and>
    rp_iteration (run_state_create rec log) = ro_iterations out \<and>
    rp_total_usage (run_state_create rec log) = ro_total_usage out"
proof -
  have c: "completed (rt_policy rt) (usage_new 0 0) 0 a out s'"
    using run_loop_cases [OF at_head_start assms(1)] by simp
  then obtain es t where evs: "ls_events s' = es @ [EvRunCompleted (ra_run_id a) (ro_finish_reason out) (ro_iterations out) t]"
    by (auto simp: completed_def)
  have "model_iterations (ls_events s') = [Suc 0..<Suc (ro_iterations out)]" "0 < ro_iterations out"
    "ro_total_usage out = foldl usage_merge (usage_new 0 0) (recorded_usages (ls_events s'))"
    using c by (auto simp: completed_def accounted_def)
  moreover have "rp_status (foldl apply_event s0 (ls_events s')) = StCompleted \<and>
      rp_last_finish (foldl apply_event s0 (ls_events s')) = Some (ro_finish_reason out)" for s0
    unfolding evs by simp
  ultimately show ?thesis
    by (simp add: run_state_create_def Let_def assms(2) foldl_apply_usage foldl_apply_model_iterations)
qed

lemma replay_rebuilds_result_witness:
  "rp_status (run_state_create (run_record_new 0 ''r'' ''s'' ''p'' ''m'' JNull None)
     (map (event_record_new 0 0 ''r'') hello_events)) = StCompleted"
  using replay_rebuilds_result [where rt = "echo_runtime runtime_policy_default hello_response" and
      env = "()" and n = 2 and a = hello_args and log = "map (event_record_new 0 0 ''r'') hello_events" and
      rec = "run_record_new 0 ''r'' ''s'' ''p'' ''m'' JNull None",
      unfolded hello_policy, OF hello_run]
  by (simp add: event_record_new_def comp_def)

end
