(* ===== verification/Store_Records.thy ===== *)
theory Store_Records
  imports Core_Errors
begin

text \<open>
  The records of the persistence layer (\<open>behest-store/src/lib.rs\<close>) and their conversion from and to
  provider messages (\<open>message_to_record\<close> and \<open>record_to_message\<close> of \<open>behest-runtime/src/store.rs\<close>). A
  constructor that draws an identifier and reads the clock takes both as arguments. Vectors of
  floats are lists of an abstract number type.
\<close>

section \<open>Pagination and filters\<close>

record pagination =
  pg_limit :: u32
  pg_offset :: u32

definition pagination_default :: pagination where
  "pagination_default = \<lparr>pg_limit = 100, pg_offset = 0\<rparr>"

record session_filter =
  sf_metadata :: "json option"
  sf_created_after :: "timestamp option"
  sf_created_before :: "timestamp option"

section \<open>Sessions and messages\<close>

record session =
  se_id :: uuid
  se_title :: string
  se_model :: model_name
  se_created_at :: timestamp
  se_updated_at :: timestamp
  se_metadata :: json

definition session_new :: "uuid \<Rightarrow> timestamp \<Rightarrow> string \<Rightarrow> model_name \<Rightarrow> session" where
  "session_new i now title m =
     \<lparr>se_id = i, se_title = title, se_model = m, se_created_at = now, se_updated_at = now,
      se_metadata = JNull\<rparr>"

definition se_with_metadata :: "session \<Rightarrow> json \<Rightarrow> session" where
  "se_with_metadata s m = s\<lparr>se_metadata := m\<rparr>"

record compaction_meta =
  cm_tail_start_id :: "uuid option"
  cm_previous_compaction_id :: "uuid option"
  cm_summary_text :: "string option"

definition compaction_meta_new :: "uuid \<Rightarrow> compaction_meta" where
  "compaction_meta_new t =
     \<lparr>cm_tail_start_id = Some t, cm_previous_compaction_id = None, cm_summary_text = None\<rparr>"

definition cm_with_previous :: "compaction_meta \<Rightarrow> uuid \<Rightarrow> compaction_meta" where
  "cm_with_previous m i = m\<lparr>cm_previous_compaction_id := Some i\<rparr>"

definition cm_with_summary :: "compaction_meta \<Rightarrow> string \<Rightarrow> compaction_meta" where
  "cm_with_summary m t = m\<lparr>cm_summary_text := Some t\<rparr>"

datatype message_role = RoleSystem | RoleUser | RoleAssistant | RoleTool

record message_record =
  mr_id :: uuid
  mr_session_id :: uuid
  mr_role :: message_role
  mr_content :: "content_part list"
  mr_tool_calls :: "tool_call list"
  mr_tool_call_id :: "string option"
  mr_tool_name :: "string option"
  mr_usage :: "token_usage option"
  mr_created_at :: timestamp
  mr_is_compaction :: bool
  mr_is_summary :: bool
  mr_compaction_meta :: "compaction_meta option"

definition message_record_new ::
  "uuid \<Rightarrow> timestamp \<Rightarrow> uuid \<Rightarrow> message_role \<Rightarrow> content_part list \<Rightarrow> message_record" where
  "message_record_new i now sid role content =
     \<lparr>mr_id = i, mr_session_id = sid, mr_role = role, mr_content = content, mr_tool_calls = [],
      mr_tool_call_id = None, mr_tool_name = None, mr_usage = None, mr_created_at = now,
      mr_is_compaction = False, mr_is_summary = False, mr_compaction_meta = None\<rparr>"

definition mr_with_tool_result :: "message_record \<Rightarrow> string \<Rightarrow> string \<Rightarrow> message_record" where
  "mr_with_tool_result r call_id name = r\<lparr>mr_tool_call_id := Some call_id, mr_tool_name := Some name\<rparr>"

definition mr_with_tool_calls :: "message_record \<Rightarrow> tool_call list \<Rightarrow> message_record" where
  "mr_with_tool_calls r calls = r\<lparr>mr_tool_calls := calls\<rparr>"

definition mr_with_usage :: "message_record \<Rightarrow> token_usage \<Rightarrow> message_record" where
  "mr_with_usage r u = r\<lparr>mr_usage := Some u\<rparr>"

definition mr_with_compaction :: "message_record \<Rightarrow> compaction_meta \<Rightarrow> message_record" where
  "mr_with_compaction r m = r\<lparr>mr_is_compaction := True, mr_compaction_meta := Some m\<rparr>"

definition mr_with_summary :: "message_record \<Rightarrow> compaction_meta \<Rightarrow> message_record" where
  "mr_with_summary r m = r\<lparr>mr_is_summary := True, mr_compaction_meta := Some m\<rparr>"

fun role_of_message :: "message \<Rightarrow> message_role" where
  "role_of_message (System _) = RoleSystem"
| "role_of_message (User _) = RoleUser"
| "role_of_message (Assistant _ _) = RoleAssistant"
| "role_of_message (Tool _ _ _) = RoleTool"

section \<open>Conversion\<close>

fun message_to_record :: "uuid \<Rightarrow> timestamp \<Rightarrow> uuid \<Rightarrow> message \<Rightarrow> message_record" where
  "message_to_record i now sid (System content) = message_record_new i now sid RoleSystem content"
| "message_to_record i now sid (User content) = message_record_new i now sid RoleUser content"
| "message_to_record i now sid (Assistant content calls) =
     mr_with_tool_calls (message_record_new i now sid RoleAssistant content) calls"
| "message_to_record i now sid (Tool call_id name content) =
     mr_with_tool_result (message_record_new i now sid RoleTool content) call_id name"

definition unwrap_text :: "string option \<Rightarrow> string" where
  "unwrap_text x = (case x of Some s \<Rightarrow> s | None \<Rightarrow> '''')"

definition record_to_message :: "message_record \<Rightarrow> message option" where
  "record_to_message r =
     (case mr_role r of
        RoleSystem \<Rightarrow> Some (System (mr_content r))
      | RoleUser \<Rightarrow> Some (User (mr_content r))
      | RoleAssistant \<Rightarrow> Some (Assistant (mr_content r) (mr_tool_calls r))
      | RoleTool \<Rightarrow> Some (Tool (unwrap_text (mr_tool_call_id r)) (unwrap_text (mr_tool_name r)) (mr_content r)))"

lemmas record_builders = message_record_new_def mr_with_tool_result_def mr_with_tool_calls_def
  mr_with_usage_def mr_with_compaction_def mr_with_summary_def

lemma message_to_record_sel [simp]:
  "mr_session_id (message_to_record i now sid m) = sid" "mr_id (message_to_record i now sid m) = i"
  "mr_role (message_to_record i now sid m) = role_of_message m"
  by (cases m; simp add: record_builders)+

text \<open>Persisting a message and reading it back gives the message.\<close>

theorem message_record_roundtrip:
  "record_to_message (message_to_record i now sid m) = Some m"
  by (cases m) (simp_all add: record_to_message_def record_builders unwrap_text_def)

section \<open>Embeddings and artifacts\<close>

record 'f embedding_record =
  em_id :: uuid
  em_session_id :: "uuid option"
  em_model :: string
  em_vector :: "'f list"
  em_metadata :: json
  em_created_at :: timestamp

definition embedding_new :: "uuid \<Rightarrow> timestamp \<Rightarrow> string \<Rightarrow> 'f list \<Rightarrow> 'f embedding_record" where
  "embedding_new i now m v =
     \<lparr>em_id = i, em_session_id = None, em_model = m, em_vector = v, em_metadata = JNull,
      em_created_at = now\<rparr>"

definition em_with_session :: "'f embedding_record \<Rightarrow> uuid \<Rightarrow> 'f embedding_record" where
  "em_with_session r s = r\<lparr>em_session_id := Some s\<rparr>"

definition em_with_metadata :: "'f embedding_record \<Rightarrow> json \<Rightarrow> 'f embedding_record" where
  "em_with_metadata r m = r\<lparr>em_metadata := m\<rparr>"

record artifact =
  ar_id :: uuid
  ar_session_id :: "uuid option"
  ar_name :: string
  ar_content_type :: string
  ar_data :: "u8 list"
  ar_metadata :: json
  ar_created_at :: timestamp

definition artifact_new :: "uuid \<Rightarrow> timestamp \<Rightarrow> string \<Rightarrow> string \<Rightarrow> u8 list \<Rightarrow> artifact" where
  "artifact_new i now name ct bytes =
     \<lparr>ar_id = i, ar_session_id = None, ar_name = name, ar_content_type = ct, ar_data = bytes,
      ar_metadata = JNull, ar_created_at = now\<rparr>"

definition ar_with_session :: "artifact \<Rightarrow> uuid \<Rightarrow> artifact" where
  "ar_with_session a s = a\<lparr>ar_session_id := Some s\<rparr>"

definition ar_with_metadata :: "artifact \<Rightarrow> json \<Rightarrow> artifact" where
  "ar_with_metadata a m = a\<lparr>ar_metadata := m\<rparr>"

section \<open>Executions and usage\<close>

datatype execution_status = ExPending | ExSuccess | ExFailed

record tool_execution =
  tx_id :: uuid
  tx_session_id :: uuid
  tx_message_id :: uuid
  tx_call_id :: string
  tx_tool_name :: string
  tx_arguments :: json
  tx_result :: "json option"
  tx_status :: execution_status
  tx_error :: "string option"
  tx_duration :: duration
  tx_created_at :: timestamp

definition tool_execution_new ::
  "uuid \<Rightarrow> timestamp \<Rightarrow> uuid \<Rightarrow> uuid \<Rightarrow> string \<Rightarrow> string \<Rightarrow> json \<Rightarrow> tool_execution" where
  "tool_execution_new i now sid mid call_id name args =
     \<lparr>tx_id = i, tx_session_id = sid, tx_message_id = mid, tx_call_id = call_id,
      tx_tool_name = name, tx_arguments = args, tx_result = None, tx_status = ExPending,
      tx_error = None, tx_duration = 0, tx_created_at = now\<rparr>"

definition tx_with_success :: "tool_execution \<Rightarrow> json \<Rightarrow> duration \<Rightarrow> tool_execution" where
  "tx_with_success x r d = x\<lparr>tx_result := Some r, tx_status := ExSuccess, tx_duration := d\<rparr>"

definition tx_with_failure :: "tool_execution \<Rightarrow> string \<Rightarrow> duration \<Rightarrow> tool_execution" where
  "tx_with_failure x e d = x\<lparr>tx_error := Some e, tx_status := ExFailed, tx_duration := d\<rparr>"

record usage_record =
  ur_id :: uuid
  ur_session_id :: uuid
  ur_message_id :: uuid
  ur_provider :: string
  ur_model :: string
  ur_input_tokens :: u64
  ur_output_tokens :: u64
  ur_total_tokens :: u64
  ur_created_at :: timestamp

definition usage_record_new ::
  "uuid \<Rightarrow> timestamp \<Rightarrow> uuid \<Rightarrow> uuid \<Rightarrow> string \<Rightarrow> string \<Rightarrow> token_usage \<Rightarrow> usage_record" where
  "usage_record_new i now sid mid p m u =
     \<lparr>ur_id = i, ur_session_id = sid, ur_message_id = mid, ur_provider = p, ur_model = m,
      ur_input_tokens = input_tokens u, ur_output_tokens = output_tokens u,
      ur_total_tokens = total_tokens u, ur_created_at = now\<rparr>"

record session_stats =
  st_session_id :: uuid
  st_message_count :: u64
  st_tool_call_count :: u64
  st_tool_success_count :: u64
  st_tool_failure_count :: u64
  st_total_input_tokens :: u64
  st_total_output_tokens :: u64
  st_total_tokens :: u64
  st_avg_tool_duration_ms :: u64

definition session_stats_empty :: "uuid \<Rightarrow> session_stats" where
  "session_stats_empty sid =
     \<lparr>st_session_id = sid, st_message_count = 0, st_tool_call_count = 0, st_tool_success_count = 0,
      st_tool_failure_count = 0, st_total_input_tokens = 0, st_total_output_tokens = 0,
      st_total_tokens = 0, st_avg_tool_duration_ms = 0\<rparr>"

end
