(* ===== verification/Compaction_Select.thy ===== *)
theory Compaction_Select
  imports Store_Records Token_Estimate Index_Partition
begin

text \<open>
  When the runtime's compaction service compacts and what it keeps: token estimates of stored
  messages (\<open>behest-runtime/src/token.rs\<close>), overflow detection (\<open>compaction/overflow.rs\<close>) and the
  selection of a head to summarise and a tail to retain (\<open>compaction/select.rs\<close>). \<open>js\<close> is the JSON
  printer, as in \<open>Token_Estimate\<close>.
\<close>

section \<open>Estimates and overflow\<close>

definition estimate_record_tokens :: "json_printer \<Rightarrow> message_record \<Rightarrow> usize" where
  "estimate_record_tokens js r =
     (let content_tokens = (\<Sum>p\<leftarrow>mr_content r. estimate_content_part_tokens js p);
          tool_call_tokens = (\<Sum>c\<leftarrow>mr_tool_calls r. estimate_tool_call_tokens js c);
          tool_meta_tokens = (case (mr_tool_call_id r, mr_tool_name r) of
              (Some i, Some n) \<Rightarrow> estimate_tokens i + estimate_tokens n
            | _ \<Rightarrow> 0);
          role_overhead = (case mr_role r of RoleTool \<Rightarrow> 10 | _ \<Rightarrow> 8)
      in content_tokens + tool_call_tokens + tool_meta_tokens + role_overhead)"

definition estimate_records_tokens :: "json_printer \<Rightarrow> message_record list \<Rightarrow> usize" where
  "estimate_records_tokens js rs = (\<Sum>r\<leftarrow>rs. estimate_record_tokens js r)"

definition compaction_buffer :: usize where "compaction_buffer = 20000"

definition usable_tokens :: "u32 \<Rightarrow> u32 \<Rightarrow> usize option \<Rightarrow> usize" where
  "usable_tokens model_context max_output reserved =
     (if model_context = 0 then usize_max
      else let reserved = (case reserved of Some r \<Rightarrow> r | None \<Rightarrow> min compaction_buffer (unat max_output));
               ctx = unat model_context
           in saturating_sub (saturating_sub ctx (unat max_output)) reserved)"

definition is_overflow :: "usize \<Rightarrow> u32 \<Rightarrow> u32 \<Rightarrow> bool \<Rightarrow> bool" where
  "is_overflow used model_context max_output auto_enabled =
     (if \<not> auto_enabled \<or> model_context = 0 then False
      else used \<ge> usable_tokens model_context max_output None)"

text \<open>The estimate of a stored message is the estimate of the message.\<close>

lemma estimate_record_message:
  "estimate_record_tokens js (message_to_record i now sid m) = estimate_message_tokens js m"
  by (cases m) (simp_all add: estimate_record_tokens_def record_builders Let_def)

text \<open>Overflow leaves room. If a conversation is not found to overflow a limited context, then its
  tokens, the maximal output and the reserved headroom fit in it together; and once the output and
  the headroom alone fill the context, every conversation overflows.\<close>

theorem no_overflow_fits:
  assumes "model_context \<noteq> 0"
  shows "\<not> is_overflow used model_context max_output True \<longleftrightarrow>
    used + unat max_output + min 20000 (unat max_output) < unat model_context"
  using assms
  by (simp add: is_overflow_def usable_tokens_def saturating_sub_def compaction_buffer_def) linarith

lemma no_overflow_fits_witness: "\<not> is_overflow 90000 128000 16384 True"
  using no_overflow_fits [of 128000 90000 16384] by simp

section \<open>Selection\<close>

record selection_result =
  sel_head :: "message_record list"
  sel_tail :: "message_record list"
  sel_tail_start_id :: "uuid option"

definition starts_turn :: "message_record \<Rightarrow> bool" where
  "starts_turn m \<longleftrightarrow> \<not> mr_is_compaction m \<and> mr_role m = RoleUser"

definition turns :: "message_record list \<Rightarrow> nat list list" where
  "turns messages = group_loop starts_turn messages 0 [] []"

text \<open>Walking backward through one turn: \<open>cost i\<close> are the tokens of message \<open>i\<close>, \<open>some\<close> whether the
  tail already has messages.\<close>

fun collect_turn :: "(nat \<Rightarrow> usize) \<Rightarrow> usize \<Rightarrow> usize \<Rightarrow> bool \<Rightarrow> nat list \<Rightarrow> usize \<Rightarrow> nat list \<Rightarrow> usize \<times> nat list" where
  "collect_turn cost keep accumulated some [] turn_accumulated turn_indices = (turn_accumulated, turn_indices)"
| "collect_turn cost keep accumulated some (i # is) turn_accumulated turn_indices =
     (if accumulated + cost i > keep \<and> some then (turn_accumulated, turn_indices)
      else collect_turn cost keep accumulated some is (turn_accumulated + cost i) (turn_indices @ [i]))"

text \<open>Walking backward through the preserved turns; the result is the indices of head and tail.\<close>

fun walk_turns ::
  "(nat \<Rightarrow> usize) \<Rightarrow> usize \<Rightarrow> nat list \<Rightarrow> nat list list \<Rightarrow> usize \<Rightarrow> nat list \<Rightarrow> nat list \<times> nat list" where
  "walk_turns cost keep head_indices [] accumulated tail_indices = (head_indices, sort tail_indices)"
| "walk_turns cost keep head_indices (turn # ts) accumulated tail_indices =
     (let (turn_accumulated, turn_indices) =
            collect_turn cost keep accumulated (tail_indices \<noteq> []) (rev turn) 0 []
      in if accumulated + turn_accumulated > keep \<and> tail_indices \<noteq> []
         then let overflow = filter (\<lambda>i. i \<notin> set turn_indices) turn
              in (sort (head_indices @ overflow), rev tail_indices)
         else walk_turns cost keep head_indices ts (accumulated + turn_accumulated)
                (rev turn_indices @ tail_indices))"

definition select :: "json_printer \<Rightarrow> message_record list \<Rightarrow> usize \<Rightarrow> usize \<Rightarrow> selection_result" where
  "select js messages tail_turns keep_tokens =
     (if messages = [] then \<lparr>sel_head = [], sel_tail = [], sel_tail_start_id = None\<rparr>
      else let all_turns = turns messages
      in if all_turns = [] then \<lparr>sel_head = messages, sel_tail = [], sel_tail_start_id = None\<rparr>
      else
        let preserved = (if length all_turns \<le> tail_turns then length all_turns else tail_turns);
            head_turns = take (length all_turns - preserved) all_turns;
            tail_slice = drop (length all_turns - preserved) all_turns;
            (hs, ts) = walk_turns (\<lambda>i. estimate_record_tokens js (messages ! i)) keep_tokens
                         (concat head_turns) (rev tail_slice) 0 [];
            tail = map ((!) messages) ts
        in \<lparr>sel_head = map ((!) messages) hs, sel_tail = tail,
            sel_tail_start_id = (case tail of [] \<Rightarrow> None | m # _ \<Rightarrow> Some (mr_id m))\<rparr>)"

interpretation message_turns: index_partition starts_turn turns
  unfolding turns_def by (rule index_partition_group_loop)

lemma collect_turn_all:
  assumes "some \<longrightarrow> (\<forall>i\<in>set is. accumulated + cost i \<le> keep)"
  shows "collect_turn cost keep accumulated some is t xs = (t + sum_list (map cost is), xs @ is)"
  using assms by (induction "is" arbitrary: t xs) auto

lemma walk_turns_fits:
  assumes "accumulated + sum_list (map cost (concat ts)) \<le> keep"
  shows "walk_turns cost keep hs ts accumulated tail = (hs, sort (concat (rev ts) @ tail))"
  using assms
proof (induction ts arbitrary: accumulated tail)
  case (Cons t ts)
  have le: "sum_list (map cost t) + accumulated \<le> keep" using Cons.prems by simp
  have "accumulated + cost i \<le> keep" if "i \<in> set (rev t)" for i
    using member_le_sum_list [of "cost i" "map cost t"] that le by (fastforce simp: algebra_simps)
  then have c: "collect_turn cost keep accumulated (tail \<noteq> []) (rev t) 0 [] = (sum_list (map cost t), rev t)"
    by (simp add: collect_turn_all rev_map [symmetric] sum_list_rev)
  show ?case using Cons.IH [of "accumulated + sum_list (map cost t)" "t @ tail"] Cons.prems le
    by (simp add: c algebra_simps)
qed simp

text \<open>The first turn visited is taken whatever it costs.\<close>

lemma walk_turns_first:
  "walk_turns cost keep hs (t # ts) 0 [] = walk_turns cost keep hs ts (sum_list (map cost t)) t"
  by (simp add: collect_turn_all rev_map [symmetric] sum_list_rev)

text \<open>How many turns are preserved, and where the first of them starts.\<close>

definition preserved_from :: "message_record list \<Rightarrow> usize \<Rightarrow> nat" where
  "preserved_from messages tail_turns = length (turns messages) - min (length (turns messages)) tail_turns"

definition cut :: "message_record list \<Rightarrow> usize \<Rightarrow> nat" where
  "cut messages tail_turns = message_turns.group_start messages (preserved_from messages tail_turns)"

lemma select_walk:
  assumes "messages \<noteq> []"
  shows "select js messages tail_turns keep =
    (let (hs, ts) = walk_turns (\<lambda>i. estimate_record_tokens js (messages ! i)) keep
             (concat (take (preserved_from messages tail_turns) (turns messages)))
             (rev (drop (preserved_from messages tail_turns) (turns messages))) 0 [];
         tail = map ((!) messages) ts
     in \<lparr>sel_head = map ((!) messages) hs, sel_tail = tail,
         sel_tail_start_id = (case tail of [] \<Rightarrow> None | m # _ \<Rightarrow> Some (mr_id m))\<rparr>)"
proof -
  have "turns messages \<noteq> []" using assms by (simp add: message_turns.groups_Nil_iff)
  moreover have "length (turns messages) -
      (if length (turns messages) \<le> tail_turns then length (turns messages) else tail_turns) =
      preserved_from messages tail_turns"
    by (auto simp: preserved_from_def)
  ultimately show ?thesis using assms unfolding select_def Let_def by simp
qed

lemma sum_concat_rev:
  "sum_list (map f (concat (rev xss))) = (sum_list (map f (concat xss)) :: nat)"
  by (induction xss) (simp_all add: add.commute)

lemma sum_cost_drop:
  "n \<le> length ms \<Longrightarrow> sum_list (map (\<lambda>i. f (ms ! i)) [n..<length ms]) = sum_list (map f (drop n ms))"
proof -
  assume "n \<le> length ms"
  then have "map (\<lambda>i. f (ms ! i)) [n..<length ms] = map f (drop n ms)"
    by (auto intro!: nth_equalityI)
  then show ?thesis by simp
qed

text \<open>Selection when the tail fits. If the preserved turns cost at most \<open>keep_tokens\<close>, or only one
  turn is preserved, then head and tail cut the history in two at the start of the first preserved
  turn: nothing is lost, duplicated or reordered, and the boundary is the tail's first message.\<close>

theorem select_cuts_history:
  assumes "messages \<noteq> []"
    and "estimate_records_tokens js (drop (cut messages tail_turns) messages) \<le> keep \<or>
      preserved_from messages tail_turns + 1 = length (turns messages)"
  shows "sel_head (select js messages tail_turns keep) = take (cut messages tail_turns) messages \<and>
    sel_tail (select js messages tail_turns keep) = drop (cut messages tail_turns) messages \<and>
    sel_tail_start_id (select js messages tail_turns keep) =
      (case drop (cut messages tail_turns) messages of [] \<Rightarrow> None | m # _ \<Rightarrow> Some (mr_id m))"
proof -
  let ?cost = "\<lambda>i. estimate_record_tokens js (messages ! i)"
  let ?k = "preserved_from messages tail_turns"
  let ?hs = "concat (take ?k (turns messages))" and ?ts = "drop ?k (turns messages)"
  have cut_le: "cut messages tail_turns \<le> length messages"
    unfolding cut_def by (rule message_turns.group_start_le)
  have ts: "concat ?ts = [cut messages tail_turns..<length messages]"
    unfolding cut_def by (rule message_turns.concat_drop_groups)
  have hs: "?hs = [0..<cut messages tail_turns]"
    unfolding cut_def by (rule message_turns.concat_take_groups)
  have walk: "walk_turns ?cost keep ?hs (rev ?ts) 0 [] = (?hs, concat ?ts)"
  proof (cases "?k + 1 = length (turns messages)")
    case True
    then obtain t where t: "?ts = [t]"
      by (metis Cons_nth_drop_Suc Suc_eq_plus1 drop_all lessI order_refl)
    then have "concat ?ts = t" by simp
    then have "sort t = t" unfolding ts by (metis sorted_sort_id sorted_upt)
    then show ?thesis using walk_turns_first [of ?cost keep ?hs t "[]"] by (simp add: t)
  next
    case False
    with assms(2) have "estimate_records_tokens js (drop (cut messages tail_turns) messages) \<le> keep" by blast
    then have "sum_list (map ?cost (concat ?ts)) \<le> keep"
      unfolding ts estimate_records_tokens_def sum_cost_drop [OF cut_le] .
    moreover have "sum_list (map ?cost (concat (rev ?ts))) = sum_list (map ?cost (concat ?ts))"
      by (rule sum_concat_rev)
    ultimately show ?thesis
      using walk_turns_fits [of 0 ?cost "rev ?ts" keep ?hs "[]"] by (simp add: ts)
  qed
  have "map ((!) messages) ?hs = take (cut messages tail_turns) messages"
    unfolding cut_def by (rule message_turns.map_take_groups)
  moreover have "map ((!) messages) (concat ?ts) = drop (cut messages tail_turns) messages"
    unfolding cut_def by (rule message_turns.map_drop_groups)
  ultimately show ?thesis
    unfolding select_walk [OF assms(1)] walk by (simp add: Let_def)
qed

text \<open>Selection loses a turn. When the turn before the last does not fit beside it, but each of its
  messages alone would, the turn is in neither part, nor are the preserved turns before it: the head
  ends where the preserved turns begin, the tail is the last turn backwards, and the boundary is the
  newest message of all.\<close>

theorem select_drops_turns:
  assumes split: "drop (preserved_from messages tail_turns) (turns messages) = lost @ [t, u]"
    and over: "(\<Sum>i\<leftarrow>u. estimate_record_tokens js (messages ! i)) + (\<Sum>i\<leftarrow>t. estimate_record_tokens js (messages ! i)) > keep"
    and single: "\<forall>i\<in>set t. (\<Sum>i\<leftarrow>u. estimate_record_tokens js (messages ! i)) + estimate_record_tokens js (messages ! i) \<le> keep"
  shows "sel_head (select js messages tail_turns keep) = take (cut messages tail_turns) messages \<and>
    sel_tail (select js messages tail_turns keep) = rev (map ((!) messages) u) \<and>
    sel_tail_start_id (select js messages tail_turns keep) = Some (mr_id (last messages))"
proof -
  let ?cost = "\<lambda>i. estimate_record_tokens js (messages ! i)"
  let ?k = "preserved_from messages tail_turns"
  let ?hs = "concat (take ?k (turns messages))"
  have ne: "messages \<noteq> []" using split message_turns.groups_Nil_iff [of messages] by auto
  have "u \<in> set (drop (preserved_from messages tail_turns) (turns messages))"
    unfolding split by simp
  then have "u \<in> set (turns messages)" by (rule in_set_dropD)
  then have u: "u \<noteq> []" using message_turns.groups_nonempty by metis
  have c: "collect_turn ?cost keep (sum_list (map ?cost u)) True (rev t) 0 [] = (sum_list (map ?cost t), rev t)"
    using single by (simp add: collect_turn_all rev_map [symmetric] sum_list_rev)
  have hs: "?hs = [0..<cut messages tail_turns]"
    unfolding cut_def by (rule message_turns.concat_take_groups)
  have "walk_turns ?cost keep ?hs (rev (lost @ [t, u])) 0 [] = (sort ?hs, rev u)"
    using over u c walk_turns_first [of ?cost keep ?hs u "t # rev lost"] by simp
  then have w: "walk_turns ?cost keep ?hs (rev (lost @ [t, u])) 0 [] = (?hs, rev u)"
    by (simp add: hs)
  have "concat (lost @ [t]) @ u = [cut messages tail_turns..<length messages]"
    using message_turns.concat_drop_groups [of ?k messages] by (simp add: split cut_def)
  then have "last u = last [cut messages tail_turns..<length messages]" and
    "[cut messages tail_turns..<length messages] \<noteq> []"
    using u by (metis last_appendR, metis append_is_Nil_conv)
  then have "last u = length messages - 1" by (metis last_upt upt_eq_Nil_conv not_le)
  then have "rev (map ((!) messages) u) = last messages # rev (map ((!) messages) (butlast u))"
    using u ne by (cases u rule: rev_cases) (auto simp: last_conv_nth)
  moreover have "map ((!) messages) ?hs = take (cut messages tail_turns) messages"
    unfolding cut_def by (rule message_turns.map_take_groups)
  ultimately show ?thesis unfolding select_walk [OF ne] split w by (simp add: rev_map Let_def)
qed

text \<open>Three turns of messages of 28 tokens, the middle one of two messages.\<close>

definition three_turns :: "message_record list" where
  "three_turns = map (\<lambda>(i, role). message_record_new i 0 ''s'' role [part_text (replicate 80 CHR ''x'')])
     [(''1'', RoleUser), (''2'', RoleUser), (''3'', RoleAssistant), (''4'', RoleUser)]"

lemma three_turns_facts:
  "turns three_turns = [[0], [1, 2], [3]]"
  "i < 4 \<Longrightarrow> estimate_record_tokens js (three_turns ! i) = 28"
proof -
  show "turns three_turns = [[0], [1, 2], [3]]"
    by (simp add: three_turns_def turns_def starts_turn_def message_record_new_def)
  assume "i < 4"
  then have "three_turns ! i \<in> set three_turns" by (intro nth_mem) (simp add: three_turns_def)
  then show "estimate_record_tokens js (three_turns ! i) = 28"
    by (auto simp: three_turns_def message_record_new_def estimate_record_tokens_def part_text_def
        estimate_tokens_def chars_per_token_def div_ceil_def)
qed

lemma select_cuts_history_witness:
  "map mr_id (sel_tail (select (\<lambda>_. '''') three_turns 2 100)) = [''2'', ''3'', ''4'']"
proof -
  have p: "preserved_from three_turns 2 = 1" by (simp add: preserved_from_def three_turns_facts)
  have c: "cut three_turns 2 = 1"
    unfolding cut_def p message_turns.group_start_def by (simp add: three_turns_facts)
  have "estimate_records_tokens (\<lambda>_. '''') (drop 1 three_turns) = 84"
    by (simp add: three_turns_def message_record_new_def estimate_records_tokens_def estimate_record_tokens_def
        part_text_def estimate_tokens_def chars_per_token_def div_ceil_def)
  then have "sel_tail (select (\<lambda>_. '''') three_turns 2 100) = drop 1 three_turns"
    using select_cuts_history [of three_turns "\<lambda>_. ''''" 2 100] c by (auto simp: three_turns_def)
  then show ?thesis by (simp add: three_turns_def message_record_new_def)
qed

lemma select_drops_turns_witness:
  "sel_head (select (\<lambda>_. '''') three_turns 3 60) = [] \<and>
   map mr_id (sel_tail (select (\<lambda>_. '''') three_turns 3 60)) = [''4'']"
proof -
  have e: "estimate_record_tokens (\<lambda>_. '''') (three_turns ! i) = 28" if "i < 4" for i
    using that by (rule three_turns_facts)
  have p: "preserved_from three_turns 3 = 0" by (simp add: preserved_from_def three_turns_facts)
  have c: "cut three_turns 3 = 0"
    unfolding cut_def p message_turns.group_start_def by simp
  have "sel_head (select (\<lambda>_. '''') three_turns 3 60) = [] \<and>
      sel_tail (select (\<lambda>_. '''') three_turns 3 60) = [three_turns ! 3]"
    using select_drops_turns [where messages = three_turns and tail_turns = 3 and keep = 60 and
        js = "\<lambda>_. ''''" and lost = "[[0]]" and t = "[1, 2]" and u = "[3]"] e [of 1] e [of 2] e [of 3]
    by (simp add: p c three_turns_facts)
  moreover have "mr_id (three_turns ! 3) = ''4''" by (simp add: three_turns_def message_record_new_def)
  ultimately show ?thesis by simp
qed

end
