(* ===== verification/Memory_Stores.thy ===== *)
theory Memory_Stores
  imports Store_Records "HOL-Library.AList" "HOL-Library.Multiset"
begin

text \<open>
  The in-memory stores (\<open>behest-store/src/memory\<close>) and the message half of \<open>RuntimeStore\<close>
  (\<open>behest-runtime/src/store.rs\<close>). A \<open>HashMap\<close> is an association list with distinct keys; where its
  values are iterated, the iteration order is a parameter \<open>order\<close>. Each call holds its locks to the
  end of what it does with them, so a call is one step. The locale \<open>message_log\<close> is what
  \<open>RuntimeStore\<close> relies on in a \<open>SessionStore\<close>.
\<close>

section \<open>The contract of a message log\<close>

locale message_log =
  fixes append :: "timestamp \<Rightarrow> 'st \<Rightarrow> message_record \<Rightarrow> (storage_error + message_record) \<times> 'st"
    and list :: "'st \<Rightarrow> uuid \<Rightarrow> message_record list"
    and known :: "'st \<Rightarrow> uuid \<Rightarrow> bool"
  assumes append_known: "known st (mr_session_id m) \<Longrightarrow> fst (append now st m) = Inr m"
    and append_unknown: "\<not> known st (mr_session_id m) \<Longrightarrow>
      append now st m = (Inl (StorageNotFound (mr_session_id m)), st)"
    and list_append: "known st (mr_session_id m) \<Longrightarrow>
      list (snd (append now st m)) sid = list st sid @ (if sid = mr_session_id m then [m] else [])"
    and known_append: "known (snd (append now st m)) = known st"
begin

text \<open>Appending records with their times, ignoring the results.\<close>

fun append_records :: "'st \<Rightarrow> (timestamp \<times> message_record) list \<Rightarrow> 'st" where
  "append_records st [] = st"
| "append_records st ((now, m) # ms) = append_records (snd (append now st m)) ms"

lemma known_append_records: "known (append_records st ms) = known st"
  by (induction st ms rule: append_records.induct) (simp_all add: known_append)

lemma list_append_records:
  "list (append_records st ms) sid =
     list st sid @ filter (\<lambda>m. known st (mr_session_id m) \<and> mr_session_id m = sid) (map snd ms)"
proof (induction st ms rule: append_records.induct)
  case (2 st now m ms)
  then show ?case
    using append_unknown [of st m now]
    by (cases "known st (mr_session_id m)") (auto simp: list_append known_append)
qed simp

end

section \<open>The session store\<close>

record session_store =
  ss_sessions :: "(uuid \<times> session) list"
  ss_messages :: "(uuid \<times> message_record list) list"
  ss_message_index :: "(uuid \<times> uuid) list"

definition session_store_new :: session_store where
  "session_store_new = \<lparr>ss_sessions = [], ss_messages = [], ss_message_index = []\<rparr>"

definition create_session :: "session_store \<Rightarrow> session \<Rightarrow> (storage_error + session) \<times> session_store" where
  "create_session st s =
     (Inr s, st\<lparr>ss_sessions := AList.update (se_id s) s (ss_sessions st),
                ss_messages := AList.update (se_id s) [] (ss_messages st)\<rparr>)"

definition list_sessions :: "(session list \<Rightarrow> session list) \<Rightarrow> session_store \<Rightarrow> session list" where
  "list_sessions order st =
     sort_key (\<lambda>s. - int (se_updated_at s)) (order (map snd (ss_sessions st)))"

definition get_session :: "session_store \<Rightarrow> uuid \<Rightarrow> session option" where
  "get_session st i = map_of (ss_sessions st) i"

definition delete_session :: "session_store \<Rightarrow> uuid \<Rightarrow> (storage_error + unit) \<times> session_store" where
  "delete_session st i =
     (let st1 = st\<lparr>ss_sessions := AList.delete i (ss_sessions st)\<rparr>
      in case map_of (ss_messages st) i of
           None \<Rightarrow> (Inr (), st1)
         | Some records \<Rightarrow>
             (Inr (), st1\<lparr>ss_messages := AList.delete i (ss_messages st),
                          ss_message_index := foldl (\<lambda>ix r. AList.delete (mr_id r) ix) (ss_message_index st) records\<rparr>))"

definition update_session ::
  "timestamp \<Rightarrow> session_store \<Rightarrow> uuid \<Rightarrow> string \<Rightarrow> model_name option \<Rightarrow> (storage_error + session) \<times> session_store" where
  "update_session now st i title m =
     (case map_of (ss_sessions st) i of
        None \<Rightarrow> (Inl (StorageNotFound i), st)
      | Some s \<Rightarrow>
          let s1 = s\<lparr>se_title := title, se_updated_at := now\<rparr>;
              s2 = (case m of Some x \<Rightarrow> s1\<lparr>se_model := x\<rparr> | None \<Rightarrow> s1)
          in (Inr s2, st\<lparr>ss_sessions := AList.update i s2 (ss_sessions st)\<rparr>))"

definition or_empty :: "'a list option \<Rightarrow> 'a list" where
  "or_empty x = (case x of Some ys \<Rightarrow> ys | None \<Rightarrow> [])"

definition append_message ::
  "timestamp \<Rightarrow> session_store \<Rightarrow> message_record \<Rightarrow> (storage_error + message_record) \<times> session_store" where
  "append_message now st m =
     (let sid = mr_session_id m
      in case map_of (ss_sessions st) sid of
           None \<Rightarrow> (Inl (StorageNotFound sid), st)
         | Some s \<Rightarrow>
             (Inr m,
              st\<lparr>ss_sessions := AList.update sid (s\<lparr>se_updated_at := now\<rparr>) (ss_sessions st),
                 ss_messages := AList.update sid (or_empty (map_of (ss_messages st) sid) @ [m]) (ss_messages st),
                 ss_message_index := AList.update (mr_id m) sid (ss_message_index st)\<rparr>))"

definition list_messages_of :: "session_store \<Rightarrow> uuid \<Rightarrow> message_record list" where
  "list_messages_of st sid = or_empty (map_of (ss_messages st) sid)"

fun set_usage :: "uuid \<Rightarrow> token_usage \<Rightarrow> message_record list \<Rightarrow> message_record list option" where
  "set_usage i u [] = None"
| "set_usage i u (r # rs) =
     (if mr_id r = i then Some (r\<lparr>mr_usage := Some u\<rparr> # rs)
      else map_option ((#) r) (set_usage i u rs))"

definition update_usage ::
  "session_store \<Rightarrow> uuid \<Rightarrow> token_usage \<Rightarrow> (storage_error + unit) \<times> session_store" where
  "update_usage st i u =
     (case map_of (ss_message_index st) i of
        None \<Rightarrow> (Inl (StorageNotFound i), st)
      | Some sid \<Rightarrow>
          (case map_of (ss_messages st) sid of
             None \<Rightarrow> (Inl (StorageNotFound i), st)
           | Some records \<Rightarrow>
               (case set_usage i u records of
                  None \<Rightarrow> (Inl (StorageNotFound i), st)
                | Some records' \<Rightarrow>
                    (Inr (), st\<lparr>ss_messages := AList.update sid records' (ss_messages st)\<rparr>))))"

text \<open>The trait's default methods, which this store keeps.\<close>

definition session_matches :: "session_filter \<Rightarrow> session \<Rightarrow> bool" where
  "session_matches f s =
     (if (case sf_created_after f of Some a \<Rightarrow> se_created_at s < a | None \<Rightarrow> False) then False
      else if (case sf_created_before f of Some b \<Rightarrow> se_created_at s \<ge> b | None \<Rightarrow> False) then False
      else (case sf_metadata f of Some m \<Rightarrow> se_metadata s = m | None \<Rightarrow> True))"

definition paginate :: "pagination \<Rightarrow> 'a list \<Rightarrow> 'a list" where
  "paginate p xs = take (unat (pg_limit p)) (drop (unat (pg_offset p)) xs)"

definition list_sessions_paginated ::
  "(session list \<Rightarrow> session list) \<Rightarrow> session_store \<Rightarrow> pagination \<Rightarrow> session_filter \<Rightarrow> session list" where
  "list_sessions_paginated order st p f = paginate p (filter (session_matches f) (list_sessions order st))"

definition list_messages_paginated :: "session_store \<Rightarrow> uuid \<Rightarrow> pagination \<Rightarrow> message_record list" where
  "list_messages_paginated st sid p = paginate p (list_messages_of st sid)"

definition get_latest_compaction :: "session_store \<Rightarrow> uuid \<Rightarrow> message_record option" where
  "get_latest_compaction st sid = List.find mr_is_compaction (rev (list_messages_of st sid))"

interpretation memory_log: message_log append_message list_messages_of
  "\<lambda>st sid. map_of (ss_sessions st) sid \<noteq> None"
proof
  fix st :: session_store and m now sid
  show "fst (append_message now st m) = Inr m" if "map_of (ss_sessions st) (mr_session_id m) \<noteq> None"
    using that by (auto simp: append_message_def Let_def)
  show "append_message now st m = (Inl (StorageNotFound (mr_session_id m)), st)"
    if "\<not> map_of (ss_sessions st) (mr_session_id m) \<noteq> None"
    using that by (simp add: append_message_def Let_def)
  show "list_messages_of (snd (append_message now st m)) sid =
      list_messages_of st sid @ (if sid = mr_session_id m then [m] else [])"
    if "map_of (ss_sessions st) (mr_session_id m) \<noteq> None"
    using that by (auto simp: append_message_def Let_def list_messages_of_def or_empty_def update_conv')
  show "(\<lambda>sid. map_of (ss_sessions (snd (append_message now st m))) sid \<noteq> None) =
      (\<lambda>sid. map_of (ss_sessions st) sid \<noteq> None)"
    by (auto simp: append_message_def Let_def update_conv' fun_eq_iff split: option.splits)
qed

text \<open>The message log. After appending any records, listing a known session gives what it listed
  before followed by exactly the appended records of that session, in order; records of unknown
  sessions are refused with \<open>NotFound\<close> and change nothing.\<close>

theorem message_log_exact:
  assumes "map_of (ss_sessions st) sid \<noteq> None"
  shows "list_messages_of (memory_log.append_records st ms) sid =
    list_messages_of st sid @ filter (\<lambda>m. mr_session_id m = sid) (map snd ms)"
proof -
  have "filter (\<lambda>m. map_of (ss_sessions st) (mr_session_id m) \<noteq> None \<and> mr_session_id m = sid) (map snd ms) =
      filter (\<lambda>m. mr_session_id m = sid) (map snd ms)"
    using assms by (intro filter_cong) auto
  then show ?thesis using memory_log.list_append_records [of st ms sid] by simp
qed

definition one_session :: session_store where
  "one_session = snd (create_session session_store_new (session_new ''s'' 0 ''t'' ''m''))"

lemma message_log_exact_witness:
  "map_of (ss_sessions one_session) ''s'' \<noteq> None \<and>
   length (list_messages_of (memory_log.append_records one_session
     [(1, message_record_new ''1'' 1 ''s'' RoleUser []), (2, message_record_new ''2'' 2 ''x'' RoleUser [])]) ''s'') = 1"
proof -
  have k: "map_of (ss_sessions one_session) ''s'' \<noteq> None"
    by (simp add: one_session_def create_session_def session_store_new_def session_new_def)
  have e: "list_messages_of one_session ''s'' = []"
    by (simp add: one_session_def create_session_def session_store_new_def session_new_def
        list_messages_of_def or_empty_def)
  show ?thesis using message_log_exact [OF k, of "[(1, message_record_new ''1'' 1 ''s'' RoleUser []),
      (2, message_record_new ''2'' 2 ''x'' RoleUser [])]"] k e
    by (simp add: message_record_new_def)
qed

section \<open>The runtime's view\<close>

definition ensure_session ::
  "uuid \<Rightarrow> timestamp \<Rightarrow> session_store \<Rightarrow> uuid option \<Rightarrow> (runtime_error + uuid) \<times> session_store" where
  "ensure_session fresh now st sid =
     (case sid of
        Some i \<Rightarrow> (case get_session st i of None \<Rightarrow> (Inl (SessionNotFound i), st) | Some _ \<Rightarrow> (Inr i, st))
      | None \<Rightarrow>
          (case create_session st (session_new fresh now ''Agent Run'' ''default'') of
             (Inl e, st') \<Rightarrow> (Inl (StorageErr e), st')
           | (Inr _, st') \<Rightarrow> (Inr fresh, st')))"

definition rs_append_message ::
  "uuid \<Rightarrow> timestamp \<Rightarrow> session_store \<Rightarrow> uuid \<Rightarrow> message \<Rightarrow> (runtime_error + uuid) \<times> session_store" where
  "rs_append_message i now st sid m =
     (case append_message now st (message_to_record i now sid m) of
        (Inl e, st') \<Rightarrow> (Inl (StorageErr e), st')
      | (Inr r, st') \<Rightarrow> (Inr (mr_id r), st'))"

definition rs_list_messages :: "session_store \<Rightarrow> uuid \<Rightarrow> message list" where
  "rs_list_messages st sid = List.map_filter record_to_message (list_messages_of st sid)"

fun rs_append_all :: "session_store \<Rightarrow> uuid \<Rightarrow> (uuid \<times> timestamp \<times> message) list \<Rightarrow> session_store" where
  "rs_append_all st sid [] = st"
| "rs_append_all st sid ((i, now, m) # ms) =
     rs_append_all (snd (rs_append_message i now st sid m)) sid ms"

lemma rs_append_all_records:
  "rs_append_all st sid ms =
     memory_log.append_records st (map (\<lambda>(i, now, m). (now, message_to_record i now sid m)) ms)"
proof (induction st sid ms rule: rs_append_all.induct)
  case (2 st sid i now m ms)
  have "snd (rs_append_message i now st sid m) = snd (append_message now st (message_to_record i now sid m))"
    by (auto simp: rs_append_message_def split: prod.splits sum.splits)
  with 2 show ?case by simp
qed simp

abbreviation to_records :: "uuid \<Rightarrow> (uuid \<times> timestamp \<times> message) list \<Rightarrow> message_record list" where
  "to_records sid ms \<equiv> map (\<lambda>(i, now, m). message_to_record i now sid m) ms"

lemma list_rs_append_all:
  assumes "map_of (ss_sessions st) sid \<noteq> None"
  shows "list_messages_of (rs_append_all st sid ms) sid = list_messages_of st sid @ to_records sid ms"
proof -
  let ?rs = "map (\<lambda>(i, now, m). (now, message_to_record i now sid m)) ms"
  have "filter (\<lambda>m. map_of (ss_sessions st) (mr_session_id m) \<noteq> None \<and> mr_session_id m = sid) (map snd ?rs) =
      map snd ?rs"
    using assms by (intro filter_True) auto
  then show ?thesis
    by (simp add: rs_append_all_records memory_log.list_append_records comp_def case_prod_unfold)
qed

text \<open>C18: A conversation is kept as it was held. Making sure of a session, appending messages and
  listing them gives back the earlier messages and then exactly the appended ones, and leaves every
  other session's messages alone.\<close>

theorem conversation_roundtrip:
  assumes "ensure_session fresh now st so = (Inr sid, st')"
  shows "rs_list_messages (rs_append_all st' sid ms) sid =
      rs_list_messages st' sid @ map (\<lambda>(i, t, m). m) ms \<and>
    (\<forall>other. other \<noteq> sid \<longrightarrow> list_messages_of (rs_append_all st' sid ms) other = list_messages_of st' other)"
proof -
  let ?rs = "map (\<lambda>(i, now, m). (now, message_to_record i now sid m)) ms"
  have known: "map_of (ss_sessions st') sid \<noteq> None"
    using assms
    by (auto simp: ensure_session_def get_session_def create_session_def session_new_def update_conv'
        split: option.splits)
  have "List.map_filter record_to_message (to_records sid ms) = map (\<lambda>(i, t, m). m) ms"
    by (induction ms) (auto simp: map_filter_simps message_record_roundtrip)
  moreover have "filter (\<lambda>m. map_of (ss_sessions st') (mr_session_id m) \<noteq> None \<and> mr_session_id m = other)
      (map snd ?rs) = []" if "other \<noteq> sid" for other
    using that by (auto simp: filter_empty_conv)
  ultimately show ?thesis
    using list_rs_append_all [OF known, of ms] memory_log.list_append_records [of st' ?rs]
    by (simp add: rs_list_messages_def rs_append_all_records map_filter_def)
qed

lemma conversation_roundtrip_witness:
  "rs_list_messages (rs_append_all (snd (ensure_session ''s'' 0 session_store_new None)) ''s''
     [(''1'', 1, user_text ''a''), (''2'', 2, assistant_text ''b'')]) ''s'' =
   [user_text ''a'', assistant_text ''b'']"
proof -
  have e: "ensure_session ''s'' 0 session_store_new None =
      (Inr ''s'', snd (ensure_session ''s'' 0 session_store_new None))"
    by (simp add: ensure_session_def create_session_def)
  have n: "rs_list_messages (snd (ensure_session ''s'' 0 session_store_new None)) ''s'' = []"
    by (simp add: ensure_session_def create_session_def session_new_def session_store_new_def
        rs_list_messages_def list_messages_of_def or_empty_def map_filter_simps)
  show ?thesis
    using conversation_roundtrip [OF e, of "[(''1'', 1, user_text ''a''), (''2'', 2, assistant_text ''b'')]"] n
    by simp
qed

section \<open>Executions and usage\<close>

record execution_store =
  xs_executions :: "(uuid \<times> tool_execution) list"
  xs_usage_records :: "(uuid \<times> usage_record) list"
  xs_message_counts :: "(uuid \<times> u64) list"

definition execution_store_new :: execution_store where
  "execution_store_new = \<lparr>xs_executions = [], xs_usage_records = [], xs_message_counts = []\<rparr>"

definition set_message_count :: "execution_store \<Rightarrow> uuid \<Rightarrow> u64 \<Rightarrow> execution_store" where
  "set_message_count st sid n = st\<lparr>xs_message_counts := AList.update sid n (xs_message_counts st)\<rparr>"

definition record_execution :: "execution_store \<Rightarrow> tool_execution \<Rightarrow> (storage_error + tool_execution) \<times> execution_store" where
  "record_execution st x = (Inr x, st\<lparr>xs_executions := AList.update (tx_id x) x (xs_executions st)\<rparr>)"

definition list_executions ::
  "(tool_execution list \<Rightarrow> tool_execution list) \<Rightarrow> execution_store \<Rightarrow> uuid \<Rightarrow> tool_execution list" where
  "list_executions order st sid =
     sort_key tx_created_at (filter (\<lambda>x. tx_session_id x = sid) (order (map snd (xs_executions st))))"

definition list_executions_by_message ::
  "(tool_execution list \<Rightarrow> tool_execution list) \<Rightarrow> execution_store \<Rightarrow> uuid \<Rightarrow> tool_execution list" where
  "list_executions_by_message order st mid =
     sort_key tx_created_at (filter (\<lambda>x. tx_message_id x = mid) (order (map snd (xs_executions st))))"

definition record_usage_entry :: "execution_store \<Rightarrow> usage_record \<Rightarrow> (storage_error + usage_record) \<times> execution_store" where
  "record_usage_entry st r = (Inr r, st\<lparr>xs_usage_records := AList.update (ur_id r) r (xs_usage_records st)\<rparr>)"

definition list_usage ::
  "(usage_record list \<Rightarrow> usage_record list) \<Rightarrow> execution_store \<Rightarrow> uuid \<Rightarrow> usage_record list" where
  "list_usage order st sid =
     sort_key ur_created_at (filter (\<lambda>r. ur_session_id r = sid) (order (map snd (xs_usage_records st))))"

text \<open>Milliseconds of a duration, capped at \<open>u64::MAX\<close>.\<close>

definition millis :: "duration \<Rightarrow> u64" where
  "millis d = (let m = d div 1000000 in if m < 2 ^ 64 then of_nat m else - 1)"

definition session_stats_of :: "execution_store \<Rightarrow> uuid \<Rightarrow> session_stats" where
  "session_stats_of st sid =
     (let execs = filter (\<lambda>x. tx_session_id x = sid) (map snd (xs_executions st));
          usages = filter (\<lambda>r. ur_session_id r = sid) (map snd (xs_usage_records st));
          calls = of_nat (length execs) :: u64;
          total = sum_list (map (millis \<circ> tx_duration) execs)
      in \<lparr>st_session_id = sid,
          st_message_count = (case map_of (xs_message_counts st) sid of Some n \<Rightarrow> n | None \<Rightarrow> 0),
          st_tool_call_count = calls,
          st_tool_success_count = of_nat (length (filter (\<lambda>x. tx_status x = ExSuccess) execs)),
          st_tool_failure_count = of_nat (length (filter (\<lambda>x. tx_status x = ExFailed) execs)),
          st_total_input_tokens = sum_list (map ur_input_tokens usages),
          st_total_output_tokens = sum_list (map ur_output_tokens usages),
          st_total_tokens = sum_list (map ur_total_tokens usages),
          st_avg_tool_duration_ms = (if calls = 0 then 0 else total div calls)\<rparr>)"

text \<open>The trait's default, which the store keeps: nothing is deleted.\<close>

definition delete_executions_by_session :: "execution_store \<Rightarrow> uuid \<Rightarrow> (storage_error + u64) \<times> execution_store" where
  "delete_executions_by_session st sid = (Inr 0, st)"

section \<open>Artifacts\<close>

type_synonym artifact_store = "(uuid \<times> artifact) list"

definition artifact_put :: "artifact_store \<Rightarrow> artifact \<Rightarrow> (storage_error + artifact) \<times> artifact_store" where
  "artifact_put st a = (Inr a, AList.update (ar_id a) a st)"

definition artifact_get :: "artifact_store \<Rightarrow> uuid \<Rightarrow> artifact option" where
  "artifact_get st i = map_of st i"

definition artifact_delete :: "artifact_store \<Rightarrow> uuid \<Rightarrow> (storage_error + unit) \<times> artifact_store" where
  "artifact_delete st i = (Inr (), AList.delete i st)"

definition artifact_list_by_session :: "(artifact list \<Rightarrow> artifact list) \<Rightarrow> artifact_store \<Rightarrow> uuid \<Rightarrow> artifact list" where
  "artifact_list_by_session order st sid =
     filter (\<lambda>a. ar_session_id a = Some sid) (order (map snd st))"

definition delete_artifacts_by_session :: "artifact_store \<Rightarrow> uuid \<Rightarrow> (storage_error + u64) \<times> artifact_store" where
  "delete_artifacts_by_session st sid = (Inr 0, st)"

section \<open>Embeddings\<close>

text \<open>\<open>score q v\<close> is the cosine similarity in \<open>f32\<close>, \<open>cmp\<close> its partial comparison with ties as
  equal; \<open>sort_by\<close> is a stable sort by it, a parameter \<open>sorts\<close>.\<close>

type_synonym 'f embedding_store = "(uuid \<times> 'f embedding_record) list"

definition embedding_upsert ::
  "'f embedding_store \<Rightarrow> 'f embedding_record \<Rightarrow> (storage_error + 'f embedding_record) \<times> 'f embedding_store" where
  "embedding_upsert st r = (Inr r, AList.update (em_id r) r st)"

definition embedding_search ::
  "('f list \<Rightarrow> 'f list \<Rightarrow> 's) \<Rightarrow> (('f embedding_record \<times> 's) list \<Rightarrow> ('f embedding_record \<times> 's) list) \<Rightarrow>
   ('f embedding_record list \<Rightarrow> 'f embedding_record list) \<Rightarrow>
   'f embedding_store \<Rightarrow> 'f list \<Rightarrow> usize \<Rightarrow> ('f embedding_record \<times> 's) list" where
  "embedding_search score sorts order st q limit =
     take limit (sorts (map (\<lambda>r. (r, score q (em_vector r))) (order (map snd st))))"

definition embedding_delete :: "'f embedding_store \<Rightarrow> uuid \<Rightarrow> (storage_error + unit) \<times> 'f embedding_store" where
  "embedding_delete st i = (Inr (), AList.delete i st)"

definition delete_embeddings_by_session ::
  "'f embedding_store \<Rightarrow> uuid \<Rightarrow> (storage_error + u64) \<times> 'f embedding_store" where
  "delete_embeddings_by_session st sid =
     (let kept = filter (\<lambda>(i, r). em_session_id r \<noteq> Some sid) st
      in (Inr (of_nat (length st - length kept)), kept))"

section \<open>The composite store\<close>

record 'f memory_store =
  ms_sessions :: session_store
  ms_embeddings :: "'f embedding_store"
  ms_artifacts :: artifact_store
  ms_executions :: execution_store

definition memory_store_empty :: "'f memory_store" where
  "memory_store_empty =
     \<lparr>ms_sessions = session_store_new, ms_embeddings = [], ms_artifacts = [],
      ms_executions = execution_store_new\<rparr>"

fun error_line :: "string \<Rightarrow> storage_error + 'a \<Rightarrow> string list" where
  "error_line what (Inl e) = [what @ '': '' @ show_storage_error e]"
| "error_line what (Inr _) = []"

definition delete_session_cascading :: "'f memory_store \<Rightarrow> uuid \<Rightarrow> (storage_error + unit) \<times> 'f memory_store" where
  "delete_session_cascading st i =
     (let (r1, se) = delete_session (ms_sessions st) i;
          (r2, em) = delete_embeddings_by_session (ms_embeddings st) i;
          (r3, ar) = delete_artifacts_by_session (ms_artifacts st) i;
          (r4, ex) = delete_executions_by_session (ms_executions st) i;
          errors = error_line ''sessions'' r1 @ error_line ''embeddings'' r2 @
            error_line ''artifacts'' r3 @ error_line ''executions'' r4;
          st' = st\<lparr>ms_sessions := se, ms_embeddings := em, ms_artifacts := ar, ms_executions := ex\<rparr>
      in if errors = [] then (Inr (), st')
         else (Inl (BackendError ''memory'' (''cascade delete failed: '' @ str_join ''; '' errors) None), st'))"

text \<open>The cascade is not one. Deleting a session with everything related succeeds and removes the
  session, its messages and its embeddings, but keeps every one of its artifacts, tool executions
  and usage records: listing them gives what it gave before.\<close>

theorem cascading_delete_leaks:
  "fst (delete_session_cascading st i) = Inr () \<and>
   get_session (ms_sessions (snd (delete_session_cascading st i))) i = None \<and>
   list_messages_of (ms_sessions (snd (delete_session_cascading st i))) i = [] \<and>
   filter (\<lambda>(k, r). em_session_id r = Some i) (ms_embeddings (snd (delete_session_cascading st i))) = [] \<and>
   artifact_list_by_session order (ms_artifacts (snd (delete_session_cascading st i))) i =
     artifact_list_by_session order (ms_artifacts st) i \<and>
   list_executions order' (ms_executions (snd (delete_session_cascading st i))) i =
     list_executions order' (ms_executions st) i \<and>
   list_usage order'' (ms_executions (snd (delete_session_cascading st i))) i =
     list_usage order'' (ms_executions st) i"
proof -
  have d: "fst (delete_session ss i) = Inr () \<and> get_session (snd (delete_session ss i)) i = None \<and>
      list_messages_of (snd (delete_session ss i)) i = []" for ss
    by (auto simp: delete_session_def Let_def get_session_def list_messages_of_def or_empty_def
        delete_conv' split: option.splits)
  obtain r1 se where se: "delete_session (ms_sessions st) i = (r1, se)" by fastforce
  with d [of "ms_sessions st"] have "r1 = Inr ()" "get_session se i = None" "list_messages_of se i = []"
    by auto
  then show ?thesis
    by (auto simp: delete_session_cascading_def Let_def se delete_embeddings_by_session_def
        delete_artifacts_by_session_def delete_executions_by_session_def filter_empty_conv)
qed

section \<open>The message index\<close>

text \<open>Every indexed message is in its session's list and the other way round.\<close>

definition index_inv :: "session_store \<Rightarrow> bool" where
  "index_inv st \<longleftrightarrow>
     (\<forall>i sid. map_of (ss_message_index st) i = Some sid \<longleftrightarrow> i \<in> mr_id ` set (list_messages_of st sid))"

text \<open>Stores reached by the operations, with fresh message identifiers, and creating a session only
  where none has messages.\<close>

inductive store_reachable :: "session_store \<Rightarrow> bool" where
  reach_new: "store_reachable session_store_new"
| reach_create: "store_reachable st \<Longrightarrow> list_messages_of st (se_id s) = [] \<Longrightarrow>
    store_reachable (snd (create_session st s))"
| reach_append: "store_reachable st \<Longrightarrow> map_of (ss_message_index st) (mr_id m) = None \<Longrightarrow>
    store_reachable (snd (append_message now st m))"
| reach_delete: "store_reachable st \<Longrightarrow> store_reachable (snd (delete_session st i))"
| reach_update: "store_reachable st \<Longrightarrow> store_reachable (snd (update_session now st i title m))"
| reach_usage: "store_reachable st \<Longrightarrow> store_reachable (snd (update_usage st i u))"

lemma index_inv_create:
  assumes "index_inv st" and "list_messages_of st (se_id s) = []"
  shows "index_inv (snd (create_session st s))"
proof -
  have "list_messages_of (snd (create_session st s)) sid = list_messages_of st sid" for sid
    using assms(2) by (auto simp: create_session_def list_messages_of_def or_empty_def update_conv')
  then show ?thesis using assms(1) by (simp add: index_inv_def create_session_def)
qed

lemma index_inv_append:
  assumes inv: "index_inv st" and fresh: "map_of (ss_message_index st) (mr_id m) = None"
  shows "index_inv (snd (append_message now st m))"
proof (cases "map_of (ss_sessions st) (mr_session_id m) = None")
  case True
  then show ?thesis using inv by (simp add: append_message_def Let_def)
next
  case False
  then have l: "list_messages_of (snd (append_message now st m)) sid =
      list_messages_of st sid @ (if sid = mr_session_id m then [m] else [])" for sid
    by (rule memory_log.list_append)
  have ix: "map_of (ss_message_index (snd (append_message now st m))) =
      (map_of (ss_message_index st))(mr_id m \<mapsto> mr_session_id m)"
    using False by (auto simp: append_message_def Let_def update_conv')
  have "mr_id m \<notin> mr_id ` set (list_messages_of st sid)" for sid
    using inv fresh unfolding index_inv_def by (metis option.distinct(1))
  with inv show ?thesis unfolding index_inv_def l ix by auto
qed

lemma index_foldl_delete:
  "map_of (foldl (\<lambda>ix r. AList.delete (f r) ix) ix rs) i = (if i \<in> f ` set rs then None else map_of ix i)"
  by (induction rs arbitrary: ix) (auto simp: delete_conv')

lemma index_inv_delete:
  assumes "index_inv st"
  shows "index_inv (snd (delete_session st i))"
proof (cases "map_of (ss_messages st) i")
  case None
  then show ?thesis using assms by (simp add: delete_session_def Let_def index_inv_def list_messages_of_def)
next
  case (Some rs)
  then have rs: "list_messages_of st i = rs" by (simp add: list_messages_of_def or_empty_def)
  have l: "list_messages_of (snd (delete_session st i)) sid = (if sid = i then [] else list_messages_of st sid)" for sid
    using Some by (simp add: delete_session_def Let_def list_messages_of_def or_empty_def delete_conv')
  have ix: "map_of (ss_message_index (snd (delete_session st i))) j =
      (if j \<in> mr_id ` set rs then None else map_of (ss_message_index st) j)" for j
    using Some by (simp add: delete_session_def Let_def index_foldl_delete)
  have "map_of (ss_message_index st) j = Some sid \<longleftrightarrow> j \<in> mr_id ` set (list_messages_of st sid)"
    "map_of (ss_message_index st) j = Some i \<longleftrightarrow> j \<in> mr_id ` set rs" for j sid
    using assms rs by (simp_all add: index_inv_def)
  then show ?thesis unfolding index_inv_def l ix
    by (metis empty_iff image_empty list.set(1) option.inject option.distinct(1))
qed

lemma set_usage_ids: "set_usage i u rs = Some rs' \<Longrightarrow> map mr_id rs' = map mr_id rs"
  by (induction rs arbitrary: rs') (auto split: if_splits)

lemma set_usage_None: "set_usage i u rs = None \<longleftrightarrow> i \<notin> mr_id ` set rs"
  by (induction rs) auto

lemma index_inv_usage:
  assumes "index_inv st"
  shows "index_inv (snd (update_usage st i u))"
proof -
  have "mr_id ` set (list_messages_of (snd (update_usage st i u)) sid) = mr_id ` set (list_messages_of st sid)" for sid
    by (auto simp: update_usage_def list_messages_of_def or_empty_def update_conv'
        dest!: set_usage_ids [THEN arg_cong [where f = set]] split: option.splits)
  moreover have "ss_message_index (snd (update_usage st i u)) = ss_message_index st"
    by (simp add: update_usage_def split: option.splits)
  ultimately show ?thesis using assms by (simp add: index_inv_def)
qed

lemma reachable_index_inv: "store_reachable st \<Longrightarrow> index_inv st"
proof (induction rule: store_reachable.induct)
  case (reach_update st now i title m)
  then show ?case
    by (simp add: update_session_def index_inv_def list_messages_of_def Let_def split: option.splits)
qed (simp_all add: index_inv_create index_inv_append index_inv_delete index_inv_usage,
    simp add: index_inv_def session_store_new_def list_messages_of_def or_empty_def)

text \<open>The message index. On every store reached by the operations with fresh message identifiers a
  message can be given its usage exactly when some session lists it, whatever was deleted before.\<close>

theorem usage_updates_stored_messages:
  assumes "store_reachable st"
  shows "fst (update_usage st i u) = Inr () \<longleftrightarrow>
    (\<exists>sid r. r \<in> set (list_messages_of st sid) \<and> mr_id r = i)"
proof (cases "map_of (ss_message_index st) i")
  case None
  then have "i \<notin> mr_id ` set (list_messages_of st sid)" for sid
    using reachable_index_inv [OF assms] unfolding index_inv_def by (metis option.distinct(1))
  then show ?thesis using None by (auto simp: update_usage_def)
next
  case (Some sid)
  then have i: "i \<in> mr_id ` set (list_messages_of st sid)"
    using reachable_index_inv [OF assms] by (simp add: index_inv_def)
  then obtain rs where rs: "map_of (ss_messages st) sid = Some rs" "i \<in> mr_id ` set rs"
    by (cases "map_of (ss_messages st) sid") (auto simp: list_messages_of_def or_empty_def)
  then obtain rs' where "set_usage i u rs = Some rs'" using set_usage_None [of i u rs] by auto
  then have "fst (update_usage st i u) = Inr ()" using Some rs by (simp add: update_usage_def)
  moreover have "\<exists>sid r. r \<in> set (list_messages_of st sid) \<and> mr_id r = i" using i by auto
  ultimately show ?thesis by blast
qed

lemma usage_updates_stored_messages_witness:
  "fst (update_usage (snd (append_message 1 one_session (message_record_new ''1'' 1 ''s'' RoleUser [])))
     ''1'' (usage_new 1 2)) = Inr ()"
proof -
  let ?st = "snd (append_message 1 one_session (message_record_new ''1'' 1 ''s'' RoleUser []))"
  have r: "store_reachable ?st" unfolding one_session_def
    by (intro store_reachable.intros)
      (simp_all add: session_store_new_def create_session_def session_new_def list_messages_of_def or_empty_def)
  have "message_record_new ''1'' 1 ''s'' RoleUser [] \<in> set (list_messages_of ?st ''s'')"
    by (simp add: one_session_def create_session_def session_store_new_def session_new_def
        append_message_def message_record_new_def Let_def list_messages_of_def or_empty_def)
  then show ?thesis
    using usage_updates_stored_messages [OF r, of "''1''" "usage_new 1 2"] by (force simp: message_record_new_def)
qed

end
