(* ===== verification/Compaction_Service.thy ===== *)
theory Compaction_Service
  imports Compaction_Select Memory_Stores Runtime_Policy
begin

text \<open>
  The runtime's compaction service (\<open>behest-runtime/src/compaction/mod.rs\<close>), its prompt
  (\<open>compaction/prompt.rs\<close>) and the pruning of tool outputs (\<open>compaction/prune.rs\<close>). The session store
  the service is handed is the record \<open>session_ops\<close>; identifiers it draws and times it reads are
  arguments. Text is UTF-8 bytes, as everywhere.
\<close>

section \<open>Pruning tool outputs\<close>

definition prune_minimum :: usize where "prune_minimum = 20000"
definition prune_protect :: usize where "prune_protect = 40000"
definition prune_protected_tools :: "string list" where "prune_protected_tools = [''skill'']"

definition pruned_placeholder :: string where
  "pruned_placeholder = ''[Old tool result content cleared]''"

record prune_result =
  pruned_count :: usize
  prune_tokens_freed :: usize

fun find_skip :: "usize \<Rightarrow> usize \<Rightarrow> (nat \<times> message_record) list \<Rightarrow> nat option" where
  "find_skip skip_turns n [] = None"
| "find_skip skip_turns n ((i, m) # ms) =
     (if starts_turn m then (if n + 1 \<ge> skip_turns then Some i else find_skip skip_turns (n + 1) ms)
      else find_skip skip_turns n ms)"

text \<open>The first pass, from the newest message: \<open>has_skip\<close> is \<open>skip_until.is_some()\<close>.\<close>

fun prune_targets ::
  "json_printer \<Rightarrow> bool \<Rightarrow> (nat \<times> message_record) list \<Rightarrow> usize \<Rightarrow> nat list \<Rightarrow> usize \<Rightarrow> nat list \<times> usize" where
  "prune_targets js has_skip [] protected targets freed = (targets, freed)"
| "prune_targets js has_skip ((i, m) # ms) protected targets freed =
     (if mr_is_summary m then (targets, freed)
      else if has_skip \<and> protected < prune_protect then
        prune_targets js has_skip ms (protected + estimate_record_tokens js m) targets freed
      else if mr_role m \<noteq> RoleTool then prune_targets js has_skip ms protected targets freed
      else if (case mr_tool_name m of Some n \<Rightarrow> n \<in> set prune_protected_tools | None \<Rightarrow> False) then
        prune_targets js has_skip ms protected targets freed
      else if protected < prune_protect then
        prune_targets js has_skip ms (protected + estimate_record_tokens js m) targets freed
      else prune_targets js has_skip ms protected (targets @ [i]) (freed + estimate_record_tokens js m))"

definition pruned :: "message_record \<Rightarrow> message_record" where
  "pruned m = m\<lparr>mr_is_summary := True, mr_content := [part_text pruned_placeholder]\<rparr>"

definition prune_tool_outputs ::
  "json_printer \<Rightarrow> message_record list \<Rightarrow> usize \<Rightarrow> prune_result \<times> message_record list" where
  "prune_tool_outputs js messages skip_turns =
     (if messages = [] then (\<lparr>pruned_count = 0, prune_tokens_freed = 0\<rparr>, messages)
      else
        let backward = rev (zip [0..<length messages] messages);
            skip_until = find_skip skip_turns 0 backward;
            (targets, freed) = prune_targets js (skip_until \<noteq> None) backward 0 [] 0
        in if freed < prune_minimum then (\<lparr>pruned_count = 0, prune_tokens_freed = 0\<rparr>, messages)
           else (\<lparr>pruned_count = length targets, prune_tokens_freed = freed\<rparr>,
                 foldl (\<lambda>ms i. ms[i := pruned (ms ! i)]) messages targets))"

text \<open>What the first pass promises of a target.\<close>

definition prunable :: "json_printer \<Rightarrow> message_record list \<Rightarrow> nat \<Rightarrow> bool" where
  "prunable js ms i \<longleftrightarrow>
     i < length ms \<and> mr_role (ms ! i) = RoleTool \<and> mr_tool_name (ms ! i) \<noteq> Some ''skill'' \<and>
     \<not> mr_is_summary (ms ! i) \<and> prune_protect \<le> estimate_records_tokens js (drop (Suc i) ms)"

lemma backward_Suc:
  "k < length ms \<Longrightarrow> rev (zip [0..<Suc k] (take (Suc k) ms)) = (k, ms ! k) # rev (zip [0..<k] (take k ms))"
  by (simp add: take_Suc_conv_app_nth)

lemma prune_targets_spec:
  assumes "k \<le> length ms" and "protected \<le> estimate_records_tokens js (drop k ms)"
    and "\<forall>i\<in>set ts. prunable js ms i \<and> k \<le> i" and "distinct ts"
    and "freed = (\<Sum>i\<leftarrow>ts. estimate_record_tokens js (ms ! i))"
    and "prune_targets js b (rev (zip [0..<k] (take k ms))) protected ts freed = (ts', freed')"
  shows "(\<forall>i\<in>set ts'. prunable js ms i) \<and> distinct ts' \<and>
    freed' = (\<Sum>i\<leftarrow>ts'. estimate_record_tokens js (ms ! i))"
  using assms
proof (induction k arbitrary: protected ts freed)
  case (Suc k)
  let ?m = "ms ! k"
  have k: "k < length ms" using Suc.prems(1) by simp
  have d: "estimate_records_tokens js (drop k ms) =
      estimate_record_tokens js ?m + estimate_records_tokens js (drop (Suc k) ms)"
    using k by (simp add: estimate_records_tokens_def flip: Cons_nth_drop_Suc)
  have lower: "\<forall>i\<in>set ts. prunable js ms i \<and> k \<le> i" using Suc.prems(3) by auto
  note run = Suc.prems(6) [unfolded backward_Suc [OF k]]
  note IH = Suc.IH [OF less_imp_le [OF k]]
  show ?case
  proof (cases "mr_is_summary ?m")
    case True
    then show ?thesis using run Suc.prems by auto
  next
    case False
    consider (count) "prune_targets js b (rev (zip [0..<k] (take k ms)))
        (protected + estimate_record_tokens js ?m) ts freed = (ts', freed')"
      | (pass) "prune_targets js b (rev (zip [0..<k] (take k ms))) protected ts freed = (ts', freed')"
      | (target) "prune_targets js b (rev (zip [0..<k] (take k ms))) protected (ts @ [k])
          (freed + estimate_record_tokens js ?m) = (ts', freed')" "prune_protect \<le> protected"
          "mr_role ?m = RoleTool" "mr_tool_name ?m \<noteq> Some ''skill''"
      using run False by (auto simp: prune_protected_tools_def split: if_splits option.splits)
    then show ?thesis
    proof cases
      case count
      have "protected + estimate_record_tokens js ?m \<le> estimate_records_tokens js (drop k ms)"
        using Suc.prems(2) d by simp
      then show ?thesis by (rule IH [OF _ lower Suc.prems(4,5) count])
    next
      case pass
      have "protected \<le> estimate_records_tokens js (drop k ms)" using Suc.prems(2) d by simp
      then show ?thesis by (rule IH [OF _ lower Suc.prems(4,5) pass])
    next
      case target
      have "prunable js ms k" using target False k Suc.prems(2) by (simp add: prunable_def)
      then have "\<forall>i\<in>set (ts @ [k]). prunable js ms i \<and> k \<le> i" using lower by auto
      moreover have "distinct (ts @ [k])" using Suc.prems(3,4) by auto
      moreover have "protected \<le> estimate_records_tokens js (drop k ms)" using Suc.prems(2) d by simp
      moreover have "freed + estimate_record_tokens js ?m = (\<Sum>i\<leftarrow>ts @ [k]. estimate_record_tokens js (ms ! i))"
        using Suc.prems(5) by simp
      ultimately show ?thesis by (intro IH [OF _ _ _ _ target(1)])
    qed
  qed
qed simp

lemma foldl_pruned:
  assumes "\<forall>i\<in>set ts. i < length ms" and "distinct ts"
  shows "length (foldl (\<lambda>ms i. ms[i := pruned (ms ! i)]) ms ts) = length ms \<and>
    (\<forall>i<length ms. foldl (\<lambda>ms i. ms[i := pruned (ms ! i)]) ms ts ! i =
       (if i \<in> set ts then pruned (ms ! i) else ms ! i))"
  using assms by (induction ts arbitrary: ms) (auto simp: nth_list_update)

lemma prune_targets_all:
  assumes "prune_targets js b (rev (zip [0..<length ms] ms)) 0 [] 0 = (ts, freed)"
  shows "(\<forall>i\<in>set ts. prunable js ms i) \<and> distinct ts \<and> freed = (\<Sum>i\<leftarrow>ts. estimate_record_tokens js (ms ! i))"
  using prune_targets_spec [of "length ms" ms 0 js "[]" 0 b ts freed] assms by simp

text \<open>Pruning clears only what it may. It keeps the length and order of the history and either
  changes nothing, or rewrites the content of some tool results, each with at least \<open>PRUNE_PROTECT\<close>
  tokens of later messages, none of them a \<open>skill\<close> result or an earlier summary, that together free
  the reported number of tokens, at least \<open>PRUNE_MINIMUM\<close>.\<close>

theorem prune_effect:
  "case prune_tool_outputs js ms skip of (r, ms') \<Rightarrow>
     length ms' = length ms \<and>
     (let T = {i. i < length ms \<and> ms' ! i \<noteq> ms ! i} in
      (prune_tokens_freed r = 0 \<and> ms' = ms) \<or>
      (prune_minimum \<le> prune_tokens_freed r \<and> pruned_count r = card T \<and>
       prune_tokens_freed r = (\<Sum>i\<in>T. estimate_record_tokens js (ms ! i)) \<and>
       T \<subseteq> {i. prunable js ms i \<and> ms' ! i = pruned (ms ! i)}))"
proof (cases "ms = []")
  case False
  obtain ts freed where t: "prune_targets js (find_skip skip 0 (rev (zip [0..<length ms] ms)) \<noteq> None)
      (rev (zip [0..<length ms] ms)) 0 [] 0 = (ts, freed)" by fastforce
  note spec = prune_targets_all [OF t]
  have lt: "\<forall>i\<in>set ts. i < length ms" using spec by (auto simp: prunable_def)
  let ?ms' = "foldl (\<lambda>ms i. ms[i := pruned (ms ! i)]) ms ts"
  have new: "length ?ms' = length ms"
    "\<forall>i<length ms. ?ms' ! i = (if i \<in> set ts then pruned (ms ! i) else ms ! i)"
    using foldl_pruned [OF lt] spec by auto
  have "pruned (ms ! i) \<noteq> ms ! i" if "i \<in> set ts" for i
  proof
    assume "pruned (ms ! i) = ms ! i"
    then have "mr_is_summary (ms ! i)" by (metis message_record.select_convs(11) pruned_def message_record.surjective
        message_record.update_convs(11) message_record.update_convs(4))
    with spec that show False by (auto simp: prunable_def)
  qed
  then have T: "{i. i < length ms \<and> ?ms' ! i \<noteq> ms ! i} = set ts" using new lt by (auto split: if_splits)
  have "card (set ts) = length ts" using spec by (simp add: distinct_card)
  moreover have "freed = (\<Sum>i\<in>set ts. estimate_record_tokens js (ms ! i))"
    using spec by (simp add: sum_list_distinct_conv_sum_set)
  ultimately show ?thesis
    using False t new T spec lt by (auto simp: prune_tool_outputs_def Let_def)
qed (simp add: prune_tool_outputs_def)

section \<open>The summary prompt\<close>

definition tool_output_max_chars :: usize where "tool_output_max_chars = 2000"

definition em_dash :: string where "em_dash = [CHR 0xE2, CHR 0x80, CHR 0x94]"

text \<open>\<open>str::replace\<close> for a pattern that is not empty.\<close>

function str_replace :: "string \<Rightarrow> string \<Rightarrow> string \<Rightarrow> string" where
  "str_replace p r [] = []"
| "str_replace p r (c # cs) =
     (if is_prefix_of p (c # cs) then r @ str_replace p r (drop (length p - 1) cs)
      else c # str_replace p r cs)"
  by pat_completeness auto
termination by (relation "measure (\<lambda>(p, r, s). length s)") auto

definition compaction_prompt_template :: string where
  "compaction_prompt_template = str_join [newline]
     [''You are a conversation summarizer. Your task is to produce a structured, dense summary of the '' @
        ''conversation history below so another instance of the same model can pick up where it left off.'',
      '''', ''{previous_instruction}'', '''',
      ''Output ONLY the summary '' @ em_dash @ '' no preamble, no commentary, no markdown code fences.'',
      '''', ''## Goal'',
      ''<!-- Single-sentence description of the task the user is trying to accomplish -->'',
      '''', ''## Constraints & Preferences'',
      ''<!-- Explicit constraints, preferences, style guides, or rules mentioned -->'',
      '''', ''## Progress'', ''### Done'', ''<!-- What has been completed so far -->'',
      ''### In Progress'', ''<!-- What is currently being worked on -->'',
      ''### Blocked'', ''<!-- Anything that is blocked and why -->'',
      '''', ''## Key Decisions'',
      ''<!-- Important technical or design decisions made during the conversation -->'',
      '''', ''## Next Steps'', ''<!-- What the model should do next, in priority order -->'',
      '''', ''## Critical Context'',
      ''<!-- Any context the model MUST know to continue (file paths, error messages, API responses, etc.) -->'',
      '''', ''## Relevant Files'',
      ''<!-- Files that were created, modified, or discussed. Format: path:line_number -->'', '''']"

text \<open>The test is on bytes, the cut on characters, and the rest is counted in bytes.\<close>

definition truncate_if_too_long :: "string \<Rightarrow> usize \<Rightarrow> string" where
  "truncate_if_too_long t max_chars =
     (if length t \<le> max_chars then t
      else take_chars max_chars t @ [newline] @ ''[truncated: omitted '' @ show_nat (length t - max_chars) @ '' chars]'')"

fun role_label :: "message_role \<Rightarrow> string" where
  "role_label RoleSystem = ''[System]''"
| "role_label RoleUser = ''[User]''"
| "role_label RoleAssistant = ''[Assistant]''"
| "role_label RoleTool = ''[Tool Result]''"

fun serialize_part :: "json_printer \<Rightarrow> content_part \<Rightarrow> string" where
  "serialize_part js (Text t _) = truncate_if_too_long t tool_output_max_chars"
| "serialize_part js (Json v _) = truncate_if_too_long (js v) tool_output_max_chars"
| "serialize_part js (ImageUrl u _ _) = ''[Image: '' @ u @ '']''"

definition serialize_call :: "json_printer \<Rightarrow> tool_call \<Rightarrow> string" where
  "serialize_call js tc =
     [newline] @ ''  [Tool Call: '' @ tc_name tc @ ''('' @ truncate_if_too_long (js (tc_arguments tc)) 500 @ '')]''"

definition serialize_message :: "json_printer \<Rightarrow> message_record \<Rightarrow> string" where
  "serialize_message js msg =
     role_label (mr_role msg) @ '': '' @ concat (map (serialize_part js) (mr_content msg)) @
     concat (map (serialize_call js) (mr_tool_calls msg)) @ [newline]"

fun serialize_from :: "json_printer \<Rightarrow> string \<Rightarrow> message_record list \<Rightarrow> string" where
  "serialize_from js buf [] = buf"
| "serialize_from js buf (msg # ms) =
     (let buf = buf @ serialize_message js msg
      in if estimate_record_tokens js msg > 0 \<and> estimate_tokens buf > 50000
         then buf @ [newline] @
           ''[... further messages truncated to stay within compaction model context ...]'' @ [newline]
         else serialize_from js buf ms)"

definition serialize_messages :: "json_printer \<Rightarrow> message_record list \<Rightarrow> string" where
  "serialize_messages js ms = serialize_from js [] ms"

definition previous_instruction :: "string option \<Rightarrow> string" where
  "previous_instruction previous =
     (case previous of
        Some prev \<Rightarrow> str_join [newline]
          [''You are updating an existing summary. Below is the previous summary '' @ em_dash @
             '' keep what is still relevant, update what has changed, and add new information since '' @
             ''the last compaction.'',
           '''', ''## Previous Summary'', ''```'', prev, ''```'']
      | None \<Rightarrow> ''Create a new anchored summary from the conversation below.'')"

definition build_compaction_prompt :: "json_printer \<Rightarrow> message_record list \<Rightarrow> string option \<Rightarrow> string" where
  "build_compaction_prompt js ms previous =
     str_replace ''{previous_instruction}'' (previous_instruction previous) compaction_prompt_template @
     [newline] @ ''## Messages to Summarize'' @ [newline] @ serialize_messages js ms"

section \<open>The service\<close>

text \<open>What the service reaches: the session store it is handed, the provider registry, the identifier
  generator and the clock, all acting on one environment.\<close>

record 'e chat_provider =
  cp_id :: provider_id
  cp_complete :: "chat_request \<Rightarrow> 'e \<Rightarrow> (provider_error + chat_response) \<times> 'e"

record 'e compaction_ops =
  co_chat :: "provider_id \<Rightarrow> 'e chat_provider option"
  co_chat_ids :: "provider_id list"
  co_latest :: "uuid \<Rightarrow> 'e \<Rightarrow> (storage_error + message_record option) \<times> 'e"
  co_append :: "message_record \<Rightarrow> 'e \<Rightarrow> (storage_error + message_record) \<times> 'e"
  co_uuid :: "'e \<Rightarrow> uuid \<times> 'e"
  co_now :: "'e \<Rightarrow> timestamp \<times> 'e"

definition uuid_nil :: uuid where "uuid_nil = ''00000000-0000-0000-0000-000000000000''"

definition resolve_compaction_provider ::
  "'e compaction_ops \<Rightarrow> compaction_config \<Rightarrow> runtime_error + 'e chat_provider \<times> model_name" where
  "resolve_compaction_provider ops cfg =
     (case (case cfg_provider cfg of Some p \<Rightarrow> Some p
            | None \<Rightarrow> (case co_chat_ids ops of [] \<Rightarrow> None | p # _ \<Rightarrow> Some p)) of
        None \<Rightarrow> Inl (ProviderNotFound ''no provider configured for compaction'')
      | Some i \<Rightarrow>
          (case co_chat ops i of
             None \<Rightarrow> Inl (ProviderNotFound i)
           | Some provider \<Rightarrow>
               Inr (provider, case cfg_model cfg of Some m \<Rightarrow> m | None \<Rightarrow> ''gpt-4o-mini'')))"

definition extract_text_content :: "message \<Rightarrow> string" where
  "extract_text_content m =
     concat (map (\<lambda>p. case p of Text t _ \<Rightarrow> t | _ \<Rightarrow> []) (message_content m))"

definition run_compaction_llm ::
  "'e chat_provider \<Rightarrow> model_name \<Rightarrow> string \<Rightarrow> 'e \<Rightarrow> (runtime_error + string) \<times> 'e" where
  "run_compaction_llm provider m prompt =
     try_then (try_err ProviderErr (cp_complete provider (with_message (chat_request_new m) (user_text prompt))))
       (\<lambda>response e.
         let summary = extract_text_content (resp_message response)
         in if summary = []
            then (Inl (ProviderErr (Decode (cp_id provider) ''compaction LLM returned empty response'')), e)
            else (Inr summary, e))"

definition compaction_marker :: "uuid \<Rightarrow> uuid \<Rightarrow> timestamp \<Rightarrow> uuid \<Rightarrow> message_record" where
  "compaction_marker i sid now tail_start =
     \<lparr>mr_id = i, mr_session_id = sid, mr_role = RoleUser, mr_content = [part_text ''[compaction]''],
      mr_tool_calls = [], mr_tool_call_id = None, mr_tool_name = None, mr_usage = None,
      mr_created_at = now, mr_is_compaction = True, mr_is_summary = False,
      mr_compaction_meta = Some (compaction_meta_new tail_start)\<rparr>"

definition summary_record :: "uuid \<Rightarrow> uuid \<Rightarrow> timestamp \<Rightarrow> uuid \<Rightarrow> string \<Rightarrow> message_record" where
  "summary_record i sid now tail_start summary =
     \<lparr>mr_id = i, mr_session_id = sid, mr_role = RoleAssistant, mr_content = [part_text summary],
      mr_tool_calls = [], mr_tool_call_id = None, mr_tool_name = None, mr_usage = None,
      mr_created_at = now, mr_is_compaction = False, mr_is_summary = True,
      mr_compaction_meta = Some (cm_with_summary (compaction_meta_new tail_start) summary)\<rparr>"

definition store_compaction ::
  "json_printer \<Rightarrow> 'e compaction_ops \<Rightarrow> uuid \<Rightarrow> selection_result \<Rightarrow> uuid \<Rightarrow> string \<Rightarrow> 'e \<Rightarrow>
   (runtime_error + compaction_result) \<times> 'e" where
  "store_compaction js ops sid sel tail_start summary e0 =
     (let (user_id, e1) = co_uuid ops e0;
          (t1, e2) = co_now ops e1
      in try_then (try_err StorageErr (co_append ops (compaction_marker user_id sid t1 tail_start)))
        (\<lambda>_ e3.
          let (summary_id, e4) = co_uuid ops e3;
              (t2, e5) = co_now ops e4
          in try_then (try_err StorageErr (co_append ops (summary_record summary_id sid t2 tail_start summary)))
            (\<lambda>_ e6.
              (Inr \<lparr>cres_summary_text = summary, cres_user_id = user_id, cres_summary_id = summary_id,
                    cres_tail_start_id = tail_start,
                    cres_tokens_saved =
                      saturating_sub (estimate_records_tokens js (sel_head sel)) (estimate_tokens summary)\<rparr>, e6)) e5) e2)"

definition no_compaction :: compaction_result where
  "no_compaction = \<lparr>cres_summary_text = [], cres_user_id = uuid_nil, cres_summary_id = uuid_nil,
     cres_tail_start_id = uuid_nil, cres_tokens_saved = 0\<rparr>"

definition compact_impl ::
  "json_printer \<Rightarrow> 'e compaction_ops \<Rightarrow> compaction_config \<Rightarrow> message_record list \<Rightarrow> 'e chat_provider \<Rightarrow>
   model_name \<Rightarrow> uuid \<Rightarrow> usize option \<Rightarrow> 'e \<Rightarrow> (runtime_error + compaction_result) \<times> 'e" where
  "compact_impl js ops cfg messages provider m sid keep_override =
     (let keep = (case keep_override of Some k \<Rightarrow> k | None \<Rightarrow> cfg_keep_tokens cfg);
          sel = select js messages (cfg_tail_turns cfg) keep
      in if sel_head sel = [] then Pair (Inr no_compaction)
         else
           let tail_start = (case sel_tail_start_id sel of Some i \<Rightarrow> i | None \<Rightarrow> uuid_nil)
           in try_then (try_err StorageErr (co_latest ops sid)) (\<lambda>latest.
             let previous = Option.bind (Option.bind latest mr_compaction_meta) cm_summary_text
             in try_then (run_compaction_llm provider m (build_compaction_prompt js (sel_head sel) previous))
                  (store_compaction js ops sid sel tail_start)))"

definition compact_if_needed ::
  "json_printer \<Rightarrow> 'e compaction_ops \<Rightarrow> compaction_config \<Rightarrow> message_record list \<Rightarrow> u32 \<Rightarrow> u32 \<Rightarrow> uuid \<Rightarrow> 'e \<Rightarrow>
   (runtime_error + compaction_result option) \<times> 'e" where
  "compact_if_needed js ops cfg messages model_context max_output sid =
     (if \<not> is_overflow (estimate_records_tokens js messages) model_context max_output (cfg_auto cfg)
      then Pair (Inr None)
      else case resolve_compaction_provider ops cfg of
             Inl err \<Rightarrow> Pair (Inl err)
           | Inr (provider, m) \<Rightarrow>
               try_then (compact_impl js ops cfg messages provider m sid None) (\<lambda>r. Pair (Inr (Some r))))"

definition compact_after_overflow ::
  "json_printer \<Rightarrow> 'e compaction_ops \<Rightarrow> compaction_config \<Rightarrow> message_record list \<Rightarrow> u32 \<Rightarrow> u32 \<Rightarrow> uuid \<Rightarrow> 'e \<Rightarrow>
   (runtime_error + compaction_result) \<times> 'e" where
  "compact_after_overflow js ops cfg messages model_context max_output sid =
     (case resolve_compaction_provider ops cfg of
        Inl err \<Rightarrow> Pair (Inl err)
      | Inr (provider, m) \<Rightarrow>
          let safe_keep = min (max (unat model_context div 2) 1024) (cfg_keep_tokens cfg)
          in compact_impl js ops cfg messages provider m sid (Some safe_keep))"

section \<open>The service on the in-memory store\<close>

text \<open>The environment is the session store and whatever lies outside it: the provider, the identifier
  generator and the clock act on the second part only.\<close>

record 'x outside =
  out_chat :: "provider_id \<Rightarrow> 'x chat_provider option"
  out_chat_ids :: "provider_id list"
  out_uuid :: "'x \<Rightarrow> uuid \<times> 'x"
  out_now :: "'x \<Rightarrow> timestamp \<times> 'x"

definition on_outside :: "('x \<Rightarrow> 'a \<times> 'x) \<Rightarrow> session_store \<times> 'x \<Rightarrow> 'a \<times> session_store \<times> 'x" where
  "on_outside f e = (case f (snd e) of (r, x') \<Rightarrow> (r, (fst e, x')))"

definition lift_provider :: "'x chat_provider \<Rightarrow> (session_store \<times> 'x) chat_provider" where
  "lift_provider p = \<lparr>cp_id = cp_id p, cp_complete = (\<lambda>r. on_outside (cp_complete p r))\<rparr>"

definition memory_ops :: "'x outside \<Rightarrow> (session_store \<times> 'x) compaction_ops" where
  "memory_ops w =
     \<lparr>co_chat = (\<lambda>i. map_option lift_provider (out_chat w i)),
      co_chat_ids = out_chat_ids w,
      co_latest = (\<lambda>sid e. (Inr (get_latest_compaction (fst e) sid), e)),
      co_append = (\<lambda>m e. case on_outside (out_now w) e of
         (now, e1) \<Rightarrow> (case append_message now (fst e1) m of (r, st') \<Rightarrow> (r, (st', snd e1)))),
      co_uuid = on_outside (out_uuid w),
      co_now = on_outside (out_now w)\<rparr>"

abbreviation session_known :: "session_store \<Rightarrow> uuid \<Rightarrow> bool" where
  "session_known st sid \<equiv> map_of (ss_sessions st) sid \<noteq> None"

lemma on_outside_store [simp]: "on_outside f e = (r, e') \<Longrightarrow> fst e' = fst e"
  by (auto simp: on_outside_def split: prod.splits)

lemma memory_ops_sel [simp]:
  "co_chat_ids (memory_ops w) = out_chat_ids w"
  "co_uuid (memory_ops w) = on_outside (out_uuid w)"
  "co_now (memory_ops w) = on_outside (out_now w)"
  "co_latest (memory_ops w) sid e = (Inr (get_latest_compaction (fst e) sid), e)"
  by (simp_all add: memory_ops_def)

text \<open>Appending to a known session: the record goes to the end of its list, nothing else moves.\<close>

lemma memory_append:
  assumes "co_append (memory_ops w) m e = (r, e')" and "session_known (fst e) (mr_session_id m)"
  shows "r = Inr m" and "session_known (fst e') = session_known (fst e)"
    and "list_messages_of (fst e') sid =
      list_messages_of (fst e) sid @ (if sid = mr_session_id m then [m] else [])"
proof -
  obtain now e1 r' st' where s: "on_outside (out_now w) e = (now, e1)"
    "append_message now (fst e1) m = (r', st')" and "r = r'" and e': "fst e' = st'"
    using assms(1) by (auto simp: memory_ops_def split: prod.splits)
  have st: "fst e1 = fst e" using s(1) by simp
  show "r = Inr m"
    using memory_log.append_known [of "fst e1" m now] s(2) assms(2) \<open>r = r'\<close> st by simp
  show "session_known (fst e') = session_known (fst e)"
    using memory_log.known_append [of now "fst e1" m] s(2) e' st by simp
  show "list_messages_of (fst e') sid =
      list_messages_of (fst e) sid @ (if sid = mr_session_id m then [m] else [])"
    using memory_log.list_append [of "fst e1" m now sid] s(2) e' st assms(2) by simp
qed

text \<open>What a compaction adds to a session.\<close>

definition compaction_records :: "uuid \<Rightarrow> timestamp \<Rightarrow> timestamp \<Rightarrow> compaction_result \<Rightarrow> message_record list" where
  "compaction_records sid t1 t2 r =
     [compaction_marker (cres_user_id r) sid t1 (cres_tail_start_id r),
      summary_record (cres_summary_id r) sid t2 (cres_tail_start_id r) (cres_summary_text r)]"

lemma compaction_marker_sid [simp]: "mr_session_id (compaction_marker i sid t ts) = sid"
  by (simp add: compaction_marker_def)

lemma summary_record_sid [simp]: "mr_session_id (summary_record i sid t ts s) = sid"
  by (simp add: summary_record_def)

lemma store_compaction_memory:
  assumes "store_compaction js (memory_ops w) sid sel ts summary e = (r, e')"
    and "session_known (fst e) sid"
  shows "\<exists>c t1 t2. r = Inr c \<and> cres_summary_text c = summary \<and> cres_tail_start_id c = ts \<and>
    cres_tokens_saved c = estimate_records_tokens js (sel_head sel) - estimate_tokens summary \<and>
    (\<forall>i. list_messages_of (fst e') i =
       list_messages_of (fst e) i @ (if i = sid then compaction_records sid t1 t2 c else [])) \<and>
    session_known (fst e') = session_known (fst e)"
proof -
  obtain uid e1 t1 e2 where p1: "co_uuid (memory_ops w) e = (uid, e1)" "co_now (memory_ops w) e1 = (t1, e2)"
    by (metis surj_pair)
  obtain r3 e3 where a1: "co_append (memory_ops w) (compaction_marker uid sid t1 ts) e2 = (r3, e3)" by (metis surj_pair)
  have f2: "fst e2 = fst e" using p1 by simp
  note m1 = memory_append [OF a1, unfolded f2 compaction_marker_sid, OF assms(2)]
  obtain i2 e4 t2 e5 where p2: "co_uuid (memory_ops w) e3 = (i2, e4)" "co_now (memory_ops w) e4 = (t2, e5)"
    by (metis surj_pair)
  obtain r6 e6 where a2: "co_append (memory_ops w) (summary_record i2 sid t2 ts summary) e5 = (r6, e6)" by (metis surj_pair)
  have f5: "fst e5 = fst e3" using p2 by simp
  have k3: "session_known (fst e3) sid" using m1(2) assms(2) by metis
  note m2 = memory_append [OF a2, unfolded f5 summary_record_sid, OF k3]
  have run: "store_compaction js (memory_ops w) sid sel ts summary e =
      (Inr \<lparr>cres_summary_text = summary, cres_user_id = uid, cres_summary_id = i2, cres_tail_start_id = ts,
        cres_tokens_saved = estimate_records_tokens js (sel_head sel) - estimate_tokens summary\<rparr>, e6)"
    using p1 p2 a1 a2 m1(1) m2(1)
    by (simp add: store_compaction_def try_then_def try_err_def saturating_sub_def)
  show ?thesis
    using run assms(1) m1 m2 by (auto simp: compaction_records_def)
qed

lemma run_compaction_llm_store:
  "run_compaction_llm (lift_provider p) m t e = (r, e') \<Longrightarrow> fst e' = fst e"
  by (auto simp: run_compaction_llm_def lift_provider_def try_then_def try_err_def Let_def
      split: prod.splits sum.splits if_splits)

lemma compact_impl_memory:
  assumes "session_known st sid"
    and "compact_impl js (memory_ops w) cfg ms (lift_provider p) m sid keep (st, x) = (r, (st', x'))"
  shows "session_known st' sid \<and> (case r of
      Inl _ \<Rightarrow> st' = st
    | Inr c \<Rightarrow> (let sel = select js ms (cfg_tail_turns cfg) (case keep of Some k \<Rightarrow> k | None \<Rightarrow> cfg_keep_tokens cfg)
        in if sel_head sel = [] then c = no_compaction \<and> st' = st
           else cres_tail_start_id c = (case sel_tail_start_id sel of Some i \<Rightarrow> i | None \<Rightarrow> uuid_nil) \<and>
             (\<exists>t1 t2. \<forall>i. list_messages_of st' i =
               list_messages_of st i @ (if i = sid then compaction_records sid t1 t2 c else []))))"
proof -
  let ?sel = "select js ms (cfg_tail_turns cfg) (case keep of Some k \<Rightarrow> k | None \<Rightarrow> cfg_keep_tokens cfg)"
  let ?ts = "case sel_tail_start_id ?sel of Some i \<Rightarrow> i | None \<Rightarrow> uuid_nil"
  show ?thesis
  proof (cases "sel_head ?sel = []")
    case True
    then show ?thesis using assms by (auto simp: compact_impl_def Let_def)
  next
    case False
    let ?prev = "Option.bind (Option.bind (get_latest_compaction st sid) mr_compaction_meta) cm_summary_text"
    let ?prompt = "build_compaction_prompt js (sel_head ?sel) ?prev"
    obtain q e1 where l: "run_compaction_llm (lift_provider p) m ?prompt (st, x) = (q, e1)" by (metis surj_pair)
    have f: "fst e1 = st" using run_compaction_llm_store [OF l] by simp
    have run: "compact_impl js (memory_ops w) cfg ms (lift_provider p) m sid keep (st, x) =
        (case q of Inl err \<Rightarrow> (Inl err, e1) | Inr s \<Rightarrow> store_compaction js (memory_ops w) sid ?sel ?ts s e1)"
      using False l by (simp add: compact_impl_def Let_def try_then_def try_err_def)
    show ?thesis
    proof (cases q)
      case (Inl err)
      then show ?thesis using run assms f by auto
    next
      case (Inr s)
      then have "store_compaction js (memory_ops w) sid ?sel ?ts s e1 = (r, (st', x'))"
        using run assms(2) by simp
      from store_compaction_memory [OF this] assms(1) f fun_cong [of "session_known st'" "session_known st" sid]
      obtain c t1 t2 where "session_known st' sid" "r = Inr c" "cres_tail_start_id c = ?ts"
        "\<forall>i. list_messages_of st' i =
          list_messages_of st i @ (if i = sid then compaction_records sid t1 t2 c else [])" by auto
      then show ?thesis using False assms(1) by (auto simp: Let_def)
    qed
  qed
qed

text \<open>What a compaction does to the store. When it fails, whether in resolving, in the model call
  or because the summary is empty, no record was written. When there is nothing to summarize it answers
  the nil result and writes nothing. Otherwise it appends to the session exactly a marker and a summary
  record, both naming the first kept message, and touches no other session.\<close>

theorem compaction_effect:
  assumes "session_known st sid"
    and "compact_impl js (memory_ops w) cfg ms (lift_provider p) m sid keep (st, x) = (r, (st', x'))"
  shows "case r of
      Inl _ \<Rightarrow> st' = st
    | Inr c \<Rightarrow> (let sel = select js ms (cfg_tail_turns cfg) (case keep of Some k \<Rightarrow> k | None \<Rightarrow> cfg_keep_tokens cfg)
        in if sel_head sel = [] then c = no_compaction \<and> st' = st
           else cres_tail_start_id c = (case sel_tail_start_id sel of Some i \<Rightarrow> i | None \<Rightarrow> uuid_nil) \<and>
             (\<exists>t1 t2. \<forall>i. list_messages_of st' i =
               list_messages_of st i @ (if i = sid then compaction_records sid t1 t2 c else [])))"
  using compact_impl_memory [OF assms] by (rule conjunct2)

lemma message_to_record_plain:
  "\<not> mr_is_compaction (message_to_record i now sid m) \<and> \<not> mr_is_summary (message_to_record i now sid m)"
  by (cases m) (simp_all add: record_builders)

text \<open>A compaction never updates the previous summary. Once a session was compacted, whatever the
  runtime appends afterwards, the record found as the latest compaction is the marker, which carries no
  summary: the next prompt always asks for a new summary instead of an update of the old one.\<close>

theorem previous_summary_lost:
  assumes "session_known st sid"
    and "compact_impl js (memory_ops w) cfg ms (lift_provider p) m sid keep (st, x) = (Inr c, (st', x'))"
    and "c \<noteq> no_compaction"
  shows "get_latest_compaction (rs_append_all st' sid later) sid \<noteq> None \<and>
    Option.bind (Option.bind (get_latest_compaction (rs_append_all st' sid later) sid) mr_compaction_meta)
      cm_summary_text = None"
proof -
  let ?rs = "to_records sid later"
  obtain t1 t2 where k: "session_known st' sid" and
    l: "list_messages_of st' sid = list_messages_of st sid @ compaction_records sid t1 t2 c"
    using compact_impl_memory [OF assms(1,2)] assms(3) by (auto simp: Let_def split: if_splits)
  have "list_messages_of (rs_append_all st' sid later) sid =
      list_messages_of st sid @ compaction_records sid t1 t2 c @ ?rs"
    using list_rs_append_all [OF k, of later] l by simp
  moreover have "List.find mr_is_compaction (rev ?rs @ zs) = List.find mr_is_compaction zs" for zs
    by (induction later rule: rev_induct) (auto simp: message_to_record_plain)
  ultimately show ?thesis
    by (simp add: get_latest_compaction_def compaction_records_def compaction_marker_def summary_record_def
        compaction_meta_new_def)
qed

text \<open>Compacting does not end an overflow. The check estimates everything the store lists and a
  compaction only appends, so right after a successful one the same check finds the session overflowing
  again.\<close>

theorem compaction_keeps_overflow:
  assumes "session_known st sid"
    and "compact_if_needed js (memory_ops w) cfg (list_messages_of st sid) ctx out sid (st, x) =
      (Inr (Some c), (st', x'))"
  shows "is_overflow (estimate_records_tokens js (list_messages_of st' sid)) ctx out (cfg_auto cfg)"
proof -
  let ?ms = "list_messages_of st sid"
  have over: "is_overflow (estimate_records_tokens js ?ms) ctx out (cfg_auto cfg)"
    using assms(2) by (auto simp: compact_if_needed_def split: if_splits)
  obtain p m where "compact_impl js (memory_ops w) cfg ?ms (lift_provider p) m sid None (st, x) =
      (Inr c, (st', x'))"
    using assms(2) over
    by (auto simp: compact_if_needed_def resolve_compaction_provider_def memory_ops_def
        split: sum.splits option.splits list.splits)
  from compact_impl_memory [OF assms(1) this] obtain more where "list_messages_of st' sid = ?ms @ more"
    by (auto simp: Let_def split: if_splits)
  then show ?thesis using over by (auto simp: is_overflow_def estimate_records_tokens_def split: if_splits)
qed

text \<open>A session of two turns, a model that always answers \<open>S\<close>, and its compaction with the last turn
  kept.\<close>

definition demo_provider :: "nat chat_provider" where
  "demo_provider = \<lparr>cp_id = ''p'', cp_complete = (\<lambda>r n.
     (Inr \<lparr>resp_provider = ''p'', resp_model = cr_model r, resp_message = assistant_text ''S'',
           resp_finish = Stop, resp_usage = None, resp_raw = None\<rparr>, n))\<rparr>"

definition demo_outside :: "nat outside" where
  "demo_outside = \<lparr>out_chat = (\<lambda>i. if i = ''p'' then Some demo_provider else None), out_chat_ids = [''p''],
     out_uuid = (\<lambda>n. (if n = 0 then ''u'' else ''v'', n + 1)), out_now = (\<lambda>n. (7, n))\<rparr>"

definition demo_store :: session_store where
  "demo_store = rs_append_all one_session ''s'' [(''a'', 1, user_text ''x''), (''b'', 2, user_text ''y'')]"

definition demo_config :: compaction_config where
  "demo_config = with_tail_turns compaction_config_default 1"

definition demo_js :: json_printer where "demo_js = (\<lambda>_. [])"

definition demo_result :: compaction_result where
  "demo_result = \<lparr>cres_summary_text = ''S'', cres_user_id = ''u'', cres_summary_id = ''v'',
     cres_tail_start_id = ''b'', cres_tokens_saved = 8\<rparr>"

lemma demo_select:
  "sel_head (select demo_js (list_messages_of demo_store ''s'') 1 8000) =
     [message_to_record ''a'' 1 ''s'' (user_text ''x'')]"
  "sel_tail_start_id (select demo_js (list_messages_of demo_store ''s'') 1 8000) = Some ''b''"
  by code_simp+

lemma demo_compaction:
  "fst (compact_impl demo_js (memory_ops demo_outside) demo_config (list_messages_of demo_store ''s'')
     (lift_provider demo_provider) ''gpt-4o-mini'' ''s'' None (demo_store, 0)) = Inr demo_result"
proof -
  have e: "estimate_records_tokens demo_js [message_to_record ''a'' 1 ''s'' (user_text ''x'')] = 9" by code_simp
  have t: "estimate_tokens ''S'' = 1" by code_simp
  have k: "map_of (ss_sessions demo_store) ''s'' \<noteq> None" by code_simp
  have run: "run_compaction_llm (lift_provider demo_provider) m prompt (demo_store, 0) = (Inr ''S'', (demo_store, 0))"
    for m prompt
    by (simp add: run_compaction_llm_def lift_provider_def demo_provider_def on_outside_def try_then_def
        try_err_def extract_text_content_def assistant_text_def part_text_def)
  show ?thesis
    using demo_select k
    by (simp add: compact_impl_def demo_config_def with_tail_turns_def compaction_config_default_def Let_def
        try_then_def try_err_def run)
      (auto simp: store_compaction_def memory_ops_def demo_outside_def on_outside_def
        e [simplified] t try_then_def
        try_err_def append_message_def demo_result_def Let_def update_conv' compaction_marker_def summary_record_def saturating_sub_def)
qed

definition demo_run :: "(runtime_error + compaction_result) \<times> session_store \<times> nat" where
  "demo_run = compact_impl demo_js (memory_ops demo_outside) demo_config (list_messages_of demo_store ''s'')
     (lift_provider demo_provider) ''gpt-4o-mini'' ''s'' None (demo_store, 0)"

lemma triple_collapse: "fst p = a \<Longrightarrow> p = (a, (fst (snd p), snd (snd p)))"
  by (cases p) auto

lemma demo_run_eq:
  "compact_impl demo_js (memory_ops demo_outside) demo_config (list_messages_of demo_store ''s'')
     (lift_provider demo_provider) ''gpt-4o-mini'' ''s'' None (demo_store, 0) =
   (Inr demo_result, (fst (snd demo_run), snd (snd demo_run)))"
  unfolding demo_run_def by (rule triple_collapse [OF demo_compaction])

lemma demo_known: "session_known demo_store ''s''"
  by code_simp

lemma compaction_effect_witness:
  "\<exists>t1 t2. list_messages_of (fst (snd demo_run)) ''s'' =
     list_messages_of demo_store ''s'' @ compaction_records ''s'' t1 t2 demo_result"
proof -
  obtain t1 t2 where "\<forall>i. list_messages_of (fst (snd demo_run)) i =
      list_messages_of demo_store i @ (if i = ''s'' then compaction_records ''s'' t1 t2 demo_result else [])"
    using compaction_effect [OF demo_known demo_run_eq] demo_select
    by (auto simp: demo_config_def with_tail_turns_def compaction_config_default_def Let_def)
  then have "list_messages_of (fst (snd demo_run)) ''s'' =
      list_messages_of demo_store ''s'' @ compaction_records ''s'' t1 t2 demo_result" by simp
  then show ?thesis by blast
qed

lemma previous_summary_lost_witness:
  "Option.bind (Option.bind (get_latest_compaction (fst (snd demo_run)) ''s'') mr_compaction_meta)
     cm_summary_text = None"
proof -
  have "demo_result \<noteq> no_compaction" by (simp add: demo_result_def no_compaction_def)
  from previous_summary_lost [OF demo_known demo_run_eq this, of "[]"] show ?thesis by simp
qed

lemma compaction_keeps_overflow_witness:
  "is_overflow (estimate_records_tokens demo_js (list_messages_of (fst (snd demo_run)) ''s'')) 1 1 True"
proof -
  have cfg: "cfg_provider demo_config = None" "cfg_model demo_config = None" "cfg_auto demo_config"
    by (simp_all add: demo_config_def with_tail_turns_def compaction_config_default_def)
  have res: "resolve_compaction_provider (memory_ops demo_outside) demo_config =
      Inr (lift_provider demo_provider, ''gpt-4o-mini'')"
    by (simp add: resolve_compaction_provider_def cfg memory_ops_def demo_outside_def)
  have "usable_tokens 1 1 None = 0" by code_simp
  then have "is_overflow n 1 1 True" for n by (simp add: is_overflow_def)
  then have "compact_if_needed demo_js (memory_ops demo_outside) demo_config (list_messages_of demo_store ''s'')
      1 1 ''s'' (demo_store, 0) = (Inr (Some demo_result), (fst (snd demo_run), snd (snd demo_run)))"
    using demo_run_eq by (simp add: compact_if_needed_def cfg res try_then_def)
  from compaction_keeps_overflow [OF demo_known this] show ?thesis by (simp add: cfg)
qed

end
