(* ===== verification/Context_Pipeline.thy ===== *)
theory Context_Pipeline
  imports Compaction_Service
begin

text \<open>
  Building the context of a model call: the adapter factory (\<open>behest-context/src/factory.rs\<close>) and the
  runtime's pipeline (\<open>behest-runtime/src/context.rs\<close>), which filters a compacted history, trims it to
  a token budget and marks cache breakpoints. Adapters and the session store act on an environment of
  any type. The last section composes the pipeline with the compaction service.
\<close>

section \<open>The context factory\<close>

record context_input =
  ci_user_message :: "string option"
  ci_session_id :: "string option"
  ci_metadata :: json

definition context_input_new :: context_input where
  "context_input_new = \<lparr>ci_user_message = None, ci_session_id = None, ci_metadata = JNull\<rparr>"

definition ci_with_user_message :: "context_input \<Rightarrow> string \<Rightarrow> context_input" where
  "ci_with_user_message i m = i\<lparr>ci_user_message := Some m\<rparr>"

definition ci_with_session_id :: "context_input \<Rightarrow> string \<Rightarrow> context_input" where
  "ci_with_session_id i s = i\<lparr>ci_session_id := Some s\<rparr>"

definition ci_with_metadata :: "context_input \<Rightarrow> json \<Rightarrow> context_input" where
  "ci_with_metadata i m = i\<lparr>ci_metadata := m\<rparr>"

text \<open>A \<open>ContextOutput\<close> is its list of messages.\<close>

definition into_request_with_tools :: "message list \<Rightarrow> model_name \<Rightarrow> tool_spec list \<Rightarrow> chat_request" where
  "into_request_with_tools messages m tools =
     (chat_request_new m)\<lparr>cr_messages := messages, cr_tools := tools\<rparr>"

definition into_request :: "message list \<Rightarrow> model_name \<Rightarrow> chat_request" where
  "into_request messages m = (chat_request_new m)\<lparr>cr_messages := messages\<rparr>"

record 'e context_adapter =
  ad_name :: string
  ad_produce :: "context_input \<Rightarrow> 'e \<Rightarrow> (context_error + message list) \<times> 'e"

definition static_messages :: "string \<Rightarrow> message list \<Rightarrow> 'e context_adapter" where
  "static_messages n ms = \<lparr>ad_name = n, ad_produce = (\<lambda>_ e. (Inr ms, e))\<rparr>"

definition static_system :: "string \<Rightarrow> 'e context_adapter" where
  "static_system t = static_messages ''system'' [system_text t]"

definition static_user :: "string \<Rightarrow> 'e context_adapter" where
  "static_user t = static_messages ''user'' [user_text t]"

definition function_adapter ::
  "string \<Rightarrow> (context_input \<Rightarrow> 'e \<Rightarrow> (context_error + message list) \<times> 'e) \<Rightarrow> 'e context_adapter" where
  "function_adapter n handler = \<lparr>ad_name = n, ad_produce = handler\<rparr>"

definition register_adapter :: "'e context_adapter list \<Rightarrow> 'e context_adapter \<Rightarrow> 'e context_adapter list" where
  "register_adapter adapters a = adapters @ [a]"

definition adapter_names :: "'e context_adapter list \<Rightarrow> string list" where
  "adapter_names adapters = map ad_name adapters"

fun factory_build_from ::
  "context_input \<Rightarrow> message list \<Rightarrow> 'e context_adapter list \<Rightarrow> 'e \<Rightarrow> (context_error + message list) \<times> 'e" where
  "factory_build_from input out [] = Pair (Inr out)"
| "factory_build_from input out (a # as) =
     try_then (try_err (\<lambda>err. AdapterFailed (ad_name a) (show_context_error err)) (ad_produce a input))
       (\<lambda>messages. factory_build_from input (out @ messages) as)"

definition factory_build ::
  "'e context_adapter list \<Rightarrow> context_input \<Rightarrow> 'e \<Rightarrow> (context_error + message list) \<times> 'e" where
  "factory_build adapters input = factory_build_from input [] adapters"

definition factory_build_request ::
  "'e context_adapter list \<Rightarrow> context_input \<Rightarrow> model_name \<Rightarrow> tool_spec list option \<Rightarrow> 'e \<Rightarrow>
   (context_error + chat_request) \<times> 'e" where
  "factory_build_request adapters input m specs =
     try_then (factory_build adapters input)
       (\<lambda>out. Pair (Inr (case specs of Some s \<Rightarrow> into_request_with_tools out m s | None \<Rightarrow> into_request out m)))"

section \<open>The compaction filter\<close>

fun position :: "('a \<Rightarrow> bool) \<Rightarrow> 'a list \<Rightarrow> nat option" where
  "position p [] = None"
| "position p (x # xs) = (if p x then Some 0 else map_option Suc (position p xs))"

text \<open>The backward walk: the summary seen last, and the pair (marker, summary) when it breaks.\<close>

fun find_pair :: "(nat \<times> message_record) list \<Rightarrow> nat option \<Rightarrow> (nat \<times> nat) option" where
  "find_pair [] summary_idx = None"
| "find_pair ((i, r) # rs) None = (if mr_is_summary r then find_pair rs (Some i) else find_pair rs None)"
| "find_pair ((i, r) # rs) (Some s) =
     (if mr_is_compaction r then Some (i, s)
      else if \<not> mr_is_summary r \<and> \<not> mr_is_compaction r then find_pair rs None
      else find_pair rs (Some s))"

definition checkpoint_text :: "string \<Rightarrow> string" where
  "checkpoint_text summary = str_join [newline]
     [''<conversation-checkpoint>'', ''<summary>'', summary, ''</summary>'', ''</conversation-checkpoint>'']"

definition checkpoint_record :: "uuid \<Rightarrow> message_record \<Rightarrow> message_record \<Rightarrow> message_record list" where
  "checkpoint_record fresh marker summary =
     (case Option.bind (mr_compaction_meta summary) cm_summary_text of
        None \<Rightarrow> []
      | Some t \<Rightarrow>
          [message_record_new fresh (mr_created_at summary) (mr_session_id marker) RoleSystem
             [part_text (checkpoint_text t)]])"

definition apply_compaction_filter :: "uuid \<Rightarrow> message_record list \<Rightarrow> message_record list" where
  "apply_compaction_filter fresh records =
     (if records = [] then records
      else case find_pair (rev (zip [0..<length records] records)) None of
        None \<Rightarrow> records
      | Some (c, s) \<Rightarrow>
          (case Option.bind (mr_compaction_meta (records ! c)) cm_tail_start_id of
             None \<Rightarrow> records
           | Some tail_start \<Rightarrow>
               let tail_idx = position (\<lambda>r. mr_id r = tail_start) records;
                   compact_end =
                     (case position (\<lambda>r. \<not> mr_is_compaction r \<and> \<not> mr_is_summary r) (drop (s + 1) records) of
                        None \<Rightarrow> length records | Some p \<Rightarrow> s + 1 + p);
                   retained =
                     (case tail_idx of
                        None \<Rightarrow> []
                      | Some ti \<Rightarrow>
                          let tail_end = min c (length records)
                          in filter (\<lambda>r. \<not> mr_is_compaction r \<and> \<not> mr_is_summary r)
                               (take (saturating_sub tail_end ti) (drop ti records)))
               in checkpoint_record fresh (records ! c) (records ! s) @ retained @ drop compact_end records))"

section \<open>Trimming to a budget\<close>

fun trim_back ::
  "json_printer \<Rightarrow> usize \<Rightarrow> message_record list \<Rightarrow> message_record list \<Rightarrow> usize \<Rightarrow> message_record list" where
  "trim_back js budget [] kept tokens = kept"
| "trim_back js budget (r # rs) kept tokens =
     (if tokens + estimate_record_tokens js r > budget \<and> kept \<noteq> [] then kept
      else trim_back js budget rs (kept @ [r]) (tokens + estimate_record_tokens js r))"

definition trim_by_tokens :: "json_printer \<Rightarrow> message_record list \<Rightarrow> usize \<Rightarrow> message_record list" where
  "trim_by_tokens js records budget =
     (if records = [] then records
      else if estimate_records_tokens js records \<le> budget then records
      else rev (trim_back js budget (rev records) [] 0))"

section \<open>Cache breakpoints\<close>

definition rposition :: "('a \<Rightarrow> bool) \<Rightarrow> 'a list \<Rightarrow> nat option" where
  "rposition p xs = map_option (\<lambda>i. length xs - 1 - i) (position p (rev xs))"

fun is_system :: "message \<Rightarrow> bool" where
  "is_system (System _) = True" | "is_system _ = False"

fun is_user :: "message \<Rightarrow> bool" where
  "is_user (User _) = True" | "is_user _ = False"

definition is_system_token_count :: "json_printer \<Rightarrow> message \<Rightarrow> usize \<Rightarrow> bool" where
  "is_system_token_count js m min_tokens \<longleftrightarrow> is_system m \<and> estimate_message_tokens js m \<ge> min_tokens"

definition breakpoint :: "prompt_cache_config \<Rightarrow> cache_control" where
  "breakpoint cfg = \<lparr>cc_kind = Ephemeral, cc_ttl = pcc_default_ttl cfg\<rparr>"

text \<open>Marking the last content part of a message that has one without a marker.\<close>

definition mark_last_part :: "cache_control \<Rightarrow> content_part list \<Rightarrow> content_part list" where
  "mark_last_part ctrl c =
     (if c \<noteq> [] \<and> part_cache_control (last c) = None
      then butlast c @ [set_cache_control (last c) ctrl] else c)"

fun mark_message :: "cache_control \<Rightarrow> message \<Rightarrow> message" where
  "mark_message ctrl (System c) = System (mark_last_part ctrl c)"
| "mark_message ctrl (User c) = User (mark_last_part ctrl c)"
| "mark_message ctrl (Tool i n c) = Tool i n (mark_last_part ctrl c)"
| "mark_message ctrl (Assistant c calls) = Assistant (mark_last_part ctrl c) calls"

definition mark_system_end :: "json_printer \<Rightarrow> prompt_cache_config \<Rightarrow> message list \<Rightarrow> message list" where
  "mark_system_end js cfg ms =
     (case rposition is_system ms of
        None \<Rightarrow> ms
      | Some i \<Rightarrow>
          if is_system_token_count js (ms ! i) (pcc_min_system_tokens cfg)
          then ms[i := mark_message (breakpoint cfg) (ms ! i)] else ms)"

definition mark_conversation_tail :: "prompt_cache_config \<Rightarrow> message list \<Rightarrow> message list" where
  "mark_conversation_tail cfg ms =
     (if length ms \<ge> 2
      then (case rposition (\<lambda>m. \<not> is_user m) ms of
              None \<Rightarrow> ms
            | Some i \<Rightarrow>
                if i < length ms - 1 then ms[i := mark_message (breakpoint cfg) (ms ! i)] else ms)
      else ms)"

definition apply_message_cache_breakpoints ::
  "json_printer \<Rightarrow> prompt_cache_config \<Rightarrow> message list \<Rightarrow> message list" where
  "apply_message_cache_breakpoints js cfg ms = mark_conversation_tail cfg (mark_system_end js cfg ms)"

definition apply_tool_cache_breakpoints :: "prompt_cache_config \<Rightarrow> tool_spec list \<Rightarrow> tool_spec list" where
  "apply_tool_cache_breakpoints cfg specs =
     map (\<lambda>s. if ts_cache_control s = None then s\<lparr>ts_cache_control := Some (breakpoint cfg)\<rparr> else s) specs"

section \<open>The pipeline\<close>

record 'e context_pipeline =
  pl_factory :: "'e context_adapter list"
  pl_max_history_messages :: usize
  pl_max_history_tokens :: usize
  pl_enable_compaction_filter :: bool
  pl_cache_strategy :: prompt_cache_config

definition with_factory :: "'e context_adapter list \<Rightarrow> 'e context_pipeline" where
  "with_factory factory =
     \<lparr>pl_factory = factory, pl_max_history_messages = 50, pl_max_history_tokens = 64000,
      pl_enable_compaction_filter = True, pl_cache_strategy = prompt_cache_default\<rparr>"

definition context_pipeline_new :: "'e context_pipeline" where
  "context_pipeline_new = with_factory []"

definition with_max_history :: "'e context_pipeline \<Rightarrow> usize \<Rightarrow> 'e context_pipeline" where
  "with_max_history p n = p\<lparr>pl_max_history_messages := n\<rparr>"

definition with_max_history_tokens :: "'e context_pipeline \<Rightarrow> usize \<Rightarrow> 'e context_pipeline" where
  "with_max_history_tokens p n = p\<lparr>pl_max_history_tokens := n\<rparr>"

definition with_compaction_filter :: "'e context_pipeline \<Rightarrow> bool \<Rightarrow> 'e context_pipeline" where
  "with_compaction_filter p b = p\<lparr>pl_enable_compaction_filter := b\<rparr>"

definition with_cache_strategy :: "'e context_pipeline \<Rightarrow> prompt_cache_config \<Rightarrow> 'e context_pipeline" where
  "with_cache_strategy p c = p\<lparr>pl_cache_strategy := c\<rparr>"

definition pipeline_register :: "'e context_pipeline \<Rightarrow> 'e context_adapter \<Rightarrow> 'e context_pipeline" where
  "pipeline_register p a = p\<lparr>pl_factory := register_adapter (pl_factory p) a\<rparr>"

text \<open>\<open>list_messages\<close> is the session store's, \<open>fresh\<close> the identifier the checkpoint is given.\<close>

definition pipeline_history :: "json_printer \<Rightarrow> 'e context_pipeline \<Rightarrow> uuid \<Rightarrow> message_record list \<Rightarrow> message list" where
  "pipeline_history js p fresh records =
     (let records = (if pl_enable_compaction_filter p then apply_compaction_filter fresh records else records);
          records = trim_by_tokens js records (pl_max_history_tokens p)
      in List.map_filter record_to_message records)"

definition auto_cache :: "'e context_pipeline \<Rightarrow> bool" where
  "auto_cache p = (pcc_enabled (pl_cache_strategy p) \<and> pcc_auto_breakpoints (pl_cache_strategy p))"

definition build_context ::
  "json_printer \<Rightarrow> 'e context_pipeline \<Rightarrow> (uuid \<Rightarrow> 'e \<Rightarrow> (storage_error + message_record list) \<times> 'e) \<Rightarrow> uuid \<Rightarrow>
   uuid \<Rightarrow> string option \<Rightarrow> 'e \<Rightarrow> (runtime_error + message list) \<times> 'e" where
  "build_context js p list_messages fresh sid user_message =
     (let input = \<lparr>ci_user_message = user_message, ci_session_id = Some sid, ci_metadata = JNull\<rparr>
      in try_then (try_err (\<lambda>err. ContextErr (AdapterFailed ''pipeline'' (show_context_error err)))
                    (factory_build (pl_factory p) input)) (\<lambda>out.
         try_then (try_err StorageErr (list_messages sid)) (\<lambda>records.
           let out = out @ pipeline_history js p fresh records;
               out = (case user_message of Some t \<Rightarrow> out @ [user_text t] | None \<Rightarrow> out);
               out = (if auto_cache p then apply_message_cache_breakpoints js (pl_cache_strategy p) out else out)
           in Pair (Inr out))))"

definition pipeline_build ::
  "json_printer \<Rightarrow> 'e context_pipeline \<Rightarrow> (uuid \<Rightarrow> 'e \<Rightarrow> (storage_error + message_record list) \<times> 'e) \<Rightarrow> uuid \<Rightarrow>
   uuid \<Rightarrow> model_name \<Rightarrow> string option \<Rightarrow> tool_spec list option \<Rightarrow> 'e \<Rightarrow> (runtime_error + chat_request) \<times> 'e" where
  "pipeline_build js p list_messages fresh sid m user_message tools =
     try_then (build_context js p list_messages fresh sid user_message) (\<lambda>out.
       Pair (Inr (case tools of
         Some specs \<Rightarrow>
           into_request_with_tools out m
             (if auto_cache p then apply_tool_cache_breakpoints (pl_cache_strategy p) specs else specs)
       | None \<Rightarrow> into_request out m)))"

section \<open>What trimming keeps\<close>

lemma records_tokens_drop:
  "k < length rs \<Longrightarrow>
     estimate_records_tokens js (drop k rs) =
     estimate_record_tokens js (rs ! k) + estimate_records_tokens js (drop (Suc k) rs)"
  by (simp add: estimate_records_tokens_def flip: Cons_nth_drop_Suc)

lemma trim_back_suffix:
  assumes "k \<le> length rs"
    and "k = length rs \<or> k + 1 = length rs \<or> estimate_records_tokens js (drop k rs) \<le> budget"
  shows "\<exists>n\<le>k. trim_back js budget (rev (take k rs)) (rev (drop k rs)) (estimate_records_tokens js (drop k rs)) =
      rev (drop n rs) \<and> (rs \<noteq> [] \<longrightarrow> n < length rs) \<and>
      (n = length rs \<or> n + 1 = length rs \<or> estimate_records_tokens js (drop n rs) \<le> budget) \<and>
      (n = 0 \<or> estimate_records_tokens js (drop (n - 1) rs) > budget)"
  using assms
proof (induction k)
  case 0
  then show ?case by (intro exI [of _ 0]) auto
next
  case (Suc k)
  have k: "k < length rs" using Suc.prems(1) by simp
  have t: "rev (take (Suc k) rs) = rs ! k # rev (take k rs)" using k by (simp add: take_Suc_conv_app_nth)
  have d: "rev (drop k rs) = rev (drop (Suc k) rs) @ [rs ! k]" using k by (simp flip: Cons_nth_drop_Suc)
  note tok = records_tokens_drop [OF k, of js]
  show ?case
  proof (cases "estimate_records_tokens js (drop k rs) > budget \<and> drop (Suc k) rs \<noteq> []")
    case True
    then show ?thesis using Suc.prems tok t by (intro exI [of _ "Suc k"]) auto
  next
    case False
    then have "k + 1 = length rs \<or> estimate_records_tokens js (drop k rs) \<le> budget" using k by auto
    then obtain n where "n \<le> k" "trim_back js budget (rev (take k rs)) (rev (drop k rs))
        (estimate_records_tokens js (drop k rs)) = rev (drop n rs)"
      and n: "rs \<noteq> [] \<longrightarrow> n < length rs"
        "n = length rs \<or> n + 1 = length rs \<or> estimate_records_tokens js (drop n rs) \<le> budget"
        "n = 0 \<or> estimate_records_tokens js (drop (n - 1) rs) > budget"
      using Suc.IH k by auto
    moreover from this(2) have "trim_back js budget (rev (take (Suc k) rs)) (rev (drop (Suc k) rs))
        (estimate_records_tokens js (drop (Suc k) rs)) = rev (drop n rs)"
      unfolding t using False by (auto simp: tok d add.commute)
    ultimately show ?thesis by (intro exI [of _ n]) auto
  qed
qed

lemma trim_longest_suffix_drop:
  assumes "records \<noteq> []"
  shows "\<exists>n<length records. trim_by_tokens js records budget = drop n records \<and>
    (n + 1 = length records \<or> estimate_records_tokens js (drop n records) \<le> budget) \<and>
    (n = 0 \<or> estimate_records_tokens js (drop (n - 1) records) > budget)"
proof (cases "estimate_records_tokens js records \<le> budget")
  case True
  then show ?thesis using assms by (intro exI [of _ 0]) (auto simp: trim_by_tokens_def)
next
  case False
  obtain n where "trim_back js budget (rev records) [] 0 = rev (drop n records)" "n < length records"
    "n + 1 = length records \<or> estimate_records_tokens js (drop n records) \<le> budget"
    "n = 0 \<or> estimate_records_tokens js (drop (n - 1) records) > budget"
    using trim_back_suffix [of "length records" records js budget] assms
    by (auto simp: estimate_records_tokens_def)
  then show ?thesis using assms False by (intro exI [of _ n]) (simp add: trim_by_tokens_def)
qed

text \<open>Trimming keeps the newest messages: the result is the longest suffix of the history that
  fits the budget, in order, and never less than the last message, which is kept even when it alone
  exceeds the budget.\<close>

theorem trim_longest_suffix:
  assumes "records \<noteq> []"
  shows "\<exists>n<length records. trim_by_tokens js records budget = drop n records \<and>
    (n + 1 = length records \<or> estimate_records_tokens js (drop n records) \<le> budget) \<and>
    (n = 0 \<or> estimate_records_tokens js (drop (n - 1) records) > budget)"
  using assms by (rule trim_longest_suffix_drop)

lemma trim_longest_suffix_witness:
  "map mr_id (trim_by_tokens (\<lambda>_. '''') three_turns 60) = [''3'', ''4'']"
proof -
  let ?js = "\<lambda>_ :: json. '''' :: string"
  have l: "length three_turns = 4" and ne: "three_turns \<noteq> []" by (simp_all add: three_turns_def)
  from trim_longest_suffix [OF ne, of ?js 60, unfolded l] obtain n where n: "n < 4"
    "trim_by_tokens ?js three_turns 60 = drop n three_turns"
    "n + 1 = 4 \<or> estimate_records_tokens ?js (drop n three_turns) \<le> 60"
    "n = 0 \<or> estimate_records_tokens ?js (drop (n - 1) three_turns) > 60"
    by blast
  have t: "estimate_records_tokens ?js (drop 0 three_turns) = 112" "estimate_records_tokens ?js (drop 1 three_turns) = 84"
    "estimate_records_tokens ?js (drop 2 three_turns) = 56"
    by (simp_all add: three_turns_def message_record_new_def estimate_records_tokens_def estimate_record_tokens_def
        part_text_def estimate_tokens_def chars_per_token_def div_ceil_def)
  from n(1) consider "n = 0" | "n = 1" | "n = 2" | "n = 3" by linarith
  then have "n = 2" using n(3,4) t by cases simp_all
  then show ?thesis unfolding n(2) by (simp add: three_turns_def message_record_new_def)
qed

section \<open>What the breakpoints change\<close>

fun unmark_part :: "content_part \<Rightarrow> content_part" where
  "unmark_part (Text t _) = Text t None"
| "unmark_part (Json v _) = Json v None"
| "unmark_part (ImageUrl u m _) = ImageUrl u m None"

fun unmark :: "message \<Rightarrow> message" where
  "unmark (System c) = System (map unmark_part c)"
| "unmark (User c) = User (map unmark_part c)"
| "unmark (Assistant c calls) = Assistant (map unmark_part c) calls"
| "unmark (Tool i n c) = Tool i n (map unmark_part c)"

definition markers :: "message \<Rightarrow> nat" where
  "markers m = length (filter (\<lambda>p. part_cache_control p \<noteq> None) (message_content m))"

lemma unmark_set [simp]: "unmark_part (set_cache_control p c) = unmark_part p"
  by (cases p) auto

lemma unmark_mark_last [simp]: "map unmark_part (mark_last_part ctrl c) = map unmark_part c"
  by (cases c rule: rev_cases) (simp_all add: mark_last_part_def)

lemma markers_mark_last:
  "length (filter (\<lambda>p. part_cache_control p \<noteq> None) (mark_last_part ctrl c)) \<le>
   Suc (length (filter (\<lambda>p. part_cache_control p \<noteq> None) c))"
  by (cases c rule: rev_cases) (simp_all add: mark_last_part_def)

lemma mark_message_spec [simp]:
  "unmark (mark_message ctrl m) = unmark m" "markers (mark_message ctrl m) \<le> Suc (markers m)"
  using markers_mark_last by (cases m; simp add: markers_def)+

lemma sum_list_update_le:
  fixes f :: "'a \<Rightarrow> nat"
  assumes "f x \<le> Suc (f (xs ! i))"
  shows "sum_list (map f (xs[i := x])) \<le> Suc (sum_list (map f xs))"
  using assms
proof (induction xs arbitrary: i)
  case (Cons y ys)
  then show ?case by (cases i) auto
qed simp

lemma mark_step:
  "map unmark (ms[i := mark_message ctrl (ms ! i)]) = map unmark ms"
  "sum_list (map markers (ms[i := mark_message ctrl (ms ! i)])) \<le> Suc (sum_list (map markers ms))"
proof -
  show "map unmark (ms[i := mark_message ctrl (ms ! i)]) = map unmark ms"
    by (cases "i < length ms") (simp_all add: map_update list_update_same_conv list_update_beyond)
qed (simp add: sum_list_update_le)

lemma breakpoints_unmark_count:
  "map unmark (apply_message_cache_breakpoints js cfg ms) = map unmark ms \<and>
   sum_list (map markers (apply_message_cache_breakpoints js cfg ms)) \<le> sum_list (map markers ms) + 2"
proof -
  let ?s = "mark_system_end js cfg ms"
  have s: "map unmark ?s = map unmark ms \<and> sum_list (map markers ?s) \<le> Suc (sum_list (map markers ms))"
    by (auto simp: mark_system_end_def mark_step le_SucI split: option.splits)
  have t: "map unmark (mark_conversation_tail cfg ?s) = map unmark ?s \<and>
      sum_list (map markers (mark_conversation_tail cfg ?s)) \<le> Suc (sum_list (map markers ?s))"
    by (auto simp: mark_conversation_tail_def mark_step le_SucI split: option.splits)
  show ?thesis using s t by (simp add: apply_message_cache_breakpoints_def)
qed

lemmas breakpoints_unmark = conjunct1 [OF breakpoints_unmark_count]

text \<open>Cache breakpoints change nothing of the messages but their marks, and add at most two.\<close>

theorem breakpoints_only_mark:
  "map unmark (apply_message_cache_breakpoints js cfg ms) = map unmark ms \<and>
   sum_list (map markers (apply_message_cache_breakpoints js cfg ms)) \<le> sum_list (map markers ms) + 2"
  by (rule breakpoints_unmark_count)

section \<open>The filter on a compacted history\<close>

definition plain :: "message_record \<Rightarrow> bool" where
  "plain r \<longleftrightarrow> \<not> mr_is_compaction r \<and> \<not> mr_is_summary r"

lemma find_pair_plain:
  "\<forall>r\<in>snd ` set ps. plain r \<Longrightarrow> find_pair (ps @ rest) None = find_pair rest None"
  by (induction ps) (auto simp: plain_def)

lemma position_first: "p x \<Longrightarrow> \<forall>y\<in>set xs. \<not> p y \<Longrightarrow> position p (xs @ x # ys) = Some (length xs)"
  by (induction xs) auto

lemma position_none: "\<forall>y\<in>set xs. \<not> p y \<Longrightarrow> position p xs = None"
  by (induction xs) auto

lemma zip_upt_append: "zip [n..<n + length xs] xs = map (\<lambda>i. (n + i, xs ! i)) [0..<length xs]"
  by (auto intro!: nth_equalityI)

lemma set_zip_upt: "snd ` set (zip [n..<n + length xs] xs) = set xs"
  by (auto simp: set_zip in_set_conv_nth image_iff) 

lemma upt_split_two: "[0..<n + 2 + k] = [0..<n] @ n # (n + 1) # [n + 2..<n + 2 + k]"
  using upt_add_eq_append [of 0 n "2 + k"] by (simp add: upt_conv_Cons add.assoc)

lemma zip_two:
  "length b = n \<Longrightarrow>
     zip [0..<n + 2 + length a] (b @ x # y # a) =
     zip [0..<n] b @ (n, x) # (n + 1, y) # zip [n + 2..<n + 2 + length a] a"
  by (subst upt_split_two) (simp del: upt_Suc)

text \<open>After a compaction at the end of \<open>head @ tail\<close>, with \<open>tail\<close> the part it kept.\<close>

lemma filter_compacted:
  assumes "\<forall>r\<in>set after. plain r" and "\<forall>r\<in>set tail. plain r"
    and "tail \<noteq> []" and "cres_tail_start_id c = mr_id (hd tail)"
    and "\<forall>r\<in>set head. mr_id r \<noteq> mr_id (hd tail)"
  shows "apply_compaction_filter fresh (head @ tail @ compaction_records sid t1 t2 c @ after) =
    message_record_new fresh t2 sid RoleSystem [part_text (checkpoint_text (cres_summary_text c))] # tail @ after"
proof -
  let ?b = "head @ tail"
  let ?m = "compaction_marker (cres_user_id c) sid t1 (cres_tail_start_id c)"
  let ?s = "summary_record (cres_summary_id c) sid t2 (cres_tail_start_id c) (cres_summary_text c)"
  let ?rs = "?b @ ?m # ?s # after"
  let ?n = "length ?b"
  have zip: "zip [0..<length ?rs] (?b @ ?m # ?s # after) =
      zip [0..<?n] ?b @ (?n, ?m) # (?n + 1, ?s) # zip [?n + 2..<?n + 2 + length after] after"
  proof -
    have l: "length ?rs = ?n + 2 + length after" by simp
    show ?thesis unfolding l by (rule zip_two) simp
  qed
  have pair: "find_pair (rev (zip [0..<length ?rs] ?rs)) None = Some (?n, ?n + 1)"
    unfolding zip unfolding rev_append rev.simps append.assoc append_Cons append_Nil
    using assms(1) set_zip_upt [of "?n + 2" after]
    by (subst find_pair_plain) (auto simp: compaction_marker_def summary_record_def)
  have nth: "?rs ! ?n = ?m" "?rs ! (?n + 1) = ?s" by (simp_all add: nth_append)
  have plain_after: "position (\<lambda>r. \<not> mr_is_compaction r \<and> \<not> mr_is_summary r) after =
      (case after of [] \<Rightarrow> None | _ \<Rightarrow> Some 0)"
    using assms(1) by (cases after) (auto simp: plain_def)
  obtain m ms where tl: "tail = m # ms" using assms(3) by (cases tail) auto
  have pos: "position (\<lambda>r. mr_id r = cres_tail_start_id c) ?rs = Some (length head)"
    using assms(4,5) tl by (simp add: position_first)
  have "filter (\<lambda>r. \<not> mr_is_compaction r \<and> \<not> mr_is_summary r) tail = tail"
    using assms(2) by (simp add: plain_def)
  moreover have "head @ tail @ compaction_records sid t1 t2 c @ after = ?rs"
    by (simp add: compaction_records_def)
  ultimately show ?thesis
    using pair nth pos plain_after
    by (simp add: apply_compaction_filter_def Let_def compaction_marker_def summary_record_def
        checkpoint_record_def compaction_meta_new_def cm_with_summary_def saturating_sub_def
        split: list.splits)
qed

lemma plain_to_records: "\<forall>r\<in>set (to_records sid ms). plain r"
  by (auto simp: plain_def message_to_record_plain)

lemma compacted_list:
  assumes "session_known st sid"
    and "compact_impl js (memory_ops w) cfg ms (lift_provider p) m sid keep (st, x) = (Inr c, (st', x'))"
    and "c \<noteq> no_compaction"
  obtains t1 t2 where "list_messages_of (rs_append_all st' sid later) sid =
      list_messages_of st sid @ compaction_records sid t1 t2 c @ to_records sid later"
    and "cres_tail_start_id c = (case sel_tail_start_id (select js ms (cfg_tail_turns cfg)
        (case keep of Some k \<Rightarrow> k | None \<Rightarrow> cfg_keep_tokens cfg)) of Some i \<Rightarrow> i | None \<Rightarrow> uuid_nil)"
proof -
  from compact_impl_memory [OF assms(1,2)] assms(3) obtain t1 t2 where
    k: "session_known st' sid" and "cres_tail_start_id c = (case sel_tail_start_id (select js ms (cfg_tail_turns cfg)
        (case keep of Some k \<Rightarrow> k | None \<Rightarrow> cfg_keep_tokens cfg)) of Some i \<Rightarrow> i | None \<Rightarrow> uuid_nil)"
    and "list_messages_of st' sid = list_messages_of st sid @ compaction_records sid t1 t2 c"
    by (auto simp: Let_def split: if_splits)
  then show thesis using that list_rs_append_all [OF k, of later] by simp
qed



section \<open>The newest message\<close>

lemma find_pair_summary:
  "find_pair xs s0 = Some (c, s) \<Longrightarrow> s0 = Some s \<or> (\<exists>r. (s, r) \<in> set xs \<and> mr_is_summary r)"
  by (induction xs s0 rule: find_pair.induct) (auto split: if_splits)

lemma position_le: "\<exists>y\<in>set xs. p y \<Longrightarrow> \<exists>k. position p xs = Some k \<and> k < length xs"
  by (induction xs) auto

lemma filter_keeps_newest:
  assumes "plain r"
  shows "\<exists>zs. apply_compaction_filter fresh (rs @ [r]) = zs @ [r]"
proof (cases "find_pair (rev (zip [0..<length (rs @ [r])] (rs @ [r]))) None")
  case None
  then show ?thesis by (auto simp: apply_compaction_filter_def)
next
  case (Some cs)
  then obtain c s where cs: "find_pair (rev (zip [0..<length (rs @ [r])] (rs @ [r]))) None = Some (c, s)"
    by (cases cs) auto
  from find_pair_summary [OF cs] obtain m where "(s, m) \<in> set (zip [0..<length (rs @ [r])] (rs @ [r]))"
    "mr_is_summary m" by auto
  then have "s < length (rs @ [r])" "(rs @ [r]) ! s = m" by (auto simp: set_zip nth_append)
  then have s: "s < length rs" using assms \<open>mr_is_summary m\<close>
    by (cases "s = length rs") (auto simp: plain_def nth_append)
  let ?p = "\<lambda>r. \<not> mr_is_compaction r \<and> \<not> mr_is_summary r"
  have "drop (s + 1) (rs @ [r]) = drop (s + 1) rs @ [r]" using s by simp
  then obtain k where "position ?p (drop (s + 1) (rs @ [r])) = Some k" "k < length (drop (s + 1) rs @ [r])"
    using position_le [of "drop (s + 1) rs @ [r]" ?p] assms by (auto simp: plain_def)
  then have "position ?p (drop (s + 1) (rs @ [r])) = Some k" "s + 1 + k \<le> length rs" using s by auto
  then show ?thesis
    using cs by (auto simp: apply_compaction_filter_def Let_def split: option.splits)
qed

lemma history_keeps_newest:
  assumes "plain r" and "record_to_message r = Some m"
  shows "\<exists>zs. pipeline_history js p fresh (rs @ [r]) = zs @ [m]"
proof -
  have trim: "\<exists>ys. trim_by_tokens js (zs @ [r]) budget = ys @ [r]" for zs budget
    using trim_longest_suffix_drop [of "zs @ [r]" js budget] by force
  obtain zs where "apply_compaction_filter fresh (rs @ [r]) = zs @ [r]"
    using filter_keeps_newest [OF assms(1)] by blast
  then obtain ys where "trim_by_tokens js
      (if pl_enable_compaction_filter p then apply_compaction_filter fresh (rs @ [r]) else rs @ [r])
      (pl_max_history_tokens p) = ys @ [r]"
    using trim by (metis (full_types))
  then show ?thesis using assms(2) by (auto simp: pipeline_history_def map_filter_def Let_def)
qed

lemma factory_keeps_store:
  assumes "\<forall>a\<in>set as. \<forall>input e. fst (snd (ad_produce a input e)) = fst e"
  shows "fst (snd (factory_build_from inp acc as e)) = fst e"
  using assms
proof (induction as arbitrary: acc e)
  case (Cons a as)
  obtain r e1 where a: "ad_produce a inp e = (r, e1)" by (metis surj_pair)
  then have "fst e1 = fst e" using Cons.prems by (metis list.set_intros(1) snd_conv)
  then show ?case using Cons a by (cases r) (simp_all add: try_then_def try_err_def)
qed simp

text \<open>The first model call of a run gets the input twice. The run stores the input as a user message
  before its loop starts and the first iteration passes it to the pipeline as well, so the context ends
  with the stored message and a second copy of it.\<close>

theorem input_sent_twice:
  assumes "rs_append_message i now st sid (user_text input) = (Inr j, st')"
    and "build_context js p (\<lambda>sid e. (Inr (list_messages_of (fst e) sid), e)) fresh sid (Some input) (st', x) =
      (Inr out, e')"
    and "\<forall>a\<in>set (pl_factory p). \<forall>input e. fst (snd (ad_produce a input e)) = fst e"
  shows "\<exists>front. map unmark out = front @ [user_text input, user_text input]"
proof -
  let ?input = "\<lparr>ci_user_message = Some input, ci_session_id = Some sid, ci_metadata = JNull\<rparr>"
  let ?r = "message_to_record i now sid (user_text input)"
  have "append_message now st ?r = (Inr ?r, st')"
    using assms(1) memory_log.append_known [of st ?r now] memory_log.append_unknown [of st ?r now]
    by (cases "session_known st sid") (auto simp: rs_append_message_def split: prod.splits sum.splits)
  then have list: "list_messages_of st' sid = list_messages_of st sid @ [?r]"
    using memory_log.list_append [of st ?r now sid] memory_log.append_unknown [of st ?r now]
    by (cases "session_known st sid") auto
  obtain front e1 where f: "factory_build (pl_factory p) ?input (st', x) = (Inr front, e1)"
    and out: "out = (let out = front @ pipeline_history js p fresh (list_messages_of (fst e1) sid) @ [user_text input]
      in if auto_cache p then apply_message_cache_breakpoints js (pl_cache_strategy p) out else out)"
    using assms(2) by (auto simp: build_context_def Let_def)
  have st1: "fst e1 = st'" using factory_keeps_store [OF assms(3), of ?input "[]" "(st', x)"] f
    by (simp add: factory_build_def)
  obtain zs where "pipeline_history js p fresh (list_messages_of st sid @ [?r]) = zs @ [user_text input]"
    using history_keeps_newest [of ?r "user_text input"] message_record_roundtrip
    by (metis message_to_record_plain plain_def)
  moreover have "unmark (user_text input) = user_text input" by (simp add: user_text_def part_text_def)
  ultimately have "map unmark out = map unmark (front @ zs) @ [user_text input, user_text input]"
    unfolding out st1 list by (simp add: Let_def breakpoints_unmark)
  then show ?thesis by blast
qed

section \<open>Instances\<close>


definition demo_turns_store :: session_store where
  "demo_turns_store = memory_log.append_records one_session (map (Pair 1) three_turns)"

lemma demo_turns_store_facts:
  "session_known demo_turns_store ''s''" "list_messages_of demo_turns_store ''s'' = three_turns"
proof -
  have k: "session_known one_session ''s''" and l: "list_messages_of one_session ''s'' = []" by code_simp+
  show "session_known demo_turns_store ''s''"
    using k fun_cong [OF memory_log.known_append_records [of one_session "map (Pair 1) three_turns"], of "''s''"]
    by (simp add: demo_turns_store_def)
  have "filter (\<lambda>m. session_known one_session (mr_session_id m) \<and> mr_session_id m = ''s'') three_turns = three_turns"
    using k by (intro filter_True) (auto simp: three_turns_def message_record_new_def)
  then show "list_messages_of demo_turns_store ''s'' = three_turns"
    using memory_log.list_append_records [of one_session "map (Pair 1) three_turns" "''s''"] l
    by (simp add: demo_turns_store_def comp_def)
qed

lemma demo_compacts:
  assumes "session_known st ''s''" and "sel_head (select demo_js ms (cfg_tail_turns cfg) keep) \<noteq> []"
  shows "\<exists>c st' x'. compact_impl demo_js (memory_ops demo_outside) cfg ms (lift_provider demo_provider) m ''s''
      (Some keep) (st, 0) = (Inr c, (st', x')) \<and> c \<noteq> no_compaction"
proof -
  have run: "run_compaction_llm (lift_provider demo_provider) m prompt (st, 0) = (Inr ''S'', (st, 0))" for prompt
    by (simp add: run_compaction_llm_def lift_provider_def demo_provider_def on_outside_def try_then_def
        try_err_def extract_text_content_def assistant_text_def part_text_def)
  let ?sel = "select demo_js ms (cfg_tail_turns cfg) keep"
  obtain r st' x' where s: "store_compaction demo_js (memory_ops demo_outside) ''s'' ?sel
      (case sel_tail_start_id ?sel of Some i \<Rightarrow> i | None \<Rightarrow> uuid_nil) ''S'' (st, 0) = (r, (st', x'))"
    by (metis surj_pair)
  from store_compaction_memory [OF s] assms(1) obtain c where "r = Inr c" "cres_summary_text c = ''S''" by auto
  moreover have "compact_impl demo_js (memory_ops demo_outside) cfg ms (lift_provider demo_provider) m ''s''
      (Some keep) (st, 0) = (r, (st', x'))"
    using assms(2) s by (simp add: compact_impl_def Let_def try_then_def try_err_def run)
  ultimately show ?thesis by (auto simp: no_compaction_def)
qed


lemma input_sent_twice_witness:
  "\<exists>out e'. build_context demo_js context_pipeline_new (\<lambda>sid e. (Inr (list_messages_of (fst e) sid), e)) ''f'' ''s''
      (Some ''hi'') (snd (rs_append_message ''a'' 1 one_session ''s'' (user_text ''hi'')), ()) = (Inr out, e') \<and>
    (\<exists>front. map unmark out = front @ [user_text ''hi'', user_text ''hi''])"
proof -
  have a: "rs_append_message ''a'' 1 one_session ''s'' (user_text ''hi'') =
      (Inr ''a'', snd (rs_append_message ''a'' 1 one_session ''s'' (user_text ''hi'')))"
    by (simp add: rs_append_message_def append_message_def one_session_def create_session_def
        session_store_new_def session_new_def user_text_def record_builders Let_def)
  have "\<exists>out. build_context demo_js context_pipeline_new (\<lambda>sid e. (Inr (list_messages_of (fst e) sid), e)) ''f'' ''s''
      (Some ''hi'') e = (Inr out, e)" for e :: "session_store \<times> unit"
    by (simp add: build_context_def context_pipeline_new_def with_factory_def factory_build_def try_then_def
        try_err_def Let_def)
  then obtain out where b: "build_context demo_js context_pipeline_new
      (\<lambda>sid e. (Inr (list_messages_of (fst e) sid), e)) ''f'' ''s'' (Some ''hi'')
      (snd (rs_append_message ''a'' 1 one_session ''s'' (user_text ''hi'')), ()) =
      (Inr out, (snd (rs_append_message ''a'' 1 one_session ''s'' (user_text ''hi'')), ()))" by metis
  have "\<forall>a\<in>set (pl_factory (context_pipeline_new :: (session_store \<times> unit) context_pipeline)).
      \<forall>input e. fst (snd (ad_produce a input e)) = fst e"
    by (simp add: context_pipeline_new_def with_factory_def)
  from input_sent_twice [OF a b this] b show ?thesis by blast
qed

end
