(* ===== verification/Component_Registry.thy ===== *)
theory Component_Registry
  imports Core_Errors "HOL-Library.AList" "HOL-Library.List_Lexorder" "HOL-Library.Char_ord"
    "HOL-Library.Multiset"
begin

text \<open>
  The component registry (\<open>behest-runtime/src/registry.rs\<close>): registration, Kahn's algorithm over the
  declared dependencies, and the phases of the lifecycle. A \<open>HashMap\<close> is an association list with
  distinct keys whose order stands for the iteration order of the map, which the source does not fix.
  Components and factories act on an environment of any type; errors of components are their texts.
  The locks are never poisoned.
\<close>

section \<open>Components and descriptors\<close>

datatype registry_error =
    AlreadyRegistered string
  | RegistryNotFound string
  | MissingDependency string string
  | DependencyCycle "string list"
  | InitFailed string string
  | StartFailed string string
  | StopFailed string string
  | ReloadFailed string string
  | LockPoisoned
  | TypeMismatch string
  | AlreadyInitialized string

datatype component_state =
    Pending | Initializing | Initialized | Starting | Running | Stopping | Stopped | Failed

datatype health_status =
    Healthy "json option" | Degraded string "json option" | Unhealthy string "json option"

record component_descriptor =
  cd_name :: string
  cd_depends_on :: "string list"
  cd_config :: json

record 'e any_component =
  ac_start :: "'e \<Rightarrow> (string + unit) \<times> 'e"
  ac_stop :: "'e \<Rightarrow> (string + unit) \<times> 'e"
  ac_health :: "'e \<Rightarrow> health_status \<times> 'e"
  ac_pre_replace :: "'e \<Rightarrow> (string + unit) \<times> 'e"
  ac_post_replace :: "'e \<Rightarrow> (string + unit) \<times> 'e"

type_synonym 'e component_factory = "json \<Rightarrow> 'e \<Rightarrow> (registry_error + 'e any_component) \<times> 'e"

text \<open>\<open>TypedFactory::depends_on\<close>: the static dependencies of the kind, then the new ones among the
  extra ones.\<close>

definition typed_depends_on :: "string list \<Rightarrow> string list \<Rightarrow> string list" where
  "typed_depends_on static_deps extra_deps =
     foldl (\<lambda>deps d. if d \<in> set deps then deps else deps @ [d]) static_deps extra_deps"

definition typed_factory ::
  "string \<Rightarrow> (json \<Rightarrow> string + 'c) \<Rightarrow> ('c \<Rightarrow> 'e \<Rightarrow> (string + 'e any_component) \<times> 'e) \<Rightarrow> 'e component_factory" where
  "typed_factory name decode init config e =
     (case decode config of
        Inl err \<Rightarrow> (Inl (InitFailed name (''config deserialize: '' @ err)), e)
      | Inr cfg \<Rightarrow> try_err (InitFailed name) (init cfg) e)"

record 'e component_registry =
  reg_factories :: "(string \<times> 'e component_factory) list"
  reg_descriptors :: "(string \<times> component_descriptor) list"
  reg_instances :: "(string \<times> 'e any_component) list"
  reg_states :: "(string \<times> component_state) list"
  reg_topo :: "string list option"
  reg_init_started :: bool

definition registry_new :: "'e component_registry" where
  "registry_new = \<lparr>reg_factories = [], reg_descriptors = [], reg_instances = [], reg_states = [],
     reg_topo = None, reg_init_started = False\<rparr>"

section \<open>Registration\<close>

definition register_factory ::
  "'e component_registry \<Rightarrow> component_descriptor \<Rightarrow> 'e component_factory \<Rightarrow>
   (registry_error + unit) \<times> 'e component_registry" where
  "register_factory r d f =
     (let name = cd_name d
      in if map_of (reg_factories r) name \<noteq> None then (Inl (AlreadyRegistered name), r)
         else (Inr (), r\<lparr>reg_factories := AList.update name f (reg_factories r),
                         reg_descriptors := AList.update name d (reg_descriptors r),
                         reg_states := AList.update name Pending (reg_states r),
                         reg_topo := None\<rparr>))"

definition register_typed ::
  "'e component_registry \<Rightarrow> string \<Rightarrow> string list \<Rightarrow> json \<Rightarrow> 'e component_factory \<Rightarrow>
   (registry_error + unit) \<times> 'e component_registry" where
  "register_typed r name static_deps config factory =
     register_factory r \<lparr>cd_name = name, cd_depends_on = typed_depends_on static_deps [], cd_config = config\<rparr> factory"

definition unregister ::
  "'e component_registry \<Rightarrow> string \<Rightarrow> (registry_error + component_descriptor) \<times> 'e component_registry" where
  "unregister r name =
     (let r = r\<lparr>reg_factories := AList.delete name (reg_factories r)\<rparr>
      in case map_of (reg_descriptors r) name of
           None \<Rightarrow> (Inl (RegistryNotFound name), r)
         | Some d \<Rightarrow>
             (Inr d, r\<lparr>reg_descriptors := AList.delete name (reg_descriptors r),
                       reg_states := AList.delete name (reg_states r),
                       reg_topo := None\<rparr>))"

definition registry_len :: "'e component_registry \<Rightarrow> nat" where
  "registry_len r = length (reg_descriptors r)"

text \<open>\<open>has_type\<close>: the downcast to the requested type succeeds.\<close>

definition registry_get ::
  "('e any_component \<Rightarrow> bool) \<Rightarrow> 'e component_registry \<Rightarrow> string \<Rightarrow> registry_error + 'e any_component" where
  "registry_get has_type r name =
     (case map_of (reg_instances r) name of
        None \<Rightarrow> Inl (RegistryNotFound name)
      | Some c \<Rightarrow> if has_type c then Inr c else Inl (TypeMismatch name))"

definition state_of :: "'e component_registry \<Rightarrow> string \<Rightarrow> component_state option" where
  "state_of r name = map_of (reg_states r) name"

definition past_init :: "component_state \<Rightarrow> bool" where
  "past_init s = (s \<in> {Initialized, Running, Starting, Stopping, Stopped})"

definition is_initialized :: "'e component_registry \<Rightarrow> string \<Rightarrow> bool" where
  "is_initialized r name = (case state_of r name of Some s \<Rightarrow> past_init s | None \<Rightarrow> False)"

definition set_state :: "string \<Rightarrow> component_state \<Rightarrow> 'e component_registry \<Rightarrow> 'e component_registry" where
  "set_state name s r = r\<lparr>reg_states := AList.update name s (reg_states r)\<rparr>"

section \<open>Kahn's algorithm\<close>

type_synonym graph = "(string, string list) map"
type_synonym degrees = "(string, nat) map"
type_synonym descriptors = "(string \<times> component_descriptor) list"

definition at_key :: "'b \<Rightarrow> ('a, 'b) map \<Rightarrow> 'a \<Rightarrow> 'b" where
  "at_key z m k = (case m k of Some v \<Rightarrow> v | None \<Rightarrow> z)"

fun add_deps ::
  "descriptors \<Rightarrow> string \<Rightarrow> string list \<Rightarrow> graph \<Rightarrow> degrees \<Rightarrow> registry_error + graph \<times> degrees" where
  "add_deps ds name [] graph degree = Inr (graph, degree)"
| "add_deps ds name (dep # deps) graph degree =
     (if map_of ds dep = None then Inl (MissingDependency name dep)
      else add_deps ds name deps (graph(dep \<mapsto> at_key [] graph dep @ [name]))
             (degree(name \<mapsto> at_key 0 degree name + 1)))"

fun build_graph ::
  "descriptors \<Rightarrow> descriptors \<Rightarrow> graph \<Rightarrow> degrees \<Rightarrow> registry_error + graph \<times> degrees" where
  "build_graph all [] graph degree = Inr (graph, degree)"
| "build_graph all ((name, d) # ds) graph degree =
     (case add_deps all name (cd_depends_on d) (graph(name \<mapsto> at_key [] graph name))
             (degree(name \<mapsto> at_key 0 degree name)) of
        Inl err \<Rightarrow> Inl err
      | Inr (graph', degree') \<Rightarrow> build_graph all ds graph' degree')"

text \<open>Visiting the dependents of a component; \<open>None\<close> is the underflow of \<open>*d -= 1\<close>.\<close>

fun relax :: "string list \<Rightarrow> string list \<Rightarrow> degrees \<Rightarrow> (string list \<times> degrees) option" where
  "relax [] queue degree = Some (queue, degree)"
| "relax (m # ms) queue degree =
     (case degree m of
        None \<Rightarrow> relax ms queue degree
      | Some 0 \<Rightarrow> None
      | Some (Suc d) \<Rightarrow> relax ms (if d = 0 then queue @ [m] else queue) (degree(m \<mapsto> d)))"

partial_function (option) kahn ::
  "graph \<Rightarrow> string list \<Rightarrow> string list \<Rightarrow> degrees \<Rightarrow> (string list \<times> degrees) option" where
  "kahn graph order queue degree =
     (case queue of
        [] \<Rightarrow> Some (order, degree)
      | n # queue' \<Rightarrow>
          (case relax (at_key [] graph n) queue' degree of
             None \<Rightarrow> None
           | Some (queue'', degree') \<Rightarrow> kahn graph (order @ [n]) queue'' degree'))"

declare kahn.simps [code]

text \<open>The keys of \<open>in_degree\<close> are those of \<open>descriptors\<close>, iterated in any order. \<open>None\<close>: the call
  does not return.\<close>

definition topo_order :: "descriptors \<Rightarrow> (registry_error + string list) option" where
  "topo_order ds =
     (if ds = [] then Some (Inr [])
      else case build_graph ds ds Map.empty Map.empty of
        Inl err \<Rightarrow> Some (Inl err)
      | Inr (graph, degree) \<Rightarrow>
          let queue = sort (filter (\<lambda>n. degree n = Some 0) (map fst ds))
          in case kahn graph [] queue degree of
               None \<Rightarrow> None
             | Some (order, degree') \<Rightarrow>
                 if length order \<noteq> length ds
                 then Some (Inl (DependencyCycle (filter (\<lambda>n. at_key 0 degree' n > 0) (map fst ds))))
                 else Some (Inr order))"

definition recompute_topo ::
  "'e component_registry \<Rightarrow> ((registry_error + string list) \<times> 'e component_registry) option" where
  "recompute_topo r =
     (case reg_topo r of
        Some order \<Rightarrow> Some (Inr order, r)
      | None \<Rightarrow>
          (case topo_order (reg_descriptors r) of
             None \<Rightarrow> None
           | Some (Inl err) \<Rightarrow> Some (Inl err, r)
           | Some (Inr order) \<Rightarrow> Some (Inr order, r\<lparr>reg_topo := Some order\<rparr>)))"

definition registry_names :: "'e component_registry \<Rightarrow> string list option" where
  "registry_names r =
     map_option (\<lambda>(res, _). case res of Inr order \<Rightarrow> order | Inl _ \<Rightarrow> []) (recompute_topo r)"

section \<open>The lifecycle\<close>

definition first_error :: "registry_error option \<Rightarrow> registry_error \<Rightarrow> registry_error option" where
  "first_error err x = (if err = None then Some x else err)"

text \<open>The first error so far, the registry and the environment.\<close>

type_synonym 'e progress = "registry_error option \<times> 'e component_registry \<times> 'e"

fun init_one :: "string \<Rightarrow> 'e progress \<Rightarrow> 'e progress" where
  "init_one name (err, r, e) =
     (if is_initialized r name then (err, r, e)
      else case map_of (reg_factories r) name of
        None \<Rightarrow> (err, r, e)
      | Some factory \<Rightarrow>
          let r = r\<lparr>reg_factories := AList.delete name (reg_factories r)\<rparr>;
              config = (case map_of (reg_descriptors r) name of Some d \<Rightarrow> cd_config d | None \<Rightarrow> JNull);
              r = set_state name Initializing r
          in case factory config e of
               (Inr c, e') \<Rightarrow>
                 (err, set_state name Initialized (r\<lparr>reg_instances := AList.update name c (reg_instances r)\<rparr>), e')
             | (Inl x, e') \<Rightarrow> (first_error err x, set_state name Failed r, e'))"

fun start_one :: "string \<Rightarrow> 'e progress \<Rightarrow> 'e progress" where
  "start_one name (err, r, e) =
     (if state_of r name \<noteq> Some Initialized then (err, r, e)
      else let r = set_state name Starting r
      in case map_of (reg_instances r) name of
           None \<Rightarrow> (err, r, e)
         | Some c \<Rightarrow>
             (case ac_start c e of
                (Inr _, e') \<Rightarrow> (err, set_state name Running r, e')
              | (Inl msg, e') \<Rightarrow> (first_error err (StartFailed name msg), set_state name Failed r, e')))"

fun stop_one :: "string \<Rightarrow> 'e progress \<Rightarrow> 'e progress" where
  "stop_one name (err, r, e) =
     (if state_of r name \<noteq> Some Running \<and> state_of r name \<noteq> Some Initialized then (err, r, e)
      else let r = set_state name Stopping r
      in case map_of (reg_instances r) name of
           None \<Rightarrow> (err, r, e)
         | Some c \<Rightarrow>
             (case ac_stop c e of
                (Inr _, e') \<Rightarrow> (err, set_state name Stopped r, e')
              | (Inl msg, e') \<Rightarrow> (first_error err (StopFailed name msg), set_state name Stopped r, e')))"

definition phase ::
  "(string \<Rightarrow> 'e progress \<Rightarrow> 'e progress) \<Rightarrow> (string list \<Rightarrow> string list) \<Rightarrow>
   'e component_registry \<Rightarrow> 'e \<Rightarrow> ((registry_error + unit) \<times> 'e component_registry \<times> 'e) option" where
  "phase one order_of r e =
     (case recompute_topo r of
        None \<Rightarrow> None
      | Some (Inl x, r') \<Rightarrow> Some (Inl x, r', e)
      | Some (Inr order, r') \<Rightarrow>
          (case fold one (order_of order) (None, r', e) of
             (None, r'', e') \<Rightarrow> Some (Inr (), r'', e')
           | (Some x, r'', e') \<Rightarrow> Some (Inl x, r'', e')))"

definition init_all ::
  "'e component_registry \<Rightarrow> 'e \<Rightarrow> ((registry_error + unit) \<times> 'e component_registry \<times> 'e) option" where
  "init_all r = phase init_one id (r\<lparr>reg_init_started := True\<rparr>)"

definition start_all ::
  "'e component_registry \<Rightarrow> 'e \<Rightarrow> ((registry_error + unit) \<times> 'e component_registry \<times> 'e) option" where
  "start_all r = phase start_one id r"

definition stop_all ::
  "'e component_registry \<Rightarrow> 'e \<Rightarrow> ((registry_error + unit) \<times> 'e component_registry \<times> 'e) option" where
  "stop_all r = phase stop_one rev r"

definition replace_instance ::
  "'e component_registry \<Rightarrow> string \<Rightarrow> 'e any_component \<Rightarrow> 'e \<Rightarrow>
   (registry_error + 'e any_component) \<times> 'e component_registry \<times> 'e" where
  "replace_instance r name new e =
     (case map_of (reg_instances r) name of
        None \<Rightarrow> (Inl (RegistryNotFound name), r, e)
      | Some old \<Rightarrow>
          if state_of r name \<noteq> Some Running
          then (Inl (ReloadFailed name ''component is not in Running state''), r, e)
          else case ac_pre_replace old e of
            (Inl m, e1) \<Rightarrow> (Inl (ReloadFailed name (''pre_replace hook failed: '' @ m)), r, e1)
          | (Inr _, e1) \<Rightarrow>
              (case ac_start new e1 of
                 (Inl m, e2) \<Rightarrow> (Inl (ReloadFailed name (''new instance start failed: '' @ m)), r, e2)
               | (Inr _, e2) \<Rightarrow>
                   let r = set_state name Running (r\<lparr>reg_instances := AList.update name new (reg_instances r)\<rparr>)
                   in case ac_post_replace old e2 of (_, e3) \<Rightarrow> (Inr old, r, e3)))"

fun health_each ::
  "'e component_registry \<Rightarrow> string list \<Rightarrow> (string \<times> health_status) list \<Rightarrow> 'e \<Rightarrow>
   (string \<times> health_status) list \<times> 'e" where
  "health_each r [] out e = (out, e)"
| "health_each r (name # names) out e =
     (case map_of (reg_instances r) name of
        None \<Rightarrow> health_each r names (AList.update name (Unhealthy ''not initialized'' None) out) e
      | Some c \<Rightarrow> (case ac_health c e of (h, e') \<Rightarrow> health_each r names (AList.update name h out) e'))"

definition registry_health ::
  "'e component_registry \<Rightarrow> 'e \<Rightarrow> ((string \<times> health_status) list \<times> 'e) option" where
  "registry_health r e = map_option (\<lambda>order. health_each r order [] e) (registry_names r)"

section \<open>Kahn's algorithm is right\<close>

definition deps_of :: "descriptors \<Rightarrow> string \<Rightarrow> string list" where
  "deps_of ds n = (case map_of ds n of Some d \<Rightarrow> cd_depends_on d | None \<Rightarrow> [])"

text \<open>What the two loops over the descriptors compute: \<open>n\<close> is listed among the dependents of \<open>dep\<close>
  as often as it declares \<open>dep\<close>, and its degree is the number of its declarations.\<close>

lemma at_key_upd [simp]: "at_key z (m(k \<mapsto> v)) n = (if n = k then v else at_key z m n)"
  by (simp add: at_key_def)

lemma add_deps_spec:
  assumes "add_deps all name deps graph degree = Inr (graph', degree')"
  shows "set deps \<subseteq> fst ` set all \<and>
    (\<forall>n. at_key [] graph' n = at_key [] graph n @ map (\<lambda>_. name) (filter ((=) n) deps)) \<and>
    (\<forall>n. at_key 0 degree' n = at_key 0 degree n + (if n = name then length deps else 0)) \<and>
    dom degree' = dom degree \<union> (if deps = [] then {} else {name})"
  using assms
proof (induction all name deps graph degree rule: add_deps.induct)
  case (2 ds name dep deps graph degree)
  then have ne: "map_of ds dep \<noteq> None" by (auto split: if_splits)
  then have mem: "dep \<in> fst ` set ds" by (simp add: map_of_eq_None_iff)
  from 2 ne have "add_deps ds name deps (graph(dep \<mapsto> at_key [] graph dep @ [name]))
      (degree(name \<mapsto> at_key 0 degree name + 1)) = Inr (graph', degree')" by simp
  note IH = "2.IH" [OF ne this, unfolded at_key_upd dom_fun_upd]
  show ?case using IH mem by (simp split: if_splits)
qed simp

lemma add_deps_Inl:
  "add_deps all name deps graph degree = Inl err \<Longrightarrow>
   \<exists>dep\<in>set deps. map_of all dep = None \<and> err = MissingDependency name dep"
  by (induction all name deps graph degree rule: add_deps.induct) (auto split: if_splits)

lemma build_graph_spec:
  assumes "build_graph all ds graph degree = Inr (graph', degree')" and "distinct (map fst ds)"
  shows "(\<forall>(n, d)\<in>set ds. set (cd_depends_on d) \<subseteq> fst ` set all) \<and>
    (\<forall>n. mset (at_key [] graph' n) = mset (at_key [] graph n) +
       mset (concat (map (\<lambda>(m, d). map (\<lambda>_. m) (filter ((=) n) (cd_depends_on d))) ds))) \<and>
    (\<forall>n. at_key 0 degree' n = at_key 0 degree n + length (deps_of ds n)) \<and>
    dom degree' = dom degree \<union> fst ` set ds"
  using assms
proof (induction all ds graph degree rule: build_graph.induct)
  case (2 all name d ds graph degree)
  obtain g1 d1 where a: "add_deps all name (cd_depends_on d) (graph(name \<mapsto> at_key [] graph name))
      (degree(name \<mapsto> at_key 0 degree name)) = Inr (g1, d1)"
    and b: "build_graph all ds g1 d1 = Inr (graph', degree')"
    using "2.prems"(1) by (auto split: sum.splits prod.splits)
  have z: "at_key z (m(k \<mapsto> at_key z m k)) = at_key z m" for z :: 'x and m :: "(string, 'x) map" and k
    by (auto simp: fun_eq_iff)
  note A = add_deps_spec [OF a, unfolded z]
  have "distinct (map fst ds)" "name \<notin> fst ` set ds" using "2.prems"(2) by auto
  then have "deps_of ds name = []" by (simp add: deps_of_def map_of_eq_None_iff [symmetric])
  moreover have "deps_of ((name, d) # ds) n = (if n = name then cd_depends_on d else deps_of ds n)" for n
    by (simp add: deps_of_def)
  ultimately show ?case
    using "2.IH" [OF a refl b \<open>distinct (map fst ds)\<close>] A by (auto split: if_splits)
qed (simp add: deps_of_def)

definition declared :: "descriptors \<Rightarrow> string \<Rightarrow> string \<Rightarrow> nat" where
  "declared ds m n = length (filter ((=) n) (deps_of ds m))"

lemma count_const: "count (mset (map (\<lambda>_. x) xs)) m = (if m = x then length xs else 0)"
  by (induction xs) auto

lemma dependents_count:
  assumes "distinct (map fst ds)"
  shows "count (mset (concat (map (\<lambda>(m, d). map (\<lambda>_. m) (filter ((=) n) (cd_depends_on d))) ds))) m =
    declared ds m n"
  using assms
proof (induction ds)
  case (Cons x ds)
  obtain k d where x: "x = (k, d)" by (cases x)
  have "deps_of ds k = []" using Cons.prems by (simp add: x deps_of_def map_of_eq_None_iff [symmetric])
  then have "declared (x # ds) m n = (if m = k then length (filter ((=) n) (cd_depends_on d)) else 0) + declared ds m n"
    by (simp add: x declared_def deps_of_def)
  then show ?case using Cons by (simp add: x count_const del: mset_map)
qed (simp add: declared_def deps_of_def)

text \<open>Visiting dependents, each no more often than its degree: no underflow, and those whose degree
  reaches zero join the queue, each once.\<close>

lemma relax_spec:
  assumes "\<forall>m. count (mset xs) m \<le> at_key 0 degree m" and "set xs \<subseteq> dom degree"
  shows "\<exists>new degree'. relax xs queue degree = Some (queue @ new, degree') \<and> distinct new \<and>
    set new = {m \<in> set xs. at_key 0 degree m = count (mset xs) m} \<and>
    (\<forall>m. at_key 0 degree' m = at_key 0 degree m - count (mset xs) m) \<and> dom degree' = dom degree"
  using assms
proof (induction xs arbitrary: queue degree)
  case (Cons m xs)
  obtain a where "degree m = Some a" "0 < a"
    using Cons.prems(1) [THEN spec, of m] Cons.prems(2) by (cases "degree m") (auto simp: at_key_def)
  then obtain d where d: "degree m = Some (Suc d)" by (cases a) auto
  let ?deg = "degree(m \<mapsto> d)" and ?c = "count (mset xs)"
  have dm: "at_key 0 degree m = Suc d" by (simp add: at_key_def d)
  have le: "?c k \<le> at_key 0 ?deg k" for k
    using Cons.prems(1) [THEN spec, of k] dm by (cases "k = m") auto
  then have le': "\<forall>k. ?c k \<le> at_key 0 ?deg k" by (rule allI)
  have sub: "set xs \<subseteq> dom ?deg" using Cons.prems(2) by auto
  define q where "q = (if d = 0 then queue @ [m] else queue)"
  obtain new degree' where IH: "relax xs q ?deg = Some (q @ new, degree')" "distinct new"
      "set new = {k \<in> set xs. at_key 0 ?deg k = ?c k}"
      "\<forall>k. at_key 0 degree' k = at_key 0 ?deg k - ?c k" "dom degree' = dom ?deg"
    using Cons.IH [OF le' sub, of q] by blast
  let ?new = "if d = 0 then m # new else new"
  have fresh: "m \<notin> set xs" if "d = 0" using le [of m] that by (simp add: count_mset_0_iff)
  then have dist: "distinct ?new" using IH(2,3) by auto
  have run: "relax (m # xs) queue degree = Some (queue @ ?new, degree')"
    using d IH(1) unfolding q_def by simp
  have "k \<in> set ?new \<longleftrightarrow> k \<in> set (m # xs) \<and> at_key 0 degree k = count (mset (m # xs)) k" for k
    using IH(3) fresh le [of k] dm by (cases "k = m") (auto simp: count_mset_0_iff)
  then have new: "set ?new = {k \<in> set (m # xs). at_key 0 degree k = count (mset (m # xs)) k}"
    unfolding set_eq_iff mem_Collect_eq by (rule allI)
  have "at_key 0 degree' k = at_key 0 degree k - count (mset (m # xs)) k" for k
    using IH(4) dm by (cases "k = m") auto
  moreover have "dom degree' = dom degree" using IH(5) d by auto
  ultimately show ?case using run dist new by blast
qed simp

text \<open>What holds at the head of the loop: nothing was queued twice, a component has been queued exactly
  when its remaining degree is zero, and every ordered component comes after its dependencies.\<close>

definition deps_first :: "descriptors \<Rightarrow> string list \<Rightarrow> bool" where
  "deps_first ds order \<longleftrightarrow> (\<forall>i<length order. set (deps_of ds (order ! i)) \<subseteq> set (take i order))"

definition kahn_inv :: "descriptors \<Rightarrow> string list \<Rightarrow> string list \<Rightarrow> degrees \<Rightarrow> bool" where
  "kahn_inv ds order queue degree \<longleftrightarrow>
     distinct (order @ queue) \<and> set (order @ queue) = {n \<in> fst ` set ds. at_key 0 degree n = 0} \<and>
     dom degree = fst ` set ds \<and>
     (\<forall>n. at_key 0 degree n = length (filter (\<lambda>d. d \<notin> set order) (deps_of ds n))) \<and>
     deps_first ds order"

definition right_graph :: "descriptors \<Rightarrow> graph \<Rightarrow> bool" where
  "right_graph ds graph \<longleftrightarrow> (\<forall>n m. count (mset (at_key [] graph n)) m = declared ds m n)"

lemma filter_snoc_notin:
  "n \<notin> set order \<Longrightarrow>
   length (filter (\<lambda>d. d \<notin> set (order @ [n])) xs) =
   length (filter (\<lambda>d. d \<notin> set order) xs) - length (filter ((=) n) xs)"
  "n \<notin> set order \<Longrightarrow> length (filter ((=) n) xs) \<le> length (filter (\<lambda>d. d \<notin> set order) xs)"
proof (induction xs)
  case (Cons x xs)
  {
    case 1
    then show ?case using Cons by (auto simp: Suc_diff_le)
  next
    case 2
    then show ?case using Cons by auto
  }
qed auto

lemma deps_first_snoc:
  "deps_first ds (order @ [n]) \<longleftrightarrow> deps_first ds order \<and> set (deps_of ds n) \<subseteq> set order"
  by (auto simp: deps_first_def nth_append less_Suc_eq all_conj_distrib imp_conjR)

lemma kahn_step:
  assumes "kahn_inv ds order (n # queue) degree" and "right_graph ds graph"
  shows "\<exists>queue' degree'. relax (at_key [] graph n) queue degree = Some (queue', degree') \<and>
    kahn_inv ds (order @ [n]) queue' degree'"
proof -
  let ?xs = "at_key [] graph n"
  have inv: "distinct (order @ n # queue)" "set (order @ n # queue) = {k \<in> fst ` set ds. at_key 0 degree k = 0}"
    "dom degree = fst ` set ds" "\<And>k. at_key 0 degree k = length (filter (\<lambda>d. d \<notin> set order) (deps_of ds k))"
    "deps_first ds order"
    using assms(1) by (auto simp: kahn_inv_def)
  have n: "n \<notin> set order" using inv(1) by auto
  have cnt: "count (mset ?xs) m = length (filter ((=) n) (deps_of ds m))" for m
    using assms(2) by (simp add: right_graph_def declared_def)
  have le: "\<forall>m. count (mset ?xs) m \<le> at_key 0 degree m"
    using filter_snoc_notin(2) [OF n] by (simp add: cnt inv(4))
  have sub: "set ?xs \<subseteq> fst ` set ds"
  proof
    fix m assume "m \<in> set ?xs"
    then have "deps_of ds m \<noteq> []" using cnt [of m] by (metis count_mset_0_iff filter.simps(1) list.size(3))
    then have "map_of ds m \<noteq> None" by (metis deps_of_def option.case(1))
    then show "m \<in> fst ` set ds" by (simp add: map_of_eq_None_iff)
  qed
  obtain new degree' where r: "relax ?xs queue degree = Some (queue @ new, degree')" "distinct new"
      "set new = {m \<in> set ?xs. at_key 0 degree m = count (mset ?xs) m}"
      "\<forall>m. at_key 0 degree' m = at_key 0 degree m - count (mset ?xs) m" "dom degree' = dom degree"
    using relax_spec [OF le, of queue] sub inv(3) by auto
  have deg': "at_key 0 degree' m = length (filter (\<lambda>d. d \<notin> set (order @ [n])) (deps_of ds m))" for m
    using r(4) filter_snoc_notin(1) [OF n] by (simp add: cnt inv(4))
  have new: "m \<in> set new \<longleftrightarrow> m \<in> fst ` set ds \<and> at_key 0 degree' m = 0 \<and> at_key 0 degree m \<noteq> 0" for m
  proof
    assume "m \<in> set new"
    then have m: "m \<in> set ?xs" "at_key 0 degree m = count (mset ?xs) m" using r(3) by auto
    then have "count (mset ?xs) m \<noteq> 0" by (simp add: count_mset_0_iff)
    then show "m \<in> fst ` set ds \<and> at_key 0 degree' m = 0 \<and> at_key 0 degree m \<noteq> 0"
      using m sub r(4) by auto
  next
    assume a: "m \<in> fst ` set ds \<and> at_key 0 degree' m = 0 \<and> at_key 0 degree m \<noteq> 0"
    then have "at_key 0 degree m = count (mset ?xs) m" using r(4) le by (simp add: le_antisym)
    moreover from this a have "m \<in> set ?xs" by (metis count_mset_0_iff)
    ultimately show "m \<in> set new" using r(3) by simp
  qed
  have "at_key 0 degree k = 0" if "k \<in> set (order @ n # queue)" for k using inv(2) that by blast
  then have "set (order @ n # queue) \<inter> set new = {}" using new by blast
  then have "distinct ((order @ [n]) @ queue @ new)" using inv(1) r(2) by auto
  moreover have "set ((order @ [n]) @ queue @ new) = {k \<in> fst ` set ds. at_key 0 degree' k = 0}"
  proof -
    have "{k \<in> fst ` set ds. at_key 0 degree' k = 0} = {k \<in> fst ` set ds. at_key 0 degree k = 0} \<union> set new"
    proof (rule set_eqI)
      fix k show "k \<in> {k \<in> fst ` set ds. at_key 0 degree' k = 0} \<longleftrightarrow>
          k \<in> {k \<in> fst ` set ds. at_key 0 degree k = 0} \<union> set new"
        unfolding Un_iff mem_Collect_eq new [of k] using r(4) [THEN spec, of k]
          by (cases "at_key 0 degree k = 0") auto
    qed
    then show ?thesis using inv(2) by auto
  qed
  moreover have "set (deps_of ds n) \<subseteq> set order"
  proof -
    have "at_key 0 degree n = 0" using inv(2) by auto
    then show ?thesis by (auto simp: inv(4) filter_empty_conv)
  qed
  ultimately have "kahn_inv ds (order @ [n]) (queue @ new) degree'"
    using deg' inv(3,5) r(5) by (simp add: kahn_inv_def deps_first_snoc)
  then show ?thesis using r(1) by blast
qed

lemma kahn_returns:
  assumes "kahn_inv ds order queue degree" and "right_graph ds graph"
  shows "\<exists>order' degree'. kahn graph order queue degree = Some (order', degree') \<and> kahn_inv ds order' [] degree'"
  using assms(1)
proof (induction "card (fst ` set ds) - length order" arbitrary: order queue degree rule: less_induct)
  case less
  show ?case
  proof (cases queue)
    case Nil
    then show ?thesis using less.prems by (simp add: kahn.simps)
  next
    case (Cons n queue')
    obtain queue'' degree' where r: "relax (at_key [] graph n) queue' degree = Some (queue'', degree')"
      and inv: "kahn_inv ds (order @ [n]) queue'' degree'"
      using kahn_step [OF less.prems [unfolded Cons] assms(2)] by blast
    have "distinct (order @ [n])" "set (order @ [n]) \<subseteq> fst ` set ds"
      using inv by (auto simp: kahn_inv_def)
    then have "length (order @ [n]) \<le> card (fst ` set ds)"
      by (metis card_mono distinct_card finite_imageI finite_set)
    then have "card (fst ` set ds) - length (order @ [n]) < card (fst ` set ds) - length order" by simp
    from less.hyps [OF this inv] show ?thesis
      using r by (subst kahn.simps) (simp add: Cons)
  qed
qed

definition valid_order :: "descriptors \<Rightarrow> string list \<Rightarrow> bool" where
  "valid_order ds order \<longleftrightarrow> distinct order \<and> set order = fst ` set ds \<and> deps_first ds order"

text \<open>Components that depend on each other in circles cannot be ordered.\<close>

lemma no_valid_order:
  assumes "C \<noteq> {}" and "C \<subseteq> fst ` set ds" and "\<forall>n\<in>C. \<exists>d\<in>set (deps_of ds n). d \<in> C"
  shows "\<not> valid_order ds order"
proof
  assume v: "valid_order ds order"
  then have "\<exists>i. i < length order \<and> order ! i \<in> C"
    using assms(1,2) by (auto simp: valid_order_def in_set_conv_nth) (metis imageI in_set_conv_nth subsetD)
  then obtain i where i: "i < length order" "order ! i \<in> C"
    and least: "\<And>j. j < i \<Longrightarrow> \<not> (j < length order \<and> order ! j \<in> C)"
    using exists_least_iff [of "\<lambda>i. i < length order \<and> order ! i \<in> C"] by blast
  obtain d where "d \<in> set (deps_of ds (order ! i))" "d \<in> C" using assms(3) i(2) by blast
  then have "d \<in> set (take i order)" using v i(1) by (auto simp: valid_order_def deps_first_def)
  then obtain j where "j < i" "j < length order" "order ! j = d" by (auto simp: in_set_conv_nth)
  with least \<open>d \<in> C\<close> show False by blast
qed

lemma build_graph_Inl:
  "build_graph all ds graph degree = Inl err \<Longrightarrow>
   \<exists>(n, d)\<in>set ds. \<exists>dep\<in>set (cd_depends_on d). map_of all dep = None \<and> err = MissingDependency n dep"
  by (induction all ds graph degree rule: build_graph.induct)
    (fastforce dest: add_deps_Inl split: sum.splits prod.splits)+

lemma kahn_inv_start:
  assumes "distinct (map fst ds)" and "build_graph ds ds Map.empty Map.empty = Inr (graph, degree)"
  shows "kahn_inv ds [] (sort (filter (\<lambda>n. degree n = Some 0) (map fst ds))) degree"
    and "right_graph ds graph" and "\<forall>n. set (deps_of ds n) \<subseteq> fst ` set ds"
proof -
  note spec = build_graph_spec [OF assms(2,1)]
  have key: "degree n = Some 0 \<longleftrightarrow> n \<in> fst ` set ds \<and> at_key 0 degree n = 0" for n
  proof -
    have "dom degree = fst ` set ds" using spec by simp
    then have "n \<in> fst ` set ds \<longleftrightarrow> degree n \<noteq> None" by (metis domIff)
    then show ?thesis by (cases "degree n") (simp_all add: at_key_def)
  qed
  show "kahn_inv ds [] (sort (filter (\<lambda>n. degree n = Some 0) (map fst ds))) degree"
    using spec assms(1) by (auto simp: kahn_inv_def deps_first_def key) (auto simp: at_key_def)
  show "right_graph ds graph"
    unfolding right_graph_def
  proof (intro allI)
    fix n m
    have "mset (at_key [] graph n) =
        mset (concat (map (\<lambda>(m, d). map (\<lambda>_. m) (filter ((=) n) (cd_depends_on d))) ds))"
      using conjunct1 [OF conjunct2 [OF spec]] by (simp add: at_key_def del: mset_concat)
    then show "count (mset (at_key [] graph n)) m = declared ds m n"
      using dependents_count [OF assms(1), of n m] by (simp only:)
  qed
  show "\<forall>n. set (deps_of ds n) \<subseteq> fst ` set ds"
  proof
    fix n show "set (deps_of ds n) \<subseteq> fst ` set ds"
    proof (cases "map_of ds n")
      case (Some d)
      then have "(n, d) \<in> set ds" by (rule map_of_SomeD)
      then show ?thesis using bspec [OF conjunct1 [OF spec]] Some by (auto simp: deps_of_def)
    qed (simp add: deps_of_def)
  qed
qed

lemma length_keys: "distinct (map fst ds) \<Longrightarrow> card (fst ` set ds) = length ds"
  by (metis distinct_card length_map set_map)

lemma kahn_complete:
  assumes "kahn_inv ds order [] degree" and "distinct (map fst ds)" and "length order = length ds"
  shows "valid_order ds order"
proof -
  have order: "distinct order" "set order = {n \<in> fst ` set ds. at_key 0 degree n = 0}" "deps_first ds order"
    using assms(1) unfolding kahn_inv_def append_Nil2 by blast+
  then have "set order \<subseteq> fst ` set ds" by blast
  then have "set order = fst ` set ds"
    using order(1) assms(3) length_keys [OF assms(2)]
    by (metis card_subset_eq distinct_card finite_imageI finite_set)
  then show ?thesis using order by (simp add: valid_order_def)
qed

lemma kahn_stuck:
  assumes "kahn_inv ds order [] degree" and "distinct (map fst ds)" and "length order \<noteq> length ds"
    and "\<forall>n. set (deps_of ds n) \<subseteq> fst ` set ds"
  shows "let c = filter (\<lambda>n. at_key 0 degree n > 0) (map fst ds) in
    c \<noteq> [] \<and> (\<forall>n\<in>set c. \<exists>dep\<in>set (deps_of ds n). dep \<in> set c) \<and> (\<nexists>order. valid_order ds order)"
proof -
  let ?c = "filter (\<lambda>n. at_key 0 degree n > 0) (map fst ds)"
  have order: "distinct order" "set order = {n \<in> fst ` set ds. at_key 0 degree n = 0}" "deps_first ds order"
    using assms(1) unfolding kahn_inv_def append_Nil2 by blast+
  have c: "set ?c = fst ` set ds - set order"
    unfolding order(2) set_filter set_map neq0_conv [symmetric] by blast
  have "set order \<subseteq> fst ` set ds" using order(2) by blast
  then have ne: "set ?c \<noteq> {}"
    using c order(1) assms(3) length_keys [OF assms(2)] by (metis Diff_eq_empty_iff distinct_card subset_antisym)
  have wait: "\<exists>dep\<in>set (deps_of ds m). dep \<in> set ?c" if "m \<in> set ?c" for m
  proof -
    have "at_key 0 degree m = length (filter (\<lambda>d. d \<notin> set order) (deps_of ds m))"
      using assms(1) unfolding kahn_inv_def by blast
    moreover have "0 < at_key 0 degree m" using that by simp
    ultimately have "filter (\<lambda>d. d \<notin> set order) (deps_of ds m) \<noteq> []" by auto
    then obtain d where "d \<in> set (deps_of ds m)" "d \<notin> set order" by (auto simp: filter_empty_conv)
    then show ?thesis using assms(4) c by blast
  qed
  then have "\<not> valid_order ds order" for order
    using no_valid_order [of "set ?c" ds order] ne c by blast
  moreover have "?c \<noteq> []" using ne by (metis list.set(1))
  ultimately show ?thesis using wait by (simp add: Let_def)
qed

lemma topo_order_sound:
  assumes "distinct (map fst ds)"
  shows "case topo_order ds of
      Some (Inr order) \<Rightarrow> valid_order ds order
    | Some (Inl (MissingDependency n dep)) \<Rightarrow> n \<in> fst ` set ds \<and> dep \<in> set (deps_of ds n) \<and> dep \<notin> fst ` set ds
    | Some (Inl (DependencyCycle c)) \<Rightarrow>
        c \<noteq> [] \<and> (\<forall>n\<in>set c. \<exists>dep\<in>set (deps_of ds n). dep \<in> set c) \<and> (\<nexists>order. valid_order ds order)
    | _ \<Rightarrow> False"
proof (cases "build_graph ds ds Map.empty Map.empty")
  case (Inl err)
  then obtain n d dep where "(n, d) \<in> set ds" "dep \<in> set (cd_depends_on d)" "map_of ds dep = None"
    "err = MissingDependency n dep" using build_graph_Inl [OF Inl] by auto
  moreover from this have "map_of ds n = Some d" using assms by (metis map_of_eq_Some_iff)
  moreover have "ds \<noteq> []" using Inl by auto
  ultimately show ?thesis
    using Inl image_eqI [of n fst "(n, d)" "set ds"]
    by (simp add: topo_order_def deps_of_def map_of_eq_None_iff)
next
  case (Inr gd)
  then obtain graph degree where b: "build_graph ds ds Map.empty Map.empty = Inr (graph, degree)"
    by (cases gd) auto
  note start = kahn_inv_start [OF assms b]
  let ?queue = "sort (filter (\<lambda>n. degree n = Some 0) (map fst ds))"
  obtain order degree' where k: "kahn graph [] ?queue degree = Some (order, degree')"
    and inv: "kahn_inv ds order [] degree'" using kahn_returns [OF start(1,2)] by blast
  show ?thesis
  proof (cases "length order = length ds")
    case True
    then have "topo_order ds = Some (Inr order)"
      using b k kahn_complete [OF inv assms] by (cases ds) (auto simp: topo_order_def Let_def valid_order_def)
    then show ?thesis using kahn_complete [OF inv assms True] by simp
  next
    case False
    note stuck = kahn_stuck [OF inv assms False start(3), unfolded Let_def]
    then have "ds \<noteq> []" by auto
    then have "topo_order ds = Some (Inl (DependencyCycle (filter (\<lambda>n. at_key 0 degree' n > 0) (map fst ds))))"
      using False b k by (simp add: topo_order_def Let_def)
    then show ?thesis using stuck by simp
  qed
qed

text \<open>C12: The initialization order. Computing it always returns, without an underflow. It is an order of
  all components in which each comes after everything it depends on; a missing dependency is reported
  exactly by a component that declares it; and a cycle is only reported when no such order exists, naming
  components each of which waits for another one of them.\<close>

theorem topo_order_correct:
  assumes "distinct (map fst ds)"
  shows "case topo_order ds of
      Some (Inr order) \<Rightarrow> valid_order ds order
    | Some (Inl (MissingDependency n dep)) \<Rightarrow> n \<in> fst ` set ds \<and> dep \<in> set (deps_of ds n) \<and> dep \<notin> fst ` set ds
    | Some (Inl (DependencyCycle c)) \<Rightarrow>
        c \<noteq> [] \<and> (\<forall>n\<in>set c. \<exists>dep\<in>set (deps_of ds n). dep \<in> set c) \<and> (\<nexists>order. valid_order ds order)
    | _ \<Rightarrow> False"
  using topo_order_sound [OF assms] .

definition two_components :: descriptors where
  "two_components =
     [(''b'', \<lparr>cd_name = ''b'', cd_depends_on = [''a''], cd_config = JNull\<rparr>),
      (''a'', \<lparr>cd_name = ''a'', cd_depends_on = [], cd_config = JNull\<rparr>)]"

lemma topo_order_correct_witness: "valid_order two_components [''a'', ''b'']"
proof -
  have "topo_order two_components = Some (Inr [''a'', ''b''])" by code_simp
  moreover have "distinct (map fst two_components)" by (simp add: two_components_def)
  ultimately show ?thesis using topo_order_correct [of two_components] by simp
qed

text \<open>The order is not deterministic, although the queue starts sorted: dependents are visited in the
  order in which the map of descriptors is iterated, so the same registrations give different orders.\<close>

theorem topo_order_unspecified:
  "let a = (''a'', \<lparr>cd_name = ''a'', cd_depends_on = [], cd_config = JNull\<rparr>);
       b = (''b'', \<lparr>cd_name = ''b'', cd_depends_on = [''a''], cd_config = JNull\<rparr>);
       c = (''c'', \<lparr>cd_name = ''c'', cd_depends_on = [''a''], cd_config = JNull\<rparr>)
   in map_of [a, b, c] = map_of [a, c, b] \<and>
      topo_order [a, b, c] = Some (Inr [''a'', ''b'', ''c'']) \<and>
      topo_order [a, c, b] = Some (Inr [''a'', ''c'', ''b''])"
proof -
  have "topo_order [(''a'', \<lparr>cd_name = ''a'', cd_depends_on = [], cd_config = JNull\<rparr>),
      (''b'', \<lparr>cd_name = ''b'', cd_depends_on = [''a''], cd_config = JNull\<rparr>),
      (''c'', \<lparr>cd_name = ''c'', cd_depends_on = [''a''], cd_config = JNull\<rparr>)] = Some (Inr [''a'', ''b'', ''c''])"
    by code_simp
  moreover have "topo_order [(''a'', \<lparr>cd_name = ''a'', cd_depends_on = [], cd_config = JNull\<rparr>),
      (''c'', \<lparr>cd_name = ''c'', cd_depends_on = [''a''], cd_config = JNull\<rparr>),
      (''b'', \<lparr>cd_name = ''b'', cd_depends_on = [''a''], cd_config = JNull\<rparr>)] = Some (Inr [''a'', ''c'', ''b''])"
    by code_simp
  ultimately show ?thesis by (auto simp: Let_def fun_eq_iff)
qed

section \<open>What the phases do\<close>

lemma set_state_sel [simp]:
  "state_of (set_state n s r) m = (if m = n then Some s else state_of r m)"
  "reg_instances (set_state n s r) = reg_instances r" "reg_factories (set_state n s r) = reg_factories r"
  "reg_descriptors (set_state n s r) = reg_descriptors r" "reg_topo (set_state n s r) = reg_topo r"
  by (simp_all add: set_state_def state_of_def update_conv')

lemma state_of_cong [simp]:
  "state_of (r\<lparr>reg_factories := x\<rparr>) = state_of r" "state_of (r\<lparr>reg_instances := y\<rparr>) = state_of r"
  "state_of (r\<lparr>reg_topo := z\<rparr>) = state_of r" "state_of (r\<lparr>reg_init_started := b\<rparr>) = state_of r"
  by (simp_all add: state_of_def fun_eq_iff)

text \<open>One component after the initialization phase.\<close>

definition initialized_by ::
  "'e component_factory \<Rightarrow> 'e component_registry \<Rightarrow> 'e component_registry \<Rightarrow> string \<Rightarrow> bool" where
  "initialized_by f r r' n \<longleftrightarrow> map_of (reg_factories r') n = None \<and>
     (\<exists>config e1 e2.
        (\<exists>c. f config e1 = (Inr c, e2) \<and> state_of r' n = Some Initialized \<and> map_of (reg_instances r') n = Some c) \<or>
        (\<exists>x. f config e1 = (Inl x, e2) \<and> state_of r' n = Some Failed \<and>
           map_of (reg_instances r') n = map_of (reg_instances r) n))"

definition untouched :: "'e component_registry \<Rightarrow> 'e component_registry \<Rightarrow> string \<Rightarrow> bool" where
  "untouched r r' n \<longleftrightarrow> state_of r' n = state_of r n \<and> map_of (reg_factories r') n = map_of (reg_factories r) n \<and>
     map_of (reg_instances r') n = map_of (reg_instances r) n"

text \<open>The phases share their frame: a step changes nothing of the registry but its own component.\<close>

locale component_step =
  fixes one :: "string \<Rightarrow> 'e progress \<Rightarrow> 'e progress"
  assumes frame: "one n (err, r, e) = (err', r', e') \<Longrightarrow>
    reg_descriptors r' = reg_descriptors r \<and> reg_topo r' = reg_topo r \<and> (\<forall>m. m \<noteq> n \<longrightarrow> untouched r r' m)"
begin

lemma fold_frame:
  assumes "fold one names (err, r, e) = (err', r', e')"
  shows "reg_descriptors r' = reg_descriptors r \<and> reg_topo r' = reg_topo r \<and>
    (\<forall>m. m \<notin> set names \<longrightarrow> untouched r r' m)"
  using assms
proof (induction names arbitrary: err r e)
  case (Cons n names)
  obtain err1 r1 e1 where s: "one n (err, r, e) = (err1, r1, e1)" by (metis surj_pair)
  with Cons.prems have "fold one names (err1, r1, e1) = (err', r', e')" by simp
  from Cons.IH [OF this] frame [OF s] show ?case by (auto simp: untouched_def)
qed (simp add: untouched_def)

text \<open>Each component of the order sees its step once.\<close>

lemma fold_step:
  assumes "fold one names (err, r, e) = (err', r', e')" and "distinct names" and "n \<in> set names"
  obtains err1 r1 e1 err2 r2 e2 where "one n (err1, r1, e1) = (err2, r2, e2)"
    and "untouched r r1 n" and "untouched r2 r' n" and "reg_descriptors r1 = reg_descriptors r"
proof -
  obtain xs ys where names: "names = xs @ n # ys" using assms(3) by (auto simp: in_set_conv_decomp)
  obtain err1 r1 e1 where a: "fold one xs (err, r, e) = (err1, r1, e1)" by (metis surj_pair)
  obtain err2 r2 e2 where b: "one n (err1, r1, e1) = (err2, r2, e2)" by (metis surj_pair)
  have c: "fold one ys (err2, r2, e2) = (err', r', e')" using assms(1) a b by (simp add: names)
  have "n \<notin> set xs" "n \<notin> set ys" using assms(2) by (auto simp: names)
  then show thesis using that [OF b] fold_frame [OF a] fold_frame [OF c] by blast
qed

end

interpretation init_phase: component_step init_one
  by unfold_locales
    (auto simp: untouched_def Let_def delete_conv' update_conv' split: if_splits option.splits prod.splits sum.splits)

interpretation start_phase: component_step start_one
  by unfold_locales
    (auto simp: untouched_def Let_def split: if_splits option.splits prod.splits sum.splits)

interpretation stop_phase: component_step stop_one
  by unfold_locales
    (auto simp: untouched_def Let_def split: if_splits option.splits prod.splits sum.splits)

lemma init_one_spec:
  assumes "init_one n (err, r, e) = (err', r', e')"
  shows "if is_initialized r n then untouched r r' n
    else (case map_of (reg_factories r) n of None \<Rightarrow> untouched r r' n | Some f \<Rightarrow> initialized_by f r r' n)"
  using assms
  by (fastforce simp: untouched_def initialized_by_def Let_def delete_conv' update_conv'
      split: if_splits option.splits prod.splits sum.splits)

end
