(* ===== verification/Registry_Lifecycle.thy ===== *)
theory Registry_Lifecycle
  imports Component_Registry
begin

text \<open>
  The registry along any sequence of its operations: an invariant of the reachable registries, and what
  one round of initialization, start and stop does to every component.
\<close>

section \<open>Reachable registries\<close>

definition registry_inv :: "'e component_registry \<Rightarrow> bool" where
  "registry_inv r \<longleftrightarrow> distinct (map fst (reg_descriptors r)) \<and>
     (\<forall>order. reg_topo r = Some order \<longrightarrow> valid_order (reg_descriptors r) order) \<and>
     (\<forall>n. is_initialized r n \<longrightarrow> map_of (reg_instances r) n \<noteq> None) \<and>
     (\<forall>n. state_of r n \<noteq> None \<longleftrightarrow> map_of (reg_descriptors r) n \<noteq> None)"

inductive registry_reachable :: "'e component_registry \<Rightarrow> bool" where
  new: "registry_reachable registry_new"
| register: "registry_reachable r \<Longrightarrow> registry_reachable (snd (register_factory r d f))"
| unregister: "registry_reachable r \<Longrightarrow> registry_reachable (snd (unregister r n))"
| init: "registry_reachable r \<Longrightarrow> init_all r e = Some (res, r', e') \<Longrightarrow> registry_reachable r'"
| start: "registry_reachable r \<Longrightarrow> start_all r e = Some (res, r', e') \<Longrightarrow> registry_reachable r'"
| stop: "registry_reachable r \<Longrightarrow> stop_all r e = Some (res, r', e') \<Longrightarrow> registry_reachable r'"
| replace: "registry_reachable r \<Longrightarrow> replace_instance r n c e = (res, r', e') \<Longrightarrow> registry_reachable r'"

lemma is_initialized_state: "is_initialized r n \<longleftrightarrow> (\<exists>s. state_of r n = Some s \<and> past_init s)"
  by (auto simp: is_initialized_def split: option.splits)

lemma recompute_returns:
  assumes "registry_inv r"
  shows "\<exists>res r'. recompute_topo r = Some (res, r') \<and> registry_inv r' \<and>
    (res = Inr (the (reg_topo r')) \<and> reg_topo r' \<noteq> None \<or> (\<exists>x. res = Inl x)) \<and>
    r' = r\<lparr>reg_topo := reg_topo r'\<rparr>"
proof (cases "reg_topo r")
  case (Some order)
  then show ?thesis using assms by (auto simp: recompute_topo_def)
next
  case None
  have d: "distinct (map fst (reg_descriptors r))" using assms by (simp add: registry_inv_def)
  show ?thesis
  proof (cases "topo_order (reg_descriptors r)")
    case None
    then show ?thesis using topo_order_sound [OF d] by simp
  next
    case (Some res)
    then show ?thesis
      using assms topo_order_sound [OF d] \<open>reg_topo r = None\<close>
      by (cases res) (auto simp: recompute_topo_def registry_inv_def is_initialized_state)
  qed
qed

lemma registry_inv_step:
  assumes "component_step one" and "registry_inv r"
    and "\<And>n err r e. registry_inv r \<Longrightarrow> state_of r n \<noteq> None \<Longrightarrow> registry_inv (fst (snd (one n (err, r, e)))) \<and>
      reg_descriptors (fst (snd (one n (err, r, e)))) = reg_descriptors r"
    and "\<forall>n\<in>set names. map_of (reg_descriptors r) n \<noteq> None"
  shows "registry_inv (fst (snd (fold one names (err, r, e))))"
  using assms(2,4)
proof (induction names arbitrary: err r e)
  case (Cons n names)
  obtain err1 r1 e1 where s: "one n (err, r, e) = (err1, r1, e1)" by (metis surj_pair)
  have "state_of r n \<noteq> None" using Cons.prems by (simp add: registry_inv_def)
  from assms(3) [OF Cons.prems(1) this, of err e] s
  have "registry_inv r1" "reg_descriptors r1 = reg_descriptors r" by simp_all
  then show ?case using Cons s by simp
qed simp

lemma phase_keeps_inv:
  assumes "component_step one" and "registry_inv r" and "phase one order_of r e = Some (res, r', e')"
    and "\<And>n err r e. registry_inv r \<Longrightarrow> state_of r n \<noteq> None \<Longrightarrow> registry_inv (fst (snd (one n (err, r, e)))) \<and>
      reg_descriptors (fst (snd (one n (err, r, e)))) = reg_descriptors r"
    and "\<And>order. set (order_of order) = set order"
  shows "registry_inv r'"
proof -
  obtain t r1 where t: "recompute_topo r = Some (t, r1)" and inv: "registry_inv r1"
    and "t = Inr (the (reg_topo r1)) \<and> reg_topo r1 \<noteq> None \<or> (\<exists>x. t = Inl x)"
    using recompute_returns [OF assms(2)] by blast
  then consider (ok) order where "t = Inr order" "reg_topo r1 = Some order" | (err) x where "t = Inl x" by auto
  then show ?thesis
  proof cases
    case ok
    have "set order = fst ` set (reg_descriptors r1)"
      using inv ok(2) by (simp add: registry_inv_def valid_order_def)
    then have "\<forall>n\<in>set (order_of order). map_of (reg_descriptors r1) n \<noteq> None"
      using assms(5) by (simp add: map_of_eq_None_iff)
    from registry_inv_step [OF assms(1) inv assms(4) this, of None e]
    show ?thesis using assms(3) t ok
      by (auto simp: phase_def split: prod.splits option.splits)
  next
    case err
    then show ?thesis using assms(3) t inv by (simp add: phase_def)
  qed
qed

declare map_of_eq_Some_iff [simp del]

lemma state_of_upd [simp]:
  "state_of (r\<lparr>reg_descriptors := ds\<rparr>) = state_of r"
  "state_of (r\<lparr>reg_states := AList.update n s (reg_states r)\<rparr>) m = (if m = n then Some s else state_of r m)"
  "state_of (r\<lparr>reg_states := AList.delete n (reg_states r)\<rparr>) m = (if m = n then None else state_of r m)"
  by (simp_all add: state_of_def update_conv' delete_conv' fun_eq_iff)

lemmas registry_simps = registry_inv_def is_initialized_state past_init_def Let_def delete_conv' update_conv'

lemma register_keeps_inv: "registry_inv r \<Longrightarrow> registry_inv (snd (register_factory r d f))"
  by (auto simp: registry_simps register_factory_def distinct_update state_of_def
      simp del: map_of_eq_Some_iff)

lemma unregister_keeps_inv: "registry_inv r \<Longrightarrow> registry_inv (snd (unregister r n))"
  by (auto simp: registry_simps unregister_def distinct_delete state_of_def
      simp del: map_of_eq_Some_iff split: option.splits)

lemma replace_keeps_inv:
  "registry_inv r \<Longrightarrow> replace_instance r n c e = (res, r', e') \<Longrightarrow> registry_inv r'"
  by (auto simp: registry_simps replace_instance_def split: option.splits sum.splits prod.splits if_splits; metis)

lemma init_one_keeps_inv:
  "registry_inv r \<Longrightarrow> state_of r n \<noteq> None \<Longrightarrow> registry_inv (fst (snd (init_one n (err, r, e)))) \<and>
     reg_descriptors (fst (snd (init_one n (err, r, e)))) = reg_descriptors r"
  by (auto simp: registry_simps split: option.splits sum.splits prod.splits)

lemma start_one_keeps_inv:
  "registry_inv r \<Longrightarrow> state_of r n \<noteq> None \<Longrightarrow> registry_inv (fst (snd (start_one n (err, r, e)))) \<and>
     reg_descriptors (fst (snd (start_one n (err, r, e)))) = reg_descriptors r"
  by (auto simp: registry_simps split: option.splits sum.splits prod.splits)

lemma stop_one_keeps_inv:
  "registry_inv r \<Longrightarrow> state_of r n \<noteq> None \<Longrightarrow> registry_inv (fst (snd (stop_one n (err, r, e)))) \<and>
     reg_descriptors (fst (snd (stop_one n (err, r, e)))) = reg_descriptors r"
  by (auto simp: registry_simps split: option.splits sum.splits prod.splits)

declare init_one.simps [simp del] start_one.simps [simp del] stop_one.simps [simp del]

lemma init_started_inv: "registry_inv (r\<lparr>reg_init_started := b\<rparr>) = registry_inv r"
  by (simp add: registry_simps)

lemma reachable_inv: "registry_reachable r \<Longrightarrow> registry_inv r"
proof (induction rule: registry_reachable.induct)
  case new
  show ?case by (simp add: registry_simps registry_new_def state_of_def)
next
  case (init r e res r' e')
  show ?case
    by (rule phase_keeps_inv [OF init_phase.component_step_axioms, of "r\<lparr>reg_init_started := True\<rparr>" id e res r' e'])
      ((rule init_one_keeps_inv; assumption) | (use init in \<open>simp add: init_all_def init_started_inv\<close>))+
next
  case (start r e res r' e')
  show ?case
    by (rule phase_keeps_inv [OF start_phase.component_step_axioms, of r id e res r' e'])
      ((rule start_one_keeps_inv; assumption) | (use start in \<open>simp add: start_all_def init_started_inv\<close>))+
next
  case (stop r e res r' e')
  show ?case
    by (rule phase_keeps_inv [OF stop_phase.component_step_axioms, of r rev e res r' e'])
      ((rule stop_one_keeps_inv; assumption) | (use stop in \<open>simp add: stop_all_def init_started_inv\<close>))+
qed (auto intro: register_keeps_inv unregister_keeps_inv replace_keeps_inv)

lemma phase_returns:
  assumes "registry_inv r"
  shows "phase one order_of r e \<noteq> None"
proof -
  obtain t r1 where t: "recompute_topo r = Some (t, r1)" using recompute_returns [OF assms] by blast
  show ?thesis
  proof (cases t)
    case (Inr order)
    obtain err r2 e2 where "fold one (order_of order) (None, r1, e) = (err, r2, e2)" by (metis surj_pair)
    then show ?thesis using t Inr by (cases err) (simp_all add: phase_def)
  qed (simp add: phase_def t)
qed


lemma phase_order:
  assumes "registry_inv r" and "phase one order_of r e = Some (res, r', e')" and "component_step one"
    and "reg_topo r' \<noteq> None"
  obtains order err where "reg_topo r' = Some order" and "valid_order (reg_descriptors r) order"
    and "fold one (order_of order) (None, r\<lparr>reg_topo := Some order\<rparr>, e) = (err, r', e')"
    and "res = (case err of None \<Rightarrow> Inr () | Some x \<Rightarrow> Inl x)"
proof -
  obtain t r1 where t: "recompute_topo r = Some (t, r1)" and inv: "registry_inv r1"
    and c: "t = Inr (the (reg_topo r1)) \<and> reg_topo r1 \<noteq> None \<or> (\<exists>x. t = Inl x)"
    and r1: "r1 = r\<lparr>reg_topo := reg_topo r1\<rparr>"
    using recompute_returns [OF assms(1)] by blast
  show thesis
  proof (cases t)
    case (Inl x)
    then have "reg_topo r1 = None"
      using t by (auto simp: recompute_topo_def split: option.splits sum.splits)
    then show thesis using assms(2,4) t Inl by (simp add: phase_def)
  next
    case (Inr order)
    then have topo: "reg_topo r1 = Some order" using c by auto
    obtain err r2 e2 where f: "fold one (order_of order) (None, r1, e) = (err, r2, e2)" by (metis surj_pair)
    then have r': "r2 = r'" "e2 = e'" "res = (case err of None \<Rightarrow> Inr () | Some x \<Rightarrow> Inl x)"
      using assms(2) t Inr by (auto simp: phase_def split: option.splits)
    have "reg_descriptors r1 = reg_descriptors r" using r1 by (metis component_registry.select_convs(2) component_registry.surjective component_registry.update_convs(5))
    then have "valid_order (reg_descriptors r) order" using inv topo by (simp add: registry_inv_def)
    moreover have "reg_topo r' = Some order"
      using component_step.fold_frame [OF assms(3) f] topo r' by simp
    moreover have "r1 = r\<lparr>reg_topo := Some order\<rparr>" using r1 topo by simp
    ultimately show thesis using that f r' by simp
  qed
qed

section \<open>One round of the lifecycle\<close>

lemma untouched_trans: "untouched r r1 n \<Longrightarrow> untouched r1 r2 n \<Longrightarrow> untouched r r2 n"
  by (simp add: untouched_def)

lemma untouched_is_initialized: "untouched r r1 n \<Longrightarrow> is_initialized r1 n = is_initialized r n"
  by (simp add: untouched_def is_initialized_def)

lemma initialized_by_untouched:
  "untouched r r1 n \<Longrightarrow> initialized_by f r1 r2 n \<Longrightarrow> untouched r2 r' n \<Longrightarrow> initialized_by f r r' n"
  by (simp add: untouched_def initialized_by_def)

lemma init_all_step:
  assumes "registry_inv r" and "init_all r e = Some (res, r', e')" and "reg_topo r' \<noteq> None"
    and "map_of (reg_descriptors r) n \<noteq> None"
  shows "if is_initialized r n then untouched r r' n
    else (case map_of (reg_factories r) n of None \<Rightarrow> untouched r r' n | Some f \<Rightarrow> initialized_by f r r' n)"
proof -
  let ?r = "r\<lparr>reg_init_started := True\<rparr>"
  obtain order err where v: "valid_order (reg_descriptors ?r) order"
    and f: "fold init_one (id order) (None, ?r\<lparr>reg_topo := Some order\<rparr>, e) = (err, r', e')"
    using phase_order [OF _ assms(2) [unfolded init_all_def] init_phase.component_step_axioms assms(3)] assms(1)
    unfolding init_started_inv by metis
  have d: "distinct (id order)" "n \<in> set (id order)"
    using v assms(4) by (auto simp: valid_order_def map_of_eq_None_iff)
  obtain err1 r1 e1 err2 r2 e2 where s: "init_one n (err1, r1, e1) = (err2, r2, e2)"
    and u: "untouched (?r\<lparr>reg_topo := Some order\<rparr>) r1 n" "untouched r2 r' n"
    by (rule init_phase.fold_step [OF f d])
  have u1: "untouched r r1 n" using u(1) by (simp add: untouched_def)
  then have f1: "map_of (reg_factories r1) n = map_of (reg_factories r) n" by (simp add: untouched_def)
  show ?thesis
    using init_one_spec [OF s] untouched_trans [OF untouched_trans [OF u1] u(2)]
      initialized_by_untouched [OF u1 _ u(2)]
    unfolding untouched_is_initialized [OF u1] f1 by (auto split: if_splits option.splits)
qed

text \<open>Initialization looks at nothing but the component itself: whenever the order exists, every component
  that is not initialized yet and still has its factory is built by it and ends \<open>Initialized\<close> or
  \<open>Failed\<close> by the factory's own answer, whether or not the components it depends on have failed; and every
  other component is left as it was.\<close>

theorem init_ignores_failed_dependencies:
  assumes "registry_reachable r" and "init_all r e = Some (res, r', e')" and "reg_topo r' \<noteq> None"
    and "map_of (reg_descriptors r) n \<noteq> None"
  shows "if is_initialized r n then untouched r r' n
    else (case map_of (reg_factories r) n of None \<Rightarrow> untouched r r' n | Some f \<Rightarrow> initialized_by f r r' n)"
  using reachable_inv [OF assms(1)] assms(2-4) by (rule init_all_step)

definition quiet_component :: "string \<Rightarrow> string list any_component" where
  "quiet_component n = \<lparr>ac_start = \<lambda>e. (Inr (), e @ [n]), ac_stop = \<lambda>e. (Inr (), e @ [n]),
     ac_health = \<lambda>e. (Healthy None, e), ac_pre_replace = \<lambda>e. (Inr (), e), ac_post_replace = \<lambda>e. (Inr (), e)\<rparr>"

definition works :: "string \<Rightarrow> string list component_factory" where
  "works n config e = (Inr (quiet_component n), e)"

definition fails :: "string \<Rightarrow> string list component_factory" where
  "fails n config e = (Inl (InitFailed n ''no''), e)"

definition db_and_api :: "string list component_factory \<Rightarrow> string list component_registry" where
  "db_and_api db =
     snd (register_factory (snd (register_factory registry_new
       \<lparr>cd_name = ''db'', cd_depends_on = [], cd_config = JNull\<rparr> db))
       \<lparr>cd_name = ''api'', cd_depends_on = [''db''], cd_config = JNull\<rparr> (works ''api''))"

lemma db_and_api_reachable: "registry_reachable (db_and_api db)"
  unfolding db_and_api_def by (intro registry_reachable.intros)

lemma db_and_api_registry:
  "db_and_api db = \<lparr>reg_factories = [(''db'', db), (''api'', works ''api'')],
     reg_descriptors = [(''db'', \<lparr>cd_name = ''db'', cd_depends_on = [], cd_config = JNull\<rparr>),
       (''api'', \<lparr>cd_name = ''api'', cd_depends_on = [''db''], cd_config = JNull\<rparr>)],
     reg_instances = [], reg_states = [(''db'', Pending), (''api'', Pending)],
     reg_topo = None, reg_init_started = False\<rparr>"
  by (simp add: db_and_api_def register_factory_def registry_new_def Let_def)

lemma db_and_api_order:
  "topo_order (reg_descriptors (db_and_api db)) = Some (Inr [''db'', ''api''])"
proof -
  have "topo_order [(''db'', \<lparr>cd_name = ''db'', cd_depends_on = [], cd_config = JNull\<rparr>),
       (''api'', \<lparr>cd_name = ''api'', cd_depends_on = [''db''], cd_config = JNull\<rparr>)] = Some (Inr [''db'', ''api''])"
    by code_simp
  then show ?thesis by (simp add: db_and_api_registry)
qed

lemma init_ignores_failed_dependencies_witness:
  "\<exists>r'. init_all (db_and_api (fails ''db'')) [] = Some (Inl (InitFailed ''db'' ''no''), r', []) \<and>
     state_of r' ''db'' = Some Failed \<and> initialized_by (works ''api'') (db_and_api (fails ''db'')) r' ''api''"
proof -
  let ?r = "db_and_api (fails ''db'')"
  let ?t = "?r\<lparr>reg_init_started := True, reg_topo := Some [''db'', ''api'']\<rparr>"
  have t: "recompute_topo (?r\<lparr>reg_init_started := True\<rparr>) = Some (Inr [''db'', ''api''], ?t)"
    using db_and_api_order [of "fails ''db''"] by (simp add: recompute_topo_def) (simp add: db_and_api_registry)
  let ?r1 = "set_state ''db'' Failed (set_state ''db'' Initializing
    (?t\<lparr>reg_factories := [(''api'', works ''api'')]\<rparr>))"
  have 1: "init_one ''db'' (None, ?t, []) = (Some (InitFailed ''db'' ''no''), ?r1, [])"
    by (simp add: init_one.simps is_initialized_def Let_def first_error_def fails_def db_and_api_registry
        state_of_def past_init_def)
  let ?r' = "set_state ''api'' Initialized (set_state ''api'' Initializing
    (?r1\<lparr>reg_factories := []\<rparr>)\<lparr>reg_instances := [(''api'', quiet_component ''api'')]\<rparr>)"
  have 2: "init_one ''api'' (Some (InitFailed ''db'' ''no''), ?r1, []) = (Some (InitFailed ''db'' ''no''), ?r', [])"
    by (simp add: init_one.simps is_initialized_def Let_def works_def db_and_api_registry
        state_of_def set_state_def past_init_def)
  obtain r' where r': "init_all ?r [] = Some (Inl (InitFailed ''db'' ''no''), r', [])" "reg_topo r' \<noteq> None"
    "state_of r' ''db'' = Some Failed"
  proof
    show "init_all ?r [] = Some (Inl (InitFailed ''db'' ''no''), ?r', [])"
      unfolding init_all_def phase_def t by (simp add: 1 2 del: set_state_sel)
  qed simp_all
  have n: "map_of (reg_descriptors ?r) ''api'' \<noteq> None" "\<not> is_initialized ?r ''api''"
    "map_of (reg_factories ?r) ''api'' = Some (works ''api'')"
    by (simp_all add: db_and_api_registry is_initialized_def state_of_def past_init_def)
  from init_ignores_failed_dependencies [OF db_and_api_reachable r'(1,2) n(1)] n(2,3) r'(1,3)
  show ?thesis by auto
qed

text \<open>Building a component consumes its factory, and registration only looks at the factories: after an
  initialization a second registration under the same name succeeds, throws the state of the component
  back to \<open>Pending\<close> and leaves the instance already built in place.\<close>

theorem reregister_after_init:
  assumes "registry_reachable r" and "init_all r e = Some (res, r', e')" and "reg_topo r' \<noteq> None"
    and "map_of (reg_descriptors r) (cd_name d) \<noteq> None" and "\<not> is_initialized r (cd_name d)"
  shows "\<exists>r2. register_factory r' d f = (Inr (), r2) \<and> state_of r2 (cd_name d) = Some Pending \<and>
    reg_instances r2 = reg_instances r'"
proof -
  have "map_of (reg_factories r') (cd_name d) = None"
    using init_all_step [OF reachable_inv [OF assms(1)] assms(2-4)] assms(5)
    by (auto simp: untouched_def initialized_by_def split: option.splits)
  then show ?thesis by (simp add: register_factory_def Let_def state_of_def update_conv')
qed

definition one_component :: "string list component_registry" where
  "one_component = snd (register_factory registry_new
     \<lparr>cd_name = ''db'', cd_depends_on = [], cd_config = JNull\<rparr> (works ''db''))"

lemma one_component_init:
  "\<exists>r'. init_all one_component [] = Some (Inr (), r', []) \<and> reg_topo r' = Some [''db''] \<and>
     reg_instances r' = [(''db'', quiet_component ''db'')] \<and> state_of r' ''db'' = Some Initialized"
proof -
  have "topo_order [(''db'', \<lparr>cd_name = ''db'', cd_depends_on = [], cd_config = JNull\<rparr>)] = Some (Inr [''db''])"
    by code_simp
  then show ?thesis
    by (simp add: init_all_def phase_def recompute_topo_def one_component_def register_factory_def registry_new_def
        init_one.simps is_initialized_def past_init_def works_def state_of_def set_state_def Let_def)
qed

lemma reregister_after_init_witness:
  "\<exists>r1 r2. init_all one_component [] = Some (Inr (), r1, []) \<and>
     register_factory r1 \<lparr>cd_name = ''db'', cd_depends_on = [], cd_config = JNull\<rparr> (works ''db'') = (Inr (), r2) \<and>
     state_of r1 ''db'' = Some Initialized \<and> state_of r2 ''db'' = Some Pending \<and>
     reg_instances r2 = [(''db'', quiet_component ''db'')]"
proof -
  let ?d = "\<lparr>cd_name = ''db'', cd_depends_on = [], cd_config = JNull\<rparr>"
  obtain r1 where r1: "init_all one_component [] = Some (Inr (), r1, [])" "reg_topo r1 = Some [''db'']"
    "reg_instances r1 = [(''db'', quiet_component ''db'')]" "state_of r1 ''db'' = Some Initialized"
    using one_component_init by blast
  have "registry_reachable one_component" unfolding one_component_def by (intro registry_reachable.intros)
  moreover have "map_of (reg_descriptors one_component) ''db'' \<noteq> None" "\<not> is_initialized one_component ''db''"
    by (simp_all add: one_component_def register_factory_def registry_new_def is_initialized_def state_of_def
        past_init_def Let_def)
  ultimately show ?thesis
    using reregister_after_init [of one_component "[]" _ r1 "[]" ?d "works ''db''"] r1 by auto
qed

lemma phase_topo:
  assumes "component_step one" and "phase one order_of r e = Some (Inr (), r', e')"
  shows "reg_topo r' \<noteq> None"
proof -
  obtain order r1 err where "recompute_topo r = Some (Inr order, r1)" and f: "fold one (order_of order) (None, r1, e) = (err, r', e')"
    using assms(2) by (auto simp: phase_def split: option.splits sum.splits prod.splits)
  then have "reg_topo r1 \<noteq> None"
    by (auto simp: recompute_topo_def split: option.splits sum.splits)
  then show ?thesis using component_step.fold_frame [OF assms(1) f] by simp
qed

text \<open>Components that write their name on every start and stop.\<close>

definition logging :: "string list component_registry \<Rightarrow> bool" where
  "logging r \<longleftrightarrow> (\<forall>n c e. map_of (reg_instances r) n = Some c \<longrightarrow>
     ac_start c e = (Inr (), e @ [n]) \<and> ac_stop c e = (Inr (), e @ [n]))"

definition present :: "string list component_registry \<Rightarrow> bool" where
  "present r \<longleftrightarrow> logging r \<and> (\<forall>n. is_initialized r n \<longrightarrow> map_of (reg_instances r) n \<noteq> None)"

lemma present_instance:
  assumes "present r" and "state_of r n = Some s" and "past_init s"
  obtains c where "map_of (reg_instances r) n = Some c"
proof -
  have "is_initialized r n" using assms(2,3) by (simp add: is_initialized_def)
  then show thesis using assms(1) that by (auto simp: present_def)
qed

lemma start_one_logging:
  assumes "present r"
  shows "\<exists>r'. start_one n (err, r, e) =
      (err, r', e @ (if state_of r n = Some Initialized then [n] else [])) \<and> present r' \<and>
    (\<forall>m. state_of r' m = (if m = n \<and> state_of r n = Some Initialized then Some Running else state_of r m))"
proof (cases "state_of r n = Some Initialized")
  case True
  then obtain c where c: "map_of (reg_instances r) n = Some c"
    using present_instance [OF assms] by (auto simp: past_init_def)
  then have "ac_start c e = (Inr (), e @ [n])" using assms by (simp add: present_def logging_def)
  then show ?thesis using True c assms
    by (simp add: start_one.simps Let_def present_def logging_def is_initialized_def)
qed (use assms in \<open>simp add: start_one.simps\<close>)

lemma fold_start_logging:
  assumes "present r" and "distinct names"
  shows "\<exists>r'. fold start_one names (err, r, e) =
      (err, r', e @ filter (\<lambda>n. state_of r n = Some Initialized) names) \<and> present r' \<and>
    (\<forall>m. state_of r' m = (if m \<in> set names \<and> state_of r m = Some Initialized then Some Running else state_of r m))"
  using assms
proof (induction names arbitrary: r e)
  case (Cons n names)
  obtain r1 where r1: "start_one n (err, r, e) = (err, r1, e @ (if state_of r n = Some Initialized then [n] else []))"
    "present r1"
    "\<forall>m. state_of r1 m = (if m = n \<and> state_of r n = Some Initialized then Some Running else state_of r m)"
    using start_one_logging [OF Cons.prems(1)] by blast
  have "filter (\<lambda>m. state_of r1 m = Some Initialized) names = filter (\<lambda>m. state_of r m = Some Initialized) names"
    using r1(3) Cons.prems(2) by (intro filter_cong) auto
  with Cons.IH [OF r1(2), of "e @ (if state_of r n = Some Initialized then [n] else [])"] r1 Cons.prems(2)
  show ?case by auto
qed simp

lemma stop_one_logging:
  assumes "present r"
  shows "\<exists>r'. stop_one n (err, r, e) =
      (err, r', e @ (if state_of r n \<in> {Some Initialized, Some Running} then [n] else [])) \<and> present r' \<and>
    (\<forall>m. m \<noteq> n \<longrightarrow> state_of r' m = state_of r m)"
proof (cases "state_of r n \<in> {Some Initialized, Some Running}")
  case True
  then obtain c where c: "map_of (reg_instances r) n = Some c"
    using present_instance [OF assms] by (auto simp: past_init_def)
  then have "ac_stop c e = (Inr (), e @ [n])" using assms by (simp add: present_def logging_def)
  then show ?thesis using True c assms
    by (auto simp: stop_one.simps Let_def present_def logging_def is_initialized_def)
qed (use assms in \<open>auto simp: stop_one.simps\<close>)

lemma fold_stop_logging:
  assumes "present r" and "distinct names"
  shows "\<exists>r'. fold stop_one names (err, r, e) =
      (err, r', e @ filter (\<lambda>n. state_of r n \<in> {Some Initialized, Some Running}) names)"
  using assms
proof (induction names arbitrary: r e)
  case (Cons n names)
  let ?on = "\<lambda>r n. state_of r n \<in> {Some Initialized, Some Running}"
  obtain r1 where r1: "stop_one n (err, r, e) = (err, r1, e @ (if ?on r n then [n] else []))"
    "present r1" "\<forall>m. m \<noteq> n \<longrightarrow> state_of r1 m = state_of r m"
    using stop_one_logging [OF Cons.prems(1)] by blast
  have "filter (?on r1) names = filter (?on r) names"
    using r1(3) Cons.prems(2) by (intro filter_cong) auto
  with Cons.IH [OF r1(2), of "e @ (if ?on r n then [n] else [])"] r1 Cons.prems(2)
  show ?case by auto
qed simp

text \<open>C13: Components start after everything they depend on and stop before it: with components that log
  their names, a start appends the initialized ones along an order in which every component comes after
  its dependencies, and the stop that follows appends those and the ones that were running before, in the
  opposite order.\<close>

theorem start_stop_order:
  assumes "registry_reachable r" and "logging r"
    and "start_all r e = Some (Inr (), r1, e1)" and "stop_all r1 e1 = Some (Inr (), r2, e2)"
  shows "\<exists>order. valid_order (reg_descriptors r) order \<and>
    e1 = e @ filter (\<lambda>n. state_of r n = Some Initialized) order \<and>
    e2 = e1 @ filter (\<lambda>n. state_of r n \<in> {Some Initialized, Some Running}) (rev order)"
proof -
  note inv = reachable_inv [OF assms(1)]
  have t1: "reg_topo r1 \<noteq> None" and t2: "reg_topo r2 \<noteq> None"
    using assms(3,4) phase_topo [OF start_phase.component_step_axioms, of id r e r1 e1]
      phase_topo [OF stop_phase.component_step_axioms, of rev r1 e1 r2 e2]
    by (simp_all add: start_all_def stop_all_def)
  obtain order err where o: "reg_topo r1 = Some order" "valid_order (reg_descriptors r) order"
    "fold start_one (id order) (None, r\<lparr>reg_topo := Some order\<rparr>, e) = (err, r1, e1)"
    using phase_order [OF inv assms(3) [unfolded start_all_def] start_phase.component_step_axioms t1] by metis
  have d: "distinct order" using o(2) by (simp add: valid_order_def)
  have p: "present (r\<lparr>reg_topo := Some order\<rparr>)"
    using assms(2) inv by (simp add: present_def logging_def registry_inv_def is_initialized_def)
  have s: "e1 = e @ filter (\<lambda>n. state_of r n = Some Initialized) order" "present r1"
    "\<forall>m. state_of r1 m = (if m \<in> set order \<and> state_of r m = Some Initialized then Some Running else state_of r m)"
    using fold_start_logging [OF p d, of None e] o(3) by auto
  have "recompute_topo r1 = Some (Inr order, r1)" using o(1) by (simp add: recompute_topo_def)
  then obtain x r3 where "fold stop_one (rev order) (None, r1, e1) = (x, r3, e2)"
    using assms(4) by (auto simp: stop_all_def phase_def split: prod.splits option.splits)
  then have "e2 = e1 @ filter (\<lambda>n. state_of r1 n \<in> {Some Initialized, Some Running}) (rev order)"
    using fold_stop_logging [OF s(2), of "rev order" None e1] d by auto
  also have "filter (\<lambda>n. state_of r1 n \<in> {Some Initialized, Some Running}) (rev order) =
      filter (\<lambda>n. state_of r n \<in> {Some Initialized, Some Running}) (rev order)"
    using s(3) by (intro filter_cong) auto
  finally show ?thesis using o(2) s(1) by blast
qed

lemma one_component_initialized:
  obtains r where "registry_reachable r" and "logging r" and "reg_topo r = Some [''db'']"
    and "reg_instances r = [(''db'', quiet_component ''db'')]" and "state_of r ''db'' = Some Initialized"
proof -
  obtain r where r: "init_all one_component [] = Some (Inr (), r, [])" "reg_topo r = Some [''db'']"
    "reg_instances r = [(''db'', quiet_component ''db'')]" "state_of r ''db'' = Some Initialized"
    using one_component_init by blast
  have "registry_reachable one_component" unfolding one_component_def by (intro registry_reachable.intros)
  then have "registry_reachable r" using r(1) by (rule registry_reachable.init)
  moreover have "logging r" by (simp add: logging_def r(3) quiet_component_def)
  ultimately show thesis using that r by blast
qed


lemma start_stop_order_witness:
  "\<exists>r r1 r2 order. start_all r [] = Some (Inr (), r1, [''db'']) \<and>
     stop_all r1 [''db''] = Some (Inr (), r2, [''db'', ''db'']) \<and> valid_order (reg_descriptors r) order \<and>
     [''db''] = filter (\<lambda>n. state_of r n = Some Initialized) order"
proof -
  obtain r where r: "registry_reachable r" "logging r" "reg_topo r = Some [''db'']"
    "reg_instances r = [(''db'', quiet_component ''db'')]" "state_of r ''db'' = Some Initialized"
    by (rule one_component_initialized)
  let ?r1 = "set_state ''db'' Running (set_state ''db'' Starting r)"
  let ?r2 = "set_state ''db'' Stopped (set_state ''db'' Stopping ?r1)"
  have 1: "start_all r [] = Some (Inr (), ?r1, [''db''])" and 2: "stop_all ?r1 [''db''] = Some (Inr (), ?r2, [''db'', ''db''])"
    using r(3-5)
    by (simp_all add: start_all_def stop_all_def phase_def recompute_topo_def start_one.simps stop_one.simps
        quiet_component_def Let_def)
  show ?thesis using start_stop_order [OF r(1,2) 1 2] 1 2 by auto
qed

end
