(* ===== verification/Tool_Registry.thy ===== *)
theory Tool_Registry
  imports Core_Errors "HOL-Library.AList" "HOL-Library.List_Lexorder" "HOL-Library.Char_ord"
    "HOL-Library.Multiset"
begin

text \<open>
  Tools, the registry of tools (\<open>behest-tool/src/lib.rs\<close>) and the stack of scopes over it
  (\<open>behest-runtime/src/tool_scope.rs\<close>). A \<open>dyn Tool\<close> is the record of its answers. Its two
  execution methods act on an environment of any type, which holds the \<open>ToolContext\<close> as well; they are
  given the timeout they run under, and answer \<open>None\<close> when it elapsed. A \<open>HashMap\<close> is an association
  list with distinct keys whose order stands for the iteration order. Poisoned locks are entered, as in
  the code, so a lock never fails.
\<close>

section \<open>Tools\<close>

record tool_output =
  to_value :: json

definition tool_output_new :: "json \<Rightarrow> tool_output" where
  "tool_output_new v = \<lparr>to_value = v\<rparr>"

definition tool_output_text :: "string \<Rightarrow> tool_output" where
  "tool_output_text t = \<lparr>to_value = JString t\<rparr>"

definition tool_output_error :: "string \<Rightarrow> tool_output" where
  "tool_output_error m = \<lparr>to_value = JObject [(''error'', JString m)]\<rparr>"

record side_effects =
  se_read :: bool
  se_write :: bool
  se_external :: bool
  se_destructive :: bool

definition side_effects_default :: side_effects where
  "side_effects_default = \<lparr>se_read = False, se_write = False, se_external = False, se_destructive = False\<rparr>"

definition effects_concurrency_safe :: "side_effects \<Rightarrow> bool" where
  "effects_concurrency_safe s \<longleftrightarrow> \<not> se_write s \<and> \<not> se_destructive s"

type_synonym tool_result = "tool_error + tool_output"
type_synonym 'e execution = "duration option \<Rightarrow> json \<Rightarrow> 'e \<Rightarrow> tool_result option \<times> 'e"

record 'e tool =
  tl_name :: string
  tl_description :: string
  tl_parameters_schema :: json
  tl_response_schema :: "json option"
  tl_execute :: "'e execution"
  tl_execute_with_ctx :: "'e execution"
  tl_read_only :: bool
  tl_concurrency_safe :: bool
  tl_long_running :: bool
  tl_side_effects :: side_effects
  tl_requires_approval :: bool
  tl_approval_reason :: "string option"
  tl_timeout :: "duration option"
  tl_sandbox_profile :: sandbox_profile
  tl_allows_parallel :: bool
  tl_source :: tool_source
  tl_required_scopes :: "string list"

definition to_spec :: "'e tool \<Rightarrow> tool_spec" where
  "to_spec t = tool_spec_new (tl_name t) (tl_description t) (tl_parameters_schema t)"

text \<open>The trait's default methods: what a tool answers that defines only the four required ones.\<close>

definition tool_with_defaults :: "string \<Rightarrow> string \<Rightarrow> json \<Rightarrow> 'e execution \<Rightarrow> 'e tool" where
  "tool_with_defaults name description schema exec =
     \<lparr>tl_name = name, tl_description = description, tl_parameters_schema = schema, tl_response_schema = None,
      tl_execute = exec, tl_execute_with_ctx = exec, tl_read_only = False, tl_concurrency_safe = False,
      tl_long_running = False, tl_side_effects = side_effects_default, tl_requires_approval = False,
      tl_approval_reason = None, tl_timeout = None, tl_sandbox_profile = Inherited,
      tl_allows_parallel = False, tl_source = Server, tl_required_scopes = []\<rparr>"

text \<open>\<open>FunctionTool\<close>: the handler answers a JSON value, which is wrapped.\<close>

definition function_tool_new ::
  "string \<Rightarrow> string \<Rightarrow> json \<Rightarrow> (duration option \<Rightarrow> json \<Rightarrow> 'e \<Rightarrow> (tool_error + json) option \<times> 'e) \<Rightarrow> 'e tool" where
  "function_tool_new name description schema handler =
     tool_with_defaults name description schema
       (\<lambda>limit args e. case handler limit args e of
          (None, e') \<Rightarrow> (None, e')
        | (Some (Inl err), e') \<Rightarrow> (Some (Inl err), e')
        | (Some (Inr v), e') \<Rightarrow> (Some (Inr (tool_output_new v)), e'))"

text \<open>\<open>FunctionTool\<close> does not define \<open>allows_parallel\<close>, whose default is \<open>is_concurrency_safe\<close>.\<close>

definition ft_read_only :: "'e tool \<Rightarrow> 'e tool" where
  "ft_read_only t = t\<lparr>tl_read_only := True, tl_concurrency_safe := True, tl_allows_parallel := True,
     tl_side_effects := (tl_side_effects t)\<lparr>se_read := True\<rparr>\<rparr>"

definition ft_concurrency_safe :: "'e tool \<Rightarrow> 'e tool" where
  "ft_concurrency_safe t = t\<lparr>tl_concurrency_safe := True, tl_allows_parallel := True\<rparr>"

definition ft_long_running :: "'e tool \<Rightarrow> 'e tool" where
  "ft_long_running t = t\<lparr>tl_long_running := True\<rparr>"

definition ft_side_effects :: "side_effects \<Rightarrow> 'e tool \<Rightarrow> 'e tool" where
  "ft_side_effects s t = t\<lparr>tl_side_effects := s\<rparr>"

definition ft_requires_approval :: "string \<Rightarrow> 'e tool \<Rightarrow> 'e tool" where
  "ft_requires_approval reason t = t\<lparr>tl_requires_approval := True, tl_approval_reason := Some reason\<rparr>"

definition ft_timeout :: "duration \<Rightarrow> 'e tool \<Rightarrow> 'e tool" where
  "ft_timeout d t = t\<lparr>tl_timeout := Some d\<rparr>"

definition ft_sandbox :: "sandbox_profile \<Rightarrow> 'e tool \<Rightarrow> 'e tool" where
  "ft_sandbox p t = t\<lparr>tl_sandbox_profile := p\<rparr>"

definition ft_server_tool :: "'e tool \<Rightarrow> 'e tool" where
  "ft_server_tool t = t\<lparr>tl_source := Server\<rparr>"

definition ft_client_tool :: "'e tool \<Rightarrow> 'e tool" where
  "ft_client_tool t = t\<lparr>tl_source := Client\<rparr>"

section \<open>The registry\<close>

type_synonym 'e tools = "(string \<times> 'e tool) list"

definition tools_register :: "'e tool \<Rightarrow> 'e tools \<Rightarrow> 'e tool option \<times> 'e tools" where
  "tools_register t r = (map_of r (tl_name t), AList.update (tl_name t) t r)"

definition tools_unregister :: "string \<Rightarrow> 'e tools \<Rightarrow> 'e tool option \<times> 'e tools" where
  "tools_unregister n r = (map_of r n, AList.delete n r)"

definition tools_get :: "'e tools \<Rightarrow> string \<Rightarrow> 'e tool option" where
  "tools_get r n = map_of r n"

definition tools_names :: "'e tools \<Rightarrow> string list" where
  "tools_names r = map fst r"

definition tools_len :: "'e tools \<Rightarrow> usize" where
  "tools_len r = length r"

definition tools_specs :: "'e tools \<Rightarrow> tool_spec list" where
  "tools_specs r = sort_key ts_name (map (to_spec \<circ> snd) r)"

text \<open>Without a timeout around it an execution answers; \<open>None\<close> stands for one that never does.\<close>

definition tools_execute :: "'e tools \<Rightarrow> tool_call \<Rightarrow> 'e \<Rightarrow> tool_result option \<times> 'e" where
  "tools_execute r call e =
     (case tools_get r (tc_name call) of
        None \<Rightarrow> (Some (Inl (ToolNotFound (tc_name call))), e)
      | Some t \<Rightarrow> tl_execute_with_ctx t None (tc_arguments call) e)"

section \<open>The stack of scopes\<close>

type_synonym scope_id = usize

record 'e scoped_registry =
  sr_base :: "'e tools"
  sr_layers :: "(scope_id \<times> 'e tools) list"
  sr_next_id :: usize

definition scoped_new :: "'e tools \<Rightarrow> 'e scoped_registry" where
  "scoped_new base = \<lparr>sr_base = base, sr_layers = [], sr_next_id = 0\<rparr>"

definition push_scope :: "'e scoped_registry \<Rightarrow> scope_id \<times> 'e scoped_registry" where
  "push_scope r = (sr_next_id r, r\<lparr>sr_next_id := sr_next_id r + 1, sr_layers := sr_layers r @ [(sr_next_id r, [])]\<rparr>)"

definition pop_scope :: "scope_id \<Rightarrow> 'e scoped_registry \<Rightarrow> bool \<times> 'e scoped_registry" where
  "pop_scope i r =
     (if sr_layers r \<noteq> [] \<and> fst (last (sr_layers r)) = i
      then (True, r\<lparr>sr_layers := butlast (sr_layers r)\<rparr>) else (False, r))"

text \<open>Inserting into the first layer with the id; \<open>None\<close> when there is none.\<close>

fun insert_in_scope ::
  "scope_id \<Rightarrow> string \<Rightarrow> 'e tool \<Rightarrow> (scope_id \<times> 'e tools) list \<Rightarrow> ('e tool option \<times> (scope_id \<times> 'e tools) list) option" where
  "insert_in_scope i n t [] = None"
| "insert_in_scope i n t ((j, ts) # ls) =
     (if j = i then Some (map_of ts n, (j, AList.update n t ts) # ls)
      else map_option (\<lambda>(old, ls'). (old, (j, ts) # ls')) (insert_in_scope i n t ls))"

definition register_arc_in_scope ::
  "scope_id \<Rightarrow> string \<Rightarrow> 'e tool \<Rightarrow> 'e scoped_registry \<Rightarrow>
   (string \<times> 'e tool + 'e tool option) \<times> 'e scoped_registry" where
  "register_arc_in_scope i n t r =
     (case insert_in_scope i n t (sr_layers r) of
        Some (old, ls) \<Rightarrow> (Inr old, r\<lparr>sr_layers := ls\<rparr>)
      | None \<Rightarrow> (Inl (n, t), r))"

definition register_in_scope ::
  "scope_id \<Rightarrow> 'e tool \<Rightarrow> 'e scoped_registry \<Rightarrow> ('e tool + 'e tool option) \<times> 'e scoped_registry" where
  "register_in_scope i t r =
     (case insert_in_scope i (tl_name t) t (sr_layers r) of
        Some (old, ls) \<Rightarrow> (Inr old, r\<lparr>sr_layers := ls\<rparr>)
      | None \<Rightarrow> (Inl t, r))"

fun search_layers :: "string \<Rightarrow> (scope_id \<times> 'e tools) list \<Rightarrow> 'e tool option" where
  "search_layers n [] = None"
| "search_layers n ((_, ts) # ls) = (case map_of ts n of Some t \<Rightarrow> Some t | None \<Rightarrow> search_layers n ls)"

definition scoped_get :: "'e scoped_registry \<Rightarrow> string \<Rightarrow> 'e tool option" where
  "scoped_get r n =
     (case search_layers n (rev (sr_layers r)) of Some t \<Rightarrow> Some t | None \<Rightarrow> tools_get (sr_base r) n)"

definition merge_base :: "'e tools \<Rightarrow> 'e tools" where
  "merge_base base =
     fold (\<lambda>spec merged. case tools_get base (ts_name spec) of
         Some t \<Rightarrow> AList.update (ts_name spec) t merged | None \<Rightarrow> merged) (tools_specs base) []"

definition merge_layer :: "'e tools \<Rightarrow> 'e tools \<Rightarrow> 'e tools" where
  "merge_layer ts merged = fold (\<lambda>(n, t). AList.update n t) ts merged"

definition scoped_specs :: "'e scoped_registry \<Rightarrow> tool_spec list" where
  "scoped_specs r =
     (let merged = fold (\<lambda>(_, ts). merge_layer ts) (sr_layers r) (merge_base (sr_base r))
      in sort_key ts_name (map (to_spec \<circ> snd) merged))"

definition scope_depth :: "'e scoped_registry \<Rightarrow> usize" where
  "scope_depth r = length (sr_layers r)"

definition scoped_len :: "'e scoped_registry \<Rightarrow> usize" where
  "scoped_len r = length (scoped_specs r)"

definition unregister_from_base :: "string \<Rightarrow> 'e scoped_registry \<Rightarrow> 'e tool option \<times> 'e scoped_registry" where
  "unregister_from_base n r =
     (case tools_unregister n (sr_base r) of (old, base) \<Rightarrow> (old, r\<lparr>sr_base := base\<rparr>))"

definition scoped_execute :: "'e scoped_registry \<Rightarrow> tool_call \<Rightarrow> 'e \<Rightarrow> tool_result option \<times> 'e" where
  "scoped_execute r call e =
     (case scoped_get r (tc_name call) of
        None \<Rightarrow> (Some (Inl (ToolNotFound (tc_name call))), e)
      | Some t \<Rightarrow> tl_execute t None (tc_arguments call) e)"

text \<open>Dropping a \<open>ScopeGuard\<close> pops its scope and ignores the answer.\<close>

definition drop_guard :: "scope_id \<Rightarrow> 'e scoped_registry \<Rightarrow> 'e scoped_registry" where
  "drop_guard i r = snd (pop_scope i r)"

section \<open>The stack of maps it implements\<close>

text \<open>The abstract registry: a map at the bottom and named maps over it, the last one on top. A name means
  what the topmost map that knows it says.\<close>

record 'e scope_stack =
  st_base :: "string \<rightharpoonup> 'e tool"
  st_scopes :: "(scope_id \<times> (string \<rightharpoonup> 'e tool)) list"

definition stack_view :: "'e scope_stack \<Rightarrow> string \<rightharpoonup> 'e tool" where
  "stack_view s = foldl (\<lambda>m (_, m'). m ++ m') (st_base s) (st_scopes s)"

definition stack_of :: "'e scoped_registry \<Rightarrow> 'e scope_stack" where
  "stack_of r = \<lparr>st_base = map_of (sr_base r), st_scopes = map (\<lambda>(i, ts). (i, map_of ts)) (sr_layers r)\<rparr>"

definition stack_put :: "scope_id \<Rightarrow> string \<Rightarrow> 'e tool \<Rightarrow> 'e scope_stack \<Rightarrow> 'e scope_stack" where
  "stack_put i n t s = s\<lparr>st_scopes := map (\<lambda>(j, m). (j, if j = i then m(n \<mapsto> t) else m)) (st_scopes s)\<rparr>"

definition ids_fresh :: "'e scoped_registry \<Rightarrow> bool" where
  "ids_fresh r \<longleftrightarrow> sorted_wrt (<) (map fst (sr_layers r)) \<and> (\<forall>i\<in>fst ` set (sr_layers r). i < sr_next_id r)"

lemma foldl_layers:
  "(case search_layers n (rev ls) of Some t \<Rightarrow> Some t | None \<Rightarrow> m n) =
   foldl (\<lambda>m (_, m'). m ++ m') m (map (\<lambda>(i, ts). (i, map_of ts)) ls) n"
proof (induction ls arbitrary: m rule: rev_induct)
  case (snoc l ls)
  obtain i ts where "l = (i, ts)" by (cases l)
  then show ?case using snoc.IH [of m] by (simp add: map_add_def split: option.splits)
qed simp

lemma scoped_get_view: "scoped_get r n = stack_view (stack_of r) n"
proof -
  have "tools_get (sr_base r) = map_of (sr_base r)" by (simp add: tools_get_def fun_eq_iff)
  then show ?thesis by (simp add: scoped_get_def stack_view_def stack_of_def foldl_layers)
qed

lemma insert_in_scope_abs:
  assumes "sorted_wrt (<) (map fst ls)" and "insert_in_scope i n t ls = Some (old, ls')"
  shows "map fst ls' = map fst ls \<and>
    map (\<lambda>(i, ts). (i, map_of ts)) ls' =
      map (\<lambda>(j, m). (j, if j = i then m(n \<mapsto> t) else m)) (map (\<lambda>(i, ts). (i, map_of ts)) ls) \<and>
    (\<exists>m. (i, m) \<in> set (map (\<lambda>(i, ts). (i, map_of ts)) ls) \<and> old = m n)"
  using assms
proof (induction ls arbitrary: ls')
  case (Cons l ls)
  obtain j ts where l: "l = (j, ts)" by (cases l)
  show ?case
  proof (cases "j = i")
    case True
    then have "\<forall>x\<in>set ls. fst x \<noteq> i" using Cons.prems(1) l by fastforce
    then have "map (\<lambda>(j, m). (j, if j = i then m(n \<mapsto> t) else m)) (map (\<lambda>(i, ts). (i, map_of ts)) ls) =
        map (\<lambda>(i, ts). (i, map_of ts)) ls"
      by (auto intro!: map_idI)
    then show ?thesis using Cons.prems(2) l True by (auto simp: update_conv')
  next
    case False
    then obtain ls1 where i: "insert_in_scope i n t ls = Some (old, ls1)" and ls': "ls' = (j, ts) # ls1"
      using Cons.prems(2) l by auto
    have "sorted_wrt (<) (map fst ls)" using Cons.prems(1) l by simp
    from Cons.IH [OF this i] show ?thesis using l ls' False by auto
  qed
qed simp

lemma insert_in_scope_None: "insert_in_scope i n t ls = None \<longleftrightarrow> i \<notin> fst ` set ls"
  by (induction i n t ls rule: insert_in_scope.induct) auto

section \<open>Operations keep the scopes well formed\<close>

datatype 'e scope_op = OpPush | OpPop scope_id | OpRegister scope_id "'e tool" | OpAlias scope_id string "'e tool"

fun scope_run :: "'e scope_op \<Rightarrow> 'e scoped_registry \<Rightarrow> 'e scoped_registry" where
  "scope_run OpPush r = snd (push_scope r)"
| "scope_run (OpPop i) r = snd (pop_scope i r)"
| "scope_run (OpRegister i t) r = snd (register_in_scope i t r)"
| "scope_run (OpAlias i n t) r = snd (register_arc_in_scope i n t r)"

text \<open>The abstract operations.\<close>

fun stack_run :: "scope_id \<Rightarrow> 'e scope_op \<Rightarrow> 'e scope_stack \<Rightarrow> 'e scope_stack" where
  "stack_run fresh OpPush s = s\<lparr>st_scopes := st_scopes s @ [(fresh, Map.empty)]\<rparr>"
| "stack_run fresh (OpPop i) s =
     (if st_scopes s \<noteq> [] \<and> fst (last (st_scopes s)) = i then s\<lparr>st_scopes := butlast (st_scopes s)\<rparr> else s)"
| "stack_run fresh (OpRegister i t) s = stack_put i (tl_name t) t s"
| "stack_run fresh (OpAlias i n t) s = stack_put i n t s"

lemma stack_put_absent: "i \<notin> fst ` set (st_scopes s) \<Longrightarrow> stack_put i n t s = s"
  by (cases s) (force simp: stack_put_def intro!: map_idI)

lemma register_arc_abs:
  assumes "ids_fresh r"
  shows "stack_of (snd (register_arc_in_scope i n t r)) = stack_put i n t (stack_of r) \<and>
    map fst (sr_layers (snd (register_arc_in_scope i n t r))) = map fst (sr_layers r) \<and>
    sr_next_id (snd (register_arc_in_scope i n t r)) = sr_next_id r"
proof (cases "insert_in_scope i n t (sr_layers r)")
  case None
  then have "i \<notin> fst ` set (st_scopes (stack_of r))"
    by (force simp: stack_of_def insert_in_scope_None)
  then show ?thesis using None by (simp add: register_arc_in_scope_def stack_put_absent)
next
  case (Some p)
  then obtain old ls where s: "insert_in_scope i n t (sr_layers r) = Some (old, ls)" by (cases p) auto
  have "sorted_wrt (<) (map fst (sr_layers r))" using assms by (simp add: ids_fresh_def)
  from insert_in_scope_abs [OF this s] show ?thesis
    using s by (simp add: register_arc_in_scope_def stack_of_def stack_put_def)
qed

lemma register_as_arc:
  "snd (register_in_scope i t r) = snd (register_arc_in_scope i (tl_name t) t r)"
  by (simp add: register_in_scope_def register_arc_in_scope_def split: option.splits prod.splits)

lemma ids_fresh_cong:
  "map fst (sr_layers r') = map fst (sr_layers r) \<Longrightarrow> sr_next_id r' = sr_next_id r \<Longrightarrow> ids_fresh r' = ids_fresh r"
  unfolding ids_fresh_def set_map [symmetric] by simp

lemma scope_run_refines:
  assumes "ids_fresh r"
  shows "ids_fresh (scope_run x r) \<and> stack_of (scope_run x r) = stack_run (sr_next_id r) x (stack_of r)"
proof (cases x)
  case OpPush
  then show ?thesis using assms
    by (auto simp: push_scope_def ids_fresh_def stack_of_def sorted_wrt_append)
next
  case (OpPop i)
  show ?thesis
  proof (cases "sr_layers r" rule: rev_cases)
    case Nil
    then show ?thesis using OpPop assms by (simp add: pop_scope_def stack_of_def)
  next
    case (snoc ls l)
    obtain j ts where l: "l = (j, ts)" by (cases l)
    have "ids_fresh (r\<lparr>sr_layers := ls\<rparr>)"
      using assms snoc by (simp add: ids_fresh_def sorted_wrt_append)
    then show ?thesis using OpPop assms snoc l by (simp add: pop_scope_def stack_of_def)
  qed
next
  case (OpRegister i t)
  note a = register_arc_abs [OF assms, of i "tl_name t" t]
  have "ids_fresh (snd (register_arc_in_scope i (tl_name t) t r)) = ids_fresh r"
    by (rule ids_fresh_cong) (simp_all add: a)
  then show ?thesis using a OpRegister assms by (simp add: register_as_arc)
next
  case (OpAlias i n t)
  note a = register_arc_abs [OF assms, of i n t]
  have "ids_fresh (snd (register_arc_in_scope i n t r)) = ids_fresh r"
    by (rule ids_fresh_cong) (simp_all add: a)
  then show ?thesis using a OpAlias assms by simp
qed

definition scope_reachable :: "'e tools \<Rightarrow> 'e scope_op list \<Rightarrow> 'e scoped_registry" where
  "scope_reachable base xs = fold scope_run xs (scoped_new base)"

lemma scope_fold_fresh: "ids_fresh r \<Longrightarrow> ids_fresh (fold scope_run xs r)"
  by (induction xs arbitrary: r) (auto simp: scope_run_refines)

lemma scoped_new_fresh: "ids_fresh (scoped_new base)"
  by (simp add: ids_fresh_def scoped_new_def)

lemma reachable_fresh: "ids_fresh (scope_reachable base xs)"
  by (simp add: scope_reachable_def scope_fold_fresh scoped_new_fresh)


section \<open>Specifications of the visible tools\<close>

text \<open>Every tool is stored under its own name, and no name twice in a map: what registration builds, except
  \<open>register_arc_in_scope\<close> with a name of its own.\<close>

definition own_names :: "'e tools \<Rightarrow> bool" where
  "own_names ts \<longleftrightarrow> distinct (map fst ts) \<and> (\<forall>(n, t)\<in>set ts. n = tl_name t)"

definition scoped_own :: "'e scoped_registry \<Rightarrow> bool" where
  "scoped_own r \<longleftrightarrow> own_names (sr_base r) \<and> (\<forall>(i, ts)\<in>set (sr_layers r). own_names ts)"

lemma to_spec_name [simp]: "ts_name (to_spec t) = tl_name t"
  by (simp add: to_spec_def tool_spec_new_def)

lemma own_names_map_of: "own_names ts \<Longrightarrow> map_of ts n = Some t \<Longrightarrow> tl_name t = n"
  by (auto simp: own_names_def dest: map_of_SomeD)

lemma in_update: "x \<in> set (AList.update n t ts) \<Longrightarrow> x = (n, t) \<or> x \<in> set ts"
  by (induction ts) (auto split: if_splits)

lemma own_names_update: "own_names ts \<Longrightarrow> own_names (AList.update (tl_name t) t ts)"
  by (auto simp: own_names_def distinct_update dest!: in_update)

lemma merge_layer_map_of:
  assumes "distinct (map fst ts)"
  shows "map_of (merge_layer ts m) = map_of m ++ map_of ts"
  using assms
proof (induction ts arbitrary: m)
  case (Cons x ts)
  obtain n t where x: "x = (n, t)" by (cases x)
  have "map_of (merge_layer (x # ts) m) = map_of (merge_layer ts (AList.update n t m))"
    by (simp add: merge_layer_def x)
  also have "\<dots> = (map_of m)(n \<mapsto> t) ++ map_of ts" using Cons by (simp add: update_conv')
  also have "\<dots> = map_of m ++ map_of (x # ts)"
  proof -
    have "map_of ts n = None" using Cons.prems by (simp add: x map_of_eq_None_iff)
    then show ?thesis by (simp add: x map_add_upd_left domIff)
  qed
  finally show ?case .
qed (simp add: merge_layer_def)

lemma merge_layer_own: "own_names ts \<Longrightarrow> own_names m \<Longrightarrow> own_names (merge_layer ts m)"
  unfolding merge_layer_def
proof (induction ts arbitrary: m)
  case (Cons x ts)
  obtain n t where x: "x = (n, t)" by (cases x)
  have n: "n = tl_name t" and ts: "own_names ts" using Cons.prems(1) by (simp_all add: x own_names_def)
  show ?case using Cons.IH [OF ts own_names_update [OF Cons.prems(2), of t]] by (simp add: x n)
qed simp

lemma merge_base_spec:
  assumes "own_names base"
  shows "map_of (merge_base base) = map_of base \<and> own_names (merge_base base)"
proof -
  have fold: "map_of (fold (\<lambda>spec merged. case tools_get base (ts_name spec) of
         Some t \<Rightarrow> AList.update (ts_name spec) t merged | None \<Rightarrow> merged) specs m) =
       map_of m ++ (map_of base |` (ts_name ` set specs)) \<and>
     own_names (fold (\<lambda>spec merged. case tools_get base (ts_name spec) of
         Some t \<Rightarrow> AList.update (ts_name spec) t merged | None \<Rightarrow> merged) specs m)"
    if "own_names m" for specs m
    using that
  proof (induction specs arbitrary: m)
    case (Cons spec specs)
    show ?case
    proof (cases "map_of base (ts_name spec)")
      case None
      then show ?thesis using Cons
        by (auto simp: tools_get_def fun_eq_iff map_add_def restrict_map_def split: option.splits)
    next
      case (Some t)
      then have "tl_name t = ts_name spec" using own_names_map_of [OF assms] by blast
      then have "own_names (AList.update (ts_name spec) t m)" using own_names_update [OF Cons.prems, of t] by simp
      from Cons.IH [OF this] show ?thesis using Some
        by (auto simp: tools_get_def fun_eq_iff map_add_def restrict_map_def update_conv' split: option.splits)
    qed
  qed (simp add: restrict_map_def map_add_def)
  have restricted: "map_of base |` dom (map_of base) = map_of base"
    by (rule ext) (simp add: restrict_map_def domIff)
  have names: "ts_name ` set (tools_specs base) = dom (map_of base)"
    using assms by (force simp: tools_specs_def own_names_def dom_map_of_conv_image_fst)
  show ?thesis
    using fold [of "[]" "tools_specs base"] restricted
    unfolding merge_base_def names by (simp add: own_names_def)
qed

lemma merged_spec:
  assumes "own_names m" and "\<forall>(i, ts)\<in>set ls. own_names ts"
  shows "map_of (fold (\<lambda>(_, ts). merge_layer ts) ls m) =
      foldl (\<lambda>m (_, m'). m ++ m') (map_of m) (map (\<lambda>(i, ts). (i, map_of ts)) ls) \<and>
    own_names (fold (\<lambda>(_, ts). merge_layer ts) ls m)"
  using assms
proof (induction ls arbitrary: m)
  case (Cons l ls)
  obtain i ts where l: "l = (i, ts)" by (cases l)
  have ts: "own_names ts" using Cons.prems l by simp
  have "own_names (merge_layer ts m)" using merge_layer_own [OF ts Cons.prems(1)] .
  from Cons.IH [OF this] show ?case
    using Cons.prems(2) merge_layer_map_of [of ts m] ts l by (simp add: own_names_def)
qed simp

lemma scoped_specs_view:
  assumes "scoped_own r"
  shows "map ts_name (scoped_specs r) = sorted_list_of_set (dom (scoped_get r)) \<and>
    set (scoped_specs r) = {to_spec t | n t. scoped_get r n = Some t}"
proof -
  define merged where "merged = fold (\<lambda>(_, ts). merge_layer ts) (sr_layers r) (merge_base (sr_base r))"
  have base: "map_of (merge_base (sr_base r)) = map_of (sr_base r)" "own_names (merge_base (sr_base r))"
    using merge_base_spec assms by (auto simp: scoped_own_def)
  have "\<forall>(i, ts)\<in>set (sr_layers r). own_names ts" using assms by (simp add: scoped_own_def)
  from merged_spec [OF base(2) this] have m: "map_of merged n = scoped_get r n" "own_names merged" for n
    by (simp_all add: merged_def base(1) scoped_get_view stack_view_def stack_of_def)
  have specs: "scoped_specs r = sort_key ts_name (map (to_spec \<circ> snd) merged)"
    by (simp add: scoped_specs_def merged_def)
  have names: "map (ts_name \<circ> (to_spec \<circ> snd)) merged = map fst merged"
    using m(2) by (auto simp: own_names_def)
  have d: "distinct (map fst merged)" using m(2) by (simp add: own_names_def)
  have dom: "dom (scoped_get r) = set (map fst merged)"
    by (simp add: dom_map_of_conv_image_fst [symmetric] m(1) dom_def)
  have "mset (map ts_name (scoped_specs r)) = mset (map fst merged)"
    unfolding specs names [symmetric] by (simp add: multiset.map_comp)
  moreover have "sorted (map ts_name (scoped_specs r))" by (simp add: specs)
  ultimately have "map ts_name (scoped_specs r) = sort (map fst merged)"
    by (metis properties_for_sort)
  also have "\<dots> = sorted_list_of_set (dom (scoped_get r))"
    using sorted_list_of_set_sort_remdups [of "map fst merged"] d dom by (simp add: distinct_remdups_id del: set_map)
  finally have "map ts_name (scoped_specs r) = sorted_list_of_set (dom (scoped_get r))" .
  moreover have "set (scoped_specs r) = {to_spec t | n t. scoped_get r n = Some t}"
    using d by (force simp: specs m(1) [symmetric] map_of_eq_Some_iff)
  ultimately show ?thesis by blast
qed

lemma insert_in_scope_own:
  "insert_in_scope i n t ls = Some (old, ls') \<Longrightarrow> n = tl_name t \<Longrightarrow> \<forall>(i, ts)\<in>set ls. own_names ts \<Longrightarrow>
   \<forall>(i, ts)\<in>set ls'. own_names ts"
  by (induction i n t ls arbitrary: ls' rule: insert_in_scope.induct) (auto simp: own_names_update split: if_splits)

fun aliases :: "'e scope_op \<Rightarrow> bool" where
  "aliases (OpAlias i n t) = (n \<noteq> tl_name t)"
| "aliases x = False"

lemma scope_run_own: "scoped_own r \<Longrightarrow> \<not> aliases x \<Longrightarrow> scoped_own (scope_run x r)"
proof (cases x)
  case (OpRegister i t)
  moreover assume "scoped_own r"
  ultimately show ?thesis using insert_in_scope_own [of i "tl_name t" t "sr_layers r"]
    by (auto simp: scoped_own_def register_in_scope_def split: option.splits)
next
  case (OpAlias i n t)
  moreover assume "scoped_own r" and "\<not> aliases x"
  ultimately show ?thesis using insert_in_scope_own [of i "tl_name t" t "sr_layers r"]
    by (auto simp: scoped_own_def register_arc_in_scope_def split: option.splits)
next
  case (OpPop i)
  moreover assume "scoped_own r"
  ultimately show ?thesis by (auto simp: scoped_own_def pop_scope_def dest: in_set_butlastD)
qed (auto simp: scoped_own_def push_scope_def own_names_def)

lemma reachable_own:
  assumes "own_names base" and "\<forall>x\<in>set xs. \<not> aliases x"
  shows "scoped_own (scope_reachable base xs)"
proof -
  have "scoped_own (fold scope_run xs r)" if "scoped_own r" for r
    using that assms(2) by (induction xs arbitrary: r) (auto simp: scope_run_own)
  moreover have "scoped_own (scoped_new base)" using assms(1) by (simp add: scoped_new_def scoped_own_def)
  ultimately show ?thesis by (simp add: scope_reachable_def)
qed

text \<open>The specifications handed to the model name every visible tool exactly once, in alphabetical order,
  and describe the tool that a call of that name executes; as long as no tool is registered under a
  foreign name, whatever scopes were pushed and popped.\<close>

theorem specs_name_what_executes:
  assumes "own_names base" and "\<forall>x\<in>set xs. \<not> aliases x"
  shows "let r = scope_reachable base xs
    in map ts_name (scoped_specs r) = sorted_list_of_set (dom (scoped_get r)) \<and>
       set (scoped_specs r) = {to_spec t | n t. scoped_get r n = Some t}"
  using scoped_specs_view [OF reachable_own [OF assms]] by (simp add: Let_def)

definition no_op :: "'e execution" where
  "no_op limit args e = (Some (Inr (tool_output_new JNull)), e)"

definition named_tool :: "string \<Rightarrow> string \<Rightarrow> 'e tool" where
  "named_tool n d = tool_with_defaults n d JNull no_op"

lemma named_tool_name [simp]: "tl_name (named_tool n d) = n"
  by (simp add: named_tool_def tool_with_defaults_def)

lemma specs_name_what_executes_witness:
  "let r = scope_reachable [(''sh'', named_tool ''sh'' ''old'' :: unit tool)]
       [OpPush, OpRegister 0 (named_tool ''sh'' ''new''), OpRegister 0 (named_tool ''cat'' ''c'')]
   in map ts_name (scoped_specs r) = [''cat'', ''sh'']"
proof -
  let ?xs = "[OpPush, OpRegister 0 (named_tool ''sh'' ''new''), OpRegister 0 (named_tool ''cat'' ''c'')] :: unit scope_op list"
  let ?r = "scope_reachable [(''sh'', named_tool ''sh'' ''old'' :: unit tool)] ?xs"
  have "dom (scoped_get ?r) = {''cat'', ''sh''}"
    by (auto simp: scope_reachable_def scoped_new_def push_scope_def register_in_scope_def scoped_get_def
        tools_get_def dom_def split: if_splits)
  moreover have "sorted_list_of_set {''cat'', ''sh''} = [''cat'', ''sh'']"
    unfolding sorted_list_of_set_sort_remdups [of "[''cat'', ''sh'']", simplified] by code_simp
  ultimately show ?thesis
    using specs_name_what_executes [of "[(''sh'', named_tool ''sh'' ''old'')]" ?xs]
    by (simp add: own_names_def Let_def)
qed

section \<open>Scopes and their guards\<close>

text \<open>The layers above the first \<open>k\<close>.\<close>

definition above :: "(scope_id \<times> 'e tools) list \<Rightarrow> scope_id \<Rightarrow> 'e scoped_registry \<Rightarrow> bool" where
  "above ls i r \<longleftrightarrow> ids_fresh r \<and> i < sr_next_id r \<and> (\<exists>up. sr_layers r = ls @ up \<and> (\<forall>x\<in>set up. i \<le> fst x))"

fun touches_only :: "scope_id \<Rightarrow> 'e scope_op \<Rightarrow> bool" where
  "touches_only i OpPush = True"
| "touches_only i (OpPop j) = (i \<le> j)"
| "touches_only i (OpRegister j t) = (i \<le> j)"
| "touches_only i (OpAlias j n t) = (i \<le> j)"

lemma insert_in_scope_append:
  assumes "\<forall>x\<in>set ls. fst x \<noteq> i"
  shows "insert_in_scope i n t (ls @ up) = map_option (\<lambda>(old, up'). (old, ls @ up')) (insert_in_scope i n t up)"
  using assms
proof (induction ls)
  case (Cons l ls)
  then show ?case by (cases l) (simp add: option.map_comp o_def case_prod_unfold)
qed (simp add: case_prod_unfold option.map_ident)

lemma insert_in_scope_fst: "insert_in_scope i n t ls = Some (old, ls') \<Longrightarrow> map fst ls' = map fst ls"
  by (induction i n t ls arbitrary: ls' rule: insert_in_scope.induct) (auto split: if_splits)

lemma all_fst_cong: "map fst xs = map fst ys \<Longrightarrow> (\<forall>x\<in>set xs. P (fst x)) = (\<forall>y\<in>set ys. P (fst y))"
  by (metis (mono_tags, lifting) image_eqI imageE list.set_map)

lemma above_register:
  assumes "above ls i r" and "i \<le> j" and "\<forall>x\<in>set ls. fst x < i"
  shows "above ls i (snd (register_arc_in_scope j n t r))"
proof -
  obtain up where up: "sr_layers r = ls @ up" "\<forall>x\<in>set up. i \<le> fst x" using assms(1) by (auto simp: above_def)
  have "\<forall>x\<in>set ls. fst x \<noteq> j" using assms(2,3) by auto
  note app = insert_in_scope_append [OF this, of n t up]
  show ?thesis
  proof (cases "insert_in_scope j n t up")
    case None
    then show ?thesis using assms(1) app up(1) by (simp add: register_arc_in_scope_def)
  next
    case (Some p)
    then obtain old up' where s: "insert_in_scope j n t up = Some (old, up')" by (cases p) auto
    let ?r = "r\<lparr>sr_layers := ls @ up'\<rparr>"
    have f: "map fst up' = map fst up" by (rule insert_in_scope_fst [OF s])
    have "ids_fresh ?r = ids_fresh r" by (rule ids_fresh_cong) (simp_all add: up f)
    moreover have "\<forall>x\<in>set up'. i \<le> fst x" using up(2) all_fst_cong [OF f, of "(\<le>) i"] by simp
    ultimately have "above ls i ?r" using assms(1) by (auto simp: above_def)
    then show ?thesis using s app up(1) by (simp add: register_arc_in_scope_def)
  qed
qed

lemma above_run:
  assumes "above ls i r" and "touches_only i x" and "\<forall>l\<in>set ls. fst l < i"
  shows "above ls i (scope_run x r)"
proof -
  obtain up where up: "sr_layers r = ls @ up" "\<forall>x\<in>set up. i \<le> fst x" "ids_fresh r" "i < sr_next_id r"
    using assms(1) by (auto simp: above_def)
  have fresh: "ids_fresh (scope_run x r)" using scope_run_refines up(3) by blast
  show ?thesis
  proof (cases x)
    case OpPush
    then show ?thesis using up fresh by (auto simp: above_def push_scope_def)
  next
    case (OpPop j)
    show ?thesis
    proof (cases "up = []")
      case True
      have "ls \<noteq> [] \<Longrightarrow> fst (last ls) \<noteq> j" using assms(2,3) OpPop by (fastforce dest: last_in_set)
      then have "scope_run x r = r" using OpPop up(1) True by (cases "ls = []") (simp_all add: pop_scope_def)
      then show ?thesis using assms(1) by simp
    next
      case False
      then have "sr_layers (scope_run x r) = ls @ up \<or> sr_layers (scope_run x r) = ls @ butlast up"
        "sr_next_id (scope_run x r) = sr_next_id r"
        using OpPop up(1) by (auto simp: pop_scope_def butlast_append)
      then show ?thesis using fresh up(2,4) by (auto simp: above_def dest: in_set_butlastD)
    qed
  next
    case (OpRegister j t)
    then show ?thesis using above_register [OF assms(1) _ assms(3), of j "tl_name t" t] assms(2)
      by (simp add: register_as_arc)
  next
    case (OpAlias j n t)
    then show ?thesis using above_register [OF assms(1) _ assms(3), of j n t] assms(2) by simp
  qed
qed

lemma above_pop:
  assumes "above ls i r" and "pop_scope i r = (True, r')" and "\<forall>l\<in>set ls. fst l < i"
  shows "sr_layers r' = ls"
proof -
  obtain up where up: "sr_layers r = ls @ up" "\<forall>x\<in>set up. i \<le> fst x" "ids_fresh r"
    using assms(1) by (auto simp: above_def)
  have last: "sr_layers r \<noteq> []" "fst (last (sr_layers r)) = i" and r': "sr_layers r' = butlast (sr_layers r)"
    using assms(2) by (auto simp: pop_scope_def split: if_splits)
  have "up \<noteq> []" using last up(1) assms(3) by (auto dest: last_in_set)
  then obtain init x where x: "up = init @ [x]" by (meson rev_exhaust)
  have "fst x = i" using last(2) up(1) x by simp
  moreover have "\<forall>y\<in>set init. fst y < fst x"
    using up(3) by (simp add: ids_fresh_def up(1) x sorted_wrt_append)
  ultimately have "init = []" using up(2) x by (cases init) auto
  then show ?thesis using r' up(1) x by simp
qed

text \<open>A scope leaves no trace: whatever is pushed, popped and registered in scopes opened since, once
  popping the scope succeeds the scopes below are exactly what they were before it was pushed, and every
  name means again what it meant then.\<close>

theorem pop_restores_view:
  fixes base xs ys
  defines "r \<equiv> scope_reachable base xs"
  assumes "\<forall>y\<in>set ys. touches_only (fst (push_scope r)) y"
    and "pop_scope (fst (push_scope r)) (fold scope_run ys (snd (push_scope r))) = (True, r')"
  shows "sr_layers r' = sr_layers r \<and> scoped_get r' = scoped_get r"
proof -
  let ?i = "fst (push_scope r)" and ?ls = "sr_layers r"
  have fresh: "ids_fresh r" by (simp add: r_def reachable_fresh)
  then have below: "\<forall>l\<in>set ?ls. fst l < ?i" by (auto simp: ids_fresh_def push_scope_def)
  have "above ?ls ?i (snd (push_scope r))"
    using scope_run_refines [OF fresh, of OpPush] by (auto simp: above_def push_scope_def)
  then have "above ?ls ?i (fold scope_run ys (snd (push_scope r)))"
    using assms(2)
  proof (induction ys arbitrary: r' rule: rev_induct)
    case (snoc y ys)
    then show ?case using above_run [OF _ _ below] by simp
  qed simp
  from above_pop [OF this assms(3) below] have l: "sr_layers r' = ?ls" .
  have base: "sr_base (fold scope_run ys s) = sr_base s" for s
  proof (induction ys arbitrary: s)
    case (Cons y ys)
    moreover have "sr_base (scope_run y s) = sr_base s"
      by (cases y) (simp_all add: push_scope_def pop_scope_def register_in_scope_def register_arc_in_scope_def
          split: option.splits)
    ultimately show ?case by simp
  qed simp
  have "sr_base r' = sr_base r"
    using assms(3) base [of "snd (push_scope r)"] by (auto simp: pop_scope_def push_scope_def split: if_splits)
  then show ?thesis using l by (simp add: scoped_get_def fun_eq_iff tools_get_def split: option.splits)
qed

lemma pop_restores_view_witness:
  "let r = scope_reachable [(''sh'', named_tool ''sh'' ''old'' :: unit tool)] [];
       ys = [OpRegister 0 (named_tool ''sh'' ''new''), OpPush, OpPop 1];
       r1 = fold scope_run ys (snd (push_scope r))
   in tl_description (the (scoped_get r1 ''sh'')) = ''new'' \<and> fst (pop_scope 0 r1) \<and>
      scoped_get (snd (pop_scope 0 r1)) = scoped_get r"
proof -
  let ?base = "[(''sh'', named_tool ''sh'' ''old'' :: unit tool)]" and ?ys = "[OpRegister 0 (named_tool ''sh'' ''new''), OpPush, OpPop 1] :: unit scope_op list"
  define r where "r = scope_reachable ?base []"
  define r1 where "r1 = fold scope_run ?ys (snd (push_scope r))"
  have 1: "fst (push_scope r) = 0" by (simp add: r_def scope_reachable_def scoped_new_def push_scope_def)
  have 2: "pop_scope 0 r1 = (True, snd (pop_scope 0 r1))" "tl_description (the (scoped_get r1 ''sh'')) = ''new''"
    by (simp_all add: r1_def r_def scope_reachable_def scoped_new_def push_scope_def pop_scope_def
        register_in_scope_def scoped_get_def named_tool_def tool_with_defaults_def)
  have "scoped_get (snd (pop_scope 0 r1)) = scoped_get r"
    using pop_restores_view [of ?ys ?base "[]" "snd (pop_scope 0 r1)"] 1 2
    unfolding r_def [symmetric] r1_def [symmetric] by simp
  then show ?thesis using 2 unfolding r_def r1_def Let_def by (metis fst_conv)
qed

text \<open>Dropping the guards of two nested scopes in the order in which they were created leaves the outer
  scope behind: its pop is ignored because it is not on top, and nothing pops it later.\<close>

theorem dropped_out_of_order_leaks:
  "let (a, r1) = push_scope r; (b, r2) = push_scope r1
   in sr_layers (drop_guard b (drop_guard a r2)) = sr_layers r @ [(a, [])]"
  by (simp add: push_scope_def drop_guard_def pop_scope_def butlast_append)

end
