(* ===== verification/Tool_Limits.thy ===== *)
theory Tool_Limits
  imports Tool_Registry
begin

text \<open>
  The tool runtime of the tool crate (\<open>behest-tool/src/tool_runtime.rs\<close>): limits, hooks, batches and
  filtered views. The size of a printed JSON value, which \<open>serde_json\<close> computes, is the parameter
  \<open>bytes\<close>. An execution that never answers and has no timeout makes the whole call \<open>None\<close>.
\<close>

section \<open>The runtime\<close>

record 'e tool_hook =
  th_before :: "string \<Rightarrow> string \<Rightarrow> json \<Rightarrow> 'e \<Rightarrow> (tool_error + unit) \<times> 'e"
  th_after :: "string \<Rightarrow> string \<Rightarrow> tool_result \<Rightarrow> 'e \<Rightarrow> tool_result \<times> 'e"

text \<open>The defaults of the trait.\<close>

definition hook_default :: "'e tool_hook" where
  "hook_default = \<lparr>th_before = \<lambda>_ _ _ e. (Inr (), e), th_after = \<lambda>_ _ r e. (r, e)\<rparr>"

record 'e limited_runtime =
  lr_registry :: "'e tools"
  lr_hooks :: "'e tool_hook list"
  lr_limits :: tool_runtime_limits

definition limited_new :: "'e limited_runtime" where
  "limited_new = \<lparr>lr_registry = [], lr_hooks = [], lr_limits = limits_none\<rparr>"

definition lr_register :: "'e tool \<Rightarrow> 'e limited_runtime \<Rightarrow> 'e tool option \<times> 'e limited_runtime" where
  "lr_register t r =
     (map_of (lr_registry r) (tl_name t), r\<lparr>lr_registry := AList.update (tl_name t) t (lr_registry r)\<rparr>)"

definition lr_unregister :: "string \<Rightarrow> 'e limited_runtime \<Rightarrow> 'e tool option \<times> 'e limited_runtime" where
  "lr_unregister n r = (map_of (lr_registry r) n, r\<lparr>lr_registry := AList.delete n (lr_registry r)\<rparr>)"

definition lr_get :: "'e limited_runtime \<Rightarrow> string \<Rightarrow> 'e tool option" where
  "lr_get r n = map_of (lr_registry r) n"

definition lr_names :: "'e limited_runtime \<Rightarrow> string list" where
  "lr_names r = sort (map fst (lr_registry r))"

definition lr_add_hook :: "'e tool_hook \<Rightarrow> 'e limited_runtime \<Rightarrow> 'e limited_runtime" where
  "lr_add_hook h r = r\<lparr>lr_hooks := lr_hooks r @ [h]\<rparr>"

text \<open>The builder: the limits are set one by one, and the runtime starts without tools.\<close>

record 'e limited_builder =
  lb_limits :: tool_runtime_limits
  lb_hooks :: "'e tool_hook list"

definition builder_new :: "'e limited_builder" where
  "builder_new = \<lparr>lb_limits = limits_none, lb_hooks = []\<rparr>"

definition limit_max_input_bytes :: "usize \<Rightarrow> 'e limited_builder \<Rightarrow> 'e limited_builder" where
  "limit_max_input_bytes n b = b\<lparr>lb_limits := (lb_limits b)\<lparr>max_input_bytes := Some n\<rparr>\<rparr>"

definition limit_max_output_bytes :: "usize \<Rightarrow> 'e limited_builder \<Rightarrow> 'e limited_builder" where
  "limit_max_output_bytes n b = b\<lparr>lb_limits := (lb_limits b)\<lparr>max_output_bytes := Some n\<rparr>\<rparr>"

definition limit_max_timeout :: "duration \<Rightarrow> 'e limited_builder \<Rightarrow> 'e limited_builder" where
  "limit_max_timeout d b = b\<lparr>lb_limits := (lb_limits b)\<lparr>max_timeout := Some d\<rparr>\<rparr>"

definition limit_max_parallel_tools :: "usize \<Rightarrow> 'e limited_builder \<Rightarrow> 'e limited_builder" where
  "limit_max_parallel_tools n b = b\<lparr>lb_limits := (lb_limits b)\<lparr>max_parallel_tools := Some n\<rparr>\<rparr>"

definition limit_max_calls_per_turn :: "usize \<Rightarrow> 'e limited_builder \<Rightarrow> 'e limited_builder" where
  "limit_max_calls_per_turn n b = b\<lparr>lb_limits := (lb_limits b)\<lparr>max_calls_per_turn := Some n\<rparr>\<rparr>"

definition limit_max_cumulative_output_bytes :: "usize \<Rightarrow> 'e limited_builder \<Rightarrow> 'e limited_builder" where
  "limit_max_cumulative_output_bytes n b = b\<lparr>lb_limits := (lb_limits b)\<lparr>max_cumulative_output_bytes := Some n\<rparr>\<rparr>"

definition limit_max_sandbox :: "sandbox_profile \<Rightarrow> 'e limited_builder \<Rightarrow> 'e limited_builder" where
  "limit_max_sandbox p b = b\<lparr>lb_limits := (lb_limits b)\<lparr>max_sandbox := Some p\<rparr>\<rparr>"

definition builder_hook :: "'e tool_hook \<Rightarrow> 'e limited_builder \<Rightarrow> 'e limited_builder" where
  "builder_hook h b = b\<lparr>lb_hooks := lb_hooks b @ [h]\<rparr>"

definition builder_build :: "'e limited_builder \<Rightarrow> 'e limited_runtime" where
  "builder_build b = \<lparr>lr_registry = [], lr_hooks = lb_hooks b, lr_limits = lb_limits b\<rparr>"

section \<open>One call\<close>

fun show_sandbox :: "sandbox_profile \<Rightarrow> string" where
  "show_sandbox Inherited = ''Inherited''"
| "show_sandbox ReadOnly = ''ReadOnly''"
| "show_sandbox WorkspaceWrite = ''WorkspaceWrite''"
| "show_sandbox NetworkEnabled = ''NetworkEnabled''"

definition check_input :: "(json \<Rightarrow> usize) \<Rightarrow> tool_runtime_limits \<Rightarrow> string \<Rightarrow> json \<Rightarrow> tool_error option" where
  "check_input bytes l name args =
     (case max_input_bytes l of
        None \<Rightarrow> None
      | Some m \<Rightarrow>
          if bytes args > m
          then Some (InvalidArguments name (''tool input ('' @ show_nat (bytes args) @ '' bytes) exceeds limit ('' @
                 show_nat m @ '' bytes)''))
          else None)"

definition check_sandbox :: "tool_runtime_limits \<Rightarrow> 'e tool \<Rightarrow> tool_error option" where
  "check_sandbox l t =
     (case max_sandbox l of
        None \<Rightarrow> None
      | Some m \<Rightarrow>
          if \<not> sandbox_allows m (tl_sandbox_profile t)
          then Some (ToolExecution (tl_name t) (''tool sandbox '' @ show_sandbox (tl_sandbox_profile t) @
                 '' exceeds runtime limit '' @ show_sandbox m))
          else None)"

fun run_before :: "'e tool_hook list \<Rightarrow> string \<Rightarrow> string \<Rightarrow> json \<Rightarrow> 'e \<Rightarrow> (tool_error + unit) \<times> 'e" where
  "run_before [] name i args e = (Inr (), e)"
| "run_before (h # hs) name i args e =
     (case th_before h name i args e of
        (Inl err, e') \<Rightarrow> (Inl err, e')
      | (Inr _, e') \<Rightarrow> run_before hs name i args e')"

fun run_after :: "'e tool_hook list \<Rightarrow> string \<Rightarrow> string \<Rightarrow> tool_result \<Rightarrow> 'e \<Rightarrow> tool_result \<times> 'e" where
  "run_after [] name i r e = (r, e)"
| "run_after (h # hs) name i r e = (case th_after h name i r e of (r', e') \<Rightarrow> run_after hs name i r' e')"

definition check_output :: "(json \<Rightarrow> usize) \<Rightarrow> tool_runtime_limits \<Rightarrow> string \<Rightarrow> tool_result \<Rightarrow> tool_result" where
  "check_output bytes l name r =
     (case (r, max_output_bytes l) of
        (Inr out, Some m) \<Rightarrow>
          if bytes (to_value out) > m
          then Inl (ToolExecution name (''tool output ('' @ show_nat (bytes (to_value out)) @
                 '' bytes) exceeds limit ('' @ show_nat m @ '' bytes)''))
          else r
      | _ \<Rightarrow> r)"

definition effective_timeout :: "tool_runtime_limits \<Rightarrow> 'e tool \<Rightarrow> duration option" where
  "effective_timeout l t = (case tl_timeout t of Some d \<Rightarrow> Some d | None \<Rightarrow> max_timeout l)"

definition run_tool :: "tool_runtime_limits \<Rightarrow> 'e tool \<Rightarrow> json \<Rightarrow> 'e \<Rightarrow> tool_result option \<times> 'e" where
  "run_tool l t args e =
     (case tl_execute_with_ctx t (effective_timeout l t) args e of
        (Some r, e') \<Rightarrow> (Some r, e')
      | (None, e') \<Rightarrow>
          (map_option (\<lambda>d. Inl (ToolExecution (tl_name t) (''tool execution timed out after '' @ show_nat (d div 1000000) @ ''ms'')))
             (effective_timeout l t), e'))"

definition execute_tool ::
  "(json \<Rightarrow> usize) \<Rightarrow> 'e limited_runtime \<Rightarrow> 'e tool \<Rightarrow> tool_call \<Rightarrow> 'e \<Rightarrow> tool_result option \<times> 'e" where
  "execute_tool bytes r t call e =
     (let l = lr_limits r; name = tl_name t
      in case check_input bytes l name (tc_arguments call) of
           Some err \<Rightarrow> (Some (Inl err), e)
         | None \<Rightarrow>
        (case check_sandbox l t of
           Some err \<Rightarrow> (Some (Inl err), e)
         | None \<Rightarrow>
        (case run_before (lr_hooks r) name (tc_id call) (tc_arguments call) e of
           (Inl err, e1) \<Rightarrow> (Some (Inl err), e1)
         | (Inr _, e1) \<Rightarrow>
        (case run_tool l t (tc_arguments call) e1 of
           (None, e2) \<Rightarrow> (None, e2)
         | (Some result, e2) \<Rightarrow>
             (case run_after (lr_hooks r) name (tc_id call) (check_output bytes l name result) e2 of
                (result', e3) \<Rightarrow> (Some result', e3))))))"

definition lr_execute ::
  "(json \<Rightarrow> usize) \<Rightarrow> 'e limited_runtime \<Rightarrow> tool_call \<Rightarrow> 'e \<Rightarrow> tool_result option \<times> 'e" where
  "lr_execute bytes r call e =
     (case map_of (lr_registry r) (tc_name call) of
        None \<Rightarrow> (Some (Inl (ToolNotFound (tc_name call))), e)
      | Some t \<Rightarrow> execute_tool bytes r t call e)"

section \<open>Batches\<close>

definition output_bytes :: "(json \<Rightarrow> usize) \<Rightarrow> tool_result \<Rightarrow> usize" where
  "output_bytes bytes r = (case r of Inr out \<Rightarrow> bytes (to_value out) | Inl _ \<Rightarrow> 0)"

definition over_cumulative :: "tool_runtime_limits \<Rightarrow> usize \<Rightarrow> bool" where
  "over_cumulative l n = (case max_cumulative_output_bytes l of None \<Rightarrow> False | Some m \<Rightarrow> n > m)"

definition cumulative_error :: "tool_runtime_limits \<Rightarrow> usize \<Rightarrow> tool_error" where
  "cumulative_error l n = ToolExecution ''batch'' (''cumulative tool output ('' @ show_nat n @
     '' bytes) exceeded runtime limit ('' @
     show_nat (case max_cumulative_output_bytes l of Some m \<Rightarrow> m | None \<Rightarrow> 0) @ '' bytes)'')"

fun batch_loop ::
  "(json \<Rightarrow> usize) \<Rightarrow> 'e limited_runtime \<Rightarrow> usize \<Rightarrow> tool_call list \<Rightarrow> tool_result list \<Rightarrow> usize \<Rightarrow> 'e \<Rightarrow>
   tool_result list option \<times> 'e" where
  "batch_loop bytes r n [] results cumulative e = (Some results, e)"
| "batch_loop bytes r n (call # calls) results cumulative e =
     (case lr_execute bytes r call e of
        (None, e') \<Rightarrow> (None, e')
      | (Some result, e') \<Rightarrow>
          let cumulative = cumulative + output_bytes bytes result
          in if over_cumulative (lr_limits r) cumulative
             then let remaining = n - length results;
                      results = results @ [Inl (cumulative_error (lr_limits r) cumulative)]
                  in batch_loop bytes r n calls (if remaining > 0 then results else results @ [result]) cumulative e'
             else batch_loop bytes r n calls (results @ [result]) cumulative e')"

definition batch_too_long :: "usize \<Rightarrow> usize \<Rightarrow> tool_call \<Rightarrow> tool_result" where
  "batch_too_long n limit call = Inl (InvalidArguments (tc_name call)
     (''tool call batch ('' @ show_nat n @ '') exceeds runtime limit ('' @ show_nat limit @ '')''))"

definition lr_execute_batch ::
  "(json \<Rightarrow> usize) \<Rightarrow> 'e limited_runtime \<Rightarrow> tool_call list \<Rightarrow> 'e \<Rightarrow> tool_result list option \<times> 'e" where
  "lr_execute_batch bytes r calls e =
     (if calls = [] then (Some [], e)
      else let limit = (case max_calls_per_turn (lr_limits r) of Some m \<Rightarrow> m | None \<Rightarrow> usize_max)
      in if length calls > limit then (Some (map (batch_too_long (length calls) limit) calls), e)
         else batch_loop bytes r (length calls) calls [] 0 e)"

section \<open>Filtered views\<close>

record scoped_filter =
  sf_allowlist :: "string list"
  sf_denylist :: "string list"

definition allow_only :: "string list \<Rightarrow> scoped_filter" where
  "allow_only names = \<lparr>sf_allowlist = names, sf_denylist = []\<rparr>"

definition deny :: "string list \<Rightarrow> scoped_filter" where
  "deny names = \<lparr>sf_allowlist = [], sf_denylist = names\<rparr>"

definition filter_allows :: "scoped_filter \<Rightarrow> string \<Rightarrow> bool" where
  "filter_allows f name =
     (if name \<in> set (sf_denylist f) then False
      else if sf_allowlist f = [] then True else name \<in> set (sf_allowlist f))"

definition not_available :: "tool_call \<Rightarrow> tool_result" where
  "not_available call = Inl (ToolExecution (tc_name call)
     (''tool '' @ quoted (tc_name call) @ '' is not available for this agent''))"

definition filtered_execute ::
  "(json \<Rightarrow> usize) \<Rightarrow> 'e limited_runtime \<Rightarrow> scoped_filter \<Rightarrow> tool_call \<Rightarrow> 'e \<Rightarrow> tool_result option \<times> 'e" where
  "filtered_execute bytes r f call e =
     (if \<not> filter_allows f (tc_name call) then (Some (not_available call), e) else lr_execute bytes r call e)"

text \<open>The slots of a batch: denied calls are filled at once, the others by index afterwards.\<close>

fun fill_slots :: "(nat \<times> tool_result) list \<Rightarrow> tool_result option list \<Rightarrow> tool_result option list" where
  "fill_slots [] slots = slots"
| "fill_slots ((i, r) # rs) slots = fill_slots rs (slots[i := Some r])"

definition flatten :: "'a option list \<Rightarrow> 'a list" where
  "flatten xs = concat (map (\<lambda>x. case x of Some a \<Rightarrow> [a] | None \<Rightarrow> []) xs)"

definition filtered_execute_batch ::
  "(json \<Rightarrow> usize) \<Rightarrow> 'e limited_runtime \<Rightarrow> scoped_filter \<Rightarrow> tool_call list \<Rightarrow> 'e \<Rightarrow>
   tool_result list option \<times> 'e" where
  "filtered_execute_batch bytes r f calls e =
     (let ok = (\<lambda>c. filter_allows f (tc_name c));
          slots = map (\<lambda>c. if ok c then None else Some (not_available c)) calls;
          allowed_indices = filter (\<lambda>i. ok (calls ! i)) [0..<length calls];
          allowed_calls = filter ok calls
      in if allowed_calls = [] then (Some (flatten slots), e)
         else case lr_execute_batch bytes r allowed_calls e of
                (None, e') \<Rightarrow> (None, e')
              | (Some results, e') \<Rightarrow> (Some (flatten (fill_slots (zip allowed_indices results) slots)), e'))"

section \<open>What a delivered output satisfies\<close>

definition passive_hooks :: "'e tool_hook list \<Rightarrow> bool" where
  "passive_hooks hs \<longleftrightarrow> (\<forall>h\<in>set hs. \<forall>name i r e. fst (th_after h name i r e) = r)"

lemma run_after_passive:
  "passive_hooks hs \<Longrightarrow> fst (run_after hs name i r e) = r"
proof (induction hs arbitrary: e)
  case (Cons h hs)
  obtain e' where "th_after h name i r e = (r, e')"
    using Cons.prems by (metis list.set_intros(1) passive_hooks_def prod.collapse)
  then show ?case using Cons by (simp add: passive_hooks_def)
qed simp

definition within :: "usize option \<Rightarrow> usize \<Rightarrow> bool" where
  "within limit n = (case limit of None \<Rightarrow> True | Some m \<Rightarrow> n \<le> m)"

text \<open>C27: A delivered output obeys the limits: the tool is registered, its arguments and its output are no
  larger than the limits, and its sandbox profile is allowed. Only a hook that rewrites results can
  deliver anything else.\<close>

theorem delivered_within_limits:
  assumes "passive_hooks (lr_hooks r)" and "lr_execute bytes r call e = (Some (Inr out), e')"
  shows "\<exists>t. lr_get r (tc_name call) = Some t \<and>
    within (max_input_bytes (lr_limits r)) (bytes (tc_arguments call)) \<and>
    within (max_output_bytes (lr_limits r)) (bytes (to_value out)) \<and>
    (\<forall>m. max_sandbox (lr_limits r) = Some m \<longrightarrow> tl_sandbox_profile t \<le> m)"
proof -
  obtain t where t: "map_of (lr_registry r) (tc_name call) = Some t" and x: "execute_tool bytes r t call e = (Some (Inr out), e')"
    using assms(2) by (auto simp: lr_execute_def split: option.splits)
  let ?l = "lr_limits r"
  have i: "check_input bytes ?l (tl_name t) (tc_arguments call) = None" and s: "check_sandbox ?l t = None"
    using x by (auto simp: execute_tool_def Let_def split: option.splits)
  from x i s obtain e1 res e2 where "run_before (lr_hooks r) (tl_name t) (tc_id call) (tc_arguments call) e = (Inr (), e1)"
    and "run_tool ?l t (tc_arguments call) e1 = (Some res, e2)"
    and a: "run_after (lr_hooks r) (tl_name t) (tc_id call) (check_output bytes ?l (tl_name t) res) e2 = (Inr out, e')"
    by (auto simp: execute_tool_def Let_def split: sum.splits prod.splits option.splits)
  have o: "check_output bytes ?l (tl_name t) res = Inr out"
    using run_after_passive [OF assms(1), of "tl_name t" "tc_id call" "check_output bytes ?l (tl_name t) res" e2] a by simp
  have "within (max_output_bytes ?l) (bytes (to_value out))"
    using o by (auto simp: check_output_def within_def split: sum.splits option.splits if_splits)
  moreover have "within (max_input_bytes ?l) (bytes (tc_arguments call))"
    using i by (auto simp: check_input_def within_def split: option.splits if_splits)
  moreover have "\<forall>m. max_sandbox ?l = Some m \<longrightarrow> tl_sandbox_profile t \<le> m"
    using s by (auto simp: check_sandbox_def sandbox_allows_def split: option.splits if_splits)
  ultimately show ?thesis using t by (auto simp: lr_get_def)
qed

text \<open>A tool that counts its runs and answers its arguments.\<close>

definition echo_tool :: "nat tool" where
  "echo_tool = tool_with_defaults ''echo'' ''answers its arguments'' JNull
     (\<lambda>limit args e. (Some (Inr (tool_output_new args)), Suc e))"

definition value_bytes :: "json \<Rightarrow> usize" where
  "value_bytes v = (case v of JString s \<Rightarrow> length s + 2 | _ \<Rightarrow> 4)"

definition echo_runtime :: "nat limited_runtime" where
  "echo_runtime = \<lparr>lr_registry = [(''echo'', echo_tool)], lr_hooks = [hook_default],
     lr_limits = limits_none\<lparr>max_output_bytes := Some 8, max_cumulative_output_bytes := Some 8\<rparr>\<rparr>"

lemma echo_execute:
  "lr_execute value_bytes echo_runtime \<lparr>tc_id = i, tc_name = ''echo'', tc_arguments = JString ''hello''\<rparr> n =
     (Some (Inr (tool_output_new (JString ''hello''))), Suc n)"
  by (simp add: lr_execute_def echo_runtime_def execute_tool_def check_input_def check_sandbox_def run_tool_def
      echo_tool_def tool_with_defaults_def check_output_def hook_default_def limits_none_def value_bytes_def
      effective_timeout_def tool_output_new_def Let_def)

lemma delivered_within_limits_witness:
  "lr_execute value_bytes echo_runtime (tool_call_new ''1'' ''echo'' (JString ''hello'')) 0 =
     (Some (Inr (tool_output_new (JString ''hello''))), 1) \<and>
   within (Some 8) (value_bytes (to_value (tool_output_new (JString ''hello''))))"
proof -
  have p: "passive_hooks (lr_hooks echo_runtime)"
    by (simp add: passive_hooks_def echo_runtime_def hook_default_def)
  have "lr_execute value_bytes echo_runtime (tool_call_new ''1'' ''echo'' (JString ''hello'')) 0 =
      (Some (Inr (tool_output_new (JString ''hello''))), 1)"
    by (simp add: tool_call_new_def echo_execute)
  from delivered_within_limits [OF p this] this show ?thesis by (auto simp: echo_runtime_def)
qed

section \<open>What a batch does\<close>

fun run_all :: "(json \<Rightarrow> usize) \<Rightarrow> 'e limited_runtime \<Rightarrow> tool_call list \<Rightarrow> 'e \<Rightarrow> tool_result list option \<times> 'e" where
  "run_all bytes r [] e = (Some [], e)"
| "run_all bytes r (call # calls) e =
     (case lr_execute bytes r call e of
        (None, e') \<Rightarrow> (None, e')
      | (Some x, e') \<Rightarrow> (case run_all bytes r calls e' of (xs, e'') \<Rightarrow> (map_option ((#) x) xs, e'')))"

definition all_bytes :: "(json \<Rightarrow> usize) \<Rightarrow> tool_result list \<Rightarrow> usize" where
  "all_bytes bytes rs = sum_list (map (output_bytes bytes) rs)"

lemma all_bytes_simps [simp]:
  "all_bytes bytes [] = 0" "all_bytes bytes (x # xs) = output_bytes bytes x + all_bytes bytes xs"
  "all_bytes bytes (xs @ ys) = all_bytes bytes xs + all_bytes bytes ys"
  by (simp_all add: all_bytes_def)

text \<open>What is delivered for a result: the result as long as everything so far fits the limit.\<close>

fun cut_off :: "(json \<Rightarrow> usize) \<Rightarrow> tool_runtime_limits \<Rightarrow> usize \<Rightarrow> tool_result list \<Rightarrow> tool_result list" where
  "cut_off bytes l c [] = []"
| "cut_off bytes l c (x # xs) =
     (let c = c + output_bytes bytes x
      in (if over_cumulative l c then Inl (cumulative_error l c) else x) # cut_off bytes l c xs)"

lemma batch_loop_run_all:
  assumes "length results + length calls \<le> n"
  shows "batch_loop bytes r n calls results c e =
    (case run_all bytes r calls e of
       (None, e') \<Rightarrow> (None, e')
     | (Some xs, e') \<Rightarrow> (Some (results @ cut_off bytes (lr_limits r) c xs), e'))"
  using assms
proof (induction calls arbitrary: results c e)
  case (Cons call calls)
  obtain x e' where x: "lr_execute bytes r call e = (x, e')" by (cases "lr_execute bytes r call e")
  show ?case
  proof (cases x)
    case (Some y)
    obtain xs e2 where xs: "run_all bytes r calls e' = (xs, e2)" by (cases "run_all bytes r calls e'")
    have "length (results @ [z]) + length calls \<le> n" for z using Cons.prems by simp
    note IH = Cons.IH [OF this]
    show ?thesis using Cons.prems x Some xs IH by (cases xs) (simp_all add: Let_def)
  qed (simp add: x)
qed simp

lemma cut_off_bounded:
  assumes "max_cumulative_output_bytes l = Some m"
  shows "all_bytes bytes (cut_off bytes l c xs) \<le> m - c"
proof (induction xs arbitrary: c)
  case (Cons x xs)
  show ?case using Cons.IH [of "c + output_bytes bytes x"] assms
    by (auto simp: Let_def over_cumulative_def output_bytes_def)
qed simp

lemma length_cut_off [simp]: "length (cut_off bytes l c xs) = length xs"
  by (induction xs arbitrary: c) (simp_all add: Let_def)

lemma run_all_length: "run_all bytes r calls e = (Some xs, e') \<Longrightarrow> length xs = length calls"
  by (induction calls arbitrary: e xs) (auto split: prod.splits option.splits)

text \<open>A batch within the call limit runs every one of its calls, in order, even after the outputs have
  exceeded the cumulative limit: the environment afterwards is that of running them all. What is
  delivered is one result per call, with as many output bytes as the limit allows: once the sum of the
  outputs exceeds it, each later result is replaced by an error.\<close>

theorem batch_runs_all_delivers_bounded:
  assumes "length calls \<le> (case max_calls_per_turn (lr_limits r) of Some m \<Rightarrow> m | None \<Rightarrow> usize_max)"
    and "run_all bytes r calls e = (Some xs, e')"
  shows "lr_execute_batch bytes r calls e = (Some (cut_off bytes (lr_limits r) 0 xs), e') \<and>
    length (cut_off bytes (lr_limits r) 0 xs) = length calls \<and>
    (\<forall>m. max_cumulative_output_bytes (lr_limits r) = Some m \<longrightarrow>
       all_bytes bytes (cut_off bytes (lr_limits r) 0 xs) \<le> m)"
proof -
  have "lr_execute_batch bytes r calls e = (Some (cut_off bytes (lr_limits r) 0 xs), e')"
    using batch_loop_run_all [of "[]" calls "length calls" bytes r 0 e] assms
    by (cases calls) (auto simp: lr_execute_batch_def Let_def)
  then show ?thesis using run_all_length [OF assms(2)] cut_off_bounded [of "lr_limits r" _ bytes 0 xs] by simp
qed

lemma batch_runs_all_delivers_bounded_witness:
  "let call = tool_call_new ''1'' ''echo'' (JString ''hello''); ok = Inr (tool_output_new (JString ''hello''))
   in \<exists>err1 err2. lr_execute_batch value_bytes echo_runtime [call, call, call] 0 = (Some [ok, Inl err1, Inl err2], 3)"
proof -
  let ?c = "tool_call_new ''1'' ''echo'' (JString ''hello'')" and ?ok = "Inr (tool_output_new (JString ''hello''))"
  have "run_all value_bytes echo_runtime [?c, ?c, ?c] 0 = (Some [?ok, ?ok, ?ok], 3)"
    by (simp add: tool_call_new_def echo_execute)
  from batch_runs_all_delivers_bounded [OF _ this] show ?thesis
    by (simp add: echo_runtime_def limits_none_def usize_max_def Let_def over_cumulative_def output_bytes_def
        tool_output_new_def value_bytes_def)
qed

section \<open>What a filtered batch answers\<close>

lemma fill_slots_length [simp]: "length (fill_slots ps slots) = length slots"
  by (induction ps slots rule: fill_slots.induct) simp_all

lemma fill_slots_nth:
  "distinct (map fst ps) \<Longrightarrow> j < length slots \<Longrightarrow>
   fill_slots ps slots ! j = (case map_of ps j of Some x \<Rightarrow> Some x | None \<Rightarrow> slots ! j)"
proof (induction ps slots rule: fill_slots.induct)
  case (2 i x ps slots)
  then have "i \<notin> fst ` set ps" by simp
  then have "map_of ps i = None" by (simp add: map_of_eq_None_iff)
  then show ?case using 2 by (auto simp: nth_list_update split: option.splits)
qed simp

lemma flatten_all_some: "\<forall>x\<in>set xs. x \<noteq> None \<Longrightarrow> flatten xs = map the xs"
  by (induction xs) (auto simp: flatten_def)

lemma length_filter_upt: "i \<le> n \<Longrightarrow> length (filter (\<lambda>k. P (xs ! k)) [0..<i]) = length (filter P (take i xs))"
  if "n = length xs" for i n
proof (induction i)
  case (Suc i)
  then show ?case using that by (simp add: take_Suc_conv_app_nth)
qed simp

lemma upt_split: "i < n \<Longrightarrow> [0..<n] = [0..<i] @ i # [Suc i..<n]"
  using upt_add_eq_append [of 0 i "n - i"] upt_conv_Cons [of i n] by simp

lemma filter_upt_nth:
  assumes "P i" and "i < n"
  shows "filter P [0..<n] ! length (filter P [0..<i]) = i"
proof -
  from upt_split [OF assms(2)] have "filter P [0..<n] = filter P [0..<i] @ i # filter P [Suc i..<n]" using assms(1) by simp
  then show ?thesis by simp
qed

lemma map_of_zip_nth:
  assumes "distinct ks" and "length ks = length xs" and "j < length ks"
  shows "map_of (zip ks xs) (ks ! j) = Some (xs ! j)"
  using assms by (auto simp: map_of_eq_Some_iff set_zip)

lemma filled_nth:
  fixes ok calls results
  defines "idx \<equiv> filter (\<lambda>i. ok (calls ! i)) [0..<length calls]"
    and "slots \<equiv> map (\<lambda>c. if ok c then None else Some (not_available c)) calls"
  assumes "length results = length (filter ok calls)" and "i < length calls"
  shows "fill_slots (zip idx results) slots ! i =
    Some (if ok (calls ! i) then results ! length (filter ok (take i calls)) else not_available (calls ! i))"
proof -
  have len: "length idx = length results"
    using length_filter_upt [of "length calls" calls "length calls" ok] assms(3) by (simp add: idx_def)
  have d: "distinct idx" by (simp add: idx_def)
  have "distinct (map fst (zip idx results))" using d len by (simp add: map_fst_zip)
  note nth = fill_slots_nth [OF this, of i slots]
  show ?thesis
  proof (cases "ok (calls ! i)")
    case True
    let ?k = "length (filter ok (take i calls))"
    have k: "?k = length (filter (\<lambda>k. ok (calls ! k)) [0..<i])"
      using length_filter_upt [of "length calls" calls i ok] assms(4) by simp
    have i: "idx ! ?k = i"
      unfolding idx_def k by (rule filter_upt_nth) (use True assms(4) in simp_all)
    have "?k < length idx"
      unfolding k idx_def upt_split [OF assms(4)] using True by simp
    from map_of_zip_nth [OF d len this] i show ?thesis using nth assms(4) True by (simp add: slots_def)
  next
    case False
    then have "i \<notin> set idx" by (simp add: idx_def)
    then have "map_of (zip idx results) i = None" by (auto simp: map_of_eq_None_iff dest: set_zip_leftD)
    then show ?thesis using nth False assms(4) by (simp add: slots_def)
  qed
qed

lemma batch_length:
  assumes "lr_execute_batch bytes r calls e = (Some results, e')"
  shows "length results = length calls"
proof (cases "calls = []")
  case False
  have loop: "length xs = length calls" if "batch_loop bytes r (length calls) calls [] 0 e = (Some xs, e')" for xs
    using that batch_loop_run_all [of "[]" calls "length calls" bytes r 0 e] run_all_length [of bytes r calls e]
    by (auto split: option.splits prod.splits)
  show ?thesis using assms False loop
    by (auto simp: lr_execute_batch_def Let_def split: if_splits)
qed (use assms in \<open>simp add: lr_execute_batch_def\<close>)

text \<open>A filtered batch answers every call in its own position: a call of a tool that the filter does not
  allow with the error that it is not available, an allowed one with its result in the batch of the
  allowed calls alone, which is all that is executed.\<close>

theorem filtered_batch_positions:
  assumes "lr_execute_batch bytes r (filter (\<lambda>c. filter_allows f (tc_name c)) calls) e = (Some results, e')"
  shows "filtered_execute_batch bytes r f calls e =
    (Some (map (\<lambda>i. if filter_allows f (tc_name (calls ! i))
         then results ! length (filter (\<lambda>c. filter_allows f (tc_name c)) (take i calls))
         else not_available (calls ! i)) [0..<length calls]), e')"
proof -
  let ?ok = "\<lambda>c. filter_allows f (tc_name c)"
  let ?idx = "filter (\<lambda>i. ?ok (calls ! i)) [0..<length calls]"
  let ?slots = "map (\<lambda>c. if ?ok c then None else Some (not_available c)) calls"
  let ?f = "\<lambda>i. if ?ok (calls ! i) then results ! length (filter ?ok (take i calls)) else not_available (calls ! i)"
  have len: "length results = length (filter ?ok calls)" by (rule batch_length [OF assms])
  have "fill_slots (zip ?idx results) ?slots = map (\<lambda>i. Some (?f i)) [0..<length calls]"
    by (rule nth_equalityI) (simp_all add: filled_nth [OF len])
  then have filled: "flatten (fill_slots (zip ?idx results) ?slots) = map ?f [0..<length calls]"
    by (simp add: flatten_all_some o_def)
  show ?thesis
  proof (cases "filter ?ok calls = []")
    case True
    then have "results = []" "e' = e" using assms by (simp_all add: lr_execute_batch_def)
    then show ?thesis using filled True by (simp add: filtered_execute_batch_def)
  next
    case False
    then show ?thesis using filled assms by (simp add: filtered_execute_batch_def)
  qed
qed

lemma echo_limits:
  "max_calls_per_turn (lr_limits echo_runtime) = None" "max_cumulative_output_bytes (lr_limits echo_runtime) = Some 8"
  by (simp_all add: echo_runtime_def limits_none_def)

lemma filtered_batch_positions_witness:
  "let echo = tool_call_new ''1'' ''echo'' (JString ''hello''); sh = tool_call_new ''2'' ''sh'' JNull
   in filtered_execute_batch value_bytes echo_runtime (deny [''sh'']) [sh, echo] 0 =
      (Some [not_available sh, Inr (tool_output_new (JString ''hello''))], 1)"
proof -
  let ?echo = "tool_call_new ''1'' ''echo'' (JString ''hello'')" and ?sh = "tool_call_new ''2'' ''sh'' JNull"
  have ok: "filter_allows (deny [''sh'']) ''echo''" "\<not> filter_allows (deny [''sh'']) ''sh''"
    by (simp_all add: filter_allows_def deny_def)
  have "lr_execute_batch value_bytes echo_runtime (filter (\<lambda>c. filter_allows (deny [''sh'']) (tc_name c)) [?sh, ?echo]) 0 =
      (Some [Inr (tool_output_new (JString ''hello''))], 1)"
    by (simp add: ok lr_execute_batch_def tool_call_new_def echo_execute echo_limits over_cumulative_def
        output_bytes_def tool_output_new_def value_bytes_def usize_max_def)
  from filtered_batch_positions [OF this] show ?thesis by (simp add: ok Let_def upt_rec)
qed

end
