(* ===== verification/Tool_Execution.thy ===== *)
theory Tool_Execution
  imports Tool_Registry Agent_Runtime Store_Records
begin

text \<open>
  The tool runtime of the agent runtime (\<open>behest-runtime/src/tool_runtime.rs\<close>): validation, timeouts,
  the concurrent and the exclusive group of a batch, and recording. Schema validation (the \<open>jsonschema\<close>
  crate), the printing of JSON values, identifiers, the clock, the file that keeps a truncated output and
  the execution store are operations on the environment. The tools of the concurrent group run in the
  order \<open>schedule\<close> picks, any permutation, each as one step: interleavings within an execution are not
  modelled, and neither are the permits of the semaphore, which only delay a tool.
\<close>

section \<open>Printing a duration\<close>

text \<open>\<open>{:?}\<close> of a \<open>Duration\<close> in nanoseconds: at most nine decimals, without trailing zeros.\<close>

fun decimals :: "nat \<Rightarrow> nat \<Rightarrow> nat \<Rightarrow> string" where
  "decimals 0 frac divisor = []"
| "decimals (Suc k) frac divisor =
     (if frac = 0 then [] else show_nat (frac div divisor) @ decimals k (frac mod divisor) (divisor div 10))"

definition fmt_decimal :: "nat \<Rightarrow> nat \<Rightarrow> nat \<Rightarrow> string \<Rightarrow> string" where
  "fmt_decimal whole frac divisor unit =
     show_nat whole @ (if frac = 0 then [] else ''.'' @ decimals 9 frac divisor) @ unit"

definition debug_duration :: "duration \<Rightarrow> string" where
  "debug_duration d =
     (let secs = d div 1000000000; nanos = d mod 1000000000
      in if secs > 0 then fmt_decimal secs nanos 100000000 ''s''
         else if nanos \<ge> 1000000 then fmt_decimal (nanos div 1000000) (nanos mod 1000000) 100000 ''ms''
         else if nanos \<ge> 1000 then fmt_decimal (nanos div 1000) (nanos mod 1000) 100 [CHR 0xC2, CHR 0xB5, CHR ''s'']
         else fmt_decimal nanos 0 1 ''ns'')"

section \<open>The runtime\<close>

record 'e tool_services =
  tv_evaluate :: "json \<Rightarrow> json \<Rightarrow> bool \<times> string list"
  tv_print :: "json \<Rightarrow> string"
  tv_join :: "string \<Rightarrow> string \<Rightarrow> string"
  tv_write :: "string \<Rightarrow> string \<Rightarrow> string \<Rightarrow> 'e \<Rightarrow> bool \<times> 'e"
  tv_uuid :: "'e \<Rightarrow> uuid \<times> 'e"
  tv_clock :: "'e \<Rightarrow> timestamp \<times> 'e"
  tv_store :: "(tool_execution \<Rightarrow> 'e \<Rightarrow> (storage_error + tool_execution) \<times> 'e) option"
  tv_schedule :: "(nat \<times> tool_call) list \<Rightarrow> (nat \<times> tool_call) list"

record 'e tool_runtime =
  tr_registry :: "'e scoped_registry"
  tr_policy :: runtime_policy
  tr_permits :: usize

definition tool_runtime_new :: "'e tools \<Rightarrow> runtime_policy \<Rightarrow> 'e tool_runtime" where
  "tool_runtime_new registry policy =
     (let policy = policy\<lparr>max_tool_concurrency := max (max_tool_concurrency policy) 1\<rparr>
      in \<lparr>tr_registry = scoped_new registry, tr_policy = policy, tr_permits = max_tool_concurrency policy\<rparr>)"

definition register_tool :: "'e tool \<Rightarrow> 'e tool_runtime \<Rightarrow> 'e tool option \<times> 'e tool_runtime" where
  "register_tool t rt =
     (case tools_register t (sr_base (tr_registry rt)) of
        (old, base) \<Rightarrow> (old, rt\<lparr>tr_registry := (tr_registry rt)\<lparr>sr_base := base\<rparr>\<rparr>))"

definition unregister_tool :: "string \<Rightarrow> 'e tool_runtime \<Rightarrow> 'e tool option \<times> 'e tool_runtime" where
  "unregister_tool n rt =
     (case unregister_from_base n (tr_registry rt) of (old, r) \<Rightarrow> (old, rt\<lparr>tr_registry := r\<rparr>))"

section \<open>One call\<close>

fun is_object :: "json \<Rightarrow> bool" where
  "is_object (JObject _) = True"
| "is_object _ = False"

definition validate_arguments :: "'e tool_services \<Rightarrow> json \<Rightarrow> json \<Rightarrow> string + unit" where
  "validate_arguments tv schema args =
     (if schema = JNull \<or> \<not> is_object schema then Inr ()
      else case tv_evaluate tv schema args of
        (True, _) \<Rightarrow> Inr ()
      | (False, errors) \<Rightarrow> Inl (''validation errors: '' @ str_join ''; '' errors))"

definition error_message :: "tool_call \<Rightarrow> string \<Rightarrow> message" where
  "error_message call text =
     tool_text (tc_id call) (tc_name call) (CHR ''{'' # [CHR 0x22] @ ''error'' @ [CHR 0x22] @ '':'' @ [CHR 0x22] @ text @ [CHR 0x22, CHR ''}''])"

text \<open>An error that the policy lets the batch continue with, or that ends it.\<close>

definition fail_call ::
  "bool \<Rightarrow> tool_call \<Rightarrow> runtime_error \<Rightarrow> tool_error \<Rightarrow> string \<Rightarrow> runtime_error + tool_execution_outcome" where
  "fail_call continue call stop err text =
     (if \<not> continue then Inl stop
      else Inr \<lparr>teo_call = call, teo_output = Inl err, teo_message = error_message call text\<rparr>)"

definition save_output :: "'e tool_services \<Rightarrow> tool_output_config \<Rightarrow> string \<Rightarrow> string \<Rightarrow> 'e \<Rightarrow> truncation_result \<times> 'e" where
  "save_output tv cfg name raw e =
     (let fits = \<not> was_truncated (truncate_output (tv_join tv) False raw cfg (Some name))
      in case to_output_dir cfg of
           Some dir \<Rightarrow>
             if fits then (truncate_output (tv_join tv) False raw cfg (Some name), e)
             else (case tv_write tv dir (tool_file (tv_join tv) dir name) raw e of
                     (ok, e') \<Rightarrow> (truncate_output (tv_join tv) ok raw cfg (Some name), e'))
         | None \<Rightarrow> (truncate_output (tv_join tv) False raw cfg (Some name), e))"

definition execute_single ::
  "'e tool_services \<Rightarrow> 'e scoped_registry \<Rightarrow> tool_call \<Rightarrow> duration \<Rightarrow> bool \<Rightarrow> tool_output_config \<Rightarrow> 'e \<Rightarrow>
   (runtime_error + tool_execution_outcome) \<times> 'e" where
  "execute_single tv registry call limit continue cfg e =
     (case scoped_get registry (tc_name call) of
        None \<Rightarrow>
          (let err = ToolNotFound (tc_name call)
           in (fail_call continue call (ToolErr err) err (''tool not found: '' @ tc_name call), e))
      | Some t \<Rightarrow>
     (case validate_arguments tv (tl_parameters_schema t) (tc_arguments call) of
        Inl m \<Rightarrow>
          (let err = InvalidArguments (tc_name call) m in (fail_call continue call (ToolErr err) err m, e))
      | Inr _ \<Rightarrow>
     (case tl_execute t (Some limit) (tc_arguments call) e of
        (Some (Inr out), e1) \<Rightarrow>
          (case save_output tv cfg (tc_name call) (tv_print tv (to_value out)) e1 of
             (truncated, e2) \<Rightarrow>
               (Inr \<lparr>teo_call = call, teo_output = Inr (to_value out),
                     teo_message = tool_text (tc_id call) (tc_name call) (trunc_text truncated)\<rparr>, e2))
      | (Some (Inl err), e1) \<Rightarrow> (fail_call continue call (ToolErr err) err (show_tool_error err), e1)
      | (None, e1) \<Rightarrow>
          (let m = ''tool execution timeout after '' @ debug_duration limit
           in (fail_call continue call (ToolTimeout (tc_name call)) (ToolExecution (tc_name call) m) m, e1)))))"

definition record_outcome ::
  "'e tool_services \<Rightarrow> uuid \<Rightarrow> uuid \<Rightarrow> tool_call \<Rightarrow> tool_execution_outcome \<Rightarrow> 'e \<Rightarrow> 'e" where
  "record_outcome tv sid mid call oc e =
     (case tv_store tv of
        None \<Rightarrow> e
      | Some store \<Rightarrow>
          (case tv_uuid tv e of (i, e1) \<Rightarrow>
          (case tv_clock tv e1 of (now, e2) \<Rightarrow>
             let x = tool_execution_new i now sid mid (tc_id call) (tc_name call) (tc_arguments call);
                 x = (case teo_output oc of
                        Inr v \<Rightarrow> tx_with_success x v 0
                      | Inl err \<Rightarrow> tx_with_failure x (show_tool_error err) 0)
             in snd (store x e2))))"

section \<open>A batch\<close>

definition run_call :: "'e tool_services \<Rightarrow> 'e tool_runtime \<Rightarrow> tool_call \<Rightarrow> 'e \<Rightarrow> (runtime_error + tool_execution_outcome) \<times> 'e" where
  "run_call tv rt call =
     execute_single tv (tr_registry rt) call (tool_timeout (tr_policy rt))
       (continue_on_tool_failure (tr_policy rt)) (rp_tool_output (tr_policy rt))"

text \<open>The concurrent group: all of it runs, whatever fails; the results wait under their indices.\<close>

fun run_concurrent ::
  "'e tool_services \<Rightarrow> 'e tool_runtime \<Rightarrow> (nat \<times> tool_call) list \<Rightarrow>
   (nat, runtime_error + tool_execution_outcome) map \<Rightarrow> 'e \<Rightarrow>
   (nat, runtime_error + tool_execution_outcome) map \<times> 'e" where
  "run_concurrent tv rt [] out e = (out, e)"
| "run_concurrent tv rt ((i, call) # rest) out e =
     (case run_call tv rt call e of (res, e') \<Rightarrow> run_concurrent tv rt rest (out(i \<mapsto> res)) e')"

fun collect_concurrent ::
  "'e tool_services \<Rightarrow> uuid \<Rightarrow> uuid \<Rightarrow> (nat, runtime_error + tool_execution_outcome) map \<Rightarrow>
   (nat \<times> tool_call) list \<Rightarrow> tool_execution_outcome option list \<Rightarrow> 'e \<Rightarrow>
   (runtime_error + tool_execution_outcome option list) \<times> 'e" where
  "collect_concurrent tv sid mid out [] slots e = (Inr slots, e)"
| "collect_concurrent tv sid mid out ((i, call) # rest) slots e =
     (case out i of
        Some (Inr oc) \<Rightarrow>
          collect_concurrent tv sid mid out rest (slots[i := Some oc])
            (record_outcome tv sid mid (teo_call oc) oc e)
      | Some (Inl err) \<Rightarrow> (Inl err, e)
      | None \<Rightarrow> collect_concurrent tv sid mid out rest slots e)"

fun run_exclusive ::
  "'e tool_services \<Rightarrow> 'e tool_runtime \<Rightarrow> uuid \<Rightarrow> uuid \<Rightarrow> (nat \<times> tool_call) list \<Rightarrow>
   tool_execution_outcome option list \<Rightarrow> 'e \<Rightarrow> (runtime_error + tool_execution_outcome option list) \<times> 'e" where
  "run_exclusive tv rt sid mid [] slots e = (Inr slots, e)"
| "run_exclusive tv rt sid mid ((i, call) # rest) slots e =
     (case run_call tv rt call e of
        (Inl err, e') \<Rightarrow> (Inl err, e')
      | (Inr oc, e') \<Rightarrow>
          run_exclusive tv rt sid mid rest (slots[i := Some oc]) (record_outcome tv sid mid call oc e'))"

definition runs_concurrently :: "'e tool_runtime \<Rightarrow> tool_call \<Rightarrow> bool" where
  "runs_concurrently rt call =
     (case scoped_get (tr_registry rt) (tc_name call) of Some t \<Rightarrow> tl_concurrency_safe t | None \<Rightarrow> False)"

text \<open>\<open>None\<close>: the \<open>unreachable!\<close> of a slot that was never filled.\<close>

definition execute_batch ::
  "'e tool_services \<Rightarrow> 'e tool_runtime \<Rightarrow> tool_call list \<Rightarrow> uuid \<Rightarrow> uuid \<Rightarrow> 'e \<Rightarrow>
   (runtime_error + tool_execution_outcome list) option \<times> 'e" where
  "execute_batch tv rt calls sid mid e =
     (if calls = [] then (Some (Inr []), e)
      else let indexed = zip [0..<length calls] calls;
               concurrent = filter (runs_concurrently rt \<circ> snd) indexed;
               exclusive = filter (Not \<circ> runs_concurrently rt \<circ> snd) indexed;
               slots = replicate (length calls) None
      in case run_concurrent tv rt (tv_schedule tv concurrent) Map.empty e of (out, e1) \<Rightarrow>
        (case collect_concurrent tv sid mid out concurrent slots e1 of
           (Inl err, e2) \<Rightarrow> (Some (Inl err), e2)
         | (Inr slots, e2) \<Rightarrow>
        (case run_exclusive tv rt sid mid exclusive slots e2 of
           (Inl err, e3) \<Rightarrow> (Some (Inl err), e3)
         | (Inr slots, e3) \<Rightarrow>
             (if None \<in> set slots then None else Some (Inr (map the slots)), e3))))"

section \<open>What a batch answers\<close>

definition answers :: "tool_call \<Rightarrow> tool_execution_outcome \<Rightarrow> bool" where
  "answers call oc \<longleftrightarrow> teo_call oc = call \<and> (\<exists>t. teo_message oc = tool_text (tc_id call) (tc_name call) t)"

definition fair_schedule :: "'e tool_services \<Rightarrow> bool" where
  "fair_schedule tv \<longleftrightarrow> (\<forall>xs. mset (tv_schedule tv xs) = mset xs)"

lemma fail_call_answers: "fail_call c call stop err m = Inr oc \<Longrightarrow> answers call oc"
  by (auto simp: fail_call_def answers_def error_message_def split: if_splits)

lemma run_call_answers: "run_call tv rt call e = (Inr oc, e') \<Longrightarrow> answers call oc"
  by (auto simp: run_call_def execute_single_def Let_def answers_def error_message_def fail_call_def
      split: option.splits sum.splits prod.splits if_splits)

lemma run_call_continues:
  "continue_on_tool_failure (tr_policy rt) \<Longrightarrow> \<exists>oc. fst (run_call tv rt call e) = Inr oc"
  by (auto simp: run_call_def execute_single_def Let_def fail_call_def
      split: option.splits sum.splits prod.splits)

text \<open>Each result of the concurrent group is that of running its call somewhere.\<close>

lemma run_concurrent_spec:
  assumes "run_concurrent tv rt xs out e = (out', e')" and "distinct (map fst xs)"
  shows "(\<forall>(i, call)\<in>set xs. \<exists>e1. out' i = Some (fst (run_call tv rt call e1))) \<and>
    (\<forall>i. i \<notin> fst ` set xs \<longrightarrow> out' i = out i) \<and>
    e' = fold (\<lambda>call e. snd (run_call tv rt call e)) (map snd xs) e"
  using assms
proof (induction xs arbitrary: out e)
  case (Cons x xs)
  obtain i call where x: "x = (i, call)" by (cases x)
  obtain res e1 where r: "run_call tv rt call e = (res, e1)" by (cases "run_call tv rt call e")
  have run: "run_concurrent tv rt xs (out(i \<mapsto> res)) e1 = (out', e')" using Cons.prems(1) by (simp add: x r)
  have d: "distinct (map fst xs)" and i: "i \<notin> fst ` set xs" using Cons.prems(2) by (simp_all add: x)
  from run d have IH: "(\<forall>(i, call)\<in>set xs. \<exists>e1. out' i = Some (fst (run_call tv rt call e1))) \<and>
    (\<forall>j. j \<notin> fst ` set xs \<longrightarrow> out' j = (out(i \<mapsto> res)) j) \<and>
    e' = fold (\<lambda>call e. snd (run_call tv rt call e)) (map snd xs) e1" by (rule Cons.IH)
  then have "out' i = Some (fst (run_call tv rt call e))" using i r by simp
  then have "\<exists>e1. out' i = Some (fst (run_call tv rt call e1))" by blast
  then show ?case using IH r by (auto simp: x)
qed simp

text \<open>The slots filled so far answer their calls.\<close>

definition slots_ok :: "tool_call list \<Rightarrow> nat set \<Rightarrow> tool_execution_outcome option list \<Rightarrow> bool" where
  "slots_ok calls filled slots \<longleftrightarrow> length slots = length calls \<and>
     (\<forall>i<length calls. case slots ! i of Some oc \<Rightarrow> answers (calls ! i) oc | None \<Rightarrow> i \<notin> filled)"

lemma slots_ok_update:
  "slots_ok calls D slots \<Longrightarrow> i < length calls \<Longrightarrow> answers (calls ! i) oc \<Longrightarrow>
   slots_ok calls (insert i D) (slots[i := Some oc])"
  by (auto simp: slots_ok_def nth_list_update split: option.splits)

definition placed :: "tool_call list \<Rightarrow> (nat \<times> tool_call) list \<Rightarrow> bool" where
  "placed calls xs \<longleftrightarrow> (\<forall>(i, call)\<in>set xs. i < length calls \<and> calls ! i = call)"

lemma collect_spec:
  assumes "placed calls xs" and "slots_ok calls D slots"
    and "\<forall>(i, call)\<in>set xs. \<exists>e1. out i = Some (fst (run_call tv rt call e1))"
  shows "(case fst (collect_concurrent tv sid mid out xs slots e) of
      Inr slots' \<Rightarrow> slots_ok calls (D \<union> fst ` set xs) slots'
    | Inl err \<Rightarrow> \<not> continue_on_tool_failure (tr_policy rt)) \<and>
    (tv_store tv = None \<longrightarrow> snd (collect_concurrent tv sid mid out xs slots e) = e)"
  using assms
proof (induction xs arbitrary: slots e D)
  case (Cons x xs)
  obtain i call where x: "x = (i, call)" by (cases x)
  obtain e1 where o: "out i = Some (fst (run_call tv rt call e1))" using Cons.prems(3) x by auto
  have i: "i < length calls" "calls ! i = call" using Cons.prems(1) x by (auto simp: placed_def)
  have rest: "placed calls xs" "\<forall>(i, call)\<in>set xs. \<exists>e1. out i = Some (fst (run_call tv rt call e1))"
    using Cons.prems by (auto simp: placed_def)
  show ?case
  proof (cases "fst (run_call tv rt call e1)")
    case (Inl err)
    then have "\<not> continue_on_tool_failure (tr_policy rt)" using run_call_continues [of rt tv call e1] by auto
    then show ?thesis using o Inl by (simp add: x)
  next
    case (Inr oc)
    then have "answers (calls ! i) oc" using run_call_answers [of tv rt call e1 oc] i(2) by (metis prod.collapse)
    note IH = Cons.IH [OF rest(1) slots_ok_update [OF Cons.prems(2) i(1) this] rest(2)]
    show ?thesis using IH [of "record_outcome tv sid mid (teo_call oc) oc e"] o Inr
      by (auto simp: x record_outcome_def split: sum.splits)
  qed
qed simp

lemma exclusive_spec:
  assumes "placed calls xs" and "slots_ok calls D slots"
  shows "(case fst (run_exclusive tv rt sid mid xs slots e) of
      Inr slots' \<Rightarrow> slots_ok calls (D \<union> fst ` set xs) slots'
    | Inl err \<Rightarrow> \<not> continue_on_tool_failure (tr_policy rt)) \<and>
    (tv_store tv = None \<longrightarrow> (\<exists>k\<le>length xs.
       snd (run_exclusive tv rt sid mid xs slots e) =
         fold (\<lambda>call e. snd (run_call tv rt call e)) (take k (map snd xs)) e \<and>
       (isl (fst (run_exclusive tv rt sid mid xs slots e)) \<or> k = length xs)))"
  using assms
proof (induction xs arbitrary: slots e D)
  case (Cons x xs)
  obtain i call where x: "x = (i, call)" by (cases x)
  obtain res e1 where r: "run_call tv rt call e = (res, e1)" by (cases "run_call tv rt call e")
  have i: "i < length calls" "calls ! i = call" and rest: "placed calls xs"
    using Cons.prems(1) x by (auto simp: placed_def)
  show ?case
  proof (cases res)
    case (Inl err)
    then have "\<not> continue_on_tool_failure (tr_policy rt)" using run_call_continues [of rt tv call e] r by auto
    then show ?thesis using r Inl by (auto simp: x intro!: exI [of _ 1])
  next
    case (Inr oc)
    then have "answers (calls ! i) oc" using run_call_answers [of tv rt call e oc e1] i(2) r by simp
    note IH = Cons.IH [OF rest slots_ok_update [OF Cons.prems(2) i(1) this], of "record_outcome tv sid mid call oc e1"]
    have st: "tv_store tv = None \<Longrightarrow> record_outcome tv sid mid call oc e1 = e1" by (simp add: record_outcome_def)
    have "\<exists>k\<le>length (x # xs).
        snd (run_exclusive tv rt sid mid (x # xs) slots e) =
          fold (\<lambda>call e. snd (run_call tv rt call e)) (take k (map snd (x # xs))) e \<and>
        (isl (fst (run_exclusive tv rt sid mid (x # xs) slots e)) \<or> k = length (x # xs))" if n: "tv_store tv = None"
    proof -
      obtain k where "k \<le> length xs"
        "snd (run_exclusive tv rt sid mid xs (slots[i := Some oc]) e1) =
           fold (\<lambda>call e. snd (run_call tv rt call e)) (take k (map snd xs)) e1"
        "isl (fst (run_exclusive tv rt sid mid xs (slots[i := Some oc]) e1)) \<or> k = length xs"
        using IH n st [OF n] by auto
      then show ?thesis using r Inr st [OF n] by (intro exI [of _ "Suc k"]) (simp add: x)
    qed
    then show ?thesis using IH r Inr by (auto simp: x split: sum.splits)
  qed
qed simp

definition indexed :: "tool_call list \<Rightarrow> (nat \<times> tool_call) list" where
  "indexed calls = zip [0..<length calls] calls"

lemma indexed_placed: "placed calls (filter P (indexed calls))" "distinct (map fst (filter P (indexed calls)))"
proof -
  have "distinct (map fst (indexed calls))" by (simp add: indexed_def map_fst_zip)
  then show "distinct (map fst (filter P (indexed calls)))" by (rule distinct_map_filter)
qed (auto simp: placed_def indexed_def set_zip)

lemma indexed_calls: "map snd (filter (Q \<circ> snd) (indexed calls)) = filter Q calls"
proof -
  have "map snd (indexed calls) = calls" by (simp add: indexed_def map_snd_zip)
  then show ?thesis by (metis filter_map)
qed

lemma indexed_all:
  "fst ` set (filter P (indexed calls)) \<union> fst ` set (filter (Not \<circ> P) (indexed calls)) = {0..<length calls}"
proof -
  have "map fst (indexed calls) = [0..<length calls]" by (simp add: indexed_def map_fst_zip)
  then have "fst ` set (indexed calls) = {0..<length calls}" by (metis list.set_map set_upt)
  then show ?thesis by auto
qed

lemma slots_ok_full:
  assumes "slots_ok calls {0..<length calls} slots"
  shows "None \<notin> set slots" and "\<forall>i<length calls. answers (calls ! i) (map the slots ! i)"
    and "length (map the slots) = length calls"
proof -
  have some: "\<exists>oc. slots ! i = Some oc \<and> answers (calls ! i) oc" if "i < length calls" for i
    using assms that by (cases "slots ! i") (auto simp: slots_ok_def split: option.splits)
  show len: "length (map the slots) = length calls" using assms by (simp add: slots_ok_def)
  show "None \<notin> set slots" using some len by (auto simp: in_set_conv_nth)
  show "\<forall>i<length calls. answers (calls ! i) (map the slots ! i)" using some len by fastforce
qed

definition concurrent_group :: "'e tool_runtime \<Rightarrow> tool_call list \<Rightarrow> (nat \<times> tool_call) list" where
  "concurrent_group rt calls = filter (runs_concurrently rt \<circ> snd) (indexed calls)"

definition exclusive_group :: "'e tool_runtime \<Rightarrow> tool_call list \<Rightarrow> (nat \<times> tool_call) list" where
  "exclusive_group rt calls = filter (Not \<circ> (runs_concurrently rt \<circ> snd)) (indexed calls)"

abbreviation run_calls :: "'e tool_services \<Rightarrow> 'e tool_runtime \<Rightarrow> tool_call list \<Rightarrow> 'e \<Rightarrow> 'e" where
  "run_calls tv rt calls e \<equiv> fold (\<lambda>call e. snd (run_call tv rt call e)) calls e"

definition concurrent_phase ::
  "'e tool_services \<Rightarrow> 'e tool_runtime \<Rightarrow> tool_call list \<Rightarrow> uuid \<Rightarrow> uuid \<Rightarrow> 'e \<Rightarrow>
   (runtime_error + tool_execution_outcome option list) \<times> 'e" where
  "concurrent_phase tv rt calls sid mid e =
     (case run_concurrent tv rt (tv_schedule tv (concurrent_group rt calls)) Map.empty e of
        (out, e1) \<Rightarrow> collect_concurrent tv sid mid out (concurrent_group rt calls) (replicate (length calls) None) e1)"

lemma batch_phases:
  assumes "calls \<noteq> []"
  shows "execute_batch tv rt calls sid mid e =
    (case concurrent_phase tv rt calls sid mid e of
       (Inl err, e2) \<Rightarrow> (Some (Inl err), e2)
     | (Inr slots, e2) \<Rightarrow>
    (case run_exclusive tv rt sid mid (exclusive_group rt calls) slots e2 of
       (Inl err, e3) \<Rightarrow> (Some (Inl err), e3)
     | (Inr slots, e3) \<Rightarrow> (if None \<in> set slots then None else Some (Inr (map the slots)), e3)))"
  using assms
  unfolding concurrent_phase_def concurrent_group_def exclusive_group_def execute_batch_def Let_def indexed_def o_assoc
  by (simp split: prod.splits)

lemma group_facts:
  "placed calls (concurrent_group rt calls)" "placed calls (exclusive_group rt calls)"
  "map snd (concurrent_group rt calls) = filter (runs_concurrently rt) calls"
  "map snd (exclusive_group rt calls) = filter (Not \<circ> runs_concurrently rt) calls"
  "fst ` set (concurrent_group rt calls) \<union> fst ` set (exclusive_group rt calls) = {0..<length calls}"
  using indexed_placed [where calls = calls] indexed_calls [of "runs_concurrently rt" calls]
    indexed_calls [of "Not \<circ> runs_concurrently rt" calls] indexed_all [of "runs_concurrently rt \<circ> snd" calls]
  by (simp_all add: concurrent_group_def exclusive_group_def o_assoc)

lemma concurrent_phase_spec:
  assumes "fair_schedule tv" and "concurrent_phase tv rt calls sid mid e = (cres, e2)"
  shows "(case cres of
      Inr slots \<Rightarrow> slots_ok calls (fst ` set (concurrent_group rt calls)) slots
    | Inl err \<Rightarrow> \<not> continue_on_tool_failure (tr_policy rt)) \<and>
    (tv_store tv = None \<longrightarrow> (\<exists>order.
       mset order = mset (filter (runs_concurrently rt) calls) \<and> e2 = run_calls tv rt order e))"
proof -
  let ?conc = "concurrent_group rt calls"
  have perm: "mset (tv_schedule tv ?conc) = mset ?conc" using assms(1) by (simp add: fair_schedule_def)
  obtain out e1 where c: "run_concurrent tv rt (tv_schedule tv ?conc) Map.empty e = (out, e1)"
    by (cases "run_concurrent tv rt (tv_schedule tv ?conc) Map.empty e")
  have "distinct (map fst ?conc)" unfolding concurrent_group_def by (rule indexed_placed(2))
  then have "distinct (map fst (tv_schedule tv ?conc))"
    using perm by (metis mset_eq_imp_distinct_iff mset_map)
  from run_concurrent_spec [OF c this]
  have out: "\<forall>(i, call)\<in>set ?conc. \<exists>e1. out i = Some (fst (run_call tv rt call e1))"
    and e1: "e1 = run_calls tv rt (map snd (tv_schedule tv ?conc)) e"
    using mset_eq_setD [OF perm] by auto
  have order: "mset (map snd (tv_schedule tv ?conc)) = mset (filter (runs_concurrently rt) calls)"
    using perm group_facts(3) by (metis mset_map)
  have "slots_ok calls {} (replicate (length calls) None)" by (simp add: slots_ok_def)
  note coll = collect_spec [OF group_facts(1) this out, of sid mid e1]
  have "collect_concurrent tv sid mid out ?conc (replicate (length calls) None) e1 = (cres, e2)"
    using assms(2) c by (simp add: concurrent_phase_def)
  then have "case cres of Inr slots \<Rightarrow> slots_ok calls (fst ` set ?conc) slots
      | Inl err \<Rightarrow> \<not> continue_on_tool_failure (tr_policy rt)" and "tv_store tv = None \<longrightarrow> e2 = e1"
    using coll by (auto split: sum.splits)
  then show ?thesis using order e1 by blast
qed

lemma batch_spec:
  assumes "fair_schedule tv" and "execute_batch tv rt calls sid mid e = (res, e')"
  shows "(case res of
      None \<Rightarrow> False
    | Some (Inl err) \<Rightarrow> \<not> continue_on_tool_failure (tr_policy rt)
    | Some (Inr outs) \<Rightarrow> length outs = length calls \<and> (\<forall>i<length calls. answers (calls ! i) (outs ! i))) \<and>
    (tv_store tv = None \<longrightarrow> (\<exists>order k.
       mset order = mset (filter (runs_concurrently rt) calls) \<and>
       e' = run_calls tv rt (order @ take k (filter (Not \<circ> runs_concurrently rt) calls)) e \<and>
       ((\<exists>err. res = Some (Inl err)) \<or> length calls \<le> k)))"
proof (cases "calls = []")
  case True
  then show ?thesis using assms(2) by (auto simp: execute_batch_def)
next
  case False
  let ?Q = "Not \<circ> runs_concurrently rt"
  obtain cres e2 where c: "concurrent_phase tv rt calls sid mid e = (cres, e2)"
    by (cases "concurrent_phase tv rt calls sid mid e")
  note conc = concurrent_phase_spec [OF assms(1) c]
  show ?thesis
  proof (cases cres)
    case (Inl err)
    then have r: "res = Some (Inl err)" "e' = e2" using assms(2) batch_phases [OF False, of tv rt sid mid e] c by simp_all
    then have "\<exists>order k. mset order = mset (filter (runs_concurrently rt) calls) \<and>
        e' = run_calls tv rt (order @ take k (filter ?Q calls)) e" if "tv_store tv = None"
      using conc that by (metis append_Nil2 take0)
    then show ?thesis using conc Inl r(1) by auto
  next
    case (Inr slots)
    then have ok: "slots_ok calls (fst ` set (concurrent_group rt calls)) slots" using conc by simp
    note ex = exclusive_spec [where rt = rt and tv = tv and sid = sid and mid = mid and e = e2, OF group_facts(2) [where rt = rt] ok,
      unfolded group_facts(4)]
    obtain xres e3 where x: "run_exclusive tv rt sid mid (exclusive_group rt calls) slots e2 = (xres, e3)"
      by (cases "run_exclusive tv rt sid mid (exclusive_group rt calls) slots e2")
    note run = assms(2) [unfolded batch_phases [OF False], unfolded c Inr, simplified, unfolded x, simplified]
    have e': "e' = e3" using run by (auto split: sum.splits)
    have "\<exists>order k. mset order = mset (filter (runs_concurrently rt) calls) \<and>
        e' = run_calls tv rt (order @ take k (filter ?Q calls)) e \<and> (isl xres \<or> length calls \<le> k)"
      if n: "tv_store tv = None"
    proof -
      have len: "length (exclusive_group rt calls) = length (filter ?Q calls)"
        by (metis group_facts(4) length_map)
      obtain order where o: "mset order = mset (filter (runs_concurrently rt) calls)" "e2 = run_calls tv rt order e"
        using conc n by blast
      obtain k where "e3 = run_calls tv rt (take k (filter ?Q calls)) e2"
        "isl xres \<or> k = length (exclusive_group rt calls)" using ex n x by auto
      then have "e' = run_calls tv rt (order @ take (if isl xres then k else length calls) (filter ?Q calls)) e"
        using e' o(2) len by (cases "isl xres") auto
      moreover have "isl xres \<or> length calls \<le> (if isl xres then k else length calls)" by simp
      ultimately show ?thesis using o(1) by blast
    qed
    then show ?thesis using run ex x slots_ok_full [of calls] group_facts(5) [of rt calls]
      by (cases xres) auto
  qed
qed

text \<open>C28: A batch never reaches its \<open>unreachable!\<close>: it answers every call, in the order of the calls, with an
  outcome that names the call and a tool message under its id and name; it fails only when the policy
  says not to continue after a failure.\<close>

theorem batch_answers_calls:
  assumes "fair_schedule tv"
  shows "case fst (execute_batch tv rt calls sid mid e) of
      None \<Rightarrow> False
    | Some (Inl err) \<Rightarrow> \<not> continue_on_tool_failure (tr_policy rt)
    | Some (Inr outs) \<Rightarrow> length outs = length calls \<and> (\<forall>i<length calls. answers (calls ! i) (outs ! i))"
  by (rule conjunct1 [OF batch_spec [OF assms prod.collapse [symmetric]]])

text \<open>Without a store to record into, a batch runs the calls of the concurrency-safe tools, each exactly once
  and in any order, and all of them even when one fails; only then the other calls, one after the other
  in their order, each once, stopping at the first error that ends the batch.\<close>

theorem batch_runs_exclusives_last:
  assumes "fair_schedule tv" and "tv_store tv = None"
    and "execute_batch tv rt calls sid mid e = (res, e')"
  shows "\<exists>order k. mset order = mset (filter (runs_concurrently rt) calls) \<and>
    e' = run_calls tv rt (order @ take k (filter (Not \<circ> runs_concurrently rt) calls)) e \<and>
    ((\<exists>err. res = Some (Inl err)) \<or> length calls \<le> k)"
  using batch_spec [OF assms(1,3)] assms(2) by blast

definition plain_services :: "'e tool_services" where
  "plain_services = \<lparr>tv_evaluate = \<lambda>_ _. (True, []), tv_print = \<lambda>_. ''null'', tv_join = (@),
     tv_write = \<lambda>_ _ _ e. (True, e), tv_uuid = \<lambda>e. (''id'', e), tv_clock = \<lambda>e. (0, e), tv_store = None,
     tv_schedule = rev\<rparr>"

definition logging_tool :: "string \<Rightarrow> bool \<Rightarrow> string list tool" where
  "logging_tool n safe = (tool_with_defaults n [] JNull (\<lambda>limit args e. (Some (Inr (tool_output_new JNull)), e @ [n])))
     \<lparr>tl_concurrency_safe := safe\<rparr>"

definition two_tools :: "string list tool_runtime" where
  "two_tools = tool_runtime_new [(''r'', logging_tool ''r'' True), (''w'', logging_tool ''w'' False)] runtime_policy_default"

lemma plain_fair: "fair_schedule plain_services"
  by (simp add: fair_schedule_def plain_services_def)

definition two_calls :: "tool_call list" where
  "two_calls = [tool_call_new ''1'' ''w'' JNull, tool_call_new ''2'' ''r'' JNull]"

lemma two_tools_call:
  assumes "tc_arguments call = JNull"
  shows "run_call plain_services two_tools call e =
    (if tc_name call = ''r'' \<or> tc_name call = ''w''
     then (Inr \<lparr>teo_call = call, teo_output = Inr JNull,
               teo_message = tool_text (tc_id call) (tc_name call) ''null''\<rparr>, e @ [tc_name call])
     else run_call plain_services two_tools call e)"
proof -
  have "str_lines ''null'' = [''null'']" by code_simp
  then show ?thesis using assms
    by (simp add: run_call_def execute_single_def two_tools_def tool_runtime_new_def scoped_new_def scoped_get_def
        tools_get_def logging_tool_def tool_with_defaults_def validate_arguments_def save_output_def
        plain_services_def runtime_policy_default_def truncate_output_def tool_output_config_default_def
        default_max_lines_def default_max_bytes_def unwrap_or_def tool_output_new_def Let_def)
qed

lemma two_tools_groups:
  "runs_concurrently two_tools (two_calls ! 1)" "\<not> runs_concurrently two_tools (two_calls ! 0)"
  by (simp_all add: runs_concurrently_def two_calls_def two_tools_def tool_runtime_new_def scoped_new_def
      scoped_get_def tools_get_def logging_tool_def tool_with_defaults_def Let_def)

lemma two_tools_batch:
  "\<exists>outs. execute_batch plain_services two_tools two_calls ''s'' ''m'' [] = (Some (Inr outs), [''r'', ''w'']) \<and>
     map teo_call outs = two_calls"
proof -
  have s: "tv_schedule plain_services = rev" "tv_store plain_services = None" by (simp_all add: plain_services_def)
  show ?thesis using two_tools_groups
    by (simp add: execute_batch_def two_calls_def upt_rec s Let_def two_tools_call record_outcome_def)
qed

lemma batch_answers_calls_witness:
  "case fst (execute_batch plain_services two_tools two_calls ''s'' ''m'' []) of
     Some (Inr outs) \<Rightarrow> length outs = 2 \<and> answers (two_calls ! 0) (outs ! 0) | _ \<Rightarrow> False"
proof -
  obtain outs where outs: "execute_batch plain_services two_tools two_calls ''s'' ''m'' [] = (Some (Inr outs), [''r'', ''w''])"
    using two_tools_batch by blast
  then have a: "length outs = length two_calls \<and> (\<forall>i<length two_calls. answers (two_calls ! i) (outs ! i))"
    using batch_answers_calls [OF plain_fair, of two_tools two_calls "''s''" "''m''" "[]"] by simp
  have "length two_calls = 2" by (simp add: two_calls_def)
  then show ?thesis using a outs by simp
qed

lemma batch_runs_exclusives_last_witness:
  "\<exists>order k. mset order = mset [two_calls ! 1] \<and>
     [''r'', ''w''] = run_calls plain_services two_tools (order @ take k [two_calls ! 0]) [] \<and> 2 \<le> k"
proof -
  obtain outs where outs: "execute_batch plain_services two_tools two_calls ''s'' ''m'' [] = (Some (Inr outs), [''r'', ''w''])"
    using two_tools_batch by blast
  have calls: "two_calls = [two_calls ! 0, two_calls ! 1]" by (simp add: two_calls_def)
  have "filter (runs_concurrently two_tools) two_calls = [two_calls ! 1]"
    "filter (Not \<circ> runs_concurrently two_tools) two_calls = [two_calls ! 0]"
    using two_tools_groups by (subst calls, simp)+
  moreover have "tv_store plain_services = None" "length two_calls = 2" by (simp_all add: plain_services_def two_calls_def)
  ultimately show ?thesis using batch_runs_exclusives_last [OF plain_fair _ outs] by simp
qed

end
