(* ===== verification/Session_Gate.thy ===== *)
theory Session_Gate
  imports Core_Errors
begin

text \<open>
  The per-session gate (\<open>behest-runtime/src/session_gate.rs\<close>) under interleaving. \<open>acquire\<close> takes three
  steps: reading the map of mutexes, inserting a mutex for a session that had none, and \<open>try_lock\<close>; each
  is atomic, since the first two hold the map's lock. Tasks take their steps in any order. A mutex is a
  number; a dropped guard unlocks it.
\<close>

section \<open>The gate and its tasks\<close>

type_synonym task = nat
type_synonym mutex = nat

datatype gate_pc =
    Idle
  | LookedUp uuid "mutex option"
  | HasMutex uuid mutex
  | Holding uuid mutex
  | Refused uuid

record session_gate =
  sg_locks :: "uuid \<rightharpoonup> mutex"
  sg_next :: mutex
  sg_locked :: "mutex \<Rightarrow> bool"
  sg_tasks :: "task \<Rightarrow> gate_pc"

definition gate_new :: session_gate where
  "gate_new = \<lparr>sg_locks = Map.empty, sg_next = 0, sg_locked = \<lambda>_. False, sg_tasks = \<lambda>_. Idle\<rparr>"

text \<open>A task calls \<open>acquire\<close>, takes the next step of a call it is in, or drops its guard.\<close>

datatype gate_event = Acquire task uuid | Step task | DropGuard task

definition set_pc :: "task \<Rightarrow> gate_pc \<Rightarrow> session_gate \<Rightarrow> session_gate" where
  "set_pc t pc g = g\<lparr>sg_tasks := (sg_tasks g)(t := pc)\<rparr>"

definition acquire_start :: "task \<Rightarrow> uuid \<Rightarrow> session_gate \<Rightarrow> session_gate" where
  "acquire_start t s g = set_pc t (LookedUp s (sg_locks g s)) g"

text \<open>\<open>entry(session_id).or_insert_with(..)\<close>.\<close>

definition acquire_insert :: "task \<Rightarrow> uuid \<Rightarrow> session_gate \<Rightarrow> session_gate" where
  "acquire_insert t s g =
     (case sg_locks g s of
        Some m \<Rightarrow> set_pc t (HasMutex s m) g
      | None \<Rightarrow> set_pc t (HasMutex s (sg_next g))
          (g\<lparr>sg_locks := (sg_locks g)(s \<mapsto> sg_next g), sg_next := sg_next g + 1\<rparr>))"

definition acquire_lock :: "task \<Rightarrow> uuid \<Rightarrow> mutex \<Rightarrow> session_gate \<Rightarrow> session_gate" where
  "acquire_lock t s m g =
     (if sg_locked g m then set_pc t (Refused s) g
      else set_pc t (Holding s m) (g\<lparr>sg_locked := (sg_locked g)(m := True)\<rparr>))"

fun acquire_step :: "task \<Rightarrow> gate_pc \<Rightarrow> session_gate \<Rightarrow> session_gate" where
  "acquire_step t (LookedUp s (Some m)) g = set_pc t (HasMutex s m) g"
| "acquire_step t (LookedUp s None) g = acquire_insert t s g"
| "acquire_step t (HasMutex s m) g = acquire_lock t s m g"
| "acquire_step t pc g = g"

fun gate_act :: "gate_event \<Rightarrow> session_gate \<Rightarrow> session_gate" where
  "gate_act (Acquire t s) g =
     (case sg_tasks g t of Idle \<Rightarrow> acquire_start t s g | Refused _ \<Rightarrow> acquire_start t s g | _ \<Rightarrow> g)"
| "gate_act (Step t) g = acquire_step t (sg_tasks g t) g"
| "gate_act (DropGuard t) g =
     (case sg_tasks g t of
        Holding s m \<Rightarrow> set_pc t Idle (g\<lparr>sg_locked := (sg_locked g)(m := False)\<rparr>)
      | _ \<Rightarrow> g)"

inductive gate_reachable :: "session_gate \<Rightarrow> bool" where
  new: "gate_reachable gate_new"
| act: "gate_reachable g \<Longrightarrow> gate_reachable (gate_act ev g)"

section \<open>Mutual exclusion\<close>

text \<open>A mutex belongs to one session for good, tasks only ever hold the mutex of their session, and a mutex is
  locked exactly while one task holds it.\<close>

fun knows :: "gate_pc \<Rightarrow> (uuid \<times> mutex) set" where
  "knows (LookedUp s (Some m)) = {(s, m)}"
| "knows (HasMutex s m) = {(s, m)}"
| "knows (Holding s m) = {(s, m)}"
| "knows _ = {}"

fun holds :: "gate_pc \<Rightarrow> mutex \<Rightarrow> bool" where
  "holds (Holding s m) m' = (m' = m)"
| "holds _ m' = False"

definition gate_inv :: "session_gate \<Rightarrow> bool" where
  "gate_inv g \<longleftrightarrow>
     (\<forall>s m. sg_locks g s = Some m \<longrightarrow> m < sg_next g) \<and> inj_on (sg_locks g) (dom (sg_locks g)) \<and>
     (\<forall>t s m. (s, m) \<in> knows (sg_tasks g t) \<longrightarrow> sg_locks g s = Some m) \<and>
     (\<forall>m. sg_locked g m \<longleftrightarrow> (\<exists>t. holds (sg_tasks g t) m)) \<and>
     (\<forall>t t' m. holds (sg_tasks g t) m \<longrightarrow> holds (sg_tasks g t') m \<longrightarrow> t = t')"

lemma set_pc_sel [simp]:
  "sg_locks (set_pc t pc g) = sg_locks g" "sg_next (set_pc t pc g) = sg_next g"
  "sg_locked (set_pc t pc g) = sg_locked g" "sg_tasks (set_pc t pc g) = (sg_tasks g)(t := pc)"
  by (simp_all add: set_pc_def)

lemma gate_inv_knows: "gate_inv g \<Longrightarrow> (s, m) \<in> knows (sg_tasks g t) \<Longrightarrow> sg_locks g s = Some m"
  unfolding gate_inv_def by blast

text \<open>A step that neither locks nor unlocks keeps the invariant when what the task learns is in the map.\<close>

lemma gate_inv_quiet:
  assumes "gate_inv g" and "\<forall>m. \<not> holds (sg_tasks g t) m" and "\<forall>m. \<not> holds pc m"
    and "\<forall>s m. (s, m) \<in> knows pc \<longrightarrow> sg_locks g s = Some m"
  shows "gate_inv (set_pc t pc g)"
  using assms unfolding gate_inv_def by (auto simp: fun_upd_def)

lemma acquire_insert_inv:
  assumes "gate_inv g" and "\<forall>m. \<not> holds (sg_tasks g t) m"
  shows "gate_inv (acquire_insert t s g)"
proof (cases "sg_locks g s")
  case None
  let ?g = "g\<lparr>sg_locks := (sg_locks g)(s \<mapsto> sg_next g), sg_next := sg_next g + 1\<rparr>"
  have new: "\<forall>s'. sg_locks g s' \<noteq> Some (sg_next g)" using assms(1) by (auto simp: gate_inv_def)
  have "inj_on (sg_locks ?g) (dom (sg_locks ?g))"
    using assms(1) new unfolding gate_inv_def inj_on_def by (auto simp: dom_def)
  moreover have "\<forall>t s' m. (s', m) \<in> knows (sg_tasks ?g t) \<longrightarrow> sg_locks ?g s' = Some m"
    using assms(1) None unfolding gate_inv_def by auto
  ultimately have "gate_inv ?g"
    using assms(1) unfolding gate_inv_def by (auto simp: less_Suc_eq)
  then have "gate_inv (set_pc t (HasMutex s (sg_next g)) ?g)"
    by (rule gate_inv_quiet) (use assms(2) in simp_all)
  then show ?thesis using None by (simp add: acquire_insert_def)
next
  case (Some m)
  have "gate_inv (set_pc t (HasMutex s m) g)"
    by (rule gate_inv_quiet) (use assms Some in simp_all)
  then show ?thesis using Some by (simp add: acquire_insert_def)
qed

text \<open>A task that starts or stops holding a mutex, and the mutex that follows it.\<close>

lemma holders_upd:
  assumes "\<not> holds (f t) m'" and "\<not> holds pc m'"
  shows "(\<exists>ta. holds ((f(t := pc)) ta) m') = (\<exists>ta. holds (f ta) m')"
  using assms by (metis fun_upd_other fun_upd_same)

lemma gate_inv_hold:
  assumes "gate_inv g" and "\<forall>m'. m' \<noteq> m \<longrightarrow> \<not> holds (sg_tasks g t) m'" and "\<forall>m'. m' \<noteq> m \<longrightarrow> \<not> holds pc m'"
    and "\<forall>t'. t' \<noteq> t \<longrightarrow> \<not> holds (sg_tasks g t') m" and "\<forall>s m. (s, m) \<in> knows pc \<longrightarrow> sg_locks g s = Some m"
  shows "gate_inv (set_pc t pc (g\<lparr>sg_locked := (sg_locked g)(m := holds pc m)\<rparr>))" (is "gate_inv ?g")
proof -
  have locked: "sg_locked ?g m' \<longleftrightarrow> (\<exists>ta. holds (sg_tasks ?g ta) m')" for m'
  proof (cases "m' = m")
    case True
    then show ?thesis using assms(4) by auto
  next
    case False
    then show ?thesis using holders_upd [of "sg_tasks g" t m' pc] assms(1-3) by (simp add: gate_inv_def)
  qed
  have "\<forall>ta tb m'. holds (sg_tasks ?g ta) m' \<longrightarrow> holds (sg_tasks ?g tb) m' \<longrightarrow> ta = tb"
  proof (intro allI impI)
    fix ta tb m' assume h: "holds (sg_tasks ?g ta) m'" "holds (sg_tasks ?g tb) m'"
    then show "ta = tb"
    proof (cases "m' = m")
      case True
      then show ?thesis using h assms(4) by (cases "ta = t"; cases "tb = t") auto
    next
      case False
      then have "ta \<noteq> t" "tb \<noteq> t" using h assms(3) by (auto split: if_splits)
      then show ?thesis using h assms(1) unfolding gate_inv_def by simp
    qed
  qed
  moreover have "\<forall>ta s m. (s, m) \<in> knows (sg_tasks ?g ta) \<longrightarrow> sg_locks ?g s = Some m"
    using gate_inv_knows [OF assms(1)] assms(5) by (simp add: fun_upd_def)
  moreover have "(\<forall>s m. sg_locks ?g s = Some m \<longrightarrow> m < sg_next ?g) \<and> inj_on (sg_locks ?g) (dom (sg_locks ?g))"
    using assms(1) by (simp add: gate_inv_def)
  ultimately show ?thesis using locked unfolding gate_inv_def [of ?g] by blast
qed

lemma acquire_lock_inv:
  assumes "gate_inv g" and "sg_tasks g t = HasMutex s m"
  shows "gate_inv (acquire_lock t s m g)"
proof (cases "sg_locked g m")
  case True
  have "gate_inv (set_pc t (Refused s) g)" by (rule gate_inv_quiet) (use assms in simp_all)
  then show ?thesis using True by (simp add: acquire_lock_def)
next
  case False
  then have "\<forall>t'. \<not> holds (sg_tasks g t') m" using assms(1) by (auto simp: gate_inv_def)
  moreover have "sg_locks g s = Some m" by (rule gate_inv_knows [OF assms(1), of _ _ t]) (simp add: assms(2))
  ultimately show ?thesis using gate_inv_hold [OF assms(1), of m t "Holding s m"] assms(2) False
    by (simp add: acquire_lock_def)
qed

lemma drop_guard_inv:
  assumes "gate_inv g" and "sg_tasks g t = Holding s m"
  shows "gate_inv (set_pc t Idle (g\<lparr>sg_locked := (sg_locked g)(m := False)\<rparr>))"
proof -
  have "\<forall>t'. t' \<noteq> t \<longrightarrow> \<not> holds (sg_tasks g t') m" using assms unfolding gate_inv_def by (metis holds.simps(1))
  then show ?thesis using gate_inv_hold [OF assms(1), of m t Idle] assms(2) by simp
qed

lemma gate_act_inv: "gate_inv g \<Longrightarrow> gate_inv (gate_act ev g)"
proof (cases ev)
  case (Acquire t s)
  moreover assume "gate_inv g"
  moreover have "gate_inv (acquire_start t s g)" if "\<forall>m. \<not> holds (sg_tasks g t) m"
    unfolding acquire_start_def
    by (rule gate_inv_quiet) (use that \<open>gate_inv g\<close> in \<open>cases "sg_locks g s"; simp\<close>)+
  ultimately show ?thesis by (auto split: gate_pc.splits)
next
  case (Step t)
  assume inv: "gate_inv g"
  have "gate_inv (acquire_step t (sg_tasks g t) g)"
  proof (cases "sg_tasks g t")
    case (LookedUp s found)
    then have no: "\<forall>m. \<not> holds (sg_tasks g t) m" by simp
    show ?thesis
    proof (cases found)
      case (Some m)
      have "gate_inv (set_pc t (HasMutex s m) g)"
        by (rule gate_inv_quiet [OF inv no]) (use gate_inv_knows [OF inv, of s m t] LookedUp Some in simp_all)
      then show ?thesis using LookedUp Some by simp
    qed (use LookedUp acquire_insert_inv [OF inv no] in simp)
  qed (use inv acquire_lock_inv [OF inv] in simp_all)
  then show ?thesis using Step by simp
next
  case (DropGuard t)
  assume "gate_inv g"
  then show ?thesis using DropGuard drop_guard_inv [of g t] by (auto split: gate_pc.splits)
qed

lemma gate_reachable_inv: "gate_reachable g \<Longrightarrow> gate_inv g"
proof (induction rule: gate_reachable.induct)
  case new
  show ?case by (auto simp: gate_inv_def gate_new_def)
qed (rule gate_act_inv)

text \<open>C29: No two tasks ever hold the guard of the same session, however their acquisitions interleave, even
  when both find no mutex for it at first.\<close>

theorem session_exclusive:
  assumes "gate_reachable g" and "sg_tasks g t = Holding s m" and "sg_tasks g t' = Holding s m'"
  shows "t = t'"
proof -
  have inv: "gate_inv g" by (rule gate_reachable_inv [OF assms(1)])
  then have "sg_locks g s = Some m" "sg_locks g s = Some m'"
    using assms(2,3) unfolding gate_inv_def by (metis insertI1 knows.simps(3))+
  then have "m' = m" by simp
  then show ?thesis using inv assms(2,3) unfolding gate_inv_def by (metis holds.simps(1))
qed

definition race :: session_gate where
  "race = foldl (\<lambda>g ev. gate_act ev g) gate_new
     [Acquire 1 ''s'', Acquire 2 ''s'', Step 1, Step 2, Step 1, Step 2]"

lemma race_result:
  "sg_tasks race 1 = Holding ''s'' 0" "sg_tasks race 2 = Refused ''s''" "gate_reachable race"
proof -
  show "gate_reachable race" unfolding race_def foldl.simps by (intro gate_reachable.intros)
qed (simp_all add: race_def gate_new_def acquire_start_def acquire_insert_def acquire_lock_def)

lemma session_exclusive_witness: "sg_tasks race 1 = Holding ''s'' 0 \<and> sg_tasks race 2 \<noteq> Holding ''s'' 0"
  using session_exclusive [OF race_result(3,1), of 2 0] race_result(1) by auto

text \<open>A call of \<open>acquire\<close> ends within three steps of its own task and never waits: its last step refuses
  exactly when another task holds the guard of the session at that moment, and holds it otherwise.\<close>

theorem acquire_refuses_iff_held:
  assumes "gate_reachable g" and "sg_tasks g t = HasMutex s m"
  shows "sg_tasks (gate_act (Step t) g) t =
    (if \<exists>t' m'. sg_tasks g t' = Holding s m' then Refused s else Holding s m)"
proof -
  have inv: "gate_inv g" by (rule gate_reachable_inv [OF assms(1)])
  have m: "sg_locks g s = Some m" by (rule gate_inv_knows [OF inv, of _ _ t]) (simp add: assms(2))
  have "sg_locked g m \<longleftrightarrow> (\<exists>t'. holds (sg_tasks g t') m)" using inv by (simp add: gate_inv_def)
  also have "\<dots> \<longleftrightarrow> (\<exists>t' m'. sg_tasks g t' = Holding s m')"
  proof
    assume "\<exists>t'. holds (sg_tasks g t') m"
    then obtain t' s' where h: "sg_tasks g t' = Holding s' m" by (metis holds.elims(2))
    then have "sg_locks g s' = Some m" using inv unfolding gate_inv_def by (metis insertI1 knows.simps(3))
    then have "s' = s" using inv m unfolding gate_inv_def inj_on_def by (metis domI)
    then show "\<exists>t' m'. sg_tasks g t' = Holding s m'" using h by blast
  next
    assume "\<exists>t' m'. sg_tasks g t' = Holding s m'"
    then obtain t' m' where h: "sg_tasks g t' = Holding s m'" by blast
    then have "sg_locks g s = Some m'" using inv unfolding gate_inv_def by (metis insertI1 knows.simps(3))
    then show "\<exists>t'. holds (sg_tasks g t') m" using h m by (metis holds.simps(1) option.inject)
  qed
  finally show ?thesis using assms(2) by (simp add: acquire_lock_def)
qed

lemma acquire_refuses_iff_held_witness:
  "\<exists>g. sg_tasks g 2 = HasMutex ''s'' 0 \<and> sg_tasks (gate_act (Step 2) g) 2 = Refused ''s''"
proof -
  let ?g = "gate_act (Step 1) (gate_act (Step 2) (gate_act (Step 1) (gate_act (Acquire 2 ''s'') (gate_act (Acquire 1 ''s'') gate_new))))"
  have r: "gate_reachable ?g" by (intro gate_reachable.intros)
  have pcs: "sg_tasks ?g 2 = HasMutex ''s'' 0" "sg_tasks ?g 1 = Holding ''s'' 0"
    by (simp_all add: gate_new_def acquire_start_def acquire_insert_def acquire_lock_def)
  have "sg_tasks (gate_act (Step 2) ?g) 2 = Refused ''s''"
    using acquire_refuses_iff_held [OF r pcs(1)] pcs(2) by (metis (full_types))
  then show ?thesis using pcs(1) by blast
qed

end
