(* ===== verification/Shutdown_Token.thy ===== *)
theory Shutdown_Token
  imports Behest_Prelude
begin

text \<open>
  The shutdown token (\<open>behest-runtime/src/lifecycle.rs\<close>). The shared states of tokens live in a list; a
  token is the index of its state, and a clone is the same index. \<open>wait\<close> takes two steps: the first
  check, and the creation of the \<open>Notified\<close> future with the check after it, at which nothing may come
  between because the future is registered when it is created; \<open>notify_waiters\<close> wakes every registered
  waiter.
\<close>

section \<open>Tokens and waiters\<close>

type_synonym token = nat

record shutdown_state =
  ss_flag :: bool
  ss_parent :: "token option"

datatype wait_pc = Checked token | Registered token | Waiting token | Returned

record shutdown_world =
  sw_states :: "shutdown_state list"
  sw_tasks :: "nat \<Rightarrow> wait_pc option"

definition token_new :: "shutdown_world \<Rightarrow> token \<times> shutdown_world" where
  "token_new w = (length (sw_states w), w\<lparr>sw_states := sw_states w @ [\<lparr>ss_flag = False, ss_parent = None\<rparr>]\<rparr>)"

definition token_child :: "token \<Rightarrow> shutdown_world \<Rightarrow> token \<times> shutdown_world" where
  "token_child t w = (length (sw_states w), w\<lparr>sw_states := sw_states w @ [\<lparr>ss_flag = False, ss_parent = Some t\<rparr>]\<rparr>)"

definition set_flag :: "token \<Rightarrow> shutdown_world \<Rightarrow> shutdown_world" where
  "set_flag t w = w\<lparr>sw_states := (sw_states w)[t := (sw_states w ! t)\<lparr>ss_flag := True\<rparr>]\<rparr>"

text \<open>Only futures created from the state's own \<open>Notify\<close> are woken.\<close>

definition notify_waiters :: "token \<Rightarrow> shutdown_world \<Rightarrow> shutdown_world" where
  "notify_waiters t w = w\<lparr>sw_tasks := (\<lambda>k. case sw_tasks w k of
     Some (Waiting t') \<Rightarrow> Some (if t' = t then Returned else Waiting t')
   | Some (Registered t') \<Rightarrow> Some (if t' = t then Returned else Registered t')
   | x \<Rightarrow> x)\<rparr>"

definition signal_shutdown :: "token \<Rightarrow> shutdown_world \<Rightarrow> shutdown_world" where
  "signal_shutdown t w =
     (let w = notify_waiters t (set_flag t w)
      in case ss_parent (sw_states w ! t) of
           Some p \<Rightarrow> notify_waiters p (set_flag p w)
         | None \<Rightarrow> w)"

definition is_shutdown :: "shutdown_world \<Rightarrow> token \<Rightarrow> bool" where
  "is_shutdown w t =
     (if ss_flag (sw_states w ! t) then True
      else case ss_parent (sw_states w ! t) of
        Some p \<Rightarrow> ss_flag (sw_states w ! p)
      | None \<Rightarrow> False)"

definition set_task :: "nat \<Rightarrow> wait_pc option \<Rightarrow> shutdown_world \<Rightarrow> shutdown_world" where
  "set_task k pc w = w\<lparr>sw_tasks := (sw_tasks w)(k := pc)\<rparr>"

text \<open>The three stages of \<open>wait\<close>: the first check, creating the future, the second check.\<close>

definition wait_start :: "nat \<Rightarrow> token \<Rightarrow> shutdown_world \<Rightarrow> shutdown_world" where
  "wait_start k t w = set_task k (Some (if is_shutdown w t then Returned else Checked t)) w"

fun wait_step :: "nat \<Rightarrow> wait_pc option \<Rightarrow> shutdown_world \<Rightarrow> shutdown_world" where
  "wait_step k (Some (Checked t)) w = set_task k (Some (Registered t)) w"
| "wait_step k (Some (Registered t)) w = set_task k (Some (if is_shutdown w t then Returned else Waiting t)) w"
| "wait_step k _ w = w"

section \<open>Interleavings\<close>

datatype shutdown_event = NewRoot | NewChild token | Signal token | WaitOn nat token | WaitStep nat

text \<open>Events on tokens that exist; a task waits once.\<close>

fun shutdown_act :: "shutdown_event \<Rightarrow> shutdown_world \<Rightarrow> shutdown_world" where
  "shutdown_act NewRoot w = snd (token_new w)"
| "shutdown_act (NewChild t) w = (if t < length (sw_states w) then snd (token_child t w) else w)"
| "shutdown_act (Signal t) w = (if t < length (sw_states w) then signal_shutdown t w else w)"
| "shutdown_act (WaitOn k t) w =
     (if t < length (sw_states w) \<and> sw_tasks w k = None then wait_start k t w else w)"
| "shutdown_act (WaitStep k) w = wait_step k (sw_tasks w k) w"

definition world_new :: shutdown_world where
  "world_new = \<lparr>sw_states = [], sw_tasks = \<lambda>_. None\<rparr>"

inductive world_reachable :: "shutdown_world \<Rightarrow> bool" where
  new: "world_reachable world_new"
| act: "world_reachable w \<Longrightarrow> world_reachable (shutdown_act ev w)"

text \<open>Parents are older than their children, and nobody waits at a token whose own flag is up.\<close>

definition flagged :: "shutdown_world \<Rightarrow> token \<Rightarrow> bool" where
  "flagged w t \<longleftrightarrow> t < length (sw_states w) \<and> ss_flag (sw_states w ! t)"

definition world_inv :: "shutdown_world \<Rightarrow> bool" where
  "world_inv w \<longleftrightarrow>
     (\<forall>t<length (sw_states w). \<forall>p. ss_parent (sw_states w ! t) = Some p \<longrightarrow> p < t) \<and>
     (\<forall>k t. sw_tasks w k = Some (Waiting t) \<longrightarrow> t < length (sw_states w) \<and> \<not> ss_flag (sw_states w ! t)) \<and>
     (\<forall>k t. sw_tasks w k = Some (Checked t) \<or> sw_tasks w k = Some (Registered t) \<longrightarrow> t < length (sw_states w))"

lemma raise_inv:
  assumes "world_inv w" and "t < length (sw_states w)"
  shows "world_inv (notify_waiters t (set_flag t w))"
  using assms
  by (auto simp: world_inv_def notify_waiters_def set_flag_def nth_list_update split: option.splits wait_pc.splits if_splits)

lemma raise_sel [simp]:
  "length (sw_states (notify_waiters t (set_flag t w))) = length (sw_states w)"
  "u < length (sw_states w) \<Longrightarrow> ss_parent (sw_states (notify_waiters t (set_flag t w)) ! u) = ss_parent (sw_states w ! u)"
  "u < length (sw_states w) \<Longrightarrow>
   ss_flag (sw_states (notify_waiters t (set_flag t w)) ! u) = (u = t \<or> ss_flag (sw_states w ! u))"
  by (cases "t < length (sw_states w)"; auto simp: notify_waiters_def set_flag_def nth_list_update)+

lemma parent_bound: "world_inv w \<Longrightarrow> t < length (sw_states w) \<Longrightarrow> ss_parent (sw_states w ! t) = Some p \<Longrightarrow> p < length (sw_states w)"
  by (auto simp: world_inv_def)

lemma signal_inv:
  assumes "world_inv w" and "t < length (sw_states w)"
  shows "world_inv (signal_shutdown t w)"
  using assms raise_inv [OF assms] raise_inv [of "notify_waiters t (set_flag t w)"] parent_bound [OF assms]
  by (auto simp: signal_shutdown_def Let_def split: option.splits)

lemma shutdown_act_inv: "world_inv w \<Longrightarrow> world_inv (shutdown_act ev w)"
proof (cases ev)
  case (Signal t)
  then show "world_inv w \<Longrightarrow> ?thesis" by (simp add: signal_inv)
next
  case (WaitStep k)
  then show "world_inv w \<Longrightarrow> ?thesis"
    by (cases "(k, sw_tasks w k, w)" rule: wait_step.cases)
      (auto simp: world_inv_def set_task_def is_shutdown_def split: if_splits)
qed (auto simp: world_inv_def token_new_def token_child_def wait_start_def set_task_def nth_append less_Suc_eq
    split: if_splits)

lemma world_reachable_inv: "world_reachable w \<Longrightarrow> world_inv w"
  by (induction rule: world_reachable.induct) (simp_all add: shutdown_act_inv, simp add: world_inv_def world_new_def)

text \<open>No wakeup of the token itself is lost: at no point of any interleaving does a task stay waiting on a
  token that was signalled itself, or one of whose children was, whether the signal came before, between
  or after the steps of \<open>wait\<close>.\<close>

theorem wait_sees_own_signal:
  assumes "world_reachable w" and "sw_tasks w k = Some (Waiting t)"
  shows "\<not> ss_flag (sw_states w ! t)"
  using world_reachable_inv [OF assms(1)] assms(2) by (simp add: world_inv_def)

definition run_events :: "shutdown_event list \<Rightarrow> shutdown_world" where
  "run_events evs = foldl (\<lambda>w ev. shutdown_act ev w) world_new evs"

lemma run_events_reachable: "world_reachable (run_events evs)"
proof -
  have "world_reachable (foldl (\<lambda>w ev. shutdown_act ev w) w evs)" if "world_reachable w" for w
    using that by (induction evs arbitrary: w) (auto intro: world_reachable.act)
  then show ?thesis by (simp add: run_events_def world_reachable.new)
qed

lemma wait_sees_own_signal_witness:
  "sw_tasks (run_events [NewRoot, WaitOn 7 0, WaitStep 7, WaitStep 7]) 7 = Some (Waiting 0) \<and>
   \<not> ss_flag (sw_states (run_events [NewRoot, WaitOn 7 0, WaitStep 7, WaitStep 7]) ! 0)"
proof -
  let ?w = "run_events [NewRoot, WaitOn 7 0, WaitStep 7, WaitStep 7]"
  have w: "sw_tasks ?w 7 = Some (Waiting 0)"
    by (simp add: run_events_def world_new_def token_new_def wait_start_def set_task_def is_shutdown_def)
  then show ?thesis using wait_sees_own_signal [OF run_events_reachable w] by simp
qed

fun awaits :: "wait_pc option \<Rightarrow> token \<Rightarrow> bool" where
  "awaits (Some (Checked t)) u = (u = t)"
| "awaits (Some (Registered t)) u = (u = t)"
| "awaits (Some (Waiting t)) u = (u = t)"
| "awaits _ u = False"

lemma signal_raises_flag:
  assumes "world_reachable w" and "t < length (sw_states w)"
  shows "ss_flag (sw_states (signal_shutdown t w) ! t)"
  using assms parent_bound [OF world_reachable_inv [OF assms(1)] assms(2)]
  by (auto simp: signal_shutdown_def Let_def split: option.split)

lemma signal_wakes:
  assumes "awaits (sw_tasks w k) t"
  shows "sw_tasks (signal_shutdown t w) k = Some Returned \<or> sw_tasks (signal_shutdown t w) k = Some (Checked t)"
  using assms
  by (cases "(sw_tasks w k, t)" rule: awaits.cases)
    (auto simp: signal_shutdown_def notify_waiters_def set_flag_def Let_def split: option.split)



text \<open>A task waiting on a child stays asleep when the parent is signalled, although the child then answers
  that it is shut down: only the parent's own waiters are woken.\<close>

theorem parent_signal_wakes_no_child:
  assumes "world_reachable w" and "sw_tasks w k = Some (Waiting t)"
    and "ss_parent (sw_states w ! t) = Some p" and "\<not> is_shutdown w t" and "ss_parent (sw_states w ! p) \<noteq> Some t"
  shows "is_shutdown (shutdown_act (Signal p) w) t \<and> sw_tasks (shutdown_act (Signal p) w) k = Some (Waiting t)"
proof -
  note inv = world_reachable_inv [OF assms(1)]
  have t: "t < length (sw_states w)" using inv assms(2) by (simp add: world_inv_def)
  have p: "p < length (sw_states w)" "p \<noteq> t" using parent_bound [OF inv t assms(3)] inv t assms(3) by (auto simp: world_inv_def)
  let ?r = "notify_waiters p (set_flag p w)"
  have r: "sw_tasks ?r k = Some (Waiting t)" using assms(2) p(2) by (simp add: notify_waiters_def set_flag_def)
  show ?thesis
  proof (cases "ss_parent (sw_states w ! p)")
    case None
    then show ?thesis using p t r assms(3) by (simp add: signal_shutdown_def is_shutdown_def)
  next
    case (Some q)
    then have q: "q < length (sw_states w)" "q \<noteq> t"
      using parent_bound [OF inv p(1) Some] assms(5) by auto
    have "sw_tasks (notify_waiters q (set_flag q ?r)) k = Some (Waiting t)"
      using r q(2) by (simp add: notify_waiters_def set_flag_def)
    moreover have "ss_flag (sw_states (notify_waiters q (set_flag q ?r)) ! p)" using p(1) by simp
    ultimately show ?thesis using p t q Some assms(3) by (simp add: signal_shutdown_def is_shutdown_def)
  qed
qed

lemma parent_signal_wakes_no_child_witness:
  "let w = run_events [NewRoot, NewChild 0, WaitOn 7 1, WaitStep 7, WaitStep 7]
   in is_shutdown (shutdown_act (Signal 0) w) 1 \<and> sw_tasks (shutdown_act (Signal 0) w) 7 = Some (Waiting 1)"
proof -
  define w where "w = run_events [NewRoot, NewChild 0, WaitOn 7 1, WaitStep 7, WaitStep 7]"
  have "sw_tasks w 7 = Some (Waiting 1)" "ss_parent (sw_states w ! 1) = Some 0" "\<not> is_shutdown w 1"
    "ss_parent (sw_states w ! 0) \<noteq> Some 1"
    by (simp_all add: w_def run_events_def world_new_def token_new_def token_child_def wait_start_def set_task_def
        is_shutdown_def)
  from parent_signal_wakes_no_child [OF _ this] show ?thesis
    unfolding w_def [symmetric] Let_def by (simp add: w_def run_events_reachable)
qed

text \<open>A signal reaches the parent and stops there: signalling a token leaves every token of another branch,
  and every ancestor above its parent, not shut down when it was not before.\<close>

theorem signal_stops_at_parent:
  assumes "world_reachable w" and "t < length (sw_states w)" and "u < length (sw_states w)"
    and "\<not> is_shutdown w u" and "u \<noteq> t" and "ss_parent (sw_states w ! t) \<noteq> Some u"
    and "ss_parent (sw_states w ! u) \<noteq> Some t"
    and "\<forall>p. ss_parent (sw_states w ! t) = Some p \<longrightarrow> ss_parent (sw_states w ! u) \<noteq> Some p"
  shows "\<not> is_shutdown (shutdown_act (Signal t) w) u"
proof -
  note inv = world_reachable_inv [OF assms(1)]
  have flag: "ss_flag (sw_states (signal_shutdown t w) ! v) =
      (v = t \<or> ss_parent (sw_states w ! t) = Some v \<or> ss_flag (sw_states w ! v))"
    "ss_parent (sw_states (signal_shutdown t w) ! v) = ss_parent (sw_states w ! v)" if "v < length (sw_states w)" for v
    using that assms(2) parent_bound [OF inv assms(2)]
    by (auto simp: signal_shutdown_def Let_def split: option.splits)
  have "\<not> ss_flag (sw_states w ! u)" using assms(4) by (simp add: is_shutdown_def split: if_splits)
  then have no: "\<not> ss_flag (sw_states (signal_shutdown t w) ! u)" using flag(1) [OF assms(3)] assms(5,6) by auto
  have "\<not> ss_flag (sw_states (signal_shutdown t w) ! p)" if p: "ss_parent (sw_states w ! u) = Some p" for p
  proof -
    have "p < length (sw_states w)" using parent_bound [OF inv assms(3) p] .
    moreover have "\<not> ss_flag (sw_states w ! p)" using assms(4) p by (simp add: is_shutdown_def split: if_splits)
    ultimately show ?thesis using flag(1) assms(7,8) p by auto
  qed
  then show ?thesis using no flag(2) [OF assms(3)] assms(2)
    by (simp add: is_shutdown_def split: option.splits)
qed

lemma signal_stops_at_parent_witness:
  "let w = run_events [NewRoot, NewChild 0, NewChild 1]
   in is_shutdown (shutdown_act (Signal 2) w) 1 \<and> \<not> is_shutdown (shutdown_act (Signal 2) w) 0"
proof -
  define w where "w = run_events [NewRoot, NewChild 0, NewChild 1]"
  have st: "sw_states w = [\<lparr>ss_flag = False, ss_parent = None\<rparr>, \<lparr>ss_flag = False, ss_parent = Some 0\<rparr>,
      \<lparr>ss_flag = False, ss_parent = Some 1\<rparr>]"
    by (simp add: w_def run_events_def world_new_def token_new_def token_child_def)
  have "world_reachable w" by (simp add: w_def run_events_reachable)
  then have "\<not> is_shutdown (shutdown_act (Signal 2) w) 0"
    by (rule signal_stops_at_parent) (simp_all add: st is_shutdown_def)
  moreover have "is_shutdown (shutdown_act (Signal 2) w) 1"
    by (simp add: st is_shutdown_def signal_shutdown_def notify_waiters_def set_flag_def)
  ultimately show ?thesis unfolding w_def [symmetric] Let_def by simp
qed

end
