(* ===== verification/Agent_Run.thy ===== *)
theory Agent_Run
  imports Run_Loop_Properties Input_Admission Tool_Registry
begin

text \<open>
  A whole run (\<open>run\<close> and \<open>resume\<close> of \<open>behest-runtime/src/agent.rs\<close>): session, gate, admission, tool
  scope, run record and turn loop, composed as the code composes them. What \<open>run\<close> reaches through the
  stores, the clock and identifiers acts on the environment. The sessions of the gate that are locked are
  the set \<open>as_held\<close>: whatever else runs beside this run shows in it. A guard gives back what it holds on
  every way out, a panic included; \<open>None\<close> is a turn loop that has not returned after \<open>n\<close> turns.
\<close>

section \<open>The agent and its state\<close>

record 'e chat_provider =
  cp_id :: provider_id
  cp_caps :: provider_capabilities
  cp_stream :: "duration \<Rightarrow> chat_request \<Rightarrow> 'e \<Rightarrow> (provider_error + stream_items) option \<times> 'e"
  cp_complete :: "duration \<Rightarrow> chat_request \<Rightarrow> 'e \<Rightarrow> (provider_error + chat_response) option \<times> 'e"

record ('e, 'm) agent =
  ag_kernel :: "('e, 'm) runtime"
  ag_providers :: "provider_id \<Rightarrow> 'e chat_provider option"
  ag_ensure_session :: "uuid option \<Rightarrow> 'e \<Rightarrow> (runtime_error + uuid) \<times> 'e"
  ag_create_run :: "run_record \<Rightarrow> 'e \<Rightarrow> (runtime_error + unit) \<times> 'e"
  ag_load_snapshot :: "(run_id \<Rightarrow> 'e \<Rightarrow> (runtime_error + snapshot option) \<times> 'e) option"
  ag_uuid :: "'e \<Rightarrow> uuid \<times> 'e"
  ag_hash :: "string \<Rightarrow> u64"

record ('e, 't) agent_state =
  as_env :: 'e
  as_events :: "agent_event list"
  as_held :: "uuid set"
  as_admission :: input_admission
  as_scopes :: "'t scoped_registry"

text \<open>The result of an agent operation: the flow out of it, and the state it leaves.\<close>

type_synonym ('a, 'e, 't) result = "('a flow \<times> ('e, 't) agent_state) option"

text \<open>The runtime a provider is called through.\<close>

definition install :: "'e chat_provider \<Rightarrow> ('e, 'm) runtime \<Rightarrow> ('e, 'm) runtime" where
  "install p rt = rt\<lparr>rt_provider_id := cp_id p, rt_caps := cp_caps p, rt_stream := cp_stream p,
     rt_complete := cp_complete p\<rparr>"

definition try_env ::
  "('e \<Rightarrow> (runtime_error + 'a) \<times> 'e) \<Rightarrow> ('a \<Rightarrow> ('e, 't) agent_state \<Rightarrow> ('b, 'e, 't) result) \<Rightarrow>
   ('e, 't) agent_state \<Rightarrow> ('b, 'e, 't) result" where
  "try_env f k s =
     (case f (as_env s) of
        (Inl err, e) \<Rightarrow> Some (Return_Err err, s\<lparr>as_env := e\<rparr>)
      | (Inr x, e) \<Rightarrow> k x (s\<lparr>as_env := e\<rparr>))"

definition announce ::
  "agent_event \<Rightarrow> (('e, 't) agent_state \<Rightarrow> ('b, 'e, 't) result) \<Rightarrow> ('e, 't) agent_state \<Rightarrow> ('b, 'e, 't) result" where
  "announce ev k s = k (s\<lparr>as_events := as_events s @ [ev]\<rparr>)"

definition with_env ::
  "('e \<Rightarrow> 'a \<times> 'e) \<Rightarrow> ('a \<Rightarrow> ('e, 't) agent_state \<Rightarrow> ('b, 'e, 't) result) \<Rightarrow>
   ('e, 't) agent_state \<Rightarrow> ('b, 'e, 't) result" where
  "with_env f k s = (case f (as_env s) of (x, e) \<Rightarrow> k x (s\<lparr>as_env := e\<rparr>))"

text \<open>Guards: a scope that runs a body and gives back what it holds.\<close>

definition with_session ::
  "uuid \<Rightarrow> (('e, 't) agent_state \<Rightarrow> ('b, 'e, 't) result) \<Rightarrow> ('e, 't) agent_state \<Rightarrow> ('b, 'e, 't) result" where
  "with_session sid body s =
     (if sid \<in> as_held s then Some (Return_Err (SessionBusy sid), s)
      else map_option (\<lambda>(r, s'). (r, s'\<lparr>as_held := as_held s' - {sid}\<rparr>))
             (body (s\<lparr>as_held := insert sid (as_held s)\<rparr>)))"

definition with_scope ::
  "(('e, 't) agent_state \<Rightarrow> ('b, 'e, 't) result) \<Rightarrow> ('e, 't) agent_state \<Rightarrow> ('b, 'e, 't) result" where
  "with_scope body s =
     (case push_scope (as_scopes s) of
        (i, scopes) \<Rightarrow>
          map_option (\<lambda>(r, s'). (r, s'\<lparr>as_scopes := drop_guard i (as_scopes s')\<rparr>)) (body (s\<lparr>as_scopes := scopes\<rparr>)))"

section \<open>Entering the turn loop\<close>

definition loop_entry ::
  "runtime_policy \<Rightarrow> usize \<Rightarrow> token_usage \<Rightarrow> finish_reason option \<Rightarrow> message option \<Rightarrow> uuid option \<Rightarrow>
   turn_state \<Rightarrow> u32 \<Rightarrow> 'e \<Rightarrow> 'e loop_state" where
  "loop_entry p i usg fin msg mid st rec e =
     \<lparr>ls_env = e, ls_events = [], ls_iteration = i, ls_usage = usg, ls_finish = fin, ls_message = msg,
      ls_msg_id = mid, ls_resume = st, ls_doom = detector_new (rp_doom_loop p),
      ls_breaker = runtime_breaker_new (cfg_circuit_breaker_threshold (rp_compaction p)), ls_recoveries = rec\<rparr>"

definition enter_loop ::
  "nat \<Rightarrow> ('e, 'm) runtime \<Rightarrow> ('t scoped_registry \<Rightarrow> run_args) \<Rightarrow> ('e \<Rightarrow> 'e loop_state) \<Rightarrow>
   ('e, 't) agent_state \<Rightarrow> (run_output, 'e, 't) result" where
  "enter_loop n rt a start s =
     map_option (\<lambda>(r, ls). (r, s\<lparr>as_env := ls_env ls, as_events := as_events s @ ls_events ls\<rparr>))
       (run_loop n rt (a (as_scopes s)) (start (as_env s)))"

definition loop_args :: "run_id \<Rightarrow> uuid \<Rightarrow> run_request \<Rightarrow> 't scoped_registry \<Rightarrow> run_args" where
  "loop_args i sid rq scopes =
     \<lparr>ra_run_id = i, ra_session_id = sid, ra_request = rq, ra_tool_specs = scoped_specs scopes,
      ra_has_tools = (scoped_specs scopes \<noteq> [])\<rparr>"

definition find_provider ::
  "('e, 'm) agent \<Rightarrow> provider_id \<Rightarrow> ('e chat_provider \<Rightarrow> ('e, 't) agent_state \<Rightarrow> ('b, 'e, 't) result) \<Rightarrow>
   ('e, 't) agent_state \<Rightarrow> ('b, 'e, 't) result" where
  "find_provider ag pid k s =
     (case ag_providers ag pid of
        None \<Rightarrow> Some (Return_Err (ProviderNotFound pid), s)
      | Some p \<Rightarrow> k p s)"

section \<open>A run\<close>

text \<open>From the run record on, inside both guards.\<close>

definition run_admitted ::
  "nat \<Rightarrow> ('e, 'm) agent \<Rightarrow> run_id \<Rightarrow> uuid \<Rightarrow> run_request \<Rightarrow> ('e, 't) agent_state \<Rightarrow> (run_output, 'e, 't) result" where
  "run_admitted n ag i sid rq =
     (let rt = ag_kernel ag; p = rt_policy rt in
      with_env (rt_now rt) (\<lambda>now.
      try_env (ag_create_run ag (run_record_new now i sid (rq_provider rq) (rq_model rq) (rq_metadata rq)
                 (rq_client_request_id rq))) (\<lambda>_.
      with_env (rt_now rt) (\<lambda>now.
      announce (EvRunStarted i sid (rq_provider rq) (rq_model rq) now) (
      try_env (rt_update_status rt i StSessionLoaded) (\<lambda>_.
      try_env (rt_append_message rt sid (user_text (rq_input rq))) (\<lambda>_.
      find_provider ag (rq_provider rq) (\<lambda>provider.
      enter_loop n (install provider rt) (loop_args i sid rq)
        (loop_entry p 0 (usage_new 0 0) None None None TsCheckingPolicy 0)))))))))"

text \<open>Admission, with the session locked.\<close>

definition run_locked ::
  "nat \<Rightarrow> ('e, 'm) agent \<Rightarrow> run_id \<Rightarrow> uuid \<Rightarrow> run_request \<Rightarrow> ('e, 't) agent_state \<Rightarrow> (run_output, 'e, 't) result" where
  "run_locked n ag i sid rq =
     with_env (ag_uuid ag) (\<lambda>fresh.
     with_env (rt_now (ag_kernel ag)) (\<lambda>now s.
     case admit now (as_admission s) (input_record_new (ag_hash ag) fresh now sid (rq_input rq)) of
       (Inl LockPoisoned, a) \<Rightarrow>
         Some (Return_Err (InputAdmissionFailed ''input admission lock poisoned''), s\<lparr>as_admission := a\<rparr>)
     | (Inr (r, evs), a) \<Rightarrow>
         let s = s\<lparr>as_admission := a\<rparr>
         in if ir_state r = Rejected
            then Some (Return_Err (InputRejected (ir_id r)
                   (case ir_rejection_reason r of Some m \<Rightarrow> m | None \<Rightarrow> [])), s)
            else with_scope (run_admitted n ag i sid rq) s))"

definition run ::
  "nat \<Rightarrow> ('e, 'm) agent \<Rightarrow> run_request \<Rightarrow> ('e, 't) agent_state \<Rightarrow> (run_output, 'e, 't) result" where
  "run n ag rq =
     with_env (case rq_run_id rq of Some i \<Rightarrow> Pair i | None \<Rightarrow> ag_uuid ag) (\<lambda>i.
     try_env (ag_ensure_session ag (rq_session_id rq)) (\<lambda>sid.
     with_session sid (run_locked n ag i sid rq)))"

definition resume_locked ::
  "nat \<Rightarrow> ('e, 'm) agent \<Rightarrow> run_id \<Rightarrow> snapshot \<Rightarrow> ('e, 't) agent_state \<Rightarrow> (run_output, 'e, 't) result" where
  "resume_locked n ag i sn =
     with_scope (
     find_provider ag (rq_provider (sn_request sn)) (\<lambda>provider.
     try_env (rt_update_status (ag_kernel ag) i (status_for (sn_current_state sn))) (\<lambda>_.
     enter_loop n (install provider (ag_kernel ag)) (loop_args i (sn_session_id sn) (sn_request sn))
       (loop_entry (rt_policy (ag_kernel ag)) (sn_iteration sn) (sn_total_usage sn) (sn_last_finish sn)
          (sn_assistant_message sn) (sn_assistant_msg_id sn) (sn_current_state sn)
          (sn_output_recovery_count sn)))))"

definition resume ::
  "nat \<Rightarrow> ('e, 'm) agent \<Rightarrow> run_id \<Rightarrow> ('e, 't) agent_state \<Rightarrow> (run_output, 'e, 't) result" where
  "resume n ag i =
     (case ag_load_snapshot ag of
        None \<Rightarrow> \<lambda>s. Some (Return_Err (RecoveryFailed ''snapshot store not configured''), s)
      | Some load \<Rightarrow>
          try_env (load i) (\<lambda>found.
          case found of
            None \<Rightarrow> \<lambda>s. Some (Return_Err (RunNotFound i), s)
          | Some sn \<Rightarrow> with_session (sn_session_id sn) (resume_locked n ag i sn)))"

section \<open>Guards are given back\<close>

definition tidy :: "(('e, 't) agent_state \<Rightarrow> ('b, 'e, 't) result) \<Rightarrow> bool" where
  "tidy f \<longleftrightarrow> (\<forall>s r s'. f s = Some (r, s') \<longrightarrow>
     as_held s' = as_held s \<and> sr_layers (as_scopes s') = sr_layers (as_scopes s))"

named_theorems tidy_rules

lemma tidyI:
  assumes "\<And>s r s'. f s = Some (r, s') \<Longrightarrow>
    as_held s' = as_held s \<and> sr_layers (as_scopes s') = sr_layers (as_scopes s)"
  shows "tidy f"
  using assms by (simp add: tidy_def)

lemma tidyD:
  assumes "tidy f" and "f s = Some (r, s')"
  shows "as_held s' = as_held s" "sr_layers (as_scopes s') = sr_layers (as_scopes s)"
  using assms by (auto simp: tidy_def)

lemma tidy_stop [tidy_rules]: "tidy (\<lambda>s. Some (r, s))"
  by (simp add: tidy_def)

lemma tidy_try_env [tidy_rules]:
  assumes "\<And>x. tidy (k x)"
  shows "tidy (try_env f k)"
  by (rule tidyI) (auto simp: try_env_def split: prod.splits sum.splits dest: tidyD [OF assms])

lemma tidy_with_env [tidy_rules]:
  assumes "\<And>x. tidy (k x)"
  shows "tidy (with_env f k)"
  by (rule tidyI) (auto simp: with_env_def split: prod.splits dest: tidyD [OF assms])

lemma tidy_announce [tidy_rules]:
  assumes "tidy k"
  shows "tidy (announce ev k)"
  by (rule tidyI) (auto simp: announce_def dest: tidyD [OF assms])

lemma tidy_find_provider [tidy_rules]:
  assumes "\<And>x. tidy (k x)"
  shows "tidy (find_provider ag pid k)"
  by (rule tidyI) (auto simp: find_provider_def split: option.splits dest: tidyD [OF assms])

lemma tidy_enter_loop [tidy_rules]: "tidy (enter_loop n rt a start)"
  by (rule tidyI) (auto simp: enter_loop_def)

lemma tidy_with_session [tidy_rules]:
  assumes "tidy body"
  shows "tidy (with_session sid body)"
  by (rule tidyI) (auto simp: with_session_def split: if_splits dest: tidyD [OF assms])

lemma tidy_with_scope [tidy_rules]:
  assumes "tidy body"
  shows "tidy (with_scope body)"
  by (rule tidyI) (auto simp: with_scope_def push_scope_def drop_guard_def pop_scope_def dest: tidyD [OF assms])

lemma tidy_run: "tidy (run n ag rq)"
proof -
  have "tidy (run_locked n ag i sid rq)" for i sid
  proof (rule tidyI)
    fix s r s' assume "run_locked n ag i sid rq s = Some (r, s')"
    moreover have "tidy (with_scope (run_admitted n ag i sid rq))"
      unfolding run_admitted_def Let_def by (intro tidy_rules)
    ultimately show "as_held s' = as_held s \<and> sr_layers (as_scopes s') = sr_layers (as_scopes s)"
      by (auto simp: run_locked_def with_env_def Let_def split: prod.splits sum.splits admission_error.splits
          if_splits dest: tidyD)
  qed
  then show ?thesis unfolding run_def by (intro tidy_rules)
qed

lemma tidy_resume: "tidy (resume n ag i)"
  unfolding resume_def resume_locked_def
  by (auto split: option.split intro!: tidy_rules)

section \<open>How a run unfolds\<close>

text \<open>From the run record on: the run ends before it announces itself, or after, or with the turn loop.\<close>

definition announced :: "run_id \<Rightarrow> uuid \<Rightarrow> run_request \<Rightarrow> timestamp \<Rightarrow> agent_event" where
  "announced i sid rq now = EvRunStarted i sid (rq_provider rq) (rq_model rq) now"

inductive unfolds ::
  "nat \<Rightarrow> ('e, 'm) agent \<Rightarrow> run_id \<Rightarrow> uuid \<Rightarrow> run_request \<Rightarrow> run_output flow \<Rightarrow> agent_event list \<Rightarrow> bool"
  for n ag i sid rq where
  unannounced: "unfolds n ag i sid rq (Return_Err err) []"
| only_announced: "unfolds n ag i sid rq (Return_Err err) [announced i sid rq now]"
| looped: "ag_providers ag (rq_provider rq) = Some provider \<Longrightarrow> ra_run_id a = i \<Longrightarrow> ra_session_id a = sid \<Longrightarrow>
    run_loop n (install provider (ag_kernel ag)) a
      (loop_start env (rt_policy (ag_kernel ag))) = Some (r, ls) \<Longrightarrow>
    unfolds n ag i sid rq r (announced i sid rq now # ls_events ls)"

lemma loop_entry_start: "loop_entry p 0 (usage_new 0 0) None None None TsCheckingPolicy 0 e = loop_start e p"
  by (simp add: loop_entry_def loop_start_def)

lemma rt_policy_install [simp]: "rt_policy (install p rt) = rt_policy rt"
  by (simp add: install_def)

lemma loop_args_ids:
  "ra_run_id (loop_args i sid rq scopes) = i" "ra_session_id (loop_args i sid rq scopes) = sid"
  by (simp_all add: loop_args_def)

lemma run_admitted_unfolds:
  assumes "run_admitted n ag i sid rq s = Some (r, s')"
  shows "\<exists>new. as_events s' = as_events s @ new \<and> unfolds n ag i sid rq r new \<and>
    as_admission s' = as_admission s"
  using assms unfolding run_admitted_def Let_def announced_def [symmetric]
  by (auto simp: try_env_def with_env_def announce_def find_provider_def enter_loop_def loop_entry_start
      split: prod.splits sum.splits option.splits
      intro: unannounced only_announced looped [OF _ loop_args_ids])

text \<open>The input has passed admission.\<close>

definition passes ::
  "('e, 'm) agent \<Rightarrow> uuid \<Rightarrow> run_request \<Rightarrow> input_admission \<Rightarrow> input_admission \<Rightarrow> bool" where
  "passes ag sid rq a a' \<longleftrightarrow> (\<exists>now fresh inp evs.
     admit now a (input_record_new (ag_hash ag) fresh now sid (rq_input rq)) = (Inr (inp, evs), a') \<and>
     ir_state inp \<noteq> Rejected)"

lemma run_locked_unfolds:
  assumes "run_locked n ag i sid rq s = Some (r, s')"
  shows "\<exists>new. as_events s' = as_events s @ new \<and> unfolds n ag i sid rq r new \<and>
    ia_config (as_admission s') = ia_config (as_admission s) \<and>
    ia_poisoned (as_admission s') = ia_poisoned (as_admission s) \<and>
    (new \<noteq> [] \<longrightarrow> passes ag sid rq (as_admission s) (as_admission s'))"
proof -
  obtain fresh e1 where f: "ag_uuid ag (as_env s) = (fresh, e1)" by fastforce
  obtain now e2 where t: "rt_now (ag_kernel ag) e1 = (now, e2)" by fastforce
  obtain x a where ad: "admit now (as_admission s) (input_record_new (ag_hash ag) fresh now sid (rq_input rq)) = (x, a)"
    by fastforce
  have same: "ia_config a = ia_config (as_admission s)" "ia_poisoned a = ia_poisoned (as_admission s)"
    using ad by (auto simp: admit_def Let_def split: if_splits)
  show ?thesis
  proof (cases x)
    case (Inl e)
    then show ?thesis using assms f t ad same
      by (cases e) (auto simp: run_locked_def with_env_def intro: unannounced)
  next
    case (Inr ye)
    obtain inp evs where y: "ye = (inp, evs)" by fastforce
    show ?thesis
    proof (cases "ir_state inp = Rejected")
      case True
      then show ?thesis using assms f t ad same Inr y
        by (auto simp: run_locked_def with_env_def Let_def intro: unannounced)
    next
      case False
      obtain j scopes where p: "push_scope (as_scopes s) = (j, scopes)" by fastforce
      define s1 where "s1 = s\<lparr>as_env := e2, as_admission := a, as_scopes := scopes\<rparr>"
      from assms f t ad Inr y False p obtain s2 where
        run: "run_admitted n ag i sid rq s1 = Some (r, s2)"
        and s': "s' = s2\<lparr>as_scopes := drop_guard j (as_scopes s2)\<rparr>"
        by (auto simp: run_locked_def with_env_def Let_def with_scope_def s1_def)
      from run_admitted_unfolds [OF run] obtain new where
        "as_events s2 = as_events s1 @ new" "unfolds n ag i sid rq r new" "as_admission s2 = as_admission s1"
        by blast
      with s' ad Inr y False same show ?thesis
        by (intro exI [where x = new]) (auto simp: s1_def passes_def)
    qed
  qed
qed

lemma run_unfolds:
  assumes "run n ag rq s = Some (r, s')"
  shows "\<exists>i sid new. as_events s' = as_events s @ new \<and> unfolds n ag i sid rq r new \<and>
    ia_config (as_admission s') = ia_config (as_admission s) \<and>
    ia_poisoned (as_admission s') = ia_poisoned (as_admission s) \<and>
    (new \<noteq> [] \<longrightarrow> passes ag sid rq (as_admission s) (as_admission s'))"
proof -
  obtain i e1 where i: "(case rq_run_id rq of Some i \<Rightarrow> Pair i | None \<Rightarrow> ag_uuid ag) (as_env s) = (i, e1)"
    by fastforce
  obtain x e2 where x: "ag_ensure_session ag (rq_session_id rq) e1 = (x, e2)" by fastforce
  define s1 where "s1 = s\<lparr>as_env := e2\<rparr>"
  show ?thesis
  proof (cases "\<exists>sid. x = Inr sid \<and> sid \<notin> as_held s")
    case False
    then have "\<exists>err. r = Return_Err err \<and> as_events s' = as_events s \<and> as_admission s' = as_admission s"
      using assms i x by (cases x) (auto simp: run_def with_env_def try_env_def with_session_def)
    then obtain err where "r = Return_Err err" "as_events s' = as_events s" "as_admission s' = as_admission s"
      by blast
    then show ?thesis
      by (intro exI [of _ i] exI [of _ i] exI [of _ "[]"]) (simp add: unannounced)
  next
    case True
    then obtain sid where sid: "x = Inr sid" "sid \<notin> as_held s" by blast
    with assms i x obtain s2 where
      run: "run_locked n ag i sid rq (s1\<lparr>as_held := insert sid (as_held s)\<rparr>) = Some (r, s2)"
      and s': "s' = s2\<lparr>as_held := as_held s2 - {sid}\<rparr>"
      by (auto simp: run_def with_env_def try_env_def with_session_def s1_def)
    obtain new where "as_events s2 = as_events s @ new" "unfolds n ag i sid rq r new"
      "ia_config (as_admission s2) = ia_config (as_admission s)"
      "ia_poisoned (as_admission s2) = ia_poisoned (as_admission s)"
      "new \<noteq> [] \<longrightarrow> passes ag sid rq (as_admission s) (as_admission s2)"
      using run_locked_unfolds [OF run] by (auto simp: s1_def)
    with s' show ?thesis by (intro exI [of _ i] exI [of _ sid] exI [of _ new]) simp
  qed
qed

section \<open>A runtime with one provider\<close>

definition echo_agent :: "string \<Rightarrow> (unit, unit) agent" where
  "echo_agent known =
     \<lparr>ag_kernel = echo_runtime runtime_policy_default hello_response,
      ag_providers = (\<lambda>pid. if pid = known
         then Some \<lparr>cp_id = ''p'', cp_caps = caps_chat, cp_stream = (\<lambda>_ _ e. (None, e)),
                    cp_complete = (\<lambda>_ _ e. (Some (Inr hello_response), e))\<rparr> else None),
      ag_ensure_session = (\<lambda>_ e. (Inr ''s'', e)), ag_create_run = (\<lambda>_ e. (Inr (), e)),
      ag_load_snapshot = None, ag_uuid = (\<lambda>e. (''r'', e)), ag_hash = (\<lambda>c. of_nat (length c))\<rparr>"

definition idle_state :: "(unit, unit) agent_state" where
  "idle_state = \<lparr>as_env = (), as_events = [], as_held = {}, as_admission = admission_new admission_config_default,
     as_scopes = scoped_new []\<rparr>"

definition after_state :: "agent_event list \<Rightarrow> (unit, unit) agent_state" where
  "after_state evs = \<lparr>as_env = (), as_events = evs, as_held = {},
     as_admission = (admission_new admission_config_default)\<lparr>ia_seen := [5]\<rparr>,
     as_scopes = (scoped_new [])\<lparr>sr_next_id := 1\<rparr>\<rparr>"

definition hello_request :: run_request where
  "hello_request = run_request_new ''p'' ''m'' ''hello''"

lemma install_echo:
  "install \<lparr>cp_id = ''p'', cp_caps = caps_chat, cp_stream = (\<lambda>_ _ e. (None, e)),
     cp_complete = (\<lambda>_ _ e. (Some (Inr resp), e))\<rparr> (echo_runtime p resp) = echo_runtime p resp"
  by (simp add: install_def echo_runtime_def)

lemmas run_defs = run_def run_locked_def run_admitted_def with_env_def try_env_def with_session_def with_scope_def
  announce_def find_provider_def enter_loop_def push_scope_def drop_guard_def pop_scope_def Let_def

lemma trim_hello: "str_trim ''hello'' = ''hello''"
  by code_simp

lemma hello_admitted:
  "admit 0 (admission_new admission_config_default) (input_record_new (\<lambda>c. of_nat (length c)) ''r'' 0 ''s'' ''hello'') =
     (Inr (update_state 0 (input_record_new (\<lambda>c. of_nat (length c)) ''r'' 0 ''s'' ''hello'') Admitted,
        [EvSubmitted ''r'' ''s'' ''hello'' 5 0, EvAdmitted ''r'' 0]),
      (admission_new admission_config_default)\<lparr>ia_seen := [5]\<rparr>)"
  by (simp add: admit_def admission_new_def admission_config_default_def input_record_new_def trim_hello Let_def)

lemma echo_simps:
  "rt_now (echo_runtime p resp) e = (0, e)" "rt_update_status (echo_runtime p resp) i st e = (Inr (), e)"
  "rt_append_message (echo_runtime p resp) sid m e = (Inr ''i'', e)" "rt_policy (echo_runtime p resp) = p"
  "ag_kernel (echo_agent k) = echo_runtime runtime_policy_default hello_response"
  "ag_providers (echo_agent k) pid = (if pid = k
     then Some \<lparr>cp_id = ''p'', cp_caps = caps_chat, cp_stream = (\<lambda>_ _ e. (None, e)),
       cp_complete = (\<lambda>_ _ e. (Some (Inr hello_response), e))\<rparr> else None)"
  "ag_ensure_session (echo_agent k) sid' e = (Inr ''s'', e)" "ag_create_run (echo_agent k) rec e = (Inr (), e)"
  "ag_uuid (echo_agent k) e = (''r'', e)" "ag_hash (echo_agent k) = (\<lambda>c. of_nat (length c))"
  "ag_load_snapshot (echo_agent k) = None"
  by (simp_all add: echo_runtime_def echo_agent_def)

lemma loop_start_env: "ls_env (loop_start e p) = e"
  by (simp add: loop_start_def)

lemma no_tools_specs: "scoped_specs \<lparr>sr_base = [], sr_layers = [(0, [])], sr_next_id = Suc 0\<rparr> = []"
  by (simp add: scoped_specs_def merge_base_def merge_layer_def tools_specs_def)

lemma hello_request_simps:
  "rq_provider hello_request = ''p''" "rq_model hello_request = ''m''" "rq_input hello_request = ''hello''"
  "rq_run_id hello_request = None" "rq_session_id hello_request = None"
  "loop_args ''r'' ''s'' hello_request \<lparr>sr_base = [], sr_layers = [(0, [])], sr_next_id = Suc 0\<rparr> = hello_args"
  by (simp_all add: hello_request_def run_request_new_def loop_args_def hello_args_def scoped_new_def no_tools_specs)

lemma hello_locked:
  "run_locked 2 (echo_agent ''p'') ''r'' ''s'' hello_request (idle_state\<lparr>as_held := {''s''}\<rparr>) =
     Some (Proceed hello_output,
       (after_state (EvRunStarted ''r'' ''s'' ''p'' ''m'' 0 # hello_events))\<lparr>as_held := {''s''}\<rparr>)"
  by (simp add: run_defs echo_simps hello_request_simps idle_state_def hello_admitted update_state_def
      loop_entry_start install_echo scoped_new_def hello_run after_state_def loop_start_env)

lemma hello_agent_run:
  "run 2 (echo_agent ''p'') hello_request idle_state =
     Some (Proceed hello_output, after_state (EvRunStarted ''r'' ''s'' ''p'' ''m'' 0 # hello_events))"
  using hello_locked
  by (simp add: run_def with_env_def try_env_def with_session_def echo_simps hello_request_simps idle_state_def
      after_state_def)

section \<open>Properties\<close>



text \<open>C23: The events of a completed run. A run that succeeds has announced itself first, under the run and
  the session its result names, and has emitted exactly one terminal event, \<open>RunCompleted\<close>, as its last.\<close>

theorem completed_run_events:
  assumes "run n ag rq s = Some (Proceed out, s')"
  shows "\<exists>started es done_at. terminal_events es = [] \<and>
    as_events s' = as_events s @
      EvRunStarted (ro_run_id out) (ro_session_id out) (rq_provider rq) (rq_model rq) started # es @
      [EvRunCompleted (ro_run_id out) (ro_finish_reason out) (ro_iterations out) done_at]"
proof -
  obtain i sid new where new: "as_events s' = as_events s @ new" and u: "unfolds n ag i sid rq (Proceed out) new"
    using run_unfolds [OF assms] by blast
  from u show ?thesis
  proof cases
    case (looped provider a env ls now)
    have "completed (rt_policy (install provider (ag_kernel ag))) (usage_new 0 0) 0 a out ls"
      using run_loop_cases [OF at_head_start, of n "install provider (ag_kernel ag)" a env "Proceed out" ls] looped
      by simp
    then obtain es t where "ls_events ls = es @ [EvRunCompleted i (ro_finish_reason out) (ro_iterations out) t]"
      "terminal_events es = []" "ro_run_id out = i" "ro_session_id out = sid"
      using looped by (auto simp: completed_def)
    with new looped show ?thesis by (auto simp: announced_def)
  qed
qed

lemma completed_run_events_witness:
  "\<exists>started es done_at. terminal_events es = [] \<and>
     EvRunStarted ''r'' ''s'' ''p'' ''m'' 0 # hello_events =
       EvRunStarted ''r'' ''s'' ''p'' ''m'' started # es @ [EvRunCompleted ''r'' Stop 1 done_at]"
  using completed_run_events [OF hello_agent_run]
  by (simp add: idle_state_def after_state_def hello_output_def hello_request_simps)

text \<open>An unknown provider leaves the run open. A run for a provider that is not registered fails, and emits no
  terminal event: when it has announced itself, its announcement is all that is ever emitted for it.\<close>

theorem unknown_provider_leaves_run_open:
  assumes "ag_providers ag (rq_provider rq) = None" and "run n ag rq s = Some (r, s')"
  shows "\<exists>err i sid new. r = Return_Err err \<and> as_events s' = as_events s @ new \<and>
    (new = [] \<or> (\<exists>now. new = [EvRunStarted i sid (rq_provider rq) (rq_model rq) now]))"
proof -
  obtain i sid new where new: "as_events s' = as_events s @ new" and u: "unfolds n ag i sid rq r new"
    using run_unfolds [OF assms(2)] by blast
  from u assms(1) have "\<exists>err. r = Return_Err err" "new = [] \<or> (\<exists>now. new = [announced i sid rq now])"
    by (auto elim: unfolds.cases)
  with new show ?thesis by (auto simp: announced_def)
qed

lemma stray_run:
  "run 2 (echo_agent ''q'') hello_request idle_state =
     Some (Return_Err (ProviderNotFound ''p''), after_state [EvRunStarted ''r'' ''s'' ''p'' ''m'' 0])"
  by (simp add: run_defs echo_simps hello_request_simps idle_state_def hello_admitted update_state_def scoped_new_def
      after_state_def)

lemma unknown_provider_leaves_run_open_witness:
  "\<exists>i sid. [EvRunStarted ''r'' ''s'' ''p'' ''m'' 0] = [] \<or>
     (\<exists>now. [EvRunStarted ''r'' ''s'' ''p'' ''m'' 0] = [EvRunStarted i sid ''p'' ''m'' now])"
  using unknown_provider_leaves_run_open [OF _ stray_run]
  by (simp add: echo_simps hello_request_simps idle_state_def after_state_def)

text \<open>Once an input has passed an admission that refuses duplicates, the same text does not pass again.\<close>

lemma passes_once:
  assumes "passes ag sid rq a a1" and "ia_config a1 = ia_config a" and "str_trim (rq_input rq') = str_trim (rq_input rq)"
    and "ac_enabled (ia_config a)" and "ac_deduplicate (ia_config a)" and "\<not> ia_poisoned a"
  shows "\<not> passes ag sid' rq' a1 a2"
proof -
  have "ag_hash ag (str_trim (rq_input rq)) \<in> set (ia_seen a1)"
    using assms unfolding passes_def
    by (auto simp: admit_def Let_def input_record_new_def rejected_with_def reject_def split: if_splits)
  with assms show ?thesis
    unfolding passes_def
    by (auto simp: admit_def Let_def input_record_new_def rejected_with_def reject_def split: if_splits)
qed


lemma retry_run:
  "run 2 (echo_agent ''q'') hello_request (after_state [EvRunStarted ''r'' ''s'' ''p'' ''m'' 0]) =
     Some (Return_Err (InputRejected ''r'' ''duplicate input''), after_state [EvRunStarted ''r'' ''s'' ''p'' ''m'' 0])"
  by (simp add: run_def run_locked_def with_env_def try_env_def with_session_def echo_simps hello_request_simps
      after_state_def admit_def Let_def input_record_new_def trim_hello admission_new_def
      admission_config_default_def rejected_with_def reject_def)


end
