(* ===== verification/Invocation.thy ===== *)
theory Invocation
  imports Event_Store "HOL-Library.AList"
begin

text \<open>
  The invocation facade (\<open>behest-runtime/src/invocation.rs\<close>): emit requests, the per-session data stores
  behind one contract, event kinds, the \<open>Control\<close> of an invocation and the listener that \<open>on\<close> spawns.
  Locks enter a poisoned mutex, so they never fail. The content of a session file is what \<open>serde_json\<close>
  reads from it, or the message with which it refuses. A listener takes one step per thing that happens
  to it; fresh identifiers and the clock are arguments.
\<close>

section \<open>Emit requests\<close>

record emit_request =
  em_provider :: provider_id
  em_model :: model_name
  em_input :: string
  em_session_id :: "uuid option"
  em_client_request_id :: "string option"
  em_metadata :: json

definition emit_request_new :: "provider_id \<Rightarrow> model_name \<Rightarrow> string \<Rightarrow> emit_request" where
  "emit_request_new p m inp =
     \<lparr>em_provider = p, em_model = m, em_input = inp, em_session_id = None, em_client_request_id = None,
      em_metadata = JNull\<rparr>"

definition em_with_session_id :: "uuid \<Rightarrow> emit_request \<Rightarrow> emit_request" where
  "em_with_session_id s r = r\<lparr>em_session_id := Some s\<rparr>"

definition em_with_client_request_id :: "string \<Rightarrow> emit_request \<Rightarrow> emit_request" where
  "em_with_client_request_id i r = r\<lparr>em_client_request_id := Some i\<rparr>"

definition em_with_metadata :: "json \<Rightarrow> emit_request \<Rightarrow> emit_request" where
  "em_with_metadata m r = r\<lparr>em_metadata := m\<rparr>"

definition into_run_request :: "emit_request \<Rightarrow> run_request" where
  "into_run_request r =
     \<lparr>rq_session_id = em_session_id r, rq_run_id = None, rq_provider = em_provider r, rq_model = em_model r,
      rq_input = em_input r, rq_metadata = em_metadata r, rq_tool_choice = ChoiceAuto,
      rq_client_request_id = em_client_request_id r\<rparr>"

section \<open>Session data: the contract\<close>

datatype session_data_error = DataNotFound uuid string | DataStorage string

locale session_data =
  fixes set_key :: "'st \<Rightarrow> uuid \<Rightarrow> string \<Rightarrow> json \<Rightarrow> (session_data_error + unit) \<times> 'st"
    and get_key :: "'st \<Rightarrow> uuid \<Rightarrow> string \<Rightarrow> session_data_error + json option"
    and delete_key :: "'st \<Rightarrow> uuid \<Rightarrow> string \<Rightarrow> (session_data_error + unit) \<times> 'st"
    and sound :: "'st \<Rightarrow> bool"
  assumes get_sound: "sound st \<Longrightarrow> \<exists>v. get_key st s k = Inr v"
    and set_sound: "sound st \<Longrightarrow> fst (set_key st s k v) = Inr () \<and> sound (snd (set_key st s k v))"
    and delete_sound: "sound st \<Longrightarrow> fst (delete_key st s k) = Inr () \<and> sound (snd (delete_key st s k))"
    and get_set: "sound st \<Longrightarrow>
      get_key (snd (set_key st s k v)) s' k' = (if s' = s \<and> k' = k then Inr (Some v) else get_key st s' k')"
    and get_delete: "sound st \<Longrightarrow>
      get_key (snd (delete_key st s k)) s' k' = (if s' = s \<and> k' = k then Inr None else get_key st s' k')"
begin

text \<open>What a client does to the store of its session, and what a map would remember of it.\<close>

fun write_all :: "'st \<Rightarrow> (uuid \<times> string \<times> json option) list \<Rightarrow> 'st" where
  "write_all st [] = st"
| "write_all st ((s, k, Some v) # ws) = write_all (snd (set_key st s k v)) ws"
| "write_all st ((s, k, None) # ws) = write_all (snd (delete_key st s k)) ws"

lemma write_all_sound: "sound st \<Longrightarrow> sound (write_all st ws)"
  by (induction st ws rule: write_all.induct) (simp_all add: set_sound delete_sound)

lemma get_write_all:
  assumes "sound st"
  shows "get_key (write_all st ws) s k =
    (case map_of (rev (map (\<lambda>(s, k, v). ((s, k), v)) ws)) (s, k) of Some v \<Rightarrow> Inr v | None \<Rightarrow> get_key st s k)"
  using assms
proof (induction st ws rule: write_all.induct)
  case (2 st s' k' v ws)
  then show ?case
    by (simp add: set_sound get_set map_add_def split: option.splits)
next
  case (3 st s' k' ws)
  then show ?case
    by (simp add: delete_sound get_delete map_add_def split: option.splits)
qed simp

end

section \<open>The in-memory store\<close>

type_synonym memory_data = "((uuid \<times> string) \<times> json) list"

definition memory_set :: "memory_data \<Rightarrow> uuid \<Rightarrow> string \<Rightarrow> json \<Rightarrow> (session_data_error + unit) \<times> memory_data" where
  "memory_set st s k v = (Inr (), AList.update (s, k) v st)"

definition memory_get :: "memory_data \<Rightarrow> uuid \<Rightarrow> string \<Rightarrow> session_data_error + json option" where
  "memory_get st s k = Inr (map_of st (s, k))"

definition memory_delete :: "memory_data \<Rightarrow> uuid \<Rightarrow> string \<Rightarrow> (session_data_error + unit) \<times> memory_data" where
  "memory_delete st s k = (Inr (), AList.delete (s, k) st)"

interpretation mem: session_data memory_set memory_get memory_delete "\<lambda>_. True"
  by unfold_locales (auto simp: memory_set_def memory_get_def memory_delete_def update_conv' delete_conv')

section \<open>The file store\<close>

text \<open>A file parses to the entries of an object, or it does not and \<open>serde_json\<close> says why. What the operating
  system answers to the calls of one operation, \<open>None\<close> when they succeed, is its fate; a failed write
  leaves the file as \<open>ff_torn\<close> says.\<close>

datatype file_text = JsonText "(string \<times> json) list" | Garbled string

type_synonym session_files = "uuid \<Rightarrow> file_text option"

record file_fate =
  ff_join :: "string option"
  ff_mkdir :: "string option"
  ff_read :: "string option"
  ff_write :: "string option"
  ff_torn :: file_text

definition calm :: file_fate where
  "calm = \<lparr>ff_join = None, ff_mkdir = None, ff_read = None, ff_write = None, ff_torn = Garbled []\<rparr>"

definition storage_failure :: "string \<Rightarrow> string \<Rightarrow> session_data_error" where
  "storage_failure what e = DataStorage (what @ e)"

text \<open>Reading the file of a session that exists.\<close>

definition read_file :: "file_fate \<Rightarrow> file_text \<Rightarrow> session_data_error + (string \<times> json) list" where
  "read_file f t =
     (case ff_read f of
        Some e \<Rightarrow> Inl (storage_failure ''failed to read session file: '' e)
      | None \<Rightarrow> (case t of
            Garbled e \<Rightarrow> Inl (storage_failure ''failed to parse session file: '' e)
          | JsonText kvs \<Rightarrow> Inr kvs))"

definition write_file ::
  "file_fate \<Rightarrow> session_files \<Rightarrow> uuid \<Rightarrow> (string \<times> json) list \<Rightarrow> (session_data_error + unit) \<times> session_files" where
  "write_file f st s kvs =
     (case ff_write f of
        Some e \<Rightarrow> (Inl (storage_failure ''failed to write session file: '' e), st(s \<mapsto> ff_torn f))
      | None \<Rightarrow> (Inr (), st(s \<mapsto> JsonText kvs)))"

text \<open>\<open>spawn_blocking\<close>: a task that fails before it runs.\<close>

definition file_set ::
  "file_fate \<Rightarrow> session_files \<Rightarrow> uuid \<Rightarrow> string \<Rightarrow> json \<Rightarrow> (session_data_error + unit) \<times> session_files" where
  "file_set f st s k v =
     (case ff_join f of Some e \<Rightarrow> (Inl (storage_failure ''spawn_blocking error: '' e), st) | None \<Rightarrow>
      case ff_mkdir f of Some e \<Rightarrow> (Inl (storage_failure ''failed to create base dir: '' e), st) | None \<Rightarrow>
      case (case st s of Some t \<Rightarrow> read_file f t | None \<Rightarrow> Inr []) of
        Inl e \<Rightarrow> (Inl e, st)
      | Inr kvs \<Rightarrow> write_file f st s (AList.update k v kvs))"

definition file_get :: "file_fate \<Rightarrow> session_files \<Rightarrow> uuid \<Rightarrow> string \<Rightarrow> session_data_error + json option" where
  "file_get f st s k =
     (case ff_join f of Some e \<Rightarrow> Inl (storage_failure ''spawn_blocking error: '' e) | None \<Rightarrow>
      case st s of
        None \<Rightarrow> Inr None
      | Some t \<Rightarrow> (case read_file f t of Inl e \<Rightarrow> Inl e | Inr kvs \<Rightarrow> Inr (map_of kvs k)))"

definition file_delete ::
  "file_fate \<Rightarrow> session_files \<Rightarrow> uuid \<Rightarrow> string \<Rightarrow> (session_data_error + unit) \<times> session_files" where
  "file_delete f st s k =
     (case ff_join f of Some e \<Rightarrow> (Inl (storage_failure ''spawn_blocking error: '' e), st) | None \<Rightarrow>
      case st s of
        None \<Rightarrow> (Inr (), st)
      | Some t \<Rightarrow> (case read_file f t of
            Inl e \<Rightarrow> (Inl e, st)
          | Inr kvs \<Rightarrow> write_file f st s (AList.delete k kvs)))"

definition readable :: "session_files \<Rightarrow> bool" where
  "readable st \<longleftrightarrow> (\<forall>s t. st s = Some t \<longrightarrow> (\<exists>kvs. t = JsonText kvs))"

lemmas file_defs = file_set_def file_get_def file_delete_def read_file_def write_file_def

text \<open>With an operating system that answers, the files keep the contract as long as they parse.\<close>

interpretation files: session_data "file_set calm" "file_get calm" "file_delete calm" readable
proof
  fix st s k v s' k' assume r: "readable st"
  then have parses: "st s = None \<or> (\<exists>kvs. st s = Some (JsonText kvs))" for s
    by (cases "st s") (auto simp: readable_def)
  show "\<exists>v. file_get calm st s k = Inr v"
    using parses [of s] by (auto simp: file_defs calm_def)
  show "fst (file_set calm st s k v) = Inr () \<and> readable (snd (file_set calm st s k v))"
    using parses [of s] r by (auto simp: file_defs calm_def readable_def split: if_splits)
  show "fst (file_delete calm st s k) = Inr () \<and> readable (snd (file_delete calm st s k))"
    using parses [of s] r by (auto simp: file_defs calm_def readable_def split: if_splits)
  show "file_get calm (snd (file_set calm st s k v)) s' k' =
      (if s' = s \<and> k' = k then Inr (Some v) else file_get calm st s' k')"
    using parses [of s] by (auto simp: file_defs calm_def update_conv')
  show "file_get calm (snd (file_delete calm st s k)) s' k' =
      (if s' = s \<and> k' = k then Inr None else file_get calm st s' k')"
    using parses [of s] by (auto simp: file_defs calm_def delete_conv')
qed

section \<open>The session of an invocation\<close>

text \<open>The store behind the session is given by its three operations.\<close>

record invocation_session =
  is_session_id :: "uuid option"
  is_run_id :: "run_id option"

definition no_session :: session_data_error where
  "no_session = DataStorage ''session_id not available''"

definition session_set_data ::
  "('st \<Rightarrow> uuid \<Rightarrow> string \<Rightarrow> json \<Rightarrow> (session_data_error + unit) \<times> 'st) \<Rightarrow> invocation_session \<Rightarrow>
   string \<Rightarrow> json \<Rightarrow> 'st \<Rightarrow> (session_data_error + unit) \<times> 'st" where
  "session_set_data set_key i k v st =
     (case is_session_id i of None \<Rightarrow> (Inl no_session, st) | Some s \<Rightarrow> set_key st s k v)"

definition session_get_data ::
  "('st \<Rightarrow> uuid \<Rightarrow> string \<Rightarrow> session_data_error + json option) \<Rightarrow> invocation_session \<Rightarrow> string \<Rightarrow> 'st \<Rightarrow>
   session_data_error + json option" where
  "session_get_data get_key i k st = (case is_session_id i of None \<Rightarrow> Inl no_session | Some s \<Rightarrow> get_key st s k)"

definition session_delete_data ::
  "('st \<Rightarrow> uuid \<Rightarrow> string \<Rightarrow> (session_data_error + unit) \<times> 'st) \<Rightarrow> invocation_session \<Rightarrow> string \<Rightarrow> 'st \<Rightarrow>
   (session_data_error + unit) \<times> 'st" where
  "session_delete_data delete_key i k st =
     (case is_session_id i of None \<Rightarrow> (Inl no_session, st) | Some s \<Rightarrow> delete_key st s k)"

section \<open>Events and kinds\<close>

datatype invocation_event = AgentEv agent_event | ChatEv chat_stream_event

fun invocation_run_id :: "invocation_event \<Rightarrow> run_id option" where
  "invocation_run_id (AgentEv e) = Some (event_run_id e)"
| "invocation_run_id (ChatEv _) = None"

fun as_agent :: "invocation_event \<Rightarrow> agent_event option" where
  "as_agent (AgentEv e) = Some e"
| "as_agent (ChatEv _) = None"

datatype event_kind =
    KAny | KRunStarted | KContextBuilt | KModelStarted | KTextDelta | KToolCallStarted | KToolCallDelta
  | KToolCallCompleted | KToolExecutionStarted | KToolExecutionFinished | KAssistantMessageCommitted
  | KToolMessageCommitted | KUsageRecorded | KCacheMetrics | KRunCompleted | KRunFailed | KRunCancelled
  | KDoomLoopDetected | KCompactionCircuitOpened
  | KChatStarted | KChatTextDelta | KChatToolCallStarted | KChatToolCallArgumentsDelta
  | KChatToolCallCompleted | KChatFinished

text \<open>The kind a \<open>matches!\<close> on the event names.\<close>

fun kind_of_agent :: "agent_event \<Rightarrow> event_kind" where
  "kind_of_agent (EvRunStarted _ _ _ _ _) = KRunStarted"
| "kind_of_agent (EvContextBuilt _ _ _) = KContextBuilt"
| "kind_of_agent (EvModelStarted _ _ _ _ _) = KModelStarted"
| "kind_of_agent (EvTextDelta _ _ _) = KTextDelta"
| "kind_of_agent (EvToolCallStarted _ _ _ _) = KToolCallStarted"
| "kind_of_agent (EvToolCallDelta _ _ _ _) = KToolCallDelta"
| "kind_of_agent (EvToolCallCompleted _ _ _) = KToolCallCompleted"
| "kind_of_agent (EvToolExecutionStarted _ _ _ _) = KToolExecutionStarted"
| "kind_of_agent (EvToolExecutionFinished _ _ _ _ _ _) = KToolExecutionFinished"
| "kind_of_agent (EvAssistantMessageCommitted _ _ _) = KAssistantMessageCommitted"
| "kind_of_agent (EvToolMessageCommitted _ _ _) = KToolMessageCommitted"
| "kind_of_agent (EvUsageRecorded _ _ _) = KUsageRecorded"
| "kind_of_agent (EvCacheMetrics _ _ _ _ _) = KCacheMetrics"
| "kind_of_agent (EvRunCompleted _ _ _ _) = KRunCompleted"
| "kind_of_agent (EvRunFailed _ _ _) = KRunFailed"
| "kind_of_agent (EvRunCancelled _ _) = KRunCancelled"
| "kind_of_agent (EvDoomLoopDetected _ _ _) = KDoomLoopDetected"
| "kind_of_agent (EvCompactionCircuitOpened _ _ _) = KCompactionCircuitOpened"

fun kind_of_chat :: "chat_stream_event \<Rightarrow> event_kind" where
  "kind_of_chat (StreamStarted _ _) = KChatStarted"
| "kind_of_chat (StreamText _) = KChatTextDelta"
| "kind_of_chat (StreamToolStarted _ _) = KChatToolCallStarted"
| "kind_of_chat (StreamToolArguments _ _) = KChatToolCallArgumentsDelta"
| "kind_of_chat (StreamToolCompleted _) = KChatToolCallCompleted"
| "kind_of_chat (StreamFinished _ _) = KChatFinished"

definition matches_agent :: "event_kind \<Rightarrow> agent_event \<Rightarrow> bool" where
  "matches_agent k e \<longleftrightarrow> k = KAny \<or> k = kind_of_agent e"

definition matches_chat :: "event_kind \<Rightarrow> chat_stream_event \<Rightarrow> bool" where
  "matches_chat k e \<longleftrightarrow> k = KAny \<or> k = kind_of_chat e"

fun matches :: "event_kind \<Rightarrow> invocation_event \<Rightarrow> bool" where
  "matches k (AgentEv e) = matches_agent k e"
| "matches k (ChatEv e) = matches_chat k e"

section \<open>Control\<close>

text \<open>The extension map holds values of any type \<open>'d\<close> under the identifier of their type.\<close>

record 'd control =
  ct_cancelled :: bool
  ct_timeout :: "duration option"
  ct_limit :: "usize option"
  ct_data :: "(nat \<times> 'd) list"

definition control_new :: "'d control" where
  "control_new = \<lparr>ct_cancelled = False, ct_timeout = None, ct_limit = None, ct_data = []\<rparr>"

definition cancel :: "'d control \<Rightarrow> 'd control" where
  "cancel c = c\<lparr>ct_cancelled := True\<rparr>"

definition set_timeout :: "duration \<Rightarrow> 'd control \<Rightarrow> 'd control" where
  "set_timeout d c = c\<lparr>ct_timeout := Some d\<rparr>"

definition set_concurrency_limit :: "usize \<Rightarrow> 'd control \<Rightarrow> 'd control" where
  "set_concurrency_limit n c = c\<lparr>ct_limit := Some (max n 1)\<rparr>"

definition control_set_data :: "nat \<Rightarrow> 'd \<Rightarrow> 'd control \<Rightarrow> 'd control" where
  "control_set_data t v c = c\<lparr>ct_data := AList.update t v (ct_data c)\<rparr>"

definition control_data :: "'d control \<Rightarrow> nat \<Rightarrow> 'd option" where
  "control_data c t = map_of (ct_data c) t"

definition make_control :: "(nat \<times> 'd) list \<Rightarrow> 'd control" where
  "make_control initial = control_new\<lparr>ct_data := fold (\<lambda>(t, v). AList.update t v) initial []\<rparr>"

definition task_cancelled :: "string" where
  "task_cancelled = ''cancelled''"

datatype invocation_error = InvRuntime runtime_error | TaskFailed string | InvalidRequest string

text \<open>\<open>emit\<close>: the closure acts on the environment and may cancel the control it is given; the run is that of
  the agent.\<close>

definition emit_run ::
  "(nat \<times> 'd) list \<Rightarrow> (invocation_session \<Rightarrow> 'd control \<Rightarrow> 'e \<Rightarrow> (emit_request \<times> 'd control) \<times> 'e) \<Rightarrow>
   (run_request \<Rightarrow> 'e \<Rightarrow> (runtime_error + 'o) \<times> 'e) \<Rightarrow> 'e \<Rightarrow> (invocation_error + 'o) \<times> 'e" where
  "emit_run initial f run_agent e =
     (let control = make_control initial in
      if ct_cancelled control then (Inl (TaskFailed task_cancelled), e)
      else case f \<lparr>is_session_id = None, is_run_id = None\<rparr> control e of
        ((request, control'), e1) \<Rightarrow>
          if ct_cancelled control' then (Inl (TaskFailed task_cancelled), e1)
          else (case run_agent (into_run_request request) e1 of
              (Inl err, e2) \<Rightarrow> (Inl (InvRuntime err), e2)
            | (Inr out, e2) \<Rightarrow> (Inr out, e2)))"

section \<open>The listener\<close>

text \<open>What the listener tasks of one facade do: the session map is shared by all of them. A listener has the
  permits of its semaphore, when it has one; with none left it holds the dispatch it waits to make. What
  it has handed to its handler is its log.\<close>

record dispatch =
  di_envelope :: event_envelope
  di_session :: invocation_session

record listener =
  li_kind :: event_kind
  li_running :: bool
  li_cancelled :: bool
  li_limit :: "usize option"
  li_permits :: "usize option"
  li_waiting :: "dispatch option"
  li_active :: nat
  li_log :: "dispatch list"

record facade =
  fa_sessions :: "(run_id \<times> uuid) list"
  fa_listeners :: "listener list"

definition facade_new :: facade where
  "facade_new = \<lparr>fa_sessions = [], fa_listeners = []\<rparr>"

definition listener_new :: "event_kind \<Rightarrow> 'd control \<Rightarrow> listener" where
  "listener_new k c = \<lparr>li_kind = k, li_running = True, li_cancelled = ct_cancelled c, li_limit = ct_limit c,
     li_permits = ct_limit c, li_waiting = None, li_active = 0, li_log = []\<rparr>"

text \<open>The session of an event: a start is recorded, any other event is looked up.\<close>

definition session_of_event :: "agent_event \<Rightarrow> (run_id \<times> uuid) list \<Rightarrow> uuid option \<times> (run_id \<times> uuid) list" where
  "session_of_event ev sessions =
     (case ev of
        EvRunStarted r s _ _ _ \<Rightarrow> (Some s, AList.update r s sessions)
      | _ \<Rightarrow> (map_of sessions (event_run_id ev), sessions))"

definition dispatch_of :: "uuid \<Rightarrow> timestamp \<Rightarrow> uuid option \<Rightarrow> agent_event \<Rightarrow> dispatch" where
  "dispatch_of fresh now sid ev =
     \<lparr>di_envelope = \<lparr>ee_event_id = fresh, ee_seq = 0, ee_run_id = event_run_id ev, ee_session_id = sid,
        ee_event = ev, ee_emitted_at = now\<rparr>,
      di_session = \<lparr>is_session_id = sid, is_run_id = Some (event_run_id ev)\<rparr>\<rparr>"

text \<open>Handing over a dispatch, with a permit when there is a semaphore.\<close>

definition hand_over :: "dispatch \<Rightarrow> listener \<Rightarrow> listener" where
  "hand_over d li =
     (case li_permits li of
        Some 0 \<Rightarrow> li\<lparr>li_waiting := Some d\<rparr>
      | Some (Suc n) \<Rightarrow>
          li\<lparr>li_permits := Some n, li_waiting := None, li_active := li_active li + 1, li_log := li_log li @ [d]\<rparr>
      | None \<Rightarrow> li\<lparr>li_waiting := None, li_active := li_active li + 1, li_log := li_log li @ [d]\<rparr>)"

definition on_event ::
  "uuid \<Rightarrow> timestamp \<Rightarrow> agent_event \<Rightarrow> (run_id \<times> uuid) list \<Rightarrow> listener \<Rightarrow> (run_id \<times> uuid) list \<times> listener" where
  "on_event fresh now ev sessions li =
     (if li_cancelled li then (sessions, li\<lparr>li_running := False\<rparr>)
      else if \<not> matches_agent (li_kind li) ev then (sessions, li)
      else case session_of_event ev sessions of
        (sid, sessions') \<Rightarrow> (sessions', hand_over (dispatch_of fresh now sid ev) li))"

text \<open>What happens to the \<open>i\<close>-th listener: an event or a lag notice is received, the channel closes, a clone of
  its control is cancelled, a handler returns and gives its permit back, its handle is dropped. A listener
  that waits for a permit receives nothing.\<close>

datatype listen_event =
    Received uuid timestamp agent_event
  | Lagged
  | Closed
  | Cancelled
  | HandlerReturns
  | HandleDropped

definition release :: "listener \<Rightarrow> listener" where
  "release li = li\<lparr>li_active := li_active li - 1, li_permits := map_option Suc (li_permits li)\<rparr>"

definition wake :: "listener \<Rightarrow> listener" where
  "wake li = (case li_waiting li of Some d \<Rightarrow> if li_running li then hand_over d li else li | None \<Rightarrow> li)"

fun listen ::
  "listen_event \<Rightarrow> (run_id \<times> uuid) list \<Rightarrow> listener \<Rightarrow> (run_id \<times> uuid) list \<times> listener" where
  "listen (Received fresh now ev) ss li =
     (if li_running li \<and> li_waiting li = None then on_event fresh now ev ss li else (ss, li))"
| "listen Lagged ss li = (ss, li)"
| "listen Closed ss li =
     (ss, if li_running li \<and> li_waiting li = None then li\<lparr>li_running := False\<rparr> else li)"
| "listen Cancelled ss li = (ss, li\<lparr>li_cancelled := True\<rparr>)"
| "listen HandlerReturns ss li = (ss, if 0 < li_active li then wake (release li) else li)"
| "listen HandleDropped ss li = (ss, li\<lparr>li_running := False, li_waiting := None\<rparr>)"

text \<open>The listeners of a facade, with the session map they share.\<close>

definition facade_on :: "event_kind \<Rightarrow> 'd control \<Rightarrow> facade \<Rightarrow> facade" where
  "facade_on k c f = f\<lparr>fa_listeners := fa_listeners f @ [listener_new k c]\<rparr>"

definition facade_listen :: "nat \<Rightarrow> listen_event \<Rightarrow> facade \<Rightarrow> facade" where
  "facade_listen i ev f =
     (case listen ev (fa_sessions f) (fa_listeners f ! i) of
        (ss, li) \<Rightarrow> \<lparr>fa_sessions = ss, fa_listeners = (fa_listeners f)[i := li]\<rparr>)"

inductive facade_reachable :: "facade \<Rightarrow> bool" where
  new: "facade_reachable facade_new"
| on: "facade_reachable f \<Longrightarrow> facade_reachable (facade_on k (c :: json control) f)"
| listen: "facade_reachable f \<Longrightarrow> i < length (fa_listeners f) \<Longrightarrow> facade_reachable (facade_listen i ev f)"

section \<open>Invariants of the listeners\<close>

definition permits_account :: "listener \<Rightarrow> bool" where
  "permits_account li \<longleftrightarrow> (li_waiting li \<noteq> None \<longrightarrow> li_running li) \<and>
     (case li_limit li of
        None \<Rightarrow> li_permits li = None \<and> li_waiting li = None
      | Some n \<Rightarrow> \<exists>p. li_permits li = Some p \<and> li_active li + p = n \<and> (li_waiting li \<noteq> None \<longrightarrow> p = 0))"

lemma hand_over_account:
  "permits_account li \<Longrightarrow> li_running li \<Longrightarrow> permits_account (hand_over d li)"
  by (auto simp: permits_account_def hand_over_def split: option.splits nat.splits)

lemma hand_over_kept [simp]:
  "li_kind (hand_over d li) = li_kind li" "li_limit (hand_over d li) = li_limit li"
  "li_running (hand_over d li) = li_running li" "li_cancelled (hand_over d li) = li_cancelled li"
  by (simp_all add: hand_over_def split: option.split nat.split)

lemma release_account:
  assumes "permits_account li" and "0 < li_active li"
  shows "permits_account (wake (release li))"
  using assms
  by (auto simp: permits_account_def wake_def release_def hand_over_def split: option.splits nat.splits)

lemma listen_account:
  assumes "permits_account li"
  shows "permits_account (snd (listen ev ss li))"
proof (cases ev)
  case (Received fresh now e)
  have "permits_account (li\<lparr>li_running := False\<rparr>)" if "li_waiting li = None"
    using assms that by (simp add: permits_account_def split: option.splits)
  with Received show ?thesis using assms hand_over_account [OF assms]
    by (simp add: on_event_def split: prod.split)
qed (use assms release_account in \<open>auto simp: permits_account_def split: option.splits\<close>)

lemma facade_listen_sel:
  "listen ev (fa_sessions f) (fa_listeners f ! i) = (ss, li) \<Longrightarrow>
   facade_listen i ev f = \<lparr>fa_sessions = ss, fa_listeners = (fa_listeners f)[i := li]\<rparr>"
  by (simp add: facade_listen_def)

lemma facade_account:
  assumes "facade_reachable f"
  shows "list_all permits_account (fa_listeners f)"
  using assms
proof induction
  case (on f k c)
  then show ?case by (simp add: facade_on_def listener_new_def permits_account_def split: option.split)
next
  case (listen f i ev)
  then show ?case
    using listen_account [of "fa_listeners f ! i" ev "fa_sessions f"]
    by (auto simp: facade_listen_def list_all_iff split: prod.splits dest!: set_update_subset_insert [THEN subsetD])
qed (simp add: facade_new_def)


text \<open>What the session map knows comes from \<open>RunStarted\<close> events that passed the kind filter.\<close>

definition deaf_to_starts :: "facade \<Rightarrow> bool" where
  "deaf_to_starts f \<longleftrightarrow> (\<forall>li\<in>set (fa_listeners f). li_kind li \<noteq> KAny \<and> li_kind li \<noteq> KRunStarted)"

definition unnamed :: "listener \<Rightarrow> bool" where
  "unnamed li \<longleftrightarrow> (\<forall>d\<in>set (li_log li) \<union> set_option (li_waiting li). ee_session_id (di_envelope d) = None)"

lemma hand_over_unnamed:
  "unnamed li \<Longrightarrow> ee_session_id (di_envelope d) = None \<Longrightarrow> unnamed (hand_over d li)"
  by (auto simp: unnamed_def hand_over_def split: option.split nat.split)

lemma unmatched_start:
  assumes "k \<noteq> KAny" and "k \<noteq> KRunStarted" and "matches_agent k ev"
  shows "session_of_event ev ss = (map_of ss (event_run_id ev), ss)"
  using assms by (cases ev) (auto simp: matches_agent_def session_of_event_def)

lemma listen_unnamed:
  assumes "unnamed li" and "li_kind li \<noteq> KAny" and "li_kind li \<noteq> KRunStarted"
  shows "fst (listen ev [] li) = [] \<and> unnamed (snd (listen ev [] li)) \<and>
    li_kind (snd (listen ev [] li)) = li_kind li"
proof (cases ev)
  case (Received fresh now e)
  have "unnamed (li\<lparr>li_running := False\<rparr>)" using assms(1) by (simp add: unnamed_def)
  with Received assms show ?thesis
    by (auto simp: on_event_def unmatched_start dispatch_of_def hand_over_unnamed)
next
  case HandlerReturns
  have "unnamed (release li)" using assms(1) by (simp add: unnamed_def release_def)
  then have "unnamed (wake (release li))"
    unfolding wake_def by (auto split: option.split intro!: hand_over_unnamed) (simp add: unnamed_def)
  moreover have "li_kind (wake (release li)) = li_kind li"
    by (simp add: wake_def release_def split: option.split)
  ultimately show ?thesis using HandlerReturns assms by simp
qed (use assms in \<open>auto simp: unnamed_def\<close>)

lemma facade_unnamed:
  assumes "facade_reachable f" and "deaf_to_starts f"
  shows "fa_sessions f = [] \<and> list_all unnamed (fa_listeners f)"
  using assms
proof induction
  case (on f k c)
  then show ?case by (simp add: facade_on_def deaf_to_starts_def listener_new_def unnamed_def)
next
  case (listen f i ev)
  obtain ss li where l: "listen ev (fa_sessions f) (fa_listeners f ! i) = (ss, li)" by fastforce
  have f': "facade_listen i ev f = \<lparr>fa_sessions = ss, fa_listeners = (fa_listeners f)[i := li]\<rparr>"
    using l by (simp add: facade_listen_def)
  have kind: "li_kind li = li_kind (fa_listeners f ! i)"
  proof -
    have "li_kind (snd (listen ev t m)) = li_kind m" for t m
      by (cases ev) (auto simp: on_event_def wake_def release_def split: prod.split option.split)
    then show ?thesis using l by (metis snd_conv)
  qed
  have deaf: "li_kind m \<noteq> KAny \<and> li_kind m \<noteq> KRunStarted" if "m \<in> set (fa_listeners f)" for m
  proof (cases "m = fa_listeners f ! i")
    case True
    then show ?thesis using listen.prems listen.hyps f' kind by (auto simp: deaf_to_starts_def set_update_memI)
  next
    case False
    then have "m \<in> set ((fa_listeners f)[i := li])"
      using that listen.hyps by (metis in_set_conv_nth length_list_update nth_list_update_neq)
    then show ?thesis using listen.prems f' by (auto simp: deaf_to_starts_def)
  qed
  then have "fa_sessions f = [] \<and> list_all unnamed (fa_listeners f)" using listen.IH by (simp add: deaf_to_starts_def)
  with listen_unnamed [of "fa_listeners f ! i" ev] l deaf listen.hyps f' show ?case
    by (auto simp: list_all_iff dest!: set_update_subset_insert [THEN subsetD])
qed (simp add: facade_new_def)

text \<open>Only listeners to starts know sessions. As long as no listener of a facade listens to \<open>RunStarted\<close> or to
  everything, every event handed to a handler comes without its session, although each run was announced
  with it: the kind filter is applied before the session of a start is recorded. A handler for \<open>RunCompleted\<close> on
  such a facade cannot reach its session data.\<close>

theorem filtered_listener_knows_no_session:
  assumes "facade_reachable f" and "deaf_to_starts f" and "li \<in> set (fa_listeners f)" and "d \<in> set (li_log li)"
  shows "ee_session_id (di_envelope d) = None"
  using facade_unnamed [OF assms(1,2)] assms(3,4) by (auto simp: list_all_iff unnamed_def)

definition listen_all :: "(nat \<times> listen_event) list \<Rightarrow> facade \<Rightarrow> facade" where
  "listen_all evs f = fold (\<lambda>(i, ev) f. if i < length (fa_listeners f) then facade_listen i ev f else f) evs f"

lemma listen_all_reachable: "facade_reachable f \<Longrightarrow> facade_reachable (listen_all evs f)"
  unfolding listen_all_def
  by (induction evs arbitrary: f) (auto simp: facade_reachable.listen)

definition completion_listener :: "json control \<Rightarrow> facade" where
  "completion_listener c = listen_all
     [(0, Received ''e1'' 1 (EvRunStarted ''r'' ''s'' ''p'' ''m'' 1)),
      (0, Received ''e2'' 2 (EvRunCompleted ''r'' Stop 1 2)),
      (0, Received ''e3'' 3 (EvRunCompleted ''r'' Stop 1 3))]
     (facade_on KRunCompleted c facade_new)"

lemma completion_listener_reachable: "facade_reachable (completion_listener c)"
  unfolding completion_listener_def
  by (intro listen_all_reachable facade_reachable.on facade_reachable.new)

definition stays_unnamed :: "dispatch" where
  "stays_unnamed = dispatch_of ''e2'' 2 None (EvRunCompleted ''r'' Stop 1 2)"

lemma completion_listener_eval:
  "completion_listener (set_concurrency_limit 1 control_new) =
     \<lparr>fa_sessions = [], fa_listeners =
       [\<lparr>li_kind = KRunCompleted, li_running = True, li_cancelled = False, li_limit = Some 1, li_permits = Some 0,
          li_waiting = Some (dispatch_of ''e3'' 3 None (EvRunCompleted ''r'' Stop 1 3)), li_active = 1,
          li_log = [stays_unnamed]\<rparr>]\<rparr>"
  by (simp add: completion_listener_def stays_unnamed_def listen_all_def facade_on_def facade_new_def listener_new_def
      set_concurrency_limit_def control_new_def facade_listen_def on_event_def matches_agent_def session_of_event_def
      hand_over_def)

lemma filtered_listener_knows_no_session_witness:
  "ee_session_id (di_envelope stays_unnamed) = None"
  by (rule filtered_listener_knows_no_session [OF completion_listener_reachable [of "set_concurrency_limit 1 control_new"],
        unfolded completion_listener_eval])
    (auto simp: deaf_to_starts_def)


section \<open>The stores agree\<close>

text \<open>The two session data stores are interchangeable. After the same writes and deletes on stores that
  were empty, the file store answers every lookup as the in-memory store does, provided the operating
  system answers.\<close>

theorem session_stores_agree:
  "file_get calm (files.write_all Map.empty ws) s k = memory_get (mem.write_all [] ws) s k"
proof -
  have "readable Map.empty" by (simp add: readable_def)
  from files.get_write_all [OF this, of ws s k] mem.get_write_all [OF TrueI, of "[]" ws s k]
  show ?thesis by (simp add: file_get_def memory_get_def calm_def split: option.split)
qed

end
