(* ===== verification/Event_Subscription.thy ===== *)
theory Event_Subscription
  imports Event_Store
begin

text \<open>
  Live fanout and subscriptions: rooms (\<open>behest-runtime/src/stream.rs\<close>), the in-memory stream adapter
  (\<open>stream_adapter.rs\<close>), and the bridge and the hub of \<open>subscription.rs\<close>. Everything runs beside
  everything else: the bridge appends an event and then publishes it, room by room; a subscription opens
  its live stream and then reads its replay; a forwarder moves events from a room into the queue of a
  stream; the client polls the queue. Each of these is one step of the world. The events reach the bridge
  through a broadcast channel that may make it lag.
\<close>

section \<open>Rooms\<close>

datatype runtime_room = RoomRun run_id | RoomSession uuid | RoomProvider provider_id

fun show_room :: "runtime_room \<Rightarrow> string" where
  "show_room (RoomRun r) = ''run:'' @ r"
| "show_room (RoomSession s) = ''session:'' @ s"
| "show_room (RoomProvider p) = ''provider:'' @ p"

datatype stream_error = StreamPublish string | StreamLagged nat | StreamSubscribe string | StreamClosed

definition envelope_run_id :: "event_envelope \<Rightarrow> run_id" where
  "envelope_run_id env = event_run_id (ee_event env)"

definition envelope_is_terminal :: "event_envelope \<Rightarrow> bool" where
  "envelope_is_terminal env = event_is_terminal (ee_event env)"

definition room_channel_capacity :: nat where
  "room_channel_capacity = 256"

text \<open>A broadcast channel is everything ever sent on it; it keeps the last \<open>room_channel_capacity\<close> of them. A
  receiver is the position of the next event for it.\<close>

type_synonym rooms = "runtime_room \<Rightarrow> event_envelope list"

definition room_publish :: "runtime_room \<Rightarrow> event_envelope \<Rightarrow> rooms \<Rightarrow> rooms" where
  "room_publish room env rooms = rooms(room := rooms room @ [env])"

definition oldest :: "event_envelope list \<Rightarrow> nat" where
  "oldest sent = length sent - room_channel_capacity"

text \<open>\<open>recv\<close>: nothing yet, the next event, or how many were skipped.\<close>

definition receive_next :: "event_envelope list \<Rightarrow> nat \<Rightarrow> ((stream_error + event_envelope) \<times> nat) option" where
  "receive_next sent pos =
     (if pos < oldest sent then Some (Inl (StreamLagged (oldest sent - pos)), oldest sent)
      else if pos < length sent then Some (Inr (sent ! pos), pos + 1)
      else None)"

section \<open>Live streams\<close>

text \<open>A stream has been opened at a position, its forwarder is at another, and what was forwarded has been polled
  or is queued.\<close>

record live_stream =
  lv_room :: runtime_room
  lv_start :: nat
  lv_pos :: nat
  lv_queue :: "(stream_error + event_envelope) list"
  lv_polled :: "(stream_error + event_envelope) list"

definition adapter_subscribe :: "runtime_room \<Rightarrow> rooms \<Rightarrow> live_stream" where
  "adapter_subscribe room rooms =
     \<lparr>lv_room = room, lv_start = length (rooms room), lv_pos = length (rooms room), lv_queue = [], lv_polled = []\<rparr>"

text \<open>One round of the forwarder; sending waits while the queue is full.\<close>

definition forward :: "rooms \<Rightarrow> live_stream \<Rightarrow> live_stream" where
  "forward rooms lv =
     (if length (lv_queue lv) < room_channel_capacity
      then (case receive_next (rooms (lv_room lv)) (lv_pos lv) of
          Some (item, pos) \<Rightarrow> lv\<lparr>lv_pos := pos, lv_queue := lv_queue lv @ [item]\<rparr>
        | None \<Rightarrow> lv)
      else lv)"

definition poll_stream :: "live_stream \<Rightarrow> live_stream" where
  "poll_stream lv =
     (case lv_queue lv of [] \<Rightarrow> lv | item # q \<Rightarrow> lv\<lparr>lv_queue := q, lv_polled := lv_polled lv @ [item]\<rparr>)"

section \<open>The bridge\<close>

datatype bridge_pc = Draining | PublishRun event_envelope | PublishSession event_envelope

record subscription =
  su_run_id :: run_id
  su_after :: "u64 option"
  su_limit :: nat
  su_live :: live_stream
  su_replay :: "event_envelope list option"

record fanout =
  fo_store :: memory_store
  fo_rooms :: rooms
  fo_bridge :: bridge_pc
  fo_subs :: "subscription list"

definition fanout_new :: fanout where
  "fanout_new = \<lparr>fo_store = memory_store_new, fo_rooms = \<lambda>_. [], fo_bridge = Draining, fo_subs = []\<rparr>"

text \<open>The forwarding loop of the bridge: an event appended is published, one that is not is skipped.\<close>

definition bridge_receive :: "uuid \<Rightarrow> timestamp \<Rightarrow> agent_event \<Rightarrow> fanout \<Rightarrow> fanout" where
  "bridge_receive fresh now ev w =
     (case store_append fresh now (fo_store w) ev of
        (Inr env, st) \<Rightarrow> w\<lparr>fo_store := st, fo_bridge := PublishRun env\<rparr>
      | (Inl err, st) \<Rightarrow> w\<lparr>fo_store := st\<rparr>)"

fun bridge_step :: "bridge_pc \<Rightarrow> fanout \<Rightarrow> fanout" where
  "bridge_step (PublishRun env) w =
     w\<lparr>fo_rooms := room_publish (RoomRun (envelope_run_id env)) env (fo_rooms w),
       fo_bridge := (if ee_session_id env = None then Draining else PublishSession env)\<rparr>"
| "bridge_step (PublishSession env) w =
     (case ee_session_id env of
        Some s \<Rightarrow> w\<lparr>fo_rooms := room_publish (RoomSession s) env (fo_rooms w), fo_bridge := Draining\<rparr>
      | None \<Rightarrow> w\<lparr>fo_bridge := Draining\<rparr>)"
| "bridge_step Draining w = w"

section \<open>The hub\<close>

text \<open>\<open>subscribe_run\<close>: the live stream first, the replay second.\<close>

definition subscribe_live :: "run_id \<Rightarrow> u64 option \<Rightarrow> nat \<Rightarrow> fanout \<Rightarrow> fanout" where
  "subscribe_live r after limit w =
     w\<lparr>fo_subs := fo_subs w @ [\<lparr>su_run_id = r, su_after = after, su_limit = limit,
         su_live = adapter_subscribe (RoomRun r) (fo_rooms w), su_replay = None\<rparr>]\<rparr>"

definition subscribe_replay :: "fanout \<Rightarrow> subscription \<Rightarrow> subscription" where
  "subscribe_replay w s =
     (case su_replay s of
        None \<Rightarrow> (case store_list_after (fo_store w) (su_run_id s) (su_after s) (su_limit s) of
            Inr envs \<Rightarrow> s\<lparr>su_replay := Some envs\<rparr>
          | Inl err \<Rightarrow> s)
      | Some _ \<Rightarrow> s)"

datatype fanout_event =
    BridgeReceives uuid timestamp agent_event
  | BridgeAppendFails agent_event
  | BridgeLags nat
  | BridgeSteps
  | OpensLive run_id "u64 option" nat
  | ReadsReplay nat
  | Forwards nat
  | Polls nat

definition at_sub :: "nat \<Rightarrow> (subscription \<Rightarrow> subscription) \<Rightarrow> fanout \<Rightarrow> fanout" where
  "at_sub i f w = (if i < length (fo_subs w) then w\<lparr>fo_subs := (fo_subs w)[i := f (fo_subs w ! i)]\<rparr> else w)"

fun fanout_act :: "fanout_event \<Rightarrow> fanout \<Rightarrow> fanout" where
  "fanout_act (BridgeReceives fresh now ev) w = (if fo_bridge w = Draining then bridge_receive fresh now ev w else w)"
| "fanout_act (BridgeAppendFails ev) w = w"
| "fanout_act (BridgeLags n) w = w"
| "fanout_act BridgeSteps w = bridge_step (fo_bridge w) w"
| "fanout_act (OpensLive r after limit) w = subscribe_live r after limit w"
| "fanout_act (ReadsReplay i) w = at_sub i (subscribe_replay w) w"
| "fanout_act (Forwards i) w = at_sub i (\<lambda>s. s\<lparr>su_live := forward (fo_rooms w) (su_live s)\<rparr>) w"
| "fanout_act (Polls i) w = at_sub i (\<lambda>s. s\<lparr>su_live := poll_stream (su_live s)\<rparr>) w"

inductive fanout_reachable :: "fanout \<Rightarrow> bool" where
  new: "fanout_reachable fanout_new"
| act: "fanout_reachable w \<Longrightarrow> fanout_reachable (fanout_act ev w)"

section \<open>Invariants\<close>

text \<open>What has been appended and not yet published to the room of its run.\<close>

definition unpublished :: "fanout \<Rightarrow> run_id \<Rightarrow> event_envelope list" where
  "unpublished w r =
     (case fo_bridge w of PublishRun env \<Rightarrow> if envelope_run_id env = r then [env] else [] | _ \<Rightarrow> [])"

definition published_log :: "fanout \<Rightarrow> bool" where
  "published_log w \<longleftrightarrow> (\<forall>r. store_log (fo_store w) r = fo_rooms w (RoomRun r) @ unpublished w r)"

text \<open>Where a stream of items that started at a position has got to, when each event among them is the one at its
  place and a lag skips as many as it says.\<close>

fun tracks :: "event_envelope list \<Rightarrow> nat \<Rightarrow> (stream_error + event_envelope) list \<Rightarrow> nat option" where
  "tracks sent p [] = Some p"
| "tracks sent p (Inr env # xs) = (if p < length sent \<and> sent ! p = env then tracks sent (p + 1) xs else None)"
| "tracks sent p (Inl (StreamLagged n) # xs) = tracks sent (p + n) xs"
| "tracks sent p (Inl _ # xs) = None"

lemma tracks_append [simp]:
  "tracks sent p (xs @ ys) = (case tracks sent p xs of None \<Rightarrow> None | Some q \<Rightarrow> tracks sent q ys)"
  by (induction sent p xs rule: tracks.induct) simp_all

lemma tracks_more: "tracks sent p xs = Some q \<Longrightarrow> tracks (sent @ new) p xs = Some q"
  by (induction sent p xs rule: tracks.induct) (auto simp: nth_append split: if_splits)

definition items :: "live_stream \<Rightarrow> (stream_error + event_envelope) list" where
  "items lv = lv_polled lv @ lv_queue lv"

definition on_track :: "event_envelope list \<Rightarrow> live_stream \<Rightarrow> bool" where
  "on_track sent lv \<longleftrightarrow> tracks sent (lv_start lv) (items lv) = Some (lv_pos lv) \<and>
     lv_start lv \<le> lv_pos lv \<and> lv_pos lv \<le> length sent"

definition replay_ok :: "event_envelope list \<Rightarrow> subscription \<Rightarrow> bool" where
  "replay_ok log s \<longleftrightarrow> (\<forall>envs. su_replay s = Some envs \<longrightarrow>
     (\<exists>m. lv_start (su_live s) \<le> m \<and> m \<le> length log \<and>
        envs = take (su_limit s) (filter (after_filter (su_after s)) (take m log))))"

definition sub_ok :: "fanout \<Rightarrow> subscription \<Rightarrow> bool" where
  "sub_ok w s \<longleftrightarrow> lv_room (su_live s) = RoomRun (su_run_id s) \<and>
     on_track (fo_rooms w (RoomRun (su_run_id s))) (su_live s) \<and> replay_ok (store_log (fo_store w) (su_run_id s)) s"

definition fanout_inv :: "fanout \<Rightarrow> bool" where
  "fanout_inv w \<longleftrightarrow> published_log w \<and> list_all (sub_ok w) (fo_subs w)"

lemma on_track_more: "on_track sent lv \<Longrightarrow> on_track (sent @ new) lv"
  by (auto simp: on_track_def tracks_more)

lemma replay_ok_more: "replay_ok log s \<Longrightarrow> replay_ok (log @ new) s"
  unfolding replay_ok_def
  by (metis (no_types, lifting) le_add1 length_append order.trans take_append append_Nil2 diff_is_0_eq take_0)

lemma sub_ok_grows:
  assumes "sub_ok w s" and "fo_rooms w' (RoomRun (su_run_id s)) = fo_rooms w (RoomRun (su_run_id s)) @ a"
    and "store_log (fo_store w') (su_run_id s) = store_log (fo_store w) (su_run_id s) @ b"
  shows "sub_ok w' s"
  using assms by (simp add: sub_ok_def on_track_more replay_ok_more)

lemma receive_next_track:
  assumes "receive_next sent p = Some (item, q)" and "p \<le> length sent"
  shows "tracks sent p [item] = Some q" "p \<le> q" "q \<le> length sent"
  using assms by (auto simp: receive_next_def oldest_def split: if_splits)

lemma forward_track:
  assumes "on_track (rooms (lv_room lv)) lv"
  shows "on_track (rooms (lv_room lv)) (forward rooms lv)"
proof (cases "length (lv_queue lv) < room_channel_capacity")
  case True
  show ?thesis
  proof (cases "receive_next (rooms (lv_room lv)) (lv_pos lv)")
    case (Some r)
    then obtain item q where r: "receive_next (rooms (lv_room lv)) (lv_pos lv) = Some (item, q)" by (cases r) auto
    let ?lv = "lv\<lparr>lv_pos := q, lv_queue := lv_queue lv @ [item]\<rparr>"
    have "items ?lv = items lv @ [item]" by (simp add: items_def)
    moreover have "forward rooms lv = ?lv" using True r by (simp add: forward_def)
    ultimately show ?thesis using assms receive_next_track [OF r] by (auto simp: on_track_def)
  qed (use assms True in \<open>simp add: forward_def\<close>)
qed (use assms in \<open>simp add: forward_def\<close>)

lemma items_poll: "items (poll_stream lv) = items lv"
  by (simp add: items_def poll_stream_def split: list.split)

lemma poll_track: "on_track sent lv \<Longrightarrow> on_track sent (poll_stream lv)"
  unfolding on_track_def items_poll by (simp add: poll_stream_def split: list.split)

lemma live_kept [simp]:
  "lv_room (forward rooms lv) = lv_room lv" "lv_start (forward rooms lv) = lv_start lv"
  "lv_room (poll_stream lv) = lv_room lv" "lv_start (poll_stream lv) = lv_start lv"
  by (auto simp: forward_def poll_stream_def split: option.split list.split)

lemma at_sub_inv:
  assumes "fanout_inv w" and "\<And>s. sub_ok w s \<Longrightarrow> sub_ok w (f s)"
  shows "fanout_inv (at_sub i f w)"
proof -
  have "sub_ok (at_sub i f w) s = sub_ok w s" for s by (simp add: sub_ok_def at_sub_def)
  with assms show ?thesis
    by (auto simp: fanout_inv_def published_log_def unpublished_def at_sub_def list_all_iff
        dest!: set_update_subset_insert [THEN subsetD])
qed

lemma replay_step:
  assumes "fanout_inv w" and "sub_ok w s"
  shows "sub_ok w (subscribe_replay w s)"
proof (cases "su_replay s")
  case None
  let ?log = "store_log (fo_store w) (su_run_id s)"
  have "length (fo_rooms w (RoomRun (su_run_id s))) \<le> length ?log"
    using assms(1) by (simp add: fanout_inv_def published_log_def)
  then have "lv_start (su_live s) \<le> length ?log"
    using assms(2) by (auto simp: sub_ok_def on_track_def)
  moreover have "store_list_after (fo_store w) (su_run_id s) (su_after s) (su_limit s) =
      Inr (take (su_limit s) (filter (after_filter (su_after s)) (take (length ?log) ?log)))"
    by (simp add: store_list_after_def store_log_def or_default_def split: option.split)
  ultimately show ?thesis using assms(2) None
    by (auto simp: subscribe_replay_def sub_ok_def replay_ok_def)
next
  case (Some envs)
  then show ?thesis using assms(2) by (simp add: subscribe_replay_def)
qed

lemma bridge_receive_inv:
  assumes "fanout_inv w" and "fo_bridge w = Draining"
  shows "fanout_inv (bridge_receive fresh now ev w)"
proof -
  obtain env st where a: "store_append fresh now (fo_store w) ev = (Inr env, st)" and e: "ee_event env = ev"
    using store_append_env [of fresh now "fo_store w" ev] by (metis prod.collapse)
  let ?w = "bridge_receive fresh now ev w"
  have w': "?w = w\<lparr>fo_store := st, fo_bridge := PublishRun env\<rparr>" using a by (simp add: bridge_receive_def)
  have log: "store_log st r = store_log (fo_store w) r @ (if r = event_run_id ev then [env] else [])" for r
    using store_append_log [of fresh now "fo_store w" ev r] a by simp
  have "published_log ?w"
    using assms by (auto simp: w' log fanout_inv_def published_log_def unpublished_def envelope_run_id_def e)
  moreover have "sub_ok ?w s" if "sub_ok w s" for s
    using that by (rule sub_ok_grows [where a = "[]"]) (simp_all add: w' log)
  ultimately show ?thesis using assms(1) by (simp add: fanout_inv_def w' list_all_iff)
qed

lemma bridge_step_inv:
  assumes "fanout_inv w"
  shows "fanout_inv (bridge_step (fo_bridge w) w)"
proof -
  let ?w = "bridge_step (fo_bridge w) w"
  have store: "fo_store ?w = fo_store w" and subs: "fo_subs ?w = fo_subs w"
    by (cases "fo_bridge w"; simp split: option.split)+
  have rooms: "fo_rooms ?w (RoomRun r) = fo_rooms w (RoomRun r) @ unpublished w r" for r
    by (cases "fo_bridge w") (simp_all add: room_publish_def unpublished_def split: option.split)
  have none: "unpublished ?w r = []" for r
    by (cases "fo_bridge w") (simp_all add: unpublished_def split: option.split)
  have "published_log ?w" using assms by (simp add: fanout_inv_def published_log_def store rooms none)
  moreover have "sub_ok ?w s" if "sub_ok w s" for s
    using that by (rule sub_ok_grows [where b = "[]"]) (simp_all add: rooms store)
  ultimately show ?thesis using assms by (simp add: fanout_inv_def subs list_all_iff)
qed

lemma fanout_act_inv:
  assumes "fanout_inv w"
  shows "fanout_inv (fanout_act ev w)"
proof (cases ev)
  case (OpensLive r after limit)
  have "sub_ok (subscribe_live r after limit w) s = sub_ok w s" for s by (simp add: sub_ok_def subscribe_live_def)
  moreover have "sub_ok w \<lparr>su_run_id = r, su_after = after, su_limit = limit,
      su_live = adapter_subscribe (RoomRun r) (fo_rooms w), su_replay = None\<rparr>"
    by (simp add: sub_ok_def adapter_subscribe_def on_track_def items_def replay_ok_def)
  ultimately have "list_all (sub_ok (subscribe_live r after limit w)) (fo_subs (subscribe_live r after limit w))"
    using assms by (simp add: fanout_inv_def list_all_iff) (simp add: subscribe_live_def)
  with assms OpensLive show ?thesis
    by (simp add: fanout_inv_def published_log_def unpublished_def) (simp add: subscribe_live_def)
next
  case (ReadsReplay i)
  with assms show ?thesis by (simp add: at_sub_inv replay_step)
next
  case (Forwards i)
  have "sub_ok w (s\<lparr>su_live := forward (fo_rooms w) (su_live s)\<rparr>)" if "sub_ok w s" for s
    using that forward_track [of "fo_rooms w" "su_live s"] by (simp add: sub_ok_def replay_ok_def)
  with assms Forwards show ?thesis by (simp add: at_sub_inv)
next
  case (Polls i)
  have "sub_ok w (s\<lparr>su_live := poll_stream (su_live s)\<rparr>)" if "sub_ok w s" for s
    using that by (simp add: sub_ok_def replay_ok_def poll_track)
  with assms Polls show ?thesis by (simp add: at_sub_inv)
qed (use assms bridge_receive_inv bridge_step_inv in simp_all)

lemma fanout_reachable_inv: "fanout_reachable w \<Longrightarrow> fanout_inv w"
proof (induction rule: fanout_reachable.induct)
  case new
  then show ?case
    by (simp add: fanout_inv_def fanout_new_def published_log_def unpublished_def store_log_def memory_store_new_def
        or_default_def)
qed (rule fanout_act_inv)

section \<open>What a subscriber sees\<close>

definition log_fits :: "fanout \<Rightarrow> bool" where
  "log_fits w \<longleftrightarrow> (\<forall>r. length (store_log (fo_store w) r) < 2 ^ 64)"

lemma at_sub_store [simp]: "fo_store (at_sub i f w) = fo_store w"
  by (simp add: at_sub_def)

lemma bridge_step_store [simp]: "fo_store (bridge_step pc w) = fo_store w"
  by (cases pc) (simp_all split: option.split)

lemma fanout_act_store:
  "fo_store (fanout_act ev w) = fo_store w \<or>
   (\<exists>fresh now e. fo_store (fanout_act ev w) = snd (store_append fresh now (fo_store w) e))"
proof (cases ev)
  case (BridgeReceives fresh now e)
  have "fo_store (bridge_receive fresh now e w) = snd (store_append fresh now (fo_store w) e)"
    by (simp add: bridge_receive_def split: prod.split sum.split)
  with BridgeReceives show ?thesis by auto
qed (simp_all add: subscribe_live_def)

lemma fanout_store_invar:
  assumes "fanout_reachable w" and "log_fits w"
  shows "store_invar (fo_store w)"
  using assms
proof induction
  case new
  then show ?case by (simp add: fanout_new_def store_invar_new)
next
  case (act w ev)
  from fanout_act_store [of ev w] show ?case
  proof
    assume same: "fo_store (fanout_act ev w) = fo_store w"
    with act show ?thesis by (simp add: log_fits_def)
  next
    assume "\<exists>fresh now e. fo_store (fanout_act ev w) = snd (store_append fresh now (fo_store w) e)"
    then obtain fresh now e where st: "fo_store (fanout_act ev w) = snd (store_append fresh now (fo_store w) e)"
      by blast
    have fits: "length (store_log (snd (store_append fresh now (fo_store w) e)) r) < 2 ^ 64" for r
      using act.prems by (simp add: log_fits_def st)
    have "length (store_log (fo_store w) r) < 2 ^ 64" for r
      using fits [of r] by (auto simp: store_append_log split: if_splits)
    then have "store_invar (fo_store w)" using act.IH by (simp add: log_fits_def)
    moreover have "Suc (length (store_log (fo_store w) (event_run_id e))) < 2 ^ 64"
      using fits [of "event_run_id e"] by (simp add: store_append_log)
    ultimately show ?thesis unfolding st by (rule store_invar_append)
  qed
qed

text \<open>The live events a subscriber has, and those that are still on their way to it.\<close>

definition live_events :: "subscription \<Rightarrow> event_envelope list" where
  "live_events s = map projr (items (su_live s))"

definition on_the_way :: "fanout \<Rightarrow> subscription \<Rightarrow> event_envelope list" where
  "on_the_way w s =
     drop (lv_pos (su_live s)) (fo_rooms w (RoomRun (su_run_id s))) @ unpublished w (su_run_id s)"

definition no_lag :: "subscription \<Rightarrow> bool" where
  "no_lag s \<longleftrightarrow> list_all (\<lambda>x. \<not> isl x) (items (su_live s))"

lemma tracks_no_lag:
  assumes "tracks sent p xs = Some q" and "list_all (\<lambda>x. \<not> isl x) xs"
  shows "map projr xs @ drop q sent = drop p sent"
  using assms
proof (induction sent p xs rule: tracks.induct)
  case (2 sent p env xs)
  then show ?case by (auto simp: Cons_nth_drop_Suc split: if_splits)
qed auto

text \<open>A client takes the replay, and then the live events whose sequence number is above the last it has seen.\<close>

definition last_seen :: "u64 option \<Rightarrow> event_envelope list \<Rightarrow> u64 option" where
  "last_seen after envs = (if envs = [] then after else Some (ee_seq (last envs)))"

definition client_view :: "u64 option \<Rightarrow> event_envelope list \<Rightarrow> event_envelope list \<Rightarrow> event_envelope list" where
  "client_view after replay live = replay @ filter (after_filter (last_seen after replay)) live"

lemma seq_order:
  assumes "sorted_wrt (\<lambda>a b. ee_seq a < ee_seq b) log" and "0 < m" and "m \<le> length log"
  shows "x \<in> set (take m log) \<Longrightarrow> ee_seq x \<le> ee_seq (log ! (m - 1))"
    and "x \<in> set (drop m log) \<Longrightarrow> ee_seq (log ! (m - 1)) < ee_seq x"
proof -
  have lt: "ee_seq (log ! i) < ee_seq (log ! j)" if "i < j" "j < length log" for i j
    using assms(1) that by (simp add: sorted_wrt_iff_nth_less)
  show "ee_seq x \<le> ee_seq (log ! (m - 1))" if x: "x \<in> set (take m log)"
  proof -
    obtain i where "i < m" "x = log ! i" using x assms(3) by (auto simp: in_set_conv_nth)
    then show ?thesis using lt [of i "m - 1"] assms(3) by (cases "i = m - 1") (auto intro: less_imp_le)
  qed
  show "ee_seq (log ! (m - 1)) < ee_seq x" if x: "x \<in> set (drop m log)"
  proof -
    obtain j where "x = log ! (m + j)" "m + j < length log" using x by (auto simp: in_set_conv_nth)
    then show ?thesis using lt [of "m - 1" "m + j"] assms(2) by simp
  qed
qed

lemma above_last:
  assumes "sorted_wrt (\<lambda>a b. ee_seq a < ee_seq b) log" and "0 < m" and "m \<le> length log" and "k \<le> m"
  shows "filter (after_filter (Some (ee_seq (log ! (m - 1))))) (drop k log) = drop m log"
proof -
  have parts: "drop k log = drop k (take m log) @ drop m log"
    using assms(3,4) by (metis append_take_drop_id drop_append diff_is_0_eq drop_0 length_take min.absorb2)
  have "filter (after_filter (Some (ee_seq (log ! (m - 1))))) (drop k (take m log)) = []"
    using seq_order(1) [OF assms(1-3)] by (auto simp: filter_empty_conv after_filter_def dest!: in_set_dropD dest: leD)
  moreover have "filter (after_filter (Some (ee_seq (log ! (m - 1))))) (drop m log) = drop m log"
    using seq_order(2) [OF assms(1-3)] by (simp add: after_filter_def)
  ultimately show ?thesis by (simp add: parts)
qed

lemma replay_then_live:
  fixes after :: "u64 option"
  assumes sorted: "sorted_wrt (\<lambda>a b. ee_seq a < ee_seq b) log" and "k \<le> m" and "m \<le> length log"
  defines "replay \<equiv> filter (after_filter after) (take m log)"
  shows "client_view after replay (drop k log) = filter (after_filter after) log"
proof (cases "replay = []")
  case True
  then have "filter (after_filter after) (take k log) = []"
    using \<open>k \<le> m\<close> set_take_subset_set_take [of k m log] unfolding replay_def filter_empty_conv by blast
  then have "filter (after_filter after) log = filter (after_filter after) (drop k log)"
    by (metis append_Nil append_take_drop_id filter_append)
  with True show ?thesis by (simp add: client_view_def last_seen_def)
next
  case False
  have "0 < m" using False by (cases m) (simp_all add: replay_def)
  note ord = seq_order [OF sorted \<open>0 < m\<close> \<open>m \<le> length log\<close>]
  have "last replay \<in> set replay" using False by simp
  then have l: "last replay \<in> set (take m log)" "after_filter after (last replay)" by (auto simp: replay_def)
  have up: "after_filter after x" if "ee_seq (last replay) \<le> ee_seq x" for x
    using l(2) that by (auto simp: after_filter_def split: option.splits)
  have "after_filter after (log ! (m - 1))" by (rule up [OF ord(1) [OF l(1)]])
  then have last: "last replay = log ! (m - 1)"
    unfolding replay_def using \<open>0 < m\<close> \<open>m \<le> length log\<close> take_Suc_conv_app_nth [of "m - 1" log] by simp
  have "filter (after_filter after) (drop m log) = drop m log"
    using up ord(2) last by (auto simp: filter_id_conv intro: less_imp_le)
  moreover have "filter (after_filter after) log = replay @ filter (after_filter after) (drop m log)"
    unfolding replay_def by (metis append_take_drop_id filter_append)
  ultimately show ?thesis
    using above_last [OF sorted \<open>0 < m\<close> \<open>m \<le> length log\<close> \<open>k \<le> m\<close>] last False
    by (simp add: client_view_def last_seen_def)
qed

text \<open>C25: A subscription misses nothing and repeats nothing. However the bridge, the forwarder, the client and
  the two steps of the subscription interleave: a client that takes a replay which was not cut off by its
  limit, and then the live events above the last sequence number it has seen, gets - as soon as what is on
  its way arrives, and unless its stream reported a lag - every event logged for the run after its
  cursor, once each and in order.\<close>

theorem subscription_exact:
  assumes "fanout_reachable w" and "log_fits w" and "s \<in> set (fo_subs w)"
    and "su_replay s = Some replay" and "length replay < su_limit s" and "no_lag s"
  shows "client_view (su_after s) replay (live_events s @ on_the_way w s) =
    filter (after_filter (su_after s)) (store_log (fo_store w) (su_run_id s))"
proof -
  let ?r = "su_run_id s" and ?lv = "su_live s"
  let ?log = "store_log (fo_store w) ?r" and ?sent = "fo_rooms w (RoomRun (su_run_id s))"
  have inv: "published_log w" "sub_ok w s"
    using fanout_reachable_inv [OF assms(1)] assms(3) by (auto simp: fanout_inv_def list_all_iff)
  have track: "tracks ?sent (lv_start ?lv) (items ?lv) = Some (lv_pos ?lv)" "lv_start ?lv \<le> length ?sent"
    using inv(2) by (auto simp: sub_ok_def on_track_def)
  obtain m where m: "lv_start ?lv \<le> m" "m \<le> length ?log"
    and "replay = take (su_limit s) (filter (after_filter (su_after s)) (take m ?log))"
    using inv(2) assms(4) unfolding sub_ok_def replay_ok_def by blast
  then have replay: "replay = filter (after_filter (su_after s)) (take m ?log)"
    using assms(5) by (simp add: min_def split: if_splits)
  have log: "?log = ?sent @ unpublished w ?r" using inv(1) by (simp add: published_log_def)
  have "live_events s @ on_the_way w s = drop (lv_start ?lv) ?log"
    using tracks_no_lag [OF track(1)] assms(6) track(2)
    by (simp add: live_events_def on_the_way_def no_lag_def log)
  then show ?thesis
    unfolding replay
    using replay_then_live [OF store_invar_sorted [OF fanout_store_invar [OF assms(1,2)]] m] by simp
qed

definition skipped :: "stream_error + event_envelope \<Rightarrow> nat" where
  "skipped x = (case x of Inl (StreamLagged n) \<Rightarrow> n | _ \<Rightarrow> 0)"

definition arrived :: "stream_error + event_envelope \<Rightarrow> nat" where
  "arrived x = (case x of Inr _ \<Rightarrow> 1 | Inl _ \<Rightarrow> 0)"

lemma tracks_counts:
  "tracks sent p xs = Some q \<Longrightarrow> q = p + sum_list (map arrived xs) + sum_list (map skipped xs)"
  by (induction sent p xs rule: tracks.induct) (auto simp: skipped_def arrived_def split: if_splits)

text \<open>Lag is reported in full. The events of the run since a live stream was opened are: those it has
  delivered or queued, those it reported as skipped, and those still waiting in its room.\<close>

theorem lag_accounted:
  assumes "fanout_reachable w" and "s \<in> set (fo_subs w)"
  shows "length (fo_rooms w (RoomRun (su_run_id s))) = lv_start (su_live s) +
    sum_list (map arrived (items (su_live s))) + sum_list (map skipped (items (su_live s))) +
    length (drop (lv_pos (su_live s)) (fo_rooms w (RoomRun (su_run_id s))))"
proof -
  have "sub_ok w s" using fanout_reachable_inv [OF assms(1)] assms(2) by (auto simp: fanout_inv_def list_all_iff)
  then show ?thesis using tracks_counts by (fastforce simp: sub_ok_def on_track_def)
qed

section \<open>An interleaving\<close>

definition fanout_run :: "fanout_event list \<Rightarrow> fanout" where
  "fanout_run evs = fold fanout_act evs fanout_new"

lemma fanout_run_reachable: "fanout_reachable (fanout_run evs)"
proof -
  have "fanout_reachable (fold fanout_act evs w)" if "fanout_reachable w" for w
    using that by (induction evs arbitrary: w) (auto intro: fanout_reachable.act)
  then show ?thesis by (simp add: fanout_run_def fanout_reachable.new)
qed

lemma fanout_run_log: "length (store_log (fo_store (fanout_run evs)) r) \<le> length evs"
proof -
  have "length (store_log (fo_store (fanout_act ev w)) r) \<le> Suc (length (store_log (fo_store w) r))" for ev w
    using fanout_act_store [of ev w] by (auto simp: store_append_log)
  note step = this
  have "length (store_log (fo_store (fold fanout_act evs w)) r) \<le> length (store_log (fo_store w) r) + length evs" for w
  proof (induction evs arbitrary: w)
    case (Cons ev evs)
    from Cons [of "fanout_act ev w"] step [of ev w] show ?case by simp
  qed simp
  from this [of fanout_new] show ?thesis
    by (simp add: fanout_run_def fanout_new_def store_log_def memory_store_new_def or_default_def)
qed

text \<open>An event published before the subscription, one appended before the stream is opened and published after
  it, and one after the replay was read.\<close>

definition overlap :: "fanout" where
  "overlap = fanout_run
     [BridgeReceives ''e1'' 1 (EvTextDelta ''r'' ''a'' 1), BridgeSteps,
      BridgeReceives ''e2'' 2 (EvTextDelta ''r'' ''b'' 2), OpensLive ''r'' None 10, BridgeSteps, ReadsReplay 0,
      Forwards 0, BridgeReceives ''e3'' 3 (EvTextDelta ''r'' ''c'' 3), BridgeSteps, Forwards 0, Polls 0]"

definition text_envelope :: "uuid \<Rightarrow> u64 \<Rightarrow> string \<Rightarrow> timestamp \<Rightarrow> event_envelope" where
  "text_envelope i n d t = \<lparr>ee_event_id = i, ee_seq = n, ee_run_id = ''r'', ee_session_id = None,
     ee_event = EvTextDelta ''r'' d t, ee_emitted_at = t\<rparr>"

definition overlap_sub :: subscription where
  "overlap_sub =
     \<lparr>su_run_id = ''r'', su_after = None, su_limit = 10,
      su_live = \<lparr>lv_room = RoomRun ''r'', lv_start = 1, lv_pos = 3, lv_queue = [Inr (text_envelope ''e3'' 3 ''c'' 3)],
        lv_polled = [Inr (text_envelope ''e2'' 2 ''b'' 2)]\<rparr>,
      su_replay = Some [text_envelope ''e1'' 1 ''a'' 1, text_envelope ''e2'' 2 ''b'' 2]\<rparr>"

lemmas fanout_defs = fanout_run_def fanout_new_def bridge_receive_def store_append_def memory_store_new_def or_default_def
  envelope_run_id_def room_publish_def subscribe_live_def adapter_subscribe_def at_sub_def subscribe_replay_def
  store_list_after_def after_filter_def forward_def receive_next_def oldest_def room_channel_capacity_def poll_stream_def

lemma overlap_subs: "fo_subs overlap = [overlap_sub]"
  by code_simp

lemma overlap_log:
  "store_log (fo_store overlap) ''r'' = [text_envelope ''e1'' 1 ''a'' 1, text_envelope ''e2'' 2 ''b'' 2,
     text_envelope ''e3'' 3 ''c'' 3]"
  by code_simp

lemma subscription_exact_witness:
  "client_view None [text_envelope ''e1'' 1 ''a'' 1, text_envelope ''e2'' 2 ''b'' 2]
     (live_events overlap_sub @ on_the_way overlap overlap_sub) =
   [text_envelope ''e1'' 1 ''a'' 1, text_envelope ''e2'' 2 ''b'' 2, text_envelope ''e3'' 3 ''c'' 3]"
proof -
  have "fanout_reachable overlap" unfolding overlap_def by (rule fanout_run_reachable)
  moreover have "log_fits overlap"
    unfolding log_fits_def overlap_def by (intro allI le_less_trans [OF fanout_run_log]) simp
  moreover have "overlap_sub \<in> set (fo_subs overlap)" by (simp add: overlap_subs)
  ultimately show ?thesis
    using subscription_exact [of overlap overlap_sub]
    by (simp add: overlap_sub_def no_lag_def items_def overlap_log after_filter_def)
qed

lemma lag_accounted_witness:
  "length (fo_rooms overlap (RoomRun ''r'')) = 1 + 2 + 0 + length (drop 3 (fo_rooms overlap (RoomRun ''r'')))"
proof -
  have "fanout_reachable overlap" unfolding overlap_def by (rule fanout_run_reachable)
  from lag_accounted [OF this, of overlap_sub] show ?thesis
    by (simp add: overlap_subs overlap_sub_def items_def arrived_def skipped_def)
qed

end
