(* ===== verification/Model_Router.thy ===== *)
theory Model_Router
  imports Runtime_Policy "HOL-Library.AList"
begin

text \<open>
  The provider registry (\<open>behest-provider/src/registry.rs\<close>) and the model router
  (\<open>behest-runtime/src/router.rs\<close>): capability check, retries with exponential backoff and fallback chains.
  A provider acts on an environment; so does sleeping. Embedding requests and responses have any types.
\<close>

section \<open>The provider registry\<close>

type_synonym ('q, 'r, 'e) call = "'q \<Rightarrow> 'e \<Rightarrow> (provider_error + 'r) \<times> 'e"

record ('q, 'r, 'e) provider =
  pv_id :: provider_id
  pv_caps :: provider_capabilities
  pv_call :: "('q, 'r, 'e) call"

record ('q, 'r, 'x, 'y, 'e) provider_registry =
  pr_chat :: "(provider_id \<times> ('q, 'r, 'e) provider) list"
  pr_embeddings :: "(provider_id \<times> ('x, 'y, 'e) provider) list"

definition providers_new :: "('q, 'r, 'x, 'y, 'e) provider_registry" where
  "providers_new = \<lparr>pr_chat = [], pr_embeddings = []\<rparr>"

definition register_chat ::
  "('q, 'r, 'e) provider \<Rightarrow> ('q, 'r, 'x, 'y, 'e) provider_registry \<Rightarrow>
   ('q, 'r, 'e) provider option \<times> ('q, 'r, 'x, 'y, 'e) provider_registry" where
  "register_chat p reg = (map_of (pr_chat reg) (pv_id p), reg\<lparr>pr_chat := AList.update (pv_id p) p (pr_chat reg)\<rparr>)"

definition register_embedding ::
  "('x, 'y, 'e) provider \<Rightarrow> ('q, 'r, 'x, 'y, 'e) provider_registry \<Rightarrow>
   ('x, 'y, 'e) provider option \<times> ('q, 'r, 'x, 'y, 'e) provider_registry" where
  "register_embedding p reg =
     (map_of (pr_embeddings reg) (pv_id p), reg\<lparr>pr_embeddings := AList.update (pv_id p) p (pr_embeddings reg)\<rparr>)"

definition registry_chat :: "('q, 'r, 'x, 'y, 'e) provider_registry \<Rightarrow> provider_id \<Rightarrow> ('q, 'r, 'e) provider option" where
  "registry_chat reg i = map_of (pr_chat reg) i"

definition registry_embedding :: "('q, 'r, 'x, 'y, 'e) provider_registry \<Rightarrow> provider_id \<Rightarrow> ('x, 'y, 'e) provider option" where
  "registry_embedding reg i = map_of (pr_embeddings reg) i"

definition chat_ids :: "('q, 'r, 'x, 'y, 'e) provider_registry \<Rightarrow> provider_id list" where
  "chat_ids reg = map fst (pr_chat reg)"

definition embedding_ids :: "('q, 'r, 'x, 'y, 'e) provider_registry \<Rightarrow> provider_id list" where
  "embedding_ids reg = map fst (pr_embeddings reg)"

definition unsupported :: "provider_id \<Rightarrow> string \<Rightarrow> provider_error" where
  "unsupported i feature = Unsupported i feature"

definition registry_complete ::
  "('q, 'r, 'x, 'y, 'e) provider_registry \<Rightarrow> provider_id \<Rightarrow> ('q, 'r, 'e) call" where
  "registry_complete reg i request e =
     (case registry_chat reg i of
        None \<Rightarrow> (Inl (unsupported i ''chat''), e)
      | Some p \<Rightarrow> pv_call p request e)"

definition registry_embed ::
  "('q, 'r, 'x, 'y, 'e) provider_registry \<Rightarrow> provider_id \<Rightarrow> ('x, 'y, 'e) call" where
  "registry_embed reg i request e =
     (case registry_embedding reg i of
        None \<Rightarrow> (Inl (unsupported i ''embedding''), e)
      | Some p \<Rightarrow> pv_call p request e)"

section \<open>Retries\<close>

text \<open>The pause after the \<open>attempt\<close>-th failure, in milliseconds.\<close>

definition backoff :: "nat \<Rightarrow> u64" where
  "backoff attempt = 100 * 2 ^ (attempt - 1)"

text \<open>The attempts \<open>attempt..max_attempts\<close>; the last error is what is left when there are none.\<close>

function retry_from ::
  "(u64 \<Rightarrow> 'e \<Rightarrow> 'e) \<Rightarrow> ('e \<Rightarrow> (provider_error + 'r) \<times> 'e) \<Rightarrow> nat \<Rightarrow> nat \<Rightarrow> provider_error option \<Rightarrow> 'e \<Rightarrow>
   (provider_error option + 'r) \<times> 'e" where
  "retry_from sleep call max_attempts attempt last_error e =
     (if attempt > max_attempts then (Inl last_error, e)
      else case call e of
        (Inr response, e') \<Rightarrow> (Inr response, e')
      | (Inl err, e') \<Rightarrow>
          if \<not> is_retryable err \<or> attempt = max_attempts then (Inl (Some err), e')
          else retry_from sleep call max_attempts (attempt + 1) (Some err) (sleep (backoff attempt) e'))"
  by pat_completeness auto

termination
  by (relation "measure (\<lambda>(_, _, m, a, _, _). Suc m - a)") auto

declare retry_from.simps [simp del]

definition max_attempts_of :: "runtime_policy \<Rightarrow> nat" where
  "max_attempts_of p = (if retry_on_provider_error p then rp_max_retries p + 1 else 1)"

definition retried ::
  "(u64 \<Rightarrow> 'e \<Rightarrow> 'e) \<Rightarrow> runtime_policy \<Rightarrow> provider_id \<Rightarrow> ('e \<Rightarrow> (provider_error + 'r) \<times> 'e) \<Rightarrow> 'e \<Rightarrow>
   (provider_error + 'r) \<times> 'e" where
  "retried sleep p i call e =
     (case retry_from sleep call (max_attempts_of p) 1 None e of
        (Inr response, e') \<Rightarrow> (Inr response, e')
      | (Inl (Some err), e') \<Rightarrow> (Inl err, e')
      | (Inl None, e') \<Rightarrow> (Inl (ProviderTimeout i), e'))"

section \<open>The router\<close>

definition supports_capabilities :: "provider_capabilities \<Rightarrow> provider_capabilities \<Rightarrow> bool" where
  "supports_capabilities available required \<longleftrightarrow>
     (\<not> pc_chat required \<or> pc_chat available) \<and>
     (\<not> pc_chat_stream required \<or> pc_chat_stream available) \<and>
     (\<not> pc_tool_calling required \<or> pc_tool_calling available) \<and>
     (\<not> pc_parallel_tool_calls required \<or> pc_parallel_tool_calls available) \<and>
     (\<not> pc_json_schema_output required \<or> pc_json_schema_output available) \<and>
     (\<not> pc_vision required \<or> pc_vision available) \<and>
     (\<not> pc_embeddings required \<or> pc_embeddings available)"

definition route_chat ::
  "(u64 \<Rightarrow> 'e \<Rightarrow> 'e) \<Rightarrow> ('q, 'r, 'x, 'y, 'e) provider_registry \<Rightarrow> runtime_policy \<Rightarrow> 'q \<Rightarrow>
   provider_capabilities option \<Rightarrow> provider_id \<Rightarrow> 'e \<Rightarrow> (runtime_error + 'r) \<times> 'e" where
  "route_chat sleep reg p request required i e =
     (case registry_chat reg i of
        None \<Rightarrow> (Inl (ProviderNotFound i), e)
      | Some pv \<Rightarrow>
          if (case required of Some r \<Rightarrow> \<not> supports_capabilities (pv_caps pv) r | None \<Rightarrow> False)
          then (Inl (ProviderNotFound (''provider '' @ i @ '' lacks required capabilities'')), e)
          else (case retried sleep p i (pv_call pv request) e of
              (Inr response, e') \<Rightarrow> (Inr response, e')
            | (Inl err, e') \<Rightarrow> (Inl (ProviderErr err), e')))"

fun fallback_from ::
  "(provider_id \<Rightarrow> 'e \<Rightarrow> (runtime_error + 'r) \<times> 'e) \<Rightarrow> runtime_error option \<Rightarrow> provider_id list \<Rightarrow> 'e \<Rightarrow>
   (runtime_error option + 'r) \<times> 'e" where
  "fallback_from route last_error [] e = (Inl last_error, e)"
| "fallback_from route last_error (i # is) e =
     (case route i e of
        (Inr response, e') \<Rightarrow> (Inr response, e')
      | (Inl err, e') \<Rightarrow> fallback_from route (Some err) is e')"

definition route_chat_with_fallback ::
  "(u64 \<Rightarrow> 'e \<Rightarrow> 'e) \<Rightarrow> ('q, 'r, 'x, 'y, 'e) provider_registry \<Rightarrow> runtime_policy \<Rightarrow> 'q \<Rightarrow>
   provider_capabilities option \<Rightarrow> provider_id list \<Rightarrow> 'e \<Rightarrow> (runtime_error + 'r) \<times> 'e" where
  "route_chat_with_fallback sleep reg p request required is e =
     (case fallback_from (route_chat sleep reg p request required) None is e of
        (Inr response, e') \<Rightarrow> (Inr response, e')
      | (Inl (Some err), e') \<Rightarrow> (Inl err, e')
      | (Inl None, e') \<Rightarrow> (Inl (ProviderNotFound ''no providers available''), e'))"

definition route_embedding ::
  "(u64 \<Rightarrow> 'e \<Rightarrow> 'e) \<Rightarrow> ('q, 'r, 'x, 'y, 'e) provider_registry \<Rightarrow> runtime_policy \<Rightarrow> 'x \<Rightarrow>
   provider_id \<Rightarrow> 'e \<Rightarrow> (runtime_error + 'y) \<times> 'e" where
  "route_embedding sleep reg p request i e =
     (case registry_embedding reg i of
        None \<Rightarrow> (Inl (ProviderNotFound i), e)
      | Some pv \<Rightarrow>
          (case retried sleep p i (pv_call pv request) e of
              (Inr response, e') \<Rightarrow> (Inr response, e')
            | (Inl err, e') \<Rightarrow> (Inl (ProviderErr err), e')))"

section \<open>Which attempt counts\<close>

text \<open>The environment before the attempt after \<open>k\<close> failures, and the answer of that attempt.\<close>

fun before_attempt ::
  "(u64 \<Rightarrow> 'e \<Rightarrow> 'e) \<Rightarrow> ('e \<Rightarrow> (provider_error + 'r) \<times> 'e) \<Rightarrow> 'e \<Rightarrow> nat \<Rightarrow> 'e" where
  "before_attempt sleep call e 0 = e"
| "before_attempt sleep call e (Suc k) = sleep (100 * 2 ^ k) (snd (call (before_attempt sleep call e k)))"

definition retryable_answer :: "provider_error + 'r \<Rightarrow> bool" where
  "retryable_answer x = (case x of Inl err \<Rightarrow> is_retryable err | Inr _ \<Rightarrow> False)"

lemma retry_from_decides:
  assumes "k < m" and "\<And>i. j \<le> i \<Longrightarrow> i < k \<Longrightarrow> retryable_answer (fst (call (before_attempt sleep call e i)))"
    and "\<not> retryable_answer (fst (call (before_attempt sleep call e k))) \<or> Suc k = m" and "j \<le> k"
  shows "retry_from sleep call m (Suc j) prev (before_attempt sleep call e j) =
    (case fst (call (before_attempt sleep call e k)) of Inl err \<Rightarrow> Inl (Some err) | Inr r \<Rightarrow> Inr r,
     snd (call (before_attempt sleep call e k)))"
  using assms(4,2)
proof (induction arbitrary: prev rule: inc_induct)
  case base
  then show ?case
    using assms(1,3)
    by (auto simp: retry_from.simps [of _ _ _ "Suc k"] retryable_answer_def split: prod.split sum.split)
next
  case (step j)
  then have "retryable_answer (fst (call (before_attempt sleep call e j)))" by simp
  then obtain err where "fst (call (before_attempt sleep call e j)) = Inl err" "is_retryable err"
    by (auto simp: retryable_answer_def split: sum.splits)
  then have "retry_from sleep call m (Suc j) prev (before_attempt sleep call e j) =
      retry_from sleep call m (Suc (Suc j)) (Some err) (before_attempt sleep call e (Suc j))"
    using step.hyps assms(1)
    by (cases "call (before_attempt sleep call e j)") (simp add: retry_from.simps [of _ _ _ "Suc j"] backoff_def)
  with step show ?case by simp
qed

lemma first_decisive:
  fixes P :: "nat \<Rightarrow> bool"
  assumes "0 < m"
  shows "\<exists>k<m. (\<forall>i<k. P i) \<and> (\<not> P k \<or> Suc k = m)"
proof (cases "\<exists>k<m. \<not> P k")
  case True
  then obtain k0 where "k0 < m" "\<not> P k0" by blast
  then have "(LEAST k. \<not> P k) < m" "\<not> P (LEAST k. \<not> P k)"
    using LeastI [of "\<lambda>k. \<not> P k" k0] Least_le [of "\<lambda>k. \<not> P k" k0] by (simp_all add: le_less_trans)
  moreover have "\<forall>i<(LEAST k. \<not> P k). P i" using not_less_Least by blast
  ultimately show ?thesis by blast
next
  case False
  with assms show ?thesis by (intro exI [of _ "m - 1"]) auto
qed

text \<open>Retries end with the decisive attempt. A call that is retried is made at most as often as the policy
  allows: all attempts before the last one made failed with retryable errors, each followed by a pause that
  doubles, and the result is the answer of that last attempt - the first that succeeds or fails for good,
  or else the last one allowed.\<close>

theorem retried_decides:
  "\<exists>k<max_attempts_of p.
     (\<forall>i<k. retryable_answer (fst (call (before_attempt sleep call e i)))) \<and>
     (\<not> retryable_answer (fst (call (before_attempt sleep call e k))) \<or> Suc k = max_attempts_of p) \<and>
     retried sleep p i call e = call (before_attempt sleep call e k)"
proof -
  have "0 < max_attempts_of p" by (simp add: max_attempts_of_def)
  from first_decisive [OF this, of "\<lambda>i. retryable_answer (fst (call (before_attempt sleep call e i)))"]
  obtain k where k: "k < max_attempts_of p"
    "\<And>i. i < k \<Longrightarrow> retryable_answer (fst (call (before_attempt sleep call e i)))"
    "\<not> retryable_answer (fst (call (before_attempt sleep call e k))) \<or> Suc k = max_attempts_of p"
    by blast
  have "retry_from sleep call (max_attempts_of p) (Suc 0) None (before_attempt sleep call e 0) =
    (case fst (call (before_attempt sleep call e k)) of Inl err \<Rightarrow> Inl (Some err) | Inr r \<Rightarrow> Inr r,
     snd (call (before_attempt sleep call e k)))"
    using k by (intro retry_from_decides) auto
  then have "retried sleep p i call e = call (before_attempt sleep call e k)"
    by (cases "call (before_attempt sleep call e k)") (auto simp: retried_def split: sum.split)
  with k show ?thesis by blast
qed

text \<open>A provider that gives the answers of a list one after another, and a clock that notes the pauses.\<close>

definition scripted :: "'q \<Rightarrow> (provider_error + 'r) list \<times> u64 list \<Rightarrow> (provider_error + 'r) \<times> (provider_error + 'r) list \<times> u64 list" where
  "scripted q e = (case e of (x # xs, ps) \<Rightarrow> (x, xs, ps) | ([], ps) \<Rightarrow> (Inl (ProviderTimeout ''p''), [], ps))"

definition note_pause :: "u64 \<Rightarrow> 'a list \<times> u64 list \<Rightarrow> 'a list \<times> u64 list" where
  "note_pause d e = (fst e, snd e @ [d])"

definition rate_limited :: "(provider_error + nat) list" where
  "rate_limited = [Inl (RateLimited ''p'' None), Inl (Overloaded ''p''), Inr 7, Inr 8]"

lemma retried_scripted:
  "retried note_pause runtime_policy_default ''p'' (scripted ()) (rate_limited, []) = (Inr 7, [Inr 8], [100, 200])"
  by (simp add: retried_def retry_from.simps max_attempts_of_def runtime_policy_default_def scripted_def
      note_pause_def rate_limited_def backoff_def)

lemma retried_decides_witness:
  "\<exists>k<3. retried note_pause runtime_policy_default ''p'' (scripted ()) (rate_limited, []) =
     scripted () (before_attempt note_pause (scripted ()) (rate_limited, []) k)"
proof -
  have "max_attempts_of runtime_policy_default = 3"
    by (simp add: max_attempts_of_def runtime_policy_default_def)
  with retried_decides [where p = runtime_policy_default and sleep = note_pause and call = "scripted ()" and
      e = "(rate_limited, [])" and i = "''p''"] show ?thesis
    by auto
qed

section \<open>Fallback\<close>

text \<open>The environment after providers that all fail.\<close>

fun fails_through ::
  "(provider_id \<Rightarrow> 'e \<Rightarrow> (runtime_error + 'r) \<times> 'e) \<Rightarrow> provider_id list \<Rightarrow> 'e \<Rightarrow> 'e option" where
  "fails_through route [] e = Some e"
| "fails_through route (i # is) e =
     (case route i e of (Inl _, e') \<Rightarrow> fails_through route is e' | (Inr _, _) \<Rightarrow> None)"

lemma fallback_success:
  "fallback_from route prev is e = (Inr r, e') \<longleftrightarrow>
   (\<exists>tried i rest e1. is = tried @ i # rest \<and> fails_through route tried e = Some e1 \<and> route i e1 = (Inr r, e'))"
proof (induction "is" arbitrary: e prev)
  case (Cons i "is")
  show ?case
  proof (cases "route i e")
    case (Pair x e1)
    show ?thesis
    proof (cases x)
      case (Inl err)
      have "(\<exists>tried j rest e2. i # is = tried @ j # rest \<and> fails_through route tried e = Some e2 \<and> route j e2 = (Inr r, e'))
        \<longleftrightarrow> (\<exists>tried j rest e2. is = tried @ j # rest \<and> fails_through route tried e1 = Some e2 \<and> route j e2 = (Inr r, e'))"
        (is "?L = ?R")
      proof
        assume ?L
        then obtain tried j rest e2 where t: "i # is = tried @ j # rest" "fails_through route tried e = Some e2"
          "route j e2 = (Inr r, e')" by blast
        with Pair Inl obtain tried' where "tried = i # tried'" by (cases tried) auto
        with t Pair Inl show ?R by auto
      next
        assume ?R
        then obtain tried j rest e2 where "is = tried @ j # rest" "fails_through route tried e1 = Some e2"
          "route j e2 = (Inr r, e')" by blast
        with Pair Inl show ?L by (intro exI [of _ "i # tried"]) auto
      qed
      with Cons.IH Pair Inl show ?thesis by simp
    next
      case (Inr y)
      with Pair show ?thesis
        by (auto simp: Cons_eq_append_conv intro: exI [of _ "[]"])
    qed
  qed
qed simp

text \<open>Fallback answers with the first provider that does. A chain succeeds exactly when some provider's own
  route - its capability check and its retries included - succeeds after all providers before it in the
  chain have failed, with that answer, and no provider behind it is called.\<close>

theorem fallback_first_success:
  "route_chat_with_fallback sleep reg p request required is e = (Inr r, e') \<longleftrightarrow>
   (\<exists>tried i rest e1. is = tried @ i # rest \<and>
      fails_through (route_chat sleep reg p request required) tried e = Some e1 \<and>
      route_chat sleep reg p request required i e1 = (Inr r, e'))"
  unfolding fallback_success [symmetric, where prev = None]
  by (auto simp: route_chat_with_fallback_def split: prod.splits sum.splits option.splits)

section \<open>Requirements that are not looked at\<close>

text \<open>Only the seven flags are required. Prompt caching, its breakpoints and lifetimes, and the token limits of
  a required capability set do not affect which providers support it.\<close>

theorem caching_requirement_ignored:
  "supports_capabilities available (required\<lparr>pc_prompt_caching := c, pc_max_cache_breakpoints := b,
     pc_cache_ttl_options := t, pc_max_input_tokens := i, pc_max_output_tokens := n\<rparr>) =
   supports_capabilities available required"
  by (simp add: supports_capabilities_def)

end
