(* ===== verification/Skills.thy ===== *)
theory Skills
  imports Rust_Str "HOL-Library.AList" "HOL-Library.Multiset" "HOL-Library.List_Lexorder" "HOL-Library.Char_ord"
begin

text \<open>
  Skills (\<open>behest-context/src/skills.rs\<close>): the registry with its version counter, the catalog, the parser
  of skill files, loading a directory, and the tracker of injected knowledge. A \<open>HashMap\<close> is an
  association list with distinct keys. A directory is the list of its entries in the order in which the
  operating system gives them; what cannot be read is part of it.
\<close>

section \<open>Skills and their registry\<close>

record skill =
  sk_name :: string
  sk_description :: string
  sk_content :: string
  sk_source_path :: "string option"
  sk_allowed_tools :: "string list"

definition skill_new :: "string \<Rightarrow> string \<Rightarrow> string \<Rightarrow> skill" where
  "skill_new name description content =
     \<lparr>sk_name = name, sk_description = description, sk_content = content, sk_source_path = None,
      sk_allowed_tools = []\<rparr>"

definition with_source_path :: "string \<Rightarrow> skill \<Rightarrow> skill" where
  "with_source_path path s = s\<lparr>sk_source_path := Some path\<rparr>"

definition with_allowed_tools :: "string list \<Rightarrow> skill \<Rightarrow> skill" where
  "with_allowed_tools tools s = s\<lparr>sk_allowed_tools := tools\<rparr>"

record skill_registry =
  sr_skills :: "(string \<times> skill) list"
  sr_version :: u64

definition skills_new :: skill_registry where
  "skills_new = \<lparr>sr_skills = [], sr_version = 0\<rparr>"

definition register_skill :: "skill \<Rightarrow> skill_registry \<Rightarrow> skill option \<times> skill_registry" where
  "register_skill s r =
     (map_of (sr_skills r) (sk_name s),
      \<lparr>sr_skills = AList.update (sk_name s) s (sr_skills r), sr_version = sat_add_word (sr_version r) 1\<rparr>)"

definition remove_skill :: "string \<Rightarrow> skill_registry \<Rightarrow> skill option \<times> skill_registry" where
  "remove_skill n r =
     (case map_of (sr_skills r) n of
        None \<Rightarrow> (None, r)
      | Some s \<Rightarrow> (Some s, \<lparr>sr_skills = AList.delete n (sr_skills r), sr_version = sat_add_word (sr_version r) 1\<rparr>))"

definition get_skill :: "skill_registry \<Rightarrow> string \<Rightarrow> skill option" where
  "get_skill r n = map_of (sr_skills r) n"

definition skill_names :: "skill_registry \<Rightarrow> string list" where
  "skill_names r = sort (map fst (sr_skills r))"

definition skills_len :: "skill_registry \<Rightarrow> usize" where
  "skills_len r = length (sr_skills r)"

section \<open>The catalog\<close>

definition trim_end :: "string \<Rightarrow> string" where
  "trim_end s = concat (trim_end_list is_whitespace (utf8_chars s))"

definition nl :: string where "nl = [newline]"

definition sorted_skills :: "skill_registry \<Rightarrow> skill list" where
  "sorted_skills r = sort_key sk_name (map snd (sr_skills r))"

definition catalog_entry :: "skill \<Rightarrow> string" where
  "catalog_entry s =
     ''## '' @ sk_name s @ nl @ sk_description s @ nl @ ''Path: '' @
     (case sk_source_path s of Some p \<Rightarrow> p | None \<Rightarrow> ''(inline)'') @ nl @ nl"

definition render_catalog :: "skill_registry \<Rightarrow> string" where
  "render_catalog r = (if sr_skills r = [] then [] else trim_end (concat (map catalog_entry (sorted_skills r))))"

definition full_entry :: "skill \<Rightarrow> string" where
  "full_entry s =
     ''## '' @ sk_name s @ nl @ sk_description s @ nl @ nl @ sk_content s @ nl @ nl @ ''---'' @ nl"

definition render_full :: "skill_registry \<Rightarrow> string" where
  "render_full r = (if sr_skills r = [] then [] else trim_end (concat (map full_entry (sorted_skills r))))"

section \<open>Skill files\<close>

text \<open>The values the frontmatter parser produces: strings and lists of strings.\<close>

datatype fm_value = FmString string | FmArray "string list"

definition quote_char :: char where "quote_char = CHR 0x22"

definition trim_quotes :: "string \<Rightarrow> string" where
  "trim_quotes s = trim_end_list (\<lambda>c. c = quote_char) (dropWhile (\<lambda>c. c = quote_char) s)"

text \<open>The parser's state: the entries so far, the key whose list is being read, and its items.\<close>

record fm_state =
  fm_map :: "(string \<times> fm_value) list"
  fm_key :: "string option"
  fm_list :: "string list"

definition fm_start :: fm_state where
  "fm_start = \<lparr>fm_map = [], fm_key = None, fm_list = []\<rparr>"

definition flush :: "fm_state \<Rightarrow> fm_state" where
  "flush st =
     (case fm_key st of
        None \<Rightarrow> st
      | Some k \<Rightarrow>
          if fm_list st = [] then st\<lparr>fm_key := None\<rparr>
          else \<lparr>fm_map = AList.update k (FmArray (fm_list st)) (fm_map st), fm_key = None, fm_list = []\<rparr>)"

definition key_value :: "string \<Rightarrow> fm_state \<Rightarrow> fm_state" where
  "key_value trimmed st =
     (case str_find '':'' trimmed of
        None \<Rightarrow> st
      | Some colon \<Rightarrow>
          let k = str_trim (take colon trimmed); v = str_trim (drop (colon + 1) trimmed)
          in if v = [] then st\<lparr>fm_key := Some k\<rparr>
             else st\<lparr>fm_map := AList.update k (FmString (trim_quotes v)) (fm_map st)\<rparr>)"

definition fm_line :: "string \<Rightarrow> fm_state \<Rightarrow> fm_state" where
  "fm_line line st =
     (let trimmed = str_trim line
      in if trimmed = [] \<or> is_prefix_of ''#'' trimmed then st
         else if is_prefix_of ''- '' trimmed
         then (case fm_key st of
             None \<Rightarrow> st
           | Some _ \<Rightarrow> st\<lparr>fm_list := fm_list st @ [trim_quotes (str_trim (drop 2 trimmed))]\<rparr>)
         else key_value trimmed (flush st))"

definition parse_minimal_yaml :: "string \<Rightarrow> (string \<times> fm_value) list" where
  "parse_minimal_yaml text = fm_map (flush (fold fm_line (str_lines text) fm_start))"

text \<open>The byte order mark is trimmed as often as it occurs.\<close>

definition byte_order_mark :: string where
  "byte_order_mark = [CHR 0xEF, CHR 0xBB, CHR 0xBF]"

fun trim_bom :: "string \<Rightarrow> string" where
  "trim_bom (a # b # c # s) = (if [a, b, c] = byte_order_mark then trim_bom s else a # b # c # s)"
| "trim_bom s = s"

definition split_frontmatter :: "string \<Rightarrow> (string \<times> fm_value) list \<times> string" where
  "split_frontmatter raw =
     (let raw = trim_bom raw
      in if \<not> is_prefix_of ''---'' raw then ([], raw)
         else let after_first = drop 3 raw
           in case str_find (nl @ ''---'') after_first of
                None \<Rightarrow> ([], raw)
              | Some close \<Rightarrow>
                  (parse_minimal_yaml (take close after_first),
                   dropWhile (\<lambda>c. c = newline) (drop (close + 4) after_first)))"

definition fm_string :: "(string \<times> fm_value) list \<Rightarrow> string \<Rightarrow> string option" where
  "fm_string fm k = (case map_of fm k of Some (FmString s) \<Rightarrow> Some s | _ \<Rightarrow> None)"

definition missing_name :: "string \<Rightarrow> string" where
  "missing_name path = ''skill '' @ path @ '' missing 'name' field''"

definition parse_skill :: "string \<Rightarrow> string \<Rightarrow> string + skill" where
  "parse_skill path raw =
     (let (fm, body) = split_frontmatter raw
      in case fm_string fm ''name'' of
           None \<Rightarrow> Inl (missing_name path)
         | Some name \<Rightarrow> Inr
             \<lparr>sk_name = name,
              sk_description = (case fm_string fm ''description'' of Some d \<Rightarrow> d | None \<Rightarrow> []),
              sk_content = str_trim body, sk_source_path = Some path,
              sk_allowed_tools = (case map_of fm ''allowed_tools'' of Some (FmArray ts) \<Rightarrow> ts | _ \<Rightarrow> [])\<rparr>)"

section \<open>Loading a directory\<close>

text \<open>A tree of entries with their names; \<open>Broken\<close> is what fails to be read, with the error.\<close>

datatype dir_entry = SkillFile string string | SubDir string "dir_entry list" | OtherEntry string | Broken string

definition lower :: "char \<Rightarrow> char" where
  "lower c = (let n = of_char c :: nat in if 65 \<le> n \<and> n \<le> 90 then char_of (n + 32) else c)"

definition is_skill_file :: "string \<Rightarrow> bool" where
  "is_skill_file name = (map lower name = map lower ''SKILL.md'')"

text \<open>\<open>walk_and_load\<close>: what was loaded before an error stays registered; the list of names is lost with it.\<close>

fun walk_entry :: "string \<Rightarrow> dir_entry \<Rightarrow> skill_registry \<times> string list \<Rightarrow> string option \<times> skill_registry \<times> string list"
and walk_and_load ::
  "string \<Rightarrow> dir_entry list \<Rightarrow> skill_registry \<times> string list \<Rightarrow> string option \<times> skill_registry \<times> string list" where
  "walk_entry dir (SkillFile name raw) (r, loaded) =
     (if is_skill_file name
      then (case parse_skill (dir @ ''/'' @ name) raw of
          Inl err \<Rightarrow> (Some err, r, loaded)
        | Inr s \<Rightarrow> (None, snd (register_skill s r), loaded @ [sk_name s]))
      else (None, r, loaded))"
| "walk_entry dir (SubDir name entries) (r, loaded) = walk_and_load (dir @ ''/'' @ name) entries (r, loaded)"
| "walk_entry dir (OtherEntry name) (r, loaded) = (None, r, loaded)"
| "walk_entry dir (Broken err) (r, loaded) = (Some err, r, loaded)"
| "walk_and_load dir [] (r, loaded) = (None, r, loaded)"
| "walk_and_load dir (x # xs) (r, loaded) =
     (case walk_entry dir x (r, loaded) of
        (Some err, r', loaded') \<Rightarrow> (Some err, r', loaded')
      | (None, r', loaded') \<Rightarrow> walk_and_load dir xs (r', loaded'))"

definition load_from_directory :: "string \<Rightarrow> dir_entry list \<Rightarrow> skill_registry \<Rightarrow> (string + string list) \<times> skill_registry" where
  "load_from_directory dir entries r =
     (case walk_and_load dir entries (r, []) of
        (Some err, r', _) \<Rightarrow> (Inl err, r')
      | (None, r', loaded) \<Rightarrow> (Inr loaded, r'))"

section \<open>Stable knowledge\<close>

type_synonym stable_knowledge = "(string \<times> string \<times> u64) list"

definition is_stale :: "stable_knowledge \<Rightarrow> string \<Rightarrow> string \<Rightarrow> u64 \<Rightarrow> bool" where
  "is_stale st k content version =
     (case map_of st k of None \<Rightarrow> True | Some (c, v) \<Rightarrow> c \<noteq> content \<or> v \<noteq> version)"

definition update_knowledge :: "string \<Rightarrow> string \<Rightarrow> u64 \<Rightarrow> stable_knowledge \<Rightarrow> stable_knowledge" where
  "update_knowledge k content version st = AList.update k (content, version) st"

definition cached_content :: "stable_knowledge \<Rightarrow> string \<Rightarrow> string option" where
  "cached_content st k = map_option fst (map_of st k)"

definition cached_version :: "stable_knowledge \<Rightarrow> string \<Rightarrow> u64 option" where
  "cached_version st k = map_option snd (map_of st k)"

definition invalidate :: "string \<Rightarrow> stable_knowledge \<Rightarrow> stable_knowledge" where
  "invalidate k st = AList.delete k st"

definition clear_knowledge :: "stable_knowledge \<Rightarrow> stable_knowledge" where
  "clear_knowledge st = []"

section \<open>Printed skill files\<close>

text \<open>The documented format of a skill file.\<close>

definition field_line :: "string \<Rightarrow> string \<Rightarrow> string" where
  "field_line k v = k @ '': '' @ v"

definition item_line :: "string \<Rightarrow> string" where
  "item_line t = ''  - '' @ t"

definition skill_lines :: "skill \<Rightarrow> string list" where
  "skill_lines s =
     [field_line ''name'' (sk_name s), field_line ''description'' (sk_description s), ''allowed_tools:''] @
     map item_line (sk_allowed_tools s)"

definition print_skill :: "skill \<Rightarrow> string" where
  "print_skill s = ''---'' @ concat (map (\<lambda>l. nl @ l) (skill_lines s)) @ nl @ ''---'' @ nl @ sk_content s"

text \<open>A field that can be written on a line: not empty, trimmed, on one line, not in quotes, and starting with a
  character.\<close>

definition plain_field :: "string \<Rightarrow> bool" where
  "plain_field s \<longleftrightarrow> s \<noteq> [] \<and> str_trim s = s \<and> newline \<notin> set s \<and> \<not> is_continuation (hd s) \<and>
     hd s \<noteq> quote_char \<and> last s \<noteq> quote_char"

definition writable :: "skill \<Rightarrow> bool" where
  "writable s \<longleftrightarrow> plain_field (sk_name s) \<and> plain_field (sk_description s) \<and>
     list_all plain_field (sk_allowed_tools s) \<and> str_trim (sk_content s) = sk_content s \<and>
     (sk_content s \<noteq> [] \<longrightarrow> hd (sk_content s) \<noteq> newline)"

section \<open>Trimming\<close>

lemma chars_append:
  assumes "ascii p" and "s \<noteq> [] \<longrightarrow> \<not> is_continuation (hd s)"
  shows "utf8_chars (p @ s) = map (\<lambda>c. [c]) p @ utf8_chars s"
  using assms
proof (induction p)
  case (Cons c p)
  then have a: "ascii p" by (simp add: ascii_def)
  have "takeWhile is_continuation (p @ s) = [] \<and> dropWhile is_continuation (p @ s) = p @ s"
  proof (cases p)
    case Nil
    with Cons.prems show ?thesis by (cases s) auto
  next
    case (Cons d q)
    with \<open>ascii p\<close> show ?thesis by (simp add: ascii_def is_continuation_def)
  qed
  with Cons a show ?case by simp
qed simp

lemma trim_end_id: "xs \<noteq> [] \<Longrightarrow> \<not> p (last xs) \<Longrightarrow> trim_end_list p xs = xs"
  by (cases xs rule: rev_cases) (simp_all add: trim_end_list_def)

lemma concat_shorter:
  assumes "\<forall>x\<in>set (xs @ ys). x \<noteq> []" and "concat (xs @ ys) = concat xs"
  shows "ys = []"
  using assms by (cases ys) auto

lemma trimmed_chars:
  assumes "str_trim s = s" and "s \<noteq> []"
  shows "utf8_chars s \<noteq> []" "\<not> is_whitespace (hd (utf8_chars s))" "\<not> is_whitespace (last (utf8_chars s))"
proof -
  let ?u = "utf8_chars s"
  show u: "?u \<noteq> []" using assms(2) by (cases s) simp_all
  obtain a b where parts: "?u = a @ trim_end_list is_whitespace (dropWhile is_whitespace ?u) @ b"
    and "a = takeWhile is_whitespace ?u"
    using trim_end_list_append [of "dropWhile is_whitespace ?u" is_whitespace]
    by (metis takeWhile_dropWhile_id)
  let ?t = "trim_end_list is_whitespace (dropWhile is_whitespace ?u)"
  have len: "length (concat ?u) = length (concat ?t)" using assms(1) by (simp add: str_trim_def)
  have ne: "\<forall>x\<in>set ?u. x \<noteq> []" using utf8_chars_nonempty by blast
  have "length (concat a) = 0" "length (concat b) = 0" using len by (subst (asm) parts, simp)+
  then have "a = []" "b = []" using ne parts by (metis Un_iff concat_eq_Nil_conv in_set_conv_decomp length_0_conv list.exhaust list.set_intros(1) set_append)+
  then have t: "?t = ?u" and d: "dropWhile is_whitespace ?u = ?u"
    using parts \<open>a = takeWhile is_whitespace ?u\<close> by (simp, metis takeWhile_dropWhile_id append_Nil)
  show "\<not> is_whitespace (hd ?u)" using d u by (metis hd_dropWhile)
  show "\<not> is_whitespace (last ?u)"
  proof
    assume w: "is_whitespace (last ?u)"
    have "rev ?u = dropWhile is_whitespace (rev ?u)" using t d by (simp add: trim_end_list_def) (metis rev_rev_ident)
    then show False using w u by (metis hd_dropWhile hd_rev rev_is_Nil_conv)
  qed
qed

lemma trim_prefixed:
  assumes "ascii p" and "p \<noteq> []" and "\<not> is_whitespace [hd p]" and "str_trim s = s" and "s \<noteq> []"
    and "\<not> is_continuation (hd s)"
  shows "str_trim (p @ s) = p @ s"
proof -
  let ?u = "map (\<lambda>c. [c]) p @ utf8_chars s"
  have u: "utf8_chars (p @ s) = ?u" using chars_append [of p s] assms by simp
  have "dropWhile is_whitespace ?u = ?u" using assms(2,3) by (cases p) simp_all
  moreover have "trim_end_list is_whitespace ?u = ?u"
    using trimmed_chars [OF assms(4,5)] by (intro trim_end_id) auto
  ultimately show ?thesis unfolding str_trim_def u by (metis concat_utf8_chars u)
qed

lemma trim_spaces:
  assumes "list_all (\<lambda>c. is_whitespace [c]) p" and "ascii p" and "s \<noteq> [] \<longrightarrow> \<not> is_continuation (hd s)"
  shows "str_trim (p @ s) = str_trim s"
proof -
  have "dropWhile is_whitespace (map (\<lambda>c. [c]) p @ xs) = dropWhile is_whitespace xs" for xs
    using assms(1) by (induction p) simp_all
  then show ?thesis using chars_append [OF assms(2,3)] by (simp add: str_trim_def)
qed

section \<open>Finding the lines again\<close>

lemma lines_from_line:
  assumes "newline \<notin> set l"
  shows "lines_from acc (l @ newline # s) = strip_cr (acc @ l) # lines_from [] s"
    and "lines_from acc l = (if acc @ l = [] then [] else [acc @ l])"
  using assms by (induction l arbitrary: acc) auto

lemma str_lines_block:
  assumes "\<forall>l\<in>set ls. newline \<notin> set l \<and> strip_cr l = l" and "ls \<noteq> []" and "last ls \<noteq> []"
  shows "str_lines (concat (map (\<lambda>l. nl @ l) ls)) = [] # ls"
proof -
  have "lines_from acc (l @ concat (map (\<lambda>l. nl @ l) ls)) = strip_cr (acc @ l) # ls"
    if "\<forall>l\<in>set ls. newline \<notin> set l \<and> strip_cr l = l" "newline \<notin> set l" "ls \<noteq> []" "last ls \<noteq> []" for acc l ls
    using that
  proof (induction ls arbitrary: acc l)
    case (Cons l' ls)
    have step: "lines_from acc (l @ concat (map (\<lambda>l. nl @ l) (l' # ls))) =
        strip_cr (acc @ l) # lines_from [] (l' @ concat (map (\<lambda>l. nl @ l) ls))"
      using lines_from_line(1) [OF Cons.prems(2)] by (simp add: nl_def)
    show ?case
    proof (cases "ls = []")
      case True
      with Cons.prems step show ?thesis using lines_from_line(2) [of l' "[]"] by simp
    next
      case False
      with Cons.prems step show ?thesis using Cons.IH [of l' "[]"] by simp
    qed
  qed simp
  from this [of ls "[]" "[]"] assms show ?thesis by (simp add: str_lines_def strip_cr_def)
qed

lemma find_after_line:
  assumes "newline \<notin> set l"
  shows "str_find (nl @ p) (l @ newline # s) = map_option ((+) (length l)) (str_find (nl @ p) (newline # s))"
  using assms
proof (induction l)
  case Nil
  show ?case by (cases "str_find (nl @ p) (newline # s)") simp_all
next
  case (Cons c l)
  then show ?case
    by (cases "str_find (nl @ p) (newline # s)") (auto simp: nl_def)
qed

lemma find_block:
  assumes "\<forall>l\<in>set ls. newline \<notin> set l \<and> \<not> is_prefix_of ''---'' (l @ nl)"
  shows "str_find (nl @ ''---'') (concat (map (\<lambda>l. nl @ l) ls) @ nl @ ''---'' @ rest) =
    Some (length (concat (map (\<lambda>l. nl @ l) ls)))"
  using assms
proof (induction ls)
  case Nil
  then show ?case by (simp add: nl_def)
next
  case (Cons l ls)
  define tail where "tail = concat (map (\<lambda>l. nl @ l) ls) @ nl @ ''---'' @ rest"
  obtain tail' where t: "tail = newline # tail'"
    by (cases ls) (auto simp: tail_def nl_def)
  have "\<not> is_prefix_of ''---'' (l @ newline # tail')"
  proof
    assume "is_prefix_of ''---'' (l @ newline # tail')"
    then have d: "take (length ''---'') (l @ newline # tail') = ''---''" by (simp only: is_prefix_of_iff)
    have "take (length ''---'') (l @ newline # tail') = take (length ''---'') (l @ nl) \<or>
        newline \<in> set (take (length ''---'') (l @ newline # tail'))"
      by (cases "length l \<ge> length ''---''") (auto simp: nl_def take_Cons')
    with d Cons.prems show False by (auto simp only: is_prefix_of_iff list.set_intros)
      (simp_all add: newline_def)
  qed
  then have "str_find (nl @ ''---'') (newline # l @ tail) = map_option Suc (str_find (nl @ ''---'') (l @ tail))"
    by (simp add: t nl_def)
  also have "str_find (nl @ ''---'') (l @ tail) = map_option ((+) (length l)) (str_find (nl @ ''---'') tail)"
    unfolding t by (rule find_after_line) (use Cons.prems in simp)
  finally show ?case using Cons by (simp add: tail_def nl_def)
qed

section \<open>Reading the fields\<close>

lemma plain_line:
  assumes "plain_field s"
  shows "s \<noteq> []" "str_trim s = s" "newline \<notin> set s" "\<not> is_continuation (hd s)" "trim_quotes s = s" "strip_cr s = s"
proof -
  show b: "s \<noteq> []" "str_trim s = s" "newline \<notin> set s" "\<not> is_continuation (hd s)"
    using assms by (simp_all add: plain_field_def)
  have "dropWhile (\<lambda>c. c = quote_char) s = s" using assms by (cases s) (simp_all add: plain_field_def)
  then show "trim_quotes s = s" using assms trim_end_id [OF b(1)] by (simp add: trim_quotes_def plain_field_def)
  show "strip_cr s = s"
  proof -
    have "last s \<noteq> carriage_return"
    proof
      assume l: "last s = carriage_return"
      then obtain t where s: "s = t @ [carriage_return]" using b(1) by (metis append_butlast_last_id)
      have "utf8_chars (t @ [carriage_return]) = utf8_chars t @ [[carriage_return]]" for t
      proof (induction t rule: utf8_chars.induct)
        case (2 c cs)
        have "\<not> is_continuation carriage_return" by (simp add: is_continuation_def carriage_return_def)
        then have "takeWhile is_continuation (cs @ [carriage_return]) = takeWhile is_continuation cs"
          "dropWhile is_continuation (cs @ [carriage_return]) = dropWhile is_continuation cs @ [carriage_return]"
          by (induction cs) auto
        with 2 show ?case by simp
      qed simp
      then have "last (utf8_chars s) = [carriage_return]" by (simp add: s)
      with trimmed_chars(3) [OF b(2,1)] show False by (simp add: is_whitespace_def carriage_return_def)
    qed
    then show ?thesis by (simp add: strip_cr_def)
  qed
qed

lemma find_colon: "CHR '':'' \<notin> set k \<Longrightarrow> str_find '':'' (k @ CHR '':'' # s) = Some (length k)"
  by (induction k) auto

lemma fm_line_field:
  assumes "plain_field s" and "fm_key st = None" and "ascii k" and "k \<noteq> []" and "str_trim k = k"
    and "CHR '':'' \<notin> set k" and "hd k \<noteq> CHR ''#''" and "hd k \<noteq> CHR ''-''"
  shows "fm_line (field_line k s) st = st\<lparr>fm_map := AList.update k (FmString s) (fm_map st)\<rparr>"
proof -
  note p = plain_line [OF assms(1)]
  have "\<not> is_whitespace [hd k]"
    using trimmed_chars(2) [OF assms(5,4)] ascii_chars [OF assms(3)] assms(4) by (cases k) simp_all
  then have t: "str_trim (k @ '': '' @ s) = k @ '': '' @ s"
    using trim_prefixed [of "k @ '': ''" s] p assms(3,4) by (simp add: ascii_def)
  have v: "str_trim ('' '' @ s) = s" using trim_spaces [of "'' ''" s] p by (simp add: ascii_def is_whitespace_def)
  have f: "str_find '':'' (k @ '': '' @ s) = Some (length k)" using find_colon [OF assms(6)] by simp
  have "\<not> is_prefix_of ''#'' (k @ '': '' @ s)" "\<not> is_prefix_of ''- '' (k @ '': '' @ s)"
    using assms(4,7,8) by (cases k; simp)+
  with t show ?thesis using assms(2,4,5) p(1,5) v
    unfolding field_line_def fm_line_def Let_def t flush_def key_value_def f by simp
qed

lemma fm_line_item:
  assumes "plain_field t" and "fm_key st \<noteq> None"
  shows "fm_line (item_line t) st = st\<lparr>fm_list := fm_list st @ [t]\<rparr>"
proof -
  note p = plain_line [OF assms(1)]
  have "str_trim (''- '' @ t) = ''- '' @ t"
    by (rule trim_prefixed) (use p in \<open>simp_all add: ascii_def is_whitespace_def\<close>)
  then have "str_trim (''  '' @ ''- '' @ t) = ''- '' @ t"
    using trim_spaces [of "''  ''" "''- '' @ t"] by (simp add: ascii_def is_whitespace_def is_continuation_def)
  then have tr: "str_trim (''  - '' @ t) = ''- '' @ t" by simp
  show ?thesis using assms(2) p(2,5)
    unfolding item_line_def fm_line_def Let_def tr by auto
qed

lemma fm_line_items:
  assumes "list_all plain_field ts" and "fm_key st \<noteq> None"
  shows "fold fm_line (map item_line ts) st = st\<lparr>fm_list := fm_list st @ ts\<rparr>"
  using assms by (induction ts arbitrary: st) (simp_all add: fm_line_item del: append.simps)

lemma fm_line_tools: "fm_key st = None \<Longrightarrow> fm_line ''allowed_tools:'' st = st\<lparr>fm_key := Some ''allowed_tools''\<rparr>"
proof -
  assume a: "fm_key st = None"
  have t: "str_trim ''allowed_tools:'' = ''allowed_tools:''" "str_trim ''allowed_tools'' = ''allowed_tools''"
    "str_trim [] = []" "str_find '':'' ''allowed_tools:'' = Some 13"
    by code_simp+
  show ?thesis using a unfolding fm_line_def Let_def t flush_def key_value_def by (simp add: t)
qed

lemma skill_lines_ok:
  assumes "writable s" and "l \<in> set (skill_lines s)"
  shows "newline \<notin> set l" "strip_cr l = l" "\<not> is_prefix_of ''---'' (l @ nl)" "l \<noteq> []"
proof -
  have field: "newline \<notin> set (p @ f) \<and> strip_cr (p @ f) = p @ f"
    if "plain_field f" "newline \<notin> set p" for p f
  proof -
    have "last f \<noteq> carriage_return"
      using plain_line(1,6) [OF that(1)] by (cases f rule: rev_cases) (auto simp: strip_cr_def)
    then show ?thesis using plain_line(1,3) [OF that(1)] that(2) by (simp add: strip_cr_def)
  qed
  have key: "newline \<notin> set (field_line k f) \<and> strip_cr (field_line k f) = field_line k f"
    if "plain_field f" "newline \<notin> set k" for k f
    using field [OF that(1), of "k @ '': ''"] that(2) by (simp add: field_line_def newline_def)
  have item: "newline \<notin> set (item_line f) \<and> strip_cr (item_line f) = item_line f" if "plain_field f" for f
    unfolding item_line_def using that by (rule field) (simp add: newline_def)
  have word: "newline \<notin> set ''allowed_tools:'' \<and> strip_cr ''allowed_tools:'' = ''allowed_tools:''" by code_simp
  consider "l = field_line ''name'' (sk_name s)" | "l = field_line ''description'' (sk_description s)"
    | "l = ''allowed_tools:''" | t where "t \<in> set (sk_allowed_tools s)" "l = item_line t"
    using assms(2) by (auto simp: skill_lines_def)
  then have "newline \<notin> set l \<and> strip_cr l = l"
  proof cases
    case 1
    then show ?thesis using key [of "sk_name s" "''name''"] assms(1) by (simp add: writable_def newline_def)
  next
    case 2
    then show ?thesis
      using key [of "sk_description s" "''description''"] assms(1) by (simp add: writable_def newline_def)
  next
    case 3
    then show ?thesis using word by simp
  next
    case 4
    then show ?thesis using item assms(1) by (simp add: writable_def list_all_iff)
  qed
  then show "newline \<notin> set l" "strip_cr l = l" by blast+
  show "\<not> is_prefix_of ''---'' (l @ nl)" "l \<noteq> []"
    using assms(2) by (auto simp: skill_lines_def field_line_def item_line_def)
qed

lemma parse_printed_lines:
  assumes "writable s"
  shows "parse_minimal_yaml (concat (map (\<lambda>l. nl @ l) (skill_lines s))) =
    [(''name'', FmString (sk_name s)), (''description'', FmString (sk_description s))] @
    (if sk_allowed_tools s = [] then [] else [(''allowed_tools'', FmArray (sk_allowed_tools s))])"
proof -
  have name: "plain_field (sk_name s)" and desc: "plain_field (sk_description s)"
    and tools: "list_all plain_field (sk_allowed_tools s)"
    using assms by (simp_all add: writable_def)
  have "str_trim ''name'' = ''name''" "str_trim ''description'' = ''description''" "str_trim [] = []" by code_simp+
  note k = this
  have ne: "skill_lines s \<noteq> []" by (simp add: skill_lines_def)
  have lines: "str_lines (concat (map (\<lambda>l. nl @ l) (skill_lines s))) = [] # skill_lines s"
    by (rule str_lines_block) (use skill_lines_ok [OF assms] ne in auto)
  let ?st = "fm_start\<lparr>fm_map := [(''name'', FmString (sk_name s))]\<rparr>"
  have "fm_line [] fm_start = fm_start" by (simp add: fm_line_def k)
  moreover have "fm_line (field_line ''name'' (sk_name s)) fm_start = ?st"
    using fm_line_field [OF name, of fm_start "''name''"] k by (simp add: fm_start_def ascii_def)
  moreover have "fm_line (field_line ''description'' (sk_description s)) ?st =
      fm_start\<lparr>fm_map := [(''name'', FmString (sk_name s)), (''description'', FmString (sk_description s))]\<rparr>"
    using fm_line_field [OF desc, of ?st "''description''"] k by (simp add: fm_start_def ascii_def)
  ultimately have "fold fm_line ([] # skill_lines s) fm_start =
      \<lparr>fm_map = [(''name'', FmString (sk_name s)), (''description'', FmString (sk_description s))],
       fm_key = Some ''allowed_tools'', fm_list = sk_allowed_tools s\<rparr>"
    using fm_line_items [OF tools] by (simp add: skill_lines_def fm_line_tools) (simp add: fm_start_def fm_line_tools)
  then show ?thesis by (simp add: parse_minimal_yaml_def lines flush_def)
qed

text \<open>C40: A skill file says what the skill was. Printing a skill in the documented format and parsing the file
  gives the skill back - name, description, allowed tools and content - with the path of the file, for
  every skill whose fields fit on their lines.\<close>

theorem skill_file_roundtrip:
  assumes "writable s"
  shows "parse_skill path (print_skill s) = Inr (s\<lparr>sk_source_path := Some path\<rparr>)"
proof -
  let ?b = "concat (map (\<lambda>l. nl @ l) (skill_lines s))"
  let ?raw = "print_skill s"
  have bom: "trim_bom ?raw = ?raw"
    by (simp add: print_skill_def byte_order_mark_def)
  have close: "str_find (nl @ ''---'') (drop 3 ?raw) = Some (length ?b)"
    using find_block [of "skill_lines s" "nl @ sk_content s"] skill_lines_ok [OF assms]
    by (simp add: print_skill_def)
  have rest: "drop (length ?b + 4) (drop 3 ?raw) = nl @ sk_content s" "take (length ?b) (drop 3 ?raw) = ?b"
    by (simp_all add: print_skill_def nl_def)
  have body: "dropWhile (\<lambda>c. c = newline) (nl @ sk_content s) = sk_content s"
    using assms by (cases "sk_content s") (simp_all add: nl_def writable_def)
  have "split_frontmatter ?raw = (parse_minimal_yaml ?b, sk_content s)"
    unfolding split_frontmatter_def Let_def bom close
    using rest body by (simp add: print_skill_def)
  then show ?thesis
    using assms by (simp add: parse_skill_def parse_printed_lines fm_string_def writable_def)
qed

definition git_skill :: skill where
  "git_skill = \<lparr>sk_name = ''git'', sk_description = ''Git: a guide'', sk_content = ''Use it.'', sk_source_path = None,
     sk_allowed_tools = [''read'', ''grep'']\<rparr>"

lemma git_skill_writable: "writable git_skill"
  by code_simp

lemma skill_file_roundtrip_witness:
  "parse_skill ''/s/SKILL.md'' (print_skill git_skill) = Inr (git_skill\<lparr>sk_source_path := Some ''/s/SKILL.md''\<rparr>)"
  by (rule skill_file_roundtrip [OF git_skill_writable])

section \<open>The registry over time\<close>

datatype skill_op = RegisterSkill skill | RemoveSkill string | LoadDirectory string "dir_entry list"

fun skill_run :: "skill_op \<Rightarrow> skill_registry \<Rightarrow> skill_registry" where
  "skill_run (RegisterSkill s) r = snd (register_skill s r)"
| "skill_run (RemoveSkill n) r = snd (remove_skill n r)"
| "skill_run (LoadDirectory dir entries) r = snd (load_from_directory dir entries r)"

text \<open>Each operation leaves the registry alone or raises its version, which stops at its maximum.\<close>

definition moves_on :: "skill_registry \<Rightarrow> skill_registry \<Rightarrow> bool" where
  "moves_on r r' \<longleftrightarrow> r' = r \<or> sr_version r < sr_version r' \<or> sr_version r' = -1"

lemma bump_word: "(v :: u64) < sat_add_word v 1 \<or> sat_add_word v 1 = -1"
proof (cases "v = -1")
  case False
  have "unat (-1 :: u64) = 2 ^ 64 - 1" by (simp add: unsigned_minus_1_eq_mask mask_eq_exp_minus_1)
  with False have "unat v \<noteq> 2 ^ 64 - 1" by (metis word_unat_eq_iff)
  moreover have "unat v < 2 ^ 64" using unsigned_less [of v] by simp
  ultimately have "unat v + 1 < 2 ^ 64" by linarith
  then have "v < v + 1" by (simp add: word_less_nat_alt unat_plus_if')
  then show ?thesis by (simp add: sat_add_word_def less_imp_le)
qed (simp add: sat_add_word_def)

lemma bump_moves:
  "moves_on r \<lparr>sr_skills = ss, sr_version = sat_add_word (sr_version r) 1\<rparr>"
  using bump_word [of "sr_version r"] by (simp add: moves_on_def)

lemma moves_on_refl: "moves_on r r"
  by (simp add: moves_on_def)

lemma moves_on_trans:
  assumes "moves_on r r'" and "moves_on r' r''"
  shows "moves_on r r''"
proof -
  have "w = -1" if "(-1 :: u64) < w" for w using that by simp
  then show ?thesis using assms by (auto simp: moves_on_def)
qed

lemma register_moves: "moves_on r (snd (register_skill s r))"
  by (simp add: register_skill_def bump_moves)

lemma walk_moves:
  "moves_on (fst rl) (fst (snd (walk_entry dir x rl)))"
  "moves_on (fst rl) (fst (snd (walk_and_load dir xs rl)))"
proof (induction dir x rl and dir xs rl rule: walk_entry_walk_and_load.induct)
  case (1 dir name raw r loaded)
  then show ?case by (auto simp: moves_on_refl register_moves split: sum.split)
next
  case (6 dir x xs r loaded)
  then show ?case by (auto split: prod.splits option.splits intro: moves_on_trans)
qed (simp_all add: moves_on_refl)

lemma skill_run_moves: "moves_on r (skill_run op r)"
proof (cases op)
  case (RemoveSkill n)
  then show ?thesis by (simp add: remove_skill_def bump_moves moves_on_refl split: option.split)
next
  case (LoadDirectory dir entries)
  have "fst (snd (walk_and_load dir entries (r, []))) = snd (load_from_directory dir entries r)"
    by (simp add: load_from_directory_def split: prod.split option.split)
  with LoadDirectory walk_moves(2) [of "(r, [])" dir entries] show ?thesis by simp
qed (simp add: register_moves)

text \<open>The version tells changes. Whatever is registered, removed and loaded from directories, files that fail
  to parse included: while the counter has not reached its maximum, an unchanged version means an
  unchanged registry, and so an unchanged catalog.\<close>

theorem same_version_same_skills:
  assumes "sr_version (fold skill_run ops r) = sr_version r" and "sr_version r \<noteq> -1"
  shows "fold skill_run ops r = r"
proof -
  have "moves_on r (fold skill_run ops r)"
  proof (induction ops arbitrary: r)
    case (Cons op ops)
    from moves_on_trans [OF skill_run_moves Cons] show ?case by simp
  qed (simp add: moves_on_refl)
  with assms show ?thesis by (auto simp: moves_on_def)
qed

lemma same_version_same_skills_witness:
  "fold skill_run [RemoveSkill ''git'', LoadDirectory ''/s'' [OtherEntry ''x'', SkillFile ''skill.md'' ''no frontmatter'']] skills_new
     = skills_new"
proof (rule same_version_same_skills)
  show "sr_version (fold skill_run [RemoveSkill ''git'', LoadDirectory ''/s'' [OtherEntry ''x'', SkillFile ''skill.md'' ''no frontmatter'']]
      skills_new) = sr_version skills_new"
    by code_simp
qed (simp add: skills_new_def)

text \<open>The catalog does not depend on the order of the map: two registries with the same skills, each under
  its own name, render the same catalog.\<close>

theorem catalog_deterministic:
  assumes "mset (sr_skills r) = mset (sr_skills r')" and "distinct (map fst (sr_skills r))"
    and "\<forall>(n, s)\<in>set (sr_skills r). sk_name s = n"
  shows "render_catalog r = render_catalog r' \<and> render_full r = render_full r'"
proof -
  let ?xs = "map snd (sr_skills r)" and ?ys = "map snd (sr_skills r')"
  have names: "map sk_name ?xs = map fst (sr_skills r)" using assms(3) by (auto simp: case_prod_beta)
  have "mset ?xs = mset ?ys" using assms(1) by (metis mset_map)
  moreover have "inj_on sk_name (set ?xs)" using assms(2) by (metis names distinct_map)
  ultimately have "sort_key sk_name ?xs = sort_key sk_name ?ys"
    by (intro sort_key_inj_key_eq) (simp_all add: mset_sort)
  moreover have "(sr_skills r = []) = (sr_skills r' = [])" using assms(1) by (metis mset_zero_iff)
  ultimately show ?thesis by (simp add: render_catalog_def render_full_def sorted_skills_def)
qed

lemma catalog_deterministic_witness:
  "render_catalog \<lparr>sr_skills = [(''b'', skill_new ''b'' '''' ''''), (''a'', skill_new ''a'' '''' '''')], sr_version = 2\<rparr> =
   render_catalog \<lparr>sr_skills = [(''a'', skill_new ''a'' '''' ''''), (''b'', skill_new ''b'' '''' '''')], sr_version = 3\<rparr>"
  using catalog_deterministic [of
      "\<lparr>sr_skills = [(''b'', skill_new ''b'' '''' ''''), (''a'', skill_new ''a'' '''' '''')], sr_version = 2\<rparr>"
      "\<lparr>sr_skills = [(''a'', skill_new ''a'' '''' ''''), (''b'', skill_new ''b'' '''' '''')], sr_version = 3\<rparr>"]
  by (simp add: skill_new_def)

lemma update_same: "map_of xs k = Some v \<Longrightarrow> AList.update k v xs = xs"
  by (induction xs) auto

text \<open>Registering a skill again as it is makes the knowledge stale. The catalog is what was injected, and the
  tracker asks for the section to be rewritten all the same, because the version went up.\<close>

theorem unchanged_catalog_is_stale:
  assumes "map_of (sr_skills r) (sk_name s) = Some s" and "sr_version r \<noteq> -1"
  shows "let r' = snd (register_skill s r); st = update_knowledge k (render_catalog r) (sr_version r) known
    in render_catalog r' = render_catalog r \<and> is_stale st k (render_catalog r') (sr_version r')"
proof -
  have "AList.update (sk_name s) s (sr_skills r) = sr_skills r" by (rule update_same [OF assms(1)])
  moreover have "sat_add_word (sr_version r) 1 \<noteq> sr_version r"
    using bump_word [of "sr_version r"] assms(2) by auto
  ultimately show ?thesis
    by (simp add: Let_def register_skill_def update_knowledge_def is_stale_def render_catalog_def sorted_skills_def
        update_conv')
qed

lemma unchanged_catalog_is_stale_witness:
  "let r = snd (register_skill git_skill skills_new); r' = snd (register_skill git_skill r);
       st = update_knowledge ''skills'' (render_catalog r) (sr_version r) []
   in render_catalog r' = render_catalog r \<and> is_stale st ''skills'' (render_catalog r') (sr_version r')"
  using unchanged_catalog_is_stale [of "snd (register_skill git_skill skills_new)" git_skill "''skills''" "[]"]
  by (simp add: register_skill_def skills_new_def sat_add_word_def)

end
