(* ===== verification/Sse_Stream.thy ===== *)
theory Sse_Stream
  imports Core_Errors Rust_Str
begin

text \<open>
  The parser of server-sent events (\<open>sse.rs\<close> of the Anthropic adapter; the OpenAI adapter's
  copy differs in \<open>is_openai_done\<close> only). The byte stream is the list of what it yields, a chunk
  of bytes or a transport error; \<open>Poll::Pending\<close> changes nothing and does not appear.
  \<open>String::from_utf8_lossy\<close> is written out as the standard library has it, over bytes.
\<close>

section \<open>Lossy decoding\<close>

definition in_range :: "nat \<Rightarrow> nat \<Rightarrow> char \<Rightarrow> bool" where
  "in_range lo hi c \<longleftrightarrow> lo \<le> (of_char c :: nat) \<and> (of_char c :: nat) \<le> hi"

text \<open>The byte after a three- or four-byte lead is in a range of its own; the others are
  continuation bytes.\<close>

definition second_ok :: "char \<Rightarrow> char \<Rightarrow> bool" where
  "second_ok a b \<longleftrightarrow>
     (let x = (of_char a :: nat) in
      if x = 0xE0 then in_range 0xA0 0xBF b
      else if x = 0xED then in_range 0x80 0x9F b
      else if x = 0xF0 then in_range 0x90 0xBF b
      else if x = 0xF4 then in_range 0x80 0x8F b
      else in_range 0x80 0xBF b)"

definition utf8_width :: "char \<Rightarrow> nat" where
  "utf8_width a =
     (if in_range 0 0x7F a then 1 else if in_range 0xC2 0xDF a then 2
      else if in_range 0xE0 0xEF a then 3 else if in_range 0xF0 0xF4 a then 4 else 0)"

text \<open>How many of the bytes after the lead belong to it: the longest prefix of a well-formed
  sequence.\<close>

definition good_tail :: "char \<Rightarrow> string \<Rightarrow> nat" where
  "good_tail a cs =
     (case take (utf8_width a - 1) cs of
        [] \<Rightarrow> 0
      | b # bs \<Rightarrow> if second_ok a b then Suc (length (takeWhile (in_range 0x80 0xBF) bs)) else 0)"

definition replacement :: string where
  "replacement = [CHR 0xEF, CHR 0xBF, CHR 0xBD]"

function utf8_lossy :: "string \<Rightarrow> string" where
  "utf8_lossy [] = []"
| "utf8_lossy (a # cs) =
     (let n = good_tail a cs in
      (if Suc n = utf8_width a then a # take n cs else replacement) @ utf8_lossy (drop n cs))"
  by pat_completeness auto
termination by (relation "measure length") auto

lemma lossy_ascii: "ascii s \<Longrightarrow> utf8_lossy s = s"
  by (induction s) (auto simp: ascii_def good_tail_def utf8_width_def in_range_def Let_def)

section \<open>Events\<close>

record sse_event =
  sse_name :: "string option"
  sse_data :: string

definition is_openai_done :: "sse_event \<Rightarrow> bool" where
  "is_openai_done e \<longleftrightarrow> str_trim (sse_data e) = ''[DONE]''"

definition str_trim_start :: "string \<Rightarrow> string" where
  "str_trim_start s = concat (dropWhile is_whitespace (utf8_chars s))"

definition block_line ::
  "string option \<times> string list \<Rightarrow> string \<Rightarrow> string option \<times> string list" where
  "block_line st line =
     (if is_prefix_of ''event:'' line then (Some (str_trim (drop 6 line)), snd st)
      else if is_prefix_of ''data:'' line then (fst st, snd st @ [str_trim_start (drop 5 line)])
      else st)"

definition parse_event_block :: "string \<Rightarrow> sse_event option" where
  "parse_event_block block =
     (case foldl block_line (None, []) (str_lines block) of
        (name, data) \<Rightarrow>
          if data = [] then None else Some \<lparr>sse_name = name, sse_data = str_join [newline] data\<rparr>)"

text \<open>The end of the first delimiter.\<close>

fun find_event_boundary :: "string \<Rightarrow> nat option" where
  "find_event_boundary (c # d # cs) =
     (if c = newline \<and> d = newline then Some 2
      else if c = carriage_return \<and> d = newline \<and> take 2 cs = [carriage_return, newline] then Some 4
      else if c = carriage_return \<and> d = carriage_return then Some 2
      else map_option Suc (find_event_boundary (d # cs)))"
| "find_event_boundary _ = None"

definition extract_event :: "string \<Rightarrow> sse_event option \<times> string" where
  "extract_event buffer =
     (case find_event_boundary buffer of
        None \<Rightarrow> (None, buffer)
      | Some e \<Rightarrow> (parse_event_block (take e buffer), drop e buffer))"

type_synonym chunk = "string + string"

text \<open>\<open>poll_next\<close>: the item it yields, \<open>None\<close> at the end, with the buffer and the chunks left.\<close>

fun sse_poll :: "provider_id \<Rightarrow> string \<Rightarrow> chunk list \<Rightarrow>
    (provider_error + sse_event) option \<times> string \<times> chunk list" where
  "sse_poll p buffer [] =
     (case extract_event buffer of
        (Some e, b) \<Rightarrow> (Some (Inr e), b, [])
      | (None, b) \<Rightarrow>
          (case extract_event b of
             (Some e, b') \<Rightarrow> (Some (Inr e), b', [])
           | (None, b') \<Rightarrow> (None, b', [])))"
| "sse_poll p buffer (c # cs) =
     (case extract_event buffer of
        (Some e, b) \<Rightarrow> (Some (Inr e), b, c # cs)
      | (None, b) \<Rightarrow>
          (case c of
             Inr bytes \<Rightarrow> sse_poll p (b @ utf8_lossy bytes) cs
           | Inl source \<Rightarrow> (Some (Inl (Transport p source)), b, cs)))"

lemma boundary_bounds: "find_event_boundary s = Some e \<Longrightarrow> 0 < e \<and> e \<le> length s"
proof (induction s arbitrary: e rule: find_event_boundary.induct)
  case (1 c d cs)
  have "take 2 cs = [carriage_return, newline] \<Longrightarrow> 2 \<le> length cs"
    by (metis length_Cons length_take list.size(3) min.cobounded1 numeral_2_eq_2)
  with 1 show ?case by (auto split: if_splits)
qed auto

lemma extract_event_shorter:
  "extract_event b = (Some e, b') \<Longrightarrow> length b' < length b"
  by (auto simp: extract_event_def dest!: boundary_bounds split: option.splits)

lemma sse_poll_progress:
  "sse_poll p b cs = (Some r, b', cs') \<Longrightarrow>
    length cs' < length cs \<or> cs' = cs \<and> length b' < length b"
proof (induction p b cs arbitrary: r rule: sse_poll.induct)
  case (1 p b)
  obtain o1 b1 where x: "extract_event b = (o1, b1)" by fastforce
  have "length b1 \<le> length b"
    using x by (auto simp: extract_event_def split: option.splits)
  with 1 x show ?case
    by (auto dest!: extract_event_shorter split: option.splits prod.splits)
next
  case (2 p b c cs)
  obtain o1 b1 where x: "extract_event b = (o1, b1)" by fastforce
  show ?case
  proof (cases o1)
    case None
    with 2 x show ?thesis by (fastforce split: sum.splits)
  qed (use 2 x extract_event_shorter in auto)
qed

text \<open>All that the stream yields.\<close>

function sse_run :: "provider_id \<Rightarrow> string \<Rightarrow> chunk list \<Rightarrow> (provider_error + sse_event) list" where
  "sse_run p b cs =
     (case sse_poll p b cs of
        (None, _, _) \<Rightarrow> []
      | (Some r, b', cs') \<Rightarrow> r # sse_run p b' cs')"
  by pat_completeness auto
termination
  by (relation "measures [\<lambda>(p, b, cs). length cs, \<lambda>(p, b, cs). length b]")
    (auto dest: sse_poll_progress [OF sym])

declare sse_run.simps [simp del]

section \<open>The reference: the blocks of a text\<close>

function sse_blocks :: "string \<Rightarrow> string list" where
  "sse_blocks s =
     (case find_event_boundary s of
        None \<Rightarrow> []
      | Some e \<Rightarrow> take e s # sse_blocks (drop e s))"
  by pat_completeness auto
termination by (relation "measure length") (auto dest!: boundary_bounds)

declare sse_blocks.simps [simp del]

definition sse_events :: "string \<Rightarrow> sse_event list" where
  "sse_events s = map (the \<circ> parse_event_block) (sse_blocks s)"

text \<open>A boundary found in a prefix is the boundary of every extension.\<close>

lemma boundary_stable: "find_event_boundary s = Some e \<Longrightarrow> find_event_boundary (s @ t) = Some e"
proof (induction s arbitrary: e rule: find_event_boundary.induct)
  case (1 c d cs)
  show ?case
  proof (cases "c = carriage_return \<and> d = newline")
    case True
    consider "cs = []" | x where "cs = [x]" | x y zs where "cs = x # y # zs"
      by (cases cs; cases "tl cs") auto
    then show ?thesis
      using 1 True by cases (auto simp: newline_def carriage_return_def split: if_splits)
  qed (use 1 in \<open>auto split: if_splits\<close>)
qed auto

lemma sse_blocks_None: "find_event_boundary s = None \<Longrightarrow> sse_blocks s = []"
  by (subst sse_blocks.simps) simp

lemma sse_blocks_Some:
  assumes "find_event_boundary s = Some e"
  shows "sse_blocks (s @ t) = take e s # sse_blocks (drop e s @ t)"
  using boundary_stable [OF assms, of t] boundary_bounds [OF assms]
  by (subst sse_blocks.simps) simp

definition carries_data :: "string \<Rightarrow> bool" where
  "carries_data s \<longleftrightarrow> list_all (\<lambda>b. parse_event_block b \<noteq> None) (sse_blocks s)"

abbreviation lossless :: "string list \<Rightarrow> bool" where
  "lossless cs \<equiv> list_all (\<lambda>c. utf8_lossy c = c) cs"

lemma extract_blocks:
  assumes "carries_data (b @ t)"
  shows "(\<exists>e b'. extract_event b = (Some e, b') \<and> sse_events (b @ t) = e # sse_events (b' @ t) \<and>
      carries_data (b' @ t)) \<or> extract_event b = (None, b) \<and> find_event_boundary b = None"
proof (cases "find_event_boundary b")
  case (Some e)
  from sse_blocks_Some [OF Some, of t] Some assms show ?thesis
    by (auto simp: extract_event_def carries_data_def sse_events_def)
qed (simp add: extract_event_def)

lemma sse_poll_blocks:
  assumes "lossless cs" and "carries_data (b @ concat cs)"
  shows "(\<exists>e b' cs'. sse_poll p b (map Inr cs) = (Some (Inr e), b', map Inr cs') \<and> lossless cs' \<and>
      sse_events (b @ concat cs) = e # sse_events (b' @ concat cs') \<and>
      carries_data (b' @ concat cs')) \<or>
    (\<exists>b' cs'. sse_poll p b (map Inr cs) = (None, b', cs') \<and> sse_events (b @ concat cs) = [])"
  using assms
proof (induction cs arbitrary: b)
  case Nil
  then show ?case using extract_blocks [of b "[]"]
    by (force simp: sse_events_def sse_blocks_None)
next
  case (Cons c cs)
  from extract_blocks [OF Cons.prems(2)] show ?case
  proof (elim disjE exE conjE)
    fix e b' assume "extract_event b = (Some e, b')"
      "sse_events (b @ concat (c # cs)) = e # sse_events (b' @ concat (c # cs))"
      "carries_data (b' @ concat (c # cs))"
    then show ?thesis using Cons.prems(1)
      by (intro disjI1 exI [of _ e] exI [of _ b'] exI [of _ "c # cs"]) simp
  qed (use Cons.IH [of "b @ c"] Cons.prems in simp)
qed

text \<open>C33: Events do not depend on how the bytes arrive. When every chunk is well-formed UTF-8 (no
  character is split between two chunks) and every block has a \<open>data:\<close> line, the parser yields the
  events of the concatenated text, in order, each once: a delimiter split over chunks, several
  events in a chunk and an event spread over many chunks make no difference.\<close>

theorem events_independent_of_chunks:
  assumes "lossless cs" and "carries_data (concat cs)"
  shows "sse_run p [] (map Inr cs) = map Inr (sse_events (concat cs))"
proof -
  have "sse_run p b (map Inr cs) = map Inr (sse_events (b @ concat cs))"
    if "lossless cs" "carries_data (b @ concat cs)" for b
    using that
  proof (induction p b "map Inr cs :: chunk list" arbitrary: cs rule: sse_run.induct)
    case (1 p b)
    from sse_poll_blocks [OF 1(2,3), of p] show ?case
    proof (elim disjE exE conjE)
      fix e b' cs' assume p: "sse_poll p b (map Inr cs) = (Some (Inr e), b', map Inr cs')"
        and "lossless cs'" "carries_data (b' @ concat cs')"
        and "sse_events (b @ concat cs) = e # sse_events (b' @ concat cs')"
      with 1(1) [OF p [symmetric] refl refl] show ?thesis
        by (subst sse_run.simps) simp
    qed (subst sse_run.simps, simp)
  qed
  from this [of "[]"] assms show ?thesis by simp
qed

theorem events_independent_of_chunks_witness:
  "let cs = [''event: ping'' @ [newline] @ ''da'', ''ta: 1'' @ [newline], [newline],
       ''data:2'' @ [carriage_return, newline, carriage_return], [newline] @ ''data: 3'']
   in sse_run ''p'' [] (map Inr cs) =
     [Inr \<lparr>sse_name = Some ''ping'', sse_data = ''1''\<rparr>, Inr \<lparr>sse_name = None, sse_data = ''2''\<rparr>]"
proof -
  let ?cs = "[''event: ping'' @ [newline] @ ''da'', ''ta: 1'' @ [newline], [newline],
       ''data:2'' @ [carriage_return, newline, carriage_return], [newline] @ ''data: 3'']"
  have "lossless ?cs" by code_simp
  moreover have "carries_data (concat ?cs)" by code_simp
  moreover have "sse_events (concat ?cs) =
      [\<lparr>sse_name = Some ''ping'', sse_data = ''1''\<rparr>, \<lparr>sse_name = None, sse_data = ''2''\<rparr>]"
    by code_simp
  ultimately show ?thesis using events_independent_of_chunks [of ?cs "''p''"] by simp
qed

text \<open>Without the two conditions the events do change: two comments that arrive together with the
  last event lose it, and a character split between chunks decodes to replacement characters.\<close>

lemma last_event_lost:
  "let s = '': a'' @ [newline, newline] @ '': b'' @ [newline, newline] @ ''data: x'' @ [newline, newline]
   in sse_run ''p'' [] [Inr s] = [] \<and>
      sse_run ''p'' [] (map (\<lambda>c. Inr [c]) s) = [Inr \<lparr>sse_name = None, sse_data = ''x''\<rparr>]"
  by code_simp

lemma split_character_garbled:
  "sse_run ''p'' [] [Inr (''data: '' @ [CHR 0xC3]), Inr ([CHR 0xA9] @ [newline, newline])] =
      [Inr \<lparr>sse_name = None, sse_data = replacement @ replacement\<rparr>] \<and>
    sse_run ''p'' [] [Inr (''data: '' @ [CHR 0xC3, CHR 0xA9] @ [newline, newline])] =
      [Inr \<lparr>sse_name = None, sse_data = [CHR 0xC3, CHR 0xA9]\<rparr>]"
  by code_simp

end
