(* ===== verification/Provider_Http.thy ===== *)
theory Provider_Http
  imports Core_Errors Rust_Str
begin

text \<open>
  What the HTTP adapters share: \<open>ProviderHttpConfig\<close> (\<open>behest-provider/src/config.rs\<close>), the
  requests they send and the errors they make of what comes back (\<open>http.rs\<close> and the first half of
  \<open>complete\<close> and \<open>stream\<close> in \<open>chat.rs\<close>). What \<open>reqwest\<close> answers to a request is a value; an
  error's \<open>Display\<close> text stands for it. Durations are nanoseconds.
\<close>

section \<open>Configuration and requests\<close>

definition from_secs :: "nat \<Rightarrow> duration" where
  "from_secs n = n * 1000000000"

record http_config =
  hc_id :: provider_id
  hc_base_url :: string
  hc_api_key :: "string option"
  hc_organization :: "string option"
  hc_timeout :: duration
  hc_connect_timeout :: duration
  hc_max_retries :: nat

definition http_config_new :: "provider_id \<Rightarrow> string \<Rightarrow> http_config" where
  "http_config_new i url =
     \<lparr>hc_id = i, hc_base_url = url, hc_api_key = None, hc_organization = None,
      hc_timeout = from_secs 60, hc_connect_timeout = from_secs 10, hc_max_retries = 2\<rparr>"

definition with_api_key :: "string \<Rightarrow> http_config \<Rightarrow> http_config" where
  "with_api_key k c = c\<lparr>hc_api_key := Some k\<rparr>"

definition with_organization :: "string \<Rightarrow> http_config \<Rightarrow> http_config" where
  "with_organization org c = c\<lparr>hc_organization := Some org\<rparr>"

definition with_timeouts :: "duration \<Rightarrow> duration \<Rightarrow> http_config \<Rightarrow> http_config" where
  "with_timeouts t ct c = c\<lparr>hc_timeout := t, hc_connect_timeout := ct\<rparr>"

definition with_max_retries :: "nat \<Rightarrow> http_config \<Rightarrow> http_config" where
  "with_max_retries n c = c\<lparr>hc_max_retries := n\<rparr>"

text \<open>A request as it leaves the adapter: where it goes, its headers and its body.\<close>

record 'b http_request =
  hr_url :: string
  hr_headers :: "(string \<times> string) list"
  hr_body :: 'b

definition anthropic_http_request :: "http_config \<Rightarrow> 'b \<Rightarrow> 'b http_request" where
  "anthropic_http_request c body =
     \<lparr>hr_url = hc_base_url c @ ''/messages'',
      hr_headers = (''anthropic-version'', ''2023-06-01'') #
        (case hc_api_key c of None \<Rightarrow> [] | Some k \<Rightarrow> [(''x-api-key'', k)]),
      hr_body = body\<rparr>"

definition with_bearer_auth :: "http_config \<Rightarrow> 'b http_request \<Rightarrow> 'b http_request" where
  "with_bearer_auth c r =
     (case hc_api_key c of
        None \<Rightarrow> r
      | Some k \<Rightarrow> r\<lparr>hr_headers := hr_headers r @ [(''Authorization'', ''Bearer '' @ k)]\<rparr>)"

definition openai_http_request :: "http_config \<Rightarrow> 'b \<Rightarrow> 'b http_request" where
  "openai_http_request c body =
     with_bearer_auth c
       \<lparr>hr_url = hc_base_url c @ ''/chat/completions'', hr_headers = [], hr_body = body\<rparr>"

definition embeddings_http_request :: "http_config \<Rightarrow> 'b \<Rightarrow> 'b http_request" where
  "embeddings_http_request c body =
     with_bearer_auth c \<lparr>hr_url = hc_base_url c @ ''/embeddings'', hr_headers = [], hr_body = body\<rparr>"

section \<open>Errors\<close>

text \<open>The greatest character boundary up to an index.\<close>

primrec boundary_below :: "string \<Rightarrow> nat \<Rightarrow> nat" where
  "boundary_below s 0 = 0"
| "boundary_below s (Suc n) =
     (if is_continuation (s ! Suc n) then boundary_below s n else Suc n)"

definition truncate_body :: "string \<Rightarrow> string" where
  "truncate_body s =
     (if length s \<le> 512 then s else take (boundary_below s 512) s @ ''...'')"

definition status_to_error ::
  "provider_id \<Rightarrow> 16 word \<Rightarrow> string \<Rightarrow> u64 option \<Rightarrow> provider_error" where
  "status_to_error p status body retry_after =
     (if status = 401 \<or> status = 403 then Authentication p
      else if status = 400 then BadRequest p (truncate_body body)
      else if status = 429 then RateLimited p (map_option (from_secs \<circ> unat) retry_after)
      else if 500 \<le> status \<and> status \<le> 599 then Overloaded p
      else ProviderFailure p (Some status) (truncate_body body))"

definition is_digit :: "char \<Rightarrow> bool" where
  "is_digit c \<longleftrightarrow> 48 \<le> (of_char c :: nat) \<and> (of_char c :: nat) \<le> 57"

definition decimal :: "string \<Rightarrow> int" where
  "decimal s = foldl (\<lambda>n c. 10 * n + (of_char c - 48)) 0 s"

text \<open>\<open>str::parse::<u64>\<close>: an optional plus sign, then digits that do not overflow.\<close>

definition parse_u64 :: "string \<Rightarrow> u64 option" where
  "parse_u64 s =
     (let d = (case s of [] \<Rightarrow> [] | c # cs \<Rightarrow> if c = CHR ''+'' then cs else s) in
      if d \<noteq> [] \<and> list_all is_digit d \<and> decimal d < 18446744073709551616 then Some (of_int (decimal d)) else None)"

text \<open>\<open>HeaderValue::to_str\<close> accepts visible ASCII and tabs.\<close>

definition header_str :: "string \<Rightarrow> string option" where
  "header_str v =
     (if list_all (\<lambda>c. of_char c = (9::nat) \<or> 32 \<le> (of_char c :: nat) \<and> (of_char c :: nat) < 127) v
      then Some v else None)"

definition parse_retry_after :: "string option \<Rightarrow> u64 option" where
  "parse_retry_after header =
     Option.bind header (\<lambda>v. Option.bind (header_str v) parse_u64)"

text \<open>What comes back: no response, or a status, the \<open>Retry-After\<close> header and the body as it is read.\<close>

datatype 'b http_reply =
    SendTimeout
  | SendFailed string
  | Reply "16 word" "string option" "string + 'b"

definition wrap_transport :: "provider_id \<Rightarrow> string option \<Rightarrow> provider_error" where
  "wrap_transport p source =
     (case source of None \<Rightarrow> ProviderTimeout p | Some m \<Rightarrow> Transport p m)"

definition is_success :: "16 word \<Rightarrow> bool" where
  "is_success status \<longleftrightarrow> 200 \<le> status \<and> status < 300"

definition error_body :: "string + string \<Rightarrow> string" where
  "error_body b = (case b of Inr t \<Rightarrow> t | Inl e \<Rightarrow> ''<failed to read error body: '' @ e @ ''>'')"

text \<open>The part of \<open>complete\<close>, \<open>stream\<close> and \<open>embed\<close> before the response is decoded.\<close>

definition check_reply :: "provider_id \<Rightarrow> string http_reply \<Rightarrow> provider_error + (string + string)" where
  "check_reply p reply =
     (case reply of
        SendTimeout \<Rightarrow> Inl (wrap_transport p None)
      | SendFailed m \<Rightarrow> Inl (wrap_transport p (Some m))
      | Reply status header body \<Rightarrow>
          if is_success status then Inr body
          else Inl (status_to_error p status (error_body body) (parse_retry_after header)))"

text \<open>\<open>response.json()\<close>: \<open>decode\<close> is \<open>serde_json\<close> on the text.\<close>

definition decode_body ::
  "provider_id \<Rightarrow> (string \<Rightarrow> string + 'r) \<Rightarrow> string + string \<Rightarrow> provider_error + 'r" where
  "decode_body p decode body =
     (case body of
        Inl e \<Rightarrow> Inl (Decode p e)
      | Inr t \<Rightarrow> (case decode t of Inl e \<Rightarrow> Inl (Decode p e) | Inr r \<Rightarrow> Inr r))"

definition request_reply ::
  "provider_id \<Rightarrow> (string \<Rightarrow> string + 'r) \<Rightarrow> string http_reply \<Rightarrow> provider_error + 'r" where
  "request_reply p decode reply =
     (case check_reply p reply of Inl e \<Rightarrow> Inl e | Inr body \<Rightarrow> decode_body p decode body)"

section \<open>What the errors say\<close>

fun http_error_text :: "provider_error \<Rightarrow> string" where
  "http_error_text (BadRequest _ m) = m"
| "http_error_text (ProviderFailure _ _ m) = m"
| "http_error_text _ = []"

lemma boundary_below_le: "boundary_below s n \<le> n"
  by (induction n) auto

lemma boundary_below_char: "boundary_below s n = 0 \<or> \<not> is_continuation (s ! boundary_below s n)"
  by (induction n) auto

definition cut_at_char :: "nat \<Rightarrow> string \<Rightarrow> string \<Rightarrow> bool" where
  "cut_at_char k s t \<longleftrightarrow> k \<le> 512 \<and> t = take k s @ ''...'' \<and> (k = 0 \<or> \<not> is_continuation (s ! k))"

lemma truncate_body_cases:
  "truncate_body s = s \<and> length s \<le> 512 \<or> (\<exists>k. cut_at_char k s (truncate_body s))"
  using boundary_below_le [of s 512] boundary_below_char [of s 512]
  by (auto simp: truncate_body_def cut_at_char_def simp del: boundary_below.simps)

lemma length_truncate_body: "length (truncate_body s) \<le> 515"
  using truncate_body_cases [of s] by (auto simp: cut_at_char_def)

text \<open>Errors of failed requests. Every response whose status is not a success is an error, whatever
  its body; it is retryable exactly for 429 and the 5xx statuses, carries the server's delay only for
  429 with a numeric header, and its message never exceeds 515 bytes.\<close>

theorem failed_status_error:
  assumes "\<not> is_success status"
  shows "\<exists>e. request_reply p decode (Reply status header body) = Inl e \<and>
    (is_retryable e \<longleftrightarrow> status = 429 \<or> 500 \<le> status \<and> status \<le> 599) \<and>
    (\<forall>d. e = RateLimited p (Some d) \<longrightarrow>
      (\<exists>n. parse_retry_after header = Some n \<and> d = from_secs (unat n))) \<and>
    length (http_error_text e) \<le> 515"
  using assms
  by (auto simp: request_reply_def check_reply_def status_to_error_def length_truncate_body)

theorem failed_status_error_witness:
  "request_reply ''p'' Inr (Reply 429 (Some ''+30'') (Inr ''slow down'')) =
     Inl (RateLimited ''p'' (Some (from_secs 30))) \<and>
   is_retryable (RateLimited ''p'' (Some (from_secs 30)))"
proof -
  have s: "\<not> is_success 429" by code_simp
  have "parse_retry_after (Some ''+30'') = Some 30" by code_simp
  moreover have "status_to_error ''p'' 429 ''slow down'' (Some 30) =
      RateLimited ''p'' (Some (from_secs 30))" by (simp add: status_to_error_def)
  ultimately have r: "request_reply ''p'' Inr (Reply 429 (Some ''+30'') (Inr ''slow down'')) =
      Inl (RateLimited ''p'' (Some (from_secs 30)))"
    using s by (simp only: request_reply_def check_reply_def http_reply.case error_body_def
        sum.case if_False)
  show ?thesis using failed_status_error [OF s, of "''p''" Inr "Some ''+30''" "Inr ''slow down''"]
    unfolding r by (metis sum.sel(1) is_retryable.simps(1))
qed

end
