(* ===== verification/Anthropic_Adapter.thy ===== *)
theory Anthropic_Adapter
  imports Sse_Stream Provider_Http Stream_Accumulator
begin

text \<open>
  The Anthropic adapter (\<open>behest-adapter-anthropic/src\<close>): the wire types of \<open>types.rs\<close>, the
  conversions of \<open>convert.rs\<close> and the streaming of \<open>chat.rs\<close>. Parameters: \<open>show_json\<close> is
  \<open>Value::to_string\<close>, \<open>parse\<close> is \<open>serde_json::from_str\<close> on a JSON value, and \<open>decode\<close>
  \<open>serde_json::from_str\<close> on the wire type, whose text is not modelled.
\<close>

section \<open>Wire types\<close>

record an_cache_control =
  acc_kind :: string
  acc_ttl :: "string option"

definition an_cache_control_new :: "string option \<Rightarrow> an_cache_control" where
  "an_cache_control_new ttl = \<lparr>acc_kind = ''ephemeral'', acc_ttl = ttl\<rparr>"

datatype an_system_block = AnSystemText string "an_cache_control option"

record an_image_source =
  ais_source_type :: string
  ais_url :: string
  ais_media_type :: "string option"

datatype an_tool_result_content = AnResultText string | AnResultImage an_image_source

datatype an_content_block =
    AnText string "an_cache_control option"
  | AnImage an_image_source
  | AnToolUse string string json
  | AnToolResult string "an_tool_result_content list" "an_cache_control option"

record an_message =
  am_role :: string
  am_content :: "an_content_block list"

record an_tool_def =
  atd_name :: string
  atd_description :: string
  atd_input_schema :: json
  atd_cache_control :: "an_cache_control option"

record an_request =
  ar_model :: string
  ar_max_tokens :: u32
  ar_system :: "an_system_block list option"
  ar_messages :: "an_message list"
  ar_tools :: "an_tool_def list"
  ar_tool_choice :: "json option"
  ar_temperature :: "u32 option"
  ar_top_p :: "u32 option"
  ar_stop_sequences :: "string list"
  ar_stream :: bool

record an_usage =
  au_input_tokens :: u64
  au_output_tokens :: u64
  au_cache_creation :: "u64 option"
  au_cache_read :: "u64 option"

record an_response =
  arp_id :: string
  arp_model :: string
  arp_content :: "an_content_block list"
  arp_stop_reason :: "string option"
  arp_usage :: "an_usage option"

datatype an_delta = AnTextDelta string | AnInputJsonDelta string | AnOtherDelta

datatype an_stream_event =
    AnMessageStart string
  | AnBlockStart nat an_content_block
  | AnBlockDelta nat an_delta
  | AnBlockStop nat
  | AnMessageDelta "string option" "an_usage option"
  | AnMessageStop
  | AnOther

section \<open>Requests\<close>

definition convert_cache_control :: "cache_control \<Rightarrow> an_cache_control" where
  "convert_cache_control c = an_cache_control_new (Some (ttl_wire c))"

definition last_marker :: "content_part list \<Rightarrow> an_cache_control option" where
  "last_marker parts =
     (case List.map_filter part_cache_control (rev parts) of
        [] \<Rightarrow> None
      | c # _ \<Rightarrow> Some (convert_cache_control c))"

fun part_as_text :: "content_part \<Rightarrow> string option" where
  "part_as_text (Text t _) = Some t"
| "part_as_text _ = None"

fun system_block :: "message \<Rightarrow> an_system_block option" where
  "system_block (System content) =
     (let t = str_join [newline, newline] (List.map_filter part_as_text content)
      in if t = [] then None else Some (AnSystemText t (last_marker content)))"
| "system_block _ = None"

definition extract_system_blocks :: "message list \<Rightarrow> an_system_block list option" where
  "extract_system_blocks ms =
     (let blocks = List.map_filter system_block ms in if blocks = [] then None else Some blocks)"

definition url_source :: "string \<Rightarrow> string option \<Rightarrow> an_image_source" where
  "url_source u m = \<lparr>ais_source_type = ''url'', ais_url = u, ais_media_type = m\<rparr>"

fun convert_user_part :: "(json \<Rightarrow> string) \<Rightarrow> content_part \<Rightarrow> an_content_block" where
  "convert_user_part show_json (Text t _) = AnText t None"
| "convert_user_part show_json (Json v _) = AnText (show_json v) None"
| "convert_user_part show_json (ImageUrl u m _) = AnImage (url_source u m)"

fun convert_result_part :: "(json \<Rightarrow> string) \<Rightarrow> content_part \<Rightarrow> an_tool_result_content" where
  "convert_result_part show_json (Text t _) = AnResultText t"
| "convert_result_part show_json (Json v _) = AnResultText (show_json v)"
| "convert_result_part show_json (ImageUrl u m _) = AnResultImage (url_source u m)"

fun convert_assistant_part :: "(json \<Rightarrow> string) \<Rightarrow> content_part \<Rightarrow> an_content_block" where
  "convert_assistant_part show_json (Text t _) = AnText t None"
| "convert_assistant_part show_json (Json v _) = AnText (show_json v) None"
| "convert_assistant_part show_json (ImageUrl _ _ _) = AnText ''[image]'' None"

definition tool_use_block :: "tool_call \<Rightarrow> an_content_block" where
  "tool_use_block c = AnToolUse (tc_id c) (tc_name c) (tc_arguments c)"

text \<open>The system branch is unreachable: system messages are filtered out before.\<close>

fun convert_single_message :: "(json \<Rightarrow> string) \<Rightarrow> message \<Rightarrow> an_message option" where
  "convert_single_message show_json (User content) =
     Some \<lparr>am_role = ''user'', am_content = map (convert_user_part show_json) content\<rparr>"
| "convert_single_message show_json (Assistant content calls) =
     Some \<lparr>am_role = ''assistant'',
       am_content = map (convert_assistant_part show_json) content @ map tool_use_block calls\<rparr>"
| "convert_single_message show_json (Tool i n content) =
     Some \<lparr>am_role = ''user'',
       am_content = [AnToolResult i (map (convert_result_part show_json) content) (last_marker content)]\<rparr>"
| "convert_single_message show_json (System _) = None"

fun is_system_message :: "message \<Rightarrow> bool" where
  "is_system_message (System _) = True"
| "is_system_message _ = False"

definition convert_messages :: "(json \<Rightarrow> string) \<Rightarrow> message list \<Rightarrow> an_message list" where
  "convert_messages show_json ms =
     map (the \<circ> convert_single_message show_json) (filter (\<lambda>m. \<not> is_system_message m) ms)"

definition an_convert_tool_spec :: "tool_spec \<Rightarrow> an_tool_def" where
  "an_convert_tool_spec t =
     \<lparr>atd_name = ts_name t, atd_description = ts_description t,
      atd_input_schema = ts_parameters_schema t,
      atd_cache_control = map_option convert_cache_control (ts_cache_control t)\<rparr>"

definition an_convert_tool_choice :: "tool_choice \<Rightarrow> bool \<Rightarrow> json option" where
  "an_convert_tool_choice choice has_tools =
     (if \<not> has_tools then None
      else case choice of
        ChoiceAuto \<Rightarrow> Some (JObject [(''type'', JString ''auto'')])
      | ChoiceNone \<Rightarrow> None
      | ChoiceRequired \<Rightarrow> Some (JObject [(''type'', JString ''any'')])
      | ChoiceTool n \<Rightarrow> Some (JObject [(''type'', JString ''tool''), (''name'', JString n)]))"

definition to_anthropic_request :: "(json \<Rightarrow> string) \<Rightarrow> chat_request \<Rightarrow> bool \<Rightarrow> an_request" where
  "to_anthropic_request show_json r stream =
     \<lparr>ar_model = cr_model r,
      ar_max_tokens = (case cr_max_output_tokens r of Some n \<Rightarrow> n | None \<Rightarrow> 4096),
      ar_system = extract_system_blocks (cr_messages r),
      ar_messages = convert_messages show_json (cr_messages r),
      ar_tools = map an_convert_tool_spec (cr_tools r),
      ar_tool_choice = an_convert_tool_choice (cr_tool_choice r) (cr_tools r \<noteq> []),
      ar_temperature = cr_temperature r, ar_top_p = cr_top_p r,
      ar_stop_sequences = cr_stop r, ar_stream = stream\<rparr>"

section \<open>Responses\<close>

fun split_block ::
  "content_part list \<times> tool_call list \<Rightarrow> an_content_block \<Rightarrow> content_part list \<times> tool_call list" where
  "split_block (parts, calls) (AnText t _) = (parts @ [part_text t], calls)"
| "split_block (parts, calls) (AnToolUse i n input) = (parts, calls @ [tool_call_new i n input])"
| "split_block acc _ = acc"

definition parse_content_blocks :: "an_content_block list \<Rightarrow> content_part list \<times> tool_call list" where
  "parse_content_blocks blocks = foldl split_block ([], []) blocks"

definition convert_stop_reason :: "string option \<Rightarrow> finish_reason" where
  "convert_stop_reason reason =
     (case reason of
        None \<Rightarrow> UnknownReason ''null''
      | Some s \<Rightarrow>
          if s = ''end_turn'' \<or> s = ''stop_sequence'' then Stop
          else if s = ''tool_use'' then ToolCallsReason
          else if s = ''max_tokens'' then LengthReason
          else UnknownReason s)"

definition an_convert_usage :: "an_usage \<Rightarrow> token_usage" where
  "an_convert_usage u =
     with_cache_stats (usage_new (au_input_tokens u) (au_output_tokens u))
       (au_cache_creation u) (au_cache_read u) None"

definition from_anthropic_response :: "provider_id \<Rightarrow> an_response \<Rightarrow> chat_response" where
  "from_anthropic_response p r =
     (case parse_content_blocks (arp_content r) of
        (content, calls) \<Rightarrow>
          \<lparr>resp_provider = p, resp_model = arp_model r, resp_message = Assistant content calls,
           resp_finish = convert_stop_reason (arp_stop_reason r),
           resp_usage = map_option an_convert_usage (arp_usage r), resp_raw = None\<rparr>)"

definition anthropic_capabilities :: provider_capabilities where
  "anthropic_capabilities =
     caps_empty\<lparr>pc_chat := True, pc_chat_stream := True, pc_tool_calling := True,
       pc_parallel_tool_calls := False, pc_vision := True, pc_prompt_caching := True,
       pc_max_cache_breakpoints := Some 4, pc_cache_ttl_options := [FiveMinutes, OneHour]\<rparr>"

text \<open>\<open>complete\<close>: the request that is sent, and what is made of the reply.\<close>

definition anthropic_complete ::
  "(json \<Rightarrow> string) \<Rightarrow> (string \<Rightarrow> string + an_response) \<Rightarrow> http_config \<Rightarrow> chat_request \<Rightarrow>
    string http_reply \<Rightarrow> an_request http_request \<times> (provider_error + chat_response)" where
  "anthropic_complete show_json decode c r reply =
     (anthropic_http_request c (to_anthropic_request show_json r False),
      map_sum id (from_anthropic_response (hc_id c)) (request_reply (hc_id c) decode reply))"

section \<open>Streaming\<close>

record an_tool_state =
  ats_id :: string
  ats_name :: string
  ats_arguments :: string

record an_stream_state =
  ass_provider :: provider_id
  ass_model :: "string option"
  ass_tool_calls :: "an_tool_state list"

definition stream_state_new :: "provider_id \<Rightarrow> an_stream_state" where
  "stream_state_new p = \<lparr>ass_provider = p, ass_model = None, ass_tool_calls = []\<rparr>"

type_synonym stream_item = "provider_error + chat_stream_event"

fun handle_block_start ::
  "an_stream_state \<Rightarrow> nat \<Rightarrow> an_content_block \<Rightarrow> stream_item option \<times> an_stream_state" where
  "handle_block_start st _ (AnToolUse i n _) =
     (Some (Inr (StreamToolStarted i n)),
      st\<lparr>ass_tool_calls := ass_tool_calls st @ [\<lparr>ats_id = i, ats_name = n, ats_arguments = []\<rparr>]\<rparr>)"
| "handle_block_start st _ _ = (None, st)"

definition get_at :: "'a list \<Rightarrow> nat \<Rightarrow> 'a option" where
  "get_at xs i = (if i < length xs then Some (xs ! i) else None)"

fun handle_block_delta ::
  "an_stream_state \<Rightarrow> nat \<Rightarrow> an_delta \<Rightarrow> stream_item option \<times> an_stream_state" where
  "handle_block_delta st index (AnTextDelta t) =
     ((if t = [] then None else Some (Inr (StreamText t))), st)"
| "handle_block_delta st index (AnInputJsonDelta piece) =
     (case get_at (ass_tool_calls st) index of
        Some tc \<Rightarrow>
          (Some (Inr (StreamToolArguments (ats_id tc) piece)),
           st\<lparr>ass_tool_calls :=
             (ass_tool_calls st)[index := tc\<lparr>ats_arguments := ats_arguments tc @ piece\<rparr>]\<rparr>)
      | None \<Rightarrow> (Some (Inr (StreamToolArguments (''call_'' @ show_nat index) piece)), st))"
| "handle_block_delta st index AnOtherDelta = (None, st)"

definition handle_block_stop ::
  "json_parser \<Rightarrow> an_stream_state \<Rightarrow> nat \<Rightarrow> stream_item option \<times> an_stream_state" where
  "handle_block_stop parse st index =
     (map_option (\<lambda>tc. Inr (StreamToolCompleted
        (tool_call_new (ats_id tc) (ats_name tc)
          (case parse (ats_arguments tc) of Some v \<Rightarrow> v | None \<Rightarrow> JNull))))
        (get_at (ass_tool_calls st) index), st)"

fun handle_event ::
  "json_parser \<Rightarrow> an_stream_state \<Rightarrow> an_stream_event \<Rightarrow> stream_item option \<times> an_stream_state" where
  "handle_event parse st (AnMessageStart m) = (None, st\<lparr>ass_model := Some m\<rparr>)"
| "handle_event parse st (AnBlockStart i b) = handle_block_start st i b"
| "handle_event parse st (AnBlockDelta i d) = handle_block_delta st i d"
| "handle_event parse st (AnBlockStop i) = handle_block_stop parse st i"
| "handle_event parse st (AnMessageDelta reason usage) =
     (Some (Inr (StreamFinished (convert_stop_reason reason)
        (map_option (\<lambda>u. usage_new (au_input_tokens u) (au_output_tokens u)) usage))), st)"
| "handle_event parse st AnMessageStop = (None, st)"
| "handle_event parse st AnOther = (None, st)"

type_synonym event_decoder = "string \<Rightarrow> string + an_stream_event"

definition map_anthropic_event ::
  "json_parser \<Rightarrow> event_decoder \<Rightarrow> an_stream_state \<Rightarrow> provider_error + sse_event \<Rightarrow>
    stream_item option \<times> an_stream_state" where
  "map_anthropic_event parse decode st event =
     (case event of
        Inl e \<Rightarrow> (Some (Inl e), st)
      | Inr sse \<Rightarrow>
          (case decode (sse_data sse) of
             Inl m \<Rightarrow> (Some (Inl (Decode (ass_provider st) m)), st)
           | Inr ev \<Rightarrow> handle_event parse st ev))"

text \<open>\<open>filter_map\<close> over the events, with the state behind its mutex.\<close>

fun filter_map_state :: "('s \<Rightarrow> 'x \<Rightarrow> 'y option \<times> 's) \<Rightarrow> 's \<Rightarrow> 'x list \<Rightarrow> 'y list" where
  "filter_map_state f st [] = []"
| "filter_map_state f st (x # xs) =
     (case f st x of
        (None, st') \<Rightarrow> filter_map_state f st' xs
      | (Some y, st') \<Rightarrow> y # filter_map_state f st' xs)"

definition anthropic_stream ::
  "(json \<Rightarrow> string) \<Rightarrow> json_parser \<Rightarrow> event_decoder \<Rightarrow> http_config \<Rightarrow> chat_request \<Rightarrow>
    string http_reply \<Rightarrow> chunk list \<Rightarrow>
    an_request http_request \<times> (provider_error + stream_item list)" where
  "anthropic_stream show_json parse decode c r reply chunks =
     (anthropic_http_request c (to_anthropic_request show_json r True),
      case check_reply (hc_id c) reply of
        Inl e \<Rightarrow> Inl e
      | Inr _ \<Rightarrow> Inr (Inr (StreamStarted (hc_id c) (cr_model r)) #
          filter_map_state (map_anthropic_event parse decode) (stream_state_new (hc_id c))
            (sse_run (hc_id c) [] chunks)))"

section \<open>Requests and responses agree\<close>

lemma set_mark_cases:
  "mark_last c = [] \<and> c = [] \<or>
   (\<exists>xs p. c = xs @ [p] \<and> mark_last c = xs @ [set_cache_control p cache_ephemeral])"
  by (cases c rule: rev_cases) (auto simp: mark_last_def)

lemma convert_marked_part:
  "convert_user_part show_json (set_cache_control p k) = convert_user_part show_json p"
  "convert_assistant_part show_json (set_cache_control p k) = convert_assistant_part show_json p"
  by (cases p; simp)+

lemma convert_mark_last:
  "map (convert_user_part show_json) (mark_last c) = map (convert_user_part show_json) c"
  "map (convert_assistant_part show_json) (mark_last c) = map (convert_assistant_part show_json) c"
  using set_mark_cases [of c] by (auto simp: convert_marked_part)

lemma convert_marked_message:
  assumes "case m of User _ \<Rightarrow> True | Assistant _ _ \<Rightarrow> True | _ \<Rightarrow> False"
  shows "convert_single_message show_json (mark_cache_breakpoint m) = convert_single_message show_json m \<and>
    system_block (mark_cache_breakpoint m) = system_block m \<and>
    is_system_message (mark_cache_breakpoint m) = is_system_message m"
  using assms by (cases m) (auto simp: convert_mark_last)

text \<open>A cache breakpoint on a user or assistant message never reaches Anthropic: the request that is
  sent is the same with and without it, wherever the message stands. Only the markers of system
  messages, tool results and tool specifications are sent.\<close>

theorem conversation_breakpoints_dropped:
  assumes "case m of User _ \<Rightarrow> True | Assistant _ _ \<Rightarrow> True | _ \<Rightarrow> False"
  shows "to_anthropic_request show_json
      (r\<lparr>cr_messages := pre @ mark_cache_breakpoint m # post\<rparr>) stream =
    to_anthropic_request show_json (r\<lparr>cr_messages := pre @ m # post\<rparr>) stream"
  using convert_marked_message [OF assms, of show_json]
  by (simp add: to_anthropic_request_def extract_system_blocks_def convert_messages_def
      List.map_filter_def)

theorem conversation_breakpoints_dropped_witness:
  "mark_cache_breakpoint (user_text ''hi'') \<noteq> user_text ''hi'' \<and>
   to_anthropic_request (\<lambda>_. []) ((chat_request_new ''m'')\<lparr>cr_messages :=
      [system_text ''s''] @ mark_cache_breakpoint (user_text ''hi'') # []\<rparr>) True =
   to_anthropic_request (\<lambda>_. []) ((chat_request_new ''m'')\<lparr>cr_messages :=
      [system_text ''s''] @ user_text ''hi'' # []\<rparr>) True"
proof
  show "mark_cache_breakpoint (user_text ''hi'') \<noteq> user_text ''hi''"
    by (simp add: user_text_def part_text_def mark_last_def)
  show "to_anthropic_request (\<lambda>_. []) ((chat_request_new ''m'')\<lparr>cr_messages :=
      [system_text ''s''] @ mark_cache_breakpoint (user_text ''hi'') # []\<rparr>) True =
   to_anthropic_request (\<lambda>_. []) ((chat_request_new ''m'')\<lparr>cr_messages :=
      [system_text ''s''] @ user_text ''hi'' # []\<rparr>) True"
    by (rule conversation_breakpoints_dropped) (simp add: user_text_def)
qed

text \<open>The other markers are sent: that of the last marked part of a system message or tool result.\<close>

lemma system_breakpoint_sent:
  "t \<noteq> [] \<Longrightarrow> system_block (mark_cache_breakpoint (system_text t)) =
     Some (AnSystemText t (Some (convert_cache_control cache_ephemeral)))"
  by (simp add: system_text_def part_text_def mark_last_def last_marker_def List.map_filter_def)

lemma result_breakpoint_sent:
  "convert_single_message show_json (mark_cache_breakpoint (tool_text i n t)) =
     Some \<lparr>am_role = ''user'',
       am_content = [AnToolResult i [AnResultText t] (Some (convert_cache_control cache_ephemeral))]\<rparr>"
  by (simp add: tool_text_def part_text_def mark_last_def last_marker_def List.map_filter_def)

lemma split_texts:
  "foldl split_block (ps, cs) (map (\<lambda>t. AnText t None) ts) = (ps @ map part_text ts, cs)"
  by (induction ts arbitrary: ps) auto

lemma split_tools:
  "foldl split_block (ps, cs) (map tool_use_block calls) = (ps, cs @ calls)"
  by (induction calls arbitrary: cs) (auto simp: tool_use_block_def tool_call_new_def)

text \<open>An assistant message of texts and tool calls survives the wire: the blocks it is sent as are
  read back as the same texts and the same calls, ids, names and arguments included.\<close>

theorem assistant_message_roundtrip:
  "map_option (parse_content_blocks \<circ> am_content)
     (convert_single_message show_json (Assistant (map part_text ts) calls)) =
   Some (map part_text ts, calls)"
proof -
  have "map (convert_assistant_part show_json) (map part_text ts) = map (\<lambda>t. AnText t None) ts"
    by (simp add: part_text_def)
  then show ?thesis
    by (simp del: map_map add: parse_content_blocks_def split_texts split_tools)
qed

text \<open>The usage that a stream reports leaves out what the complete response says of the cache.\<close>

lemma streamed_usage_without_cache:
  "handle_event parse st (AnMessageDelta reason (Some u)) =
     (Some (Inr (StreamFinished (convert_stop_reason reason)
        (Some (with_cache_stats (an_convert_usage u) None None None)))), st)"
  by (simp add: an_convert_usage_def with_cache_stats_def usage_new_def)

section \<open>Streamed messages\<close>

text \<open>The events of a message as the API sends them: each content block starts, grows and stops under
  its index among the blocks.\<close>

type_synonym streamed_tool = "string \<times> string \<times> string list"

definition text_block_events :: "nat \<Rightarrow> string list \<Rightarrow> an_stream_event list" where
  "text_block_events i ds =
     AnBlockStart i (AnText [] None) # map (AnBlockDelta i \<circ> AnTextDelta) ds @ [AnBlockStop i]"

fun tool_block_events :: "nat \<Rightarrow> streamed_tool \<Rightarrow> an_stream_event list" where
  "tool_block_events i (c, n, ps) =
     AnBlockStart i (AnToolUse c n (JObject [])) #
     map (AnBlockDelta i \<circ> AnInputJsonDelta) ps @ [AnBlockStop i]"

fun tool_events_from :: "nat \<Rightarrow> streamed_tool list \<Rightarrow> an_stream_event list" where
  "tool_events_from i [] = []"
| "tool_events_from i (t # ts) = tool_block_events i t @ tool_events_from (Suc i) ts"

fun text_events_from :: "nat \<Rightarrow> string list list \<Rightarrow> an_stream_event list" where
  "text_events_from i [] = []"
| "text_events_from i (t # ts) = text_block_events i t @ text_events_from (Suc i) ts"

definition message_events :: "string list list \<Rightarrow> streamed_tool list \<Rightarrow> an_stream_event list" where
  "message_events texts tools =
     text_events_from 0 texts @ tool_events_from (length texts) tools"

definition run_state :: "('s \<Rightarrow> 'x \<Rightarrow> 'y option \<times> 's) \<Rightarrow> 's \<Rightarrow> 'x list \<Rightarrow> 's" where
  "run_state f st xs = foldl (\<lambda>s x. snd (f s x)) st xs"

lemma filter_map_append:
  "filter_map_state f st (xs @ ys) = filter_map_state f st xs @ filter_map_state f (run_state f st xs) ys"
  by (induction xs arbitrary: st) (auto simp: run_state_def split: prod.splits option.splits)

lemma run_state_append: "run_state f st (xs @ ys) = run_state f (run_state f st xs) ys"
  by (simp add: run_state_def)

definition streamed_texts :: "string list list \<Rightarrow> stream_item list" where
  "streamed_texts texts = map (Inr \<circ> StreamText) (filter (\<lambda>d. d \<noteq> []) (concat texts))"

lemma text_deltas_streamed:
  "filter_map_state (handle_event parse) st (map (AnBlockDelta i \<circ> AnTextDelta) ds) =
     map (Inr \<circ> StreamText) (filter (\<lambda>d. d \<noteq> []) ds) \<and>
   run_state (handle_event parse) st (map (AnBlockDelta i \<circ> AnTextDelta) ds) = st"
  by (induction ds) (auto simp: run_state_def)

lemma text_blocks_streamed:
  assumes "ass_tool_calls st = []"
  shows "filter_map_state (handle_event parse) st (text_events_from i texts) = streamed_texts texts \<and>
    run_state (handle_event parse) st (text_events_from i texts) = st"
proof (induction texts arbitrary: i)
  case (Cons t texts)
  then show ?case using assms text_deltas_streamed [of parse st i t]
    by (auto simp: text_block_events_def filter_map_append run_state_append streamed_texts_def
        run_state_def handle_block_stop_def get_at_def)
qed (simp add: streamed_texts_def run_state_def)

text \<open>A tool block is streamed in full when its index is its place among the tool calls, and without
  its arguments when it is not.\<close>

definition tool_items :: "json_parser \<Rightarrow> nat \<Rightarrow> bool \<Rightarrow> streamed_tool \<Rightarrow> chat_stream_event list" where
  "tool_items parse i exact t =
     (case t of (c, n, ps) \<Rightarrow>
        StreamToolStarted c n #
        map (StreamToolArguments (if exact then c else ''call_'' @ show_nat i)) ps @
        (if exact then [StreamToolCompleted (tool_call_new c n
           (case parse (concat ps) of Some v \<Rightarrow> v | None \<Rightarrow> JNull))] else []))"

fun tools_items :: "json_parser \<Rightarrow> nat \<Rightarrow> bool \<Rightarrow> streamed_tool list \<Rightarrow> chat_stream_event list" where
  "tools_items parse i exact [] = []"
| "tools_items parse i exact (t # ts) =
     tool_items parse i exact t @ tools_items parse (Suc i) exact ts"

lemma argument_pieces_streamed:
  assumes "ass_tool_calls st = tcs @ [tc]"
  shows "filter_map_state (handle_event parse) st
      (map (AnBlockDelta (length tcs) \<circ> AnInputJsonDelta) ps) =
      map (Inr \<circ> StreamToolArguments (ats_id tc)) ps \<and>
    run_state (handle_event parse) st (map (AnBlockDelta (length tcs) \<circ> AnInputJsonDelta) ps) =
      st\<lparr>ass_tool_calls := tcs @ [tc\<lparr>ats_arguments := ats_arguments tc @ concat ps\<rparr>]\<rparr>"
  using assms
proof (induction ps arbitrary: st tc)
  case (Cons p ps)
  let ?tc = "tc\<lparr>ats_arguments := ats_arguments tc @ p\<rparr>"
  let ?st = "st\<lparr>ass_tool_calls := tcs @ [?tc]\<rparr>"
  show ?case using Cons.IH [of ?st ?tc] Cons.prems
    by (simp add: get_at_def run_state_def comp_def)
qed (simp add: run_state_def)

lemma argument_pieces_astray:
  assumes "length (ass_tool_calls st) \<le> i"
  shows "filter_map_state (handle_event parse) st (map (AnBlockDelta i \<circ> AnInputJsonDelta) ps) =
      map (Inr \<circ> StreamToolArguments (''call_'' @ show_nat i)) ps \<and>
    run_state (handle_event parse) st (map (AnBlockDelta i \<circ> AnInputJsonDelta) ps) = st"
  using assms by (induction ps) (auto simp: run_state_def get_at_def)

lemma tool_block_streamed:
  assumes "if exact then i = length (ass_tool_calls st) else length (ass_tool_calls st) < i"
  shows "filter_map_state (handle_event parse) st (tool_block_events i t) =
      map Inr (tool_items parse i exact t) \<and>
    length (ass_tool_calls (run_state (handle_event parse) st (tool_block_events i t))) =
      Suc (length (ass_tool_calls st))"
proof -
  obtain c n ps where t: "t = (c, n, ps)" by (cases t)
  let ?tc = "\<lparr>ats_id = c, ats_name = n, ats_arguments = []\<rparr>"
  let ?st = "st\<lparr>ass_tool_calls := ass_tool_calls st @ [?tc]\<rparr>"
  show ?thesis
    using assms argument_pieces_streamed [of ?st "ass_tool_calls st" ?tc parse ps]
      argument_pieces_astray [of ?st i parse ps]
    by (cases exact) (auto simp: t tool_items_def filter_map_append run_state_append
        handle_block_stop_def get_at_def run_state_def)
qed

lemma tool_blocks_streamed:
  assumes "if exact then i = length (ass_tool_calls st) else length (ass_tool_calls st) < i"
  shows "filter_map_state (handle_event parse) st (tool_events_from i tools) =
      map Inr (tools_items parse i exact tools)"
  using assms
proof (induction tools arbitrary: i st)
  case (Cons t tools)
  let ?st = "run_state (handle_event parse) st (tool_block_events i t)"
  have "if exact then Suc i = length (ass_tool_calls ?st) else length (ass_tool_calls ?st) < Suc i"
    using tool_block_streamed [OF Cons.prems] Cons.prems by (auto split: if_splits)
  with Cons.IH [of "Suc i" ?st] tool_block_streamed [OF Cons.prems] show ?case
    by (simp add: filter_map_append)
qed simp

text \<open>What a streamed Anthropic message becomes. Every text delta that is not empty is passed on in order.
  When the message opens with a tool call, each tool call is announced, gets its argument pieces under
  its own id and is completed with their parsed concatenation. With a text block before the calls the
  content-block index no longer is the position of the call: every piece is sent under an id that
  names no call, and no call is ever completed.\<close>

lemma streamed_message_exact:
  "filter_map_state (handle_event parse) (stream_state_new p) (message_events texts tools) =
     streamed_texts texts @ map Inr (tools_items parse (length texts) (texts = []) tools)"
  using text_blocks_streamed [of "stream_state_new p" parse 0 texts]
    tool_blocks_streamed [of "texts = []" "length texts" "stream_state_new p" parse tools]
  by (simp add: message_events_def filter_map_append stream_state_new_def)

section \<open>From the stream to the turn's tool calls\<close>

lemma argument_deltas_append: "argument_deltas c (xs @ ys) = argument_deltas c xs @ argument_deltas c ys"
  by (simp add: argument_deltas_def)

lemma argument_deltas_pieces:
  "argument_deltas c (map (StreamToolArguments i) ps) = (if i = c then concat ps else [])"
  by (induction ps) (auto simp: argument_deltas_def)

lemma tools_items_append:
  "tools_items parse i exact (ts @ us) =
     tools_items parse i exact ts @ tools_items parse (i + length ts) exact us"
  by (induction ts arbitrary: i) auto

definition names_no_block :: "string \<Rightarrow> bool" where
  "names_no_block c \<longleftrightarrow> \<not> is_prefix_of ''call_'' c"

lemma names_no_blockD: "names_no_block c \<Longrightarrow> c \<noteq> ''call_'' @ s"
  by (auto simp: names_no_block_def is_prefix_of_iff)

lemma other_tools_silent:
  assumes "c \<notin> fst ` set ts" and "exact \<or> names_no_block c"
  shows "argument_deltas c (tools_items parse i exact ts) = [] \<and>
    (\<forall>e\<in>set (tools_items parse i exact ts). \<not> starts c e)"
  using assms
proof (induction ts arbitrary: i)
  case (Cons t ts)
  obtain c' n ps where t: "t = (c', n, ps)" by (cases t)
  have "argument_deltas c (tool_items parse i exact t) = [] \<and>
      (\<forall>e\<in>set (tool_items parse i exact t). \<not> starts c e)"
  proof -
    have "argument_deltas c (StreamToolStarted c' n # xs) = argument_deltas c xs"
      "argument_deltas c [StreamToolCompleted call] = []" "argument_deltas c [] = []" for xs call
      by (simp_all add: argument_deltas_def)
    with Cons.prems show ?thesis
      by (auto simp: t tool_items_def argument_deltas_append argument_deltas_pieces starts_def
          dest: names_no_blockD)
  qed
  with Cons show ?case by (auto simp: argument_deltas_append)
qed (simp add: argument_deltas_def)

definition events_of :: "stream_item list \<Rightarrow> chat_stream_event list" where
  "events_of items = map projr items"

text \<open>C36: The arguments with which a streamed tool call reaches the turn. When the message opens with its
  tool calls, every one of them is accumulated with all of its argument pieces; when a text block
  comes first, every one of them is accumulated with none, whatever the model sent.\<close>

theorem streamed_arguments_accumulated:
  assumes "distinct (map fst tools)" and "(c, n, ps) \<in> set tools" and "names_no_block c"
  shows "map_of (sa_calls (accumulate_all (events_of
      (filter_map_state (handle_event parse) (stream_state_new p) (message_events texts tools))))) c =
    Some \<lparr>tca_id = c, tca_name = n, tca_arguments = (if texts = [] then concat ps else [])\<rparr>"
proof -
  obtain pre post where tools: "tools = pre @ (c, n, ps) # post" using assms(2) by (meson split_list)
  then have fresh: "c \<notin> fst ` set post" using assms(1) by auto
  let ?x = "texts = []" and ?k = "length texts"
  let ?i = "?k + length pre"
  let ?rest = "map (StreamToolArguments (if ?x then c else ''call_'' @ show_nat ?i)) ps @
      (if ?x then [StreamToolCompleted (tool_call_new c n
        (case parse (concat ps) of Some v \<Rightarrow> v | None \<Rightarrow> JNull))] else []) @
      tools_items parse (Suc ?i) ?x post"
  let ?pre = "map StreamText (filter (\<lambda>d. d \<noteq> []) (concat texts)) @ tools_items parse ?k ?x pre"
  have stream: "events_of (filter_map_state (handle_event parse) (stream_state_new p)
      (message_events texts tools)) = ?pre @ StreamToolStarted c n # ?rest"
    unfolding streamed_message_exact
    by (simp add: tools tools_items_append tool_items_def events_of_def streamed_texts_def comp_def)
  have "\<forall>e\<in>set ?rest. \<not> starts c e"
    using other_tools_silent [OF fresh, of ?x parse "Suc ?i"] assms(3) by (auto simp: starts_def)
  moreover have "argument_deltas c [StreamToolCompleted call] = []" "argument_deltas c [] = []" for call
    by (simp_all add: argument_deltas_def)
  then have "argument_deltas c ?rest = (if ?x then concat ps else [])"
    using other_tools_silent [OF fresh, of ?x parse "Suc ?i"] assms(3)
    by (auto simp: argument_deltas_append argument_deltas_pieces dest: names_no_blockD)
  moreover have "map_of (sa_calls (accumulate (accumulate_all ?pre) (StreamToolStarted c n))) c =
      Some \<lparr>tca_id = c, tca_name = n, tca_arguments = []\<rparr>"
    by (simp add: start_tool_call_def update_conv')
  ultimately show ?thesis unfolding stream accumulate_all_def
    using lookup_foldl_accumulate [of ?rest c
        "accumulate (foldl accumulate accumulator_new ?pre) (StreamToolStarted c n)"]
    by (simp add: accumulate_all_def)
qed

theorem streamed_arguments_accumulated_witness:
  "map_of (sa_calls (accumulate_all (events_of (filter_map_state (handle_event (\<lambda>_. None))
      (stream_state_new ''p'') (message_events [] [(''t1'', ''sum'', [''{'', ''}''])]))))) ''t1'' =
    Some \<lparr>tca_id = ''t1'', tca_name = ''sum'', tca_arguments = ''{}''\<rparr> \<and>
   map_of (sa_calls (accumulate_all (events_of (filter_map_state (handle_event (\<lambda>_. None))
      (stream_state_new ''p'') (message_events [[''Hi'']] [(''t1'', ''sum'', [''{'', ''}''])]))))) ''t1'' =
    Some \<lparr>tca_id = ''t1'', tca_name = ''sum'', tca_arguments = []\<rparr>"
proof -
  have t: "distinct (map fst [(''t1'', ''sum'', [''{'', ''}''])])"
    "(''t1'', ''sum'', [''{'', ''}'']) \<in> set [(''t1'', ''sum'', [''{'', ''}''])]" by simp_all
  have n: "names_no_block ''t1''" by code_simp
  show ?thesis
    using streamed_arguments_accumulated [OF t n, of "\<lambda>_. None" "''p''" "[]"]
      streamed_arguments_accumulated [OF t n, of "\<lambda>_. None" "''p''" "[[''Hi'']]"] by simp
qed

end
