(* ===== verification/OpenAI_Adapter.thy ===== *)
theory OpenAI_Adapter
  imports Sse_Stream Provider_Http Stream_Accumulator
begin

text \<open>
  The OpenAI adapter (\<open>behest-adapter-openai/src\<close>): the wire types of \<open>types.rs\<close>, the
  conversions of \<open>convert.rs\<close>, the streaming of \<open>chat.rs\<close> and the embeddings of \<open>embed.rs\<close>.
  Parameters: \<open>show_json\<close> is \<open>Value::to_string\<close>, \<open>parse\<close> is \<open>serde_json::from_str\<close> on a JSON
  value, \<open>decode\<close> is \<open>serde_json::from_str\<close> on the wire type. The hash maps of the stream state are
  association lists.
\<close>

section \<open>Wire types\<close>

record oa_function_call =
  ofc_name :: "string option"
  ofc_arguments :: "string option"

record oa_tool_call =
  otc_id :: "string option"
  otc_index :: "nat option"
  otc_kind :: "string option"
  otc_function :: oa_function_call

record oa_message =
  om_role :: string
  om_content :: "json option"
  om_tool_calls :: "oa_tool_call list option"
  om_tool_call_id :: "string option"

record oa_tool_def =
  otd_kind :: string
  otd_name :: string
  otd_description :: string
  otd_parameters :: json

record oa_request =
  or_model :: string
  or_messages :: "oa_message list"
  or_tools :: "oa_tool_def list"
  or_tool_choice :: "json option"
  or_response_format :: "json option"
  or_temperature :: "u32 option"
  or_top_p :: "u32 option"
  or_max_tokens :: "u32 option"
  or_stop :: "string list"
  or_stream :: bool

record oa_usage =
  ou_prompt_tokens :: u64
  ou_completion_tokens :: u64
  ou_total_tokens :: u64
  ou_cached_tokens :: "u64 option option"

record oa_choice =
  och_index :: u32
  och_message :: oa_message
  och_finish_reason :: "string option"

record oa_response =
  orp_id :: string
  orp_model :: string
  orp_choices :: "oa_choice list"
  orp_usage :: "oa_usage option"

record oa_delta =
  od_role :: "string option"
  od_content :: "string option"
  od_tool_calls :: "oa_tool_call list option"

record oa_stream_choice =
  osc_index :: u32
  osc_delta :: oa_delta
  osc_finish_reason :: "string option"

record oa_stream_chunk =
  osk_id :: "string option"
  osk_model :: "string option"
  osk_choices :: "oa_stream_choice list"
  osk_usage :: "oa_usage option"

section \<open>Requests\<close>

fun content_item :: "content_part \<Rightarrow> json" where
  "content_item (Text t _) = JObject [(''type'', JString ''text''), (''text'', JString t)]"
| "content_item (Json v _) = v"
| "content_item (ImageUrl u _ _) =
     JObject [(''type'', JString ''image_url''), (''image_url'', JObject [(''url'', JString u)])]"

fun serialize_content :: "content_part list \<Rightarrow> json" where
  "serialize_content [Text t _] = JString t"
| "serialize_content parts = JArray (map content_item parts)"

definition convert_tool_call :: "(json \<Rightarrow> string) \<Rightarrow> tool_call \<Rightarrow> oa_tool_call" where
  "convert_tool_call show_json c =
     \<lparr>otc_id = Some (tc_id c), otc_index = None, otc_kind = Some ''function'',
      otc_function = \<lparr>ofc_name = Some (tc_name c),
        ofc_arguments = Some (case tc_arguments c of JString s \<Rightarrow> s | v \<Rightarrow> show_json v)\<rparr>\<rparr>"

fun convert_message :: "(json \<Rightarrow> string) \<Rightarrow> message \<Rightarrow> oa_message" where
  "convert_message show_json (System content) =
     \<lparr>om_role = ''system'', om_content = Some (serialize_content content),
      om_tool_calls = None, om_tool_call_id = None\<rparr>"
| "convert_message show_json (User content) =
     \<lparr>om_role = ''user'', om_content = Some (serialize_content content),
      om_tool_calls = None, om_tool_call_id = None\<rparr>"
| "convert_message show_json (Assistant content calls) =
     \<lparr>om_role = ''assistant'', om_content = Some (serialize_content content),
      om_tool_calls = (if calls = [] then None else Some (map (convert_tool_call show_json) calls)),
      om_tool_call_id = None\<rparr>"
| "convert_message show_json (Tool i n content) =
     \<lparr>om_role = ''tool'', om_content = Some (serialize_content content),
      om_tool_calls = None, om_tool_call_id = Some i\<rparr>"

definition convert_tool_spec :: "tool_spec \<Rightarrow> oa_tool_def" where
  "convert_tool_spec t =
     \<lparr>otd_kind = ''function'', otd_name = ts_name t, otd_description = ts_description t,
      otd_parameters = ts_parameters_schema t\<rparr>"

definition convert_tool_choice :: "tool_choice \<Rightarrow> json option" where
  "convert_tool_choice choice =
     (case choice of
        ChoiceAuto \<Rightarrow> Some (JString ''auto'')
      | ChoiceNone \<Rightarrow> Some (JString ''none'')
      | ChoiceRequired \<Rightarrow> Some (JString ''required'')
      | ChoiceTool n \<Rightarrow> Some (JObject [(''type'', JString ''function''),
          (''function'', JObject [(''name'', JString n)])]))"

definition convert_response_format :: "response_format \<Rightarrow> json" where
  "convert_response_format f =
     (case f of
        FormatText \<Rightarrow> JObject [(''type'', JString ''text'')]
      | FormatJsonObject \<Rightarrow> JObject [(''type'', JString ''json_object'')]
      | FormatJsonSchema n schema strict \<Rightarrow> JObject [(''type'', JString ''json_schema''),
          (''json_schema'', JObject [(''name'', JString n), (''schema'', schema),
             (''strict'', JBool strict)])])"

definition to_openai_request :: "(json \<Rightarrow> string) \<Rightarrow> chat_request \<Rightarrow> bool \<Rightarrow> oa_request" where
  "to_openai_request show_json r stream =
     \<lparr>or_model = cr_model r, or_messages = map (convert_message show_json) (cr_messages r),
      or_tools = map convert_tool_spec (cr_tools r),
      or_tool_choice = convert_tool_choice (cr_tool_choice r),
      or_response_format = map_option convert_response_format (cr_response_format r),
      or_temperature = cr_temperature r, or_top_p = cr_top_p r,
      or_max_tokens = cr_max_output_tokens r, or_stop = cr_stop r, or_stream = stream\<rparr>"

section \<open>Responses\<close>

fun json_field :: "json \<Rightarrow> string \<Rightarrow> json option" where
  "json_field (JObject fs) k = map_of fs k"
| "json_field _ k = None"

fun json_str :: "json \<Rightarrow> string option" where
  "json_str (JString s) = Some s"
| "json_str _ = None"

definition parse_content_item :: "json \<Rightarrow> content_part option" where
  "parse_content_item item =
     Option.bind (json_field item ''type'') (\<lambda>k. Option.bind (json_str k) (\<lambda>kind.
       if kind = ''text'' then
         Option.bind (json_field item ''text'') (\<lambda>t. map_option part_text (json_str t))
       else if kind = ''image_url'' then
         Option.bind (json_field item ''image_url'') (\<lambda>o'. Option.bind (json_field o' ''url'')
           (\<lambda>u. map_option (\<lambda>s. part_image_url s None) (json_str u)))
       else Some (part_json item)))"

fun parse_content_value :: "json option \<Rightarrow> content_part list" where
  "parse_content_value None = []"
| "parse_content_value (Some (JString t)) = [part_text t]"
| "parse_content_value (Some (JArray items)) = List.map_filter parse_content_item items"
| "parse_content_value (Some other) = [part_json other]"

definition parse_or_null :: "json_parser \<Rightarrow> string \<Rightarrow> json" where
  "parse_or_null parse s = (case parse s of Some v \<Rightarrow> v | None \<Rightarrow> JNull)"

definition response_tool_call :: "json_parser \<Rightarrow> oa_tool_call \<Rightarrow> tool_call option" where
  "response_tool_call parse call =
     Option.bind (otc_id call) (\<lambda>i. Option.bind (ofc_name (otc_function call)) (\<lambda>n.
       Some (tool_call_new i n (parse_or_null parse
         (case ofc_arguments (otc_function call) of Some s \<Rightarrow> s | None \<Rightarrow> ''{}'')))))"

definition convert_response_tool_calls :: "json_parser \<Rightarrow> oa_tool_call list \<Rightarrow> tool_call list" where
  "convert_response_tool_calls parse calls = List.map_filter (response_tool_call parse) calls"

definition convert_response_message :: "json_parser \<Rightarrow> oa_message \<Rightarrow> message" where
  "convert_response_message parse m =
     Assistant (parse_content_value (om_content m))
       (case om_tool_calls m of None \<Rightarrow> [] | Some cs \<Rightarrow> convert_response_tool_calls parse cs)"

definition convert_stream_finish :: "string \<Rightarrow> finish_reason" where
  "convert_stream_finish s =
     (if s = ''stop'' then Stop else if s = ''tool_calls'' then ToolCallsReason
      else if s = ''length'' then LengthReason
      else if s = ''content_filter'' then ContentFilter else UnknownReason s)"

definition convert_finish_reason :: "string option \<Rightarrow> finish_reason" where
  "convert_finish_reason reason =
     (case reason of Some s \<Rightarrow> convert_stream_finish s | None \<Rightarrow> UnknownReason ''null'')"

definition convert_usage :: "oa_usage \<Rightarrow> token_usage" where
  "convert_usage u =
     with_cache_stats (usage_new (ou_prompt_tokens u) (ou_completion_tokens u)) None None
       (Option.bind (ou_cached_tokens u) id)"

definition from_openai_response ::
  "json_parser \<Rightarrow> provider_id \<Rightarrow> oa_response \<Rightarrow> chat_response option" where
  "from_openai_response parse p r =
     (case orp_choices r of
        [] \<Rightarrow> None
      | choice # _ \<Rightarrow> Some
          \<lparr>resp_provider = p, resp_model = orp_model r,
           resp_message = convert_response_message parse (och_message choice),
           resp_finish = convert_finish_reason (och_finish_reason choice),
           resp_usage = map_option convert_usage (orp_usage r), resp_raw = None\<rparr>)"

definition openai_capabilities :: provider_capabilities where
  "openai_capabilities =
     caps_empty\<lparr>pc_chat := True, pc_chat_stream := True, pc_tool_calling := True,
       pc_parallel_tool_calls := True, pc_json_schema_output := True, pc_vision := True,
       pc_prompt_caching := True\<rparr>"

definition openai_complete ::
  "(json \<Rightarrow> string) \<Rightarrow> json_parser \<Rightarrow> (string \<Rightarrow> string + oa_response) \<Rightarrow> http_config \<Rightarrow>
    chat_request \<Rightarrow> string http_reply \<Rightarrow>
    oa_request http_request \<times> (provider_error + chat_response)" where
  "openai_complete show_json parse decode c r reply =
     (openai_http_request c (to_openai_request show_json r False),
      case request_reply (hc_id c) decode reply of
        Inl e \<Rightarrow> Inl e
      | Inr resp \<Rightarrow>
          (case from_openai_response parse (hc_id c) resp of
             Some x \<Rightarrow> Inr x
           | None \<Rightarrow> Inl (Decode (hc_id c) ''empty choices in response'')))"

section \<open>Streaming\<close>

type_synonym stream_item = "provider_error + chat_stream_event"

record oa_stream_state =
  oss_provider :: provider_id
  oss_ids :: "(nat \<times> string) list"
  oss_names :: "(nat \<times> string) list"
  oss_args :: "(nat \<times> string) list"
  oss_started :: "nat list"

definition oa_stream_state_new :: "provider_id \<Rightarrow> oa_stream_state" where
  "oa_stream_state_new p =
     \<lparr>oss_provider = p, oss_ids = [], oss_names = [], oss_args = [], oss_started = []\<rparr>"

definition call_id_of :: "oa_stream_state \<Rightarrow> nat \<Rightarrow> string" where
  "call_id_of st i =
     (case map_of (oss_ids st) i of Some c \<Rightarrow> c | None \<Rightarrow> ''call_'' @ show_nat i)"

definition known_indices :: "oa_stream_state \<Rightarrow> nat list" where
  "known_indices st =
     remdups_adj (sort (map fst (oss_ids st) @ map fst (oss_names st) @ map fst (oss_args st)))"

definition completed_call :: "json_parser \<Rightarrow> oa_stream_state \<Rightarrow> nat \<Rightarrow> tool_call option" where
  "completed_call parse st i =
     map_option (\<lambda>n. tool_call_new (call_id_of st i) n
       (case map_of (oss_args st) i of Some raw \<Rightarrow> parse_or_null parse raw | None \<Rightarrow> JNull))
       (map_of (oss_names st) i)"

definition completed_tool_calls ::
  "json_parser \<Rightarrow> oa_stream_state \<Rightarrow> tool_call list \<times> oa_stream_state" where
  "completed_tool_calls parse st =
     (List.map_filter (completed_call parse st) (known_indices st),
      st\<lparr>oss_ids := [], oss_names := [], oss_args := [], oss_started := []\<rparr>)"

definition delta_index :: "oa_tool_call \<Rightarrow> nat" where
  "delta_index call = (case otc_index call of Some i \<Rightarrow> i | None \<Rightarrow> 0)"

definition note_identity :: "oa_stream_state \<Rightarrow> oa_tool_call \<Rightarrow> oa_stream_state" where
  "note_identity st call =
     (let i = delta_index call in
      st\<lparr>oss_ids := (case otc_id call of Some c \<Rightarrow> AList.update i c (oss_ids st) | None \<Rightarrow> oss_ids st),
         oss_names := (case ofc_name (otc_function call) of
           Some n \<Rightarrow> AList.update i n (oss_names st) | None \<Rightarrow> oss_names st)\<rparr>)"

definition announce_call ::
  "oa_stream_state \<Rightarrow> nat \<Rightarrow> chat_stream_event list \<times> oa_stream_state" where
  "announce_call st i =
     (case (map_of (oss_ids st) i, map_of (oss_names st) i) of
        (Some c, Some n) \<Rightarrow>
          if c \<noteq> [] \<and> n \<noteq> [] \<and> i \<notin> set (oss_started st)
          then ([StreamToolStarted c n], st\<lparr>oss_started := i # oss_started st\<rparr>) else ([], st)
      | _ \<Rightarrow> ([], st))"

definition note_arguments ::
  "oa_stream_state \<Rightarrow> oa_tool_call \<Rightarrow> chat_stream_event list \<times> oa_stream_state" where
  "note_arguments st call =
     (let i = delta_index call in
      case ofc_arguments (otc_function call) of
        None \<Rightarrow> ([], st)
      | Some piece \<Rightarrow>
          ([StreamToolArguments (call_id_of st i) piece],
           st\<lparr>oss_args := AList.update i
             ((case map_of (oss_args st) i of Some raw \<Rightarrow> raw | None \<Rightarrow> []) @ piece) (oss_args st)\<rparr>))"

definition tool_call_delta ::
  "oa_stream_state \<Rightarrow> oa_tool_call \<Rightarrow> chat_stream_event list \<times> oa_stream_state" where
  "tool_call_delta st call =
     (case announce_call (note_identity st call) (delta_index call) of
        (evs, st') \<Rightarrow> (case note_arguments st' call of (evs', st'') \<Rightarrow> (evs @ evs', st'')))"

fun convert_tool_call_deltas ::
  "oa_stream_state \<Rightarrow> oa_tool_call list \<Rightarrow> chat_stream_event list \<times> oa_stream_state" where
  "convert_tool_call_deltas st [] = ([], st)"
| "convert_tool_call_deltas st (c # cs) =
     (case tool_call_delta st c of
        (evs, st') \<Rightarrow>
          (case convert_tool_call_deltas st' cs of (evs', st'') \<Rightarrow> (evs @ evs', st'')))"

definition finish_events ::
  "json_parser \<Rightarrow> oa_stream_state \<Rightarrow> string \<Rightarrow> oa_usage option \<Rightarrow>
    chat_stream_event list \<times> oa_stream_state" where
  "finish_events parse st reason usage =
     (let fr = convert_stream_finish reason;
          (calls, st') = (if fr = ToolCallsReason then completed_tool_calls parse st else ([], st))
      in (map StreamToolCompleted calls @
            [StreamFinished fr
              (map_option (\<lambda>u. usage_new (ou_prompt_tokens u) (ou_completion_tokens u)) usage)], st'))"

definition parse_chunk_event ::
  "json_parser \<Rightarrow> (string \<Rightarrow> string + oa_stream_chunk) \<Rightarrow> oa_stream_state \<Rightarrow> string \<Rightarrow>
    stream_item list \<times> oa_stream_state" where
  "parse_chunk_event parse decode st data =
     (case decode data of
        Inl m \<Rightarrow> ([Inl (Decode (oss_provider st) m)], st)
      | Inr chunk \<Rightarrow>
          (case osk_choices chunk of
             [] \<Rightarrow> ([], st)
           | choice # _ \<Rightarrow>
               (case osc_finish_reason choice of
                  Some reason \<Rightarrow>
                    (case finish_events parse st reason (osk_usage chunk) of
                       (evs, st') \<Rightarrow> (map Inr evs, st'))
                | None \<Rightarrow>
                    (let texts = (case od_content (osc_delta choice) of
                           Some t \<Rightarrow> if t = [] then [] else [StreamText t] | None \<Rightarrow> []) in
                     case od_tool_calls (osc_delta choice) of
                       None \<Rightarrow> (map Inr texts, st)
                     | Some calls \<Rightarrow>
                         (case convert_tool_call_deltas st calls of
                            (evs, st') \<Rightarrow> (map Inr (texts @ evs), st'))))))"

definition map_sse_event ::
  "json_parser \<Rightarrow> (string \<Rightarrow> string + oa_stream_chunk) \<Rightarrow> oa_stream_state \<Rightarrow>
    provider_error + sse_event \<Rightarrow> stream_item list \<times> oa_stream_state" where
  "map_sse_event parse decode st event =
     (case event of
        Inl e \<Rightarrow> ([Inl e], st)
      | Inr sse \<Rightarrow> if is_openai_done sse then ([], st) else parse_chunk_event parse decode st (sse_data sse))"

text \<open>\<open>then\<close> followed by \<open>flat_map\<close>, with the state behind its mutex.\<close>

fun flat_map_state :: "('s \<Rightarrow> 'x \<Rightarrow> 'y list \<times> 's) \<Rightarrow> 's \<Rightarrow> 'x list \<Rightarrow> 'y list" where
  "flat_map_state f st [] = []"
| "flat_map_state f st (x # xs) = (case f st x of (ys, st') \<Rightarrow> ys @ flat_map_state f st' xs)"

definition openai_stream ::
  "(json \<Rightarrow> string) \<Rightarrow> json_parser \<Rightarrow> (string \<Rightarrow> string + oa_stream_chunk) \<Rightarrow> http_config \<Rightarrow>
    chat_request \<Rightarrow> string http_reply \<Rightarrow> chunk list \<Rightarrow>
    oa_request http_request \<times> (provider_error + stream_item list)" where
  "openai_stream show_json parse decode c r reply chunks =
     (openai_http_request c (to_openai_request show_json r True),
      case check_reply (hc_id c) reply of
        Inl e \<Rightarrow> Inl e
      | Inr _ \<Rightarrow> Inr (Inr (StreamStarted (hc_id c) (cr_model r)) #
          flat_map_state (map_sse_event parse decode) (oa_stream_state_new (hc_id c))
            (sse_run (hc_id c) [] chunks)))"

section \<open>Requests and responses agree\<close>

lemma map_filter_text_items:
  "List.map_filter parse_content_item (map content_item (map part_text ts)) = map part_text ts"
  by (induction ts) (auto simp: List.map_filter_def part_text_def parse_content_item_def)

lemma parse_serialized_texts:
  "parse_content_value (Some (serialize_content (map part_text ts))) = map part_text ts"
proof (cases ts)
  case (Cons t us)
  show ?thesis
  proof (cases us)
    case (Cons u vs)
    have "serialize_content (map part_text ts) = JArray (map content_item (map part_text ts))"
      by (simp add: \<open>ts = t # us\<close> Cons part_text_def)
    then show ?thesis using map_filter_text_items [of ts] by simp
  qed (simp add: Cons part_text_def)
qed (simp add: List.map_filter_def)

definition not_string :: "json \<Rightarrow> bool" where
  "not_string v \<longleftrightarrow> json_str v = None"

lemma response_of_sent_call:
  assumes "parse (show_json (tc_arguments c)) = Some (tc_arguments c)"
    and "not_string (tc_arguments c)"
  shows "response_tool_call parse (convert_tool_call show_json c) = Some c"
  using assms
  by (cases c; cases "tc_arguments c") (auto simp: response_tool_call_def convert_tool_call_def
      not_string_def tool_call_new_def parse_or_null_def)

text \<open>An assistant message of texts and tool calls survives OpenAI's wire format: what is sent is read
  back as the same message, when the printed arguments of its calls parse back and no call has a bare
  string for its arguments.\<close>

theorem openai_message_roundtrip:
  assumes "list_all (\<lambda>c. parse (show_json (tc_arguments c)) = Some (tc_arguments c) \<and>
    not_string (tc_arguments c)) calls"
  shows "convert_response_message parse
      (convert_message show_json (Assistant (map part_text ts) calls)) =
    Assistant (map part_text ts) calls"
proof -
  have "convert_response_tool_calls parse (map (convert_tool_call show_json) calls) = calls"
    using assms
    by (induction calls) (auto simp: convert_response_tool_calls_def List.map_filter_def
        response_of_sent_call)
  then show ?thesis
    by (auto simp add: convert_response_message_def parse_serialized_texts simp del: map_map)
qed

theorem openai_message_roundtrip_witness:
  "let c = tool_call_new ''a'' ''f'' (JObject [(''x'', JNull)]);
       parse = (\<lambda>s. if s = ''{\"x\":null}'' then Some (JObject [(''x'', JNull)]) else None)
   in convert_response_message parse
        (convert_message (\<lambda>_. ''{\"x\":null}'') (Assistant (map part_text [''hi'', ''there'']) [c])) =
      Assistant (map part_text [''hi'', ''there'']) [c]"
proof -
  let ?c = "tool_call_new ''a'' ''f'' (JObject [(''x'', JNull)])"
  let ?parse = "\<lambda>s. if s = ''{\"x\":null}'' then Some (JObject [(''x'', JNull)]) else None"
  have w: "list_all (\<lambda>c. ?parse ((\<lambda>_. ''{\"x\":null}'') (tc_arguments c)) = Some (tc_arguments c) \<and>
      not_string (tc_arguments c)) [?c]"
    by (simp add: tool_call_new_def not_string_def)
  show ?thesis unfolding Let_def
    by (rule openai_message_roundtrip [where show_json = "\<lambda>_. ''{\"x\":null}''"]) (rule w)
qed

lemma string_argument_lost:
  "convert_response_message (\<lambda>s. if s = ''\"x\"'' then Some (JString ''x'') else None)
     (convert_message (\<lambda>_. ''\"x\"'') (Assistant [] [tool_call_new ''a'' ''f'' (JString ''x'')])) =
   Assistant [] [tool_call_new ''a'' ''f'' JNull]"
  by code_simp

section \<open>The two readings of a stream\<close>

text \<open>A stream of tool-call deltas is well tagged when the first delta of each index carries the id and
  the name of its call, ids differ, and later deltas carry arguments only. Deltas of different
  calls may interleave.\<close>

fun well_tagged :: "(nat \<times> string) list \<Rightarrow> oa_tool_call list \<Rightarrow> bool" where
  "well_tagged seen [] = True"
| "well_tagged seen (d # ds) =
     (case map_of seen (delta_index d) of
        Some _ \<Rightarrow> otc_id d = None \<and> ofc_name (otc_function d) = None \<and> well_tagged seen ds
      | None \<Rightarrow>
          (case (otc_id d, ofc_name (otc_function d)) of
             (Some c, Some n) \<Rightarrow>
               c \<noteq> [] \<and> n \<noteq> [] \<and> c \<notin> snd ` set seen \<and> well_tagged ((delta_index d, c) # seen) ds
           | _ \<Rightarrow> False))"

definition agree :: "oa_stream_state \<Rightarrow> stream_accumulator \<Rightarrow> bool" where
  "agree st acc \<longleftrightarrow>
     (\<forall>i. map_of (oss_ids st) i = None \<longrightarrow>
        map_of (oss_names st) i = None \<and> map_of (oss_args st) i = None \<and> i \<notin> set (oss_started st)) \<and>
     (\<forall>i c. map_of (oss_ids st) i = Some c \<longrightarrow> i \<in> set (oss_started st) \<and>
        (\<exists>n. map_of (oss_names st) i = Some n \<and> map_of (sa_calls acc) c =
          Some \<lparr>tca_id = c, tca_name = n, tca_arguments =
            (case map_of (oss_args st) i of Some raw \<Rightarrow> raw | None \<Rightarrow> [])\<rparr>)) \<and>
     (\<forall>i j c. map_of (oss_ids st) i = Some c \<longrightarrow> map_of (oss_ids st) j = Some c \<longrightarrow> i = j) \<and>
     (\<forall>c tc. map_of (sa_calls acc) c = Some tc \<longrightarrow> (\<exists>i. map_of (oss_ids st) i = Some c))"

lemma agreeD:
  assumes "agree st acc"
  shows "map_of (oss_ids st) i = None \<Longrightarrow> map_of (oss_names st) i = None"
    and "map_of (oss_ids st) i = None \<Longrightarrow> map_of (oss_args st) i = None"
    and "map_of (oss_ids st) i = None \<Longrightarrow> i \<notin> set (oss_started st)"
    and "map_of (oss_ids st) i = Some c \<Longrightarrow> i \<in> set (oss_started st)"
    and "map_of (oss_ids st) i = Some c \<Longrightarrow> map_of (oss_ids st) j = Some c \<Longrightarrow> i = j"
    and "map_of (sa_calls acc) c = Some tc \<Longrightarrow> \<exists>i. map_of (oss_ids st) i = Some c"
    and "map_of (oss_ids st) i = Some c \<Longrightarrow> \<exists>n. map_of (oss_names st) i = Some n \<and>
      map_of (sa_calls acc) c = Some \<lparr>tca_id = c, tca_name = n, tca_arguments =
        (case map_of (oss_args st) i of Some raw \<Rightarrow> raw | None \<Rightarrow> [])\<rparr>"
  using assms unfolding agree_def by blast+

text \<open>The first delta of a call, without its arguments.\<close>

lemma agree_announced:
  assumes "agree st acc" and "map_of (oss_ids st) i = None" and "\<And>j. map_of (oss_ids st) j \<noteq> Some c"
  shows "agree (st\<lparr>oss_ids := AList.update i c (oss_ids st), oss_names := AList.update i n (oss_names st),
      oss_started := i # oss_started st\<rparr>) (start_tool_call acc c n)"
  unfolding agree_def
proof (intro conjI allI impI)
  let ?st = "st\<lparr>oss_ids := AList.update i c (oss_ids st), oss_names := AList.update i n (oss_names st),
      oss_started := i # oss_started st\<rparr>"
  show "map_of (oss_names ?st) j = None" "map_of (oss_args ?st) j = None" "j \<notin> set (oss_started ?st)"
    if "map_of (oss_ids ?st) j = None" for j
    using that agreeD(1-3) [OF assms(1), of j] by (auto simp: update_conv' split: if_splits)
  fix j d
  show "j = k" if "map_of (oss_ids ?st) j = Some d" "map_of (oss_ids ?st) k = Some d" for k
    using that agreeD(5) [OF assms(1), of j d k] assms(3) by (auto simp: update_conv' split: if_splits)
  assume j: "map_of (oss_ids ?st) j = Some d"
  show "j \<in> set (oss_started ?st)"
    using j agreeD(4) [OF assms(1)] by (auto simp: update_conv' split: if_splits)
  show "\<exists>m. map_of (oss_names ?st) j = Some m \<and> map_of (sa_calls (start_tool_call acc c n)) d =
      Some \<lparr>tca_id = d, tca_name = m, tca_arguments =
        (case map_of (oss_args ?st) j of Some raw \<Rightarrow> raw | None \<Rightarrow> [])\<rparr>"
    using j agreeD(7) [OF assms(1), of j d] assms(3) agreeD(2) [OF assms(1,2)]
    by (auto simp: update_conv' start_tool_call_def split: if_splits)
next
  let ?st = "st\<lparr>oss_ids := AList.update i c (oss_ids st), oss_names := AList.update i n (oss_names st),
      oss_started := i # oss_started st\<rparr>"
  fix d tc assume d: "map_of (sa_calls (start_tool_call acc c n)) d = Some tc"
  show "\<exists>j. map_of (oss_ids ?st) j = Some d"
  proof (cases "d = c")
    case False
    then obtain j where j: "map_of (oss_ids st) j = Some d"
      using d agreeD(6) [OF assms(1), of d tc] by (auto simp: start_tool_call_def update_conv')
    then have "j \<noteq> i" using assms(2) by auto
    with j show ?thesis by (auto simp: update_conv')
  qed (auto simp: update_conv')
qed

text \<open>A piece of arguments for an announced call.\<close>

lemma agree_arguments:
  assumes "agree st acc" and i: "map_of (oss_ids st) i = Some c"
  shows "agree (st\<lparr>oss_args := AList.update i
      ((case map_of (oss_args st) i of Some raw \<Rightarrow> raw | None \<Rightarrow> []) @ piece) (oss_args st)\<rparr>)
    (append_tool_arguments acc c piece)"
proof -
  obtain n where n: "map_of (oss_names st) i = Some n" "map_of (sa_calls acc) c =
      Some \<lparr>tca_id = c, tca_name = n, tca_arguments =
        (case map_of (oss_args st) i of Some raw \<Rightarrow> raw | None \<Rightarrow> [])\<rparr>"
    using agreeD(7) [OF assms] by blast
  have k: "i = k" if "map_of (oss_ids st) k = Some c" for k
    using agreeD(5) [OF assms(1) i that] .
  let ?raw = "(case map_of (oss_args st) i of Some raw \<Rightarrow> raw | None \<Rightarrow> []) @ piece"
  have look: "map_of (sa_calls (append_tool_arguments acc c piece)) = (map_of (sa_calls acc))(c \<mapsto>
      \<lparr>tca_id = c, tca_name = n, tca_arguments = ?raw\<rparr>)"
    using n by (simp add: append_tool_arguments_def update_conv')
  show ?thesis unfolding agree_def look
  proof (intro conjI allI impI, goal_cases)
    case (2 j)
    then show ?case using agreeD(2) [OF assms(1), of j] i by (auto simp: update_conv')
  next
    case (5 j d)
    show ?case
    proof (cases "j = i")
      case False
      then have "d \<noteq> c" using k [of j] 5 by auto
      then show ?thesis using agreeD(7) [OF assms(1), of j d] 5 False by (simp add: update_conv')
    qed (use 5 i n in \<open>simp add: update_conv'\<close>)
  next
    case (6 j l d)
    then show ?case using agreeD(5) [OF assms(1), of j d l] by simp
  next
    case (7 d tc)
    then show ?case using agreeD(6) [OF assms(1), of d tc] i by (auto split: if_splits)
  qed (use agreeD(1,3,4) [OF assms(1)] in simp_all)
qed

lemma note_arguments_agrees:
  assumes "agree st acc" and "map_of (oss_ids st) (delta_index d) = Some c"
    and "note_arguments st d = (evs, st')"
  shows "agree st' (foldl accumulate acc evs) \<and> oss_ids st' = oss_ids st"
  using assms agree_arguments [OF assms(1,2)]
  by (auto simp: note_arguments_def call_id_of_def Let_def split: option.splits)

lemma tool_call_delta_agrees:
  assumes "agree st acc" and "well_tagged seen (d # ds)" and "map_of (oss_ids st) = map_of seen"
    and "tool_call_delta st d = (evs, st')"
  shows "agree st' (foldl accumulate acc evs) \<and>
    (\<exists>seen'. well_tagged seen' ds \<and> map_of (oss_ids st') = map_of seen')"
proof (cases "map_of seen (delta_index d)")
  case (Some c)
  then have "otc_id d = None" "ofc_name (otc_function d) = None" "well_tagged seen ds"
    using assms(2) by auto
  moreover from this have "announce_call (note_identity st d) (delta_index d) = ([], st)"
    using agreeD(4) [OF assms(1), of "delta_index d" c] Some assms(3)
    by (auto simp: note_identity_def announce_call_def Let_def split: option.splits)
  ultimately have w: "well_tagged seen ds" and n: "note_arguments st d = (evs, st')"
    using assms(4) by (simp_all add: tool_call_delta_def split: prod.splits)
  have "map_of (oss_ids st) (delta_index d) = Some c" using Some assms(3) by simp
  from note_arguments_agrees [OF assms(1) this n] w assms(3) show ?thesis by auto
next
  case None
  then obtain c n where d: "otc_id d = Some c" "ofc_name (otc_function d) = Some n" "c \<noteq> []" "n \<noteq> []"
    "c \<notin> snd ` set seen" "well_tagged ((delta_index d, c) # seen) ds"
    using assms(2) by (auto split: option.splits)
  let ?i = "delta_index d"
  let ?st = "st\<lparr>oss_ids := AList.update ?i c (oss_ids st), oss_names := AList.update ?i n (oss_names st),
      oss_started := ?i # oss_started st\<rparr>"
  have fresh: "map_of (oss_ids st) ?i = None" "map_of (oss_ids st) j \<noteq> Some c" for j
    using None d(5) assms(3) by (auto dest: map_of_SomeD intro: rev_image_eqI)
  have a: "announce_call (note_identity st d) ?i = ([StreamToolStarted c n], ?st)"
    using d agreeD(3) [OF assms(1) fresh(1)]
    by (auto simp: note_identity_def announce_call_def update_conv' Let_def)
  obtain e2 where n: "note_arguments ?st d = (e2, st')" and e: "evs = StreamToolStarted c n # e2"
    using assms(4) a by (auto simp: tool_call_delta_def split: prod.splits)
  have "agree ?st (start_tool_call acc c n)" by (rule agree_announced [OF assms(1) fresh])
  from note_arguments_agrees [OF this _ n, of c]
  have "agree st' (foldl accumulate acc evs)" "oss_ids st' = oss_ids ?st"
    by (simp_all add: e update_conv')
  moreover from this have "map_of (oss_ids st') = map_of ((?i, c) # seen)"
    using assms(3) by (simp add: update_conv')
  ultimately show ?thesis using d(6) by blast
qed

lemma deltas_agree:
  assumes "agree st acc" and "well_tagged seen ds" and "map_of (oss_ids st) = map_of seen"
    and "convert_tool_call_deltas st ds = (evs, st')"
  shows "agree st' (foldl accumulate acc evs)"
  using assms
proof (induction ds arbitrary: st acc seen evs st')
  case (Cons d ds)
  obtain e1 s1 e2 where s: "tool_call_delta st d = (e1, s1)"
    "convert_tool_call_deltas s1 ds = (e2, st')" "evs = e1 @ e2"
    using Cons.prems(4) by (auto split: prod.splits)
  from tool_call_delta_agrees [OF Cons.prems(1-3) s(1)] obtain seen' where
    "agree s1 (foldl accumulate acc e1)" "well_tagged seen' ds" "map_of (oss_ids s1) = map_of seen'"
    by blast
  from Cons.IH [OF this s(2)] s(3) show ?case by simp
qed simp

lemma agree_new: "agree (oa_stream_state_new p) accumulator_new"
  by (simp add: agree_def oa_stream_state_new_def accumulator_new_def)

lemma foldl_accumulate_distinct: "distinct (map fst (sa_calls (accumulate_all evs)))"
  unfolding accumulate_all_def
  by (rule distinct_foldl_accumulate) (simp add: accumulator_new_def)

lemma set_known_indices:
  "set (known_indices st) = fst ` set (oss_ids st) \<union> fst ` set (oss_names st) \<union> fst ` set (oss_args st)"
  by (auto simp: known_indices_def)

lemma completed_of_agree:
  assumes "agree st acc" and "map_of (oss_ids st) i = Some c" and "parse [] = None"
  shows "\<exists>tc. map_of (sa_calls acc) c = Some tc \<and> completed_call parse st i = Some (finished_call parse tc)"
  using agreeD(7) [OF assms(1,2)] assms(2,3)
  by (auto simp: completed_call_def call_id_of_def finished_call_def parse_or_null_def
      split: option.splits)

lemma agree_same_calls:
  assumes "agree st acc" and "parse [] = None" and "distinct (map fst (sa_calls acc))"
  shows "finished_call parse ` snd ` set (sa_calls acc) = set (fst (completed_tool_calls parse st))"
proof (intro equalityI subsetI)
  fix x assume "x \<in> finished_call parse ` snd ` set (sa_calls acc)"
  then obtain c tc where x: "x = finished_call parse tc" "map_of (sa_calls acc) c = Some tc"
    using assms(3) by (auto simp: image_iff)
  then obtain i where i: "map_of (oss_ids st) i = Some c" using agreeD(6) [OF assms(1)] by blast
  then have "i \<in> set (known_indices st)"
    by (auto simp: set_known_indices dest: map_of_SomeD intro: rev_image_eqI)
  then show "x \<in> set (fst (completed_tool_calls parse st))"
    using completed_of_agree [where parse = parse, OF assms(1) i assms(2)] x
    by (force simp: completed_tool_calls_def List.map_filter_def)
next
  fix x assume "x \<in> set (fst (completed_tool_calls parse st))"
  then obtain i where i: "completed_call parse st i = Some x"
    by (auto simp: completed_tool_calls_def List.map_filter_def)
  then obtain c where c: "map_of (oss_ids st) i = Some c"
    using agreeD(1) [OF assms(1), of i] by (cases "map_of (oss_ids st) i") (auto simp: completed_call_def)
  from completed_of_agree [where parse = parse, OF assms(1) c assms(2)] i
  obtain tc where "map_of (sa_calls acc) c = Some tc" "x = finished_call parse tc" by auto
  then show "x \<in> finished_call parse ` snd ` set (sa_calls acc)"
    by (auto dest!: map_of_SomeD intro!: imageI rev_image_eqI [of "(c, tc)"])
qed

text \<open>C34: The two readings of a stream's tool calls agree. The adapter assembles the calls itself and
  announces them as completed; the run loop assembles them again from the deltas it is sent. For a
  well-tagged stream, however its deltas interleave, both have the same calls, ids, names and parsed
  arguments included.\<close>

theorem streamed_and_completed_calls_agree:
  assumes "well_tagged [] ds" and "parse [] = None" and "\<And>xs. mset (order xs) = mset xs"
  shows "case convert_tool_call_deltas (oa_stream_state_new p) ds of (evs, st) \<Rightarrow>
    set (accumulated_calls parse order (accumulate_all evs)) = set (fst (completed_tool_calls parse st))"
proof -
  obtain evs st where s: "convert_tool_call_deltas (oa_stream_state_new p) ds = (evs, st)" by fastforce
  have "agree st (accumulate_all evs)" unfolding accumulate_all_def
    by (rule deltas_agree [OF agree_new assms(1) _ s]) (simp add: oa_stream_state_new_def)
  from agree_same_calls [where parse = parse, OF this assms(2) foldl_accumulate_distinct]
  have "finished_call parse ` snd ` set (sa_calls (accumulate_all evs)) =
      set (fst (completed_tool_calls parse st))" .
  moreover have "set (order (map snd (sa_calls (accumulate_all evs)))) =
      snd ` set (sa_calls (accumulate_all evs))"
    using mset_eq_setD [OF assms(3)] by simp
  ultimately show ?thesis by (simp add: s accumulated_calls_def)
qed

definition call_delta :: "nat \<Rightarrow> string option \<Rightarrow> string option \<Rightarrow> string \<Rightarrow> oa_tool_call" where
  "call_delta i c n piece =
     \<lparr>otc_id = c, otc_index = Some i, otc_kind = None,
      otc_function = \<lparr>ofc_name = n, ofc_arguments = Some piece\<rparr>\<rparr>"

definition sample_deltas :: "oa_tool_call list" where
  "sample_deltas =
     [call_delta 0 (Some ''a'') (Some ''f'') ''1'', call_delta 1 (Some ''b'') (Some ''g'') ''2'',
      call_delta 0 None None ''3'']"

theorem streamed_and_completed_calls_agree_witness:
  "(case convert_tool_call_deltas (oa_stream_state_new ''p'') sample_deltas of (evs, st) \<Rightarrow>
     set (accumulated_calls (\<lambda>s. if s = [] then None else Some (JNumber s)) rev (accumulate_all evs)) =
     set (fst (completed_tool_calls (\<lambda>s. if s = [] then None else Some (JNumber s)) st))) \<and>
   fst (completed_tool_calls (\<lambda>s. if s = [] then None else Some (JNumber s))
     (snd (convert_tool_call_deltas (oa_stream_state_new ''p'') sample_deltas))) =
     [tool_call_new ''a'' ''f'' (JNumber ''13''), tool_call_new ''b'' ''g'' (JNumber ''2'')]"
proof
  have "well_tagged [] sample_deltas" by code_simp
  from streamed_and_completed_calls_agree [OF this, of "\<lambda>s. if s = [] then None else Some (JNumber s)" rev "''p''"]
  show "case convert_tool_call_deltas (oa_stream_state_new ''p'') sample_deltas of (evs, st) \<Rightarrow>
     set (accumulated_calls (\<lambda>s. if s = [] then None else Some (JNumber s)) rev (accumulate_all evs)) =
     set (fst (completed_tool_calls (\<lambda>s. if s = [] then None else Some (JNumber s)) st))" by simp
qed code_simp

text \<open>What the chunk that carries the finish reason says besides is dropped, and so is the usage of a
  chunk without choices, which is where the API puts it.\<close>

lemma finishing_chunk_drops_content:
  assumes "decode data = Inr chunk" and "osk_choices chunk = choice # rest"
    and "osc_finish_reason choice = Some ''stop''"
  shows "parse_chunk_event parse decode st data =
    ([Inr (StreamFinished Stop (map_option (\<lambda>u. usage_new (ou_prompt_tokens u) (ou_completion_tokens u))
       (osk_usage chunk)))], st)"
  using assms by (simp add: parse_chunk_event_def finish_events_def convert_stream_finish_def)

lemma usage_chunk_ignored:
  "decode data = Inr chunk \<Longrightarrow> osk_choices chunk = [] \<Longrightarrow> parse_chunk_event parse decode st data = ([], st)"
  by (simp add: parse_chunk_event_def)

end
