(* ===== verification/OpenAI_Embeddings.thy ===== *)
theory OpenAI_Embeddings
  imports OpenAI_Adapter
begin

text \<open>
  Embedding requests and responses (\<open>behest-core/src/embedding.rs\<close>) and the OpenAI adapter for them
  (\<open>behest-adapter-openai/src/embed.rs\<close>).
\<close>

datatype embedding_input = InputText string | InputTokens "u32 list"

record embedding_request =
  er_model :: model_name
  er_input :: "embedding_input list"
  er_dimensions :: "u32 option"
  er_metadata :: json

definition embedding_request_new :: "model_name \<Rightarrow> embedding_input list \<Rightarrow> embedding_request" where
  "embedding_request_new m input =
     \<lparr>er_model = m, er_input = input, er_dimensions = None, er_metadata = JNull\<rparr>"

definition embedding_from_text :: "model_name \<Rightarrow> string \<Rightarrow> embedding_request" where
  "embedding_from_text m t = embedding_request_new m [InputText t]"

definition with_dimensions :: "u32 \<Rightarrow> embedding_request \<Rightarrow> embedding_request" where
  "with_dimensions d r = r\<lparr>er_dimensions := Some d\<rparr>"

definition embedding_with_metadata :: "json \<Rightarrow> embedding_request \<Rightarrow> embedding_request" where
  "embedding_with_metadata m r = r\<lparr>er_metadata := m\<rparr>"

text \<open>The \<open>f32\<close> components of a vector are their bits.\<close>

record vector_embedding =
  ve_index :: nat
  ve_vector :: "u32 list"

record embedding_response =
  emr_provider :: provider_id
  emr_model :: model_name
  emr_embeddings :: "vector_embedding list"
  emr_usage :: "token_usage option"
  emr_raw :: "json option"

record oa_embedding_request =
  oer_model :: string
  oer_input :: "string list"
  oer_dimensions :: "u32 option"

record oa_embedding_response =
  oep_model :: string
  oep_data :: "(nat \<times> u32 list) list"
  oep_usage :: "oa_usage option"

fun extract_text :: "embedding_input \<Rightarrow> string" where
  "extract_text (InputText t) = t"
| "extract_text (InputTokens ts) = str_join '' '' (map (show_nat \<circ> unat) ts)"

definition extract_texts :: "embedding_input list \<Rightarrow> string list" where
  "extract_texts inputs = map extract_text inputs"

definition embeddings_from_response ::
  "provider_id \<Rightarrow> model_name \<Rightarrow> oa_embedding_response \<Rightarrow> embedding_response" where
  "embeddings_from_response p m r =
     \<lparr>emr_provider = p, emr_model = m,
      emr_embeddings = map (\<lambda>(i, v). \<lparr>ve_index = i, ve_vector = v\<rparr>) (oep_data r),
      emr_usage = map_option (\<lambda>u. usage_new (ou_prompt_tokens u) 0) (oep_usage r), emr_raw = None\<rparr>"

definition openai_embed ::
  "(string \<Rightarrow> string + oa_embedding_response) \<Rightarrow> http_config \<Rightarrow> embedding_request \<Rightarrow>
    string http_reply \<Rightarrow> oa_embedding_request http_request \<times> (provider_error + embedding_response)" where
  "openai_embed decode c r reply =
     (embeddings_http_request c
        \<lparr>oer_model = er_model r, oer_input = extract_texts (er_input r), oer_dimensions = er_dimensions r\<rparr>,
      map_sum id (embeddings_from_response (hc_id c) (er_model r)) (request_reply (hc_id c) decode reply))"

text \<open>The embeddings come in the order of the response, which need not be that of the inputs.\<close>

lemma embeddings_in_response_order:
  "map ve_index (emr_embeddings (embeddings_from_response p m r)) = map fst (oep_data r)"
  by (auto simp: embeddings_from_response_def)

end
