(* ===== verification/Tool_Dispatch.thy ===== *)
theory Tool_Dispatch
  imports Core_Types "HOL-Library.AList" "HOL-Library.Multiset"
begin

text \<open>
  Splitting tool calls between the runtime and the caller (\<open>behest-runtime/src/tool_dispatch.rs\<close>).
  The source map is an association list.
\<close>

record dispatch_plan =
  dp_server :: "tool_call list"
  dp_client :: "tool_call list"

definition plan_is_empty :: "dispatch_plan \<Rightarrow> bool" where
  "plan_is_empty p \<longleftrightarrow> dp_server p = [] \<and> dp_client p = []"

definition total_calls :: "dispatch_plan \<Rightarrow> nat" where
  "total_calls p = length (dp_server p) + length (dp_client p)"

definition has_client_calls :: "dispatch_plan \<Rightarrow> bool" where
  "has_client_calls p \<longleftrightarrow> dp_client p \<noteq> []"

definition has_server_calls :: "dispatch_plan \<Rightarrow> bool" where
  "has_server_calls p \<longleftrightarrow> dp_server p \<noteq> []"

type_synonym source_map = "(string \<times> tool_source) list"

definition source_of :: "source_map \<Rightarrow> tool_call \<Rightarrow> tool_source" where
  "source_of m c = (case map_of m (tc_name c) of Some s \<Rightarrow> s | None \<Rightarrow> Server)"

definition dispatch_call :: "source_map \<Rightarrow> dispatch_plan \<Rightarrow> tool_call \<Rightarrow> dispatch_plan" where
  "dispatch_call m p c =
     (if is_client (source_of m c) then p\<lparr>dp_client := dp_client p @ [c]\<rparr>
      else p\<lparr>dp_server := dp_server p @ [c]\<rparr>)"

definition split_tool_calls :: "tool_call list \<Rightarrow> source_map \<Rightarrow> dispatch_plan" where
  "split_tool_calls calls m = foldl (dispatch_call m) \<lparr>dp_server = [], dp_client = []\<rparr> calls"

definition build_source_map :: "(string \<times> tool_source) list \<Rightarrow> source_map" where
  "build_source_map pairs = foldl (\<lambda>m (n, s). AList.update n s m) [] pairs"

datatype turn_outcome =
    ServerOnly "tool_call list"
  | ClientOnly "tool_call list"
  | Mixed "tool_call list" "tool_call list"
  | NoCalls

definition from_plan :: "dispatch_plan \<Rightarrow> turn_outcome" where
  "from_plan p =
     (case (dp_server p = [], dp_client p = []) of
        (False, True) \<Rightarrow> ServerOnly (dp_server p)
      | (True, False) \<Rightarrow> ClientOnly (dp_client p)
      | (False, False) \<Rightarrow> Mixed (dp_server p) (dp_client p)
      | (True, True) \<Rightarrow> NoCalls)"

fun requires_caller :: "turn_outcome \<Rightarrow> bool" where
  "requires_caller (ClientOnly _) = True"
| "requires_caller (Mixed _ _) = True"
| "requires_caller _ = False"

fun outcome_client_calls :: "turn_outcome \<Rightarrow> tool_call list" where
  "outcome_client_calls (ClientOnly cs) = cs"
| "outcome_client_calls (Mixed _ cs) = cs"
| "outcome_client_calls _ = []"

fun outcome_server_calls :: "turn_outcome \<Rightarrow> tool_call list" where
  "outcome_server_calls (ServerOnly cs) = cs"
| "outcome_server_calls (Mixed cs _) = cs"
| "outcome_server_calls _ = []"

lemma split_tool_calls_filter:
  "split_tool_calls calls m =
     \<lparr>dp_server = filter (\<lambda>c. \<not> is_client (source_of m c)) calls,
      dp_client = filter (\<lambda>c. is_client (source_of m c)) calls\<rparr>"
proof -
  have "foldl (dispatch_call m) p calls =
      p\<lparr>dp_server := dp_server p @ filter (\<lambda>c. \<not> is_client (source_of m c)) calls,
        dp_client := dp_client p @ filter (\<lambda>c. is_client (source_of m c)) calls\<rparr>" for p
    by (induction calls arbitrary: p) (auto simp: dispatch_call_def)
  then show ?thesis by (simp add: split_tool_calls_def)
qed

lemma from_plan_calls [simp]:
  "outcome_client_calls (from_plan p) = dp_client p" "outcome_server_calls (from_plan p) = dp_server p"
  "requires_caller (from_plan p) \<longleftrightarrow> has_client_calls p"
  by (cases "dp_server p = []"; cases "dp_client p = []"; simp add: from_plan_def has_client_calls_def)+

lemma build_source_map_last:
  "map_of (build_source_map pairs) n = map_of (rev pairs) n"
proof -
  have "map_of (foldl (\<lambda>m (n, s). AList.update n s m) m pairs) n =
      (case map_of (rev pairs) n of Some s \<Rightarrow> Some s | None \<Rightarrow> map_of m n)" for m
    by (induction pairs arbitrary: m)
      (auto simp: update_conv' map_add_def split: option.splits)
  from this [of "[]"] show ?thesis by (simp add: build_source_map_def split: option.splits)
qed

text \<open>Nothing is lost or invented when a turn's calls are dispatched: server and client calls together are
  the calls of the model, each group in its order; the caller gets exactly the calls whose tool was
  last tagged as a client tool, and the loop pauses exactly when there is one.\<close>

lemma dispatch_exact:
  fixes pairs calls
  defines "m \<equiv> build_source_map pairs"
  defines "turn \<equiv> from_plan (split_tool_calls calls m)"
  shows "mset (outcome_server_calls turn) + mset (outcome_client_calls turn) = mset calls \<and>
    outcome_client_calls turn = filter (\<lambda>c. map_of (rev pairs) (tc_name c) = Some Client) calls \<and>
    (requires_caller turn \<longleftrightarrow> (\<exists>c\<in>set calls. map_of (rev pairs) (tc_name c) = Some Client))"
proof -
  have c: "is_client (source_of m c) \<longleftrightarrow> map_of (rev pairs) (tc_name c) = Some Client" for c
    unfolding m_def source_of_def build_source_map_last
    by (auto split: option.splits elim: is_client.elims)
  show ?thesis
    by (auto simp: turn_def split_tool_calls_filter c has_client_calls_def filter_empty_conv
        multiset_partition [symmetric] mset_filter add.commute)
qed

end
