(* ===== verification/Cache_Stats.thy ===== *)
theory Cache_Stats
  imports Complex_Main Event_Store "HOL-Library.Multiset"
begin

text \<open>
  Totals of the prompt cache over a window of events (\<open>behest-runtime/src/cache_stats.rs\<close>). Every
  sum is a saturating one on \<open>u64\<close>, except in \<open>total_cache_tokens\<close> and \<open>cache_hit_rate\<close>, whose sums
  wrap in a release build. The rate is the exact quotient: the rounding of \<open>f64\<close> is not modelled.
\<close>

record cache_stats =
  cs_call_count :: u64
  cs_input :: u64
  cs_output :: u64
  cs_creation :: u64
  cs_read :: u64
  cs_cached :: u64

definition cache_stats_default :: cache_stats where
  "cache_stats_default =
     \<lparr>cs_call_count = 0, cs_input = 0, cs_output = 0, cs_creation = 0, cs_read = 0, cs_cached = 0\<rparr>"

fun count_event :: "cache_stats \<Rightarrow> agent_event \<Rightarrow> cache_stats" where
  "count_event s (EvUsageRecorded _ u _) =
     s\<lparr>cs_call_count := sat_add_word (cs_call_count s) 1,
       cs_input := sat_add_word (cs_input s) (input_tokens u),
       cs_output := sat_add_word (cs_output s) (output_tokens u)\<rparr>"
| "count_event s (EvCacheMetrics _ cr rd ca _) =
     s\<lparr>cs_creation := sat_add_word (cs_creation s) cr, cs_read := sat_add_word (cs_read s) rd,
       cs_cached := sat_add_word (cs_cached s) ca\<rparr>"
| "count_event s _ = s"

definition from_events :: "agent_event list \<Rightarrow> cache_stats" where
  "from_events evs = foldl count_event cache_stats_default evs"

definition from_envelopes :: "event_envelope list \<Rightarrow> cache_stats" where
  "from_envelopes es = from_events (map ee_event es)"

definition stats_cache_tokens :: "cache_stats \<Rightarrow> u64" where
  "stats_cache_tokens s = cs_creation s + cs_read s + cs_cached s"

definition cache_hit_rate :: "cache_stats \<Rightarrow> rat" where
  "cache_hit_rate s =
     (let hits = cs_read s + cs_cached s;
          total = cs_input s + stats_cache_tokens s
      in if total = 0 then 0 else of_nat (unat hits) / of_nat (unat total))"

definition stats_merge :: "cache_stats \<Rightarrow> cache_stats \<Rightarrow> cache_stats" where
  "stats_merge a b =
     \<lparr>cs_call_count = sat_add_word (cs_call_count a) (cs_call_count b),
      cs_input = sat_add_word (cs_input a) (cs_input b),
      cs_output = sat_add_word (cs_output a) (cs_output b),
      cs_creation = sat_add_word (cs_creation a) (cs_creation b),
      cs_read = sat_add_word (cs_read a) (cs_read b),
      cs_cached = sat_add_word (cs_cached a) (cs_cached b)\<rparr>"

section \<open>Saturating sums\<close>

lemma unat_sat_add_word:
  fixes a b :: "'a::len word"
  shows "unat (sat_add_word a b) = min (2 ^ LENGTH('a) - 1) (unat a + unat b)"
proof (cases "unat a + unat b < 2 ^ LENGTH('a)")
  case True
  then have "unat (a + b) = unat a + unat b" by (simp add: unat_word_ariths)
  moreover have "unat a + unat b \<le> 2 ^ LENGTH('a) - 1" using True by linarith
  ultimately show ?thesis by (simp add: sat_add_word_def word_le_nat_alt min_absorb2)
next
  case False
  have bounds: "unat a < 2 ^ LENGTH('a)" "unat b < 2 ^ LENGTH('a)" by (rule unsigned_less)+
  have mod: "m \<le> x \<Longrightarrow> x < 2 * m \<Longrightarrow> x mod m = x - m" for x m :: nat by (simp add: le_mod_geq)
  have "unat (a + b) = unat a + unat b - 2 ^ LENGTH('a)"
    unfolding unat_word_ariths by (rule mod) (use bounds False in linarith)+
  then have "unat (a + b) < unat a" using bounds False by linarith
  then have "\<not> a \<le> a + b" by (simp only: word_le_nat_alt not_le)
  then have "sat_add_word a b = - 1" by (simp only: sat_add_word_def if_False)
  moreover have "2 ^ LENGTH('a) - 1 \<le> unat a + unat b" using False by linarith
  ultimately show ?thesis by (simp only: unat_max_word min_absorb1)
qed

lemma min_min_add: "min m (min m x + y) = min m (x + y)" "min m (x + min m y) = min m (x + y)"
  for m x y :: nat
  by (simp_all add: min_def)

lemma sat_add_word_assoc:
  "sat_add_word (sat_add_word a b) c = sat_add_word a (sat_add_word b c)"
  by (rule word_unat_eq_iff [THEN iffD2]) (simp add: unat_sat_add_word min_min_add add.assoc)

lemma sat_add_word_commute: "sat_add_word a b = sat_add_word b a"
  by (rule word_unat_eq_iff [THEN iffD2]) (simp add: unat_sat_add_word add.commute)

lemma sat_add_word_0 [simp]: "sat_add_word a 0 = a" "sat_add_word 0 a = a"
  by (simp_all add: sat_add_word_def)

lemma stats_merge_assoc: "stats_merge (stats_merge a b) c = stats_merge a (stats_merge b c)"
  by (simp add: stats_merge_def sat_add_word_assoc)

lemma stats_merge_commute: "stats_merge a b = stats_merge b a"
  by (simp add: stats_merge_def sat_add_word_commute)

lemma stats_merge_default [simp]: "stats_merge a cache_stats_default = a"
  by (simp add: stats_merge_def cache_stats_default_def)

lemma count_event_merge: "count_event s e = stats_merge s (count_event cache_stats_default e)"
  by (cases e) (simp_all add: stats_merge_def cache_stats_default_def)

lemma foldl_count_merge: "foldl count_event s evs = stats_merge s (from_events evs)"
proof (induction evs rule: rev_induct)
  case (snoc e evs)
  then show ?case
    using count_event_merge [of "stats_merge s (from_events evs)" e] count_event_merge [of "from_events evs" e]
    by (simp add: from_events_def stats_merge_assoc)
qed (simp add: from_events_def)

lemma from_events_append: "from_events (xs @ ys) = stats_merge (from_events xs) (from_events ys)"
proof -
  have "from_events (xs @ ys) = foldl count_event (from_events xs) ys" by (simp add: from_events_def)
  then show ?thesis by (simp only: foldl_count_merge)
qed

lemma from_events_Cons: "from_events (e # es) = stats_merge (from_events [e]) (from_events es)"
  using from_events_append [of "[e]" es] by simp

lemma from_events_mset: "mset xs = mset ys \<Longrightarrow> from_events xs = from_events ys"
proof (induction xs arbitrary: ys)
  case (Cons x xs)
  then obtain as bs where ys: "ys = as @ x # bs" by (metis in_set_conv_decomp list.set_intros(1) mset_eq_setD)
  with Cons have "from_events xs = from_events (as @ bs)" by simp
  let ?x = "from_events [x]" and ?a = "from_events as" and ?b = "from_events bs"
  have "from_events (x # xs) = stats_merge ?x (stats_merge ?a ?b)"
    using \<open>from_events xs = _\<close> by (simp only: from_events_Cons [of x xs] from_events_append)
  also have "\<dots> = stats_merge ?a (stats_merge ?x ?b)" by (metis stats_merge_assoc stats_merge_commute)
  also have "\<dots> = from_events ys" by (simp only: ys from_events_append from_events_Cons [of x bs])
  finally show ?case .
qed simp

lemma cs_input_count_event:
  "unat (cs_input (count_event s e)) =
     min (2 ^ 64 - 1) (unat (cs_input s) + (\<Sum>u\<leftarrow>recorded_usages [e]. unat (input_tokens u)))"
proof (cases "is_usage_recorded e")
  case True
  then obtain r u t where "e = EvUsageRecorded r u t"
    by (cases e) (simp_all add: is_usage_recorded_def)
  then show ?thesis using unat_sat_add_word [of "cs_input s" "input_tokens u"] by simp
next
  case False
  then have "cs_input (count_event s e) = cs_input s" "recorded_usages [e] = []"
    by (cases e; simp add: is_usage_recorded_def)+
  moreover have "unat (cs_input s) < 2 ^ LENGTH(64)" by (rule unsigned_less)
  then have "unat (cs_input s) \<le> 2 ^ 64 - 1" by simp
  ultimately show ?thesis by (simp only: list.map sum_list.Nil add_0_right min_absorb2)
qed

lemma cs_input_sum:
  "unat (cs_input (from_events evs)) = min (2 ^ 64 - 1) (\<Sum>u\<leftarrow>recorded_usages evs. unat (input_tokens u))"
proof (induction evs rule: rev_induct)
  case (snoc e evs)
  have "recorded_usages (evs @ [e]) = recorded_usages evs @ recorded_usages [e]"
    by simp
  moreover have "from_events (evs @ [e]) = count_event (from_events evs) e"
    by (simp add: from_events_def)
  ultimately show ?case
    by (simp only: cs_input_count_event snoc min_min_add map_append sum_list_append)
qed (simp add: from_events_def cache_stats_default_def)

text \<open>The statistics of a run do not depend on how its events are read. Over two windows they are the
  merge of the statistics of each, any order of the events gives the same, and the input total is the
  sum of the recorded inputs, stuck at \<open>u64::MAX\<close> once it is reached.\<close>

theorem cache_stats_exact:
  "from_events (xs @ ys) = stats_merge (from_events xs) (from_events ys) \<and>
   from_events (rev xs) = from_events xs \<and>
   unat (cs_input (from_events xs)) = min (2 ^ 64 - 1) (\<Sum>u\<leftarrow>recorded_usages xs. unat (input_tokens u))"
  by (simp only: from_events_append cs_input_sum from_events_mset [of "rev xs" xs] mset_rev simp_thms)

lemma quotient_bounds:
  "x \<le> y \<Longrightarrow> (0 :: rat) \<le> of_nat x / of_nat y \<and> of_nat x / of_nat y \<le> (1 :: rat)" for x y :: nat
  by (simp add: divide_le_eq)

text \<open>The hit rate is a rate, at most one, as long as the token totals together stay below \<open>2^64\<close>.\<close>

lemma hit_rate_bounded:
  assumes "unat (cs_input s) + unat (cs_creation s) + unat (cs_read s) + unat (cs_cached s) < 2 ^ 64"
  shows "0 \<le> cache_hit_rate s \<and> cache_hit_rate s \<le> 1"
proof -
  have "unat (cs_read s + cs_cached s) = unat (cs_read s) + unat (cs_cached s)"
    "unat (cs_input s + stats_cache_tokens s) =
       unat (cs_input s) + (unat (cs_creation s) + unat (cs_read s) + unat (cs_cached s))"
    using assms by (simp_all add: stats_cache_tokens_def unat_word_ariths)
  then have "unat (cs_read s + cs_cached s) \<le> unat (cs_input s + stats_cache_tokens s)" by simp
  from quotient_bounds [OF this] show ?thesis unfolding cache_hit_rate_def Let_def
    by (cases "cs_input s + stats_cache_tokens s = 0")
      (simp_all only: if_True if_False zero_le_one order_refl simp_thms)
qed

text \<open>Beyond that the sums wrap, though the totals themselves saturate: the rate exceeds one.\<close>

lemma hit_rate_above_one:
  "cache_hit_rate (from_events [EvUsageRecorded r (usage_new (- 1) 0) t, EvCacheMetrics r 0 3 0 t]) = 3 / 2"
  by (simp add: from_events_def cache_stats_default_def usage_new_def sat_add_word_def
      cache_hit_rate_def stats_cache_tokens_def)

end
