(* ===== verification/Component_Factories.thy ===== *)
theory Component_Factories
  imports Registry_Lifecycle Context_Pipeline Provider_Http
begin

text \<open>
  Building components from configuration: \<open>factory_registry.rs\<close>, the components of
  \<open>components.rs\<close> (all features enabled) and the wrappers of \<open>component_factory.rs\<close> in
  \<open>behest-runtime/src\<close>. Parameters: \<open>serde_json::from_value\<close> on each configuration type, and
  whether \<open>reqwest\<close> can build a client.
\<close>

section \<open>Factory registry\<close>

datatype factory_error =
    UnknownKind string
  | InvalidConfig string string
  | FactoryFailed string string

type_synonym ('x, 'c) invoker = "json \<Rightarrow> 'x \<Rightarrow> factory_error + 'c"
type_synonym ('x, 'c) factory_registry = "(string \<times> ('x, 'c) invoker) list"

definition factories_new :: "('x, 'c) factory_registry" where
  "factories_new = []"

definition register_kind ::
  "string \<Rightarrow> ('x, 'c) invoker \<Rightarrow> ('x, 'c) factory_registry \<Rightarrow> ('x, 'c) factory_registry" where
  "register_kind kind f reg = AList.update kind f reg"

definition contains_kind :: "('x, 'c) factory_registry \<Rightarrow> string \<Rightarrow> bool" where
  "contains_kind reg kind \<longleftrightarrow> map_of reg kind \<noteq> None"

definition factory_kinds :: "('x, 'c) factory_registry \<Rightarrow> string list" where
  "factory_kinds reg = map fst reg"

definition invoke_factory ::
  "('x, 'c) factory_registry \<Rightarrow> string \<Rightarrow> json \<Rightarrow> 'x \<Rightarrow> factory_error + 'c" where
  "invoke_factory reg kind cfg ctx =
     (case map_of reg kind of None \<Rightarrow> Inl (UnknownKind kind) | Some f \<Rightarrow> f cfg ctx)"

section \<open>The components\<close>

record provider_component_config =
  pcc_id :: string
  pcc_base_url :: string
  pcc_api_key :: "string option"
  pcc_organization :: "string option"
  pcc_timeout_secs :: "u64 option"
  pcc_connect_timeout_secs :: "u64 option"
  pcc_max_retries :: "nat option"

definition secs_or :: "duration \<Rightarrow> u64 option \<Rightarrow> duration" where
  "secs_or d s = (case s of Some n \<Rightarrow> from_secs (unat n) | None \<Rightarrow> d)"

definition into_provider_http_config :: "provider_component_config \<Rightarrow> http_config" where
  "into_provider_http_config c =
     (let cfg = http_config_new (pcc_id c) (pcc_base_url c);
          cfg = (case pcc_api_key c of Some k \<Rightarrow> with_api_key k cfg | None \<Rightarrow> cfg);
          cfg = (case pcc_organization c of Some g \<Rightarrow> with_organization g cfg | None \<Rightarrow> cfg);
          cfg = with_timeouts (secs_or (from_secs 60) (pcc_timeout_secs c))
            (secs_or (from_secs 10) (pcc_connect_timeout_secs c)) cfg
      in with_max_retries (case pcc_max_retries c of Some n \<Rightarrow> n | None \<Rightarrow> 2) cfg)"

datatype provider_adapter = OpenAiChat | OpenAiEmbedding | AnthropicChat
datatype memory_store = SessionStore | ExecutionStore | RunStore | EmbeddingStore | ArtifactStore

record pipeline_component_config =
  plc_max_history_messages :: "usize option"
  plc_max_history_tokens :: "usize option"
  plc_enable_compaction_filter :: "bool option"

datatype 'e built_component =
    BuiltProvider provider_adapter http_config
  | BuiltStore memory_store
  | BuiltPipeline "'e context_pipeline"

datatype component_error = ComponentProvider string | ComponentStore string | ComponentContextError string

type_synonym client_builder = "http_config \<Rightarrow> string option"

text \<open>\<open><Adapter>::new\<close>: the only failure is that of the HTTP client.\<close>

definition adapter_new ::
  "client_builder \<Rightarrow> provider_adapter \<Rightarrow> http_config \<Rightarrow> provider_error + 'e built_component" where
  "adapter_new client a http =
     (case client http of
        Some m \<Rightarrow> Inl (Transport (hc_id http) m)
      | None \<Rightarrow> Inr (BuiltProvider a http))"

definition provider_component_init ::
  "client_builder \<Rightarrow> provider_adapter \<Rightarrow> provider_component_config \<Rightarrow> component_error + 'e built_component" where
  "provider_component_init client a cfg =
     map_sum (ComponentProvider \<circ> show_provider_error) id
       (adapter_new client a (into_provider_http_config cfg))"

definition store_component_init :: "memory_store \<Rightarrow> json \<Rightarrow> component_error + 'e built_component" where
  "store_component_init s cfg = Inr (BuiltStore s)"

definition configured_pipeline :: "pipeline_component_config \<Rightarrow> 'e context_pipeline" where
  "configured_pipeline c =
     (let p = context_pipeline_new;
          p = (case plc_max_history_messages c of Some v \<Rightarrow> with_max_history p v | None \<Rightarrow> p);
          p = (case plc_max_history_tokens c of Some v \<Rightarrow> with_max_history_tokens p v | None \<Rightarrow> p)
      in (case plc_enable_compaction_filter c of Some v \<Rightarrow> with_compaction_filter p v | None \<Rightarrow> p))"

definition pipeline_component_init :: "pipeline_component_config \<Rightarrow> component_error + 'e built_component" where
  "pipeline_component_init c = Inr (BuiltPipeline (configured_pipeline c))"

section \<open>The default registry\<close>

type_synonym 'c value_decoder = "json \<Rightarrow> string + 'c"

definition provider_invoker ::
  "provider_component_config value_decoder \<Rightarrow> client_builder \<Rightarrow> string \<Rightarrow> provider_adapter \<Rightarrow>
    ('x, 'e built_component) invoker" where
  "provider_invoker decode client kind a cfg ctx =
     (case decode cfg of
        Inl e \<Rightarrow> Inl (InvalidConfig kind e)
      | Inr v \<Rightarrow> map_sum (FactoryFailed kind \<circ> show_provider_error) id
          (adapter_new client a (into_provider_http_config v)))"

definition register_providers ::
  "provider_component_config value_decoder \<Rightarrow> client_builder \<Rightarrow>
    ('x, 'e built_component) factory_registry \<Rightarrow> ('x, 'e built_component) factory_registry" where
  "register_providers decode client reg =
     register_kind ''provider.anthropic.chat''
       (provider_invoker decode client ''provider.anthropic.chat'' AnthropicChat)
     (register_kind ''provider.openai.embedding''
       (provider_invoker decode client ''provider.openai.embedding'' OpenAiEmbedding)
     (register_kind ''provider.openai.chat''
       (provider_invoker decode client ''provider.openai.chat'' OpenAiChat) reg))"

definition store_invoker :: "memory_store \<Rightarrow> ('x, 'e built_component) invoker" where
  "store_invoker s cfg ctx = Inr (BuiltStore s)"

definition register_memory_stores ::
  "('x, 'e built_component) factory_registry \<Rightarrow> ('x, 'e built_component) factory_registry" where
  "register_memory_stores reg =
     register_kind ''store.artifact.memory'' (store_invoker ArtifactStore)
     (register_kind ''store.embedding.memory'' (store_invoker EmbeddingStore)
     (register_kind ''store.run.memory'' (store_invoker RunStore)
     (register_kind ''store.execution.memory'' (store_invoker ExecutionStore)
     (register_kind ''store.session.memory'' (store_invoker SessionStore) reg))))"

definition pipeline_invoker ::
  "pipeline_component_config value_decoder \<Rightarrow> ('x, 'e built_component) invoker" where
  "pipeline_invoker decode cfg ctx =
     (case decode cfg of
        Inl e \<Rightarrow> Inl (InvalidConfig ''context.pipeline'' e)
      | Inr v \<Rightarrow> Inr (BuiltPipeline (configured_pipeline v)))"

definition register_context_pipeline ::
  "pipeline_component_config value_decoder \<Rightarrow>
    ('x, 'e built_component) factory_registry \<Rightarrow> ('x, 'e built_component) factory_registry" where
  "register_context_pipeline decode reg = register_kind ''context.pipeline'' (pipeline_invoker decode) reg"

definition default_factory_registry ::
  "provider_component_config value_decoder \<Rightarrow> pipeline_component_config value_decoder \<Rightarrow>
    client_builder \<Rightarrow> ('x, 'e built_component) factory_registry" where
  "default_factory_registry decode decode_pipeline client =
     register_context_pipeline decode_pipeline
       (register_memory_stores (register_providers decode client factories_new))"

section \<open>Wrappers of existing providers\<close>

record 'p provider_wrapper =
  pw_name :: string
  pw_provider :: 'p

definition wrapper_init :: "json \<Rightarrow> string + 'p provider_wrapper" where
  "wrapper_init cfg = Inl ''provider wrapper error: wrapper components must be constructed via new()''"

definition wrapper_any :: "'p provider_wrapper \<Rightarrow> 'e any_component" where
  "wrapper_any w =
     \<lparr>ac_start = (\<lambda>e. (Inr (), e)), ac_stop = (\<lambda>e. (Inr (), e)), ac_health = (\<lambda>e. (Healthy None, e)),
      ac_pre_replace = (\<lambda>e. (Inr (), e)), ac_post_replace = (\<lambda>e. (Inr (), e))\<rparr>"

definition wrapper_descriptor :: "string \<Rightarrow> component_descriptor" where
  "wrapper_descriptor n = \<lparr>cd_name = n, cd_depends_on = [], cd_config = JObject []\<rparr>"

definition wrapper_factory :: "string \<Rightarrow> 'p \<Rightarrow> 'e component_factory" where
  "wrapper_factory n p config e = (Inr (wrapper_any \<lparr>pw_name = n, pw_provider = p\<rparr>), e)"

section \<open>What is built\<close>

definition default_kinds :: "string list" where
  "default_kinds =
     [''provider.openai.chat'', ''provider.openai.embedding'', ''provider.anthropic.chat'',
      ''store.session.memory'', ''store.execution.memory'', ''store.run.memory'',
      ''store.embedding.memory'', ''store.artifact.memory'', ''context.pipeline'']"

lemma default_kinds_registered:
  "factory_kinds (default_factory_registry d dp client) = default_kinds"
  by (simp add: default_factory_registry_def register_context_pipeline_def register_memory_stores_def
      register_providers_def register_kind_def factories_new_def factory_kinds_def default_kinds_def)

lemma invoke_registered [simp]:
  "invoke_factory (register_kind k f reg) n cfg ctx =
     (if n = k then f cfg ctx else invoke_factory reg n cfg ctx)"
  by (simp add: invoke_factory_def register_kind_def update_conv')

lemma invoke_none [simp]: "invoke_factory factories_new n cfg ctx = Inl (UnknownKind n)"
  by (simp add: invoke_factory_def factories_new_def)

lemma http_config_of_component:
  "hc_id (into_provider_http_config c) = pcc_id c"
  "hc_base_url (into_provider_http_config c) = pcc_base_url c"
  "hc_api_key (into_provider_http_config c) = pcc_api_key c"
  by (simp_all add: into_provider_http_config_def with_max_retries_def with_timeouts_def
      with_organization_def with_api_key_def http_config_new_def Let_def split: option.splits)

lemma adapter_new_cases:
  "adapter_new client a http = Inr b \<longleftrightarrow> client http = None \<and> b = BuiltProvider a http"
  by (auto simp: adapter_new_def split: option.splits)

definition adapter_kind :: "provider_adapter \<Rightarrow> string" where
  "adapter_kind a =
     (case a of OpenAiChat \<Rightarrow> ''provider.openai.chat'' | OpenAiEmbedding \<Rightarrow> ''provider.openai.embedding''
      | AnthropicChat \<Rightarrow> ''provider.anthropic.chat'')"

lemma invoke_adapter:
  "invoke_factory (default_factory_registry d dp client) (adapter_kind a) cfg ctx =
     provider_invoker d client (adapter_kind a) a cfg ctx"
  by (cases a) (simp_all add: default_factory_registry_def register_context_pipeline_def
      register_memory_stores_def register_providers_def adapter_kind_def)

text \<open>Providers built from configuration. A provider kind yields its own adapter, with the configured
  address and key and the default timeouts where none is given, exactly when the configuration
  decodes and a client can be built; otherwise the error names that kind. A kind that nothing
  registered is an error of its own.\<close>

theorem factory_builds_configured_provider:
  "(case invoke_factory (default_factory_registry d dp client) (adapter_kind a) cfg ctx of
      Inr b \<Rightarrow> \<exists>c http. d cfg = Inr c \<and> b = BuiltProvider a http \<and> client http = None \<and>
        hc_base_url http = pcc_base_url c \<and> hc_api_key http = pcc_api_key c \<and>
        hc_timeout http = secs_or (from_secs 60) (pcc_timeout_secs c)
    | Inl (InvalidConfig k m) \<Rightarrow> k = adapter_kind a \<and> d cfg = Inl m
    | Inl (FactoryFailed k m) \<Rightarrow> k = adapter_kind a \<and> (\<exists>c. d cfg = Inr c)
    | Inl (UnknownKind k) \<Rightarrow> False)"
proof -
  have t: "hc_timeout (into_provider_http_config c) = secs_or (from_secs 60) (pcc_timeout_secs c)" for c
    by (simp add: into_provider_http_config_def with_max_retries_def with_timeouts_def Let_def)
  show ?thesis unfolding invoke_adapter
    by (auto simp: provider_invoker_def adapter_new_def http_config_of_component t
        split: sum.splits option.splits)
qed

lemma unknown_kind_reported:
  "kind \<notin> set default_kinds \<Longrightarrow>
    invoke_factory (default_factory_registry d dp client) kind cfg ctx = Inl (UnknownKind kind)"
  by (simp add: default_kinds_def default_factory_registry_def register_context_pipeline_def
      register_memory_stores_def register_providers_def)

text \<open>The typed component and the factory of a kind build the same; a wrapper always builds.\<close>

lemma init_agrees_with_factory:
  "d cfg = Inr c \<Longrightarrow> provider_component_init client a c = Inr b \<longleftrightarrow>
    provider_invoker d client (adapter_kind a) a cfg ctx = Inr b"
  by (auto simp: provider_component_init_def provider_invoker_def adapter_new_def split: option.splits)

lemma wrapper_factory_builds: "\<exists>c. wrapper_factory n p config e = (Inr c, e)"
  by (simp add: wrapper_factory_def)

end
