(* ===== verification/Extension_Point.thy ===== *)
theory Extension_Point
  imports Behest_Prelude "HOL-Library.AList" "HOL-Library.Multiset" "HOL-Library.List_Lexorder"
    "HOL-Library.Char_ord"
begin

text \<open>
  Extension points (\<open>behest-runtime/src/extension.rs\<close>, \<open>extensions.rs\<close>). An \<open>Arc\<close> is an address; how
  many handles to it are held outside the map is part of the state, since \<open>unregister\<close> decides by
  \<open>Arc::strong_count\<close>. An operation that holds the lock is one step; \<open>unregister\<close> is two, with the
  lock free in between. Locks are never poisoned.
\<close>

datatype extension_error =
    AlreadyRegistered string
  | ExtNotFound string
  | InUse string nat
  | LockPoisoned

type_synonym arc = nat

record extension_point =
  ep_entries :: "(string \<times> arc) list"
  ep_handles :: "arc \<Rightarrow> nat"

definition point_new :: "(arc \<Rightarrow> nat) \<Rightarrow> extension_point" where
  "point_new h = \<lparr>ep_entries = [], ep_handles = h\<rparr>"

definition take_handle :: "arc \<Rightarrow> extension_point \<Rightarrow> extension_point" where
  "take_handle a p = p\<lparr>ep_handles := (ep_handles p)(a := Suc (ep_handles p a))\<rparr>"

definition drop_handle :: "arc \<Rightarrow> extension_point \<Rightarrow> extension_point" where
  "drop_handle a p = p\<lparr>ep_handles := (ep_handles p)(a := ep_handles p a - 1)\<rparr>"

definition strong_count :: "extension_point \<Rightarrow> arc \<Rightarrow> nat" where
  "strong_count p a = count (mset (map snd (ep_entries p))) a + ep_handles p a"

definition point_len :: "extension_point \<Rightarrow> nat" where
  "point_len p = length (ep_entries p)"

definition point_is_empty :: "extension_point \<Rightarrow> bool" where
  "point_is_empty p \<longleftrightarrow> point_len p = 0"

definition point_names :: "extension_point \<Rightarrow> string list" where
  "point_names p = sort (map fst (ep_entries p))"

definition point_snapshot :: "extension_point \<Rightarrow> (string \<times> arc) list \<times> extension_point" where
  "point_snapshot p = (sort_key fst (ep_entries p), fold take_handle (map snd (ep_entries p)) p)"

text \<open>The new \<open>Arc\<close> is moved into the call: into the map, or dropped with the error.\<close>

definition point_register ::
  "string \<Rightarrow> arc \<Rightarrow> extension_point \<Rightarrow> (extension_error + unit) \<times> extension_point" where
  "point_register n a p =
     (if map_of (ep_entries p) n \<noteq> None then (Inl (AlreadyRegistered n), drop_handle a p)
      else (Inr (), (drop_handle a p)\<lparr>ep_entries := AList.update n a (ep_entries p)\<rparr>))"

definition register_or_replace :: "string \<Rightarrow> arc \<Rightarrow> extension_point \<Rightarrow> arc option \<times> extension_point" where
  "register_or_replace n a p =
     (let p' = (drop_handle a p)\<lparr>ep_entries := AList.update n a (ep_entries p)\<rparr> in
      case map_of (ep_entries p) n of
        None \<Rightarrow> (None, p')
      | Some old \<Rightarrow> (Some old, take_handle old p'))"

definition check_unregister :: "string \<Rightarrow> extension_point \<Rightarrow> extension_error option" where
  "check_unregister n p =
     (case map_of (ep_entries p) n of
        None \<Rightarrow> None
      | Some a \<Rightarrow> if 1 < strong_count p a then Some (InUse n (strong_count p a)) else None)"

definition remove_entry :: "string \<Rightarrow> extension_point \<Rightarrow> arc option \<times> extension_point" where
  "remove_entry n p =
     (case map_of (ep_entries p) n of
        None \<Rightarrow> (None, p)
      | Some a \<Rightarrow> (Some a, take_handle a (p\<lparr>ep_entries := AList.delete n (ep_entries p)\<rparr>)))"

definition point_unregister ::
  "string \<Rightarrow> extension_point \<Rightarrow> (extension_error + arc option) \<times> extension_point" where
  "point_unregister n p =
     (case check_unregister n p of
        Some e \<Rightarrow> (Inl e, p)
      | None \<Rightarrow> (case remove_entry n p of (a, p') \<Rightarrow> (Inr a, p')))"

definition point_replace ::
  "string \<Rightarrow> arc \<Rightarrow> extension_point \<Rightarrow> (extension_error + arc) \<times> extension_point" where
  "point_replace n a p =
     (case map_of (ep_entries p) n of
        None \<Rightarrow> (Inl (ExtNotFound n), drop_handle a p)
      | Some old \<Rightarrow>
          (Inr old, take_handle old ((drop_handle a p)
             \<lparr>ep_entries := AList.update n a (AList.delete n (ep_entries p))\<rparr>)))"

definition point_get :: "string \<Rightarrow> extension_point \<Rightarrow> arc option \<times> extension_point" where
  "point_get n p =
     (case map_of (ep_entries p) n of None \<Rightarrow> (None, p) | Some a \<Rightarrow> (Some a, take_handle a p))"

definition point_get_required ::
  "string \<Rightarrow> extension_point \<Rightarrow> (extension_error + arc) \<times> extension_point" where
  "point_get_required n p =
     (case point_get n p of (Some a, p') \<Rightarrow> (Inr a, p') | (None, p') \<Rightarrow> (Inl (ExtNotFound n), p'))"

definition point_contains :: "extension_point \<Rightarrow> string \<Rightarrow> bool" where
  "point_contains p n \<longleftrightarrow> map_of (ep_entries p) n \<noteq> None"

text \<open>The extension points of a runtime, by category; those that hold something are counted.\<close>

definition extension_categories :: "string list" where
  "extension_categories =
     [''chat_providers'', ''embedding_providers'', ''tools'', ''context_adapters'', ''session_stores'',
      ''execution_stores'', ''embedding_stores'', ''artifact_stores'', ''run_stores'',
      ''event_publishers'', ''session_data_stores'', ''runtime_event_stores'', ''snapshot_stores'']"

definition populated_categories :: "(string \<Rightarrow> extension_point) \<Rightarrow> nat" where
  "populated_categories x = length (filter (\<lambda>c. \<not> point_is_empty (x c)) extension_categories)"

section \<open>References\<close>

definition point_inv :: "extension_point \<Rightarrow> bool" where
  "point_inv p \<longleftrightarrow> distinct (map fst (ep_entries p))"

lemma simps_handles [simp]:
  "ep_entries (take_handle a p) = ep_entries p" "ep_entries (drop_handle a p) = ep_entries p"
  "ep_handles (take_handle a p) b = (if b = a then Suc (ep_handles p a) else ep_handles p b)"
  "ep_handles (drop_handle a p) b = (if b = a then ep_handles p a - 1 else ep_handles p b)"
  by (simp_all add: take_handle_def drop_handle_def)

lemma point_inv_ops:
  assumes "point_inv p"
  shows "point_inv (snd (point_register n a p))" "point_inv (snd (register_or_replace n a p))"
    "point_inv (snd (point_unregister n p))" "point_inv (snd (point_replace n a p))"
    "point_inv (snd (point_get n p))"
  using assms by (auto simp: point_inv_def point_register_def register_or_replace_def
      point_unregister_def remove_entry_def point_replace_def point_get_def distinct_update
      distinct_delete Let_def split: option.splits prod.splits)

text \<open>How many entries hold an address.\<close>

definition held :: "extension_point \<Rightarrow> arc \<Rightarrow> nat" where
  "held p a = count (mset (map snd (ep_entries p))) a"

lemma held_Cons: "count (mset (map snd ((n, b) # xs))) a = (if b = a then 1 else 0) + count (mset (map snd xs)) a"
  by simp

lemma count_delete:
  assumes "distinct (map fst xs)" and "map_of xs n = Some b"
  shows "count (mset (map snd xs)) a =
    count (mset (map snd (AList.delete n xs))) a + (if b = a then 1 else 0)"
  using assms
proof (induction xs)
  case (Cons x xs)
  show ?case
  proof (cases "fst x = n")
    case True
    then have "n \<notin> dom (map_of xs)" using Cons.prems(1) by (auto simp: dom_map_of_conv_image_fst)
    then have "AList.delete n xs = xs" by (simp add: delete_id dom_map_of_conv_image_fst)
    with True Cons.prems show ?thesis by (cases x) auto
  qed (use Cons in \<open>cases x; auto\<close>)
qed simp

lemma remove_entry_count:
  assumes "point_inv p" and "remove_entry n p = (Some b, p')"
  shows "strong_count p' a = strong_count p a"
  using assms count_delete [of "ep_entries p" n b a]
  by (auto simp: remove_entry_def strong_count_def point_inv_def split: option.splits)

lemma remove_entry_gone:
  "remove_entry n p = (r, p') \<Longrightarrow> map_of (ep_entries p') n = None"
  by (auto simp: remove_entry_def delete_conv' split: option.splits)

text \<open>Unregistering is refused exactly while someone else holds the extension, and otherwise hands over
  the only reference: the entry is gone and the returned handle is the last one.\<close>

theorem unregister_hands_over_sole_reference:
  assumes "point_inv p" and "map_of (ep_entries p) n = Some a"
  shows "(case point_unregister n p of
      (Inl e, p') \<Rightarrow> p' = p \<and> e = InUse n (strong_count p a) \<and> 1 < strong_count p a
    | (Inr r, p') \<Rightarrow> r = Some a \<and> map_of (ep_entries p') n = None \<and> strong_count p' a = 1 \<and>
        ep_handles p' a = 1)"
proof (cases "1 < strong_count p a")
  case False
  have pos: "0 < count (mset (map snd (ep_entries p))) a"
    using map_of_SomeD [OF assms(2)] by (force simp: image_iff)
  obtain p' where r: "remove_entry n p = (Some a, p')"
    using assms(2) by (simp add: remove_entry_def)
  have h: "ep_handles p' a = Suc (ep_handles p a)"
    using r assms(2) by (auto simp: remove_entry_def)
  have "strong_count p' a = strong_count p a" by (rule remove_entry_count [OF assms(1) r])
  moreover have "strong_count p a = 1" "ep_handles p a = 0"
    using False pos unfolding strong_count_def by linarith+
  ultimately show ?thesis using False assms(2) r h remove_entry_gone [OF r]
    by (simp add: point_unregister_def check_unregister_def)
qed (use assms in \<open>simp add: point_unregister_def check_unregister_def\<close>)

theorem unregister_hands_over_sole_reference_witness:
  "let p = \<lparr>ep_entries = [(''db'', 7)], ep_handles = (\<lambda>_. 0)\<rparr> in
   fst (point_unregister ''db'' p) = Inr (Some 7) \<and>
   fst (point_unregister ''db'' (snd (point_get ''db'' p))) = Inl (InUse ''db'' 2)"
proof -
  let ?p = "\<lparr>ep_entries = [(''db'', 7)], ep_handles = (\<lambda>_. 0)\<rparr>"
  have i: "point_inv ?p" "point_inv (snd (point_get ''db'' ?p))"
    by (simp_all add: point_inv_def point_get_def)
  have m: "map_of (ep_entries ?p) ''db'' = Some 7" "map_of (ep_entries (snd (point_get ''db'' ?p))) ''db'' = Some 7"
    by (simp_all add: point_get_def)
  have c: "strong_count ?p 7 = 1" "strong_count (snd (point_get ''db'' ?p)) 7 = 2"
    by (simp_all add: strong_count_def point_get_def)
  show ?thesis
    using unregister_hands_over_sole_reference [OF i(1) m(1)]
      unregister_hands_over_sole_reference [OF i(2) m(2)] c
    by (auto simp: Let_def split: prod.splits sum.splits)
       (auto simp: point_unregister_def check_unregister_def m c split: prod.splits)
qed

text \<open>The lock is free between the check and the removal: a \<open>get\<close> there makes the removal take an
  extension that is in use.\<close>

lemma unregister_races_with_get:
  "let p = \<lparr>ep_entries = [(''db'', 7)], ep_handles = (\<lambda>_. 0)\<rparr>;
       (got, p1) = point_get ''db'' p;
       (removed, p2) = remove_entry ''db'' p1
   in check_unregister ''db'' p = None \<and> got = Some 7 \<and> removed = Some 7 \<and> strong_count p2 7 = 2"
  by (simp add: check_unregister_def point_get_def remove_entry_def strong_count_def)

text \<open>Registering, replacing and looking up.\<close>

lemma get_after:
  "fst (point_get m (snd (point_register n a p))) =
     (if m = n \<and> map_of (ep_entries p) n = None then Some a else map_of (ep_entries p) m)"
  "fst (point_get m (snd (register_or_replace n a p))) = (if m = n then Some a else map_of (ep_entries p) m)"
  by (auto simp: point_get_def point_register_def register_or_replace_def update_conv' Let_def
      split: option.splits)

lemma replace_keeps_names:
  assumes "point_inv p" and "point_replace n a p = (Inr old, p')"
  shows "set (map fst (ep_entries p')) = set (map fst (ep_entries p)) \<and>
    map_of (ep_entries p') n = Some a \<and> map_of (ep_entries p) n = Some old"
  using assms
  by (auto simp: point_replace_def update_conv' delete_conv' simp flip: dom_map_of_conv_image_fst
      split: option.splits if_splits)

end
