(* ===== verification/Run_Contexts.thy ===== *)
theory Run_Contexts
  imports Run_Machine Core_Errors Rust_Str "HOL-Library.AList"
begin

text \<open>
  The contexts handed to tools, hooks and memory (\<open>behest-context/src/lib.rs\<close>, \<open>impls.rs\<close>). A context
  that embeds another is a record with that one as a field, and its methods forward to it. The
  watch channel of an \<open>EventSink\<close> is its last value, a version and its receivers; a receiver
  remembers the version it has seen.
\<close>

section \<open>Session state and budget\<close>

type_synonym session_state = "(string \<times> json) list"

definition session_state_new :: session_state where
  "session_state_new = []"

definition session_set :: "string \<Rightarrow> json \<Rightarrow> session_state \<Rightarrow> session_state" where
  "session_set k v s = AList.update k v s"

definition session_get :: "string \<Rightarrow> session_state \<Rightarrow> json option" where
  "session_get k s = map_of s k"

definition session_remove :: "string \<Rightarrow> session_state \<Rightarrow> json option \<times> session_state" where
  "session_remove k s = (map_of s k, AList.delete k s)"

text \<open>\<open>usize\<close> has 64 bits; the sum wraps in a release build.\<close>

record run_budget =
  rb_max_tokens :: "nat option"
  rb_used_tokens :: nat

definition run_budget_new :: "nat option \<Rightarrow> run_budget" where
  "run_budget_new m = \<lparr>rb_max_tokens = m, rb_used_tokens = 0\<rparr>"

definition budget_consume :: "nat \<Rightarrow> run_budget \<Rightarrow> run_budget" where
  "budget_consume t b = b\<lparr>rb_used_tokens := (rb_used_tokens b + t) mod 2 ^ 64\<rparr>"

definition budget_remaining :: "run_budget \<Rightarrow> nat option" where
  "budget_remaining b = map_option (\<lambda>m. saturating_sub m (rb_used_tokens b)) (rb_max_tokens b)"

section \<open>Event sink\<close>

record event_sink =
  sink_value :: "json option"
  sink_version :: nat
  sink_receivers :: "(nat \<times> nat) list"

definition sink_new :: event_sink where
  "sink_new = \<lparr>sink_value = None, sink_version = 0, sink_receivers = []\<rparr>"

definition sink_emit :: "json \<Rightarrow> event_sink \<Rightarrow> nat \<times> event_sink" where
  "sink_emit v s =
     (length (sink_receivers s), s\<lparr>sink_value := Some v, sink_version := Suc (sink_version s)\<rparr>)"

definition sink_subscribe :: "nat \<Rightarrow> event_sink \<Rightarrow> event_sink" where
  "sink_subscribe r s = s\<lparr>sink_receivers := AList.update r (sink_version s) (sink_receivers s)\<rparr>"

text \<open>What a receiver finds when it next looks: the last value, if it has not seen it.\<close>

definition sink_poll :: "nat \<Rightarrow> event_sink \<Rightarrow> json option \<times> event_sink" where
  "sink_poll r s =
     (case map_of (sink_receivers s) r of
        None \<Rightarrow> (None, s)
      | Some seen \<Rightarrow>
          if seen = sink_version s then (None, s)
          else (sink_value s, s\<lparr>sink_receivers := AList.update r (sink_version s) (sink_receivers s)\<rparr>))"

section \<open>Contexts\<close>

record app_context =
  app_invocation_id :: string
  app_session_id :: string
  app_user_id :: string
  app_name :: string

record session_context =
  sc_app :: app_context
  sc_state :: session_state

record run_context =
  rc_session :: session_context
  rc_run_id :: run_id
  rc_cancelled :: bool
  rc_deadline :: "timestamp option"
  rc_sink :: event_sink
  rc_budget :: run_budget

record tool_context =
  tc_run :: run_context
  tc_tool_call :: tool_call

definition emit_progress :: "string \<Rightarrow> json \<Rightarrow> tool_context \<Rightarrow> tool_context" where
  "emit_progress status data c =
     c\<lparr>tc_run := (tc_run c)\<lparr>rc_sink := snd (sink_emit
       (JObject [(''type'', JString ''tool_progress''), (''call_id'', JString (tc_id (tc_tool_call c))),
         (''tool_name'', JString (tc_name (tc_tool_call c))), (''status'', JString status), (''data'', data)])
       (rc_sink (tc_run c)))\<rparr>\<rparr>"

definition search_memory :: "string \<Rightarrow> nat \<Rightarrow> tool_context \<Rightarrow> 'm list" where
  "search_memory query limit c = []"

record memory_context =
  mc_session :: session_context
  mc_window :: "message list"

text \<open>\<open>demote\<close> writes to a clone of the session state; \<open>encode\<close> is \<open>serde_json::to_value\<close>. The result is
  the answer, the state that was written and the context, which keeps its own.\<close>

definition memory_demote ::
  "(message list \<Rightarrow> string + json) \<Rightarrow> nat \<Rightarrow> message list \<Rightarrow> memory_context \<Rightarrow>
    (string + unit) \<times> session_state \<times> memory_context" where
  "memory_demote encode now messages c =
     (let state = sc_state (mc_session c) in
      if messages = [] then (Inr (), state, c)
      else case encode messages of
        Inl e \<Rightarrow> (Inl e, state, c)
      | Inr v \<Rightarrow> (Inr (), session_set (''memory:demoted:'' @ show_nat now) v state, c))"

definition memory_compact :: "message list \<Rightarrow> memory_context \<Rightarrow> string + string" where
  "memory_compact messages c = Inr []"

record hook_context =
  hk_app :: app_context
  hk_state :: run_state
  hk_run_id :: run_id
  hk_iteration :: nat
  hk_tokens_used :: nat

record run_snapshot =
  sn_state :: run_state
  sn_run_id :: run_id
  sn_session_id :: string
  sn_iteration :: nat
  sn_tokens_used :: nat

definition hook_snapshot :: "hook_context \<Rightarrow> run_snapshot" where
  "hook_snapshot h =
     \<lparr>sn_state = hk_state h, sn_run_id = hk_run_id h, sn_session_id = app_session_id (hk_app h),
      sn_iteration = hk_iteration h, sn_tokens_used = hk_tokens_used h\<rparr>"

section \<open>What they keep\<close>

lemma consume_all:
  "rb_used_tokens b + sum_list ts < 2 ^ 64 \<Longrightarrow>
    rb_used_tokens (fold budget_consume ts b) = rb_used_tokens b + sum_list ts \<and>
    rb_max_tokens (fold budget_consume ts b) = rb_max_tokens b"
  by (induction ts arbitrary: b) (auto simp: budget_consume_def)

text \<open>What is left of a budget is its limit less all that was consumed, never below zero, and no limit stays
  no limit, as long as the consumption counts below \<open>2^64\<close>.\<close>

lemma budget_accounts:
  assumes "sum_list ts < 2 ^ 64"
  shows "budget_remaining (fold budget_consume ts (run_budget_new m)) = map_option (\<lambda>m. m - sum_list ts) m"
  using consume_all [of "run_budget_new m" ts] assms
  by (simp add: budget_remaining_def run_budget_new_def saturating_sub_def)

text \<open>A receiver that looks after several events sees the last one only, and then nothing.\<close>

lemma version_emits:
  "sink_version (fold (\<lambda>v s. snd (sink_emit v s)) vs s) = sink_version s + length vs"
  "sink_receivers (fold (\<lambda>v s. snd (sink_emit v s)) vs s) = sink_receivers s"
  "vs \<noteq> [] \<Longrightarrow> sink_value (fold (\<lambda>v s. snd (sink_emit v s)) vs s) = Some (last vs)"
  by (induction vs arbitrary: s) (auto simp: sink_emit_def)

lemma receiver_sees_last:
  assumes "vs \<noteq> []"
  shows "fst (sink_poll r (fold (\<lambda>v s. snd (sink_emit v s)) vs (sink_subscribe r s))) = Some (last vs) \<and>
    fst (sink_poll r (snd (sink_poll r (fold (\<lambda>v s. snd (sink_emit v s)) vs (sink_subscribe r s))))) = None"
proof -
  let ?s = "fold (\<lambda>v s. snd (sink_emit v s)) vs (sink_subscribe r s)"
  have r: "map_of (sink_receivers ?s) r = Some (sink_version s)" "sink_version ?s \<noteq> sink_version s"
    using assms by (simp_all add: version_emits sink_subscribe_def update_conv')
  moreover have "sink_value ?s = Some (last vs)" by (rule version_emits(3) [OF assms])
  ultimately show ?thesis by (simp add: sink_poll_def update_conv')
qed

text \<open>Demotion answers that it stored the messages, and leaves the session state as it was: what was
  written is dropped with the clone.\<close>

lemma demoted_messages_lost:
  assumes "encode ms = Inr v" and "ms \<noteq> []"
  shows "fst (memory_demote encode now ms c) = Inr () \<and>
    session_get (''memory:demoted:'' @ show_nat now) (fst (snd (memory_demote encode now ms c))) = Some v \<and>
    snd (snd (memory_demote encode now ms c)) = c"
  using assms by (simp add: memory_demote_def session_get_def session_set_def update_conv' Let_def)

end
