(* ===== verification/Config_Loader.thy ===== *)
theory Config_Loader
  imports Core_Types Rust_Str "HOL-Library.AList"
begin

text \<open>
  Layering configuration (\<open>behest/src/config/loader.rs\<close>): the merge of JSON layers and the
  substitution of placeholders. \<open>env\<close> is \<open>std::env::var\<close>; reading files and collecting variables is
  the \<open>config\<close> crate's, a parameter where it is used. The keys of a JSON object are distinct.
\<close>

section \<open>Merging\<close>

fun merge_json :: "json \<Rightarrow> json \<Rightarrow> json"
  and merge_fields :: "(string \<times> json) list \<Rightarrow> (string \<times> json) list \<Rightarrow> (string \<times> json) list" where
  "merge_json (JObject base) (JObject overlay) = JObject (merge_fields base overlay)"
| "merge_json base overlay = overlay"
| "merge_fields base [] = base"
| "merge_fields base ((k, v) # overlay) =
     merge_fields (AList.update k
       (case map_of base k of Some b \<Rightarrow> merge_json b v | None \<Rightarrow> v) base) overlay"

section \<open>Placeholders\<close>

type_synonym environment = "string \<Rightarrow> string option"

definition placeholder_value :: "environment \<Rightarrow> string \<Rightarrow> string" where
  "placeholder_value env placeholder =
     (case str_find '':-'' placeholder of
        Some pos \<Rightarrow>
          (case env (take pos placeholder) of Some v \<Rightarrow> v | None \<Rightarrow> drop (pos + 2) placeholder)
      | None \<Rightarrow> (case env placeholder of Some v \<Rightarrow> v | None \<Rightarrow> []))"

text \<open>What follows \<open>${\<close>: the placeholder and the rest when it is closed.\<close>

fun until_brace :: "string \<Rightarrow> (string \<times> string) option" where
  "until_brace [] = None"
| "until_brace (c # cs) =
     (if c = CHR ''}'' then Some ([], cs)
      else map_option (\<lambda>(p, rest). (c # p, rest)) (until_brace cs))"

lemma until_brace_shorter: "until_brace s = Some (p, rest) \<Longrightarrow> length rest < length s"
proof (induction s arbitrary: p rest)
  case (Cons c cs)
  then show ?case by (fastforce split: if_splits)
qed simp

function substitute_string :: "environment \<Rightarrow> string \<Rightarrow> string" where
  "substitute_string env [] = []"
| "substitute_string env (c # cs) =
     (if c = CHR ''$'' \<and> cs \<noteq> [] \<and> hd cs = CHR ''{'' then
        (case until_brace (tl cs) of
           Some (p, rest) \<Rightarrow> placeholder_value env p @ substitute_string env rest
         | None \<Rightarrow> c # cs)
      else c # substitute_string env cs)"
  by pat_completeness auto
termination
  by (relation "measure (\<lambda>(env, s). length s)")
    (auto dest!: until_brace_shorter simp: less_Suc_eq_le)

fun substitute_json :: "environment \<Rightarrow> json \<Rightarrow> json" where
  "substitute_json env (JString s) = JString (substitute_string env s)"
| "substitute_json env (JObject fs) = JObject (map (\<lambda>(k, v). (k, substitute_json env v)) fs)"
| "substitute_json env (JArray vs) = JArray (map (substitute_json env) vs)"
| "substitute_json env v = v"

section \<open>Loaders\<close>

record config_loader =
  ld_files :: "string list"
  ld_env_prefixes :: "string list"

definition loader_new :: config_loader where
  "loader_new = \<lparr>ld_files = [], ld_env_prefixes = []\<rparr>"

definition loader_with_file :: "string \<Rightarrow> config_loader \<Rightarrow> config_loader" where
  "loader_with_file f l = l\<lparr>ld_files := ld_files l @ [f]\<rparr>"

definition loader_with_env :: "string \<Rightarrow> config_loader \<Rightarrow> config_loader" where
  "loader_with_env p l = l\<lparr>ld_env_prefixes := ld_env_prefixes l @ [p]\<rparr>"

text \<open>\<open>sources\<close> is what the \<open>config\<close> crate makes of the files and prefixes, \<open>decode\<close> reads the
  target type.\<close>

definition loader_load ::
  "(string list \<Rightarrow> string list \<Rightarrow> string + json) \<Rightarrow> environment \<Rightarrow> (json \<Rightarrow> string + 'c) \<Rightarrow>
    config_loader \<Rightarrow> string + 'c" where
  "loader_load sources env decode l =
     (case sources (ld_files l) (ld_env_prefixes l) of
        Inl e \<Rightarrow> Inl (''failed to build config: '' @ e)
      | Inr v \<Rightarrow>
          (case decode (substitute_json env v) of
             Inl e \<Rightarrow> Inl (''failed to parse final config: '' @ e)
           | Inr c \<Rightarrow> Inr c))"

definition load_layered ::
  "(string list \<Rightarrow> string list \<Rightarrow> string + json) \<Rightarrow> environment \<Rightarrow> (json \<Rightarrow> string + 'c) \<Rightarrow>
    string option \<Rightarrow> string option \<Rightarrow> string + 'c" where
  "load_layered sources env decode file prefix =
     (let l = loader_new;
          l = (case file of Some f \<Rightarrow> loader_with_file f l | None \<Rightarrow> l);
          l = (case prefix of Some p \<Rightarrow> loader_with_env p l | None \<Rightarrow> l)
      in loader_load sources env decode l)"

section \<open>What a merge keeps\<close>

fun json_at :: "json \<Rightarrow> string list \<Rightarrow> json option" where
  "json_at v [] = Some v"
| "json_at (JObject fs) (k # ks) = (case map_of fs k of None \<Rightarrow> None | Some v \<Rightarrow> json_at v ks)"
| "json_at _ (_ # _) = None"

fun is_object :: "json \<Rightarrow> bool" where
  "is_object (JObject _) = True"
| "is_object _ = False"

fun distinct_keys :: "json \<Rightarrow> bool" where
  "distinct_keys (JObject fs) \<longleftrightarrow> distinct (map fst fs) \<and> list_all (\<lambda>(k, v). distinct_keys v) fs"
| "distinct_keys (JArray vs) \<longleftrightarrow> list_all distinct_keys vs"
| "distinct_keys _ \<longleftrightarrow> True"

text \<open>A layer is silent about a path when it is an object along a prefix of it and does not have the
  next key.\<close>

fun silent :: "json \<Rightarrow> string list \<Rightarrow> bool" where
  "silent (JObject fs) (k # ks) = (case map_of fs k of None \<Rightarrow> True | Some v \<Rightarrow> silent v ks)"
| "silent _ _ = False"

lemma merge_fields_lookup:
  "distinct (map fst ov) \<Longrightarrow> map_of (merge_fields base ov) k =
     (case map_of ov k of
        None \<Rightarrow> map_of base k
      | Some v \<Rightarrow> Some (case map_of base k of Some b \<Rightarrow> merge_json b v | None \<Rightarrow> v))"
proof (induction ov arbitrary: base)
  case (Cons kv ov)
  obtain k' v where kv: "kv = (k', v)" by fastforce
  have "map_of ov k' = None" using Cons.prems by (simp add: kv map_of_eq_None_iff)
  with Cons show ?case by (auto simp: kv update_conv' split: option.splits)
qed simp

lemma merge_json_overlay: "\<not> is_object o' \<or> \<not> is_object b \<Longrightarrow> merge_json b o' = o'"
  by (cases b; cases o') auto

lemma merged_leaf:
  "json_at ov p = Some v \<Longrightarrow> \<not> is_object v \<Longrightarrow> distinct_keys ov \<Longrightarrow>
    json_at (merge_json base ov) p = Some v"
proof (induction p arbitrary: ov base)
  case Nil
  then show ?case by (simp add: merge_json_overlay)
next
  case (Cons k ks)
  then obtain fs w where ov: "ov = JObject fs" "map_of fs k = Some w" "json_at w ks = Some v"
    by (cases ov) (auto split: option.splits)
  have d: "distinct (map fst fs)" "distinct_keys w"
    using Cons.prems(3) ov by (auto simp: list_all_iff dest: map_of_SomeD)
  show ?case
  proof (cases base)
    case (JObject bs)
    show ?thesis
    proof (cases "map_of bs k")
      case (Some b)
      then show ?thesis using Cons.IH [OF ov(3) Cons.prems(2) d(2), of b] ov(2)
        by (simp add: ov(1) JObject merge_fields_lookup [OF d(1)])
    qed (use ov in \<open>simp add: JObject merge_fields_lookup [OF d(1)]\<close>)
  qed (use ov in simp_all)
qed

lemma merged_silent:
  "silent ov p \<Longrightarrow> json_at base p = Some v \<Longrightarrow> distinct_keys ov \<Longrightarrow>
    json_at (merge_json base ov) p = Some v"
proof (induction p arbitrary: ov base)
  case (Cons k ks)
  then obtain fs where ov: "ov = JObject fs" by (cases ov) auto
  from Cons.prems(2) obtain bs c where b: "base = JObject bs" "map_of bs k = Some c" "json_at c ks = Some v"
    by (cases base) (auto split: option.splits)
  have d: "distinct (map fst fs)" using Cons.prems(3) ov by simp
  show ?case
  proof (cases "map_of fs k")
    case (Some w)
    then have w: "silent w ks" "distinct_keys w"
      using Cons.prems(1,3) ov by (auto simp: list_all_iff dest: map_of_SomeD)
    show ?thesis using Cons.IH [OF w(1) b(3) w(2)] Some b
      by (simp add: ov merge_fields_lookup [OF d])
  qed (use b in \<open>simp add: ov merge_fields_lookup [OF d]\<close>)
qed simp

text \<open>What a configuration layer changes. A setting of the layer that is not itself an object is the
  setting of the merged configuration, wherever it stands; a setting the layer says nothing about
  is the one it was before.\<close>

theorem layer_overrides_exactly:
  assumes "distinct_keys layer"
  shows "(\<forall>v. json_at layer p = Some v \<and> \<not> is_object v \<longrightarrow> json_at (merge_json base layer) p = Some v) \<and>
    (\<forall>v. silent layer p \<and> json_at base p = Some v \<longrightarrow> json_at (merge_json base layer) p = Some v)"
  using merged_leaf merged_silent assms by blast

theorem layer_overrides_exactly_witness:
  "let base = JObject [(''runtime'', JObject [(''policy'', JNull), (''history'', JNumber ''50'')])];
       layer = JObject [(''runtime'', JObject [(''history'', JNumber ''9'')])]
   in json_at (merge_json base layer) [''runtime'', ''history''] = Some (JNumber ''9'') \<and>
      json_at (merge_json base layer) [''runtime'', ''policy''] = Some JNull"
proof -
  let ?layer = "JObject [(''runtime'', JObject [(''history'', JNumber ''9'')])]"
  have d: "distinct_keys ?layer" by simp
  show ?thesis unfolding Let_def
    using layer_overrides_exactly [OF d, of "[''runtime'', ''history'']"]
      layer_overrides_exactly [OF d, of "[''runtime'', ''policy'']"] by simp
qed

section \<open>What is substituted\<close>

definition plain :: "string \<Rightarrow> bool" where
  "plain s \<longleftrightarrow> CHR ''$'' \<notin> set s"

lemma substitute_plain: "plain s \<Longrightarrow> substitute_string env (s @ t) = s @ substitute_string env t"
  by (induction s) (auto simp: plain_def)

lemma until_brace_closed: "CHR ''}'' \<notin> set p \<Longrightarrow> until_brace (p @ CHR ''}'' # rest) = Some (p, rest)"
  by (induction p) auto

lemma str_find_none: "CHR '':'' \<notin> set s \<Longrightarrow> str_find '':-'' s = None"
  by (induction s) auto

lemma str_find_default: "CHR '':'' \<notin> set s \<Longrightarrow> str_find '':-'' (s @ '':-'' @ t) = Some (length s)"
  by (induction s) auto

text \<open>A placeholder becomes the value of its variable, or its default when the variable is not set, or
  nothing; the text before it is kept and the text after it is treated the same way.\<close>

theorem placeholder_substituted:
  assumes "plain pre" and "CHR '':'' \<notin> set name" and "CHR ''}'' \<notin> set name" and "CHR ''}'' \<notin> set d"
  shows "substitute_string env (pre @ ''${'' @ name @ ''}'' @ post) =
      pre @ (case env name of Some v \<Rightarrow> v | None \<Rightarrow> []) @ substitute_string env post \<and>
    substitute_string env (pre @ ''${'' @ name @ '':-'' @ d @ ''}'' @ post) =
      pre @ (case env name of Some v \<Rightarrow> v | None \<Rightarrow> d) @ substitute_string env post"
proof
  have "until_brace (name @ ''}'' @ post) = Some (name, post)"
    using until_brace_closed [OF assms(3), of post] by simp
  then show "substitute_string env (pre @ ''${'' @ name @ ''}'' @ post) =
      pre @ (case env name of Some v \<Rightarrow> v | None \<Rightarrow> []) @ substitute_string env post"
    using assms(2) by (simp add: substitute_plain [OF assms(1)] placeholder_value_def str_find_none)
  have "CHR ''}'' \<notin> set (name @ '':-'' @ d)" using assms(3,4) by simp
  from until_brace_closed [OF this, of post]
  have "until_brace (name @ '':-'' @ d @ ''}'' @ post) = Some (name @ '':-'' @ d, post)" by simp
  then show "substitute_string env (pre @ ''${'' @ name @ '':-'' @ d @ ''}'' @ post) =
      pre @ (case env name of Some v \<Rightarrow> v | None \<Rightarrow> d) @ substitute_string env post"
    using str_find_default [OF assms(2), of d]
    by (simp add: substitute_plain [OF assms(1)] placeholder_value_def split: option.split)
qed

theorem placeholder_substituted_witness:
  "substitute_string [''HOST'' \<mapsto> ''db''] (''pg://'' @ ''${'' @ ''HOST'' @ ''}'' @ '':1'') = ''pg://db:1'' \<and>
   substitute_string Map.empty (''pg://'' @ ''${'' @ ''HOST'' @ '':-'' @ ''local'' @ ''}'' @ '':1'') = ''pg://local:1''"
proof -
  have h: "plain ''pg://''" "CHR '':'' \<notin> set ''HOST''" "CHR ''}'' \<notin> set ''HOST''" "CHR ''}'' \<notin> set ''local''"
    by (simp_all add: plain_def)
  have e: "substitute_string env '':1'' = '':1''" for env by simp
  show ?thesis
    using placeholder_substituted [OF h, of "[''HOST'' \<mapsto> ''db'']" "'':1''"]
      placeholder_substituted [OF h, of Map.empty "'':1''"] by (simp only: e) simp
qed

text \<open>Substitution is not idempotent: a value that contains a placeholder is substituted again by the next
  pass over the same configuration.\<close>

lemma substitution_not_idempotent:
  "let env = [''A'' \<mapsto> ''${B}'', ''B'' \<mapsto> ''secret''] in
   substitute_string env ''${A}'' = ''${B}'' \<and>
   substitute_string env (substitute_string env ''${A}'') = ''secret''"
  by (simp add: placeholder_value_def)

end
