(* ===== verification/Agent_Config.thy ===== *)
theory Agent_Config
  imports Config_Loader Component_Factories Runtime_Policy
begin

text \<open>
  The configuration of an agent and what is built of it (\<open>behest/src/config\<close>: \<open>mod.rs\<close>,
  \<open>provider.rs\<close>, \<open>runtime.rs\<close>, \<open>store.rs\<close>, \<open>rag.rs\<close>, \<open>queue.rs\<close>, \<open>component.rs\<close>), with every
  cargo feature enabled. Parameters: \<open>serde_json\<close> on \<open>AgentConfig\<close>, the files and variables a source
  yields, and whether a backend can be connected to. Errors are the text in \<open>Error::Config\<close>; the
  hash map of providers is an association list.
\<close>

section \<open>Configuration\<close>

datatype provider_type = TypeOpenAi | TypeAnthropic

record provider_config =
  pv_type :: "provider_type option"
  pv_base_url :: string
  pv_model :: "model_name option"
  pv_models :: "model_name list"
  pv_compaction_model :: "model_name option"
  pv_api_key :: "string option"
  pv_organization :: "string option"
  pv_timeout_secs :: u64
  pv_connect_timeout_secs :: u64
  pv_max_retries :: nat

definition provider_config_new :: "string \<Rightarrow> provider_config" where
  "provider_config_new url =
     \<lparr>pv_type = None, pv_base_url = url, pv_model = None, pv_models = [], pv_compaction_model = None,
      pv_api_key = None, pv_organization = None, pv_timeout_secs = 60, pv_connect_timeout_secs = 10,
      pv_max_retries = 2\<rparr>"

definition with_provider_type :: "provider_type \<Rightarrow> provider_config \<Rightarrow> provider_config" where
  "with_provider_type t c = c\<lparr>pv_type := Some t\<rparr>"

definition with_model :: "model_name \<Rightarrow> provider_config \<Rightarrow> provider_config" where
  "with_model m c = c\<lparr>pv_model := Some m\<rparr>"

definition config_with_api_key :: "string \<Rightarrow> provider_config \<Rightarrow> provider_config" where
  "config_with_api_key k c = c\<lparr>pv_api_key := Some k\<rparr>"

definition resolve_api_key :: "environment \<Rightarrow> provider_config \<Rightarrow> string option" where
  "resolve_api_key env c =
     Option.bind (pv_api_key c)
       (\<lambda>key. if is_prefix_of ''env:'' key then env (drop 4 key) else Some key)"

definition to_http_config :: "environment \<Rightarrow> provider_id \<Rightarrow> provider_config \<Rightarrow> http_config" where
  "to_http_config env i c =
     \<lparr>hc_id = i, hc_base_url = pv_base_url c, hc_api_key = resolve_api_key env c,
      hc_organization = pv_organization c, hc_timeout = from_secs (unat (pv_timeout_secs c)),
      hc_connect_timeout = from_secs (unat (pv_connect_timeout_secs c)),
      hc_max_retries = pv_max_retries c\<rparr>"

record runtime_policy_config =
  pc_max_iterations :: usize
  pc_max_tokens :: "usize option"
  pc_max_tool_concurrency :: usize
  pc_tool_timeout_secs :: u64
  pc_provider_timeout_secs :: u64
  pc_continue_on_tool_failure :: bool
  pc_retry_on_provider_error :: bool
  pc_max_retries :: usize

definition runtime_policy_config_default :: runtime_policy_config where
  "runtime_policy_config_default =
     \<lparr>pc_max_iterations = 10, pc_max_tokens = None, pc_max_tool_concurrency = 4,
      pc_tool_timeout_secs = 30, pc_provider_timeout_secs = 60, pc_continue_on_tool_failure = True,
      pc_retry_on_provider_error = True, pc_max_retries = 2\<rparr>"

definition policy_of_config :: "runtime_policy_config \<Rightarrow> runtime_policy" where
  "policy_of_config c =
     with_max_output_recovery_attempts
       (Runtime_Policy.with_max_retries
         (with_retry_on_provider_error
           (with_continue_on_tool_failure
             (with_provider_timeout
               (with_tool_timeout
                 (with_max_iterations runtime_policy_default (pc_max_iterations c))
                 (from_secs (unat (pc_tool_timeout_secs c))))
               (from_secs (unat (pc_provider_timeout_secs c))))
             (pc_continue_on_tool_failure c))
           (pc_retry_on_provider_error c))
         (pc_max_retries c)) 3"

record runtime_config =
  rtc_policy :: runtime_policy_config
  rtc_max_history_messages :: usize
  rtc_event_channel_capacity :: usize
  rtc_snapshot_dir :: "string option"

definition runtime_config_default :: runtime_config where
  "runtime_config_default =
     \<lparr>rtc_policy = runtime_policy_config_default, rtc_max_history_messages = 50,
      rtc_event_channel_capacity = 256, rtc_snapshot_dir = None\<rparr>"

datatype store_backend = MemoryBackend | RedisBackend | SqlBackend | MongoBackend | SurrealBackend

record store_config =
  st_session_backend :: store_backend
  st_execution_backend :: store_backend
  st_run_backend :: store_backend
  st_embedding_backend :: store_backend
  st_artifact_backend :: store_backend
  st_redis_url :: "string option"
  st_sql_url :: "string option"
  st_mongo_url :: "string option"
  st_surreal_url :: "string option"
  st_qdrant_url :: "string option"
  st_qdrant_collection :: string
  st_qdrant_dimensions :: u64

definition store_config_default :: store_config where
  "store_config_default =
     \<lparr>st_session_backend = MemoryBackend, st_execution_backend = MemoryBackend,
      st_run_backend = MemoryBackend, st_embedding_backend = MemoryBackend,
      st_artifact_backend = MemoryBackend, st_redis_url = None, st_sql_url = None, st_mongo_url = None,
      st_surreal_url = None, st_qdrant_url = None, st_qdrant_collection = [], st_qdrant_dimensions = 1536\<rparr>"

record rag_config =
  rag_provider_id :: provider_id
  rag_model :: model_name
  rag_limit :: usize
  rag_template :: string
  rag_metadata_field :: string

datatype queue_backend = Nats | RedisStreams

record queue_config =
  qc_backend :: queue_backend
  qc_nats_url :: "string option"
  qc_nats_subject :: string
  qc_redis_url :: "string option"
  qc_redis_stream_key :: string

record component_config =
  cmp_name :: string
  cmp_kind :: string
  cmp_depends_on :: "string list"
  cmp_required :: bool
  cmp_config :: json
  cmp_tags :: "string list"

definition component_config_new :: "string \<Rightarrow> string \<Rightarrow> component_config" where
  "component_config_new n k =
     \<lparr>cmp_name = n, cmp_kind = k, cmp_depends_on = [], cmp_required = False, cmp_config = JNull, cmp_tags = []\<rparr>"

definition component_with_config :: "json \<Rightarrow> component_config \<Rightarrow> component_config" where
  "component_with_config v c = c\<lparr>cmp_config := v\<rparr>"

definition with_dependency :: "string \<Rightarrow> component_config \<Rightarrow> component_config" where
  "with_dependency d c = c\<lparr>cmp_depends_on := cmp_depends_on c @ [d]\<rparr>"

definition component_required :: "component_config \<Rightarrow> component_config" where
  "component_required c = c\<lparr>cmp_required := True\<rparr>"

record agent_config =
  agc_runtime :: runtime_config
  agc_providers :: "(provider_id \<times> provider_config) list"
  agc_stores :: store_config
  agc_rag :: "rag_config option"
  agc_queue :: "queue_config option"
  agc_components :: "component_config list"

definition agent_config_default :: agent_config where
  "agent_config_default =
     \<lparr>agc_runtime = runtime_config_default, agc_providers = [], agc_stores = store_config_default,
      agc_rag = None, agc_queue = None, agc_components = []\<rparr>"

section \<open>Validation\<close>

definition validate_stores :: "store_config \<Rightarrow> string option" where
  "validate_stores s =
     (let needs_redis = st_session_backend s = RedisBackend \<or> st_execution_backend s = RedisBackend \<or>
            st_run_backend s = RedisBackend \<or> st_artifact_backend s = RedisBackend
      in if needs_redis \<and> st_redis_url s = None
         then Some ''redis_url is required when any store backend is Redis''
         else if st_embedding_backend s = RedisBackend \<and> st_redis_url s = None
         then Some ''redis_url is required when embedding backend is Redis''
         else None)"

definition validate_rag :: "agent_config \<Rightarrow> string option" where
  "validate_rag c =
     (case agc_rag c of
        None \<Rightarrow> None
      | Some r \<Rightarrow>
          if map_of (agc_providers c) (rag_provider_id r) = None
          then Some (''RAG provider '' @ [CHR 0x27] @ rag_provider_id r @ [CHR 0x27] @
            '' is not configured in [providers]'')
          else None)"

definition validate_queue :: "agent_config \<Rightarrow> string option" where
  "validate_queue c =
     (case agc_queue c of
        None \<Rightarrow> None
      | Some q \<Rightarrow>
          (case qc_backend q of
             Nats \<Rightarrow> if qc_nats_url q = None then Some ''nats_url is required for NATS queue backend'' else None
           | RedisStreams \<Rightarrow>
               if qc_redis_url q = None
               then Some ''redis_url is required for Redis Streams queue backend'' else None))"

definition validate_config :: "agent_config \<Rightarrow> string + unit" where
  "validate_config c =
     (case validate_stores (agc_stores c) of
        Some e \<Rightarrow> Inl e
      | None \<Rightarrow> (case validate_rag c of
          Some e \<Rightarrow> Inl e
        | None \<Rightarrow> (case validate_queue c of Some e \<Rightarrow> Inl e | None \<Rightarrow> Inr ())))"

section \<open>The builder\<close>

record config_builder =
  cb_config :: agent_config
  cb_files :: "string list"
  cb_env_prefixes :: "string list"

definition builder_from_config :: "agent_config \<Rightarrow> config_builder" where
  "builder_from_config c = \<lparr>cb_config = c, cb_files = [], cb_env_prefixes = []\<rparr>"

type_synonym config_codec = "(agent_config \<Rightarrow> string + json) \<times> (json \<Rightarrow> string + agent_config)"

definition merge_layer :: "config_codec \<Rightarrow> environment \<Rightarrow> json \<Rightarrow> agent_config \<Rightarrow> string + agent_config" where
  "merge_layer codec env layer c =
     (case fst codec c of
        Inl e \<Rightarrow> Inl (''failed to serialize base config: '' @ e)
      | Inr base \<Rightarrow>
          (case snd codec (substitute_json env (merge_json base layer)) of
             Inl e \<Rightarrow> Inl (''failed to deserialize merged config: '' @ e)
           | Inr c' \<Rightarrow> Inr c'))"

definition builder_with_file ::
  "config_codec \<Rightarrow> environment \<Rightarrow> (string \<Rightarrow> string + json) \<Rightarrow> string \<Rightarrow> config_builder \<Rightarrow>
    string + config_builder" where
  "builder_with_file codec env load path b =
     (case load path of
        Inl e \<Rightarrow> Inl e
      | Inr v \<Rightarrow>
          (case merge_layer codec env v (cb_config b) of
             Inl e \<Rightarrow> Inl e
           | Inr c \<Rightarrow> Inr (b\<lparr>cb_config := c, cb_files := cb_files b @ [path]\<rparr>)))"

definition builder_with_env ::
  "config_codec \<Rightarrow> environment \<Rightarrow> (string \<Rightarrow> string + json) \<Rightarrow> string \<Rightarrow> config_builder \<Rightarrow>
    string + config_builder" where
  "builder_with_env codec env load prefix b =
     (case load prefix of
        Inl e \<Rightarrow> Inl e
      | Inr v \<Rightarrow>
          (case merge_layer codec env v (cb_config b) of
             Inl e \<Rightarrow> Inl e
           | Inr c \<Rightarrow> Inr (b\<lparr>cb_config := c, cb_env_prefixes := cb_env_prefixes b @ [prefix]\<rparr>)))"

definition builder_with_runtime :: "runtime_config \<Rightarrow> config_builder \<Rightarrow> config_builder" where
  "builder_with_runtime r b = b\<lparr>cb_config := (cb_config b)\<lparr>agc_runtime := r\<rparr>\<rparr>"

definition builder_with_provider :: "provider_id \<Rightarrow> provider_config \<Rightarrow> config_builder \<Rightarrow> config_builder" where
  "builder_with_provider i p b =
     b\<lparr>cb_config := (cb_config b)\<lparr>agc_providers := AList.update i p (agc_providers (cb_config b))\<rparr>\<rparr>"

definition builder_with_stores :: "store_config \<Rightarrow> config_builder \<Rightarrow> config_builder" where
  "builder_with_stores s b = b\<lparr>cb_config := (cb_config b)\<lparr>agc_stores := s\<rparr>\<rparr>"

definition builder_with_component :: "component_config \<Rightarrow> config_builder \<Rightarrow> config_builder" where
  "builder_with_component c b =
     b\<lparr>cb_config := (cb_config b)\<lparr>agc_components := agc_components (cb_config b) @ [c]\<rparr>\<rparr>"

definition builder_with_component_toml ::
  "(string \<Rightarrow> string + component_config list) \<Rightarrow> string \<Rightarrow> config_builder \<Rightarrow> string + config_builder" where
  "builder_with_component_toml parse text' b =
     (case parse text' of
        Inl e \<Rightarrow> Inl (''component toml parse error: '' @ e)
      | Inr cs \<Rightarrow> Inr (fold builder_with_component cs b))"

definition builder_with_rag :: "rag_config \<Rightarrow> config_builder \<Rightarrow> config_builder" where
  "builder_with_rag r b = b\<lparr>cb_config := (cb_config b)\<lparr>agc_rag := Some r\<rparr>\<rparr>"

definition builder_with_queue :: "queue_config \<Rightarrow> config_builder \<Rightarrow> config_builder" where
  "builder_with_queue q b = b\<lparr>cb_config := (cb_config b)\<lparr>agc_queue := Some q\<rparr>\<rparr>"

definition builder_build :: "config_codec \<Rightarrow> environment \<Rightarrow> config_builder \<Rightarrow> string + agent_config" where
  "builder_build codec env b =
     (case fst codec (cb_config b) of
        Inl e \<Rightarrow> Inl (''failed to serialize config for placeholder substitution: '' @ e)
      | Inr v \<Rightarrow>
          (case snd codec (substitute_json env v) of
             Inl e \<Rightarrow> Inl (''failed to deserialize config after placeholder substitution: '' @ e)
           | Inr c \<Rightarrow> (case validate_config c of Inl e \<Rightarrow> Inl e | Inr _ \<Rightarrow> Inr c)))"

section \<open>Building stores and providers\<close>

text \<open>A store or publisher that was built: in memory, or connected to an address.\<close>

datatype built_store = InMemory | Connected store_backend string
datatype built_publisher = NatsPublisher string string | RedisPublisher string string

text \<open>\<open>connect\<close> is \<open>None\<close> when the backend can be reached, or the error.\<close>

type_synonym connector = "string \<Rightarrow> string option"

definition connect_to ::
  "connector \<Rightarrow> store_backend \<Rightarrow> string option \<Rightarrow> string \<Rightarrow> string \<Rightarrow> string + built_store" where
  "connect_to connect backend url missing failed =
     (case url of
        None \<Rightarrow> Inl missing
      | Some u \<Rightarrow> (case connect u of Some e \<Rightarrow> Inl (failed @ e) | None \<Rightarrow> Inr (Connected backend u)))"

definition build_session_store :: "connector \<Rightarrow> store_config \<Rightarrow> string + built_store" where
  "build_session_store connect s =
     (case st_session_backend s of
        MemoryBackend \<Rightarrow> Inr InMemory
      | RedisBackend \<Rightarrow> connect_to connect RedisBackend (st_redis_url s)
          ''redis_url is required for Redis session store'' ''failed to create Redis session store: ''
      | SqlBackend \<Rightarrow> connect_to connect SqlBackend (st_sql_url s)
          ''sql_url is required for SQL session store'' ''failed to connect to PostgreSQL: ''
      | MongoBackend \<Rightarrow> connect_to connect MongoBackend (st_mongo_url s)
          ''mongo_url is required for MongoDB session store'' ''failed to create MongoDB session store: ''
      | SurrealBackend \<Rightarrow> Inl ''SurrealDB session store is not supported by this build'')"

definition build_execution_store :: "connector \<Rightarrow> store_config \<Rightarrow> string + built_store" where
  "build_execution_store connect s =
     (case st_execution_backend s of
        MemoryBackend \<Rightarrow> Inr InMemory
      | RedisBackend \<Rightarrow> Inl ''Redis execution store is not supported''
      | SqlBackend \<Rightarrow> connect_to connect SqlBackend (st_sql_url s)
          ''sql_url is required for SQL execution store'' ''failed to connect to PostgreSQL: ''
      | MongoBackend \<Rightarrow> Inl ''MongoDB execution store is not supported''
      | SurrealBackend \<Rightarrow> Inl ''SurrealDB execution store is not supported'')"

fun show_backend :: "store_backend \<Rightarrow> string" where
  "show_backend MemoryBackend = ''Memory''"
| "show_backend RedisBackend = ''Redis''"
| "show_backend SqlBackend = ''Sql''"
| "show_backend MongoBackend = ''Mongo''"
| "show_backend SurrealBackend = ''Surreal''"

definition single_quoted :: "string \<Rightarrow> string" where
  "single_quoted s = [CHR 0x27] @ s @ [CHR 0x27]"

definition build_embedding_store :: "connector \<Rightarrow> store_config \<Rightarrow> string + built_store" where
  "build_embedding_store connect s =
     (case st_embedding_backend s of
        MemoryBackend \<Rightarrow> Inr InMemory
      | SqlBackend \<Rightarrow> connect_to connect SqlBackend (st_sql_url s)
          ''sql_url is required for SQL embedding store'' ''failed to connect to PostgreSQL: ''
      | b \<Rightarrow> Inl (''embedding store backend '' @ single_quoted (show_backend b) @
          '' is not supported via auto-config''))"

definition build_event_publisher :: "connector \<Rightarrow> queue_config \<Rightarrow> string + built_publisher" where
  "build_event_publisher connect q =
     (case qc_backend q of
        Nats \<Rightarrow>
          (case qc_nats_url q of
             None \<Rightarrow> Inl ''NATS URL is required for NATS queue backend''
           | Some u \<Rightarrow> (case connect u of Some e \<Rightarrow> Inl (''failed to connect NATS publisher: '' @ e)
               | None \<Rightarrow> Inr (NatsPublisher u (qc_nats_subject q))))
      | RedisStreams \<Rightarrow>
          (case qc_redis_url q of
             None \<Rightarrow> Inl ''Redis URL is required for Redis Streams queue backend''
           | Some u \<Rightarrow> (case connect u of Some e \<Rightarrow> Inl (''failed to connect Redis Streams publisher: '' @ e)
               | None \<Rightarrow> Inr (RedisPublisher u (qc_redis_stream_key q)))))"

text \<open>The providers registered so far: chat and embedding adapters by id.\<close>

type_synonym registered = "(provider_id \<times> provider_adapter \<times> http_config) list \<times>
  (provider_id \<times> provider_adapter \<times> http_config) list"

definition new_adapter ::
  "client_builder \<Rightarrow> provider_adapter \<Rightarrow> string \<Rightarrow> provider_id \<Rightarrow> http_config \<Rightarrow> string option" where
  "new_adapter client a what i http =
     map_option (\<lambda>m. ''failed to create '' @ what @ '' adapter for '' @ single_quoted i @ '': '' @
       show_provider_error (Transport (hc_id http) m)) (client http)"

definition register_provider ::
  "environment \<Rightarrow> client_builder \<Rightarrow> provider_id \<times> provider_config \<Rightarrow> registered \<Rightarrow> string + registered" where
  "register_provider env client entry reg =
     (case entry of (i, c) \<Rightarrow>
       let http = to_http_config env i c in
       case pv_type c of
         None \<Rightarrow> Inr reg
       | Some TypeAnthropic \<Rightarrow>
           (case new_adapter client AnthropicChat ''Anthropic chat'' i http of
              Some e \<Rightarrow> Inl e
            | None \<Rightarrow> Inr (AList.update i (AnthropicChat, http) (fst reg), snd reg))
       | Some TypeOpenAi \<Rightarrow>
           (case new_adapter client OpenAiChat ''OpenAI chat'' i http of
              Some e \<Rightarrow> Inl e
            | None \<Rightarrow>
                (case new_adapter client OpenAiEmbedding ''OpenAI embedding'' i http of
                   Some e \<Rightarrow> Inl e
                 | None \<Rightarrow> Inr (AList.update i (OpenAiChat, http) (fst reg),
                     AList.update i (OpenAiEmbedding, http) (snd reg)))))"

fun register_all ::
  "environment \<Rightarrow> client_builder \<Rightarrow> (provider_id \<times> provider_config) list \<Rightarrow> registered \<Rightarrow> string + registered" where
  "register_all env client [] reg = Inr reg"
| "register_all env client (p # ps) reg =
     (case register_provider env client p reg of
        Inl e \<Rightarrow> Inl e
      | Inr reg' \<Rightarrow> register_all env client ps reg')"

section \<open>Building the runtime\<close>

text \<open>What the agent runtime is made of. The context pipeline that \<open>build_runtime\<close> configures with the
  history limit and the retrieval adapter is a local of it: the runtime makes a pipeline of its own.\<close>

record built_runtime =
  br_chat :: "(provider_id \<times> provider_adapter \<times> http_config) list"
  br_embedding :: "(provider_id \<times> provider_adapter \<times> http_config) list"
  br_sessions :: built_store
  br_executions :: built_store
  br_policy :: runtime_policy
  br_publisher :: "built_publisher option"

definition check_rag :: "string \<Rightarrow> connector \<Rightarrow> agent_config \<Rightarrow> registered \<Rightarrow> string + unit" where
  "check_rag hint connect c reg =
     (case agc_rag c of
        None \<Rightarrow> Inr ()
      | Some r \<Rightarrow>
          (case map_of (snd reg) (rag_provider_id r) of
             None \<Rightarrow> Inl (''RAG embedding provider '' @ single_quoted (rag_provider_id r) @
               '' not found in registry'' @ hint)
           | Some _ \<Rightarrow> map_sum id (\<lambda>_. ()) (build_embedding_store connect (agc_stores c))))"

definition build_publisher_opt :: "connector \<Rightarrow> agent_config \<Rightarrow> string + built_publisher option" where
  "build_publisher_opt connect c =
     (case agc_queue c of
        None \<Rightarrow> Inr None
      | Some q \<Rightarrow> map_sum id Some (build_event_publisher connect q))"

definition assemble_runtime ::
  "environment \<Rightarrow> client_builder \<Rightarrow> connector \<Rightarrow> agent_config \<Rightarrow> string + built_runtime" where
  "assemble_runtime env client connect c =
     (case register_all env client (agc_providers c) ([], []) of
        Inl e \<Rightarrow> Inl e
      | Inr reg \<Rightarrow>
     (case build_session_store connect (agc_stores c) of
        Inl e \<Rightarrow> Inl e
      | Inr sessions \<Rightarrow>
     (case build_execution_store connect (agc_stores c) of
        Inl e \<Rightarrow> Inl e
      | Inr executions \<Rightarrow>
     (case check_rag ''; register an embedding-capable provider first'' connect c reg of
        Inl e \<Rightarrow> Inl e
      | Inr _ \<Rightarrow>
     (case build_publisher_opt connect c of
        Inl e \<Rightarrow> Inl e
      | Inr publisher \<Rightarrow> Inr
          \<lparr>br_chat = fst reg, br_embedding = snd reg, br_sessions = sessions, br_executions = executions,
           br_policy = policy_of_config (rtc_policy (agc_runtime c)), br_publisher = publisher\<rparr>)))))"

definition build_runtime ::
  "config_codec \<Rightarrow> environment \<Rightarrow> client_builder \<Rightarrow> connector \<Rightarrow> config_builder \<Rightarrow> string + built_runtime" where
  "build_runtime codec env client connect b =
     (case builder_build codec env b of
        Inl e \<Rightarrow> Inl e
      | Inr c \<Rightarrow> assemble_runtime env client connect c)"

section \<open>What reaches the runtime\<close>

definition adapter_of_type :: "provider_type \<Rightarrow> provider_adapter" where
  "adapter_of_type t = (case t of TypeOpenAi \<Rightarrow> OpenAiChat | TypeAnthropic \<Rightarrow> AnthropicChat)"

definition expected_chat ::
  "environment \<Rightarrow> (provider_id \<times> provider_config) list \<Rightarrow> provider_id \<Rightarrow> (provider_adapter \<times> http_config) option" where
  "expected_chat env ps i =
     Option.bind (map_of ps i) (\<lambda>c. map_option (\<lambda>t. (adapter_of_type t, to_http_config env i c)) (pv_type c))"

definition expected_embedding ::
  "environment \<Rightarrow> (provider_id \<times> provider_config) list \<Rightarrow> provider_id \<Rightarrow> (provider_adapter \<times> http_config) option" where
  "expected_embedding env ps i =
     Option.bind (map_of ps i)
       (\<lambda>c. if pv_type c = Some TypeOpenAi then Some (OpenAiEmbedding, to_http_config env i c) else None)"

lemma register_provider_lookup:
  assumes "register_provider env client (i, c) reg = Inr reg'"
  shows "map_of (fst reg') j = (case expected_chat env [(i, c)] j of Some x \<Rightarrow> Some x | None \<Rightarrow> map_of (fst reg) j) \<and>
    map_of (snd reg') j = (case expected_embedding env [(i, c)] j of Some x \<Rightarrow> Some x | None \<Rightarrow> map_of (snd reg) j)"
proof (cases "pv_type c")
  case (Some t)
  then show ?thesis using assms
    by (cases t) (auto simp: register_provider_def expected_chat_def expected_embedding_def
        adapter_of_type_def update_conv' Let_def split: option.splits)
qed (use assms in \<open>auto simp: register_provider_def expected_chat_def expected_embedding_def Let_def\<close>)

lemma register_all_lookup:
  "distinct (map fst ps) \<Longrightarrow> register_all env client ps reg = Inr reg' \<Longrightarrow>
    map_of (fst reg') j = (case expected_chat env ps j of Some x \<Rightarrow> Some x | None \<Rightarrow> map_of (fst reg) j) \<and>
    map_of (snd reg') j = (case expected_embedding env ps j of Some x \<Rightarrow> Some x | None \<Rightarrow> map_of (snd reg) j)"
proof (induction ps arbitrary: reg)
  case Nil
  then show ?case by (simp add: expected_chat_def expected_embedding_def)
next
  case (Cons p ps)
  obtain i c where p: "p = (i, c)" by fastforce
  from Cons.prems(2) obtain reg1 where r: "register_provider env client (i, c) reg = Inr reg1"
    "register_all env client ps reg1 = Inr reg'" by (auto simp: p split: sum.splits)
  have "map_of ps i = None" using Cons.prems(1) by (simp add: p map_of_eq_None_iff)
  then show ?case
    using Cons.IH [OF _ r(2)] Cons.prems(1) register_provider_lookup [OF r(1), of j]
    by (cases "j = i")
      (simp_all add: p expected_chat_def expected_embedding_def split: option.split)
qed


definition sample_config :: agent_config where
  "sample_config = agent_config_default\<lparr>agc_providers :=
     [(''main'', with_provider_type TypeAnthropic (config_with_api_key ''env:KEY'' (provider_config_new ''https://a''))),
      (''bare'', provider_config_new ''https://b'')]\<rparr>"


text \<open>Settings without effect: the token limit and the tool concurrency of the policy, the history limit
  and the channel capacity of the runtime.\<close>

lemma policy_limits_ignored:
  "policy_of_config (c\<lparr>pc_max_tokens := t, pc_max_tool_concurrency := n\<rparr>) = policy_of_config c \<and>
   max_tokens (policy_of_config c) = None \<and> max_tool_concurrency (policy_of_config c) = 4"
  by (simp add: policy_of_config_def with_max_output_recovery_attempts_def
      Runtime_Policy.with_max_retries_def with_retry_on_provider_error_def
      with_continue_on_tool_failure_def with_provider_timeout_def with_tool_timeout_def
      with_max_iterations_def runtime_policy_default_def)

lemma history_limit_ignored:
  "assemble_runtime env client connect (c\<lparr>agc_runtime := (agc_runtime c)
     \<lparr>rtc_max_history_messages := n, rtc_event_channel_capacity := k\<rparr>\<rparr>) = assemble_runtime env client connect c"
  by (simp add: assemble_runtime_def check_rag_def build_publisher_opt_def
      cong: sum.case_cong option.case_cong)

text \<open>A validated configuration is never rejected for a Redis address.\<close>

lemma validated_has_redis_url:
  assumes "validate_config c = Inr ()" and "st_session_backend (agc_stores c) = RedisBackend"
  shows "\<exists>u. st_redis_url (agc_stores c) = Some u"
  using assms by (auto simp: validate_config_def validate_stores_def Let_def split: if_splits option.splits)

lemma validation_misses_sql_url:
  "validate_config (agent_config_default\<lparr>agc_stores := store_config_default\<lparr>st_session_backend := SqlBackend\<rparr>\<rparr>) = Inr () \<and>
   assemble_runtime env client connect
     (agent_config_default\<lparr>agc_stores := store_config_default\<lparr>st_session_backend := SqlBackend\<rparr>\<rparr>) =
     Inl ''sql_url is required for SQL session store''"
  by (simp add: validate_config_def validate_stores_def validate_rag_def validate_queue_def
      agent_config_default_def store_config_default_def assemble_runtime_def build_session_store_def
      connect_to_def Let_def)

section \<open>Components and layers\<close>

definition show_factory_error :: "factory_error \<Rightarrow> string" where
  "show_factory_error e =
     (case e of
        UnknownKind k \<Rightarrow> ''unknown component kind: '' @ k
      | InvalidConfig k m \<Rightarrow> ''invalid config for kind '' @ k @ '': '' @ m
      | FactoryFailed k m \<Rightarrow> ''factory for kind '' @ k @ '' failed: '' @ m)"

text \<open>A component that is already built, handed to the registry as a factory. The components of the
  default factories override no lifecycle hook.\<close>

definition built_any :: "'p built_component \<Rightarrow> 'e any_component" where
  "built_any b =
     \<lparr>ac_start = (\<lambda>e. (Inr (), e)), ac_stop = (\<lambda>e. (Inr (), e)), ac_health = (\<lambda>e. (Healthy None, e)),
      ac_pre_replace = (\<lambda>e. (Inr (), e)), ac_post_replace = (\<lambda>e. (Inr (), e))\<rparr>"

definition one_shot_factory :: "'e any_component \<Rightarrow> 'e component_factory" where
  "one_shot_factory inst config e = (Inr inst, e)"

definition component_descriptor_of :: "component_config \<Rightarrow> component_descriptor" where
  "component_descriptor_of c =
     \<lparr>cd_name = cmp_name c, cd_depends_on = cmp_depends_on c, cd_config = cmp_config c\<rparr>"

fun register_components ::
  "(registry_error \<Rightarrow> string) \<Rightarrow> ('x, 'p built_component) factory_registry \<Rightarrow> 'x \<Rightarrow> component_config list \<Rightarrow>
    'e component_registry \<Rightarrow> string + 'e component_registry" where
  "register_components show_err factories ctx [] r = Inr r"
| "register_components show_err factories ctx (c # cs) r =
     (if contains_kind factories (cmp_kind c) then
        (case invoke_factory factories (cmp_kind c) (cmp_config c) ctx of
           Inl e \<Rightarrow> Inl (''factory for '' @ single_quoted (cmp_kind c) @ '' failed: '' @ show_factory_error e)
         | Inr b \<Rightarrow>
             (case register_factory r (component_descriptor_of c) (one_shot_factory (built_any b)) of
                (Inl e, _) \<Rightarrow> Inl (''component registration failed: '' @ show_err e)
              | (Inr _, r') \<Rightarrow> register_components show_err factories ctx cs r'))
      else register_components show_err factories ctx cs r)"

definition start_components ::
  "(registry_error \<Rightarrow> string) \<Rightarrow> ('x, 'p built_component) factory_registry \<Rightarrow> 'x \<Rightarrow> component_config list \<Rightarrow> 'e \<Rightarrow>
    (string + 'e component_registry) option" where
  "start_components show_err factories ctx cs e =
     (if cs = [] then Some (Inr registry_new)
      else case register_components show_err factories ctx cs registry_new of
        Inl m \<Rightarrow> Some (Inl m)
      | Inr r \<Rightarrow>
          (case init_all r e of
             None \<Rightarrow> None
           | Some (Inl x, _, _) \<Rightarrow> Some (Inl (''component init failed: '' @ show_err x))
           | Some (Inr _, r1, e1) \<Rightarrow>
               (case start_all r1 e1 of
                  None \<Rightarrow> None
                | Some (Inl x, _, _) \<Rightarrow> Some (Inl (''component start failed: '' @ show_err x))
                | Some (Inr _, r2, _) \<Rightarrow> Some (Inr r2))))"

definition assemble_managed ::
  "(registry_error \<Rightarrow> string) \<Rightarrow> ('x, 'p built_component) factory_registry \<Rightarrow> 'x \<Rightarrow> environment \<Rightarrow>
    client_builder \<Rightarrow> connector \<Rightarrow> agent_config \<Rightarrow> 'e \<Rightarrow>
    (string + built_runtime \<times> 'e component_registry) option" where
  "assemble_managed show_err factories ctx env client connect c e =
     (case register_all env client (agc_providers c) ([], []) of
        Inl m \<Rightarrow> Some (Inl m)
      | Inr reg \<Rightarrow>
     (case build_session_store connect (agc_stores c) of
        Inl m \<Rightarrow> Some (Inl m)
      | Inr sessions \<Rightarrow>
     (case build_execution_store connect (agc_stores c) of
        Inl m \<Rightarrow> Some (Inl m)
      | Inr executions \<Rightarrow>
     (case check_rag [] connect c reg of
        Inl m \<Rightarrow> Some (Inl m)
      | Inr _ \<Rightarrow>
     (case start_components show_err factories ctx (agc_components c) e of
        None \<Rightarrow> None
      | Some (Inl m) \<Rightarrow> Some (Inl m)
      | Some (Inr components) \<Rightarrow>
     (case build_publisher_opt connect c of
        Inl m \<Rightarrow> Some (Inl m)
      | Inr publisher \<Rightarrow> Some (Inr
          (\<lparr>br_chat = fst reg, br_embedding = snd reg, br_sessions = sessions, br_executions = executions,
            br_policy = policy_of_config (rtc_policy (agc_runtime c)), br_publisher = publisher\<rparr>,
           components))))))))"

definition build_managed ::
  "config_codec \<Rightarrow> (registry_error \<Rightarrow> string) \<Rightarrow> ('x, 'p built_component) factory_registry \<Rightarrow> 'x \<Rightarrow>
    environment \<Rightarrow> client_builder \<Rightarrow> connector \<Rightarrow> config_builder \<Rightarrow> 'e \<Rightarrow>
    (string + built_runtime \<times> 'e component_registry) option" where
  "build_managed codec show_err factories ctx env client connect b e =
     (case builder_build codec env b of
        Inl m \<Rightarrow> Some (Inl m)
      | Inr c \<Rightarrow> assemble_managed show_err factories ctx env client connect c e)"

text \<open>The managed runtime is the plain one with a registry of components beside it.\<close>

lemma managed_runtime_agrees:
  "build_managed codec show_err factories ctx env client connect b e = Some (Inr (rt, r)) \<Longrightarrow>
    build_runtime codec env client connect b = Inr rt"
  by (auto simp: build_managed_def build_runtime_def assemble_managed_def assemble_runtime_def check_rag_def
      split: sum.splits option.splits prod.splits)

text \<open>The registry has exactly the components whose kind is known, required or not.\<close>

lemma register_components_names:
  "register_components show_err factories ctx cs r = Inr r' \<Longrightarrow>
    (\<forall>n. map_of (reg_descriptors r') n \<noteq> None \<longleftrightarrow> map_of (reg_descriptors r) n \<noteq> None \<or>
      (\<exists>c\<in>set cs. cmp_name c = n \<and> contains_kind factories (cmp_kind c)))"
proof (induction cs arbitrary: r)
  case (Cons c cs)
  show ?case
  proof (cases "contains_kind factories (cmp_kind c)")
    case True
    obtain b where b: "invoke_factory factories (cmp_kind c) (cmp_config c) ctx = Inr b"
      using Cons.prems True by (auto split: sum.splits)
    obtain r1 where r1: "register_factory r (component_descriptor_of c) (one_shot_factory (built_any b)) = (Inr (), r1)"
      and rest: "register_components show_err factories ctx cs r1 = Inr r'"
      using Cons.prems True b by (auto split: sum.splits prod.splits)
    have "map_of (reg_descriptors r1) n \<noteq> None \<longleftrightarrow> n = cmp_name c \<or> map_of (reg_descriptors r) n \<noteq> None" for n
      using r1 by (auto simp: register_factory_def component_descriptor_of_def update_conv' Let_def
          split: if_splits)
    with Cons.IH [OF rest] True show ?thesis by auto
  qed (use Cons in auto)
qed simp

text \<open>Layering two configurations by field: a field of the overlay that is not its default wins.\<close>

definition unless_default :: "'a \<Rightarrow> 'a \<Rightarrow> 'a \<Rightarrow> 'a" where
  "unless_default d ov base = (if ov \<noteq> d then ov else base)"

definition some_or :: "'a option \<Rightarrow> 'a option \<Rightarrow> 'a option" where
  "some_or ov base = (case ov of Some x \<Rightarrow> Some x | None \<Rightarrow> base)"

definition merge_policy_config ::
  "runtime_policy_config \<Rightarrow> runtime_policy_config \<Rightarrow> runtime_policy_config" where
  "merge_policy_config b ov = b
     \<lparr>pc_max_iterations := unless_default 10 (pc_max_iterations ov) (pc_max_iterations b),
      pc_max_tokens := some_or (pc_max_tokens ov) (pc_max_tokens b),
      pc_max_tool_concurrency := unless_default 4 (pc_max_tool_concurrency ov) (pc_max_tool_concurrency b),
      pc_tool_timeout_secs := unless_default 30 (pc_tool_timeout_secs ov) (pc_tool_timeout_secs b),
      pc_provider_timeout_secs := unless_default 60 (pc_provider_timeout_secs ov) (pc_provider_timeout_secs b),
      pc_continue_on_tool_failure := pc_continue_on_tool_failure ov \<and> pc_continue_on_tool_failure b,
      pc_retry_on_provider_error := pc_retry_on_provider_error ov \<and> pc_retry_on_provider_error b,
      pc_max_retries := unless_default 2 (pc_max_retries ov) (pc_max_retries b)\<rparr>"

definition merge_stores :: "store_config \<Rightarrow> store_config \<Rightarrow> store_config" where
  "merge_stores b ov = b
     \<lparr>st_session_backend := unless_default MemoryBackend (st_session_backend ov) (st_session_backend b),
      st_execution_backend := unless_default MemoryBackend (st_execution_backend ov) (st_execution_backend b),
      st_run_backend := unless_default MemoryBackend (st_run_backend ov) (st_run_backend b),
      st_embedding_backend := unless_default MemoryBackend (st_embedding_backend ov) (st_embedding_backend b),
      st_artifact_backend := unless_default MemoryBackend (st_artifact_backend ov) (st_artifact_backend b),
      st_redis_url := some_or (st_redis_url ov) (st_redis_url b),
      st_sql_url := some_or (st_sql_url ov) (st_sql_url b),
      st_mongo_url := some_or (st_mongo_url ov) (st_mongo_url b),
      st_surreal_url := some_or (st_surreal_url ov) (st_surreal_url b),
      st_qdrant_url := some_or (st_qdrant_url ov) (st_qdrant_url b),
      st_qdrant_collection := unless_default [] (st_qdrant_collection ov) (st_qdrant_collection b),
      st_qdrant_dimensions := unless_default 1536 (st_qdrant_dimensions ov) (st_qdrant_dimensions b)\<rparr>"

definition merge_provider :: "provider_config \<Rightarrow> provider_config \<Rightarrow> provider_config" where
  "merge_provider b ov = b
     \<lparr>pv_base_url := (if pv_base_url ov \<noteq> pv_base_url b \<and> pv_base_url ov \<noteq> [] \<and>
        pv_base_url ov \<noteq> ''https://api.openai.com/v1'' then pv_base_url ov else pv_base_url b),
      pv_api_key := some_or (pv_api_key ov) (pv_api_key b),
      pv_type := some_or (pv_type ov) (pv_type b),
      pv_model := some_or (pv_model ov) (pv_model b),
      pv_models := unless_default [] (pv_models ov) (pv_models b),
      pv_compaction_model := some_or (pv_compaction_model ov) (pv_compaction_model b),
      pv_organization := some_or (pv_organization ov) (pv_organization b),
      pv_timeout_secs := unless_default 60 (pv_timeout_secs ov) (pv_timeout_secs b)\<rparr>"

definition merge_provider_entry ::
  "provider_id \<times> provider_config \<Rightarrow> (provider_id \<times> provider_config) list \<Rightarrow>
    (provider_id \<times> provider_config) list" where
  "merge_provider_entry entry ps =
     (case entry of (i, ov) \<Rightarrow>
        AList.update i (merge_provider (case map_of ps i of Some b \<Rightarrow> b | None \<Rightarrow> ov) ov) ps)"

definition merge_configs :: "agent_config \<Rightarrow> agent_config \<Rightarrow> agent_config" where
  "merge_configs b ov = b
     \<lparr>agc_runtime := (agc_runtime b)
        \<lparr>rtc_max_history_messages := unless_default 50 (rtc_max_history_messages (agc_runtime ov))
           (rtc_max_history_messages (agc_runtime b)),
         rtc_event_channel_capacity := unless_default 256 (rtc_event_channel_capacity (agc_runtime ov))
           (rtc_event_channel_capacity (agc_runtime b)),
         rtc_policy := merge_policy_config (rtc_policy (agc_runtime b)) (rtc_policy (agc_runtime ov))\<rparr>,
      agc_stores := merge_stores (agc_stores b) (agc_stores ov),
      agc_providers := fold merge_provider_entry (agc_providers ov) (agc_providers b),
      agc_rag := some_or (agc_rag ov) (agc_rag b),
      agc_queue := some_or (agc_queue ov) (agc_queue b)\<rparr>"

lemma merge_default_right: "merge_configs b agent_config_default = b"
  by (simp add: merge_configs_def agent_config_default_def runtime_config_default_def
      runtime_policy_config_default_def store_config_default_def merge_policy_config_def
      merge_stores_def unless_default_def some_or_def)

text \<open>An overlay cannot set a field back to its default, and drops its components and snapshot directory.\<close>

lemma overlay_default_loses:
  "pc_max_iterations (merge_policy_config b (ov\<lparr>pc_max_iterations := 10\<rparr>)) = pc_max_iterations b"
  "agc_components (merge_configs c d) = agc_components c"
  by (simp_all add: merge_policy_config_def unless_default_def merge_configs_def)

end
