(* ===== verification/Run_Store.thy ===== *)
theory Run_Store
  imports Run_State Core_Errors "HOL-Library.AList" "HOL-Library.Multiset"
begin

text \<open>
  The in-memory store of runs (\<open>behest-runtime/src/memory.rs\<close>, \<open>store.rs\<close>): records, event logs and
  projections kept up to date by every append, beside the reference projection of the trait, which
  replays the log. An append takes its sequence number before it holds the locks, so it is two steps
  of its task and the appends of several tasks interleave; creating and deleting a run are one step
  each. The hash maps are association lists and their order that of the lists.
\<close>

section \<open>State and operations\<close>

record run_store =
  rs_runs :: "(run_id \<times> run_record) list"
  rs_events :: "(run_id \<times> run_event_record list) list"
  rs_projections :: "(run_id \<times> run_projection) list"
  rs_sequence :: u64

definition run_store_new :: run_store where
  "run_store_new = \<lparr>rs_runs = [], rs_events = [], rs_projections = [], rs_sequence = 0\<rparr>"

definition rs_create_run :: "run_record \<Rightarrow> run_store \<Rightarrow> run_store" where
  "rs_create_run rec st =
     st\<lparr>rs_runs := AList.update (rr_id rec) rec (rs_runs st),
        rs_projections := AList.update (rr_id rec) (run_state_create rec []) (rs_projections st)\<rparr>"

definition rs_get_run :: "run_id \<Rightarrow> run_store \<Rightarrow> run_record option" where
  "rs_get_run r st = map_of (rs_runs st) r"

definition rs_get_run_state :: "run_id \<Rightarrow> run_store \<Rightarrow> run_projection option" where
  "rs_get_run_state r st = map_of (rs_projections st) r"

definition rs_update_status ::
  "timestamp \<Rightarrow> run_id \<Rightarrow> run_status \<Rightarrow> run_store \<Rightarrow> (runtime_error + unit) \<times> run_store" where
  "rs_update_status now r status st =
     (case map_of (rs_runs st) r of
        None \<Rightarrow> (Inl (RunNotFound r), st)
      | Some rec \<Rightarrow> (Inr (), st
          \<lparr>rs_runs := AList.update r (rr_update_status now rec status) (rs_runs st),
           rs_projections := (case map_of (rs_projections st) r of
              None \<Rightarrow> rs_projections st
            | Some s \<Rightarrow> AList.update r (s\<lparr>rp_status := status, rp_updated_at := now\<rparr>) (rs_projections st))\<rparr>))"

definition rs_list_events :: "run_id \<Rightarrow> run_store \<Rightarrow> run_event_record list" where
  "rs_list_events r st = (case map_of (rs_events st) r of None \<Rightarrow> [] | Some evs \<Rightarrow> evs)"

text \<open>Appending: the sequence number, then the log and the projection under both locks.\<close>

definition take_sequence :: "run_event_record \<Rightarrow> run_store \<Rightarrow> run_event_record \<times> run_store" where
  "take_sequence er st = (er\<lparr>er_sequence := rs_sequence st\<rparr>, st\<lparr>rs_sequence := rs_sequence st + 1\<rparr>)"

definition project_event :: "run_event_record \<Rightarrow> run_projection \<Rightarrow> run_projection" where
  "project_event er s =
     (apply_event s (er_event er))\<lparr>rp_event_count := rp_event_count s + 1, rp_updated_at := er_timestamp er\<rparr>"

definition append_locked :: "run_event_record \<Rightarrow> run_store \<Rightarrow> run_store" where
  "append_locked er st =
     (let r = er_run_id er in
      st\<lparr>rs_events := AList.update r (rs_list_events r st @ [er]) (rs_events st),
         rs_projections :=
           (case map_of (rs_projections st) r of
              Some s \<Rightarrow> AList.update r (project_event er s) (rs_projections st)
            | None \<Rightarrow>
                (case map_of (rs_runs st) r of
                   None \<Rightarrow> rs_projections st
                 | Some rec \<Rightarrow> AList.update r (project_event er (run_state_create rec [])) (rs_projections st)))\<rparr>)"

definition rs_append_event :: "run_event_record \<Rightarrow> run_store \<Rightarrow> run_store" where
  "rs_append_event er st = (case take_sequence er st of (er', st') \<Rightarrow> append_locked er' st')"

definition rs_list_runs :: "uuid \<Rightarrow> run_store \<Rightarrow> run_record list" where
  "rs_list_runs sid st = filter (\<lambda>r. rr_session_id r = sid) (map snd (rs_runs st))"

definition run_filter :: "uuid option \<Rightarrow> run_status option \<Rightarrow> run_record \<Rightarrow> bool" where
  "run_filter sid status r \<longleftrightarrow>
     \<not> (case sid of Some i \<Rightarrow> rr_session_id r \<noteq> i | None \<Rightarrow> False) \<and>
     \<not> (case status of Some s \<Rightarrow> rr_status r \<noteq> s | None \<Rightarrow> False)"

definition rs_list_filtered ::
  "uuid option \<Rightarrow> run_status option \<Rightarrow> usize \<Rightarrow> usize \<Rightarrow> run_store \<Rightarrow> run_record list" where
  "rs_list_filtered sid status limit offset st =
     take (min (max limit 1) 1000) (drop offset
       (sort_key (\<lambda>r. - int (rr_created_at r)) (filter (run_filter sid status) (map snd (rs_runs st)))))"

definition rs_delete_run :: "run_id \<Rightarrow> run_store \<Rightarrow> run_store" where
  "rs_delete_run r st =
     st\<lparr>rs_runs := AList.delete r (rs_runs st), rs_events := AList.delete r (rs_events st),
        rs_projections := AList.delete r (rs_projections st)\<rparr>"

text \<open>The projection of the trait, for stores that keep none: the log replayed on the record.\<close>

definition default_run_state :: "run_id \<Rightarrow> run_store \<Rightarrow> run_projection option" where
  "default_run_state r st =
     map_option (\<lambda>rec. run_state_create rec (rs_list_events r st)) (rs_get_run r st)"

section \<open>Interleavings\<close>

datatype store_act =
    ActCreate run_record
  | ActStatus timestamp run_id run_status
  | ActTake nat run_event_record
  | ActCommit nat
  | ActDelete run_id

record store_world =
  sw_store :: run_store
  sw_pending :: "nat \<Rightarrow> run_event_record option"

definition world_new :: store_world where
  "world_new = \<lparr>sw_store = run_store_new, sw_pending = (\<lambda>_. None)\<rparr>"

text \<open>A task begins an append only when it has none under way.\<close>

fun store_step :: "store_act \<Rightarrow> store_world \<Rightarrow> store_world" where
  "store_step (ActCreate rec) w = w\<lparr>sw_store := rs_create_run rec (sw_store w)\<rparr>"
| "store_step (ActStatus now r status) w = w\<lparr>sw_store := snd (rs_update_status now r status (sw_store w))\<rparr>"
| "store_step (ActTake t er) w =
     (case sw_pending w t of
        Some _ \<Rightarrow> w
      | None \<Rightarrow> (case take_sequence er (sw_store w) of
          (er', st) \<Rightarrow> w\<lparr>sw_store := st, sw_pending := (sw_pending w)(t \<mapsto> er')\<rparr>))"
| "store_step (ActCommit t) w =
     (case sw_pending w t of
        None \<Rightarrow> w
      | Some er \<Rightarrow> w\<lparr>sw_store := append_locked er (sw_store w), sw_pending := (sw_pending w)(t := None)\<rparr>)"
| "store_step (ActDelete r) w = w\<lparr>sw_store := rs_delete_run r (sw_store w)\<rparr>"

definition run_acts :: "store_act list \<Rightarrow> store_world \<Rightarrow> store_world" where
  "run_acts acts w = fold store_step acts w"

text \<open>An append is a take and the commit after it.\<close>

lemma append_is_two_steps:
  "sw_pending w t = None \<Longrightarrow>
    run_acts [ActTake t er, ActCommit t] w = w\<lparr>sw_store := rs_append_event er (sw_store w)\<rparr>"
  by (cases w) (auto simp: run_acts_def rs_append_event_def take_sequence_def)

fun act_run :: "store_act \<Rightarrow> run_id option" where
  "act_run (ActCreate rec) = Some (rr_id rec)"
| "act_run (ActStatus _ r _) = Some r"
| "act_run (ActTake _ er) = Some (er_run_id er)"
| "act_run (ActCommit _) = None"
| "act_run (ActDelete r) = Some r"

fun is_append_act :: "store_act \<Rightarrow> bool" where
  "is_append_act (ActTake _ _) = True"
| "is_append_act (ActCommit _) = True"
| "is_append_act _ = False"

section \<open>The projection is the replay of the log\<close>

definition replayed :: "run_record \<Rightarrow> run_event_record list \<Rightarrow> run_projection" where
  "replayed rec evs = (run_state_create rec evs)
     \<lparr>rp_updated_at := (if evs = [] then rr_updated_at rec else er_timestamp (last evs))\<rparr>"

lemma replayed_snoc: "project_event er (replayed rec evs) = replayed rec (evs @ [er])"
proof -
  have u: "apply_event (s\<lparr>rp_updated_at := t\<rparr>) e = apply_event s e" for s e t by (cases e) simp_all
  have n: "rp_event_count (run_state_create rec evs) = length evs"
    by (simp add: run_state_create_def foldl_apply_count)
  have "apply_event (run_state_create rec evs) (er_event er) =
      (run_state_create rec (evs @ [er]))\<lparr>rp_event_count := length evs\<rparr>"
    using incremental_apply_matches_reload [of "[er]" rec evs] by simp
  moreover have "(s\<lparr>rp_event_count := k\<rparr>)\<lparr>rp_event_count := Suc (length evs), rp_updated_at := t\<rparr> =
      s\<lparr>rp_updated_at := t\<rparr>" if "rp_event_count s = Suc (length evs)" for s :: run_projection and k t
    using that by (cases s) simp
  moreover have "rp_event_count (run_state_create rec (evs @ [er])) = Suc (length evs)"
    by (simp only: run_state_create_def Let_def foldl_apply_count) simp
  ultimately show ?thesis by (simp add: project_event_def replayed_def u n)
qed

text \<open>What holds of a run from its creation on, whatever appends of other tasks are under way.\<close>

definition tracked :: "run_record \<Rightarrow> run_store \<Rightarrow> bool" where
  "tracked rec st \<longleftrightarrow> map_of (rs_runs st) (rr_id rec) = Some rec \<and>
     map_of (rs_projections st) (rr_id rec) = Some (replayed rec (rs_list_events (rr_id rec) st))"

definition untouched :: "run_id \<Rightarrow> store_world \<Rightarrow> bool" where
  "untouched r w \<longleftrightarrow> map_of (rs_events (sw_store w)) r = None \<and>
     (\<forall>t er. sw_pending w t = Some er \<longrightarrow> er_run_id er \<noteq> r)"

lemma untouched_step:
  "untouched r w \<Longrightarrow> act_run a \<noteq> Some r \<Longrightarrow> untouched r (store_step a w)"
  by (cases a) (auto simp: untouched_def rs_create_run_def rs_update_status_def take_sequence_def
      append_locked_def rs_delete_run_def update_conv' delete_conv' Let_def split: option.splits prod.splits)

lemma tracked_create:
  "untouched (rr_id rec) w \<Longrightarrow> tracked rec (rs_create_run rec (sw_store w))"
  by (simp add: tracked_def untouched_def rs_create_run_def rs_list_events_def update_conv'
      replayed_def run_state_create_def)

lemma tracked_commit: "tracked rec st \<Longrightarrow> tracked rec (append_locked er st)"
  by (auto simp: tracked_def append_locked_def rs_list_events_def update_conv' Let_def replayed_snoc
      split: option.splits)

lemma tracked_step:
  assumes "tracked rec (sw_store w)" and "act_run a = Some (rr_id rec) \<Longrightarrow> is_append_act a"
  shows "tracked rec (sw_store (store_step a w))"
proof (cases a)
  case (ActCommit t)
  then show ?thesis using assms(1) tracked_commit by (auto split: option.split)
next
  case (ActTake t er)
  then show ?thesis using assms(1)
    by (auto simp: take_sequence_def tracked_def rs_list_events_def split: option.split)
qed (use assms in \<open>auto simp: tracked_def rs_create_run_def rs_update_status_def rs_delete_run_def
    rs_list_events_def update_conv' delete_conv' split: option.splits\<close>)

lemma fold_untouched:
  "untouched r w \<Longrightarrow> \<forall>a\<in>set acts. act_run a \<noteq> Some r \<Longrightarrow> untouched r (run_acts acts w)"
  unfolding run_acts_def by (induction acts arbitrary: w) (simp_all add: untouched_step)

lemma fold_tracked:
  "tracked rec (sw_store w) \<Longrightarrow> \<forall>a\<in>set acts. act_run a = Some (rr_id rec) \<longrightarrow> is_append_act a \<Longrightarrow>
    tracked rec (sw_store (run_acts acts w))"
  unfolding run_acts_def by (induction acts arbitrary: w) (simp_all add: tracked_step)


definition sample_run :: run_record where
  "sample_run = run_record_new 1 ''r'' ''s'' ''p'' ''m'' JNull None"


section \<open>Sequence numbers\<close>

text \<open>The numbers given out so far are below \<open>n\<close>; those of a log are distinct and none of them is still
  with a task.\<close>

definition numbered :: "nat \<Rightarrow> store_world \<Rightarrow> bool" where
  "numbered n w \<longleftrightarrow> rs_sequence (sw_store w) = of_nat n \<and>
     (\<forall>r. distinct (map er_sequence (rs_list_events r (sw_store w)))) \<and>
     (\<forall>r. \<forall>e\<in>set (rs_list_events r (sw_store w)). unat (er_sequence e) < n) \<and>
     (\<forall>t e. sw_pending w t = Some e \<longrightarrow> unat (er_sequence e) < n \<and>
        (\<forall>r. er_sequence e \<notin> er_sequence ` set (rs_list_events r (sw_store w))) \<and>
        (\<forall>u d. sw_pending w u = Some d \<longrightarrow> er_sequence d = er_sequence e \<longrightarrow> u = t))"

lemma list_events_append_locked:
  "rs_list_events r (append_locked er st) =
    (if r = er_run_id er then rs_list_events r st @ [er] else rs_list_events r st)"
  by (simp add: append_locked_def rs_list_events_def update_conv' Let_def)

lemma numbered_commit:
  assumes "numbered n w" and "sw_pending w t = Some er"
  shows "numbered n (store_step (ActCommit t) w)"
proof -
  have "rs_sequence (append_locked er (sw_store w)) = rs_sequence (sw_store w)"
    by (simp add: append_locked_def Let_def)
  with assms show ?thesis
    unfolding numbered_def by (auto simp: list_events_append_locked)
qed

lemma numbered_take:
  assumes n: "numbered n w" and "sw_pending w t = None" and b: "n < 2 ^ 64"
  shows "numbered (n + 1) (store_step (ActTake t er) w)"
proof -
  have u: "unat (of_nat n :: u64) = n" using b by (simp add: unat_of_nat take_bit_nat_eq_self)
  have fresh: "unat x < n \<Longrightarrow> x \<noteq> of_nat n" for x :: u64 using u by auto
  have l: "rs_list_events r (sw_store w\<lparr>rs_sequence := k\<rparr>) = rs_list_events r (sw_store w)" for r k
    by (simp add: rs_list_events_def)
  show ?thesis using n assms(2) unfolding numbered_def
    by (auto simp: take_sequence_def l u less_SucI dest: fresh) (metis fresh)+
qed

lemma numbered_other:
  assumes "numbered n w" and "case a of ActTake _ _ \<Rightarrow> False | ActCommit _ \<Rightarrow> False | _ \<Rightarrow> True"
  shows "numbered n (store_step a w)"
proof -
  have "rs_list_events r (sw_store (store_step a w)) \<in> {rs_list_events r (sw_store w), []}" for r
    using assms(2) by (cases a) (auto simp: rs_create_run_def rs_update_status_def rs_delete_run_def
        rs_list_events_def delete_conv' split: option.splits)
  then have "\<And>r. rs_list_events r (sw_store (store_step a w)) = rs_list_events r (sw_store w) \<or>
      rs_list_events r (sw_store (store_step a w)) = []" by auto
  moreover have "rs_sequence (sw_store (store_step a w)) = rs_sequence (sw_store w)"
    "sw_pending (store_step a w) = sw_pending w"
    using assms(2) by (cases a; auto simp: rs_create_run_def rs_update_status_def rs_delete_run_def
        split: option.splits)+
  ultimately show ?thesis using assms(1) unfolding numbered_def
    by (metis distinct.simps(1) empty_iff empty_set image_is_empty list.simps(8))
qed

text \<open>Sequence numbers of a log never repeat, however appends, creations and deletions interleave, for
  fewer than \<open>2^64\<close> actions.\<close>

theorem sequence_numbers_unique:
  assumes "length acts < 2 ^ 64"
  shows "distinct (map er_sequence (rs_list_events r (sw_store (run_acts acts world_new))))"
proof -
  have "\<exists>n \<le> length acts. numbered n (run_acts acts world_new)"
    using assms
  proof (induction acts rule: rev_induct)
    case Nil
    then show ?case
      by (simp add: run_acts_def numbered_def world_new_def run_store_new_def rs_list_events_def)
  next
    case (snoc a acts)
    then obtain n where n: "n \<le> length acts" "numbered n (run_acts acts world_new)" by auto
    have r: "run_acts (acts @ [a]) world_new = store_step a (run_acts acts world_new)"
      by (simp add: run_acts_def)
    show ?case
    proof (cases a)
      case (ActTake t er)
      show ?thesis
      proof (cases "sw_pending (run_acts acts world_new) t")
        case None
        then have "numbered (n + 1) (run_acts (acts @ [a]) world_new)"
          using numbered_take [OF n(2) None] n(1) snoc.prems unfolding r by (simp add: ActTake)
        then show ?thesis using n(1) by (intro exI [of _ "n + 1"]) simp
      qed (use n r ActTake in \<open>auto intro!: exI [of _ n]\<close>)
    next
      case (ActCommit t)
      then show ?thesis unfolding r
        using numbered_commit [OF n(2), of t] n
        by (cases "sw_pending (run_acts acts world_new) t") (auto intro!: exI [of _ n])
    qed (use numbered_other [OF n(2), of a] n r in \<open>auto intro!: exI [of _ n]\<close>)
  qed
  then show ?thesis unfolding numbered_def by blast
qed

theorem sequence_numbers_unique_witness:
  "distinct (map er_sequence (rs_list_events ''r'' (sw_store (run_acts
      [ActTake 0 (event_record_new 5 0 ''r'' (EvRunCancelled ''r'' 5)), ActCommit 0] world_new))))"
  by (rule sequence_numbers_unique) simp

text \<open>Two appends to one run can be logged in the opposite order of their sequence numbers.\<close>

lemma log_out_of_sequence:
  "map er_sequence (rs_list_events ''r'' (sw_store (run_acts
      [ActTake 0 (event_record_new 5 0 ''r'' (EvRunCancelled ''r'' 5)),
       ActTake 1 (event_record_new 6 0 ''r'' (EvRunCancelled ''r'' 6)),
       ActCommit 1, ActCommit 0] world_new))) = [1, 0]"
  by code_simp

text \<open>The log of a run that does not exist is empty, and no error.\<close>

lemma events_of_missing_run: "rs_list_events r run_store_new = []"
  by (simp add: rs_list_events_def run_store_new_def)

text \<open>A status that is set without an event is in the projection of the store, not in the reference one.\<close>

lemma status_without_event:
  defines "st \<equiv> snd (rs_update_status 9 ''r'' StFailed (rs_create_run sample_run run_store_new))"
  shows "map_option rp_status (rs_get_run_state ''r'' st) = Some StFailed"
    and "map_option rp_status (default_run_state ''r'' st) = Some StPending"
  unfolding st_def by code_simp+

text \<open>Creating a run again resets its projection and keeps its log.\<close>

lemma recreated_run_forgets_log:
  defines "st \<equiv> rs_create_run sample_run (rs_append_event (event_record_new 5 0 ''r'' (EvRunCancelled ''r'' 5))
      (rs_create_run sample_run run_store_new))"
  shows "map_option rp_event_count (rs_get_run_state ''r'' st) = Some 0"
    and "length (rs_list_events ''r'' st) = 1"
  unfolding st_def by code_simp+

section \<open>Listing\<close>

text \<open>Pages of a listing put together are the whole listing, newest runs first.\<close>

definition all_filtered :: "uuid option \<Rightarrow> run_status option \<Rightarrow> run_store \<Rightarrow> run_record list" where
  "all_filtered sid status st =
     sort_key (\<lambda>r. - int (rr_created_at r)) (filter (run_filter sid status) (map snd (rs_runs st)))"

lemma page_of_listing:
  "1 \<le> n \<Longrightarrow> n \<le> 1000 \<Longrightarrow> rs_list_filtered sid status n k st = take n (drop k (all_filtered sid status st))"
  by (simp add: rs_list_filtered_def all_filtered_def max_absorb1 min_absorb1)

text \<open>Paging through the runs. With a page size of one to a thousand the pages at the multiples of the size
  are, one after the other, all the runs of the filter, each once, newest first.\<close>

theorem run_pages_complete:
  assumes "1 \<le> n" and "n \<le> 1000" and "length (all_filtered sid status st) \<le> m * n"
  shows "concat (map (\<lambda>i. rs_list_filtered sid status n (i * n) st) [0..<m]) = all_filtered sid status st \<and>
    sorted_wrt (\<lambda>a b. rr_created_at b \<le> rr_created_at a) (all_filtered sid status st) \<and>
    mset (all_filtered sid status st) = mset (filter (run_filter sid status) (map snd (rs_runs st)))"
proof (intro conjI)
  have "concat (map (\<lambda>i. take n (drop (i * n) xs)) [0..<m]) = take (m * n) xs" for xs :: "run_record list"
  proof (induction m)
    case (Suc m)
    then show ?case using take_add [of "m * n" n xs] by (simp add: add.commute)
  qed simp
  then show "concat (map (\<lambda>i. rs_list_filtered sid status n (i * n) st) [0..<m]) = all_filtered sid status st"
    using assms(3) by (simp add: page_of_listing [OF assms(1,2)])
  have "sorted (map (\<lambda>r. - int (rr_created_at r)) (all_filtered sid status st))"
    by (simp add: all_filtered_def)
  then show "sorted_wrt (\<lambda>a b. rr_created_at b \<le> rr_created_at a) (all_filtered sid status st)"
    by (simp add: sorted_map)
qed (simp add: all_filtered_def)

theorem run_pages_complete_witness:
  "concat (map (\<lambda>i. rs_list_filtered None None 1 (i * 1) (rs_create_run sample_run run_store_new)) [0..<2]) =
    [sample_run]"
proof -
  have a: "all_filtered None None (rs_create_run sample_run run_store_new) = [sample_run]" by code_simp
  show ?thesis
    using run_pages_complete [of 1 None None "rs_create_run sample_run run_store_new" 2] unfolding a by simp
qed

end
