(* ===== verification/Managed_Runtime.thy ===== *)
theory Managed_Runtime
  imports Component_Registry Rust_Str
begin

text \<open>
  Health of components (\<open>behest-core/src/health.rs\<close>) and the container that serves, probes and
  reloads them (\<open>behest-runtime/src/managed.rs\<close>). A health probe and a lifecycle hook act on an
  environment; the map of statuses is an association list. Whether an instance is of the requested
  type is a parameter, as the type is not part of the registry's view of it.
\<close>

section \<open>Health\<close>

definition healthy :: health_status where
  "healthy = Healthy None"

definition healthy_with :: "json \<Rightarrow> health_status" where
  "healthy_with d = Healthy (Some d)"

definition degraded :: "string \<Rightarrow> health_status" where
  "degraded reason = Degraded reason None"

definition degraded_with :: "string \<Rightarrow> json \<Rightarrow> health_status" where
  "degraded_with reason d = Degraded reason (Some d)"

definition unhealthy :: "string \<Rightarrow> health_status" where
  "unhealthy reason = Unhealthy reason None"

definition unhealthy_with :: "string \<Rightarrow> json \<Rightarrow> health_status" where
  "unhealthy_with reason d = Unhealthy reason (Some d)"

fun with_detail :: "json \<Rightarrow> health_status \<Rightarrow> health_status" where
  "with_detail d (Healthy _) = Healthy (Some d)"
| "with_detail d (Degraded r _) = Degraded r (Some d)"
| "with_detail d (Unhealthy r _) = Unhealthy r (Some d)"

fun is_healthy :: "health_status \<Rightarrow> bool" where
  "is_healthy (Healthy _) = True"
| "is_healthy _ = False"

fun is_operational :: "health_status \<Rightarrow> bool" where
  "is_operational (Unhealthy _ _) = False"
| "is_operational _ = True"

fun health_label :: "health_status \<Rightarrow> string" where
  "health_label (Healthy _) = ''healthy''"
| "health_label (Degraded _ _) = ''degraded''"
| "health_label (Unhealthy _ _) = ''unhealthy''"

definition json_option :: "json option \<Rightarrow> json" where
  "json_option d = (case d of None \<Rightarrow> JNull | Some v \<Rightarrow> v)"

fun health_to_json :: "health_status \<Rightarrow> json" where
  "health_to_json (Healthy d) = JObject [(''status'', JString ''healthy''), (''detail'', json_option d)]"
| "health_to_json (Degraded r d) =
     JObject [(''status'', JString ''degraded''), (''reason'', JString r), (''detail'', json_option d)]"
| "health_to_json (Unhealthy r d) =
     JObject [(''status'', JString ''unhealthy''), (''reason'', JString r), (''detail'', json_option d)]"

fun show_health :: "(json \<Rightarrow> string) \<Rightarrow> health_status \<Rightarrow> string" where
  "show_health pr (Healthy None) = ''healthy''"
| "show_health pr (Healthy (Some d)) = ''healthy('' @ pr d @ '')''"
| "show_health pr (Degraded r None) = ''degraded('' @ r @ '')''"
| "show_health pr (Degraded r (Some d)) = ''degraded('' @ r @ ''; '' @ pr d @ '')''"
| "show_health pr (Unhealthy r None) = ''unhealthy('' @ r @ '')''"
| "show_health pr (Unhealthy r (Some d)) = ''unhealthy('' @ r @ ''; '' @ pr d @ '')''"

type_synonym health_map = "(string \<times> health_status) list"

text \<open>The loop over the map: the names of the unhealthy and of the degraded components.\<close>

fun classify :: "health_map \<Rightarrow> string list \<Rightarrow> string list \<Rightarrow> string list \<times> string list" where
  "classify [] bad poor = (bad, poor)"
| "classify ((n, s) # m) bad poor =
     (case s of
        Unhealthy _ _ \<Rightarrow> classify m (bad @ [n]) poor
      | Degraded _ _ \<Rightarrow> classify m bad (poor @ [n])
      | Healthy _ \<Rightarrow> classify m bad poor)"

definition detail_map :: "health_map \<Rightarrow> json" where
  "detail_map m = JObject (map (\<lambda>(k, v). (k, health_to_json v)) (filter (\<lambda>(_, s). \<not> is_healthy s) m))"

definition aggregate :: "health_map \<Rightarrow> health_status" where
  "aggregate m =
     (case classify m [] [] of (bad, poor) \<Rightarrow>
        if bad \<noteq> [] then unhealthy_with (''unhealthy components: '' @ str_join '', '' bad) (detail_map m)
        else if poor \<noteq> [] then degraded_with (''degraded components: '' @ str_join '', '' poor) (detail_map m)
        else healthy)"

definition healthz_response :: "health_map \<Rightarrow> json" where
  "healthz_response m =
     JObject [(''status'', JString (health_label (aggregate m))),
              (''components'', JObject (map (\<lambda>(k, v). (k, health_to_json v)) m))]"

section \<open>The container\<close>

datatype managed_error =
    ComponentNotFound string
  | ManagedRegistry registry_error
  | ManagedReload string string

text \<open>\<open>serve\<close> once the root token has been signalled.\<close>

definition serve_signalled ::
  "'e component_registry \<Rightarrow> 'e \<Rightarrow> ((managed_error + unit) \<times> 'e component_registry \<times> 'e) option" where
  "serve_signalled r e = map_option (\<lambda>(res, s). (map_sum ManagedRegistry id res, s)) (stop_all r e)"

definition managed_is_healthy :: "'e component_registry \<Rightarrow> 'e \<Rightarrow> (bool \<times> 'e) option" where
  "managed_is_healthy r e = map_option (\<lambda>(m, e'). (list_all (is_healthy \<circ> snd) m, e')) (registry_health r e)"

definition overall_health :: "'e component_registry \<Rightarrow> 'e \<Rightarrow> (health_status \<times> 'e) option" where
  "overall_health r e = map_option (\<lambda>(m, e'). (aggregate m, e')) (registry_health r e)"

definition managed_is_ready :: "'e component_registry \<Rightarrow> 'e \<Rightarrow> (bool \<times> 'e) option" where
  "managed_is_ready r e = map_option (\<lambda>(m, e'). (list_all (is_operational \<circ> snd) m, e')) (registry_health r e)"

definition healthz_json :: "'e component_registry \<Rightarrow> 'e \<Rightarrow> (json \<times> 'e) option" where
  "healthz_json r e = map_option (\<lambda>(m, e'). (healthz_response m, e')) (registry_health r e)"

fun reload_error :: "registry_error \<Rightarrow> managed_error" where
  "reload_error (RegistryNotFound n) = ComponentNotFound n"
| "reload_error (ReloadFailed n m) = ManagedReload n m"
| "reload_error other = ManagedRegistry other"

definition reload_raw ::
  "'e component_registry \<Rightarrow> string \<Rightarrow> 'e any_component \<Rightarrow> 'e \<Rightarrow>
    (managed_error + 'e any_component) \<times> 'e component_registry \<times> 'e" where
  "reload_raw r n new e = map_prod (map_sum reload_error id) id (replace_instance r n new e)"

definition reload ::
  "('e any_component \<Rightarrow> bool) \<Rightarrow> 'e component_registry \<Rightarrow> string \<Rightarrow> 'e any_component \<Rightarrow> 'e \<Rightarrow>
    (managed_error + 'e any_component) \<times> 'e component_registry \<times> 'e" where
  "reload has_type r n new e =
     (case reload_raw r n new e of
        (Inl x, s) \<Rightarrow> (Inl x, s)
      | (Inr old, s) \<Rightarrow>
          if has_type old then (Inr old, s)
          else (Inl (ManagedReload n ''old instance type mismatch after swap''), s))"

section \<open>Probes\<close>

lemma classify_accumulates:
  "classify m bad poor =
    (bad @ map fst (filter (\<lambda>(_, s). \<not> is_operational s) m),
     poor @ map fst (filter (\<lambda>(_, s). is_operational s \<and> \<not> is_healthy s) m))"
proof (induction m arbitrary: bad poor)
  case (Cons p m)
  then show ?case by (cases p; cases "snd p") auto
qed simp

lemma aggregate_operational: "is_operational (aggregate m) \<longleftrightarrow> list_all (is_operational \<circ> snd) m"
  by (force simp: aggregate_def classify_accumulates unhealthy_with_def degraded_with_def healthy_def
      filter_empty_conv list_all_iff)

lemma healthy_operational: "is_healthy s \<Longrightarrow> is_operational s"
  by (cases s) simp_all

lemma aggregate_healthy: "is_healthy (aggregate m) \<longleftrightarrow> list_all (is_healthy \<circ> snd) m"
  by (force simp: aggregate_def classify_accumulates unhealthy_with_def degraded_with_def healthy_def
      filter_empty_conv list_all_iff dest: healthy_operational)

text \<open>The four probes of the container agree: it is ready exactly when the overall status is not unhealthy,
  and healthy exactly when the overall status is, and the response body carries the label of that
  status.\<close>

theorem probes_agree:
  "managed_is_ready r e = map_option (map_prod is_operational id) (overall_health r e) \<and>
   managed_is_healthy r e = map_option (map_prod is_healthy id) (overall_health r e) \<and>
   map_option (\<lambda>(v, e'). (case v of JObject ((k, s) # _) \<Rightarrow> s | _ \<Rightarrow> JNull, e')) (healthz_json r e) =
     map_option (map_prod (JString \<circ> health_label) id) (overall_health r e)"
  by (auto simp: managed_is_ready_def managed_is_healthy_def overall_health_def healthz_json_def
      healthz_response_def aggregate_operational aggregate_healthy option.map_comp
      intro!: option.map_cong split: prod.split)

text \<open>A component that is declared and not initialized makes the whole container not ready.\<close>

lemma health_each_keeps:
  "health_each r ns out e = (m, e') \<Longrightarrow> map_of (reg_instances r) n = None \<Longrightarrow>
    map_of out n = Some (Unhealthy ''not initialized'' None) \<Longrightarrow>
    map_of m n = Some (Unhealthy ''not initialized'' None)"
proof (induction r ns out e arbitrary: m e' rule: health_each.induct)
  case (2 r name names out e)
  then show ?case
    by (cases "n = name") (auto simp: update_conv' split: option.splits prod.splits)
qed simp

lemma health_each_names:
  "health_each r names out e = (m, e') \<Longrightarrow> n \<in> set names \<Longrightarrow> map_of (reg_instances r) n = None \<Longrightarrow>
    map_of m n = Some (Unhealthy ''not initialized'' None)"
proof (induction r names out e arbitrary: m e' rule: health_each.induct)
  case (2 r name names out e)
  then show ?case
    by (cases "n = name")
      (auto simp: update_conv' intro: health_each_keeps split: option.splits prod.splits)
qed simp

lemma uninitialized_not_ready:
  assumes "registry_names r = Some names" and "n \<in> set names" and "map_of (reg_instances r) n = None"
  shows "map_option fst (managed_is_ready r e) = Some False"
proof -
  obtain m e' where m: "health_each r names [] e = (m, e')" by fastforce
  have "(n, Unhealthy ''not initialized'' None) \<in> set m"
    using health_each_names [OF m assms(2,3)] by (rule map_of_SomeD)
  then show ?thesis using assms(1) m
    by (force simp: managed_is_ready_def registry_health_def list_all_iff)
qed

section \<open>Reloading\<close>

text \<open>Reloading replaces all or nothing. When it fails the registry is as it was; when it succeeds the
  component was running and is again, its instance is the new one, whose start has been called, the old
  instance is handed back and no other component is touched.\<close>

theorem reload_all_or_nothing:
  "(case reload_raw r n new e of
      (Inl x, r', e') \<Rightarrow> r' = r \<and> (x = ComponentNotFound n \<or> (\<exists>m. x = ManagedReload n m))
    | (Inr old, r', e') \<Rightarrow> map_of (reg_instances r) n = Some old \<and> state_of r n = Some Running \<and>
        map_of (reg_instances r') = (map_of (reg_instances r))(n \<mapsto> new) \<and>
        (\<forall>k. state_of r' k = state_of r k) \<and> reg_factories r' = reg_factories r \<and>
        reg_descriptors r' = reg_descriptors r \<and> (\<exists>e1 e2. ac_start new e1 = (Inr (), e2)))"
  by (auto simp: reload_raw_def replace_instance_def set_state_def state_of_def update_conv' Let_def
      split: option.splits sum.splits prod.splits if_splits)

text \<open>A reload with an instance of another type is reported as failed although it has happened.\<close>

lemma reload_of_other_type_takes_effect:
  assumes "reload_raw r n new e = (Inr old, r', e')" and "\<not> has_type old"
  shows "reload has_type r n new e =
      (Inl (ManagedReload n ''old instance type mismatch after swap''), r', e')"
    and "map_of (reg_instances r') n = Some new"
proof -
  show "reload has_type r n new e =
      (Inl (ManagedReload n ''old instance type mismatch after swap''), r', e')"
    using assms by (simp add: reload_def)
  from assms(1) show "map_of (reg_instances r') n = Some new"
    by (auto simp: reload_raw_def replace_instance_def set_state_def update_conv' Let_def
      split: option.splits sum.splits prod.splits if_splits)
qed

end
