(* ===== verification/Hook_Stack.thy ===== *)
theory Hook_Stack
  imports Agent_Events "HOL-Library.Multiset"
begin

text \<open>
  Hooks on agent events and the actions they declare (\<open>behest-event/src/lib.rs\<close>). A hook is its name,
  its reaction to an event in a context and its priority; a state delta is a map.
\<close>

section \<open>Actions\<close>

record approval_ask =
  aq_call_id :: string
  aq_tool_name :: string
  aq_arguments :: json
  aq_reason :: string
  aq_timeout_secs :: "u64 option"

record progress_note =
  pn_status :: string
  pn_data :: json

record event_actions =
  ea_state_delta :: "string \<rightharpoonup> json"
  ea_persist :: bool
  ea_compact :: bool
  ea_demote :: bool
  ea_approval :: "approval_ask option"
  ea_progress :: "progress_note option"
  ea_notify :: "string option"
  ea_trace :: "string option"

definition actions_new :: event_actions where
  "actions_new =
     \<lparr>ea_state_delta = Map.empty, ea_persist = False, ea_compact = False, ea_demote = False,
      ea_approval = None, ea_progress = None, ea_notify = None, ea_trace = None\<rparr>"

definition later :: "'a option \<Rightarrow> 'a option \<Rightarrow> 'a option" where
  "later old new = (if new \<noteq> None then new else old)"

definition merge_one :: "event_actions \<Rightarrow> event_actions \<Rightarrow> event_actions" where
  "merge_one m a =
     \<lparr>ea_state_delta = ea_state_delta m ++ ea_state_delta a,
      ea_persist = (ea_persist m \<or> ea_persist a), ea_compact = (ea_compact m \<or> ea_compact a),
      ea_demote = (ea_demote m \<or> ea_demote a), ea_approval = later (ea_approval m) (ea_approval a),
      ea_progress = later (ea_progress m) (ea_progress a), ea_notify = later (ea_notify m) (ea_notify a),
      ea_trace = later (ea_trace m) (ea_trace a)\<rparr>"

definition actions_merge :: "event_actions list \<Rightarrow> event_actions" where
  "actions_merge as = foldl merge_one actions_new as"

section \<open>Hooks\<close>

record 'c hook =
  hk_name :: string
  hk_on_event :: "agent_event \<Rightarrow> 'c \<Rightarrow> event_actions list"
  hk_priority :: int

type_synonym 'c hook_stack = "'c hook list"

definition stack_new :: "'c hook_stack" where
  "stack_new = []"

definition stack_push :: "'c hook \<Rightarrow> 'c hook_stack \<Rightarrow> 'c hook_stack" where
  "stack_push h st = sort_key hk_priority (st @ [h])"

definition stack_dispatch :: "'c hook_stack \<Rightarrow> agent_event \<Rightarrow> 'c \<Rightarrow> event_actions list" where
  "stack_dispatch st ev ctx = [actions_merge (concat (map (\<lambda>h. hk_on_event h ev ctx) st))]"

definition stack_len :: "'c hook_stack \<Rightarrow> usize" where
  "stack_len st = length st"

definition stack_is_empty :: "'c hook_stack \<Rightarrow> bool" where
  "stack_is_empty st \<longleftrightarrow> st = []"

section \<open>Merging\<close>

lemma later_simps [simp]: "later None x = x" "later x None = x" "later x (Some y) = Some y"
  by (auto simp: later_def)

lemma later_assoc: "later (later x y) z = later x (later y z)"
  by (auto simp: later_def)

lemma merge_one_assoc: "merge_one (merge_one a b) c = merge_one a (merge_one b c)"
  by (simp add: merge_one_def later_assoc disj_assoc)

lemma merge_one_new [simp]: "merge_one actions_new a = a" "merge_one a actions_new = a"
  by (simp_all add: merge_one_def actions_new_def)

lemma foldl_merge_one: "foldl merge_one a as = merge_one a (actions_merge as)"
proof (induction as arbitrary: a)
  case (Cons b as)
  have "actions_merge (b # as) = merge_one b (actions_merge as)"
    using Cons [of b] by (simp add: actions_merge_def)
  with Cons [of "merge_one a b"] show ?case by (simp add: merge_one_assoc)
qed (simp add: actions_merge_def)

lemma actions_merge_Cons: "actions_merge (a # as) = merge_one a (actions_merge as)"
  using foldl_merge_one [of a as] by (simp add: actions_merge_def)

lemma actions_merge_append: "actions_merge (as @ bs) = merge_one (actions_merge as) (actions_merge bs)"
  by (induction as) (simp_all add: actions_merge_Cons merge_one_assoc, simp add: actions_merge_def)

lemma actions_merge_single [simp]: "actions_merge [a] = a"
  by (simp add: actions_merge_def)

text \<open>What a merged set of actions asks for: a flag when some set does, a value of the delta or an option
  as the last set that has one says.\<close>

lemma actions_merge_fields:
  "ea_persist (actions_merge as) \<longleftrightarrow> (\<exists>a\<in>set as. ea_persist a)"
  "ea_compact (actions_merge as) \<longleftrightarrow> (\<exists>a\<in>set as. ea_compact a)"
  "ea_demote (actions_merge as) \<longleftrightarrow> (\<exists>a\<in>set as. ea_demote a)"
  "ea_notify (actions_merge as) = foldl later None (map ea_notify as)"
proof -
  show "ea_persist (actions_merge as) \<longleftrightarrow> (\<exists>a\<in>set as. ea_persist a)"
    by (induction as) (simp_all add: actions_merge_Cons merge_one_def, simp add: actions_merge_def actions_new_def)
  show "ea_compact (actions_merge as) \<longleftrightarrow> (\<exists>a\<in>set as. ea_compact a)"
    by (induction as) (simp_all add: actions_merge_Cons merge_one_def, simp add: actions_merge_def actions_new_def)
  show "ea_demote (actions_merge as) \<longleftrightarrow> (\<exists>a\<in>set as. ea_demote a)"
    by (induction as) (simp_all add: actions_merge_Cons merge_one_def, simp add: actions_merge_def actions_new_def)
  show "ea_notify (actions_merge as) = foldl later None (map ea_notify as)"
    by (induction as rule: rev_induct)
      (simp_all add: actions_merge_append merge_one_def, simp add: actions_merge_def actions_new_def)
qed

section \<open>The order of hooks\<close>

lemma push_sorts: "foldl (\<lambda>st h. stack_push h st) (sort_key hk_priority hs) gs = sort_key hk_priority (hs @ gs)"
proof (induction gs arbitrary: hs)
  case (Cons g gs)
  have s: "[x\<leftarrow>sort_key hk_priority xs. k = hk_priority x] = [x\<leftarrow>xs. k = hk_priority x]"
    for k and xs :: "'a hook list"
    using sort_key_stable [of hk_priority k xs] by (simp only: eq_commute)
  have "stack_push g (sort_key hk_priority hs) = sort_key hk_priority (hs @ [g])"
    unfolding stack_push_def by (rule properties_for_sort_key) (simp_all only: s filter_append, simp_all)
  with Cons [of "hs @ [g]"] show ?case by simp
qed simp

text \<open>What the hooks of a stack do together. However they were pushed, the stack holds each of them once,
  by priority and, among equals, in the order of pushing. It answers an event with one set of actions:
  a flag is set when some hook sets it, and the notification is that of the last hook that has one.\<close>

theorem hook_dispatch_exact:
  "let st = foldl (\<lambda>st h. stack_push h st) stack_new hs;
       as = concat (map (\<lambda>h. hk_on_event h ev ctx) st)
   in mset st = mset hs \<and> sorted (map hk_priority st) \<and>
     [h\<leftarrow>st. hk_priority h = k] = [h\<leftarrow>hs. hk_priority h = k] \<and>
     stack_dispatch st ev ctx = [actions_merge as] \<and>
     (ea_compact (actions_merge as) \<longleftrightarrow> (\<exists>a\<in>set as. ea_compact a)) \<and>
     ea_notify (actions_merge as) = (case rev (filter (\<lambda>x. x \<noteq> None) (map ea_notify as)) of
       [] \<Rightarrow> None | x # _ \<Rightarrow> x)"
proof -
  have "foldl later None xs = (case rev (filter (\<lambda>x. x \<noteq> None) xs) of [] \<Rightarrow> None | x # _ \<Rightarrow> x)"
    for xs :: "string option list"
    by (induction xs rule: rev_induct) (auto simp: later_def split: list.split)
  then show ?thesis using push_sorts [of "[]" hs]
    by (simp add: stack_new_def stack_dispatch_def Let_def actions_merge_fields sort_key_stable)
qed

end
