(* ===== verification/Memory_Facts.thy ===== *)
theory Memory_Facts
  imports Complex_Main Rust_Str "HOL-Library.Product_Lexorder"
begin

text \<open>
  Facts worth remembering in a user's text (\<open>behest-memory/src/facts.rs\<close>). Parameters: the matches of
  the twelve regular expressions, as the spans of their group with its text and that of the match, and
  the lower case of Unicode. A confidence is the exact number, before rounding to \<open>f32\<close>.
\<close>

section \<open>Facts\<close>

datatype fact_category = Preference | Environment | Solution | PatternFact | OtherFact

fun show_category :: "fact_category \<Rightarrow> string" where
  "show_category Preference = ''preference''"
| "show_category Environment = ''environment''"
| "show_category Solution = ''solution''"
| "show_category PatternFact = ''pattern''"
| "show_category OtherFact = ''other''"

record extracted_fact =
  fc_content :: string
  fc_category :: fact_category
  fc_confidence :: rat
  fc_pattern :: string

definition min_fact_len :: usize where "min_fact_len = 8"
definition max_fact_len :: usize where "max_fact_len = 240"

type_synonym lower_case = "string \<Rightarrow> string"

definition mentions :: "string \<Rightarrow> string list \<Rightarrow> bool" where
  "mentions s ws \<longleftrightarrow> list_ex (\<lambda>w. str_contains w s) ws"

definition categorize :: "lower_case \<Rightarrow> string \<Rightarrow> fact_category" where
  "categorize lower_case content =
     (let s = lower_case content in
      if mentions s [''prefer'', ''like'', ''always'', ''never'', ''favorite''] then Preference
      else if mentions s [''fix'', ''solve'', ''error'', ''bug'', ''workaround''] then Solution
      else if mentions s [''pattern'', ''convention'', ''standard'', ''practice''] then PatternFact
      else if mentions s [''port'', ''host'', ''server'', ''database'', ''db'', ''config'', ''url'', ''token'',
        ''endpoint'', ''api''] then Environment
      else OtherFact)"

definition confidence_for :: "string \<Rightarrow> string \<Rightarrow> rat" where
  "confidence_for name content =
     (let base =
        (if name \<in> {''please_remember'', ''remember_that'', ''for_future_reference''} then 95 / 100
         else if name = ''note_that'' then 85 / 100
         else if name \<in> {''i_prefer'', ''my_preferred'', ''i_always'', ''i_never''} then 80 / 100
         else if name \<in> {''my_project'', ''we_use'', ''our_is''} then 70 / 100
         else if name = ''the_x'' then 60 / 100
         else 50 / 100)
      in base + min (of_nat (length (utf8_chars content)) / 240) (5 / 100))"

definition detection_patterns :: "string list" where
  "detection_patterns =
     [''please_remember'', ''remember_that'', ''note_that'', ''for_future_reference'', ''i_prefer'',
      ''my_preferred'', ''my_project'', ''i_always'', ''i_never'', ''we_use'', ''our_is'', ''the_x'']"

section \<open>Detection\<close>

record capture =
  cp_start :: usize
  cp_end :: usize
  cp_full :: string
  cp_body :: string

type_synonym captures = "string \<Rightarrow> string \<Rightarrow> capture list"

type_synonym candidate = "string \<times> capture"

definition candidates :: "captures \<Rightarrow> string \<Rightarrow> candidate list" where
  "candidates caps text' = concat (map (\<lambda>p. map (\<lambda>c. (p, c)) (caps p text')) detection_patterns)"

definition by_position :: "candidate list \<Rightarrow> candidate list" where
  "by_position cs = sort_key (\<lambda>(_, c). (int (cp_start c), - int (cp_end c))) cs"

definition overlaps :: "capture \<Rightarrow> usize \<times> usize \<Rightarrow> bool" where
  "overlaps c sp \<longleftrightarrow> (case sp of (s, e) \<Rightarrow> cp_start c < e \<and> s < cp_end c)"

definition fact_content :: "capture \<Rightarrow> string" where
  "fact_content c = str_trim (trim_end_list (\<lambda>x. x = CHR ''.'') (str_trim (cp_body c)))"

definition retainable :: "capture \<Rightarrow> bool" where
  "retainable c \<longleftrightarrow> min_fact_len \<le> length (utf8_chars (fact_content c)) \<and>
     length (utf8_chars (fact_content c)) \<le> max_fact_len"

definition make_fact :: "lower_case \<Rightarrow> candidate \<Rightarrow> extracted_fact" where
  "make_fact lower_case pc =
     \<lparr>fc_content = fact_content (snd pc), fc_category = categorize lower_case (cp_full (snd pc)),
      fc_confidence = confidence_for (fst pc) (fact_content (snd pc)), fc_pattern = fst pc\<rparr>"

text \<open>The loop over the candidates: the accepted spans and the candidates that become facts.\<close>

fun accept :: "candidate list \<Rightarrow> (usize \<times> usize) list \<Rightarrow> candidate list" where
  "accept [] spans = []"
| "accept (pc # pcs) spans =
     (if list_ex (overlaps (snd pc)) spans then accept pcs spans
      else if retainable (snd pc) then pc # accept pcs (spans @ [(cp_start (snd pc), cp_end (snd pc))])
      else accept pcs spans)"

fun retain_unseen :: "lower_case \<Rightarrow> extracted_fact list \<Rightarrow> string set \<Rightarrow> extracted_fact list" where
  "retain_unseen lower_case [] seen = []"
| "retain_unseen lower_case (f # fs) seen =
     (let key = lower_case (fc_content f) in
      if key \<in> seen then retain_unseen lower_case fs seen
      else f # retain_unseen lower_case fs (insert key seen))"

definition detect_facts :: "captures \<Rightarrow> lower_case \<Rightarrow> string \<Rightarrow> extracted_fact list" where
  "detect_facts caps lower_case text' =
     retain_unseen lower_case (map (make_fact lower_case) (accept (by_position (candidates caps text')) [])) {}"

section \<open>What is detected\<close>

definition disjoint_spans :: "capture \<Rightarrow> capture \<Rightarrow> bool" where
  "disjoint_spans a b \<longleftrightarrow> \<not> overlaps b (cp_start a, cp_end a)"

lemma accept_sound:
  "pc \<in> set (accept pcs spans) \<Longrightarrow> pc \<in> set pcs \<and> retainable (snd pc) \<and> \<not> list_ex (overlaps (snd pc)) spans"
  by (induction pcs spans rule: accept.induct) (auto split: if_splits)

lemma accept_disjoint: "sorted_wrt (\<lambda>a b. disjoint_spans (snd a) (snd b)) (accept pcs spans)"
  by (induction pcs spans rule: accept.induct) (auto simp: disjoint_spans_def dest: accept_sound)

lemma accept_complete:
  "pc \<in> set pcs \<Longrightarrow> retainable (snd pc) \<Longrightarrow> pc \<in> set (accept pcs spans) \<or>
    list_ex (overlaps (snd pc)) spans \<or>
    (\<exists>a\<in>set (accept pcs spans). overlaps (snd pc) (cp_start (snd a), cp_end (snd a)))"
proof (induction pcs spans rule: accept.induct)
  case (2 x pcs spans)
  show ?case
  proof (cases "pc = x")
    case False
    with "2.prems" have m: "pc \<in> set pcs" by simp
    show ?thesis
    proof (cases "list_ex (overlaps (snd x)) spans \<or> \<not> retainable (snd x)")
      case False
      with "2.IH"(2) [OF _ _ m "2.prems"(2)] show ?thesis by auto
    qed (use "2.IH" m "2.prems" in auto)
  qed (use "2.prems" in auto)
qed simp

lemma retain_unseen_from:
  "f \<in> set (retain_unseen lower_case fs seen) \<Longrightarrow> f \<in> set fs \<and> lower_case (fc_content f) \<notin> seen"
  by (induction lower_case fs seen rule: retain_unseen.induct) (auto simp: Let_def split: if_splits)

lemma retain_unseen_distinct:
  "distinct (map (lower_case \<circ> fc_content) (retain_unseen lower_case fs seen))"
  by (induction lower_case fs seen rule: retain_unseen.induct)
    (auto simp: Let_def dest: retain_unseen_from)

lemma retain_unseen_covers:
  "f \<in> set fs \<Longrightarrow> lower_case (fc_content f) \<in> seen \<or>
    lower_case (fc_content f) \<in> (lower_case \<circ> fc_content) ` set (retain_unseen lower_case fs seen)"
  by (induction lower_case fs seen rule: retain_unseen.induct) (auto simp: Let_def)

text \<open>The facts detected in a text. No two of them have the same content but for case, and each is the
  trimmed group of a match and has eight to 240 characters; the spans the facts come from do not overlap.
  And none is missed: a match whose text has a fitting length either gives a fact, up to case, or
  overlaps the span of one that does.\<close>

theorem facts_of_text:
  "let chosen = accept (by_position (candidates caps text')) [];
       facts = detect_facts caps lower_case text'
   in distinct (map (lower_case \<circ> fc_content) facts) \<and>
     (\<forall>f\<in>set facts. \<exists>c\<in>snd ` set chosen. fc_content f = fact_content c \<and> retainable c) \<and>
     sorted_wrt (\<lambda>a b. disjoint_spans (snd a) (snd b)) chosen \<and>
     (\<forall>p\<in>set detection_patterns. \<forall>c\<in>set (caps p text'). retainable c \<longrightarrow>
        (\<exists>f\<in>set facts. lower_case (fc_content f) = lower_case (fact_content c)) \<or>
        (\<exists>a\<in>set chosen. overlaps c (cp_start (snd a), cp_end (snd a))))"
proof -
  let ?pcs = "by_position (candidates caps text')"
  let ?fs = "map (make_fact lower_case) (accept ?pcs [])"
  have m: "(p, c) \<in> set ?pcs \<longleftrightarrow> p \<in> set detection_patterns \<and> c \<in> set (caps p text')" for p c
    by (auto simp: by_position_def candidates_def)
  have "(\<exists>f\<in>set (detect_facts caps lower_case text'). lower_case (fc_content f) = lower_case (fact_content c)) \<or>
      (\<exists>a\<in>set (accept ?pcs []). overlaps c (cp_start (snd a), cp_end (snd a)))"
    if "p \<in> set detection_patterns" "c \<in> set (caps p text')" "retainable c" for p c
  proof -
    from that have "(p, c) \<in> set ?pcs" by (simp add: m)
    from accept_complete [OF this, of "[]"] that(3)
    consider "make_fact lower_case (p, c) \<in> set ?fs"
      | "\<exists>a\<in>set (accept ?pcs []). overlaps c (cp_start (snd a), cp_end (snd a))" by auto
    then show ?thesis
    proof cases
      case 1
      from retain_unseen_covers [OF this, of lower_case "{}"]
      obtain g where "g \<in> set (detect_facts caps lower_case text')"
        "lower_case (fc_content g) = lower_case (fc_content (make_fact lower_case (p, c)))"
        unfolding detect_facts_def by fastforce
      then show ?thesis by (auto simp: make_fact_def)
    qed blast
  qed
  moreover have "\<exists>c\<in>snd ` set (accept ?pcs []). fc_content f = fact_content c \<and> retainable c"
    if "f \<in> set (detect_facts caps lower_case text')" for f
  proof -
    from that have "f \<in> set ?fs" unfolding detect_facts_def by (blast dest: retain_unseen_from)
    then obtain pc where "pc \<in> set (accept ?pcs [])" "f = make_fact lower_case pc" by auto
    then show ?thesis using accept_sound [of pc ?pcs "[]"] by (auto simp: make_fact_def intro!: bexI [of _ "snd pc"])
  qed
  moreover have "distinct (map (lower_case \<circ> fc_content) (detect_facts caps lower_case text'))"
    unfolding detect_facts_def by (rule retain_unseen_distinct)
  moreover note accept_disjoint [of ?pcs "[]"]
  ultimately show ?thesis unfolding Let_def by blast
qed

text \<open>The confidence is at most one.\<close>

lemma confidence_bounded: "5 / 10 \<le> confidence_for name content \<and> confidence_for name content \<le> 1"
  unfolding confidence_for_def Let_def by (auto simp: min_def)

text \<open>The documentation's example: two facts are promised, and the body of the first match takes the whole
  sentence, so there is one.\<close>

definition documented_example :: string where
  "documented_example = ''please remember that I prefer tabs, and note that the port is 5432''"

text \<open>The matches of the patterns in the example: bodies run to the end of the sentence.\<close>

definition example_captures :: captures where
  "example_captures p s =
     (let match = (\<lambda>m i. \<lparr>cp_start = i, cp_end = 66, cp_full = drop m s, cp_body = drop i s\<rparr>) in
      if s \<noteq> documented_example then []
      else if p = ''please_remember'' then [match 0 21]
      else if p = ''remember_that'' then [match 7 21]
      else if p = ''i_prefer'' then [match 21 30]
      else if p = ''note_that'' then [match 40 50]
      else if p = ''the_x'' then [match 50 62]
      else [])"

lemma documented_example_gives_one:
  "length (detect_facts example_captures id documented_example) = 1"
  by code_simp

theorem facts_of_text_witness:
  "let facts = detect_facts example_captures id documented_example
   in distinct (map (id \<circ> fc_content) facts) \<and>
     map fc_content facts = [''I prefer tabs, and note that the port is 5432'']"
proof -
  have "map fc_content (detect_facts example_captures id documented_example) =
      [''I prefer tabs, and note that the port is 5432'']" by code_simp
  then show ?thesis
    using facts_of_text [where caps = example_captures and lower_case = id and text' = documented_example]
    unfolding Let_def by blast
qed

end
