(* ===== verification/Rag_Context.thy ===== *)
theory Rag_Context
  imports Context_Pipeline OpenAI_Embeddings
begin

text \<open>
  The adapter that retrieves context for the user's message (\<open>behest/src/rag/mod.rs\<close>). The embedding
  provider and the vector store are operations on the environment; printed JSON and the printed score
  of a result are parameters.
\<close>

section \<open>Replacing a placeholder\<close>

lemma str_replace_absent: "p \<noteq> [] \<Longrightarrow> hd p \<notin> set s \<Longrightarrow> str_replace p r s = s"
proof (induction s)
  case (Cons c cs)
  then show ?case by (cases p) auto
qed simp

lemma str_replace_prefix: "p \<noteq> [] \<Longrightarrow> hd p \<notin> set s \<Longrightarrow> str_replace p r (s @ t) = s @ str_replace p r t"
proof (induction s)
  case (Cons c cs)
  then show ?case by (cases p) auto
qed simp

lemma is_prefix_of_append [simp]: "is_prefix_of p (p @ t)"
  by (induction p) simp_all

lemma str_replace_once:
  assumes "p \<noteq> []" and "hd p \<notin> set s" and "hd p \<notin> set t"
  shows "str_replace p r (s @ p @ t) = s @ r @ t"
proof -
  obtain c cs where p: "p = c # cs" using assms(1) by (cases p) auto
  have "str_replace p r (p @ t) = r @ str_replace p r t"
    unfolding p append_Cons str_replace.simps(2)
    using is_prefix_of_append [of p t] by (simp add: p)
  then show ?thesis using assms by (simp add: str_replace_prefix str_replace_absent)
qed

section \<open>The adapter\<close>

record 'e rag_adapter =
  ra_embed :: "embedding_request \<Rightarrow> 'e \<Rightarrow> (provider_error + embedding_response) \<times> 'e"
  ra_search :: "u32 list \<Rightarrow> usize \<Rightarrow> 'e \<Rightarrow> (storage_error + (u32 embedding_record \<times> u32) list) \<times> 'e"
  ra_model :: model_name
  ra_limit :: usize
  ra_template :: string
  ra_metadata_field :: string

definition context_placeholder :: string where
  "context_placeholder = ''{context}''"

definition rag_new ::
  "(embedding_request \<Rightarrow> 'e \<Rightarrow> (provider_error + embedding_response) \<times> 'e) \<Rightarrow>
   (u32 list \<Rightarrow> usize \<Rightarrow> 'e \<Rightarrow> (storage_error + (u32 embedding_record \<times> u32) list) \<times> 'e) \<Rightarrow>
   model_name \<Rightarrow> 'e rag_adapter" where
  "rag_new emb search m =
     \<lparr>ra_embed = emb, ra_search = search, ra_model = m, ra_limit = 5,
      ra_template = ''Use the following retrieved context to inform your response:'' @ [newline, newline] @
        context_placeholder,
      ra_metadata_field = ''text''\<rparr>"

definition with_limit :: "usize \<Rightarrow> 'e rag_adapter \<Rightarrow> 'e rag_adapter" where
  "with_limit n a = a\<lparr>ra_limit := n\<rparr>"

definition with_template :: "string \<Rightarrow> 'e rag_adapter \<Rightarrow> 'e rag_adapter" where
  "with_template t a = a\<lparr>ra_template := t\<rparr>"

definition with_metadata_field :: "string \<Rightarrow> 'e rag_adapter \<Rightarrow> 'e rag_adapter" where
  "with_metadata_field f a = a\<lparr>ra_metadata_field := f\<rparr>"

text \<open>\<open>Value::get\<close> with a key: only an object has fields.\<close>

definition json_field :: "string \<Rightarrow> json \<Rightarrow> json option" where
  "json_field k v = (case v of JObject fs \<Rightarrow> map_of fs k | _ \<Rightarrow> None)"

definition rag_snippet :: "(json \<Rightarrow> string) \<Rightarrow> string \<Rightarrow> u32 embedding_record \<Rightarrow> string" where
  "rag_snippet pr field rec =
     (case json_field field (em_metadata rec) of
        Some (JString s) \<Rightarrow> s
      | Some v \<Rightarrow> pr v
      | None \<Rightarrow> pr (em_metadata rec))"

definition format_context ::
  "(json \<Rightarrow> string) \<Rightarrow> (u32 \<Rightarrow> string) \<Rightarrow> 'e rag_adapter \<Rightarrow> (u32 embedding_record \<times> u32) list \<Rightarrow> string" where
  "format_context pr show_score a results =
     str_join [newline, newline]
       (map (\<lambda>(rec, score). ''[score: '' @ show_score score @ ''] '' @ rag_snippet pr (ra_metadata_field a) rec)
         results)"

definition rag_failed :: "string \<Rightarrow> context_error" where
  "rag_failed m = AdapterFailed ''rag'' m"

definition rag_retrieve ::
  "(json \<Rightarrow> string) \<Rightarrow> (u32 \<Rightarrow> string) \<Rightarrow> 'e rag_adapter \<Rightarrow> string \<Rightarrow> 'e \<Rightarrow> (context_error + message list) \<times> 'e" where
  "rag_retrieve pr show_score a text' =
     try_then (try_err (\<lambda>x. rag_failed (''embedding failed: '' @ show_provider_error x))
         (ra_embed a (embedding_from_text (ra_model a) text')))
       (\<lambda>response.
         case emr_embeddings response of
           [] \<Rightarrow> Pair (Inl (rag_failed ''embedding response contained no vectors''))
         | v # _ \<Rightarrow>
             try_then (try_err (\<lambda>x. rag_failed (''embedding store search failed: '' @ show_storage_error x))
                 (ra_search a (ve_vector v) (ra_limit a)))
               (\<lambda>results. Pair (Inr
                 (if results = [] then []
                  else [system_text (str_replace context_placeholder (format_context pr show_score a results)
                    (ra_template a))]))))"

definition rag_produce ::
  "(json \<Rightarrow> string) \<Rightarrow> (u32 \<Rightarrow> string) \<Rightarrow> 'e rag_adapter \<Rightarrow> context_input \<Rightarrow> 'e \<Rightarrow>
    (context_error + message list) \<times> 'e" where
  "rag_produce pr show_score a input =
     (case ci_user_message input of
        None \<Rightarrow> Pair (Inr [])
      | Some t \<Rightarrow> if t = [] then Pair (Inr []) else rag_retrieve pr show_score a t)"

definition rag_context_adapter ::
  "(json \<Rightarrow> string) \<Rightarrow> (u32 \<Rightarrow> string) \<Rightarrow> 'e rag_adapter \<Rightarrow> 'e context_adapter" where
  "rag_context_adapter pr show_score a = \<lparr>ad_name = ''rag'', ad_produce = rag_produce pr show_score a\<rparr>"

section \<open>What is retrieved\<close>

text \<open>Without a message there is no call; with one the adapter adds at most one message, and its errors
  carry its name.\<close>

lemma rag_produce_shape:
  "ci_user_message input \<in> {None, Some []} \<Longrightarrow> rag_produce pr show_score a input e = (Inr [], e)"
  "rag_produce pr show_score a input e = (Inr ms, e') \<Longrightarrow> length ms \<le> 1"
  "rag_produce pr show_score a input e = (Inl x, e') \<Longrightarrow> \<exists>m. x = AdapterFailed ''rag'' m"
  by (auto simp: rag_produce_def rag_retrieve_def rag_failed_def
      split: option.splits if_splits list.splits)

text \<open>The retrieved context. For a message the adapter asks the provider for one embedding of exactly this
  text and the store for at most \<open>limit\<close> neighbours of the first vector; when there are some, the context
  gets one system message, the template with the snippets, nearest first, in the place of the
  placeholder, and a placeholder inside a snippet stays as it is.\<close>

theorem retrieved_context_exact:
  assumes "ci_user_message input = Some t" and "t \<noteq> []"
    and "ra_embed a (embedding_from_text (ra_model a) t) e = (Inr response, e1)"
    and "emr_embeddings response = v # vs"
    and "ra_search a (ve_vector v) (ra_limit a) e1 = (Inr results, e2)" and "results \<noteq> []"
    and "ra_template a = pre @ context_placeholder @ post" and "CHR ''{'' \<notin> set pre" and "CHR ''{'' \<notin> set post"
  shows "factory_build [rag_context_adapter pr show_score a] input e =
    (Inr [system_text (pre @ format_context pr show_score a results @ post)], e2)"
proof -
  have "str_replace context_placeholder r (ra_template a) = pre @ r @ post" for r
    unfolding assms(7) by (rule str_replace_once) (use assms(8,9) in \<open>simp_all add: context_placeholder_def\<close>)
  with assms(1-6) show ?thesis
    by (simp add: factory_build_def rag_context_adapter_def rag_produce_def rag_retrieve_def
        try_then_def try_err_def)
qed

text \<open>A failure of the adapter is wrapped a second time by the factory that calls it.\<close>

lemma rag_failure_wrapped_twice:
  assumes "ci_user_message input = Some t" and "t \<noteq> []"
    and "ra_embed a (embedding_from_text (ra_model a) t) e = (Inl x, e1)"
  shows "factory_build [rag_context_adapter pr show_score a] input e =
    (Inl (AdapterFailed ''rag'' (show_context_error (AdapterFailed ''rag''
      (''embedding failed: '' @ show_provider_error x)))), e1)"
  using assms by (simp add: factory_build_def rag_context_adapter_def rag_produce_def rag_retrieve_def
      try_then_def try_err_def rag_failed_def)

definition sample_rag :: "nat rag_adapter" where
  "sample_rag = with_template (''A'' @ context_placeholder @ ''B'') (with_limit 2 (rag_new
     (\<lambda>q n. (Inr \<lparr>emr_provider = ''p'', emr_model = er_model q,
        emr_embeddings = [\<lparr>ve_index = 0, ve_vector = [1, 2]\<rparr>], emr_usage = None, emr_raw = None\<rparr>, n + 1))
     (\<lambda>v k n. (Inr (take k [(em_with_metadata (embedding_new ''i'' 0 ''m'' v)
        (JObject [(''text'', JString ''x {context}'')]), 7)]), n + 10)) ''m''))"

theorem retrieved_context_exact_witness:
  "factory_build [rag_context_adapter (\<lambda>_. []) (\<lambda>_. ''1'') sample_rag]
      (ci_with_user_message context_input_new ''q'') (0 :: nat) =
    (Inr [system_text ''A[score: 1] x {context}B''], 11)"
proof -
  let ?i = "ci_with_user_message context_input_new ''q''"
  let ?v = "\<lparr>ve_index = 0, ve_vector = [1, 2]\<rparr>"
  let ?r = "\<lparr>emr_provider = ''p'', emr_model = ''m'', emr_embeddings = [?v], emr_usage = None, emr_raw = None\<rparr>"
  let ?res = "[(em_with_metadata (embedding_new ''i'' 0 ''m'' [1, 2]) (JObject [(''text'', JString ''x {context}'')]), 7)]"
  have f: "format_context (\<lambda>_. []) (\<lambda>_. ''1'') sample_rag ?res = ''[score: 1] x {context}''" by code_simp
  have "factory_build [rag_context_adapter (\<lambda>_. []) (\<lambda>_. ''1'') sample_rag] ?i (0 :: nat) =
      (Inr [system_text (''A'' @ format_context (\<lambda>_. []) (\<lambda>_. ''1'') sample_rag ?res @ ''B'')], 11)"
    by (rule retrieved_context_exact [where t = "''q''" and response = ?r and v = ?v and vs = "[]" and ?e1.0 = 1])
      (simp_all add: sample_rag_def with_template_def with_limit_def rag_new_def ci_with_user_message_def
        embedding_from_text_def embedding_request_new_def)
  then show ?thesis unfolding f by simp
qed

end
