(* ===== verification/Sql_Sessions.thy ===== *)
theory Sql_Sessions
  imports Store_Records "HOL-Library.Multiset"
begin

text \<open>
  The SQL session store (\<open>behest-store/src/sql/session.rs\<close> on PostgreSQL, MySQL and SQLite, with its
  \<open>migrations\<close> and \<open>util.rs\<close>). The tables are lists of rows, changed as the statements of the source and
  the constraints of the migrations say; the outcome of each statement at the server comes from a list
  of faults, and a statement that fails leaves the tables as they are. The JSON text of each type and
  the order that \<open>ORDER BY\<close> gives to equal times are parameters.
\<close>

section \<open>Engines\<close>

text \<open>What the three engines do differently: the name in errors, the text of identifiers and times in the
  columns, what happens to a text bound to a JSON column and to a JSON column read as a text, whether
  executions reference the message, and what sums and averages of a column are read as.\<close>

datatype sql_time = TimeValue timestamp | TimeText string

record sql_engine =
  en_name :: string
  en_write_json :: "string \<Rightarrow> string + string"
  en_read_json :: "string \<Rightarrow> string + string"
  en_write_time :: "timestamp \<Rightarrow> sql_time"
  en_read_time :: "string \<Rightarrow> sql_time \<Rightarrow> storage_error + timestamp"
  en_read_uuid :: "string \<Rightarrow> string \<Rightarrow> storage_error + uuid"
  en_checks_message :: bool
  en_sum :: "int list \<Rightarrow> string + int"
  en_average :: "int list \<Rightarrow> string + u64"

definition parse_uuid :: "(string \<Rightarrow> string + uuid) \<Rightarrow> string \<Rightarrow> string \<Rightarrow> storage_error + uuid" where
  "parse_uuid parse s field = map_sum (\<lambda>e. DataCorruption field e (Some e)) id (parse s)"

definition parse_rfc3339 :: "(string \<Rightarrow> string + timestamp) \<Rightarrow> string \<Rightarrow> string \<Rightarrow> storage_error + timestamp" where
  "parse_rfc3339 parse s field = map_sum (\<lambda>e. DataCorruption field e (Some e)) id (parse s)"

fun native_time :: "string \<Rightarrow> sql_time \<Rightarrow> storage_error + timestamp" where
  "native_time field (TimeValue t) = Inr t"
| "native_time field (TimeText s) = Inl (BackendError field ''mismatched types'' None)"

fun text_time :: "(string \<Rightarrow> string + timestamp) \<Rightarrow> string \<Rightarrow> sql_time \<Rightarrow> storage_error + timestamp" where
  "text_time parse field (TimeText s) = parse_rfc3339 parse s field"
| "text_time parse field (TimeValue t) = Inl (BackendError field ''mismatched types'' None)"

record sql_server =
  sv_write_json :: "string \<Rightarrow> string + string"
  sv_read_json :: "string \<Rightarrow> string + string"
  sv_sum :: "int list \<Rightarrow> string + int"
  sv_average :: "int list \<Rightarrow> string + u64"
  sv_parse_uuid :: "string \<Rightarrow> string + uuid"
  sv_show_time :: "timestamp \<Rightarrow> string"
  sv_parse_time :: "string \<Rightarrow> string + timestamp"

definition postgres_engine :: "sql_server \<Rightarrow> sql_engine" where
  "postgres_engine sv =
     \<lparr>en_name = ''postgres'', en_write_json = sv_write_json sv, en_read_json = sv_read_json sv,
      en_write_time = TimeValue, en_read_time = native_time, en_read_uuid = (\<lambda>_. Inr),
      en_checks_message = True, en_sum = sv_sum sv, en_average = sv_average sv\<rparr>"

definition mysql_engine :: "sql_server \<Rightarrow> sql_engine" where
  "mysql_engine sv =
     \<lparr>en_name = ''mysql'', en_write_json = sv_write_json sv, en_read_json = sv_read_json sv,
      en_write_time = TimeValue, en_read_time = native_time,
      en_read_uuid = (\<lambda>field s. parse_uuid (sv_parse_uuid sv) s field),
      en_checks_message = False, en_sum = sv_sum sv, en_average = sv_average sv\<rparr>"

definition sqlite_engine :: "sql_server \<Rightarrow> sql_engine" where
  "sqlite_engine sv =
     \<lparr>en_name = ''sqlite'', en_write_json = sv_write_json sv, en_read_json = sv_read_json sv,
      en_write_time = TimeText \<circ> sv_show_time sv, en_read_time = text_time (sv_parse_time sv),
      en_read_uuid = (\<lambda>field s. parse_uuid (sv_parse_uuid sv) s field),
      en_checks_message = False, en_sum = sv_sum sv, en_average = sv_average sv\<rparr>"

section \<open>Rows and tables\<close>

record session_row =
  sr_id :: uuid
  sr_title :: string
  sr_model :: string
  sr_metadata :: string
  sr_created_at :: sql_time
  sr_updated_at :: sql_time

record message_row =
  mw_id :: uuid
  mw_session_id :: uuid
  mw_role :: string
  mw_content :: string
  mw_tool_calls :: string
  mw_usage :: "string option"
  mw_is_compaction :: bool
  mw_is_summary :: bool
  mw_compaction_meta :: "string option"
  mw_created_at :: sql_time

record sql_tables =
  tb_sessions :: "session_row list"
  tb_messages :: "message_row list"

record 't sql_db =
  sd_tables :: 't
  sd_faults :: "string option list"

type_synonym ('t, 'a) sql_statement = "'t \<Rightarrow> string + 'a \<times> 't"

definition execute :: "('t, 'a) sql_statement \<Rightarrow> 't sql_db \<Rightarrow> (string + 'a) \<times> 't sql_db" where
  "execute st db =
     (let db' = db\<lparr>sd_faults := tl (sd_faults db)\<rparr> in
      case sd_faults db of
        Some e # _ \<Rightarrow> (Inl e, db')
      | _ \<Rightarrow> (case st (sd_tables db) of
          Inl e \<Rightarrow> (Inl e, db')
        | Inr (a, t) \<Rightarrow> (Inr a, db'\<lparr>sd_tables := t\<rparr>)))"

definition sql_error :: "sql_engine \<Rightarrow> string \<Rightarrow> storage_error" where
  "sql_error en e = BackendError (en_name en) e (Some e)"

definition sql :: "sql_engine \<Rightarrow> ('t, 'a) sql_statement \<Rightarrow> 't sql_db \<Rightarrow> (storage_error + 'a) \<times> 't sql_db" where
  "sql en st = try_err (sql_error en) (execute st)"

text \<open>A transaction that is dropped before it commits is rolled back.\<close>

definition in_transaction :: "sql_engine \<Rightarrow> ('t sql_db \<Rightarrow> (storage_error + 'a) \<times> 't sql_db) \<Rightarrow> 't sql_db \<Rightarrow> (storage_error + 'a) \<times> 't sql_db" where
  "in_transaction en body db =
     (case sql en (\<lambda>t. Inr ((), t)) db of
        (Inl x, db1) \<Rightarrow> (Inl x, db1)
      | (Inr _, db1) \<Rightarrow>
          (case body db1 of
             (Inl x, db2) \<Rightarrow> (Inl x, db2\<lparr>sd_tables := sd_tables db1\<rparr>)
           | (Inr a, db2) \<Rightarrow>
               (case sql en (\<lambda>t. Inr ((), t)) db2 of
                  (Inl x, db3) \<Rightarrow> (Inl x, db3\<lparr>sd_tables := sd_tables db1\<rparr>)
                | (Inr _, db3) \<Rightarrow> (Inr a, db3))))"

section \<open>Text of the columns\<close>

record 'a text_codec =
  tc_print :: "'a \<Rightarrow> string + string"
  tc_parse :: "string \<Rightarrow> string + 'a"

record sql_codecs =
  cd_content :: "content_part list text_codec"
  cd_calls :: "tool_call list text_codec"
  cd_usage :: "token_usage text_codec"
  cd_value :: "json text_codec"
  cd_meta :: "compaction_meta text_codec"

definition to_json_string :: "'a text_codec \<Rightarrow> string \<Rightarrow> 'a \<Rightarrow> storage_error + string" where
  "to_json_string c field v = map_sum (\<lambda>e. SerializationFailed (field @ '': '' @ e) (Some e)) id (tc_print c v)"

definition from_json_str :: "'a text_codec \<Rightarrow> string \<Rightarrow> string \<Rightarrow> storage_error + 'a" where
  "from_json_str c field s = map_sum (\<lambda>e. DataCorruption field e (Some e)) id (tc_parse c s)"

definition print_option :: "'a text_codec \<Rightarrow> string \<Rightarrow> 'a option \<Rightarrow> storage_error + string option" where
  "print_option c field v =
     (case v of None \<Rightarrow> Inr None | Some x \<Rightarrow> map_sum id Some (to_json_string c field x))"

definition parse_option :: "'a text_codec \<Rightarrow> string \<Rightarrow> string option \<Rightarrow> storage_error + 'a option" where
  "parse_option c field s =
     (case s of None \<Rightarrow> Inr None | Some x \<Rightarrow> map_sum id Some (from_json_str c field x))"

fun role_to_str :: "message_role \<Rightarrow> string" where
  "role_to_str RoleSystem = ''system''"
| "role_to_str RoleUser = ''user''"
| "role_to_str RoleAssistant = ''assistant''"
| "role_to_str RoleTool = ''tool''"

definition role_from_str :: "string \<Rightarrow> message_role" where
  "role_from_str s =
     (if s = ''system'' then RoleSystem
      else if s = ''assistant'' then RoleAssistant
      else if s = ''tool'' then RoleTool
      else RoleUser)"

fun collect_results :: "('a \<Rightarrow> 'x + 'b) \<Rightarrow> 'a list \<Rightarrow> 'x + 'b list" where
  "collect_results f [] = Inr []"
| "collect_results f (r # rs) =
     (case f r of Inl x \<Rightarrow> Inl x
      | Inr b \<Rightarrow> map_sum id ((#) b) (collect_results f rs))"

definition session_of_row :: "sql_engine \<Rightarrow> sql_codecs \<Rightarrow> session_row \<Rightarrow> storage_error + session" where
  "session_of_row en cd r =
     (case en_read_uuid en ''session.id'' (sr_id r) of Inl x \<Rightarrow> Inl x | Inr i \<Rightarrow>
     (case en_read_time en ''session.created_at'' (sr_created_at r) of Inl x \<Rightarrow> Inl x | Inr c \<Rightarrow>
     (case en_read_time en ''session.updated_at'' (sr_updated_at r) of Inl x \<Rightarrow> Inl x | Inr u \<Rightarrow>
     (case from_json_str (cd_value cd) ''metadata'' (sr_metadata r) of Inl x \<Rightarrow> Inl x | Inr md \<Rightarrow> Inr
        \<lparr>se_id = i, se_title = sr_title r, se_model = sr_model r, se_created_at = c,
         se_updated_at = u, se_metadata = md\<rparr>))))"

definition row_of_session :: "sql_engine \<Rightarrow> sql_codecs \<Rightarrow> session \<Rightarrow> storage_error + session_row" where
  "row_of_session en cd s =
     (case to_json_string (cd_value cd) ''metadata'' (se_metadata s) of
        Inl x \<Rightarrow> Inl x
      | Inr md \<Rightarrow> Inr
          \<lparr>sr_id = se_id s, sr_title = se_title s, sr_model = se_model s, sr_metadata = md,
           sr_created_at = en_write_time en (se_created_at s), sr_updated_at = en_write_time en (se_updated_at s)\<rparr>)"

definition row_of_message :: "sql_engine \<Rightarrow> sql_codecs \<Rightarrow> message_record \<Rightarrow> storage_error + message_row" where
  "row_of_message en cd m =
     (case to_json_string (cd_content cd) ''message.content'' (mr_content m) of Inl x \<Rightarrow> Inl x | Inr content \<Rightarrow>
     (case to_json_string (cd_calls cd) ''message.tool_calls'' (mr_tool_calls m) of Inl x \<Rightarrow> Inl x | Inr calls \<Rightarrow>
     (case print_option (cd_usage cd) ''message.usage'' (mr_usage m) of Inl x \<Rightarrow> Inl x | Inr usage \<Rightarrow>
     (case print_option (cd_meta cd) ''compaction_meta'' (mr_compaction_meta m) of Inl x \<Rightarrow> Inl x | Inr meta \<Rightarrow> Inr
          \<lparr>mw_id = mr_id m, mw_session_id = mr_session_id m, mw_role = role_to_str (mr_role m),
           mw_content = content, mw_tool_calls = calls, mw_usage = usage,
           mw_is_compaction = mr_is_compaction m, mw_is_summary = mr_is_summary m,
           mw_compaction_meta = meta, mw_created_at = en_write_time en (mr_created_at m)\<rparr>))))"

definition message_of_row :: "sql_engine \<Rightarrow> sql_codecs \<Rightarrow> message_row \<Rightarrow> storage_error + message_record" where
  "message_of_row en cd r =
     (case en_read_uuid en ''message.id'' (mw_id r) of Inl x \<Rightarrow> Inl x | Inr i \<Rightarrow>
     (case en_read_uuid en ''message.session_id'' (mw_session_id r) of Inl x \<Rightarrow> Inl x | Inr sid \<Rightarrow>
     (case from_json_str (cd_content cd) ''message.content'' (mw_content r) of Inl x \<Rightarrow> Inl x | Inr content \<Rightarrow>
     (case from_json_str (cd_calls cd) ''message.tool_calls'' (mw_tool_calls r) of Inl x \<Rightarrow> Inl x | Inr calls \<Rightarrow>
     (case parse_option (cd_usage cd) ''message.usage'' (mw_usage r) of Inl x \<Rightarrow> Inl x | Inr usage \<Rightarrow>
     (case en_read_time en ''message.created_at'' (mw_created_at r) of Inl x \<Rightarrow> Inl x | Inr c \<Rightarrow>
     (case parse_option (cd_meta cd) ''compaction_meta'' (mw_compaction_meta r) of Inl x \<Rightarrow> Inl x | Inr meta \<Rightarrow> Inr
          \<lparr>mr_id = i, mr_session_id = sid, mr_role = role_from_str (mw_role r),
           mr_content = content, mr_tool_calls = calls, mr_tool_call_id = None, mr_tool_name = None,
           mr_usage = usage, mr_created_at = c, mr_is_compaction = mw_is_compaction r,
           mr_is_summary = mw_is_summary r, mr_compaction_meta = meta\<rparr>)))))))"

text \<open>Rows on their way through the JSON columns.\<close>

definition json_option :: "(string \<Rightarrow> string + string) \<Rightarrow> string option \<Rightarrow> string + string option" where
  "json_option f v = (case v of None \<Rightarrow> Inr None | Some s \<Rightarrow> map_sum id Some (f s))"

definition json_session_row :: "(string \<Rightarrow> string + string) \<Rightarrow> session_row \<Rightarrow> string + session_row" where
  "json_session_row f r = map_sum id (\<lambda>md. r\<lparr>sr_metadata := md\<rparr>) (f (sr_metadata r))"

definition json_message_row :: "(string \<Rightarrow> string + string) \<Rightarrow> message_row \<Rightarrow> string + message_row" where
  "json_message_row f r =
     (case f (mw_content r) of Inl e \<Rightarrow> Inl e | Inr content \<Rightarrow>
     (case f (mw_tool_calls r) of Inl e \<Rightarrow> Inl e | Inr calls \<Rightarrow>
     (case json_option f (mw_usage r) of Inl e \<Rightarrow> Inl e | Inr usage \<Rightarrow>
     (case json_option f (mw_compaction_meta r) of Inl e \<Rightarrow> Inl e | Inr meta \<Rightarrow> Inr
        (r\<lparr>mw_content := content, mw_tool_calls := calls, mw_usage := usage, mw_compaction_meta := meta\<rparr>)))))"

text \<open>Reading the rows of an answer as the types of the query.\<close>

definition fetched :: "sql_engine \<Rightarrow> ('r \<Rightarrow> string + 'r) \<Rightarrow> 'r list \<Rightarrow> storage_error + 'r list" where
  "fetched en f rows = map_sum (sql_error en) id (collect_results f rows)"

section \<open>Statements\<close>

definition duplicate_key :: "string \<Rightarrow> string" where
  "duplicate_key table = ''duplicate key value violates unique constraint of '' @ table"

definition insert_session :: "sql_engine \<Rightarrow> session_row \<Rightarrow> (sql_tables, unit) sql_statement" where
  "insert_session en r t =
     (case json_session_row (en_write_json en) r of
        Inl e \<Rightarrow> Inl e
      | Inr w \<Rightarrow>
          if sr_id w \<in> sr_id ` set (tb_sessions t) then Inl (duplicate_key ''sessions'')
          else Inr ((), t\<lparr>tb_sessions := tb_sessions t @ [w]\<rparr>))"

definition select_session :: "uuid \<Rightarrow> (sql_tables, session_row option) sql_statement" where
  "select_session i t = Inr (find (\<lambda>r. sr_id r = i) (tb_sessions t), t)"

text \<open>\<open>ON DELETE CASCADE\<close> takes the messages with their session.\<close>

definition delete_session_rows :: "uuid \<Rightarrow> (sql_tables, unit) sql_statement" where
  "delete_session_rows i t = Inr ((),
     t\<lparr>tb_sessions := filter (\<lambda>r. sr_id r \<noteq> i) (tb_sessions t),
       tb_messages := filter (\<lambda>r. mw_session_id r \<noteq> i) (tb_messages t)\<rparr>)"

definition map_session :: "uuid \<Rightarrow> (session_row \<Rightarrow> session_row) \<Rightarrow> sql_tables \<Rightarrow> sql_tables" where
  "map_session i f t = t\<lparr>tb_sessions := map (\<lambda>r. if sr_id r = i then f r else r) (tb_sessions t)\<rparr>"

text \<open>\<open>UPDATE\<close> of title, time and, when there is one, model; the number of rows it matched.\<close>

definition retitled :: "sql_engine \<Rightarrow> timestamp \<Rightarrow> string \<Rightarrow> model_name option \<Rightarrow> session_row \<Rightarrow> session_row" where
  "retitled en now title model r =
     r\<lparr>sr_title := title, sr_updated_at := en_write_time en now,
       sr_model := (case model of Some m \<Rightarrow> m | None \<Rightarrow> sr_model r)\<rparr>"

definition update_session_row :: "uuid \<Rightarrow> (session_row \<Rightarrow> session_row) \<Rightarrow> (sql_tables, nat) sql_statement" where
  "update_session_row i f t = Inr (length (filter (\<lambda>r. sr_id r = i) (tb_sessions t)), map_session i f t)"

text \<open>\<open>UPDATE \<dots> RETURNING\<close>.\<close>

definition update_session_returning ::
  "uuid \<Rightarrow> (session_row \<Rightarrow> session_row) \<Rightarrow> (sql_tables, session_row option) sql_statement" where
  "update_session_returning i f t =
     Inr (find (\<lambda>r. sr_id r = i) (tb_sessions (map_session i f t)), map_session i f t)"

definition touched :: "sql_engine \<Rightarrow> timestamp \<Rightarrow> session_row \<Rightarrow> session_row" where
  "touched en now r = r\<lparr>sr_updated_at := en_write_time en now\<rparr>"

definition insert_message :: "sql_engine \<Rightarrow> message_row \<Rightarrow> (sql_tables, unit) sql_statement" where
  "insert_message en r t =
     (case json_message_row (en_write_json en) r of
        Inl e \<Rightarrow> Inl e
      | Inr w \<Rightarrow>
          if mw_id w \<in> mw_id ` set (tb_messages t) then Inl (duplicate_key ''messages'')
          else if mw_session_id w \<notin> sr_id ` set (tb_sessions t)
          then Inl ''insert on table messages violates foreign key constraint''
          else Inr ((), t\<lparr>tb_messages := tb_messages t @ [w]\<rparr>))"

definition set_usage_row :: "sql_engine \<Rightarrow> string option \<Rightarrow> uuid \<Rightarrow> (sql_tables, nat) sql_statement" where
  "set_usage_row en usage i t =
     (case json_option (en_write_json en) usage of
        Inl e \<Rightarrow> Inl e
      | Inr u \<Rightarrow> Inr (length (filter (\<lambda>r. mw_id r = i) (tb_messages t)),
          t\<lparr>tb_messages := map (\<lambda>r. if mw_id r = i then r\<lparr>mw_usage := u\<rparr> else r) (tb_messages t)\<rparr>))"

section \<open>The store\<close>

type_synonym 'a session_op = "sql_tables sql_db \<Rightarrow> (storage_error + 'a) \<times> sql_tables sql_db"

definition sql_create_session :: "sql_engine \<Rightarrow> sql_codecs \<Rightarrow> session \<Rightarrow> session session_op" where
  "sql_create_session en cd s =
     try_then (Pair (row_of_session en cd s)) (\<lambda>row.
     try_then (sql en (insert_session en row)) (\<lambda>_. Pair (Inr s)))"

definition sql_list_sessions ::
  "sql_engine \<Rightarrow> sql_codecs \<Rightarrow> (session_row list \<Rightarrow> session_row list) \<Rightarrow> session list session_op" where
  "sql_list_sessions en cd newest_first =
     try_then (sql en (\<lambda>t. Inr (newest_first (tb_sessions t), t))) (\<lambda>rows.
     try_then (Pair (fetched en (json_session_row (en_read_json en)) rows))
       (\<lambda>rows. Pair (collect_results (session_of_row en cd) rows)))"

definition row_option :: "sql_engine \<Rightarrow> sql_codecs \<Rightarrow> session_row option \<Rightarrow> storage_error + session option" where
  "row_option en cd row =
     (case row of
        None \<Rightarrow> Inr None
      | Some r \<Rightarrow> (case json_session_row (en_read_json en) r of
          Inl e \<Rightarrow> Inl (sql_error en e)
        | Inr r \<Rightarrow> map_sum id Some (session_of_row en cd r)))"

definition sql_get_session :: "sql_engine \<Rightarrow> sql_codecs \<Rightarrow> uuid \<Rightarrow> session option session_op" where
  "sql_get_session en cd i = try_then (sql en (select_session i)) (\<lambda>row. Pair (row_option en cd row))"

definition sql_delete_session :: "sql_engine \<Rightarrow> uuid \<Rightarrow> unit session_op" where
  "sql_delete_session en i = sql en (delete_session_rows i)"

definition found :: "uuid \<Rightarrow> storage_error + session option \<Rightarrow> storage_error + session" where
  "found i res = (case res of Inl x \<Rightarrow> Inl x | Inr None \<Rightarrow> Inl (StorageNotFound i) | Inr (Some s) \<Rightarrow> Inr s)"

definition sql_update_session ::
  "sql_engine \<Rightarrow> sql_codecs \<Rightarrow> timestamp \<Rightarrow> uuid \<Rightarrow> string \<Rightarrow> model_name option \<Rightarrow> session session_op" where
  "sql_update_session en cd now i title model =
     try_then (sql en (update_session_row i (retitled en now title model))) (\<lambda>n.
     if n = 0 then Pair (Inl (StorageNotFound i))
     else try_then (sql en (select_session i)) (\<lambda>row. Pair (found i (row_option en cd row))))"

definition append_body :: "sql_engine \<Rightarrow> sql_codecs \<Rightarrow> timestamp \<Rightarrow> message_record \<Rightarrow> message_record session_op" where
  "append_body en cd now m =
     try_then (sql en (select_session (mr_session_id m))) (\<lambda>row.
     if row = None then Pair (Inl (StorageNotFound (mr_session_id m)))
     else
     try_then (Pair (row_of_message en cd m)) (\<lambda>r.
     try_then (sql en (insert_message en r)) (\<lambda>_.
     try_then (sql en (update_session_row (mr_session_id m) (touched en now))) (\<lambda>_. Pair (Inr m)))))"

definition sql_append_message :: "sql_engine \<Rightarrow> sql_codecs \<Rightarrow> timestamp \<Rightarrow> message_record \<Rightarrow> message_record session_op" where
  "sql_append_message en cd now m = in_transaction en (append_body en cd now m)"

definition sql_list_messages ::
  "sql_engine \<Rightarrow> sql_codecs \<Rightarrow> (message_row list \<Rightarrow> message_row list) \<Rightarrow> uuid \<Rightarrow> message_record list session_op" where
  "sql_list_messages en cd oldest_first i =
     try_then (sql en (\<lambda>t. Inr (oldest_first (filter (\<lambda>r. mw_session_id r = i) (tb_messages t)), t))) (\<lambda>rows.
     try_then (Pair (fetched en (json_message_row (en_read_json en)) rows))
       (\<lambda>rows. Pair (collect_results (message_of_row en cd) rows)))"

definition sql_update_usage :: "sql_engine \<Rightarrow> sql_codecs \<Rightarrow> uuid \<Rightarrow> token_usage \<Rightarrow> unit session_op" where
  "sql_update_usage en cd i u =
     try_then (Pair (print_option (cd_usage cd) ''message.usage'' (Some u))) (\<lambda>text'.
     try_then (sql en (set_usage_row en text' i)) (\<lambda>n.
     Pair (if n = 0 then Inl (StorageNotFound i) else Inr ())))"

definition sql_health_check :: "sql_engine \<Rightarrow> unit session_op" where
  "sql_health_check en = try_err (\<lambda>e. ConnectionFailed (en_name en) e (Some e)) (execute (\<lambda>t. Inr ((), t)))"

subsection \<open>PostgreSQL\<close>

definition pg_create_session :: "sql_server \<Rightarrow> sql_codecs \<Rightarrow> session \<Rightarrow> session session_op" where
  "pg_create_session sv = sql_create_session (postgres_engine sv)"

definition pg_list_sessions :: "sql_server \<Rightarrow> sql_codecs \<Rightarrow> (session_row list \<Rightarrow> session_row list) \<Rightarrow> session list session_op" where
  "pg_list_sessions sv = sql_list_sessions (postgres_engine sv)"

definition pg_get_session :: "sql_server \<Rightarrow> sql_codecs \<Rightarrow> uuid \<Rightarrow> session option session_op" where
  "pg_get_session sv = sql_get_session (postgres_engine sv)"

definition pg_delete_session :: "sql_server \<Rightarrow> uuid \<Rightarrow> unit session_op" where
  "pg_delete_session sv = sql_delete_session (postgres_engine sv)"

definition pg_update_session ::
  "sql_server \<Rightarrow> sql_codecs \<Rightarrow> timestamp \<Rightarrow> uuid \<Rightarrow> string \<Rightarrow> model_name option \<Rightarrow> session session_op" where
  "pg_update_session sv cd now i title model =
     try_then (sql (postgres_engine sv) (update_session_returning i (retitled (postgres_engine sv) now title model)))
       (\<lambda>row. Pair (found i (row_option (postgres_engine sv) cd row)))"

definition pg_append_message :: "sql_server \<Rightarrow> sql_codecs \<Rightarrow> timestamp \<Rightarrow> message_record \<Rightarrow> message_record session_op" where
  "pg_append_message sv = sql_append_message (postgres_engine sv)"

definition pg_list_messages ::
  "sql_server \<Rightarrow> sql_codecs \<Rightarrow> (message_row list \<Rightarrow> message_row list) \<Rightarrow> uuid \<Rightarrow> message_record list session_op" where
  "pg_list_messages sv = sql_list_messages (postgres_engine sv)"

definition pg_update_usage :: "sql_server \<Rightarrow> sql_codecs \<Rightarrow> uuid \<Rightarrow> token_usage \<Rightarrow> unit session_op" where
  "pg_update_usage sv = sql_update_usage (postgres_engine sv)"

definition pg_health_check :: "sql_server \<Rightarrow> unit session_op" where
  "pg_health_check sv = sql_health_check (postgres_engine sv)"

subsection \<open>MySQL\<close>

definition mysql_create_session :: "sql_server \<Rightarrow> sql_codecs \<Rightarrow> session \<Rightarrow> session session_op" where
  "mysql_create_session sv = sql_create_session (mysql_engine sv)"

definition mysql_list_sessions :: "sql_server \<Rightarrow> sql_codecs \<Rightarrow> (session_row list \<Rightarrow> session_row list) \<Rightarrow> session list session_op" where
  "mysql_list_sessions sv = sql_list_sessions (mysql_engine sv)"

definition mysql_get_session :: "sql_server \<Rightarrow> sql_codecs \<Rightarrow> uuid \<Rightarrow> session option session_op" where
  "mysql_get_session sv = sql_get_session (mysql_engine sv)"

definition mysql_delete_session :: "sql_server \<Rightarrow> uuid \<Rightarrow> unit session_op" where
  "mysql_delete_session sv = sql_delete_session (mysql_engine sv)"

definition mysql_update_session ::
  "sql_server \<Rightarrow> sql_codecs \<Rightarrow> timestamp \<Rightarrow> uuid \<Rightarrow> string \<Rightarrow> model_name option \<Rightarrow> session session_op" where
  "mysql_update_session sv = sql_update_session (mysql_engine sv)"

definition mysql_append_message :: "sql_server \<Rightarrow> sql_codecs \<Rightarrow> timestamp \<Rightarrow> message_record \<Rightarrow> message_record session_op" where
  "mysql_append_message sv = sql_append_message (mysql_engine sv)"

definition mysql_list_messages ::
  "sql_server \<Rightarrow> sql_codecs \<Rightarrow> (message_row list \<Rightarrow> message_row list) \<Rightarrow> uuid \<Rightarrow> message_record list session_op" where
  "mysql_list_messages sv = sql_list_messages (mysql_engine sv)"

definition mysql_update_usage :: "sql_server \<Rightarrow> sql_codecs \<Rightarrow> uuid \<Rightarrow> token_usage \<Rightarrow> unit session_op" where
  "mysql_update_usage sv = sql_update_usage (mysql_engine sv)"

definition mysql_health_check :: "sql_server \<Rightarrow> unit session_op" where
  "mysql_health_check sv = sql_health_check (mysql_engine sv)"

subsection \<open>SQLite\<close>

definition sqlite_create_session :: "sql_server \<Rightarrow> sql_codecs \<Rightarrow> session \<Rightarrow> session session_op" where
  "sqlite_create_session sv = sql_create_session (sqlite_engine sv)"

definition sqlite_list_sessions :: "sql_server \<Rightarrow> sql_codecs \<Rightarrow> (session_row list \<Rightarrow> session_row list) \<Rightarrow> session list session_op" where
  "sqlite_list_sessions sv = sql_list_sessions (sqlite_engine sv)"

definition sqlite_get_session :: "sql_server \<Rightarrow> sql_codecs \<Rightarrow> uuid \<Rightarrow> session option session_op" where
  "sqlite_get_session sv = sql_get_session (sqlite_engine sv)"

definition sqlite_delete_session :: "sql_server \<Rightarrow> uuid \<Rightarrow> unit session_op" where
  "sqlite_delete_session sv = sql_delete_session (sqlite_engine sv)"

definition sqlite_update_session ::
  "sql_server \<Rightarrow> sql_codecs \<Rightarrow> timestamp \<Rightarrow> uuid \<Rightarrow> string \<Rightarrow> model_name option \<Rightarrow> session session_op" where
  "sqlite_update_session sv = sql_update_session (sqlite_engine sv)"

definition sqlite_append_message :: "sql_server \<Rightarrow> sql_codecs \<Rightarrow> timestamp \<Rightarrow> message_record \<Rightarrow> message_record session_op" where
  "sqlite_append_message sv = sql_append_message (sqlite_engine sv)"

definition sqlite_list_messages ::
  "sql_server \<Rightarrow> sql_codecs \<Rightarrow> (message_row list \<Rightarrow> message_row list) \<Rightarrow> uuid \<Rightarrow> message_record list session_op" where
  "sqlite_list_messages sv = sql_list_messages (sqlite_engine sv)"

definition sqlite_update_usage :: "sql_server \<Rightarrow> sql_codecs \<Rightarrow> uuid \<Rightarrow> token_usage \<Rightarrow> unit session_op" where
  "sqlite_update_usage sv = sql_update_usage (sqlite_engine sv)"

definition sqlite_health_check :: "sql_server \<Rightarrow> unit session_op" where
  "sqlite_health_check sv = sql_health_check (sqlite_engine sv)"

section \<open>Appending\<close>

lemma sql_cases:
  "sql en st db = (Inl x, db') \<Longrightarrow> sd_tables db' = sd_tables db"
  "sql en st db = (Inr a, db') \<Longrightarrow> st (sd_tables db) = Inr (a, sd_tables db')"
  by (auto simp: sql_def execute_def try_err_def Let_def split: list.splits option.splits sum.splits prod.splits)

lemma in_transaction_cases:
  assumes "in_transaction en body db = (res, db')"
  shows "case res of Inl x \<Rightarrow> sd_tables db' = sd_tables db
    | Inr a \<Rightarrow> \<exists>db1 db2. sd_tables db1 = sd_tables db \<and> body db1 = (Inr a, db2) \<and> sd_tables db' = sd_tables db2"
proof -
  obtain r1 db1 where b: "sql en (\<lambda>t. Inr ((), t)) db = (r1, db1)" by fastforce
  obtain r2 db2 where m: "body db1 = (r2, db2)" by fastforce
  obtain r3 db3 where c: "sql en (\<lambda>t. Inr ((), t)) db2 = (r3, db3)" by fastforce
  have t1: "sd_tables db1 = sd_tables db" using b sql_cases by (cases r1) fastforce+
  have t3: "sd_tables db3 = sd_tables db2" using c sql_cases by (cases r3) fastforce+
  show ?thesis using assms b m c t1 t3
    by (auto simp: in_transaction_def split: sum.splits)
qed

lemma find_member: "find P xs = Some x \<Longrightarrow> x \<in> set xs \<and> P x"
  by (induction xs) (auto split: if_splits)

text \<open>The row of a message as it is in the table.\<close>

definition stored_row :: "sql_engine \<Rightarrow> sql_codecs \<Rightarrow> message_record \<Rightarrow> message_row \<Rightarrow> bool" where
  "stored_row en cd m row \<longleftrightarrow>
     (\<exists>r. row_of_message en cd m = Inr r \<and> json_message_row (en_write_json en) r = Inr row)"

lemma stored_row_fields:
  "stored_row en cd m row \<Longrightarrow> mw_id row = mr_id m \<and> mw_session_id row = mr_session_id m \<and>
    mw_created_at row = en_write_time en (mr_created_at m)"
  by (auto simp: stored_row_def row_of_message_def json_message_row_def split: sum.splits)

lemma append_body_Inr:
  assumes "append_body en cd now m db = (Inr m', db')"
  shows "m' = m \<and> mr_session_id m \<in> sr_id ` set (tb_sessions (sd_tables db)) \<and>
    mr_id m \<notin> mw_id ` set (tb_messages (sd_tables db)) \<and>
    (\<exists>row. stored_row en cd m row \<and> sd_tables db' = map_session (mr_session_id m) (touched en now)
        ((sd_tables db)\<lparr>tb_messages := tb_messages (sd_tables db) @ [row]\<rparr>))"
proof -
  from assms obtain row1 db1 r db2 n db3 where
    1: "sql en (select_session (mr_session_id m)) db = (Inr row1, db1)" "row1 \<noteq> None"
    and 2: "row_of_message en cd m = Inr r"
    and 3: "sql en (insert_message en r) db1 = (Inr (), db2)"
    and 4: "sql en (update_session_row (mr_session_id m) (touched en now)) db2 = (Inr n, db3)" "m' = m" "db' = db3"
    unfolding append_body_def by (auto split: if_splits)
  have t1: "sd_tables db1 = sd_tables db" and s: "find (\<lambda>r. sr_id r = mr_session_id m) (tb_sessions (sd_tables db)) = row1"
    using sql_cases(2) [OF 1(1)] unfolding select_session_def by auto
  from sql_cases(2) [OF 3] obtain row where row: "json_message_row (en_write_json en) r = Inr row"
    "mw_id row \<notin> mw_id ` set (tb_messages (sd_tables db))"
    "sd_tables db2 = (sd_tables db)\<lparr>tb_messages := tb_messages (sd_tables db) @ [row]\<rparr>"
    by (auto simp: insert_message_def t1 split: if_splits sum.splits)
  have "stored_row en cd m row" using 2 row(1) by (auto simp: stored_row_def)
  moreover have "mr_session_id m \<in> sr_id ` set (tb_sessions (sd_tables db))"
    using s 1(2) by (cases row1) (auto dest!: find_member intro: rev_image_eqI)
  ultimately show ?thesis
    using sql_cases(2) [OF 4(1)] row 4 stored_row_fields by (force simp: update_session_row_def)
qed

lemma sql_append_Inr:
  assumes "sql_append_message en cd now m db = (Inr m', db')"
  shows "m' = m \<and> mr_session_id m \<in> sr_id ` set (tb_sessions (sd_tables db)) \<and>
    mr_id m \<notin> mw_id ` set (tb_messages (sd_tables db)) \<and>
    (\<exists>row. stored_row en cd m row \<and> tb_messages (sd_tables db') = tb_messages (sd_tables db) @ [row] \<and>
      tb_sessions (sd_tables db') = map (\<lambda>r. if sr_id r = mr_session_id m then touched en now r else r)
        (tb_sessions (sd_tables db)))"
proof -
  obtain db1 db2 where "sd_tables db1 = sd_tables db" "append_body en cd now m db1 = (Inr m', db2)"
    "sd_tables db' = sd_tables db2"
    using in_transaction_cases [OF assms [unfolded sql_append_message_def]] by auto
  with append_body_Inr [OF this(2)] show ?thesis by (auto simp: map_session_def)
qed

text \<open>C17: Appending is all or nothing, on every engine. Whatever statement or conversion fails, the tables are as
  they were; when it succeeds the session existed, the identifier was new, the message is stored as its row
  and the session carries the new time.\<close>

theorem sql_append_all_or_nothing:
  "(case sql_append_message en cd now m db of
      (Inl x, db') \<Rightarrow> sd_tables db' = sd_tables db
    | (Inr m', db') \<Rightarrow> m' = m \<and> mr_session_id m \<in> sr_id ` set (tb_sessions (sd_tables db)) \<and>
        mr_id m \<notin> mw_id ` set (tb_messages (sd_tables db)) \<and>
        (\<exists>row. stored_row en cd m row \<and> tb_messages (sd_tables db') = tb_messages (sd_tables db) @ [row] \<and>
          tb_sessions (sd_tables db') = map (\<lambda>r. if sr_id r = mr_session_id m then touched en now r else r)
            (tb_sessions (sd_tables db))))"
  using in_transaction_cases [of en "append_body en cd now m" db] sql_append_Inr [of en cd now m db]
  by (auto simp: sql_append_message_def split: prod.split sum.split)

text \<open>The migrations for PostgreSQL declare the JSON columns as \<open>JSONB\<close>, into which the server does not
  put a text. Then no session is ever created and no message appended, and nothing is stored.\<close>

theorem postgres_stores_nothing:
  assumes "\<forall>s. \<exists>e. sv_write_json sv s = Inl e"
  shows "(\<exists>x. fst (pg_create_session sv cd se db) = Inl x) \<and> (\<exists>x. fst (pg_append_message sv cd now m db) = Inl x) \<and>
    sd_tables (snd (pg_create_session sv cd se db)) = sd_tables db \<and>
    sd_tables (snd (pg_append_message sv cd now m db)) = sd_tables db"
proof -
  let ?en = "postgres_engine sv"
  have w: "\<exists>e. en_write_json ?en s = Inl e" for s using assms by (simp add: postgres_engine_def)
  have ins: "\<exists>e. insert_session ?en r t = Inl e" for r t
    using w [of "sr_metadata r"] by (auto simp: insert_session_def json_session_row_def)
  have create: "\<exists>x db'. pg_create_session sv cd se db = (Inl x, db') \<and> sd_tables db' = sd_tables db"
  proof (cases "row_of_session ?en cd se")
    case (Inr row)
    obtain res db' where s: "sql ?en (insert_session ?en row) db = (res, db')" by fastforce
    show ?thesis
    proof (cases res)
      case (Inl x)
      then show ?thesis using Inr s sql_cases(1) [OF s [unfolded Inl]]
        by (simp add: pg_create_session_def sql_create_session_def try_then_def)
    next
      case ok: (Inr u)
      show ?thesis using sql_cases(2) [OF s [unfolded ok]] ins [of row "sd_tables db"] by auto
    qed
  qed (simp add: pg_create_session_def sql_create_session_def try_then_def)
  have none: "\<not> stored_row ?en cd m row" for row
    using w by (fastforce simp: stored_row_def json_message_row_def split: sum.splits)
  then have "\<exists>x db'. pg_append_message sv cd now m db = (Inl x, db') \<and> sd_tables db' = sd_tables db"
    using sql_append_all_or_nothing [where en = ?en and cd = cd and now = now and m = m and db = db]
    by (auto simp: pg_append_message_def split: prod.splits sum.splits)
  with create show ?thesis by auto
qed

section \<open>What comes back\<close>

definition lossless_text :: "'a text_codec \<Rightarrow> bool" where
  "lossless_text c \<longleftrightarrow> (\<forall>v s. tc_print c v = Inr s \<longrightarrow> tc_parse c s = Inr v)"

definition lossless_codecs :: "sql_codecs \<Rightarrow> bool" where
  "lossless_codecs cd \<longleftrightarrow> lossless_text (cd_content cd) \<and> lossless_text (cd_calls cd) \<and>
     lossless_text (cd_usage cd) \<and> lossless_text (cd_meta cd)"

text \<open>JSON columns that give back the text they took, and times that are read as they were written.\<close>

definition lossless_engine :: "sql_engine \<Rightarrow> bool" where
  "lossless_engine en \<longleftrightarrow> (\<forall>s s'. en_write_json en s = Inr s' \<longrightarrow> en_read_json en s' = Inr s) \<and>
     (\<forall>field t. en_read_time en field (en_write_time en t) = Inr t)"

definition readable_ids :: "sql_engine \<Rightarrow> message_record \<Rightarrow> bool" where
  "readable_ids en m \<longleftrightarrow> (\<forall>field. en_read_uuid en field (mr_id m) = Inr (mr_id m) \<and>
     en_read_uuid en field (mr_session_id m) = Inr (mr_session_id m))"

definition without_tool_identity :: "message_record \<Rightarrow> message_record" where
  "without_tool_identity m = m\<lparr>mr_tool_call_id := None, mr_tool_name := None\<rparr>"

lemma parse_printed:
  "lossless_text c \<Longrightarrow> to_json_string c f v = Inr s \<Longrightarrow> from_json_str c g s = Inr v"
  "lossless_text c \<Longrightarrow> print_option c f w = Inr t \<Longrightarrow> parse_option c g t = Inr w"
  by (auto simp: lossless_text_def to_json_string_def from_json_str_def print_option_def parse_option_def
      map_sum_def split: sum.splits option.splits)

lemma role_from_to [simp]: "role_from_str (role_to_str r) = r"
  by (cases r) (simp_all add: role_from_str_def)

lemma json_option_back:
  "\<forall>s s'. f s = Inr s' \<longrightarrow> g s' = Inr s \<Longrightarrow> json_option f v = Inr w \<Longrightarrow> json_option g w = Inr v"
  by (auto simp: json_option_def map_sum_def split: option.splits sum.splits)

lemma json_message_row_back:
  assumes "\<forall>s s'. f s = Inr s' \<longrightarrow> g s' = Inr s" and "json_message_row f r = Inr w"
  shows "json_message_row g w = Inr r"
  using assms json_option_back [OF assms(1)] by (auto simp: json_message_row_def split: sum.splits)

lemma message_row_roundtrip:
  assumes "lossless_codecs cd" and "lossless_engine en" and "readable_ids en m" and "row_of_message en cd m = Inr r"
  shows "message_of_row en cd r = Inr (without_tool_identity m)"
  using assms unfolding lossless_codecs_def row_of_message_def lossless_engine_def readable_ids_def
  by (auto simp: message_of_row_def without_tool_identity_def parse_printed split: sum.splits)

text \<open>A tool result read back from SQL has lost the call it answers.\<close>

lemma sql_tool_result_loses_call:
  "record_to_message (without_tool_identity (message_to_record i now sid (Tool call_id name content))) =
    Some (Tool [] [] content)"
  by (simp add: without_tool_identity_def record_to_message_def record_builders unwrap_text_def)

text \<open>\<open>ORDER BY created_at\<close> puts rows of written times in the order of the times.\<close>

definition chronological :: "sql_engine \<Rightarrow> (message_row list \<Rightarrow> message_row list) \<Rightarrow> bool" where
  "chronological en f \<longleftrightarrow> (\<forall>rs. mset (f rs) = mset rs \<and>
     (\<forall>ts. map mw_created_at rs = map (en_write_time en) ts \<longrightarrow>
       (\<exists>us. map mw_created_at (f rs) = map (en_write_time en) us \<and> sorted us)))"

fun append_all ::
  "sql_engine \<Rightarrow> sql_codecs \<Rightarrow> (timestamp \<times> message_record) list \<Rightarrow> unit session_op" where
  "append_all en cd [] = Pair (Inr ())"
| "append_all en cd ((now, m) # ms) = try_then (sql_append_message en cd now m) (\<lambda>_. append_all en cd ms)"

lemma append_all_rows:
  "append_all en cd ms db = (Inr (), db') \<Longrightarrow> \<exists>rows. list_all2 (stored_row en cd) (map snd ms) rows \<and>
    tb_messages (sd_tables db') = tb_messages (sd_tables db) @ rows"
proof (induction ms arbitrary: db)
  case (Cons p ms)
  obtain now m where p: "p = (now, m)" by fastforce
  from Cons.prems obtain m' db1 where 1: "sql_append_message en cd now m db = (Inr m', db1)"
    and 2: "append_all en cd ms db1 = (Inr (), db')" by (auto simp: p)
  from sql_append_Inr [OF 1] obtain row where
    row: "stored_row en cd m row" "tb_messages (sd_tables db1) = tb_messages (sd_tables db) @ [row]" by auto
  from Cons.IH [OF 2] obtain rows where "list_all2 (stored_row en cd) (map snd ms) rows"
    "tb_messages (sd_tables db') = tb_messages (sd_tables db1) @ rows" by blast
  with row show ?case by (intro exI [of _ "row # rows"]) (simp add: p)
qed simp

lemma collect_results_rel:
  "list_all2 R xs ys \<Longrightarrow> \<forall>x\<in>set xs. \<forall>y. R x y \<longrightarrow> g y = Inr (h x) \<Longrightarrow> collect_results g ys = Inr (map h xs)"
  by (induction rule: list_all2_induct) auto

lemma list_all2_project:
  "list_all2 R xs ys \<Longrightarrow> \<forall>x y. R x y \<longrightarrow> k y = j x \<Longrightarrow> map k ys = map j xs"
  by (induction rule: list_all2_induct) auto

lemma sorted_mset_unique:
  "mset ys = mset xs \<Longrightarrow> sorted (map f ys) \<Longrightarrow> sorted_wrt (<) (map f xs) \<Longrightarrow> ys = xs"
  for f :: "'a \<Rightarrow> 'b::linorder"
proof -
  assume m: "mset ys = mset xs" and s: "sorted (map f ys)" and u: "sorted_wrt (<) (map f xs)"
  have "inj_on f (set xs)" using u by (simp add: strict_sorted_iff distinct_map)
  have "map f ys = map f xs"
  proof (rule properties_for_sort [THEN trans [rotated], symmetric])
    show "mset (map f ys) = mset (map f xs)" using m by (metis mset_map)
    show "sorted (map f ys)" by (rule s)
    show "map f xs = sort (map f xs)" using u by (simp add: strict_sorted_iff sort_key_id_if_sorted)
  qed
  then show "ys = xs"
    using \<open>inj_on f (set xs)\<close> mset_eq_setD [OF m] by (simp add: inj_on_map_eq_map)
qed

definition row_time :: "sql_engine \<Rightarrow> message_row \<Rightarrow> timestamp" where
  "row_time en r = (case en_read_time en [] (mw_created_at r) of Inr t \<Rightarrow> t | Inl _ \<Rightarrow> 0)"

lemma chronological_keeps:
  assumes "chronological en f" and "lossless_engine en"
    and "map mw_created_at rows = map (en_write_time en) ts" and "sorted_wrt (<) ts"
  shows "f rows = rows"
proof -
  obtain us where us: "map mw_created_at (f rows) = map (en_write_time en) us" "sorted us"
    using assms(1,3) unfolding chronological_def by blast
  have t: "map mw_created_at rs = map (en_write_time en) vs \<Longrightarrow> map (row_time en) rs = vs" for rs vs
    using assms(2) by (induction rs arbitrary: vs) (auto simp: row_time_def lossless_engine_def)
  show ?thesis
  proof (rule sorted_mset_unique)
    show "mset (f rows) = mset rows" using assms(1) by (simp add: chronological_def)
    show "sorted (map (row_time en) (f rows))" using us t by simp
    show "sorted_wrt (<) (map (row_time en) rows)" using assms(3,4) t by simp
  qed
qed

text \<open>C35: Messages through SQL, on any engine that keeps the text of its JSON columns. What was appended to a
  session, with increasing times, is listed back in order, each message as it was but for the call a tool
  result answers: its identifier and its tool are in no column and come back empty.\<close>

theorem sql_messages_roundtrip:
  assumes "lossless_codecs cd" and "lossless_engine en" and "chronological en oldest_first"
    and "append_all en cd ms db = (Inr (), db')" and "sd_faults db' = []"
    and "\<forall>r\<in>set (tb_messages (sd_tables db)). mw_session_id r \<noteq> i"
    and "\<forall>p\<in>set ms. mr_session_id (snd p) = i \<and> readable_ids en (snd p)"
    and "sorted_wrt (<) (map (mr_created_at \<circ> snd) ms)"
  shows "fst (sql_list_messages en cd oldest_first i db') = Inr (map (without_tool_identity \<circ> snd) ms)"
proof -
  obtain rows where rows: "list_all2 (stored_row en cd) (map snd ms) rows"
    "tb_messages (sd_tables db') = tb_messages (sd_tables db) @ rows"
    using append_all_rows [OF assms(4)] by blast
  have s: "map mw_session_id rows = map mr_session_id (map snd ms)"
    and c: "map mw_created_at rows = map (en_write_time en \<circ> mr_created_at) (map snd ms)"
    by (rule list_all2_project [OF rows(1)]; simp add: stored_row_fields)+
  have "\<forall>r\<in>set rows. mw_session_id r = i"
    using s assms(7) by (metis (no_types, lifting) image_iff image_set list.set_map)
  then have own: "filter (\<lambda>r. mw_session_id r = i) (tb_messages (sd_tables db')) = rows"
    using rows(2) assms(6) by (simp add: filter_False)
  have order: "oldest_first rows = rows"
    by (rule chronological_keeps [OF assms(3,2) _ assms(8)]) (simp add: c comp_assoc)
  define out where "out m r \<longleftrightarrow> row_of_message en cd m = Inr r" for m r
  obtain rs where rs: "collect_results (json_message_row (en_read_json en)) rows = Inr rs" "list_all2 out (map snd ms) rs"
  proof
    let ?r = "\<lambda>m. case row_of_message en cd m of Inr r \<Rightarrow> r"
    have st: "stored_row en cd m row \<Longrightarrow> out m (?r m) \<and> json_message_row (en_read_json en) row = Inr (?r m)" for m row
      using assms(2) json_message_row_back by (fastforce simp: stored_row_def out_def lossless_engine_def)
    then show "collect_results (json_message_row (en_read_json en)) rows = Inr (map ?r (map snd ms))"
      by (intro collect_results_rel [OF rows(1)]) blast
    show "list_all2 out (map snd ms) (map ?r (map snd ms))"
      using rows(1) st by (auto simp: list_all2_conv_all_nth)
  qed
  have "collect_results (message_of_row en cd) rs = Inr (map without_tool_identity (map snd ms))"
    by (rule collect_results_rel [OF rs(2)]) (use message_row_roundtrip [OF assms(1,2)] assms(7) in \<open>auto simp: out_def\<close>)
  then show ?thesis using assms(5) own order rs(1)
    by (simp add: sql_list_messages_def sql_def execute_def try_err_def try_then_def fetched_def)
qed

definition sample_codecs :: sql_codecs where
  "sample_codecs =
     \<lparr>cd_content = \<lparr>tc_print = (\<lambda>v. if v = [part_text ''42''] then Inr ''[42]'' else Inl ''unknown''),
        tc_parse = (\<lambda>s. if s = ''[42]'' then Inr [part_text ''42''] else Inl ''unknown'')\<rparr>,
      cd_calls = \<lparr>tc_print = (\<lambda>v. if v = [] then Inr ''[]'' else Inl ''unknown''),
        tc_parse = (\<lambda>s. if s = ''[]'' then Inr [] else Inl ''unknown'')\<rparr>,
      cd_usage = \<lparr>tc_print = (\<lambda>_. Inl ''unknown''), tc_parse = (\<lambda>_. Inl ''unknown'')\<rparr>,
      cd_value = \<lparr>tc_print = (\<lambda>_. Inl ''unknown''), tc_parse = (\<lambda>_. Inl ''unknown'')\<rparr>,
      cd_meta = \<lparr>tc_print = (\<lambda>_. Inl ''unknown''), tc_parse = (\<lambda>_. Inl ''unknown'')\<rparr>\<rparr>"

definition sample_server :: "(string \<Rightarrow> string + string) \<Rightarrow> sql_server" where
  "sample_server write =
     \<lparr>sv_write_json = write, sv_read_json = Inr, sv_sum = (\<lambda>xs. Inr (sum_list xs)),
      sv_average = (\<lambda>xs. Inr (if xs = [] then 0 else of_int (sum_list xs div int (length xs)))),
      sv_parse_uuid = Inr, sv_show_time = (\<lambda>t. replicate t (CHR ''i'')), sv_parse_time = (\<lambda>s. Inr (length s))\<rparr>"

definition sample_db :: "sql_tables sql_db" where
  "sample_db = \<lparr>sd_tables = \<lparr>tb_sessions = [\<lparr>sr_id = ''s'', sr_title = [], sr_model = ''m'', sr_metadata = ''{}'',
     sr_created_at = TimeText ''i'', sr_updated_at = TimeText ''i''\<rparr>], tb_messages = []\<rparr>, sd_faults = []\<rparr>"

definition tally :: "sql_time \<Rightarrow> nat" where
  "tally t = (case t of TimeText s \<Rightarrow> length s | TimeValue n \<Rightarrow> n)"

lemma chronological_tally:
  "chronological (sqlite_engine (sample_server w)) (sort_key (tally \<circ> mw_created_at))"
proof -
  let ?en = "sqlite_engine (sample_server w)" and ?f = "sort_key (tally \<circ> mw_created_at)"
  have k: "tally (en_write_time ?en t) = t" for t
    by (simp add: sqlite_engine_def sample_server_def tally_def)
  have "\<exists>us. map mw_created_at (?f rs) = map (en_write_time ?en) us \<and> sorted us"
    if "map mw_created_at rs = map (en_write_time ?en) ts" for rs ts
  proof (intro exI conjI)
    have "\<forall>r\<in>set rs. mw_created_at r = en_write_time ?en (tally (mw_created_at r))"
    proof
      fix r assume "r \<in> set rs"
      then have "mw_created_at r \<in> set (map (en_write_time ?en) ts)" using that by (metis image_eqI set_map)
      then show "mw_created_at r = en_write_time ?en (tally (mw_created_at r))" by (auto simp: k)
    qed
    then show "map mw_created_at (?f rs) = map (en_write_time ?en) (map (tally \<circ> mw_created_at) (?f rs))" by simp
    show "sorted (map (tally \<circ> mw_created_at) (?f rs))" by (rule sorted_sort_key)
  qed
  then show ?thesis unfolding chronological_def by simp blast
qed

theorem sql_messages_roundtrip_witness:
  "let m = message_to_record ''a'' 5 ''s'' (Tool ''call'' ''sum'' [part_text ''42'']);
       en = sqlite_engine (sample_server Inr)
   in fst (append_all en sample_codecs [(6, m)] sample_db) = Inr () \<and>
     fst (sql_list_messages en sample_codecs (sort_key (tally \<circ> mw_created_at)) ''s''
       (snd (append_all en sample_codecs [(6, m)] sample_db))) =
     Inr [m\<lparr>mr_tool_call_id := None, mr_tool_name := None\<rparr>]"
proof -
  let ?m = "message_to_record ''a'' 5 ''s'' (Tool ''call'' ''sum'' [part_text ''42''])"
  let ?en = "sqlite_engine (sample_server Inr)"
  obtain db' where d: "append_all ?en sample_codecs [(6, ?m)] sample_db = (Inr (), db')" and f: "sd_faults db' = []"
  proof
    show "append_all ?en sample_codecs [(6, ?m)] sample_db =
        (Inr (), snd (append_all ?en sample_codecs [(6, ?m)] sample_db))" by code_simp
    show "sd_faults (snd (append_all ?en sample_codecs [(6, ?m)] sample_db)) = []" by code_simp
  qed
  have l: "lossless_codecs sample_codecs"
    by (auto simp: lossless_codecs_def lossless_text_def sample_codecs_def split: if_splits)
  have e: "lossless_engine ?en"
    by (simp add: lossless_engine_def sqlite_engine_def sample_server_def parse_rfc3339_def)
  have "fst (sql_list_messages ?en sample_codecs (sort_key (tally \<circ> mw_created_at)) ''s'' db') =
      Inr (map (without_tool_identity \<circ> snd) [(6 :: nat, ?m)])"
    by (rule sql_messages_roundtrip [OF l e chronological_tally d f])
      (simp_all add: sample_db_def record_builders readable_ids_def sqlite_engine_def sample_server_def parse_uuid_def)
  then show ?thesis using d by (simp add: Let_def without_tool_identity_def)
qed

theorem postgres_stores_nothing_witness:
  "\<exists>x. fst (pg_append_message (sample_server (\<lambda>_. Inl ''column is of type jsonb but expression is of type text''))
     sample_codecs 6 (message_to_record ''a'' 5 ''s'' (Tool ''call'' ''sum'' [part_text ''42''])) sample_db) = Inl x"
  using postgres_stores_nothing [of "sample_server (\<lambda>_. Inl ''column is of type jsonb but expression is of type text'')"
      sample_codecs _ sample_db 6 "message_to_record ''a'' 5 ''s'' (Tool ''call'' ''sum'' [part_text ''42''])"]
  by (simp add: sample_server_def)

end
