(* ===== verification/Sql_Executions.thy ===== *)
theory Sql_Executions
  imports Sql_Sessions Memory_Stores
begin

text \<open>
  The SQL execution store (\<open>behest-store/src/sql/execution.rs\<close> on PostgreSQL, MySQL and SQLite): tool
  executions and usage records as rows of their tables, which reference the session and, on PostgreSQL,
  the message, and the statistics of a session. How an engine reads sums and averages is its parameter.
\<close>

section \<open>Rows\<close>

record execution_row =
  ew_id :: uuid
  ew_session_id :: uuid
  ew_message_id :: uuid
  ew_call_id :: string
  ew_tool_name :: string
  ew_arguments :: string
  ew_result :: "string option"
  ew_status :: string
  ew_error :: "string option"
  ew_duration_ms :: "64 word"
  ew_created_at :: sql_time

record usage_row =
  uw_id :: uuid
  uw_session_id :: uuid
  uw_message_id :: uuid
  uw_provider :: string
  uw_model :: string
  uw_input_tokens :: int
  uw_output_tokens :: int
  uw_total_tokens :: int
  uw_created_at :: sql_time

text \<open>Of the other tables the store sees the sessions, and the messages with their sessions.\<close>

record execution_tables =
  te_sessions :: "uuid list"
  te_messages :: "(uuid \<times> uuid) list"
  te_executions :: "execution_row list"
  te_usage :: "usage_row list"

fun status_to_str :: "execution_status \<Rightarrow> string" where
  "status_to_str ExPending = ''pending''"
| "status_to_str ExSuccess = ''success''"
| "status_to_str ExFailed = ''failed''"

definition status_from_str :: "string \<Rightarrow> execution_status" where
  "status_from_str s =
     (if s = ''success'' then ExSuccess else if s = ''failed'' then ExFailed else ExPending)"

text \<open>\<open>i64::try_from(d.as_millis()).unwrap_or(i64::MAX)\<close>, a signed number in its 64 bits.\<close>

definition duration_millis :: "duration \<Rightarrow> 64 word" where
  "duration_millis d = (let m = d div 1000000 in if m < 2 ^ 63 then of_nat m else 2 ^ 63 - 1)"

definition from_millis :: "u64 \<Rightarrow> duration" where
  "from_millis ms = unat ms * 1000000"

definition row_of_execution :: "sql_engine \<Rightarrow> json text_codec \<Rightarrow> tool_execution \<Rightarrow> storage_error + execution_row" where
  "row_of_execution en cd x =
     (case to_json_string cd ''execution.arguments'' (tx_arguments x) of Inl e \<Rightarrow> Inl e | Inr args \<Rightarrow>
     (case print_option cd ''execution.arguments'' (tx_result x) of Inl e \<Rightarrow> Inl e | Inr result \<Rightarrow> Inr
          \<lparr>ew_id = tx_id x, ew_session_id = tx_session_id x, ew_message_id = tx_message_id x,
           ew_call_id = tx_call_id x, ew_tool_name = tx_tool_name x, ew_arguments = args,
           ew_result = result, ew_status = status_to_str (tx_status x), ew_error = tx_error x,
           ew_duration_ms = duration_millis (tx_duration x), ew_created_at = en_write_time en (tx_created_at x)\<rparr>))"

definition execution_of_row :: "sql_engine \<Rightarrow> json text_codec \<Rightarrow> execution_row \<Rightarrow> storage_error + tool_execution" where
  "execution_of_row en cd r =
     (case en_read_uuid en ''execution.id'' (ew_id r) of Inl x \<Rightarrow> Inl x | Inr i \<Rightarrow>
     (case en_read_uuid en ''execution.session_id'' (ew_session_id r) of Inl x \<Rightarrow> Inl x | Inr sid \<Rightarrow>
     (case en_read_uuid en ''execution.message_id'' (ew_message_id r) of Inl x \<Rightarrow> Inl x | Inr mid \<Rightarrow>
     (case from_json_str cd ''execution.arguments'' (ew_arguments r) of Inl e \<Rightarrow> Inl e | Inr args \<Rightarrow>
     (case parse_option cd ''execution.arguments'' (ew_result r) of Inl e \<Rightarrow> Inl e | Inr result \<Rightarrow>
     (case en_read_time en ''execution.created_at'' (ew_created_at r) of Inl e \<Rightarrow> Inl e | Inr c \<Rightarrow> Inr
          \<lparr>tx_id = i, tx_session_id = sid, tx_message_id = mid,
           tx_call_id = ew_call_id r, tx_tool_name = ew_tool_name r, tx_arguments = args,
           tx_result = result, tx_status = status_from_str (ew_status r), tx_error = ew_error r,
           tx_duration = from_millis (ew_duration_ms r), tx_created_at = c\<rparr>))))))"

definition json_execution_row :: "(string \<Rightarrow> string + string) \<Rightarrow> execution_row \<Rightarrow> string + execution_row" where
  "json_execution_row f r =
     (case f (ew_arguments r) of Inl e \<Rightarrow> Inl e | Inr args \<Rightarrow>
     (case json_option f (ew_result r) of Inl e \<Rightarrow> Inl e | Inr result \<Rightarrow>
        Inr (r\<lparr>ew_arguments := args, ew_result := result\<rparr>)))"

text \<open>The casts \<open>as i64\<close> and \<open>as u64\<close>.\<close>

definition row_of_usage :: "sql_engine \<Rightarrow> usage_record \<Rightarrow> usage_row" where
  "row_of_usage en u =
     \<lparr>uw_id = ur_id u, uw_session_id = ur_session_id u, uw_message_id = ur_message_id u,
      uw_provider = ur_provider u, uw_model = ur_model u, uw_input_tokens = sint (ur_input_tokens u),
      uw_output_tokens = sint (ur_output_tokens u), uw_total_tokens = sint (ur_total_tokens u),
      uw_created_at = en_write_time en (ur_created_at u)\<rparr>"

definition usage_of_row :: "sql_engine \<Rightarrow> usage_row \<Rightarrow> storage_error + usage_record" where
  "usage_of_row en r =
     (case en_read_uuid en ''usage.id'' (uw_id r) of Inl x \<Rightarrow> Inl x | Inr i \<Rightarrow>
     (case en_read_uuid en ''usage.session_id'' (uw_session_id r) of Inl x \<Rightarrow> Inl x | Inr sid \<Rightarrow>
     (case en_read_uuid en ''usage.message_id'' (uw_message_id r) of Inl x \<Rightarrow> Inl x | Inr mid \<Rightarrow>
     (case en_read_time en ''usage.created_at'' (uw_created_at r) of Inl x \<Rightarrow> Inl x | Inr c \<Rightarrow> Inr
     \<lparr>ur_id = i, ur_session_id = sid, ur_message_id = mid, ur_provider = uw_provider r, ur_model = uw_model r,
      ur_input_tokens = of_int (uw_input_tokens r), ur_output_tokens = of_int (uw_output_tokens r),
      ur_total_tokens = of_int (uw_total_tokens r), ur_created_at = c\<rparr>))))"

section \<open>Statements\<close>

definition references_ok :: "sql_engine \<Rightarrow> uuid \<Rightarrow> uuid \<Rightarrow> execution_tables \<Rightarrow> bool" where
  "references_ok en sid mid t \<longleftrightarrow>
     sid \<in> set (te_sessions t) \<and> (en_checks_message en \<longrightarrow> mid \<in> fst ` set (te_messages t))"

definition insert_execution :: "sql_engine \<Rightarrow> execution_row \<Rightarrow> (execution_tables, unit) sql_statement" where
  "insert_execution en r t =
     (case json_execution_row (en_write_json en) r of
        Inl e \<Rightarrow> Inl e
      | Inr w \<Rightarrow>
          if ew_id w \<in> ew_id ` set (te_executions t) then Inl (duplicate_key ''tool_executions'')
          else if \<not> references_ok en (ew_session_id w) (ew_message_id w) t
          then Inl ''insert on table tool_executions violates foreign key constraint''
          else Inr ((), t\<lparr>te_executions := te_executions t @ [w]\<rparr>))"

definition insert_usage :: "sql_engine \<Rightarrow> usage_row \<Rightarrow> (execution_tables, unit) sql_statement" where
  "insert_usage en r t =
     (if uw_id r \<in> uw_id ` set (te_usage t) then Inl (duplicate_key ''usage_records'')
      else if \<not> references_ok en (uw_session_id r) (uw_message_id r) t
      then Inl ''insert on table usage_records violates foreign key constraint''
      else Inr ((), t\<lparr>te_usage := te_usage t @ [r]\<rparr>))"

text \<open>The eight subqueries of the statistics, as they are read.\<close>

record stats_row =
  sw_messages :: int
  sw_calls :: int
  sw_success :: int
  sw_failed :: int
  sw_average :: u64
  sw_input :: int
  sw_output :: int
  sw_total :: int

definition select_stats :: "sql_engine \<Rightarrow> uuid \<Rightarrow> (execution_tables, stats_row) sql_statement" where
  "select_stats en i t =
     (let xs = filter (\<lambda>r. ew_session_id r = i) (te_executions t);
          us = filter (\<lambda>r. uw_session_id r = i) (te_usage t) in
      case en_average en (map (sint \<circ> ew_duration_ms) xs) of Inl e \<Rightarrow> Inl e | Inr avg \<Rightarrow>
     (case en_sum en (map uw_input_tokens us) of Inl e \<Rightarrow> Inl e | Inr inp \<Rightarrow>
     (case en_sum en (map uw_output_tokens us) of Inl e \<Rightarrow> Inl e | Inr out \<Rightarrow>
     (case en_sum en (map uw_total_tokens us) of Inl e \<Rightarrow> Inl e | Inr tot \<Rightarrow>
        Inr (\<lparr>sw_messages = int (length (filter (\<lambda>m. snd m = i) (te_messages t))), sw_calls = int (length xs),
          sw_success = int (length (filter (\<lambda>r. ew_status r = ''success'') xs)),
          sw_failed = int (length (filter (\<lambda>r. ew_status r = ''failed'') xs)),
          sw_average = avg, sw_input = inp, sw_output = out, sw_total = tot\<rparr>, t)))))"

section \<open>The store\<close>

type_synonym 'a execution_op = "execution_tables sql_db \<Rightarrow> (storage_error + 'a) \<times> execution_tables sql_db"

definition sql_record_execution :: "sql_engine \<Rightarrow> json text_codec \<Rightarrow> tool_execution \<Rightarrow> tool_execution execution_op" where
  "sql_record_execution en cd x =
     try_then (Pair (row_of_execution en cd x)) (\<lambda>r.
     try_then (sql en (insert_execution en r)) (\<lambda>_. Pair (Inr x)))"

definition sql_select_executions ::
  "sql_engine \<Rightarrow> json text_codec \<Rightarrow> (execution_row list \<Rightarrow> execution_row list) \<Rightarrow> (execution_row \<Rightarrow> bool) \<Rightarrow>
    tool_execution list execution_op" where
  "sql_select_executions en cd oldest_first p =
     try_then (sql en (\<lambda>t. Inr (oldest_first (filter p (te_executions t)), t))) (\<lambda>rows.
     try_then (Pair (fetched en (json_execution_row (en_read_json en)) rows))
       (\<lambda>rows. Pair (collect_results (execution_of_row en cd) rows)))"

definition sql_list_executions ::
  "sql_engine \<Rightarrow> json text_codec \<Rightarrow> (execution_row list \<Rightarrow> execution_row list) \<Rightarrow> uuid \<Rightarrow> tool_execution list execution_op" where
  "sql_list_executions en cd oldest_first i = sql_select_executions en cd oldest_first (\<lambda>r. ew_session_id r = i)"

definition sql_list_by_message ::
  "sql_engine \<Rightarrow> json text_codec \<Rightarrow> (execution_row list \<Rightarrow> execution_row list) \<Rightarrow> uuid \<Rightarrow> tool_execution list execution_op" where
  "sql_list_by_message en cd oldest_first i = sql_select_executions en cd oldest_first (\<lambda>r. ew_message_id r = i)"

definition sql_record_usage :: "sql_engine \<Rightarrow> usage_record \<Rightarrow> usage_record execution_op" where
  "sql_record_usage en u = try_then (sql en (insert_usage en (row_of_usage en u))) (\<lambda>_. Pair (Inr u))"

definition sql_list_usage ::
  "sql_engine \<Rightarrow> (usage_row list \<Rightarrow> usage_row list) \<Rightarrow> uuid \<Rightarrow> usage_record list execution_op" where
  "sql_list_usage en oldest_first i =
     try_then (sql en (\<lambda>t. Inr (oldest_first (filter (\<lambda>r. uw_session_id r = i) (te_usage t)), t)))
       (\<lambda>rows. Pair (collect_results (usage_of_row en) rows))"

definition stats_of_row :: "uuid \<Rightarrow> stats_row \<Rightarrow> session_stats" where
  "stats_of_row i r =
     \<lparr>st_session_id = i, st_message_count = of_int (sw_messages r), st_tool_call_count = of_int (sw_calls r),
      st_tool_success_count = of_int (sw_success r), st_tool_failure_count = of_int (sw_failed r),
      st_total_input_tokens = of_int (sw_input r), st_total_output_tokens = of_int (sw_output r),
      st_total_tokens = of_int (sw_total r), st_avg_tool_duration_ms = sw_average r\<rparr>"

definition sql_session_stats :: "sql_engine \<Rightarrow> uuid \<Rightarrow> session_stats execution_op" where
  "sql_session_stats en i = try_then (sql en (select_stats en i)) (\<lambda>r. Pair (Inr (stats_of_row i r)))"

subsection \<open>PostgreSQL\<close>

definition pg_record_execution :: "sql_server \<Rightarrow> json text_codec \<Rightarrow> tool_execution \<Rightarrow> tool_execution execution_op" where
  "pg_record_execution sv = sql_record_execution (postgres_engine sv)"

definition pg_list_executions ::
  "sql_server \<Rightarrow> json text_codec \<Rightarrow> (execution_row list \<Rightarrow> execution_row list) \<Rightarrow> uuid \<Rightarrow> tool_execution list execution_op" where
  "pg_list_executions sv = sql_list_executions (postgres_engine sv)"

definition pg_list_by_message ::
  "sql_server \<Rightarrow> json text_codec \<Rightarrow> (execution_row list \<Rightarrow> execution_row list) \<Rightarrow> uuid \<Rightarrow> tool_execution list execution_op" where
  "pg_list_by_message sv = sql_list_by_message (postgres_engine sv)"

definition pg_record_usage :: "sql_server \<Rightarrow> usage_record \<Rightarrow> usage_record execution_op" where
  "pg_record_usage sv = sql_record_usage (postgres_engine sv)"

definition pg_list_usage :: "sql_server \<Rightarrow> (usage_row list \<Rightarrow> usage_row list) \<Rightarrow> uuid \<Rightarrow> usage_record list execution_op" where
  "pg_list_usage sv = sql_list_usage (postgres_engine sv)"

definition pg_session_stats :: "sql_server \<Rightarrow> uuid \<Rightarrow> session_stats execution_op" where
  "pg_session_stats sv = sql_session_stats (postgres_engine sv)"

subsection \<open>MySQL\<close>

definition mysql_record_execution :: "sql_server \<Rightarrow> json text_codec \<Rightarrow> tool_execution \<Rightarrow> tool_execution execution_op" where
  "mysql_record_execution sv = sql_record_execution (mysql_engine sv)"

definition mysql_list_executions ::
  "sql_server \<Rightarrow> json text_codec \<Rightarrow> (execution_row list \<Rightarrow> execution_row list) \<Rightarrow> uuid \<Rightarrow> tool_execution list execution_op" where
  "mysql_list_executions sv = sql_list_executions (mysql_engine sv)"

definition mysql_list_by_message ::
  "sql_server \<Rightarrow> json text_codec \<Rightarrow> (execution_row list \<Rightarrow> execution_row list) \<Rightarrow> uuid \<Rightarrow> tool_execution list execution_op" where
  "mysql_list_by_message sv = sql_list_by_message (mysql_engine sv)"

definition mysql_record_usage :: "sql_server \<Rightarrow> usage_record \<Rightarrow> usage_record execution_op" where
  "mysql_record_usage sv = sql_record_usage (mysql_engine sv)"

definition mysql_list_usage :: "sql_server \<Rightarrow> (usage_row list \<Rightarrow> usage_row list) \<Rightarrow> uuid \<Rightarrow> usage_record list execution_op" where
  "mysql_list_usage sv = sql_list_usage (mysql_engine sv)"

definition mysql_session_stats :: "sql_server \<Rightarrow> uuid \<Rightarrow> session_stats execution_op" where
  "mysql_session_stats sv = sql_session_stats (mysql_engine sv)"

subsection \<open>SQLite\<close>

definition sqlite_record_execution :: "sql_server \<Rightarrow> json text_codec \<Rightarrow> tool_execution \<Rightarrow> tool_execution execution_op" where
  "sqlite_record_execution sv = sql_record_execution (sqlite_engine sv)"

definition sqlite_list_executions ::
  "sql_server \<Rightarrow> json text_codec \<Rightarrow> (execution_row list \<Rightarrow> execution_row list) \<Rightarrow> uuid \<Rightarrow> tool_execution list execution_op" where
  "sqlite_list_executions sv = sql_list_executions (sqlite_engine sv)"

definition sqlite_list_by_message ::
  "sql_server \<Rightarrow> json text_codec \<Rightarrow> (execution_row list \<Rightarrow> execution_row list) \<Rightarrow> uuid \<Rightarrow> tool_execution list execution_op" where
  "sqlite_list_by_message sv = sql_list_by_message (sqlite_engine sv)"

definition sqlite_record_usage :: "sql_server \<Rightarrow> usage_record \<Rightarrow> usage_record execution_op" where
  "sqlite_record_usage sv = sql_record_usage (sqlite_engine sv)"

definition sqlite_list_usage :: "sql_server \<Rightarrow> (usage_row list \<Rightarrow> usage_row list) \<Rightarrow> uuid \<Rightarrow> usage_record list execution_op" where
  "sqlite_list_usage sv = sql_list_usage (sqlite_engine sv)"

definition sqlite_session_stats :: "sql_server \<Rightarrow> uuid \<Rightarrow> session_stats execution_op" where
  "sqlite_session_stats sv = sql_session_stats (sqlite_engine sv)"

section \<open>What is kept\<close>

lemma status_from_to [simp]: "status_from_str (status_to_str s) = s"
  by (cases s) (simp_all add: status_from_str_def)

text \<open>A duration keeps its whole milliseconds, up to \<open>i64::MAX\<close> of them.\<close>

lemma stored_duration: "from_millis (duration_millis d) = min (d div 1000000) (2 ^ 63 - 1) * 1000000"
proof -
  have "unat (of_nat m :: 64 word) = m" if "m < 2 ^ 63" for m :: nat
    using that by (simp add: unat_of_nat take_bit_nat_eq_self)
  then show ?thesis
    by (simp add: from_millis_def duration_millis_def Let_def min_def)
qed

definition readable_execution :: "sql_engine \<Rightarrow> tool_execution \<Rightarrow> bool" where
  "readable_execution en x \<longleftrightarrow> (\<forall>field. en_read_uuid en field (tx_id x) = Inr (tx_id x) \<and>
     en_read_uuid en field (tx_session_id x) = Inr (tx_session_id x) \<and>
     en_read_uuid en field (tx_message_id x) = Inr (tx_message_id x))"

lemma json_execution_row_back:
  assumes "\<forall>s s'. f s = Inr s' \<longrightarrow> g s' = Inr s" and "json_execution_row f r = Inr w"
  shows "json_execution_row g w = Inr r"
  using assms json_option_back [OF assms(1)] by (auto simp: json_execution_row_def split: sum.splits)

lemma sql_record_execution_Inr:
  assumes "sql_record_execution en cd x db = (Inr x', db')"
  shows "\<exists>r w. x' = x \<and> row_of_execution en cd x = Inr r \<and> json_execution_row (en_write_json en) r = Inr w \<and>
    ew_id w \<notin> ew_id ` set (te_executions (sd_tables db)) \<and>
    sd_tables db' = (sd_tables db)\<lparr>te_executions := te_executions (sd_tables db) @ [w]\<rparr>"
proof -
  from assms obtain r u where r: "row_of_execution en cd x = Inr r" "x' = x"
    and s: "sql en (insert_execution en r) db = (Inr u, db')"
    unfolding sql_record_execution_def by auto
  show ?thesis using sql_cases(2) [OF s] r
    by (auto simp: insert_execution_def split: if_splits sum.splits)
qed

lemma sql_record_execution_Inl:
  assumes "sql_record_execution en cd x db = (Inl e, db')"
  shows "sd_tables db' = sd_tables db"
proof (cases "row_of_execution en cd x")
  case (Inr r)
  obtain res db1 where s: "sql en (insert_execution en r) db = (res, db1)" by fastforce
  then show ?thesis using assms Inr sql_cases(1) [of en "insert_execution en r" db _ db1]
    by (cases res) (auto simp: sql_record_execution_def try_then_def)
qed (use assms in \<open>simp add: sql_record_execution_def try_then_def\<close>)

text \<open>Executions through SQL. An execution that was recorded is in the table under its session and its
  message, and its row reads back exactly as it was, whatever it holds, but for its duration, of which the part
  below a millisecond and that above \<open>i64::MAX\<close> milliseconds is lost; one that was not recorded leaves the
  tables as they were.\<close>

theorem sql_execution_roundtrip:
  assumes "lossless_text cd" and "lossless_engine en" and "readable_execution en x"
  shows "case sql_record_execution en cd x db of
      (Inl e, db') \<Rightarrow> sd_tables db' = sd_tables db
    | (Inr x', db') \<Rightarrow> \<exists>w r. te_executions (sd_tables db') = te_executions (sd_tables db) @ [w] \<and>
        ew_session_id w = tx_session_id x \<and> ew_message_id w = tx_message_id x \<and>
        json_execution_row (en_read_json en) w = Inr r \<and>
        execution_of_row en cd r = Inr (x\<lparr>tx_duration := min (tx_duration x div 1000000) (2 ^ 63 - 1) * 1000000\<rparr>)"
proof (cases "sql_record_execution en cd x db")
  case (Pair res db')
  show ?thesis
  proof (cases res)
    case (Inl e)
    then show ?thesis using Pair sql_record_execution_Inl by fastforce
  next
    case (Inr x')
    from sql_record_execution_Inr [OF Pair [unfolded Inr]] obtain r w where
      r: "row_of_execution en cd x = Inr r" and w: "json_execution_row (en_write_json en) r = Inr w"
      and t: "te_executions (sd_tables db') = te_executions (sd_tables db) @ [w]" by auto
    have "json_execution_row (en_read_json en) w = Inr r"
      using assms(2) by (intro json_execution_row_back [OF _ w]) (simp add: lossless_engine_def)
    moreover have "ew_session_id w = tx_session_id x \<and> ew_message_id w = tx_message_id x"
      using r w by (auto simp: row_of_execution_def json_execution_row_def split: sum.splits)
    moreover have "execution_of_row en cd r = Inr (x\<lparr>tx_duration := min (tx_duration x div 1000000) (2 ^ 63 - 1) * 1000000\<rparr>)"
      using r assms by (auto simp: row_of_execution_def execution_of_row_def parse_printed stored_duration
          lossless_engine_def readable_execution_def split: sum.splits)
    ultimately show ?thesis using Pair Inr t by auto
  qed
qed

section \<open>Statistics\<close>

fun record_executions :: "sql_engine \<Rightarrow> json text_codec \<Rightarrow> tool_execution list \<Rightarrow> unit execution_op" where
  "record_executions en cd [] = Pair (Inr ())"
| "record_executions en cd (x # xs) = try_then (sql_record_execution en cd x) (\<lambda>_. record_executions en cd xs)"

fun record_usages :: "sql_engine \<Rightarrow> usage_record list \<Rightarrow> unit execution_op" where
  "record_usages en [] = Pair (Inr ())"
| "record_usages en (u # us) = try_then (sql_record_usage en u) (\<lambda>_. record_usages en us)"

definition memory_records :: "tool_execution list \<Rightarrow> usage_record list \<Rightarrow> execution_store" where
  "memory_records xs us = foldl (\<lambda>st u. snd (record_usage_entry st u))
     (foldl (\<lambda>st x. snd (record_execution st x)) execution_store_new xs) us"

definition execution_stored :: "tool_execution \<Rightarrow> execution_row \<Rightarrow> bool" where
  "execution_stored x w \<longleftrightarrow>
     ew_id w = tx_id x \<and> ew_session_id w = tx_session_id x \<and> ew_status w = status_to_str (tx_status x)"

lemma update_new_key: "k \<notin> fst ` set al \<Longrightarrow> AList.update k v al = al @ [(k, v)]"
  by (induction al) auto

lemma record_executions_rows:
  "record_executions en cd xs db = (Inr (), db') \<Longrightarrow>
    \<exists>ws. list_all2 execution_stored xs ws \<and> distinct (map tx_id xs) \<and>
      (\<forall>x\<in>set xs. tx_id x \<notin> ew_id ` set (te_executions (sd_tables db))) \<and>
      sd_tables db' = (sd_tables db)\<lparr>te_executions := te_executions (sd_tables db) @ ws\<rparr>"
proof (induction xs arbitrary: db)
  case (Cons x xs)
  from Cons.prems obtain x' db1 where 1: "sql_record_execution en cd x db = (Inr x', db1)"
    and 2: "record_executions en cd xs db1 = (Inr (), db')" by auto
  from sql_record_execution_Inr [OF 1] obtain r w where w: "row_of_execution en cd x = Inr r"
    "json_execution_row (en_write_json en) r = Inr w" "ew_id w \<notin> ew_id ` set (te_executions (sd_tables db))"
    "sd_tables db1 = (sd_tables db)\<lparr>te_executions := te_executions (sd_tables db) @ [w]\<rparr>" by blast
  have x: "execution_stored x w"
    using w(1,2) by (auto simp: execution_stored_def row_of_execution_def json_execution_row_def split: sum.splits)
  from Cons.IH [OF 2] obtain ws where "list_all2 execution_stored xs ws" "distinct (map tx_id xs)"
    "\<forall>x\<in>set xs. tx_id x \<notin> ew_id ` set (te_executions (sd_tables db1))"
    "sd_tables db' = (sd_tables db1)\<lparr>te_executions := te_executions (sd_tables db1) @ ws\<rparr>" by blast
  moreover have "ew_id w = tx_id x" using x by (simp add: execution_stored_def)
  ultimately show ?case using w(3,4) x by (intro exI [of _ "w # ws"]) auto
qed simp

lemma record_usages_rows:
  "record_usages en us db = (Inr (), db') \<Longrightarrow>
    distinct (map ur_id us) \<and> (\<forall>u\<in>set us. ur_id u \<notin> uw_id ` set (te_usage (sd_tables db))) \<and>
      sd_tables db' = (sd_tables db)\<lparr>te_usage := te_usage (sd_tables db) @ map (row_of_usage en) us\<rparr>"
proof (induction us arbitrary: db)
  case (Cons u us)
  from Cons.prems obtain n db1 where 1: "sql en (insert_usage en (row_of_usage en u)) db = (Inr n, db1)"
    and 2: "record_usages en us db1 = (Inr (), db')" by (auto simp: sql_record_usage_def)
  have "ur_id u \<notin> uw_id ` set (te_usage (sd_tables db)) \<and>
      sd_tables db1 = (sd_tables db)\<lparr>te_usage := te_usage (sd_tables db) @ [row_of_usage en u]\<rparr>"
    using sql_cases(2) [OF 1] by (auto simp: insert_usage_def row_of_usage_def split: if_splits dest: sym)
  with Cons.IH [OF 2] show ?case by (auto simp: row_of_usage_def)
qed simp

lemma memory_executions:
  "distinct (map tx_id xs) \<Longrightarrow> \<forall>x\<in>set xs. tx_id x \<notin> fst ` set (xs_executions st) \<Longrightarrow>
    foldl (\<lambda>st x. snd (record_execution st x)) st xs =
    st\<lparr>xs_executions := xs_executions st @ map (\<lambda>x. (tx_id x, x)) xs\<rparr>"
proof (induction xs arbitrary: st)
  case (Cons x xs)
  have "\<forall>y\<in>set xs. tx_id y \<notin> fst ` set (xs_executions (snd (record_execution st x)))"
    using Cons.prems by (auto simp: record_execution_def update_new_key) (metis imageI)
  then show ?case using Cons by (simp add: record_execution_def update_new_key)
qed simp

lemma memory_usages:
  "distinct (map ur_id us) \<Longrightarrow> \<forall>u\<in>set us. ur_id u \<notin> fst ` set (xs_usage_records st) \<Longrightarrow>
    foldl (\<lambda>st u. snd (record_usage_entry st u)) st us =
    st\<lparr>xs_usage_records := xs_usage_records st @ map (\<lambda>u. (ur_id u, u)) us\<rparr>"
proof (induction us arbitrary: st)
  case (Cons u us)
  have "\<forall>y\<in>set us. ur_id y \<notin> fst ` set (xs_usage_records (snd (record_usage_entry st u)))"
    using Cons.prems by (auto simp: record_usage_entry_def update_new_key) (metis imageI)
  then show ?case using Cons by (simp add: record_usage_entry_def update_new_key)
qed simp

lemma stored_counts:
  "list_all2 execution_stored xs ws \<Longrightarrow> (\<And>x w. execution_stored x w \<Longrightarrow> P x = Q w) \<Longrightarrow>
    length (filter Q ws) = length (filter P xs)"
  by (induction rule: list_all2_induct) auto

text \<open>Statistics. After the same recordings, on an engine that reads sums as numbers, the SQL store counts calls,
  successes and failures and adds up tokens as the in-memory store does, modulo \<open>2 ^ 64\<close>; the two differ at
  most in the messages, which SQL counts, and in the rounding of the average.\<close>

theorem sql_stats_agree:
  assumes "\<forall>xs. en_sum en xs = Inr (sum_list xs)" and "\<forall>xs. \<exists>a. en_average en xs = Inr a"
    and "te_executions (sd_tables db) = []" and "te_usage (sd_tables db) = []"
    and "record_executions en cd xs db = (Inr (), db1)" and "record_usages en us db1 = (Inr (), db2)" and "sd_faults db2 = []"
  shows "\<exists>n a. fst (sql_session_stats en i db2) =
    Inr ((session_stats_of (memory_records xs us) i)\<lparr>st_message_count := n, st_avg_tool_duration_ms := a\<rparr>)"
proof -
  from record_executions_rows [OF assms(5)] assms(3) obtain ws where ws: "list_all2 execution_stored xs ws"
    "distinct (map tx_id xs)" "sd_tables db1 = (sd_tables db)\<lparr>te_executions := ws\<rparr>" by auto
  from record_usages_rows [OF assms(6)] assms(4) ws(3) have us: "distinct (map ur_id us)"
    "sd_tables db2 = (sd_tables db)\<lparr>te_executions := ws, te_usage := map (row_of_usage en) us\<rparr>" by auto
  have mem: "memory_records xs us = execution_store_new\<lparr>xs_executions := map (\<lambda>x. (tx_id x, x)) xs,
      xs_usage_records := map (\<lambda>u. (ur_id u, u)) us\<rparr>"
    using ws(2) us(1) by (simp add: memory_records_def memory_executions memory_usages execution_store_new_def)
  have vals: "map snd (map (\<lambda>x. (tx_id x, x)) xs) = xs" "map snd (map (\<lambda>u. (ur_id u, u)) us) = us"
    by (simp_all add: comp_def)
  let ?xs = "filter (\<lambda>x. tx_session_id x = i) xs" and ?ws = "filter (\<lambda>r. ew_session_id r = i) ws"
    and ?us = "filter (\<lambda>u. ur_session_id u = i) us"
  have calls: "length ?ws = length ?xs"
    by (rule stored_counts [OF ws(1)]) (simp add: execution_stored_def)
  have st: "status_to_str s = ''success'' \<longleftrightarrow> s = ExSuccess" "status_to_str s = ''failed'' \<longleftrightarrow> s = ExFailed" for s
    by (cases s; simp)+
  have ok: "length (filter (\<lambda>r. ew_status r = ''success'') ?ws) = length (filter (\<lambda>x. tx_status x = ExSuccess) ?xs)"
    and bad: "length (filter (\<lambda>r. ew_status r = ''failed'') ?ws) = length (filter (\<lambda>x. tx_status x = ExFailed) ?xs)"
    unfolding filter_filter by (rule stored_counts [OF ws(1)]; auto simp: execution_stored_def st)+
  have tok: "filter (\<lambda>r. uw_session_id r = i) (map (row_of_usage en) us) = map (row_of_usage en) ?us"
    by (induction us) (simp_all add: row_of_usage_def)
  have sums: "of_int (sum_list (map uw_input_tokens (map (row_of_usage en) vs))) = sum_list (map ur_input_tokens vs)"
    "of_int (sum_list (map uw_output_tokens (map (row_of_usage en) vs))) = sum_list (map ur_output_tokens vs)"
    "of_int (sum_list (map uw_total_tokens (map (row_of_usage en) vs))) = sum_list (map ur_total_tokens vs)" for vs
    by (induction vs) (simp_all add: row_of_usage_def)
  obtain a where a: "en_average en (map (sint \<circ> ew_duration_ms) ?ws) = Inr a" using assms(2) by blast
  show ?thesis
    using assms(1,7) a
    by (simp add: sql_session_stats_def sql_def execute_def try_err_def try_then_def select_stats_def Let_def us(2) tok
        stats_of_row_def session_stats_of_def mem vals [simplified] calls ok [simplified] bad [simplified]
        sums [simplified] execution_store_new_def)
qed

text \<open>The sum of a \<open>BIGINT\<close> column is a \<open>NUMERIC\<close> on PostgreSQL, which is not read as an \<open>i64\<close>: there the
  statistics of no session can be had.\<close>

lemma postgres_has_no_stats:
  assumes "\<forall>xs. \<exists>e. sv_sum sv xs = Inl e"
  shows "\<exists>x. fst (pg_session_stats sv i db) = Inl x"
proof -
  have "\<exists>e. select_stats (postgres_engine sv) i t = Inl e" for t
    using assms [rule_format, of "map uw_input_tokens (filter (\<lambda>r. uw_session_id r = i) (te_usage t))"]
    by (auto simp: select_stats_def postgres_engine_def Let_def split: sum.split)
  then have "\<exists>e db'. execute (select_stats (postgres_engine sv) i) db = (Inl e, db')"
    by (auto simp: execute_def Let_def split: list.split option.split sum.split) (metis sum.distinct(1))+
  then show ?thesis by (auto simp: pg_session_stats_def sql_session_stats_def sql_def try_err_def try_then_def)
qed

definition null_codec :: "json text_codec" where
  "null_codec = \<lparr>tc_print = (\<lambda>j. if j = JNull then Inr ''null'' else Inl ''unknown''),
     tc_parse = (\<lambda>s. if s = ''null'' then Inr JNull else Inl ''unknown'')\<rparr>"

definition sample_execution :: tool_execution where
  "sample_execution =
     \<lparr>tx_id = ''x'', tx_session_id = ''s'', tx_message_id = ''m'', tx_call_id = ''c'', tx_tool_name = ''sum'',
      tx_arguments = JNull, tx_result = None, tx_status = ExSuccess, tx_error = None,
      tx_duration = 7000000, tx_created_at = 3\<rparr>"

definition sample_usage :: usage_record where
  "sample_usage =
     \<lparr>ur_id = ''u'', ur_session_id = ''s'', ur_message_id = ''m'', ur_provider = ''p'', ur_model = ''m'',
      ur_input_tokens = 100, ur_output_tokens = 50, ur_total_tokens = 150, ur_created_at = 4\<rparr>"

definition sample_executions :: "execution_tables sql_db" where
  "sample_executions = \<lparr>sd_tables = \<lparr>te_sessions = [''s''], te_messages = [(''m'', ''s'')], te_executions = [], te_usage = []\<rparr>,
     sd_faults = []\<rparr>"

theorem sql_stats_agree_witness:
  "let en = sqlite_engine (sample_server Inr);
       db1 = snd (record_executions en null_codec [sample_execution] sample_executions);
       db2 = snd (record_usages en [sample_usage] db1)
   in \<exists>n a. fst (sql_session_stats en ''s'' db2) =
     Inr ((session_stats_of (memory_records [sample_execution] [sample_usage]) ''s'')\<lparr>st_message_count := n, st_avg_tool_duration_ms := a\<rparr>)"
proof -
  let ?en = "sqlite_engine (sample_server Inr)"
  let ?r1 = "record_executions ?en null_codec [sample_execution] sample_executions"
  let ?r2 = "record_usages ?en [sample_usage] (snd ?r1)"
  have 1: "?r1 = (Inr (), snd ?r1)"
    and t1: "sd_faults (snd ?r1) = []" "te_usage (sd_tables (snd ?r1)) = []" "te_sessions (sd_tables (snd ?r1)) = [''s'']"
    by (simp_all add: sql_record_execution_def row_of_execution_def to_json_string_def print_option_def sql_def try_then_def
        try_err_def execute_def insert_execution_def json_execution_row_def json_option_def references_ok_def
        sample_execution_def sample_executions_def null_codec_def sqlite_engine_def sample_server_def)
  from t1 have 2: "?r2 = (Inr (), snd ?r2)" and f: "sd_faults (snd ?r2) = []"
    by (simp_all add: sql_record_usage_def sql_def try_then_def try_err_def execute_def insert_usage_def references_ok_def
        row_of_usage_def sample_usage_def sqlite_engine_def)
  have e: "\<forall>xs. en_sum ?en xs = Inr (sum_list xs)" "\<forall>xs. \<exists>a. en_average ?en xs = Inr a"
    by (simp_all add: sqlite_engine_def sample_server_def)
  have t: "te_executions (sd_tables sample_executions) = []" "te_usage (sd_tables sample_executions) = []"
    by (simp_all add: sample_executions_def)
  show ?thesis unfolding Let_def by (rule sql_stats_agree [OF e t 1 2 f])
qed

end
