(* ===== verification/Redis_Sessions.thy ===== *)
theory Redis_Sessions
  imports Sql_Sessions "HOL-Library.Product_Lexorder" "HOL-Library.List_Lexorder" "HOL-Library.Char_ord" "HOL-Library.AList"
begin

text \<open>
  The Redis session store (\<open>behest-store/src/redis/session.rs\<close>). The server is a parameter: its commands
  on a state of its own, each of which may fail, with the documented effect of those that do not
  (\<open>redis_laws\<close>): hashes, and sorted sets ordered by score and then by member. Other parameters are the
  text of identifiers, times and messages; a score is the number of milliseconds, which \<open>f64\<close> holds
  exactly up to \<open>2^53\<close>.
\<close>

section \<open>The server\<close>

record 'r redis =
  rd_connect :: "'r \<Rightarrow> (string + unit) \<times> 'r"
  rd_hset :: "string \<Rightarrow> (string \<times> string) list \<Rightarrow> 'r \<Rightarrow> (string + unit) \<times> 'r"
  rd_hmget :: "string \<Rightarrow> string list \<Rightarrow> 'r \<Rightarrow> (string + string option list) \<times> 'r"
  rd_del :: "string list \<Rightarrow> 'r \<Rightarrow> (string + unit) \<times> 'r"
  rd_exists :: "string \<Rightarrow> 'r \<Rightarrow> (string + bool) \<times> 'r"
  rd_zadd :: "string \<Rightarrow> string \<Rightarrow> int \<Rightarrow> 'r \<Rightarrow> (string + unit) \<times> 'r"
  rd_zrem :: "string \<Rightarrow> string \<Rightarrow> 'r \<Rightarrow> (string + unit) \<times> 'r"
  rd_zrange :: "string \<Rightarrow> 'r \<Rightarrow> (string + string list) \<times> 'r"
  rd_scan :: "u64 \<Rightarrow> 'r \<Rightarrow> (string + u64 \<times> string list) \<times> 'r"

text \<open>\<open>hash r k\<close> and \<open>scores r k\<close> are what the key holds as a hash and as a sorted set.\<close>

type_synonym 'r redis_view = "('r \<Rightarrow> string \<Rightarrow> string \<rightharpoonup> string) \<times> ('r \<Rightarrow> string \<Rightarrow> string \<rightharpoonup> int)"

definition ranked :: "(string \<rightharpoonup> int) \<Rightarrow> string list \<Rightarrow> bool" where
  "ranked z ms \<longleftrightarrow> set ms = dom z \<and> sorted_wrt (\<lambda>a b. (the (z a), a) < (the (z b), b)) ms"

definition redis_laws :: "'r redis \<Rightarrow> 'r redis_view \<Rightarrow> bool" where
  "redis_laws rd v \<longleftrightarrow> (case v of (hash, scores) \<Rightarrow>
     (\<forall>r r'. rd_connect rd r = (Inr (), r') \<longrightarrow> hash r' = hash r \<and> scores r' = scores r) \<and>
     (\<forall>k fs r r'. rd_hset rd k fs r = (Inr (), r') \<longrightarrow>
        hash r' = (hash r)(k := hash r k ++ map_of (rev fs)) \<and> scores r' = scores r) \<and>
     (\<forall>k fs r r' vs. rd_hmget rd k fs r = (Inr vs, r') \<longrightarrow>
        vs = map (hash r k) fs \<and> hash r' = hash r \<and> scores r' = scores r) \<and>
     (\<forall>k r r' b. rd_exists rd k r = (Inr b, r') \<longrightarrow>
        (b \<longleftrightarrow> hash r k \<noteq> Map.empty \<or> scores r k \<noteq> Map.empty) \<and> hash r' = hash r \<and> scores r' = scores r) \<and>
     (\<forall>k m s r r'. rd_zadd rd k m s r = (Inr (), r') \<longrightarrow>
        hash r' = hash r \<and> scores r' = (scores r)(k := (scores r k)(m \<mapsto> s))) \<and>
     (\<forall>k m r r'. rd_zrem rd k m r = (Inr (), r') \<longrightarrow>
        hash r' = hash r \<and> scores r' = (scores r)(k := (scores r k)(m := None))) \<and>
     (\<forall>k r r' ms. rd_zrange rd k r = (Inr ms, r') \<longrightarrow>
        ranked (scores r k) ms \<and> hash r' = hash r \<and> scores r' = scores r))"

section \<open>The store\<close>

record redis_codecs =
  rk_parse_uuid :: "string \<Rightarrow> string + uuid"
  rk_show_time :: "timestamp \<Rightarrow> string"
  rk_parse_time :: "string \<Rightarrow> string + timestamp"
  rk_value :: "json text_codec"
  rk_message :: "message_record text_codec"
  rk_millis :: "timestamp \<Rightarrow> int"
  rk_show_score :: "int \<Rightarrow> string"

definition redis_error :: "string \<Rightarrow> storage_error" where
  "redis_error e = BackendError ''redis'' e (Some e)"

definition redis_conn :: "'r redis \<Rightarrow> 'r \<Rightarrow> (storage_error + unit) \<times> 'r" where
  "redis_conn rd = try_err (\<lambda>e. ConnectionFailed ''redis'' e (Some e)) (rd_connect rd)"

definition session_key :: "uuid \<Rightarrow> string" where "session_key i = ''session:'' @ i"
definition messages_key :: "uuid \<Rightarrow> string" where "messages_key i = ''messages:'' @ i"
definition message_index_key :: "uuid \<Rightarrow> string" where "message_index_key i = ''message_index:'' @ i"

definition redis_create_session ::
  "'r redis \<Rightarrow> redis_codecs \<Rightarrow> session \<Rightarrow> 'r \<Rightarrow> (storage_error + session) \<times> 'r" where
  "redis_create_session rd rk s =
     try_then (redis_conn rd) (\<lambda>_.
     try_then (Pair (to_json_string (rk_value rk) ''session.metadata'' (se_metadata s))) (\<lambda>md.
     try_then (try_err redis_error (rd_hset rd (session_key (se_id s))
       [(''id'', se_id s), (''title'', se_title s), (''model'', se_model s), (''metadata'', md),
        (''created_at'', rk_show_time rk (se_created_at s)), (''updated_at'', rk_show_time rk (se_updated_at s))]))
       (\<lambda>_. Pair (Inr s))))"

definition missing_field :: "string \<Rightarrow> storage_error" where
  "missing_field f = DataCorruption (''session.'' @ f) (''missing '' @ f @ '' field in Redis hash'') None"

definition required :: "string \<Rightarrow> string option \<Rightarrow> storage_error + string" where
  "required f v = (case v of None \<Rightarrow> Inl (missing_field f) | Some s \<Rightarrow> Inr s)"

text \<open>The fields of a session, read in the order of the code; the first that is wrong is the error.\<close>

definition session_of_fields :: "redis_codecs \<Rightarrow> string option list \<Rightarrow> storage_error + session option" where
  "session_of_fields rk flds =
     (if list_all (\<lambda>f. f = None) flds then Inr None
      else case required ''id'' (flds ! 0) of Inl x \<Rightarrow> Inl x | Inr i \<Rightarrow>
      (case parse_uuid (rk_parse_uuid rk) i ''session.id'' of Inl x \<Rightarrow> Inl x | Inr uid \<Rightarrow>
      (case required ''title'' (flds ! 1) of Inl x \<Rightarrow> Inl x | Inr title \<Rightarrow>
      (case required ''model'' (flds ! 2) of Inl x \<Rightarrow> Inl x | Inr model \<Rightarrow>
      (case from_json_str (rk_value rk) ''session.metadata''
          (case flds ! 3 of Some s \<Rightarrow> s | None \<Rightarrow> ''{}'') of Inl x \<Rightarrow> Inl x | Inr md \<Rightarrow>
      (case required ''created_at'' (flds ! 4) of Inl x \<Rightarrow> Inl x | Inr c \<Rightarrow>
      (case parse_rfc3339 (rk_parse_time rk) c ''session.created_at'' of Inl x \<Rightarrow> Inl x | Inr created \<Rightarrow>
      (case required ''updated_at'' (flds ! 5) of Inl x \<Rightarrow> Inl x | Inr u \<Rightarrow>
      (case parse_rfc3339 (rk_parse_time rk) u ''session.updated_at'' of Inl x \<Rightarrow> Inl x | Inr updated \<Rightarrow>
        Inr (Some \<lparr>se_id = uid, se_title = title, se_model = model, se_created_at = created,
          se_updated_at = updated, se_metadata = md\<rparr>))))))))))"

definition session_fields :: "string list" where
  "session_fields = [''id'', ''title'', ''model'', ''metadata'', ''created_at'', ''updated_at'']"

definition load_session :: "'r redis \<Rightarrow> redis_codecs \<Rightarrow> string \<Rightarrow> 'r \<Rightarrow> (storage_error + session option) \<times> 'r" where
  "load_session rd rk key =
     try_then (try_err redis_error (rd_hmget rd key session_fields)) (\<lambda>flds. Pair (session_of_fields rk flds))"

definition redis_get_session ::
  "'r redis \<Rightarrow> redis_codecs \<Rightarrow> uuid \<Rightarrow> 'r \<Rightarrow> (storage_error + session option) \<times> 'r" where
  "redis_get_session rd rk i = try_then (redis_conn rd) (\<lambda>_. load_session rd rk (session_key i))"

text \<open>The loop over \<open>SCAN\<close> has no bound of its own; \<open>fuel\<close> is the number of calls.\<close>

fun scan_session_keys :: "nat \<Rightarrow> 'r redis \<Rightarrow> u64 \<Rightarrow> string list \<Rightarrow> 'r \<Rightarrow> ((storage_error + string list) \<times> 'r) option" where
  "scan_session_keys 0 rd cursor keys r = None"
| "scan_session_keys (Suc fuel) rd cursor keys r =
     (case rd_scan rd cursor r of
        (Inl e, r') \<Rightarrow> Some (Inl (redis_error e), r')
      | (Inr (next_cursor, batch), r') \<Rightarrow>
          if next_cursor = 0 then Some (Inr (keys @ batch), r')
          else scan_session_keys fuel rd next_cursor (keys @ batch) r')"

fun load_sessions ::
  "'r redis \<Rightarrow> redis_codecs \<Rightarrow> string list \<Rightarrow> session list \<Rightarrow> 'r \<Rightarrow> (storage_error + session list) \<times> 'r" where
  "load_sessions rd rk [] out = Pair (Inr out)"
| "load_sessions rd rk (key # keys) out =
     try_then (load_session rd rk key) (\<lambda>s. load_sessions rd rk keys (case s of Some x \<Rightarrow> out @ [x] | None \<Rightarrow> out))"

definition redis_list_sessions ::
  "nat \<Rightarrow> 'r redis \<Rightarrow> redis_codecs \<Rightarrow> 'r \<Rightarrow> ((storage_error + session list) \<times> 'r) option" where
  "redis_list_sessions fuel rd rk r =
     (case redis_conn rd r of
        (Inl x, r1) \<Rightarrow> Some (Inl x, r1)
      | (Inr _, r1) \<Rightarrow>
          (case scan_session_keys fuel rd 0 [] r1 of
             None \<Rightarrow> None
           | Some (Inl x, r2) \<Rightarrow> Some (Inl x, r2)
           | Some (Inr keys, r2) \<Rightarrow> Some (case load_sessions rd rk keys [] r2 of
               (Inl x, r3) \<Rightarrow> (Inl x, r3)
             | (Inr ss, r3) \<Rightarrow> (Inr (sort_key (\<lambda>s. - int (se_updated_at s)) ss), r3))))"

definition redis_delete_session :: "'r redis \<Rightarrow> uuid \<Rightarrow> 'r \<Rightarrow> (storage_error + unit) \<times> 'r" where
  "redis_delete_session rd i =
     try_then (redis_conn rd) (\<lambda>_. try_err redis_error (rd_del rd [session_key i, messages_key i]))"

definition serialization_failed :: "string \<Rightarrow> storage_error" where
  "serialization_failed e = SerializationFailed e (Some e)"

definition redis_append_message ::
  "'r redis \<Rightarrow> redis_codecs \<Rightarrow> timestamp \<Rightarrow> message_record \<Rightarrow> 'r \<Rightarrow> (storage_error + message_record) \<times> 'r" where
  "redis_append_message rd rk now m =
     try_then (redis_conn rd) (\<lambda>_.
     try_then (try_err redis_error (rd_exists rd (session_key (mr_session_id m)))) (\<lambda>there.
     if \<not> there then Pair (Inl (StorageNotFound (mr_session_id m)))
     else
     try_then (Pair (map_sum serialization_failed id (tc_print (rk_message rk) m))) (\<lambda>text'.
     try_then (try_err redis_error
       (rd_zadd rd (messages_key (mr_session_id m)) text' (rk_millis rk (mr_created_at m)))) (\<lambda>_.
     try_then (try_err redis_error (rd_hset rd (message_index_key (mr_id m))
       [(''session_id'', mr_session_id m), (''score'', rk_show_score rk (rk_millis rk (mr_created_at m)))])) (\<lambda>_.
     try_then (try_err redis_error (rd_hset rd (session_key (mr_session_id m))
       [(''updated_at'', rk_show_time rk now)])) (\<lambda>_. Pair (Inr m)))))))"

definition parse_message :: "redis_codecs \<Rightarrow> string \<Rightarrow> storage_error + message_record" where
  "parse_message rk s = map_sum serialization_failed id (tc_parse (rk_message rk) s)"

definition redis_list_messages ::
  "'r redis \<Rightarrow> redis_codecs \<Rightarrow> uuid \<Rightarrow> 'r \<Rightarrow> (storage_error + message_record list) \<times> 'r" where
  "redis_list_messages rd rk i =
     try_then (redis_conn rd) (\<lambda>_.
     try_then (try_err redis_error (rd_zrange rd (messages_key i)))
       (\<lambda>items. Pair (collect_results (parse_message rk) items)))"

fun replace_usage ::
  "'r redis \<Rightarrow> redis_codecs \<Rightarrow> string \<Rightarrow> uuid \<Rightarrow> token_usage \<Rightarrow> string list \<Rightarrow> 'r \<Rightarrow> (storage_error + bool) \<times> 'r" where
  "replace_usage rd rk key i u [] = Pair (Inr False)"
| "replace_usage rd rk key i u (item # items) =
     try_then (Pair (parse_message rk item)) (\<lambda>rec.
     if mr_id rec = i then
       try_then (try_err redis_error (rd_zrem rd key item)) (\<lambda>_.
       try_then (Pair (map_sum serialization_failed id (tc_print (rk_message rk) (rec\<lparr>mr_usage := Some u\<rparr>)))) (\<lambda>text'.
       try_then (try_err redis_error (rd_zadd rd key text' (rk_millis rk (mr_created_at rec)))) (\<lambda>_.
       Pair (Inr True))))
     else replace_usage rd rk key i u items)"

definition redis_update_usage ::
  "'r redis \<Rightarrow> redis_codecs \<Rightarrow> uuid \<Rightarrow> token_usage \<Rightarrow> 'r \<Rightarrow> (storage_error + unit) \<times> 'r" where
  "redis_update_usage rd rk i u =
     try_then (redis_conn rd) (\<lambda>_.
     try_then (try_err redis_error (rd_hmget rd (message_index_key i) [''session_id'', ''score''])) (\<lambda>flds.
     case flds ! 0 of
       None \<Rightarrow> Pair (Inl (StorageNotFound i))
     | Some s \<Rightarrow>
         try_then (Pair (parse_uuid (rk_parse_uuid rk) s ''message_index.session_id'')) (\<lambda>sid.
         try_then (try_err redis_error (rd_zrange rd (messages_key sid))) (\<lambda>items.
         try_then (replace_usage rd rk (messages_key sid) i u items) (\<lambda>found.
         Pair (if found then Inr () else Inl (StorageNotFound i)))))))"

section \<open>Messages in the order of their times\<close>

fun redis_append_all ::
  "'r redis \<Rightarrow> redis_codecs \<Rightarrow> (timestamp \<times> message_record) list \<Rightarrow> 'r \<Rightarrow> (storage_error + unit) \<times> 'r" where
  "redis_append_all rd rk [] = Pair (Inr ())"
| "redis_append_all rd rk ((now, m) # ms) =
     try_then (redis_append_message rd rk now m) (\<lambda>_. redis_append_all rd rk ms)"

lemma redis_append_scores:
  assumes "redis_laws rd (hash, scores)" and "redis_append_message rd rk now m r = (Inr m', r')"
  shows "\<exists>t. tc_print (rk_message rk) m = Inr t \<and>
    scores r' = (scores r)(messages_key (mr_session_id m) :=
      (scores r (messages_key (mr_session_id m)))(t \<mapsto> rk_millis rk (mr_created_at m)))"
proof -
  from assms(2) obtain r1 r2 r3 r4 t where
    c: "rd_connect rd r = (Inr (), r1)" and e: "rd_exists rd (session_key (mr_session_id m)) r1 = (Inr True, r2)"
    and t: "tc_print (rk_message rk) m = Inr t"
    and z: "rd_zadd rd (messages_key (mr_session_id m)) t (rk_millis rk (mr_created_at m)) r2 = (Inr (), r3)"
    and h1: "rd_hset rd (message_index_key (mr_id m)) [(''session_id'', mr_session_id m),
      (''score'', rk_show_score rk (rk_millis rk (mr_created_at m)))] r3 = (Inr (), r4)"
    and h2: "rd_hset rd (session_key (mr_session_id m)) [(''updated_at'', rk_show_time rk now)] r4 = (Inr (), r')"
    unfolding redis_append_message_def redis_conn_def
    by (auto simp: map_sum_def split: if_splits sum.splits)
  have "scores r1 = scores r" "scores r2 = scores r1" "scores r4 = scores r3" "scores r' = scores r4"
    using assms(1) c e h1 h2 unfolding redis_laws_def by auto
  moreover have "scores r3 = (scores r2)(messages_key (mr_session_id m) :=
      (scores r2 (messages_key (mr_session_id m)))(t \<mapsto> rk_millis rk (mr_created_at m)))"
    using assms(1) z unfolding redis_laws_def by auto
  ultimately show ?thesis using t by simp
qed

lemma redis_append_all_scores:
  assumes "redis_laws rd (hash, scores)"
  shows "redis_append_all rd rk ms r = (Inr (), r') \<Longrightarrow> \<forall>p\<in>set ms. mr_session_id (snd p) = i \<Longrightarrow>
    \<exists>ts. collect_results (tc_print (rk_message rk)) (map snd ms) = Inr ts \<and>
      scores r' (messages_key i) = foldl (\<lambda>z (t, s). z(t \<mapsto> s)) (scores r (messages_key i))
        (zip ts (map (rk_millis rk \<circ> mr_created_at \<circ> snd) ms))"
proof (induction ms arbitrary: r)
  case (Cons p ms)
  obtain now m where p: "p = (now, m)" by fastforce
  from Cons.prems(1) obtain m' r1 where 1: "redis_append_message rd rk now m r = (Inr m', r1)"
    and 2: "redis_append_all rd rk ms r1 = (Inr (), r')" by (auto simp: p)
  from redis_append_scores [OF assms 1] Cons.prems(2) obtain t where
    "tc_print (rk_message rk) m = Inr t"
    "scores r1 (messages_key i) = (scores r (messages_key i))(t \<mapsto> rk_millis rk (mr_created_at m))"
    by (auto simp: p)
  with Cons.IH [OF 2] Cons.prems(2) show ?case by (auto simp: p)
qed simp

lemma foldl_updates: "distinct (map fst ps) \<Longrightarrow> foldl (\<lambda>z (t, s). z(t \<mapsto> s)) z ps = z ++ map_of ps"
proof (induction ps arbitrary: z)
  case (Cons p ps)
  then have "map_of ps (fst p) = None" by (simp add: map_of_eq_None_iff)
  with Cons show ?case by (cases p) (auto simp: fun_eq_iff map_add_def split: option.split)
qed simp

lemma ranked_unique: "ranked z xs \<Longrightarrow> ranked z ys \<Longrightarrow> xs = ys"
proof -
  assume r: "ranked z xs" "ranked z ys"
  let ?f = "\<lambda>t. (the (z t), t)"
  have "map ?f xs = map ?f ys"
    by (rule strict_sorted_equal) (use r in \<open>auto simp: ranked_def sorted_wrt_map\<close>)
  then have "map (snd \<circ> ?f) xs = map (snd \<circ> ?f) ys" by (metis map_map)
  then show "xs = ys" by (simp add: comp_def)
qed

lemma ranked_zip:
  assumes "length ts = length ss" and "distinct ts" and "sorted_wrt (<) ss"
  shows "ranked (map_of (zip ts ss)) ts"
proof -
  have "(the (map_of (zip ts ss) (ts ! a)), ts ! a) < (the (map_of (zip ts ss) (ts ! b)), ts ! b)"
    if "a < b" "b < length ts" for a b
  proof -
    have "map_of (zip ts ss) (ts ! k) = Some (ss ! k)" if "k < length ts" for k
      using assms(1,2) that by (simp add: map_of_zip_nth)
    then show ?thesis using that assms(1,3) sorted_wrt_nth_less [OF assms(3), of a b] by simp
  qed
  then show ?thesis using assms(1) by (simp add: ranked_def sorted_wrt_iff_nth_less dom_map_of_zip)
qed

lemma collect_results_map:
  "collect_results f xs = Inr ys \<Longrightarrow> \<forall>x\<in>set xs. \<forall>y. f x = Inr y \<longrightarrow> g y = Inr (h x) \<Longrightarrow>
    collect_results g ys = Inr (map h xs)"
  by (induction xs arbitrary: ys) (auto simp: map_sum_def split: sum.splits)

lemma collect_results_project:
  "collect_results f xs = Inr ys \<Longrightarrow> \<forall>x\<in>set xs. \<forall>y. f x = Inr y \<longrightarrow> k y = j x \<Longrightarrow> map k ys = map j xs"
  by (induction xs arbitrary: ys) (auto simp: map_sum_def split: sum.splits)

lemma collect_results_mem:
  "collect_results f xs = Inr ys \<Longrightarrow> x \<in> set xs \<Longrightarrow> \<exists>y\<in>set ys. f x = Inr y"
  by (induction xs arbitrary: ys) (auto simp: map_sum_def split: sum.splits)

lemma collect_results_distinct:
  "collect_results (tc_print c) xs = Inr ts \<Longrightarrow> distinct xs \<Longrightarrow> lossless_text c \<Longrightarrow> distinct ts"
proof (induction xs arbitrary: ts)
  case (Cons x xs)
  then obtain t ts' where t: "tc_print c x = Inr t" "collect_results (tc_print c) xs = Inr ts'" "ts = t # ts'"
    by (auto simp: map_sum_def split: sum.splits)
  have "collect_results (tc_parse c) ts' = Inr (map (\<lambda>m. m) xs)"
    by (rule collect_results_map [OF t(2)]) (use Cons.prems(3) in \<open>simp add: lossless_text_def\<close>)
  then have "t \<notin> set ts'"
    using t Cons.prems collect_results_mem [of "tc_parse c" ts' xs t] by (auto simp: lossless_text_def)
  then show ?case using Cons.IH [OF t(2)] Cons.prems t(3) by simp
qed simp

lemma redis_zrange:
  "redis_laws rd (hash, scores) \<Longrightarrow> rd_zrange rd k r = (Inr ms, r') \<Longrightarrow> ranked (scores r k) ms"
  unfolding redis_laws_def by simp

text \<open>Messages through Redis. What was appended to a session, each message with a later millisecond than the
  one before, is listed back exactly and in order, whatever else the server does in between.\<close>

theorem redis_messages_roundtrip:
  assumes "redis_laws rd (hash, scores)" and "lossless_text (rk_message rk)"
    and "redis_append_all rd rk ms r = (Inr (), r1)" and "redis_list_messages rd rk i r1 = (Inr out, r2)"
    and "scores r (messages_key i) = Map.empty" and "\<forall>p\<in>set ms. mr_session_id (snd p) = i"
    and "sorted_wrt (<) (map (rk_millis rk \<circ> mr_created_at \<circ> snd) ms)"
  shows "out = map snd ms"
proof -
  let ?ss = "map (rk_millis rk \<circ> mr_created_at \<circ> snd) ms"
  obtain ts where ts: "collect_results (tc_print (rk_message rk)) (map snd ms) = Inr ts"
    and sc: "scores r1 (messages_key i) = foldl (\<lambda>z (t, s). z(t \<mapsto> s)) (scores r (messages_key i)) (zip ts ?ss)"
    using redis_append_all_scores [OF assms(1,3,6)] by blast
  have parse: "collect_results (parse_message rk) ts = Inr (map (\<lambda>m. m) (map snd ms))"
    by (rule collect_results_map [OF ts]) (use assms(2) in \<open>simp add: lossless_text_def parse_message_def\<close>)
  have len: "length ts = length ms" using collect_results_project [OF ts, of "\<lambda>_. ()" "\<lambda>_. ()"] by (metis length_map)
  have "distinct (map snd ms)"
    using assms(7) by (metis (no_types, lifting) distinct_map map_map strict_sorted_iff)
  then have "distinct ts" by (rule collect_results_distinct [OF ts _ assms(2)])
  then have "scores r1 (messages_key i) = map_of (zip ts ?ss)"
    unfolding sc assms(5) by (subst foldl_updates) (simp_all add: len)
  then have rt: "ranked (scores r1 (messages_key i)) ts"
    using ranked_zip [of ts ?ss] \<open>distinct ts\<close> assms(7) len by simp
  obtain r1' r2' items where c: "rd_connect rd r1 = (Inr (), r1')"
    and z: "rd_zrange rd (messages_key i) r1' = (Inr items, r2')"
    and items: "collect_results (parse_message rk) items = Inr out"
    using assms(4) unfolding redis_list_messages_def redis_conn_def by auto
  have "ranked (scores r1' (messages_key i)) items" by (rule redis_zrange [OF assms(1) z])
  moreover have "scores r1' = scores r1" using assms(1) c unfolding redis_laws_def by auto
  ultimately have "ranked (scores r1 (messages_key i)) items" by simp
  then have "items = ts" using rt by (rule ranked_unique)
  then show ?thesis using items parse by simp
qed

section \<open>A server\<close>

text \<open>A server that never fails, as association lists.\<close>

record mem_server =
  ms_hashes :: "(string \<times> (string \<times> string) list) list"
  ms_sets :: "(string \<times> (string \<times> int) list) list"

definition entry :: "(string \<times> 'v list) list \<Rightarrow> string \<Rightarrow> 'v list" where
  "entry m k = (case map_of m k of None \<Rightarrow> [] | Some v \<Rightarrow> v)"

definition mem_redis :: "mem_server redis" where
  "mem_redis =
     \<lparr>rd_connect = (\<lambda>r. (Inr (), r)),
      rd_hset = (\<lambda>k fs r. (Inr (), r\<lparr>ms_hashes := AList.update k
        (fold (\<lambda>(f, v). AList.update f v) fs (entry (ms_hashes r) k)) (ms_hashes r)\<rparr>)),
      rd_hmget = (\<lambda>k fs r. (Inr (map (map_of (entry (ms_hashes r) k)) fs), r)),
      rd_del = (\<lambda>ks r. (Inr (), r\<lparr>ms_hashes := filter (\<lambda>(k, _). k \<notin> set ks) (ms_hashes r),
        ms_sets := filter (\<lambda>(k, _). k \<notin> set ks) (ms_sets r)\<rparr>)),
      rd_exists = (\<lambda>k r. (Inr (entry (ms_hashes r) k \<noteq> [] \<or> entry (ms_sets r) k \<noteq> []), r)),
      rd_zadd = (\<lambda>k m s r. (Inr (), r\<lparr>ms_sets := AList.update k
        (AList.update m s (entry (ms_sets r) k)) (ms_sets r)\<rparr>)),
      rd_zrem = (\<lambda>k m r. (Inr (), r\<lparr>ms_sets := AList.update k
        (AList.delete m (entry (ms_sets r) k)) (ms_sets r)\<rparr>)),
      rd_zrange = (\<lambda>k r. (Inr (map fst (sort_key (\<lambda>(m, s). (s, m)) (AList.clearjunk (entry (ms_sets r) k)))), r)),
      rd_scan = (\<lambda>c r. (Inr (0, map fst (ms_hashes r)), r))\<rparr>"

definition mem_view :: "mem_server redis_view" where
  "mem_view = (\<lambda>r k. map_of (entry (ms_hashes r) k), \<lambda>r k. map_of (entry (ms_sets r) k))"

lemma entry_update: "entry (AList.update k v m) k' = (if k' = k then v else entry m k')"
  by (simp add: entry_def update_conv')

lemma map_of_fold_update: "map_of (fold (\<lambda>(f, v). AList.update f v) fs m) = map_of m ++ map_of (rev fs)"
  by (induction fs arbitrary: m) (auto simp: update_conv' map_add_def fun_eq_iff split: option.split)

lemma ranked_sorted: "ranked (map_of xs) (map fst (sort_key (\<lambda>(m, s). (s, m)) (AList.clearjunk xs)))"
proof -
  let ?ys = "sort_key (\<lambda>(m, s). (s, m)) (AList.clearjunk xs)"
  let ?f = "\<lambda>t. (the (map_of xs t), t)"
  have d: "distinct (map fst ?ys)"
    by (metis distinct_clearjunk distinct_map distinct_sort set_sort inj_on_def)
  have v: "map_of xs m = Some s" if "(m, s) \<in> set ?ys" for m s
    using that distinct_clearjunk [of xs] by (metis map_of_clearjunk map_of_is_SomeI set_sort)
  have "map ?f (map fst ?ys) = map (\<lambda>(m, s). (s, m)) ?ys" using v by auto
  then have "sorted (map ?f (map fst ?ys))" by (metis sorted_sort_key)
  moreover have "distinct (map ?f (map fst ?ys))" using d by (simp add: distinct_map inj_on_def)
  ultimately have "sorted_wrt (<) (map ?f (map fst ?ys))" by (simp add: strict_sorted_iff)
  moreover have "set (map fst ?ys) = dom (map_of xs)"
    using dom_map_of_conv_image_fst [of "AList.clearjunk xs"] by (simp add: map_of_clearjunk)
  ultimately show ?thesis by (simp add: ranked_def sorted_wrt_map)
qed

lemma mem_redis_laws: "redis_laws mem_redis mem_view"
  unfolding redis_laws_def mem_view_def prod.case
  by (intro conjI) (auto simp: mem_redis_def entry_update map_of_fold_update ranked_sorted fun_eq_iff
      update_conv' delete_conv' map_of_eq_None_iff)

text \<open>Messages \<open>a\<close> and \<open>b\<close>, one after the other, printed as their identifiers.\<close>

definition memo :: "uuid \<Rightarrow> timestamp \<Rightarrow> message_record" where
  "memo i t = message_record_new i t ''s'' RoleUser []"

definition memo_codecs :: "message_record list \<Rightarrow> redis_codecs" where
  "memo_codecs ms =
     \<lparr>rk_parse_uuid = Inr, rk_show_time = (\<lambda>_. []), rk_parse_time = (\<lambda>_. Inl ''unknown''),
      rk_value = \<lparr>tc_print = (\<lambda>_. Inl ''unknown''), tc_parse = (\<lambda>_. Inl ''unknown'')\<rparr>,
      rk_message = \<lparr>tc_print = (\<lambda>m. if find (\<lambda>x. mr_id x = mr_id m) ms = Some m then Inr (mr_id m) else Inl ''unknown''),
        tc_parse = (\<lambda>s. case find (\<lambda>m. mr_id m = s) ms of Some m \<Rightarrow> Inr m | None \<Rightarrow> Inl ''unknown'')\<rparr>,
      rk_millis = int, rk_show_score = (\<lambda>_. [])\<rparr>"

definition one_session :: mem_server where
  "one_session = \<lparr>ms_hashes = [(session_key ''s'', [(''id'', ''s'')])], ms_sets = []\<rparr>"

theorem redis_messages_roundtrip_witness:
  "let ms = [(0, memo ''b'' 1), (0, memo ''a'' 2)]; rk = memo_codecs (map snd ms)
   in fst (redis_list_messages mem_redis rk ''s'' (snd (redis_append_all mem_redis rk ms one_session))) =
     Inr [memo ''b'' 1, memo ''a'' 2]"
proof -
  let ?ms = "[(0 :: nat, memo ''b'' 1), (0, memo ''a'' 2)]"
  let ?rk = "memo_codecs (map snd ?ms)"
  let ?r1 = "snd (redis_append_all mem_redis ?rk ?ms one_session)"
  have a: "redis_append_all mem_redis ?rk ?ms one_session = (Inr (), ?r1)" by code_simp
  have "\<exists>out. fst (redis_list_messages mem_redis ?rk ''s'' ?r1) = Inr out" by (rule exI) code_simp
  then obtain out r2 where l: "redis_list_messages mem_redis ?rk ''s'' ?r1 = (Inr out, r2)"
    by (metis prod.collapse)
  have c: "lossless_text (rk_message ?rk)"
    by (auto simp: lossless_text_def memo_codecs_def split: if_splits)
  have "out = map snd ?ms"
    by (rule redis_messages_roundtrip [OF mem_redis_laws [unfolded mem_view_def] c a l])
      (simp_all add: one_session_def entry_def memo_def record_builders memo_codecs_def fun_eq_iff)
  then show ?thesis using l by (simp add: Let_def)
qed

text \<open>Two messages of one millisecond come back in the order of their text.\<close>

lemma same_millisecond_reorders:
  "let ms = [(0, memo ''b'' 1), (0, memo ''a'' 1)]; rk = memo_codecs (map snd ms)
   in fst (redis_list_messages mem_redis rk ''s'' (snd (redis_append_all mem_redis rk ms one_session))) =
     Inr [memo ''a'' 1, memo ''b'' 1]"
  by code_simp

text \<open>The usage of a message is updated by removing it and adding it again: when the second command fails
  the message is lost.\<close>

lemma failed_usage_update_loses_message:
  "let ms = [(0, memo ''a'' 1)]; rk = memo_codecs (map snd ms);
       r = snd (redis_append_all mem_redis rk ms one_session)
   in (case redis_update_usage (mem_redis\<lparr>rd_zadd := \<lambda>_ _ _ r. (Inl ''connection lost'', r)\<rparr>) rk ''a'' (usage_new 1 1) r of
        (res, r') \<Rightarrow> res \<noteq> Inr () \<and> fst (redis_list_messages mem_redis rk ''s'' r') = Inr [])"
  by code_simp

text \<open>Deleting a session leaves the index of its messages.\<close>

lemma deleted_session_keeps_index:
  "let ms = [(0, memo ''a'' 1)]; rk = memo_codecs (map snd ms);
       r = snd (redis_append_all mem_redis rk ms one_session)
   in map fst (ms_hashes (snd (redis_delete_session mem_redis ''s'' r))) = [message_index_key ''a'']"
  by code_simp

end
