(* ===== verification/Durable_Events.thy ===== *)
theory Durable_Events
  imports Event_Store Sql_Sessions
begin

text \<open>
  The durable event logs: on PostgreSQL (\<open>behest-runtime/src/event_store/postgres.rs\<close>), whose tables are
  changed as the statements of the source say, and on Redis Streams (\<open>event_store/redis.rs\<close>). Any command
  may fail, as a list of faults says, and then has no effect. The JSON of events and envelopes is a
  parameter, and so are the clock of the Redis server and how far its approximate trimming goes.
\<close>

section \<open>PostgreSQL\<close>

record event_row =
  rv_run_id :: run_id
  rv_seq :: int
  rv_event_id :: uuid
  rv_session_id :: "uuid option"
  rv_event :: json
  rv_emitted_at :: timestamp

record event_tables =
  pe_events :: "event_row list"
  pe_sessions :: "run_id \<rightharpoonup> uuid"

record event_json =
  ej_to_value :: "agent_event \<Rightarrow> string + json"
  ej_from_value :: "json \<Rightarrow> string + agent_event"

definition append_failed :: "string \<Rightarrow> string \<Rightarrow> event_store_error" where
  "append_failed msg e = AppendFailed (msg @ '': '' @ e)"

definition out_of_range :: string where
  "out_of_range = ''out of range integral type conversion attempted''"

definition upsert_session :: "run_id \<Rightarrow> uuid \<Rightarrow> (event_tables, unit) sql_statement" where
  "upsert_session r sid t = Inr ((), t\<lparr>pe_sessions := (pe_sessions t)(r \<mapsto> sid)\<rparr>)"

definition select_run_session :: "run_id \<Rightarrow> (event_tables, uuid option) sql_statement" where
  "select_run_session r t = Inr (pe_sessions t r, t)"

text \<open>\<open>COALESCE((SELECT MAX(seq) \<dots>), 0) + 1\<close>, a \<open>BIGINT\<close>.\<close>

definition next_seq :: "run_id \<Rightarrow> event_row list \<Rightarrow> int" where
  "next_seq r rows =
     (case map rv_seq (filter (\<lambda>w. rv_run_id w = r) rows) of [] \<Rightarrow> 0 | x # xs \<Rightarrow> fold max xs x) + 1"

definition insert_event ::
  "run_id \<Rightarrow> uuid \<Rightarrow> uuid option \<Rightarrow> json \<Rightarrow> timestamp \<Rightarrow> (event_tables, int) sql_statement" where
  "insert_event r i sid j now t =
     (let n = next_seq r (pe_events t) in
      if 2 ^ 63 \<le> n then Inl ''bigint out of range''
      else Inr (n, t\<lparr>pe_events := pe_events t @
        [\<lparr>rv_run_id = r, rv_seq = n, rv_event_id = i, rv_session_id = sid, rv_event = j, rv_emitted_at = now\<rparr>]\<rparr>))"

definition seq_of_column :: "int \<Rightarrow> event_store_error + u64" where
  "seq_of_column n = (if n < 0 then Inl (append_failed ''seq out of range'' out_of_range) else Inr (of_int n))"

definition bigint_of :: "string \<Rightarrow> nat \<Rightarrow> event_store_error + int" where
  "bigint_of name n =
     (if n < 2 ^ 63 then Inr (int n) else Inl (append_failed (name @ '' out of range'') out_of_range))"

definition pg_run_session ::
  "agent_event \<Rightarrow> event_tables sql_db \<Rightarrow> (event_store_error + uuid option) \<times> event_tables sql_db" where
  "pg_run_session ev =
     (case ev of
        EvRunStarted _ sid _ _ _ \<Rightarrow>
          try_then (try_err (append_failed ''failed to upsert session'') (execute (upsert_session (event_run_id ev) sid)))
            (\<lambda>_. Pair (Inr (Some sid)))
      | _ \<Rightarrow> try_err (append_failed ''failed to read session'') (execute (select_run_session (event_run_id ev))))"

definition pg_event_append ::
  "event_json \<Rightarrow> uuid \<Rightarrow> timestamp \<Rightarrow> agent_event \<Rightarrow> event_tables sql_db \<Rightarrow>
    (event_store_error + event_envelope) \<times> event_tables sql_db" where
  "pg_event_append ej fresh now ev =
     try_then (pg_run_session ev) (\<lambda>sid.
     try_then (Pair (map_sum (append_failed ''failed to serialize event'') id (ej_to_value ej ev))) (\<lambda>j.
     try_then (try_err (append_failed ''INSERT failed'') (execute (insert_event (event_run_id ev) fresh sid j now)))
       (\<lambda>n. try_then (Pair (seq_of_column n)) (\<lambda>k. Pair (Inr
         \<lparr>ee_event_id = fresh, ee_seq = k, ee_run_id = event_run_id ev, ee_session_id = sid,
          ee_event = ev, ee_emitted_at = now\<rparr>)))))"

definition envelope_of_row :: "event_json \<Rightarrow> event_row \<Rightarrow> event_store_error + event_envelope" where
  "envelope_of_row ej w =
     (case ej_from_value ej (rv_event w) of
        Inl e \<Rightarrow> Inl (append_failed ''failed to deserialize event'' e)
      | Inr ev \<Rightarrow>
     (case seq_of_column (rv_seq w) of
        Inl x \<Rightarrow> Inl x
      | Inr k \<Rightarrow> Inr \<lparr>ee_event_id = rv_event_id w, ee_seq = k, ee_run_id = rv_run_id w,
          ee_session_id = rv_session_id w, ee_event = ev, ee_emitted_at = rv_emitted_at w\<rparr>))"

definition select_events ::
  "run_id \<Rightarrow> int option \<Rightarrow> int \<Rightarrow> (event_tables, event_row list) sql_statement" where
  "select_events r after limit t =
     Inr (take (nat limit) (sort_key rv_seq (filter
       (\<lambda>w. rv_run_id w = r \<and> (case after of None \<Rightarrow> True | Some k \<Rightarrow> k < rv_seq w)) (pe_events t))), t)"

definition pg_event_list_after ::
  "event_json \<Rightarrow> run_id \<Rightarrow> u64 option \<Rightarrow> nat \<Rightarrow> event_tables sql_db \<Rightarrow>
    (event_store_error + event_envelope list) \<times> event_tables sql_db" where
  "pg_event_list_after ej r after limit =
     try_then (Pair (case after of None \<Rightarrow> Inr None | Some k \<Rightarrow> map_sum id Some (bigint_of ''after_seq'' (unat k))))
       (\<lambda>a. try_then (Pair (bigint_of ''limit'' limit)) (\<lambda>l.
       try_then (try_err (append_failed ''SELECT failed'') (execute (select_events r a l)))
         (\<lambda>rows. Pair (collect_results (envelope_of_row ej) rows))))"

fun pg_append_events ::
  "event_json \<Rightarrow> (uuid \<times> timestamp \<times> agent_event) list \<Rightarrow> event_tables sql_db \<Rightarrow> event_tables sql_db" where
  "pg_append_events ej [] db = db"
| "pg_append_events ej ((i, t, ev) # evs) db = pg_append_events ej evs (snd (pg_event_append ej i t ev db))"

definition empty_event_db :: "event_tables sql_db" where
  "empty_event_db = \<lparr>sd_tables = \<lparr>pe_events = [], pe_sessions = Map.empty\<rparr>, sd_faults = []\<rparr>"

section \<open>PostgreSQL answers as the in-memory store\<close>

definition faithful_json :: "event_json \<Rightarrow> agent_event \<Rightarrow> bool" where
  "faithful_json ej ev \<longleftrightarrow> (\<exists>j. ej_to_value ej ev = Inr j \<and> ej_from_value ej j = Inr ev)"

definition rows_of :: "run_id \<Rightarrow> event_tables \<Rightarrow> event_row list" where
  "rows_of r t = filter (\<lambda>w. rv_run_id w = r) (pe_events t)"

text \<open>What PostgreSQL holds is the state of the in-memory store.\<close>

definition pg_holds :: "event_json \<Rightarrow> event_tables \<Rightarrow> memory_store \<Rightarrow> bool" where
  "pg_holds ej t s \<longleftrightarrow>
     (\<forall>r. map (envelope_of_row ej) (rows_of r t) = map Inr (store_log s r) \<and>
       map rv_seq (rows_of r t) = map (\<lambda>i. int (Suc i)) [0..<length (store_log s r)] \<and>
       ms_sessions s r = map_option Some (pe_sessions t r))"

lemma fold_max_upt: "fold max (map (\<lambda>i. int (Suc i)) [k..<n]) (int k) = int (max k n)"
proof (induction "n - k" arbitrary: k)
  case (Suc m)
  then have "[k..<n] = k # [Suc k..<n]" by (simp add: upt_conv_Cons)
  with Suc(1) [of "Suc k"] Suc(2) show ?case by (simp add: max_def)
qed simp

lemma next_seq_holds:
  assumes "pg_holds ej t s"
  shows "next_seq r (pe_events t) = int (Suc (length (store_log s r)))"
proof -
  let ?n = "length (store_log s r)"
  have m: "map rv_seq (filter (\<lambda>w. rv_run_id w = r) (pe_events t)) = map (\<lambda>i. int (Suc i)) [0..<?n]"
    using assms by (simp add: pg_holds_def rows_of_def)
  show ?thesis
  proof (cases ?n)
    case 0
    then show ?thesis using m by (simp add: next_seq_def)
  next
    case (Suc k)
    then have "[0..<?n] = 0 # [1..<?n]" by (simp add: upt_conv_Cons)
    then show ?thesis using m fold_max_upt [of 1 ?n] Suc by (simp add: next_seq_def)
  qed
qed

definition started_session :: "agent_event \<Rightarrow> uuid option" where
  "started_session ev = (case ev of EvRunStarted _ sid _ _ _ \<Rightarrow> Some sid | _ \<Rightarrow> None)"

lemma store_append_started:
  "store_append fresh now s ev =
     (let r = event_run_id ev;
          sid = (case started_session ev of Some i \<Rightarrow> Some i | None \<Rightarrow> or_default None (ms_sessions s r));
          k = or_default 0 (ms_seq s r) + 1;
          env = \<lparr>ee_event_id = fresh, ee_seq = k, ee_run_id = r, ee_session_id = sid, ee_event = ev, ee_emitted_at = now\<rparr>
      in (Inr env, s\<lparr>ms_sessions := (case started_session ev of Some i \<Rightarrow> (ms_sessions s)(r \<mapsto> Some i) | None \<Rightarrow> ms_sessions s),
            ms_seq := (ms_seq s)(r \<mapsto> k), ms_events := (ms_events s)(r \<mapsto> store_log s r @ [env])\<rparr>))"
  by (cases ev) (simp_all add: store_append_def started_session_def store_log_def Let_def)

lemma pg_run_session_started:
  "sd_faults db = [] \<Longrightarrow> pg_run_session ev db =
     (let r = event_run_id ev; t = sd_tables db in
      case started_session ev of
        Some i \<Rightarrow> (Inr (Some i), db\<lparr>sd_tables := t\<lparr>pe_sessions := (pe_sessions t)(r \<mapsto> i)\<rparr>\<rparr>)
      | None \<Rightarrow> (Inr (pe_sessions t r), db))"
  by (cases ev) (simp_all add: pg_run_session_def started_session_def try_then_def try_err_def execute_def
      upsert_session_def select_run_session_def Let_def)

lemma pg_event_append_holds:
  assumes h: "pg_holds ej (sd_tables db) s" and f: "sd_faults db = []" and ej: "faithful_json ej ev"
    and inv: "store_invar s" and bound: "Suc (length (store_log s (event_run_id ev))) < 2 ^ 63"
  shows "fst (pg_event_append ej i now ev db) = fst (store_append i now s ev) \<and>
    pg_holds ej (sd_tables (snd (pg_event_append ej i now ev db))) (snd (store_append i now s ev)) \<and>
    sd_faults (snd (pg_event_append ej i now ev db)) = []"
proof -
  let ?r = "event_run_id ev" and ?t = "sd_tables db"
  let ?n = "length (store_log s ?r)"
  obtain j where j: "ej_to_value ej ev = Inr j" "ej_from_value ej j = Inr ev"
    using ej unfolding faithful_json_def by blast
  define sid where "sid = (case started_session ev of Some i \<Rightarrow> Some i | None \<Rightarrow> pe_sessions ?t ?r)"
  define ss where "ss = (case started_session ev of Some i \<Rightarrow> (pe_sessions ?t)(?r \<mapsto> i) | None \<Rightarrow> pe_sessions ?t)"
  define row where "row = \<lparr>rv_run_id = ?r, rv_seq = int (Suc ?n), rv_event_id = i, rv_session_id = sid,
      rv_event = j, rv_emitted_at = now\<rparr>"
  define env where "env = \<lparr>ee_event_id = i, ee_seq = of_nat (Suc ?n), ee_run_id = ?r, ee_session_id = sid,
      ee_event = ev, ee_emitted_at = now\<rparr>"
  have ses: "ms_sessions s q = map_option Some (pe_sessions ?t q)" for q
    using h by (simp add: pg_holds_def)
  have next': "next_seq ?r (pe_events ?t) = int (Suc ?n)" by (rule next_seq_holds [OF h])
  have pg: "pg_event_append ej i now ev db =
      (Inr env, db\<lparr>sd_tables := ?t\<lparr>pe_sessions := ss, pe_events := pe_events ?t @ [row]\<rparr>\<rparr>)"
    using f j bound
    by (cases "started_session ev") (simp_all add: pg_event_append_def pg_run_session_started try_then_def try_err_def execute_def insert_event_def
        Let_def next' seq_of_column_def sid_def ss_def row_def env_def)
  have seq: "or_default 0 (ms_seq s ?r) = of_nat ?n" using inv by (simp add: store_invar_def)
  have old: "or_default None (ms_sessions s ?r) = pe_sessions ?t ?r"
    by (simp add: ses or_default_def split: option.split)
  have mem: "store_append i now s ev = (Inr env, s\<lparr>ms_sessions := (case started_session ev of Some i \<Rightarrow> (ms_sessions s)(?r \<mapsto> Some i) | None \<Rightarrow> ms_sessions s),
      ms_seq := (ms_seq s)(?r \<mapsto> of_nat (Suc ?n)), ms_events := (ms_events s)(?r \<mapsto> store_log s ?r @ [env])\<rparr>)"
    by (simp add: store_append_started Let_def seq old env_def sid_def add.commute split: option.split)
  have row': "envelope_of_row ej row = Inr env"
    using j by (simp add: envelope_of_row_def row_def env_def seq_of_column_def)
  have "pg_holds ej (?t\<lparr>pe_sessions := ss, pe_events := pe_events ?t @ [row]\<rparr>) (snd (store_append i now s ev))"
    using h row' by (auto simp: pg_holds_def mem rows_of_def store_log_def or_default_def ss_def row_def split: option.split)
  then show ?thesis using f by (simp add: pg mem)
qed

lemma pg_append_events_holds:
  "(\<forall>p\<in>set evs. faithful_json ej (snd (snd p))) \<Longrightarrow> pg_holds ej (sd_tables db) s \<Longrightarrow> sd_faults db = [] \<Longrightarrow> store_invar s \<Longrightarrow>
    (\<forall>r. length (store_log s r) + length evs < 2 ^ 63) \<Longrightarrow>
    pg_holds ej (sd_tables (pg_append_events ej evs db)) (Event_Store.append_all s evs) \<and>
    sd_faults (pg_append_events ej evs db) = []"
proof (induction evs arbitrary: db s)
  case (Cons p evs)
  obtain i t ev where p: "p = (i, t, ev)" by (cases p)
  have j: "faithful_json ej ev" using Cons.prems(1) by (simp add: p)
  have b: "Suc (length (store_log s (event_run_id ev))) < 2 ^ 63"
    using Cons.prems(5) by (metis add_Suc_right le_add1 le_less_trans length_Cons add_Suc)
  note step = pg_event_append_holds [OF Cons.prems(2,3) j Cons.prems(4) b, of i t]
  have "\<forall>r. length (store_log (snd (store_append i t s ev)) r) + length evs < 2 ^ 63"
  proof
    fix r
    show "length (store_log (snd (store_append i t s ev)) r) + length evs < 2 ^ 63"
      using Cons.prems(5) [rule_format, of r] by (auto simp: store_append_log p)
  qed
  moreover have "store_invar (snd (store_append i t s ev))"
    using Cons.prems(4) b by (intro store_invar_append) simp_all
  ultimately show ?case
    using Cons.IH [of "snd (pg_event_append ej i t ev db)" "snd (store_append i t s ev)"] step Cons.prems(1) by (simp add: p)
qed simp

lemma filter_map_aligned:
  "map f xs = map g ys \<Longrightarrow> (\<And>m. m < length ys \<Longrightarrow> P (xs ! m) = Q (ys ! m)) \<Longrightarrow>
    map f (filter P xs) = map g (filter Q ys)"
proof (induction xs arbitrary: ys)
  case (Cons x xs)
  then obtain y ys' where ys: "ys = y # ys'" by (cases ys) auto
  have "map f (filter P xs) = map g (filter Q ys')"
    using Cons.prems(1) Cons.prems(2) [of "Suc m" for m] by (intro Cons.IH) (auto simp: ys)
  with Cons.prems(1) Cons.prems(2) [of 0] show ?case by (simp add: ys)
qed simp

lemma collect_results_Inr: "map f xs = map Inr ys \<Longrightarrow> collect_results f xs = Inr ys"
  by (induction xs arbitrary: ys) auto

lemma pg_list_after_holds:
  assumes h: "pg_holds ej (sd_tables db) s" and f: "sd_faults db = []" and inv: "store_invar s"
    and b: "length (store_log s r) < 2 ^ 63" "limit < 2 ^ 63" and a: "case after of None \<Rightarrow> True | Some k \<Rightarrow> unat k < 2 ^ 63"
  shows "fst (pg_event_list_after ej r after limit db) = store_list_after s r after limit"
proof -
  let ?w = "rows_of r (sd_tables db)" and ?n = "length (store_log s r)"
  define after' where "after' = map_option (\<lambda>k. int (unat k)) after"
  let ?P = "\<lambda>w. case after' of None \<Rightarrow> True | Some k \<Rightarrow> k < rv_seq w"
  have seqs: "map rv_seq ?w = map (\<lambda>i. int (Suc i)) [0..<?n]"
    and envs: "map (envelope_of_row ej) ?w = map Inr (store_log s r)"
    using h by (simp_all add: pg_holds_def)
  have len: "length ?w = ?n" using envs by (metis length_map)
  have "sorted (map rv_seq ?w)" unfolding seqs by (simp add: sorted_iff_nth_mono)
  then have srt: "sort_key rv_seq (filter ?P ?w) = filter ?P ?w"
    by (intro sort_key_id_if_sorted sorted_filter)
  have sel: "filter (\<lambda>w. rv_run_id w = r \<and> ?P w) (pe_events (sd_tables db)) = filter ?P ?w"
    by (simp add: rows_of_def conj_commute flip: filter_filter)
  have same: "?P (?w ! m) \<longleftrightarrow> after_filter after (store_log s r ! m)" if m: "m < ?n" for m
  proof -
    have "rv_seq (?w ! m) = int (Suc m)"
      using arg_cong [OF seqs, of "\<lambda>l. l ! m"] m len by simp
    moreover have "ee_seq (store_log s r ! m) = of_nat (Suc m)"
      using inv m unfolding store_invar_def by (metis (no_types, lifting) add_0 diff_zero length_map length_upt nth_map nth_upt)
    moreover have "unat (of_nat (Suc m) :: u64) = Suc m" using m b(1) by (simp add: unat_of_nat del: of_nat_Suc)
    moreover have "uint k < int (Suc m) \<longleftrightarrow> unat k < Suc m" for k :: u64
      by (metis of_nat_less_iff of_nat_unat)
    ultimately show ?thesis
      by (auto simp: after'_def after_filter_def word_less_nat_alt simp del: of_nat_Suc split: option.split)
  qed
  have "map (envelope_of_row ej) (filter ?P ?w) = map Inr (filter (after_filter after) (store_log s r))"
    using envs same by (intro filter_map_aligned) (auto simp: len)
  then have "map (envelope_of_row ej) (take limit (filter ?P ?w)) =
      map Inr (take limit (filter (after_filter after) (store_log s r)))"
    by (simp flip: take_map)
  then have "collect_results (envelope_of_row ej) (take limit (filter ?P ?w)) =
      Inr (take limit (filter (after_filter after) (store_log s r)))" by (rule collect_results_Inr)
  also have "\<dots> = store_list_after s r after limit"
    by (simp add: store_list_after_def store_log_def or_default_def split: option.split)
  finally have page: "collect_results (envelope_of_row ej) (take limit (filter ?P ?w)) = store_list_after s r after limit" .
  have "pg_event_list_after ej r after limit db = (collect_results (envelope_of_row ej)
      (take limit (sort_key rv_seq (filter (\<lambda>w. rv_run_id w = r \<and> ?P w) (pe_events (sd_tables db))))), db)"
    using a b f by (cases after) (simp_all add: pg_event_list_after_def bigint_of_def select_events_def execute_def
        try_then_def try_err_def after'_def)
  then show ?thesis by (simp only: sel srt page fst_conv)
qed


text \<open>An append that fails stores no event.\<close>

lemma execute_cases:
  "execute st db = (Inl e, db') \<Longrightarrow> sd_tables db' = sd_tables db"
  "execute st db = (Inr a, db') \<Longrightarrow> st (sd_tables db) = Inr (a, sd_tables db')"
  by (auto simp: execute_def Let_def split: list.splits option.splits sum.splits prod.splits)

lemma pg_run_session_events:
  "pe_events (sd_tables (snd (pg_run_session ev db))) = pe_events (sd_tables db)"
proof -
  have u: "pe_events (sd_tables (snd (execute (upsert_session r i) db))) = pe_events (sd_tables db)"
    and q: "pe_events (sd_tables (snd (execute (select_run_session r) db))) = pe_events (sd_tables db)" for r i
    by (auto simp: execute_def upsert_session_def select_run_session_def Let_def split: list.split option.split)
  show ?thesis
    using u q by (cases ev) (auto simp: pg_run_session_def try_then_def try_err_def split: prod.split sum.split; metis snd_conv)+
qed

lemma next_seq_positive:
  assumes "\<forall>w\<in>set rows. 0 \<le> rv_seq w"
  shows "0 < next_seq r rows"
proof -
  let ?seqs = "map rv_seq (filter (\<lambda>w. rv_run_id w = r) rows)"
  have m: "\<forall>x\<in>set xs. (0 :: int) \<le> x \<Longrightarrow> 0 \<le> y \<Longrightarrow> 0 \<le> fold max xs y" for xs y
    by (induction xs arbitrary: y) auto
  have "\<forall>x\<in>set ?seqs. 0 \<le> x" using assms by simp
  then have "0 \<le> (case ?seqs of [] \<Rightarrow> 0 | x # xs \<Rightarrow> fold max xs x)" by (cases ?seqs) (simp_all add: m)
  then show ?thesis by (simp add: next_seq_def)
qed

lemma pg_failed_append:
  assumes "pg_event_append ej fresh now ev db = (Inl x, db')"
    and "\<forall>w\<in>set (pe_events (sd_tables db)). 0 \<le> rv_seq w"
  shows "pe_events (sd_tables db') = pe_events (sd_tables db)"
proof -
  obtain res db1 where 1: "pg_run_session ev db = (res, db1)" by fastforce
  then have e1: "pe_events (sd_tables db1) = pe_events (sd_tables db)"
    using pg_run_session_events [of ev db] by simp
  show ?thesis
  proof (cases "\<exists>sid j. res = Inr sid \<and> ej_to_value ej ev = Inr j")
    case False
    then show ?thesis using assms(1) 1 e1
      by (cases res; cases "ej_to_value ej ev") (auto simp: pg_event_append_def try_then_def)
  next
    case True
    then obtain sid j where sj: "res = Inr sid" "ej_to_value ej ev = Inr j" by blast
    obtain res2 db2 where 2: "execute (insert_event (event_run_id ev) fresh sid j now) db1 = (res2, db2)" by fastforce
    show ?thesis
    proof (cases res2)
      case (Inl e)
      then show ?thesis using assms(1) 1 2 sj e1 execute_cases(1) [OF 2 [unfolded Inl]]
        by (auto simp: pg_event_append_def try_then_def try_err_def)
    next
      case (Inr n)
      then have "n = next_seq (event_run_id ev) (pe_events (sd_tables db1))"
        using execute_cases(2) [OF 2 [unfolded Inr]] by (auto simp: insert_event_def Let_def split: if_splits)
      then have "0 < n" using next_seq_positive assms(2) e1 by simp
      then show ?thesis using assms(1) 1 2 sj Inr
        by (simp add: pg_event_append_def try_then_def try_err_def seq_of_column_def)
    qed
  qed
qed

definition cancel_json :: event_json where
  "cancel_json =
     \<lparr>ej_to_value = (\<lambda>ev. if ev = EvRunCancelled ''a'' 1 then Inr (JString ''cancelled'') else Inl ''unknown''),
      ej_from_value = (\<lambda>j. if j = JString ''cancelled'' then Inr (EvRunCancelled ''a'' 1) else Inl ''unknown'')\<rparr>"


section \<open>Redis Streams\<close>

type_synonym stream_entry = "(nat \<times> nat) \<times> (string \<times> string) list"

record redis_log =
  xl_strings :: "string \<Rightarrow> string option"
  xl_counters :: "string \<Rightarrow> nat"
  xl_streams :: "string \<Rightarrow> stream_entry list"

type_synonym 'a redis_command = "redis_log \<Rightarrow> string + 'a \<times> redis_log"

record redis_events =
  re_envelope :: "event_envelope text_codec"
  re_parse_uuid :: "string \<Rightarrow> uuid option"
  re_trim :: "nat \<Rightarrow> stream_entry list \<Rightarrow> stream_entry list"

definition stream_maxlen :: nat where "stream_maxlen = 10000"

definition run_stream_key :: "run_id \<Rightarrow> string" where "run_stream_key r = ''run:'' @ r"
definition run_seq_key :: "run_id \<Rightarrow> string" where "run_seq_key r = ''run:'' @ r @ '':seq''"
definition run_session_key :: "run_id \<Rightarrow> string" where "run_session_key r = ''run:'' @ r @ '':session''"

definition redis_set :: "string \<Rightarrow> string \<Rightarrow> unit redis_command" where
  "redis_set k v t = Inr ((), t\<lparr>xl_strings := (xl_strings t)(k \<mapsto> v)\<rparr>)"

definition redis_get :: "string \<Rightarrow> string option redis_command" where
  "redis_get k t = Inr (xl_strings t k, t)"

definition redis_incr :: "string \<Rightarrow> u64 redis_command" where
  "redis_incr k t =
     (let n = Suc (xl_counters t k) in
      if 2 ^ 63 \<le> n then Inl ''increment or decrement would overflow''
      else Inr (of_nat n, t\<lparr>xl_counters := (xl_counters t)(k := n)\<rparr>))"

text \<open>\<open>XADD\<close> with \<open>*\<close>: the identifier is the time of the server, or the successor of the last one.\<close>

definition next_entry_id :: "nat \<Rightarrow> stream_entry list \<Rightarrow> nat \<times> nat" where
  "next_entry_id clock es =
     (if es = [] then (clock, 0)
      else case fst (last es) of (ms, n) \<Rightarrow> if ms < clock then (clock, 0) else (ms, Suc n))"

definition redis_xadd ::
  "(nat \<Rightarrow> stream_entry list \<Rightarrow> stream_entry list) \<Rightarrow> string \<Rightarrow> nat \<Rightarrow> nat \<Rightarrow> (string \<times> string) list \<Rightarrow> (nat \<times> nat) redis_command" where
  "redis_xadd trim k n clock fs t =
     (let es = xl_streams t k; i = next_entry_id clock es
      in Inr (i, t\<lparr>xl_streams := (xl_streams t)(k := trim n (es @ [(i, fs)]))\<rparr>))"

text \<open>A start without a second part, such as \<open>5\<close>, is the identifier \<open>5-0\<close>.\<close>

definition redis_xrange :: "string \<Rightarrow> nat \<times> nat \<Rightarrow> nat \<Rightarrow> stream_entry list redis_command" where
  "redis_xrange k start limit t =
     Inr (take limit (filter (\<lambda>e. fst start < fst (fst e) \<or> fst start = fst (fst e) \<and> snd start \<le> snd (fst e))
       (xl_streams t k)), t)"

definition redis_run_session ::
  "redis_events \<Rightarrow> agent_event \<Rightarrow> redis_log sql_db \<Rightarrow> (event_store_error + uuid option) \<times> redis_log sql_db" where
  "redis_run_session re ev =
     (case ev of
        EvRunStarted _ sid _ _ _ \<Rightarrow>
          try_then (try_err (append_failed ''failed to cache session'') (execute (redis_set (run_session_key (event_run_id ev)) sid)))
            (\<lambda>_. Pair (Inr (Some sid)))
      | _ \<Rightarrow>
          try_then (try_err (append_failed ''failed to read session'') (execute (redis_get (run_session_key (event_run_id ev)))))
            (\<lambda>raw. Pair (Inr (Option.bind raw (re_parse_uuid re)))))"

definition redis_event_append ::
  "redis_events \<Rightarrow> uuid \<Rightarrow> timestamp \<Rightarrow> nat \<Rightarrow> agent_event \<Rightarrow> redis_log sql_db \<Rightarrow>
    (event_store_error + event_envelope) \<times> redis_log sql_db" where
  "redis_event_append re fresh now clock ev =
     try_then (redis_run_session re ev) (\<lambda>sid.
     try_then (try_err (append_failed ''failed to increment seq'') (execute (redis_incr (run_seq_key (event_run_id ev)))))
       (\<lambda>k. let env = \<lparr>ee_event_id = fresh, ee_seq = k, ee_run_id = event_run_id ev, ee_session_id = sid,
              ee_event = ev, ee_emitted_at = now\<rparr> in
     try_then (Pair (map_sum (append_failed ''failed to serialize envelope'') id (tc_print (re_envelope re) env))) (\<lambda>payload.
     try_then (try_err (append_failed ''XADD failed'')
       (execute (redis_xadd (re_trim re) (run_stream_key (event_run_id ev)) stream_maxlen clock [(''data'', payload)])))
       (\<lambda>_. Pair (Inr env)))))"

text \<open>Entries without the field or that do not parse are passed over.\<close>

definition decode_entry :: "redis_events \<Rightarrow> stream_entry \<Rightarrow> event_envelope option" where
  "decode_entry re e =
     (case map_of (snd e) ''data'' of
        None \<Rightarrow> None
      | Some d \<Rightarrow> (case tc_parse (re_envelope re) d of Inl _ \<Rightarrow> None | Inr env \<Rightarrow> Some env))"

definition replay_start :: "u64 option \<Rightarrow> nat \<times> nat" where
  "replay_start after = (case after of None \<Rightarrow> (0, 0) | Some k \<Rightarrow> (unat k, 0))"

definition redis_event_list_after ::
  "redis_events \<Rightarrow> run_id \<Rightarrow> u64 option \<Rightarrow> nat \<Rightarrow> redis_log sql_db \<Rightarrow>
    (event_store_error + event_envelope list) \<times> redis_log sql_db" where
  "redis_event_list_after re r after limit =
     try_then (try_err (append_failed ''XRANGE failed'') (execute (redis_xrange (run_stream_key r) (replay_start after) limit)))
       (\<lambda>es. Pair (Inr (filter (after_filter after) (List.map_filter (decode_entry re) es))))"

fun redis_append_events ::
  "redis_events \<Rightarrow> (nat \<times> uuid \<times> timestamp \<times> agent_event) list \<Rightarrow> redis_log sql_db \<Rightarrow> redis_log sql_db" where
  "redis_append_events re [] db = db"
| "redis_append_events re ((c, i, t, ev) # evs) db =
     redis_append_events re evs (snd (redis_event_append re i t c ev db))"

definition empty_redis_log :: "redis_log sql_db" where
  "empty_redis_log = \<lparr>sd_tables = \<lparr>xl_strings = (\<lambda>_. None), xl_counters = (\<lambda>_. 0), xl_streams = (\<lambda>_. [])\<rparr>, sd_faults = []\<rparr>"

section \<open>What Redis replays\<close>

definition faithful_text :: "'a text_codec \<Rightarrow> 'a \<Rightarrow> bool" where
  "faithful_text c v \<longleftrightarrow> (\<exists>s. tc_print c v = Inr s \<and> tc_parse c s = Inr v)"

text \<open>Approximate trimming removes the oldest entries, and none while there are at most as many as asked for.\<close>

definition trims :: "(nat \<Rightarrow> stream_entry list \<Rightarrow> stream_entry list) \<Rightarrow> bool" where
  "trims trim \<longleftrightarrow> (\<forall>n es. \<exists>k. trim n es = drop k es \<and> (k = 0 \<or> n + k \<le> length es))"

definition redis_holds :: "redis_events \<Rightarrow> nat \<Rightarrow> redis_log \<Rightarrow> memory_store \<Rightarrow> bool" where
  "redis_holds re lo t s \<longleftrightarrow>
     (\<forall>r. map (decode_entry re) (xl_streams t (run_stream_key r)) = map Some (store_log s r) \<and>
       (\<forall>e\<in>set (xl_streams t (run_stream_key r)). lo \<le> fst (fst e)) \<and>
       xl_counters t (run_seq_key r) = length (store_log s r) \<and>
       or_default None (ms_sessions s r) = Option.bind (xl_strings t (run_session_key r)) (re_parse_uuid re))"

lemma run_keys_inject [simp]:
  "run_stream_key r = run_stream_key q \<longleftrightarrow> r = q"
  "run_seq_key r = run_seq_key q \<longleftrightarrow> r = q"
  "run_session_key r = run_session_key q \<longleftrightarrow> r = q"
  by (simp_all add: run_stream_key_def run_seq_key_def run_session_key_def)

lemma next_entry_id_late:
  "\<forall>e\<in>set es. lo \<le> fst (fst e) \<Longrightarrow> lo \<le> clock \<Longrightarrow> lo \<le> fst (next_entry_id clock es)"
  using last_in_set [of es] by (fastforce simp: next_entry_id_def split: prod.split)

lemma redis_run_session_started:
  "sd_faults db = [] \<Longrightarrow> redis_run_session re ev db =
     (let k = run_session_key (event_run_id ev); t = sd_tables db in
      case started_session ev of
        Some i \<Rightarrow> (Inr (Some i), db\<lparr>sd_tables := t\<lparr>xl_strings := (xl_strings t)(k \<mapsto> i)\<rparr>\<rparr>)
      | None \<Rightarrow> (Inr (Option.bind (xl_strings t k) (re_parse_uuid re)), db))"
  by (cases ev) (simp_all add: redis_run_session_def started_session_def try_then_def try_err_def execute_def
      redis_set_def redis_get_def Let_def)

lemma redis_event_append_holds:
  assumes h: "redis_holds re lo (sd_tables db) s" and f: "sd_faults db = []" and inv: "store_invar s"
    and tr: "trims (re_trim re)" and lo: "lo \<le> clock"
    and env: "\<And>env. fst (store_append i now s ev) = Inr env \<Longrightarrow> faithful_text (re_envelope re) env"
    and sid: "\<And>i. started_session ev = Some i \<Longrightarrow> re_parse_uuid re i = Some i"
    and bound: "length (store_log s (event_run_id ev)) < stream_maxlen"
  shows "fst (redis_event_append re i now clock ev db) = fst (store_append i now s ev) \<and>
    redis_holds re lo (sd_tables (snd (redis_event_append re i now clock ev db))) (snd (store_append i now s ev)) \<and>
    sd_faults (snd (redis_event_append re i now clock ev db)) = []"
proof -
  let ?r = "event_run_id ev" and ?t = "sd_tables db"
  let ?n = "length (store_log s ?r)" and ?es = "xl_streams ?t (run_stream_key ?r)"
  define raw where "raw = Option.bind (xl_strings ?t (run_session_key ?r)) (re_parse_uuid re)"
  define sid' where "sid' = (case started_session ev of Some i \<Rightarrow> Some i | None \<Rightarrow> raw)"
  define ss where "ss = (case started_session ev of Some i \<Rightarrow> (xl_strings ?t)(run_session_key ?r \<mapsto> i) | None \<Rightarrow> xl_strings ?t)"
  define env' where "env' = \<lparr>ee_event_id = i, ee_seq = of_nat (Suc ?n), ee_run_id = ?r, ee_session_id = sid',
      ee_event = ev, ee_emitted_at = now\<rparr>"
  define eid where "eid = next_entry_id clock ?es"
  have old: "or_default None (ms_sessions s ?r) = raw" using h by (simp add: redis_holds_def raw_def)
  have seq: "or_default 0 (ms_seq s ?r) = of_nat ?n" using inv by (simp add: store_invar_def)
  have mem: "store_append i now s ev = (Inr env', s\<lparr>ms_sessions := (case started_session ev of Some i \<Rightarrow> (ms_sessions s)(?r \<mapsto> Some i) | None \<Rightarrow> ms_sessions s),
      ms_seq := (ms_seq s)(?r \<mapsto> of_nat (Suc ?n)), ms_events := (ms_events s)(?r \<mapsto> store_log s ?r @ [env'])\<rparr>)"
    by (simp add: store_append_started Let_def seq old env'_def sid'_def add.commute split: option.split)
  from env [of env'] obtain payload where p: "tc_print (re_envelope re) env' = Inr payload"
    "tc_parse (re_envelope re) payload = Inr env'" by (auto simp: mem faithful_text_def)
  have len: "length ?es = ?n" and cnt: "xl_counters ?t (run_seq_key ?r) = ?n"
    using h by (auto simp: redis_holds_def dest: map_eq_imp_length_eq)
  obtain k where k: "re_trim re stream_maxlen (?es @ [(eid, [(''data'', payload)])]) = drop k (?es @ [(eid, [(''data'', payload)])])"
    "k = 0 \<or> stream_maxlen + k \<le> Suc ?n"
    using tr [unfolded trims_def, rule_format, of stream_maxlen "?es @ [(eid, [(''data'', payload)])]"] len by auto
  then have "k = 0" using bound by linarith
  with k(1) have "re_trim re stream_maxlen (?es @ [(eid, [(''data'', payload)])]) = ?es @ [(eid, [(''data'', payload)])]"
    by simp
  then have app: "redis_event_append re i now clock ev db = (Inr env', db\<lparr>sd_tables := ?t\<lparr>xl_strings := ss,
      xl_counters := (xl_counters ?t)(run_seq_key ?r := Suc ?n),
      xl_streams := (xl_streams ?t)(run_stream_key ?r := ?es @ [(eid, [(''data'', payload)])])\<rparr>\<rparr>)"
    using f p(1) bound
    by (cases "started_session ev") (simp_all add: redis_event_append_def redis_run_session_started try_then_def try_err_def
        execute_def redis_incr_def redis_xadd_def Let_def cnt sid'_def ss_def raw_def env'_def eid_def stream_maxlen_def)
  have log: "store_log (snd (store_append i now s ev)) q = (if q = ?r then store_log s ?r @ [env'] else store_log s q)" for q
    by (simp add: mem store_log_def or_default_def)
  have ses: "or_default None (ms_sessions (snd (store_append i now s ev)) q) =
      Option.bind (ss (run_session_key q)) (re_parse_uuid re)" for q
    using h old by (cases "started_session ev") (auto simp: mem ss_def sid raw_def or_default_def redis_holds_def)
  have "lo \<le> fst eid" unfolding eid_def using h lo by (intro next_entry_id_late) (auto simp: redis_holds_def)
  then have "redis_holds re lo (?t\<lparr>xl_strings := ss, xl_counters := (xl_counters ?t)(run_seq_key ?r := Suc ?n),
      xl_streams := (xl_streams ?t)(run_stream_key ?r := ?es @ [(eid, [(''data'', payload)])])\<rparr>) (snd (store_append i now s ev))"
    using h p(2) by (auto simp: redis_holds_def log ses ss_def decode_entry_def)
  then show ?thesis using f by (simp add: app mem)
qed

lemma store_log_grows: "set (store_log s r) \<subseteq> set (store_log (Event_Store.append_all s evs) r)"
proof (induction s evs rule: Event_Store.append_all.induct)
  case (2 s i t ev evs)
  then show ?case by (auto simp: store_append_log split: if_splits)
qed simp

lemma redis_append_events_holds:
  assumes "trims (re_trim re)"
  shows "redis_holds re lo (sd_tables db) s \<Longrightarrow> sd_faults db = [] \<Longrightarrow> store_invar s \<Longrightarrow>
    \<forall>r. \<forall>env\<in>set (store_log (Event_Store.append_all s (map snd evs)) r). faithful_text (re_envelope re) env \<Longrightarrow>
    \<forall>(c, i, t, ev)\<in>set evs. lo \<le> c \<and> (\<forall>i. started_session ev = Some i \<longrightarrow> re_parse_uuid re i = Some i) \<Longrightarrow>
    (\<forall>r. length (store_log s r) + length evs \<le> stream_maxlen) \<Longrightarrow>
    redis_holds re lo (sd_tables (redis_append_events re evs db)) (Event_Store.append_all s (map snd evs)) \<and>
    sd_faults (redis_append_events re evs db) = []"
proof (induction evs arbitrary: db s)
  case (Cons p evs)
  obtain c i t ev where p: "p = (c, i, t, ev)" by (cases p)
  let ?s = "snd (store_append i t s ev)" and ?db = "snd (redis_event_append re i t c ev db)"
  have env: "faithful_text (re_envelope re) env" if e: "fst (store_append i t s ev) = Inr env" for env
  proof -
    have "env \<in> set (store_log ?s (event_run_id ev))" by (simp add: store_append_log e)
    then have "env \<in> set (store_log (Event_Store.append_all s (map snd (p # evs))) (event_run_id ev))"
      using store_log_grows [of ?s "event_run_id ev" "map snd evs"] by (auto simp: p)
    then show ?thesis using Cons.prems(4) by blast
  qed
  have b: "length (store_log s (event_run_id ev)) + Suc (length evs) \<le> stream_maxlen"
    using Cons.prems(6) by (metis length_Cons)
  have step: "fst (redis_event_append re i t c ev db) = fst (store_append i t s ev) \<and>
      redis_holds re lo (sd_tables ?db) ?s \<and> sd_faults ?db = []"
    using Cons.prems(5) b by (intro redis_event_append_holds Cons.prems assms env) (auto simp: p)
  have "\<forall>r. length (store_log ?s r) + length evs \<le> stream_maxlen"
  proof
    fix r
    show "length (store_log ?s r) + length evs \<le> stream_maxlen"
      using Cons.prems(6) [rule_format, of r] by (auto simp: store_append_log p)
  qed
  moreover have "store_invar ?s"
    using Cons.prems(3) b by (intro store_invar_append) (simp_all add: stream_maxlen_def)
  ultimately show ?case
    using Cons.IH [of ?db ?s] step Cons.prems(4,5) by (simp add: p)
qed simp

text \<open>A page of Redis is cut before the position is applied. After at most ten thousand appends, listing after
  a position gives those of the first \<open>limit\<close> events of the run that lie behind it, and not the first
  \<open>limit\<close> events behind it: a position is compared with identifiers that are times of the server.\<close>

theorem redis_page_cut_first:
  assumes "trims (re_trim re)"
    and "\<forall>r. \<forall>env\<in>set (store_log (Event_Store.append_all memory_store_new (map snd evs)) r). faithful_text (re_envelope re) env"
    and "\<forall>(c, i, t, ev)\<in>set evs. 10000 < c \<and> (\<forall>i. started_session ev = Some i \<longrightarrow> re_parse_uuid re i = Some i)"
    and "length evs \<le> 10000" and "case after of None \<Rightarrow> True | Some k \<Rightarrow> k \<le> 10000"
  shows "fst (redis_event_list_after re r after limit (redis_append_events re evs empty_redis_log)) =
    Inr (filter (after_filter after) (take limit (store_log (Event_Store.append_all memory_store_new (map snd evs)) r)))"
proof -
  let ?s = "Event_Store.append_all memory_store_new (map snd evs)" and ?db = "redis_append_events re evs empty_redis_log"
  let ?es = "xl_streams (sd_tables ?db) (run_stream_key r)"
  have z: "store_log memory_store_new q = []" for q
    by (simp add: store_log_def memory_store_new_def or_default_def)
  have "redis_holds re 10001 (sd_tables empty_redis_log) memory_store_new"
    by (simp add: redis_holds_def empty_redis_log_def z) (simp add: memory_store_new_def or_default_def)
  then have h: "redis_holds re 10001 (sd_tables ?db) ?s \<and> sd_faults ?db = []"
    using assms by (intro redis_append_events_holds store_invar_new) (auto simp: z empty_redis_log_def stream_maxlen_def)
  then have dec: "map (decode_entry re) ?es = map Some (store_log ?s r)" and ids: "\<forall>e\<in>set ?es. 10001 \<le> fst (fst e)"
    by (simp_all add: redis_holds_def)
  have "fst (replay_start after) \<le> 10000"
    using assms(5) by (auto simp: replay_start_def word_le_nat_alt split: option.splits)
  then have all: "filter (\<lambda>e. fst (replay_start after) < fst (fst e) \<or> fst (replay_start after) = fst (fst e) \<and>
      snd (replay_start after) \<le> snd (fst e)) ?es = ?es"
    using ids by (intro filter_True) force
  have "List.map_filter (decode_entry re) (take limit ?es) = take limit (store_log ?s r)"
  proof -
    have "map (decode_entry re) (take limit ?es) = map Some (take limit (store_log ?s r))"
      using dec by (simp flip: take_map)
    moreover have "map f xs = map Some ys \<Longrightarrow> List.map_filter f xs = ys" for f :: "'x \<Rightarrow> 'y option" and xs ys
      by (induction xs arbitrary: ys) (auto simp: List.map_filter_def)
    ultimately show ?thesis by blast
  qed
  then show ?thesis
    using h all by (simp add: redis_event_list_after_def redis_xrange_def execute_def try_then_def try_err_def)
qed

definition cancel_envelope :: "uuid \<Rightarrow> u64 \<Rightarrow> timestamp \<Rightarrow> event_envelope" where
  "cancel_envelope i k t = \<lparr>ee_event_id = i, ee_seq = k, ee_run_id = ''a'', ee_session_id = None,
     ee_event = EvRunCancelled ''a'' 1, ee_emitted_at = t\<rparr>"

definition cancel_redis :: redis_events where
  "cancel_redis =
     \<lparr>re_envelope =
        \<lparr>tc_print = (\<lambda>e. if e = cancel_envelope ''e1'' 1 1 then Inr ''1''
           else if e = cancel_envelope ''e2'' 2 2 then Inr ''2'' else Inl ''unknown''),
         tc_parse = (\<lambda>s. if s = ''1'' then Inr (cancel_envelope ''e1'' 1 1)
           else if s = ''2'' then Inr (cancel_envelope ''e2'' 2 2) else Inl ''unknown'')\<rparr>,
      re_parse_uuid = Some, re_trim = (\<lambda>_ es. es)\<rparr>"

text \<open>Paging by one through a run of two events stops after the first.\<close>

theorem redis_page_cut_first_witness:
  "let evs = [(20000, ''e1'', 1, EvRunCancelled ''a'' 1), (20001, ''e2'', 2, EvRunCancelled ''a'' 1)]
   in fst (redis_event_list_after cancel_redis ''a'' (Some 1) 1 (redis_append_events cancel_redis evs empty_redis_log)) = Inr [] \<and>
     store_list_after (Event_Store.append_all memory_store_new (map snd evs)) ''a'' (Some 1) 1 =
       Inr [cancel_envelope ''e2'' 2 2]"
proof -
  let ?evs = "[(20000 :: nat, ''e1'', 1 :: nat, EvRunCancelled ''a'' 1), (20001, ''e2'', 2, EvRunCancelled ''a'' 1)]"
  have log: "store_log (Event_Store.append_all memory_store_new (map snd ?evs)) r =
      (if r = ''a'' then [cancel_envelope ''e1'' 1 1, cancel_envelope ''e2'' 2 2] else [])" for r
    by (simp add: store_append_def store_log_def memory_store_new_def or_default_def Let_def cancel_envelope_def)
  have tr: "trims (re_trim cancel_redis)" by (auto simp: trims_def cancel_redis_def intro: exI [of _ 0])
  have texts: "\<forall>r. \<forall>env\<in>set (store_log (Event_Store.append_all memory_store_new (map snd ?evs)) r).
      faithful_text (re_envelope cancel_redis) env"
    unfolding log by (auto simp: faithful_text_def cancel_redis_def cancel_envelope_def)
  have "fst (redis_event_list_after cancel_redis ''a'' (Some 1) 1 (redis_append_events cancel_redis ?evs empty_redis_log)) =
      Inr (filter (after_filter (Some 1)) (take 1 (store_log (Event_Store.append_all memory_store_new (map snd ?evs)) ''a'')))"
    by (rule redis_page_cut_first [OF tr texts]) (auto simp: started_session_def)
  also have "\<dots> = Inr []" unfolding log by (simp add: after_filter_def cancel_envelope_def)
  finally have 1: "fst (redis_event_list_after cancel_redis ''a'' (Some 1) 1
      (redis_append_events cancel_redis ?evs empty_redis_log)) = Inr []" .
  have "store_list_after (Event_Store.append_all memory_store_new (map snd ?evs)) ''a'' (Some 1) 1 =
      Inr [cancel_envelope ''e2'' 2 2]" by code_simp
  with 1 show ?thesis by (simp add: Let_def)
qed

end
