(* ===== verification/Mongo_Sessions.thy ===== *)
theory Mongo_Sessions
  imports Redis_Sessions
begin

text \<open>
  The MongoDB session store (\<open>behest-store/src/mongodb/session.rs\<close>): two collections of documents, changed
  as the commands of the source say; any command may fail, as a list of faults says, and then has no
  effect. Parameters are the BSON of a metadata value, of a usage and of a time, the text of identifiers
  and the order that a sort gives to equal keys. A time that the store writes itself is a BSON date; one
  that is part of a document is whatever the serializer of \<open>chrono\<close> makes of it.
\<close>

section \<open>Documents\<close>

datatype bson_time = BsonText string | BsonDate timestamp

record mongo_codecs =
  mk_document :: "json text_codec"
  mk_usage_error :: "token_usage \<Rightarrow> string option"
  mk_show_time :: "timestamp \<Rightarrow> bson_time"
  mk_read_time :: "bson_time \<Rightarrow> string + timestamp"
  mk_parse_uuid :: "string \<Rightarrow> string + uuid"

record session_doc =
  sd_id :: string
  sd_title :: string
  sd_model :: string
  sd_metadata :: string
  sd_created_at :: timestamp
  sd_updated_at :: timestamp

record message_doc =
  md_id :: string
  md_session_id :: string
  md_role :: string
  md_content :: "content_part list"
  md_tool_calls :: "tool_call list"
  md_usage :: "token_usage option"
  md_is_compaction :: bool
  md_is_summary :: bool
  md_compaction_meta :: "compaction_meta option"
  md_created_at :: timestamp

text \<open>A document as the collection holds it: its times are BSON values.\<close>

record stored_session =
  ss_doc :: session_doc
  ss_created :: bson_time
  ss_updated :: bson_time

record stored_message =
  sm_doc :: message_doc
  sm_created :: bson_time

record mongo_collections =
  mg_sessions :: "stored_session list"
  mg_messages :: "stored_message list"

type_synonym mongo_db = "mongo_collections sql_db"

definition mongo_error :: "string \<Rightarrow> storage_error" where
  "mongo_error e = BackendError ''mongodb'' e (Some e)"

definition mongo :: "(mongo_collections, 'a) sql_statement \<Rightarrow> mongo_db \<Rightarrow> (storage_error + 'a) \<times> mongo_db" where
  "mongo st = try_err mongo_error (execute st)"

definition try_from_session :: "mongo_codecs \<Rightarrow> session \<Rightarrow> storage_error + session_doc" where
  "try_from_session mk s =
     (case tc_print (mk_document mk) (se_metadata s) of
        Inl e \<Rightarrow> Inl (SerializationFailed (''session metadata BSON serialization: '' @ e) (Some e))
      | Inr d \<Rightarrow> Inr \<lparr>sd_id = se_id s, sd_title = se_title s, sd_model = se_model s, sd_metadata = d,
          sd_created_at = se_created_at s, sd_updated_at = se_updated_at s\<rparr>)"

definition try_into_session :: "mongo_codecs \<Rightarrow> session_doc \<Rightarrow> storage_error + session" where
  "try_into_session mk d =
     (case tc_parse (mk_document mk) (sd_metadata d) of
        Inl e \<Rightarrow> Inl (DataCorruption ''session.metadata'' e (Some e))
      | Inr md \<Rightarrow> (case parse_uuid (mk_parse_uuid mk) (sd_id d) ''session.id'' of
          Inl x \<Rightarrow> Inl x
        | Inr i \<Rightarrow> Inr \<lparr>se_id = i, se_title = sd_title d, se_model = sd_model d,
            se_created_at = sd_created_at d, se_updated_at = sd_updated_at d, se_metadata = md\<rparr>))"

definition doc_from_message :: "message_record \<Rightarrow> message_doc" where
  "doc_from_message m =
     \<lparr>md_id = mr_id m, md_session_id = mr_session_id m, md_role = role_to_str (mr_role m),
      md_content = mr_content m, md_tool_calls = mr_tool_calls m, md_usage = mr_usage m,
      md_is_compaction = mr_is_compaction m, md_is_summary = mr_is_summary m,
      md_compaction_meta = mr_compaction_meta m, md_created_at = mr_created_at m\<rparr>"

definition try_into_message :: "mongo_codecs \<Rightarrow> message_doc \<Rightarrow> storage_error + message_record" where
  "try_into_message mk d =
     (case parse_uuid (mk_parse_uuid mk) (md_id d) ''message.id'' of
        Inl x \<Rightarrow> Inl x
      | Inr i \<Rightarrow> (case parse_uuid (mk_parse_uuid mk) (md_session_id d) ''message.session_id'' of
          Inl x \<Rightarrow> Inl x
        | Inr sid \<Rightarrow> Inr \<lparr>mr_id = i, mr_session_id = sid, mr_role = role_from_str (md_role d),
            mr_content = md_content d, mr_tool_calls = md_tool_calls d, mr_tool_call_id = None,
            mr_tool_name = None, mr_usage = md_usage d, mr_created_at = md_created_at d,
            mr_is_compaction = md_is_compaction d, mr_is_summary = md_is_summary d,
            mr_compaction_meta = md_compaction_meta d\<rparr>))"

text \<open>What the driver does with a document on its way into and out of a collection.\<close>

definition store_session_doc :: "mongo_codecs \<Rightarrow> session_doc \<Rightarrow> stored_session" where
  "store_session_doc mk d =
     \<lparr>ss_doc = d, ss_created = mk_show_time mk (sd_created_at d), ss_updated = mk_show_time mk (sd_updated_at d)\<rparr>"

definition load_session_doc :: "mongo_codecs \<Rightarrow> stored_session \<Rightarrow> string + session_doc" where
  "load_session_doc mk s =
     (case mk_read_time mk (ss_created s) of
        Inl e \<Rightarrow> Inl e
      | Inr c \<Rightarrow> (case mk_read_time mk (ss_updated s) of
          Inl e \<Rightarrow> Inl e
        | Inr u \<Rightarrow> Inr ((ss_doc s)\<lparr>sd_created_at := c, sd_updated_at := u\<rparr>)))"

definition store_message_doc :: "mongo_codecs \<Rightarrow> message_doc \<Rightarrow> stored_message" where
  "store_message_doc mk d = \<lparr>sm_doc = d, sm_created = mk_show_time mk (md_created_at d)\<rparr>"

definition load_message_doc :: "mongo_codecs \<Rightarrow> stored_message \<Rightarrow> string + message_doc" where
  "load_message_doc mk s =
     (case mk_read_time mk (sm_created s) of Inl e \<Rightarrow> Inl e | Inr c \<Rightarrow> Inr ((sm_doc s)\<lparr>md_created_at := c\<rparr>))"

section \<open>Commands\<close>

definition session_id_of :: "stored_session \<Rightarrow> string" where
  "session_id_of s = sd_id (ss_doc s)"

definition insert_session_doc :: "stored_session \<Rightarrow> (mongo_collections, unit) sql_statement" where
  "insert_session_doc s t =
     (if session_id_of s \<in> session_id_of ` set (mg_sessions t) then Inl (duplicate_key ''sessions'')
      else Inr ((), t\<lparr>mg_sessions := mg_sessions t @ [s]\<rparr>))"

definition insert_message_doc :: "stored_message \<Rightarrow> (mongo_collections, unit) sql_statement" where
  "insert_message_doc s t =
     (if md_id (sm_doc s) \<in> (md_id \<circ> sm_doc) ` set (mg_messages t) then Inl (duplicate_key ''messages'')
      else Inr ((), t\<lparr>mg_messages := mg_messages t @ [s]\<rparr>))"

text \<open>\<open>find_one\<close> also deserializes what it finds.\<close>

definition find_session_doc :: "mongo_codecs \<Rightarrow> uuid \<Rightarrow> (mongo_collections, session_doc option) sql_statement" where
  "find_session_doc mk i t =
     (case find (\<lambda>s. session_id_of s = i) (mg_sessions t) of
        None \<Rightarrow> Inr (None, t)
      | Some s \<Rightarrow> (case load_session_doc mk s of Inl e \<Rightarrow> Inl e | Inr d \<Rightarrow> Inr (Some d, t)))"

definition delete_session_doc :: "uuid \<Rightarrow> (mongo_collections, unit) sql_statement" where
  "delete_session_doc i t = Inr ((), t\<lparr>mg_sessions := filter (\<lambda>s. session_id_of s \<noteq> i) (mg_sessions t)\<rparr>)"

definition delete_message_docs :: "uuid \<Rightarrow> (mongo_collections, unit) sql_statement" where
  "delete_message_docs i t =
     Inr ((), t\<lparr>mg_messages := filter (\<lambda>s. md_session_id (sm_doc s) \<noteq> i) (mg_messages t)\<rparr>)"

text \<open>\<open>update_one\<close> with \<open>$set\<close>, and the number of documents it matched.\<close>

definition set_session ::
  "uuid \<Rightarrow> (stored_session \<Rightarrow> stored_session) \<Rightarrow> (mongo_collections, nat) sql_statement" where
  "set_session i f t = Inr (length (filter (\<lambda>s. session_id_of s = i) (mg_sessions t)),
     t\<lparr>mg_sessions := map (\<lambda>s. if session_id_of s = i then f s else s) (mg_sessions t)\<rparr>)"

definition set_usage :: "uuid \<Rightarrow> token_usage \<Rightarrow> (mongo_collections, nat) sql_statement" where
  "set_usage i u t = Inr (length (filter (\<lambda>s. md_id (sm_doc s) = i) (mg_messages t)),
     t\<lparr>mg_messages := map (\<lambda>s. if md_id (sm_doc s) = i then s\<lparr>sm_doc := (sm_doc s)\<lparr>md_usage := Some u\<rparr>\<rparr> else s)
       (mg_messages t)\<rparr>)"

section \<open>The store\<close>

definition mongo_create_session :: "mongo_codecs \<Rightarrow> session \<Rightarrow> mongo_db \<Rightarrow> (storage_error + session) \<times> mongo_db" where
  "mongo_create_session mk s =
     try_then (Pair (try_from_session mk s)) (\<lambda>d.
     try_then (mongo (insert_session_doc (store_session_doc mk d))) (\<lambda>_. Pair (Inr s)))"

definition mongo_list_sessions ::
  "mongo_codecs \<Rightarrow> (stored_session list \<Rightarrow> stored_session list) \<Rightarrow> mongo_db \<Rightarrow> (storage_error + session list) \<times> mongo_db" where
  "mongo_list_sessions mk newest_first =
     try_then (mongo (\<lambda>t. Inr (newest_first (mg_sessions t), t))) (\<lambda>cursor.
     try_then (mongo (\<lambda>t. map_sum id (\<lambda>ds. (ds, t)) (collect_results (load_session_doc mk) cursor)))
       (\<lambda>docs. Pair (collect_results (try_into_session mk) docs)))"

definition mongo_get_session :: "mongo_codecs \<Rightarrow> uuid \<Rightarrow> mongo_db \<Rightarrow> (storage_error + session option) \<times> mongo_db" where
  "mongo_get_session mk i =
     try_then (mongo (find_session_doc mk i)) (\<lambda>d. Pair (case d of
        None \<Rightarrow> Inr None
      | Some d \<Rightarrow> map_sum id Some (try_into_session mk d)))"

definition mongo_delete_session :: "uuid \<Rightarrow> mongo_db \<Rightarrow> (storage_error + unit) \<times> mongo_db" where
  "mongo_delete_session i =
     try_then (mongo (delete_session_doc i)) (\<lambda>_. mongo (delete_message_docs i))"

definition retitle :: "string \<Rightarrow> timestamp \<Rightarrow> model_name option \<Rightarrow> stored_session \<Rightarrow> stored_session" where
  "retitle title now model s =
     s\<lparr>ss_doc := (ss_doc s)\<lparr>sd_title := title, sd_model := (case model of Some m \<Rightarrow> m | None \<Rightarrow> sd_model (ss_doc s))\<rparr>,
       ss_updated := BsonDate now\<rparr>"

definition mongo_update_session ::
  "mongo_codecs \<Rightarrow> timestamp \<Rightarrow> uuid \<Rightarrow> string \<Rightarrow> model_name option \<Rightarrow> mongo_db \<Rightarrow> (storage_error + session) \<times> mongo_db" where
  "mongo_update_session mk now i title model =
     try_then (mongo (set_session i (retitle title now model))) (\<lambda>n.
     if n = 0 then Pair (Inl (StorageNotFound i))
     else try_then (mongo (find_session_doc mk i)) (\<lambda>d. Pair (case d of
        None \<Rightarrow> Inl (StorageNotFound i)
      | Some d \<Rightarrow> try_into_session mk d)))"

definition mongo_append_message ::
  "mongo_codecs \<Rightarrow> timestamp \<Rightarrow> message_record \<Rightarrow> mongo_db \<Rightarrow> (storage_error + message_record) \<times> mongo_db" where
  "mongo_append_message mk now m =
     try_then (mongo (find_session_doc mk (mr_session_id m))) (\<lambda>d.
     if d = None then Pair (Inl (StorageNotFound (mr_session_id m)))
     else
     try_then (mongo (insert_message_doc (store_message_doc mk (doc_from_message m)))) (\<lambda>_.
     try_then (mongo (set_session (mr_session_id m) (\<lambda>s. s\<lparr>ss_updated := BsonDate now\<rparr>))) (\<lambda>_. Pair (Inr m))))"

definition mongo_list_messages ::
  "mongo_codecs \<Rightarrow> (stored_message list \<Rightarrow> stored_message list) \<Rightarrow> uuid \<Rightarrow> mongo_db \<Rightarrow>
    (storage_error + message_record list) \<times> mongo_db" where
  "mongo_list_messages mk oldest_first i =
     try_then (mongo (\<lambda>t. Inr (oldest_first (filter (\<lambda>s. md_session_id (sm_doc s) = i) (mg_messages t)), t))) (\<lambda>cursor.
     try_then (mongo (\<lambda>t. map_sum id (\<lambda>ds. (ds, t)) (collect_results (load_message_doc mk) cursor)))
       (\<lambda>docs. Pair (collect_results (try_into_message mk) docs)))"

definition mongo_update_usage ::
  "mongo_codecs \<Rightarrow> uuid \<Rightarrow> token_usage \<Rightarrow> mongo_db \<Rightarrow> (storage_error + unit) \<times> mongo_db" where
  "mongo_update_usage mk i u =
     (case mk_usage_error mk u of
        Some e \<Rightarrow> Pair (Inl (SerializationFailed (''usage BSON serialization: '' @ e) (Some e)))
      | None \<Rightarrow> try_then (mongo (set_usage i u)) (\<lambda>n.
          Pair (if n = 0 then Inl (StorageNotFound i) else Inr ())))"

section \<open>Documents and sessions\<close>

lemma message_doc_roundtrip:
  assumes "mk_parse_uuid mk (mr_id m) = Inr (mr_id m)" and "mk_parse_uuid mk (mr_session_id m) = Inr (mr_session_id m)"
  shows "try_into_message mk (doc_from_message m) = Inr (without_tool_identity m)"
  using assms by (simp add: try_into_message_def parse_uuid_def doc_from_message_def without_tool_identity_def)

text \<open>The metadata of a new session is null, which is not a document.\<close>

lemma mongo_refuses_new_session:
  assumes "tc_print (mk_document mk) JNull = Inl e"
  shows "mongo_create_session mk (session_new i now title model) db =
    (Inl (SerializationFailed (''session metadata BSON serialization: '' @ e) (Some e)), db)"
  using assms by (simp add: mongo_create_session_def try_from_session_def session_new_def try_then_def)

lemma mongo_cases:
  "mongo st db = (Inl x, db') \<Longrightarrow> sd_tables db' = sd_tables db"
  "mongo st db = (Inr a, db') \<Longrightarrow> st (sd_tables db) = Inr (a, sd_tables db')"
  by (auto simp: mongo_def execute_def try_err_def Let_def split: list.splits option.splits sum.splits prod.splits)

definition dated :: "uuid \<Rightarrow> mongo_collections \<Rightarrow> bool" where
  "dated i t \<longleftrightarrow> (\<exists>s now. find (\<lambda>s. session_id_of s = i) (mg_sessions t) = Some s \<and> ss_updated s = BsonDate now)"

lemma find_map_set:
  "find (\<lambda>s. session_id_of s = i) xs = Some s \<Longrightarrow> \<forall>s. session_id_of (f s) = session_id_of s \<Longrightarrow>
    find (\<lambda>s. session_id_of s = i) (map (\<lambda>s. if session_id_of s = i then f s else s) xs) = Some (f s)"
  by (induction xs) (auto split: if_splits)

lemma set_session_dated:
  assumes "find_session_doc mk i t = Inr (Some d, t')" and "\<forall>s. session_id_of (f s) = session_id_of s"
    and "\<forall>s. ss_updated (f s) = BsonDate now" and "set_session i f t2 = Inr (n, t3)" and "mg_sessions t2 = mg_sessions t"
  shows "dated i t3"
proof -
  obtain s where "find (\<lambda>s. session_id_of s = i) (mg_sessions t) = Some s"
    using assms(1) by (auto simp: find_session_doc_def split: option.splits)
  from find_map_set [OF this assms(2)] assms(3-) show ?thesis
    by (auto simp: set_session_def dated_def)
qed

lemma dated_unreadable:
  assumes "dated i (sd_tables db)" and "\<forall>t. \<exists>e. mk_read_time mk (BsonDate t) = Inl e"
  shows "\<exists>x db'. mongo (find_session_doc mk i) db = (Inl x, db')"
proof (cases "mongo (find_session_doc mk i) db")
  case (Pair res db')
  have "\<exists>e. load_session_doc mk s = Inl e" if "ss_updated s = BsonDate t" for s t
    using assms(2) [rule_format, of t] that by (auto simp: load_session_doc_def split: sum.split)
  then have "\<exists>e. find_session_doc mk i (sd_tables db) = Inl e"
    using assms(1) by (fastforce simp: dated_def find_session_doc_def)
  with Pair mongo_cases(2) [of "find_session_doc mk i" db _ db'] show ?thesis by (cases res) auto
qed

text \<open>A session takes one message. Appending sets the time of the session to a BSON date; when the
  deserializer of the documents' times refuses those, as that of \<open>chrono\<close> does, then after one message the
  session can neither be read nor appended to: each such call fails.\<close>

theorem mongo_session_takes_one_message:
  assumes "\<forall>t. \<exists>e. mk_read_time mk (BsonDate t) = Inl e"
    and "mongo_append_message mk now m db = (Inr m', db')" and "mr_session_id m2 = mr_session_id m"
  shows "(\<exists>x. fst (mongo_append_message mk now2 m2 db') = Inl x) \<and>
    (\<exists>x. fst (mongo_get_session mk (mr_session_id m) db') = Inl x)"
proof -
  let ?i = "mr_session_id m"
  from assms(2) obtain d db1 db2 n where
    1: "mongo (find_session_doc mk ?i) db = (Inr (Some d), db1)"
    and 2: "mongo (insert_message_doc (store_message_doc mk (doc_from_message m))) db1 = (Inr (), db2)"
    and 3: "mongo (set_session ?i (\<lambda>s. s\<lparr>ss_updated := BsonDate now\<rparr>)) db2 = (Inr n, db')"
    unfolding mongo_append_message_def by (auto split: if_splits)
  have "mg_sessions (sd_tables db1) = mg_sessions (sd_tables db)"
    using mongo_cases(2) [OF 1] by (auto simp: find_session_doc_def split: option.splits sum.splits)
  moreover have "mg_sessions (sd_tables db2) = mg_sessions (sd_tables db1)"
    using mongo_cases(2) [OF 2] by (auto simp: insert_message_doc_def split: if_splits dest!: sym [of _ "sd_tables db2"])
  ultimately have "dated ?i (sd_tables db')"
    by (intro set_session_dated [OF mongo_cases(2) [OF 1] _ _ mongo_cases(2) [OF 3]])
      (simp_all add: session_id_of_def)
  from dated_unreadable [OF this assms(1)] show ?thesis
    by (auto simp: mongo_append_message_def mongo_get_session_def assms(3) try_then_def)
qed

text \<open>A message whose append failed may be stored.\<close>

definition plain_mongo :: mongo_codecs where
  "plain_mongo =
     \<lparr>mk_document = \<lparr>tc_print = (\<lambda>j. if j = JObject [] then Inr ''{}'' else Inl ''not a document''),
        tc_parse = (\<lambda>_. Inr (JObject []))\<rparr>,
      mk_usage_error = (\<lambda>_. None), mk_show_time = (\<lambda>t. if t = 5 then BsonText ''5'' else BsonText ''1''),
      mk_read_time = (\<lambda>b. case b of BsonText s \<Rightarrow> Inr (if s = ''5'' then 5 else 1) | BsonDate _ \<Rightarrow> Inl ''expected a string''),
      mk_parse_uuid = Inr\<rparr>"

definition plain_session_db :: "string option list \<Rightarrow> mongo_db" where
  "plain_session_db faults =
     \<lparr>sd_tables = \<lparr>mg_sessions = [store_session_doc plain_mongo \<lparr>sd_id = ''s'', sd_title = [], sd_model = ''m'',
        sd_metadata = ''{}'', sd_created_at = 1, sd_updated_at = 1\<rparr>], mg_messages = []\<rparr>, sd_faults = faults\<rparr>"

lemma failed_append_stored:
  "let (res, db) = mongo_append_message plain_mongo 9 (message_to_record ''a'' 5 ''s'' (System [part_text ''x'']))
     (plain_session_db [None, None, Some ''down''])
   in res = Inl (mongo_error ''down'') \<and> map (md_id \<circ> sm_doc) (mg_messages (sd_tables db)) = [''a'']"
  by code_simp

theorem mongo_session_takes_one_message_witness:
  "let m = message_to_record ''a'' 5 ''s'' (System [part_text ''x'']);
       db = snd (mongo_append_message plain_mongo 9 m (plain_session_db []))
   in \<exists>x. fst (mongo_append_message plain_mongo 10 (m\<lparr>mr_id := ''b''\<rparr>) db) = Inl x"
proof -
  let ?m = "message_to_record ''a'' 5 ''s'' (System [part_text ''x''])"
  let ?r = "mongo_append_message plain_mongo 9 ?m (plain_session_db [])"
  have r: "?r = (Inr ?m, snd ?r)" by code_simp
  have "\<forall>t. \<exists>e. mk_read_time plain_mongo (BsonDate t) = Inl e" by (simp add: plain_mongo_def)
  from mongo_session_takes_one_message [OF this r, of "?m\<lparr>mr_id := ''b''\<rparr>" 10] show ?thesis
    by (simp add: Let_def)
qed

end
