(* ===== verification/Artifact_Objects.thy ===== *)
theory Artifact_Objects
  imports Redis_Sessions
begin

text \<open>
  The artifact stores on an object store (\<open>behest-store/src/object/artifact.rs\<close>): files on disk and objects
  of S3. An artifact is two objects, its bytes and the JSON of the whole record. Any request may fail, as a
  list of faults says, and then has no effect. Parameters are the JSON of an artifact and the order of a
  listing.
\<close>

section \<open>Objects\<close>

type_synonym objects = "(string \<times> u8 list) list"
type_synonym 'a object_op = "objects sql_db \<Rightarrow> (storage_error + 'a) \<times> objects sql_db"

record artifact_json =
  aj_print :: "artifact \<Rightarrow> string + u8 list"
  aj_parse :: "u8 list \<Rightarrow> string + artifact"

definition artifact_path :: "uuid \<Rightarrow> string" where "artifact_path i = ''artifacts/'' @ i"
definition metadata_path :: "uuid \<Rightarrow> string" where "metadata_path i = ''metadata/'' @ i @ ''.json''"

definition object_error :: "string \<Rightarrow> string \<Rightarrow> storage_error" where
  "object_error backend e = BackendError backend e (Some e)"

definition request :: "string \<Rightarrow> (objects, 'a) sql_statement \<Rightarrow> 'a object_op" where
  "request backend st = try_err (object_error backend) (execute st)"

definition put_object :: "string \<Rightarrow> u8 list \<Rightarrow> (objects, unit) sql_statement" where
  "put_object p bytes t = Inr ((), AList.update p bytes t)"

text \<open>\<open>None\<close> is the error \<open>NotFound\<close>.\<close>

definition get_object :: "string \<Rightarrow> (objects, u8 list option) sql_statement" where
  "get_object p t = Inr (map_of t p, t)"

definition delete_object :: "string \<Rightarrow> (objects, unit) sql_statement" where
  "delete_object p t = Inr ((), AList.delete p t)"

definition list_objects :: "(string list \<Rightarrow> string list) \<Rightarrow> string \<Rightarrow> (objects, string list) sql_statement" where
  "list_objects order prefix t = Inr (order (filter (\<lambda>p. take (length prefix) p = prefix) (map fst t)), t)"

definition object_body :: "u8 list \<Rightarrow> (objects, u8 list) sql_statement" where
  "object_body bytes t = Inr (bytes, t)"

section \<open>The stores\<close>

definition object_put :: "string \<Rightarrow> artifact_json \<Rightarrow> artifact \<Rightarrow> artifact object_op" where
  "object_put backend aj a =
     try_then (request backend (put_object (artifact_path (ar_id a)) (ar_data a))) (\<lambda>_.
     try_then (Pair (map_sum serialization_failed id (aj_print aj a))) (\<lambda>j.
     try_then (request backend (put_object (metadata_path (ar_id a)) j)) (\<lambda>_. Pair (Inr a))))"

definition object_get :: "string \<Rightarrow> artifact_json \<Rightarrow> uuid \<Rightarrow> artifact option object_op" where
  "object_get backend aj i =
     try_then (request backend (get_object (metadata_path i))) (\<lambda>meta. case meta of
       None \<Rightarrow> Pair (Inr None)
     | Some m \<Rightarrow>
         try_then (request backend (object_body m)) (\<lambda>m.
         try_then (Pair (map_sum serialization_failed id (aj_parse aj m))) (\<lambda>a.
         try_then (request backend (get_object (artifact_path i))) (\<lambda>bytes. case bytes of
           None \<Rightarrow> Pair (Inl (object_error backend ''not found''))
         | Some d \<Rightarrow> try_then (request backend (object_body d)) (\<lambda>d. Pair (Inr (Some (a\<lparr>ar_data := d\<rparr>))))))))"

definition object_delete :: "uuid \<Rightarrow> unit object_op" where
  "object_delete i db =
     (let (_, db) = execute (delete_object (artifact_path i)) db;
          (_, db) = execute (delete_object (metadata_path i)) db
      in (Inr (), db))"

text \<open>An entry that cannot be read is passed over.\<close>

fun object_entries ::
  "artifact_json \<Rightarrow> uuid \<Rightarrow> string list \<Rightarrow> objects sql_db \<Rightarrow> artifact list \<times> objects sql_db" where
  "object_entries aj sid [] db = ([], db)"
| "object_entries aj sid (p # ps) db =
     (case execute (get_object p) db of
        (Inr (Some m), db1) \<Rightarrow>
          (case execute (object_body m) db1 of
             (Inr m, db2) \<Rightarrow>
               (let (as, db3) = object_entries aj sid ps db2 in
                case aj_parse aj m of
                  Inr a \<Rightarrow> (if ar_session_id a = Some sid then a # as else as, db3)
                | Inl _ \<Rightarrow> (as, db3))
           | (Inl _, db2) \<Rightarrow> object_entries aj sid ps db2)
      | (_, db1) \<Rightarrow> object_entries aj sid ps db1)"

definition object_list_by_session ::
  "string \<Rightarrow> artifact_json \<Rightarrow> (string list \<Rightarrow> string list) \<Rightarrow> uuid \<Rightarrow> artifact list object_op" where
  "object_list_by_session backend aj order sid =
     try_then (request backend (list_objects order ''metadata/'')) (\<lambda>ps db.
       case object_entries aj sid ps db of (as, db) \<Rightarrow> (Inr as, db))"

definition disk_put :: "artifact_json \<Rightarrow> artifact \<Rightarrow> artifact object_op" where
  "disk_put = object_put ''disk''"

definition disk_get :: "artifact_json \<Rightarrow> uuid \<Rightarrow> artifact option object_op" where
  "disk_get = object_get ''disk''"

definition disk_delete :: "uuid \<Rightarrow> unit object_op" where
  "disk_delete = object_delete"

definition disk_list_by_session :: "artifact_json \<Rightarrow> (string list \<Rightarrow> string list) \<Rightarrow> uuid \<Rightarrow> artifact list object_op" where
  "disk_list_by_session = object_list_by_session ''disk''"

definition s3_put :: "artifact_json \<Rightarrow> artifact \<Rightarrow> artifact object_op" where
  "s3_put = object_put ''s3''"

definition s3_get :: "artifact_json \<Rightarrow> uuid \<Rightarrow> artifact option object_op" where
  "s3_get = object_get ''s3''"

definition s3_delete :: "uuid \<Rightarrow> unit object_op" where
  "s3_delete = object_delete"

definition s3_list_by_session :: "artifact_json \<Rightarrow> (string list \<Rightarrow> string list) \<Rightarrow> uuid \<Rightarrow> artifact list object_op" where
  "s3_list_by_session = object_list_by_session ''s3''"

section \<open>An artifact is there or it is not\<close>

lemma request_cases:
  "request b st db = (Inl x, db') \<Longrightarrow> sd_tables db' = sd_tables db"
  "request b st db = (Inr a, db') \<Longrightarrow> st (sd_tables db) = Inr (a, sd_tables db')"
  by (auto simp: request_def execute_def try_err_def Let_def split: list.splits option.splits sum.splits prod.splits)

lemma request_calm: "sd_faults db = [] \<Longrightarrow> st (sd_tables db) = Inr (a, t) \<Longrightarrow> request b st db = (Inr a, db\<lparr>sd_tables := t\<rparr>)"
  by (simp add: request_def execute_def try_err_def)

lemma paths_inject [simp]:
  "artifact_path i \<noteq> metadata_path j" "metadata_path j \<noteq> artifact_path i"
  "artifact_path i = artifact_path j \<longleftrightarrow> i = j" "metadata_path i = metadata_path j \<longleftrightarrow> i = j"
  by (simp_all add: artifact_path_def metadata_path_def)

lemma object_get_calm:
  assumes "sd_faults db = []"
  shows "fst (object_get b aj i db) =
    (case map_of (sd_tables db) (metadata_path i) of
       None \<Rightarrow> Inr None
     | Some m \<Rightarrow> (case aj_parse aj m of
         Inl e \<Rightarrow> Inl (serialization_failed e)
       | Inr a \<Rightarrow> (case map_of (sd_tables db) (artifact_path i) of
           None \<Rightarrow> Inl (object_error b ''not found'')
         | Some d \<Rightarrow> Inr (Some (a\<lparr>ar_data := d\<rparr>)))))"
  using assms by (auto simp: object_get_def try_then_def request_calm get_object_def object_body_def
      split: option.split sum.split)

lemma object_put_cases:
  assumes "object_put b aj a db = (res, db')"
  shows "case res of
      Inr a' \<Rightarrow> a' = a \<and> (\<exists>j. aj_print aj a = Inr j \<and> sd_tables db' =
        AList.update (metadata_path (ar_id a)) j (AList.update (artifact_path (ar_id a)) (ar_data a) (sd_tables db)))
    | Inl _ \<Rightarrow> sd_tables db' = sd_tables db \<or>
        sd_tables db' = AList.update (artifact_path (ar_id a)) (ar_data a) (sd_tables db)"
proof -
  obtain r1 db1 where 1: "request b (put_object (artifact_path (ar_id a)) (ar_data a)) db = (r1, db1)" by fastforce
  show ?thesis
  proof (cases r1)
    case (Inl x)
    then show ?thesis using assms 1 request_cases(1) [OF 1 [unfolded Inl]]
      by (auto simp: object_put_def try_then_def)
  next
    case (Inr u)
    then have t1: "sd_tables db1 = AList.update (artifact_path (ar_id a)) (ar_data a) (sd_tables db)"
      using request_cases(2) [OF 1 [unfolded Inr]] by (simp add: put_object_def)
    show ?thesis
    proof (cases "aj_print aj a")
      case (Inl e)
      then show ?thesis using assms 1 Inr t1 by (auto simp: object_put_def try_then_def)
    next
      case j: (Inr j)
      obtain r2 db2 where 2: "request b (put_object (metadata_path (ar_id a)) j) db1 = (r2, db2)" by fastforce
      then show ?thesis using assms 1 Inr j t1 request_cases(1) [of b _ db1 _ db2] request_cases(2) [of b _ db1 _ db2]
        by (cases r2) (fastforce simp: object_put_def try_then_def put_object_def)+
    qed
  qed
qed

text \<open>C37: A new artifact is stored whole or not at all. When its JSON is read back as it was written, then after a
  put that succeeded the artifact is returned as it was, and after one that failed at any point there is no
  such artifact.\<close>

theorem artifact_whole_or_absent:
  assumes "\<forall>j. aj_print aj a = Inr j \<longrightarrow> aj_parse aj j = Inr a"
    and "map_of (sd_tables db) (metadata_path (ar_id a)) = None"
    and "object_put b aj a db = (res, db')" and "sd_faults db' = []"
  shows "fst (object_get b aj (ar_id a) db') = Inr (case res of Inr a' \<Rightarrow> Some a | Inl x \<Rightarrow> None)"
proof (cases res)
  case (Inl x)
  then have "map_of (sd_tables db') (metadata_path (ar_id a)) = None"
    using object_put_cases [OF assms(3)] assms(2) by (auto simp: update_conv)
  with Inl show ?thesis by (simp add: object_get_calm assms(4))
next
  case (Inr a')
  then show ?thesis using object_put_cases [OF assms(3)] assms(1)
    by (auto simp: object_get_calm assms(4) update_conv)
qed

text \<open>Overwriting is not: when the second request fails, the old record is returned with the new bytes.\<close>

definition two_versions :: artifact_json where
  "two_versions =
     \<lparr>aj_print = (\<lambda>a. Inr (if ar_name a = ''new'' then [2] else [1])),
      aj_parse = (\<lambda>j. Inr ((artifact_new ''a'' 1 (if j = [2] then ''new'' else ''old'') ''text'' [0])))\<rparr>"

lemma failed_overwrite_mixes:
  "let old = artifact_new ''a'' 1 ''old'' ''text'' [10]; new = artifact_new ''a'' 1 ''new'' ''text'' [20];
       db = snd (object_put ''disk'' two_versions old \<lparr>sd_tables = [], sd_faults = []\<rparr>);
       (res, db) = object_put ''disk'' two_versions new (db\<lparr>sd_faults := [None, Some ''full'']\<rparr>)
   in res = Inl (object_error ''disk'' ''full'') \<and>
     fst (object_get ''disk'' two_versions ''a'' db) = Inr (Some (artifact_new ''a'' 1 ''old'' ''text'' [20]))"
  by code_simp

text \<open>A deletion that failed is reported as done.\<close>

lemma failed_delete_reported_done:
  "object_delete i db = (Inr (), snd (object_delete i db)) \<and>
    sd_tables (snd (object_delete i \<lparr>sd_tables = t, sd_faults = [Some e, Some e]\<rparr>)) = t"
  by (simp add: object_delete_def execute_def Let_def split: prod.split)

theorem artifact_whole_or_absent_witness:
  "let a = artifact_new ''a'' 1 ''old'' ''text'' [0]
   in fst (object_get ''s3'' two_versions ''a'' (snd (object_put ''s3'' two_versions a \<lparr>sd_tables = [], sd_faults = [None, Some ''full'']\<rparr>))) =
     Inr None"
proof -
  let ?a = "artifact_new ''a'' 1 ''old'' ''text'' [0]"
  let ?r = "object_put ''s3'' two_versions ?a \<lparr>sd_tables = [], sd_faults = [None, Some ''full'']\<rparr>"
  have r: "?r = (Inl (object_error ''s3'' ''full''), snd ?r)" and f: "sd_faults (snd ?r) = []" by code_simp+
  have c: "\<forall>j. aj_print two_versions ?a = Inr j \<longrightarrow> aj_parse two_versions j = Inr ?a"
    by (simp add: two_versions_def artifact_new_def)
  have "fst (object_get ''s3'' two_versions (ar_id ?a) (snd ?r)) = Inr None"
    using artifact_whole_or_absent [OF c _ r f] by simp
  then show ?thesis by (simp add: artifact_new_def)
qed

end
