(* ===== verification/Redis_Session_Data.thy ===== *)
theory Redis_Session_Data
  imports Invocation Sql_Sessions
begin

text \<open>
  Session data in Redis (\<open>behest-runtime/src/session_data_store.rs\<close>): one hash per session with a JSON text
  per key. Connecting and every command may fail, as a list of faults says. It provides the contract of
  session data, like the in-memory and the file store.
\<close>

type_synonym hashes = "string \<Rightarrow> string \<Rightarrow> string option"
type_synonym 'a data_op = "hashes sql_db \<Rightarrow> (session_data_error + 'a) \<times> hashes sql_db"

definition hash_key :: "uuid \<Rightarrow> string" where "hash_key s = ''behest:session_data:'' @ s"

definition data_request :: "string \<Rightarrow> (hashes, 'a) sql_statement \<Rightarrow> 'a data_op" where
  "data_request what st = try_err (storage_failure what) (execute st)"

definition data_conn :: "unit data_op" where
  "data_conn = data_request ''redis connection error: '' (\<lambda>t. Inr ((), t))"

definition hash_set :: "string \<Rightarrow> string \<Rightarrow> string \<Rightarrow> (hashes, unit) sql_statement" where
  "hash_set h k v t = Inr ((), t(h := (t h)(k \<mapsto> v)))"

definition hash_get :: "string \<Rightarrow> string \<Rightarrow> (hashes, string option) sql_statement" where
  "hash_get h k t = Inr (t h k, t)"

definition hash_del :: "string \<Rightarrow> string \<Rightarrow> (hashes, unit) sql_statement" where
  "hash_del h k t = Inr ((), t(h := (t h)(k := None)))"

definition redis_data_set :: "json text_codec \<Rightarrow> uuid \<Rightarrow> string \<Rightarrow> json \<Rightarrow> unit data_op" where
  "redis_data_set c s k v =
     try_then data_conn (\<lambda>_.
     try_then (Pair (map_sum (storage_failure ''serialization error: '') id (tc_print c v))) (\<lambda>j.
     data_request ''redis HSET error: '' (hash_set (hash_key s) k j)))"

definition redis_data_get :: "json text_codec \<Rightarrow> uuid \<Rightarrow> string \<Rightarrow> json option data_op" where
  "redis_data_get c s k =
     try_then data_conn (\<lambda>_.
     try_then (data_request ''redis HGET error: '' (hash_get (hash_key s) k)) (\<lambda>raw. Pair (case raw of
       None \<Rightarrow> Inr None
     | Some j \<Rightarrow> map_sum (storage_failure ''deserialization error: '') Some (tc_parse c j))))"

definition redis_data_delete :: "uuid \<Rightarrow> string \<Rightarrow> unit data_op" where
  "redis_data_delete s k =
     try_then data_conn (\<lambda>_. data_request ''redis HDEL error: '' (hash_del (hash_key s) k))"

section \<open>The contract\<close>

type_synonym redis_data = "json text_codec \<times> hashes sql_db"

definition data_set :: "redis_data \<Rightarrow> uuid \<Rightarrow> string \<Rightarrow> json \<Rightarrow> (session_data_error + unit) \<times> redis_data" where
  "data_set st s k v = (case redis_data_set (fst st) s k v (snd st) of (res, db) \<Rightarrow> (res, (fst st, db)))"

definition data_get :: "redis_data \<Rightarrow> uuid \<Rightarrow> string \<Rightarrow> session_data_error + json option" where
  "data_get st s k = fst (redis_data_get (fst st) s k (snd st))"

definition data_delete :: "redis_data \<Rightarrow> uuid \<Rightarrow> string \<Rightarrow> (session_data_error + unit) \<times> redis_data" where
  "data_delete st s k = (case redis_data_delete s k (snd st) of (res, db) \<Rightarrow> (res, (fst st, db)))"

text \<open>JSON is printed and read back, the server answers, and every stored text is JSON.\<close>

definition data_sound :: "redis_data \<Rightarrow> bool" where
  "data_sound st \<longleftrightarrow> (\<forall>v. \<exists>s. tc_print (fst st) v = Inr s \<and> tc_parse (fst st) s = Inr v) \<and>
     sd_faults (snd st) = [] \<and> (\<forall>h k s. sd_tables (snd st) h k = Some s \<longrightarrow> (\<exists>v. tc_parse (fst st) s = Inr v))"

lemma hash_key_inject [simp]: "hash_key s = hash_key s' \<longleftrightarrow> s = s'"
  by (simp add: hash_key_def)

lemma data_calm:
  "sd_faults db = [] \<Longrightarrow> data_conn db = (Inr (), db)"
  "sd_faults db = [] \<Longrightarrow> st (sd_tables db) = Inr (a, t) \<Longrightarrow> data_request w st db = (Inr a, db\<lparr>sd_tables := t\<rparr>)"
  by (simp_all add: data_conn_def data_request_def execute_def try_err_def)

lemma data_get_sound:
  "data_sound st \<Longrightarrow> data_get st s k =
     (case sd_tables (snd st) (hash_key s) k of
        None \<Rightarrow> Inr None
      | Some j \<Rightarrow> map_sum (storage_failure ''deserialization error: '') Some (tc_parse (fst st) j))"
  by (simp add: data_sound_def data_get_def redis_data_get_def try_then_def data_calm hash_get_def)

lemma data_set_sound:
  assumes "data_sound st"
  shows "\<exists>j. tc_parse (fst st) j = Inr v \<and> data_set st s k v = (Inr (),
    (fst st, (snd st)\<lparr>sd_tables := (sd_tables (snd st))(hash_key s := (sd_tables (snd st) (hash_key s))(k \<mapsto> j))\<rparr>))"
proof -
  obtain j where "tc_print (fst st) v = Inr j" "tc_parse (fst st) j = Inr v"
    using assms unfolding data_sound_def by blast
  with assms show ?thesis
    by (auto simp: data_sound_def data_set_def redis_data_set_def try_then_def data_calm hash_set_def)
qed

lemma data_delete_sound:
  "data_sound st \<Longrightarrow> data_delete st s k = (Inr (),
    (fst st, (snd st)\<lparr>sd_tables := (sd_tables (snd st))(hash_key s := (sd_tables (snd st) (hash_key s))(k := None))\<rparr>))"
  by (simp add: data_sound_def data_delete_def redis_data_delete_def try_then_def data_calm hash_del_def)

lemma data_sound_set: "data_sound st \<Longrightarrow> data_sound (snd (data_set st s k v))"
  using data_set_sound [of st v s k] by (auto simp: data_sound_def split: if_splits)

lemma data_sound_delete: "data_sound st \<Longrightarrow> data_sound (snd (data_delete st s k))"
  by (simp add: data_delete_sound) (auto simp: data_sound_def split: if_splits)

interpretation redis_data: session_data data_set data_get data_delete data_sound
proof
  fix st s k v s' k' assume st: "data_sound st"
  show "\<exists>v. data_get st s k = Inr v"
    using st by (fastforce simp: data_get_sound data_sound_def split: option.split)
  show "fst (data_set st s k v) = Inr () \<and> data_sound (snd (data_set st s k v))"
    using data_set_sound [OF st, of v s k] data_sound_set [OF st] by auto
  show "fst (data_delete st s k) = Inr () \<and> data_sound (snd (data_delete st s k))"
    using data_delete_sound [OF st] data_sound_delete [OF st] by simp
  show "data_get (snd (data_set st s k v)) s' k' =
      (if s' = s \<and> k' = k then Inr (Some v) else data_get st s' k')"
  proof -
    obtain j where j: "tc_parse (fst st) j = Inr v" "data_set st s k v = (Inr (), (fst st, (snd st)\<lparr>sd_tables :=
        (sd_tables (snd st))(hash_key s := (sd_tables (snd st) (hash_key s))(k \<mapsto> j))\<rparr>))"
      using data_set_sound [OF st] by blast
    show ?thesis using data_get_sound [OF data_sound_set [OF st, of s k v]] data_get_sound [OF st]
      by (simp add: j split: option.split)
  qed
  show "data_get (snd (data_delete st s k)) s' k' =
      (if s' = s \<and> k' = k then Inr None else data_get st s' k')"
    using data_get_sound [OF data_sound_delete [OF st, of s k]] data_get_sound [OF st] data_delete_sound [OF st]
    by (simp split: option.split)
qed

text \<open>After the same writes Redis answers every lookup as the in-memory store.\<close>

theorem redis_data_agrees:
  assumes "data_sound st" and "\<forall>h k. sd_tables (snd st) h k = None"
  shows "data_get (redis_data.write_all st ws) s k = memory_get (mem.write_all [] ws) s k"
  using redis_data.get_write_all [OF assms(1), of ws s k] mem.get_write_all [OF TrueI, of "[]" ws s k] assms
  by (simp add: data_get_sound memory_get_def split: option.split)

end
