(* ===== verification/Agent_Directory.thy ===== *)
theory Agent_Directory
  imports Core_Errors "HOL-Library.AList" "HOL-Library.List_Lexorder" "HOL-Library.Char_ord"
begin

text \<open>
  Named agents and their registry (\<open>behest/src/agent/mod.rs\<close>). The map of agents is an association list;
  listings sort it by name, so its order is not seen.
\<close>

section \<open>Definitions of agents\<close>

datatype agent_mode = PrimaryAgent | Subagent

datatype permission_effect = PermAllow | PermDeny | PermAsk

record permission_rule =
  pr_tool :: string
  pr_resource :: string
  pr_effect :: permission_effect

record agent_definition =
  ad_name :: string
  ad_description :: string
  ad_mode :: agent_mode
  ad_system_prompt :: string
  ad_hidden :: bool
  ad_permissions :: "permission_rule list"
  ad_model :: "model_name option"
  ad_max_steps :: "nat option"

definition primary_agent :: "string \<Rightarrow> string \<Rightarrow> string \<Rightarrow> agent_definition" where
  "primary_agent name description prompt =
     \<lparr>ad_name = name, ad_description = description, ad_mode = PrimaryAgent, ad_system_prompt = prompt,
      ad_hidden = False, ad_permissions = [], ad_model = None, ad_max_steps = None\<rparr>"

definition subagent :: "string \<Rightarrow> string \<Rightarrow> string \<Rightarrow> agent_definition" where
  "subagent name description prompt =
     \<lparr>ad_name = name, ad_description = description, ad_mode = Subagent, ad_system_prompt = prompt,
      ad_hidden = False, ad_permissions = [], ad_model = None, ad_max_steps = None\<rparr>"

definition hidden_agent :: "agent_definition \<Rightarrow> agent_definition" where
  "hidden_agent a = a\<lparr>ad_hidden := True\<rparr>"

definition with_permissions :: "agent_definition \<Rightarrow> permission_rule list \<Rightarrow> agent_definition" where
  "with_permissions a rules = a\<lparr>ad_permissions := rules\<rparr>"

definition with_agent_model :: "agent_definition \<Rightarrow> model_name \<Rightarrow> agent_definition" where
  "with_agent_model a m = a\<lparr>ad_model := Some m\<rparr>"

definition with_max_steps :: "agent_definition \<Rightarrow> nat \<Rightarrow> agent_definition" where
  "with_max_steps a n = a\<lparr>ad_max_steps := Some n\<rparr>"

section \<open>The registry\<close>

record agent_registry =
  rg_agents :: "(string \<times> agent_definition) list"
  rg_default :: "string option"

definition agents_new :: agent_registry where
  "agents_new = \<lparr>rg_agents = [], rg_default = None\<rparr>"

definition selectable :: "agent_definition \<Rightarrow> bool" where
  "selectable a \<longleftrightarrow> ad_mode a = PrimaryAgent \<and> \<not> ad_hidden a"

definition register_agent :: "agent_registry \<Rightarrow> agent_definition \<Rightarrow> agent_registry" where
  "register_agent r a =
     (let r' = (if rg_default r = None \<and> selectable a then r\<lparr>rg_default := Some (ad_name a)\<rparr> else r)
      in r'\<lparr>rg_agents := AList.update (ad_name a) a (rg_agents r)\<rparr>)"

definition set_default_agent :: "agent_registry \<Rightarrow> string \<Rightarrow> agent_registry" where
  "set_default_agent r name = r\<lparr>rg_default := Some name\<rparr>"

definition get_agent :: "agent_registry \<Rightarrow> string \<Rightarrow> agent_definition option" where
  "get_agent r name = map_of (rg_agents r) name"

definition list_agents :: "agent_registry \<Rightarrow> agent_definition list" where
  "list_agents r = sort_key ad_name (map snd (rg_agents r))"

definition list_selectable :: "agent_registry \<Rightarrow> agent_definition list" where
  "list_selectable r = sort_key ad_name (filter selectable (map snd (rg_agents r)))"

definition default_agent :: "agent_registry \<Rightarrow> agent_definition option" where
  "default_agent r = Option.bind (rg_default r) (get_agent r)"

definition agents_empty :: "agent_registry \<Rightarrow> bool" where
  "agents_empty r \<longleftrightarrow> rg_agents r = []"

definition agents_len :: "agent_registry \<Rightarrow> nat" where
  "agents_len r = length (rg_agents r)"

section \<open>The default\<close>

definition registered :: "agent_definition list \<Rightarrow> agent_registry" where
  "registered as = foldl register_agent agents_new as"

lemma registered_snoc: "registered (as @ [a]) = register_agent (registered as) a"
  by (simp add: registered_def)

lemma get_registered: "get_agent (registered as) n = map_of (rev (map (\<lambda>a. (ad_name a, a)) as)) n"
  by (induction as rule: rev_induct)
    (auto simp: registered_snoc register_agent_def get_agent_def Let_def update_conv' registered_def agents_new_def)

lemma default_registered: "rg_default (registered as) = map_option ad_name (find selectable as)"
proof (induction as rule: rev_induct)
  case (snoc a as)
  have "find selectable (as @ [a]) = (case find selectable as of None \<Rightarrow> if selectable a then Some a else None | Some b \<Rightarrow> Some b)"
    by (induction as) auto
  with snoc show ?case by (auto simp: registered_snoc register_agent_def Let_def split: option.splits)
qed (simp add: registered_def agents_new_def)

lemma find_in: "find P xs = Some x \<Longrightarrow> x \<in> set xs \<and> P x"
  by (induction xs) (auto split: if_splits)

text \<open>After registering agents of different names the default agent is the first that a user can select, and
  there is none exactly when there is no such agent.\<close>

theorem default_is_first_selectable:
  assumes "distinct (map ad_name as)"
  shows "default_agent (registered as) = find selectable as"
proof (cases "find selectable as")
  case (Some a)
  then have "a \<in> set as" using find_in by metis
  moreover have "distinct (map fst (rev (map (\<lambda>a. (ad_name a, a)) as)))" using assms by (simp add: comp_def flip: rev_map)
  ultimately have "map_of (rev (map (\<lambda>a. (ad_name a, a)) as)) (ad_name a) = Some a"
    by (intro map_of_is_SomeI) auto
  with Some show ?thesis by (simp add: default_agent_def default_registered get_registered)
qed (simp add: default_agent_def default_registered)

text \<open>An agent registered again under the name of the default stays the default, also when it cannot be
  selected any more.\<close>

lemma default_may_be_hidden:
  "let a = primary_agent ''a'' [] []; r = registered [a, hidden_agent a, primary_agent ''b'' [] []]
   in default_agent r = Some (hidden_agent a) \<and> list_selectable r = [primary_agent ''b'' [] []]"
  by code_simp

end
