(* ===== verification/Spec2Isabelle.thy ===== *)
theory Spec2Isabelle
  imports Journal Recovery Sub_Engine Memory_Window Memory_Compaction Token_Budget Run_Machine
    Circuit_Breaker Tool_Strategy Approval_Gate Event_Store Run_Loop_Properties Context_Pipeline
    Registry_Lifecycle Tool_Limits Tool_Execution Session_Gate Shutdown_Token Agent_Run Invocation
    Event_Subscription Model_Router Skills Sse_Stream Provider_Http Anthropic_Adapter
    OpenAI_Embeddings Tool_Dispatch Cache_Stats Component_Factories Extension_Point Run_Contexts
    Agent_Config Run_Store Managed_Runtime Hook_Stack Memory_Facts Rag_Context Sql_Executions
    Redis_Sessions Durable_Events Mongo_Sessions Artifact_Objects Redis_Session_Data Agent_Directory
begin

text \<open>
  \<^bold>\<open>Verification library for the \<open>behest\<close> agent runtime\<close>

  \<^bold>\<open>The program.\<close> \<open>behest\<close> is a Rust workspace that runs language-model agents. A run starts in
  \<open>behest-runtime/src/agent.rs\<close>: it locks the session, admits the input, records the run and enters the
  turn loop of \<open>run_loop.rs\<close>. One iteration of the loop checks the policy (limits on iterations and
  tokens, cancellation), builds a context from the stored history, compacts the history when it
  outgrows its budget, calls a model through a provider adapter, accumulates the stream of its
  reply, executes the tool calls in it and persists what came of the turn. Everything the loop does is
  emitted as an event; logs of events are replayed to rebuild a run, and fanned out to subscribers.
  The state that outlives a run is in the session, run, event and artifact stores; a registry of components
  with dependencies starts and stops the services around it; the configuration crate assembles it all.

  \<^bold>\<open>The theories\<close>, and the files under \<open>src/\<close> they translate. Definitions keep the source's names, with a
  prefix where a HOL constant or another component has the name already.

  \<^item> Prelude: \<open>Behest_Prelude\<close> (64-bit words, slices, UTF-8 boundaries, lemma collections), \<open>Rust_Str\<close> (the
    operations of \<open>str\<close> on UTF-8 bytes), \<open>Loop_Monad\<close> (actions that may continue, break, return or
    panic, and relations kept by them), \<open>Index_Partition\<close> (cutting a history into groups).
  \<^item> \<open>behest-core\<close>: \<open>Core_Types\<close>, \<open>Core_Messages\<close>, \<open>Core_Errors\<close> (data), \<open>Token_Estimate\<close> (\<open>token.rs\<close>),
    \<open>Token_Budget\<close> (\<open>budget.rs\<close>), \<open>Journal\<close> (\<open>journal.rs\<close>), \<open>Recovery\<close> (\<open>recovery.rs\<close>), \<open>Sub_Engine\<close>
    (\<open>sub_engine.rs\<close>), \<open>Run_Machine\<close> (\<open>run.rs\<close>), \<open>Circuit_Breaker\<close> (that of \<open>journal.rs\<close> and that of
    the runtime's compaction).
  \<^item> \<open>behest-memory\<close>: \<open>Memory_Window\<close> (\<open>lib.rs\<close>), \<open>Memory_Compaction\<close> (\<open>compaction.rs\<close>), \<open>Memory_Facts\<close>
    (\<open>facts.rs\<close>).
  \<^item> Tools: \<open>Tool_Strategy\<close>, \<open>Tool_Limits\<close> and the first half of \<open>Tool_Registry\<close> (\<open>behest-tool\<close>); its second half,
    \<open>Tool_Execution\<close>, \<open>Tool_Output\<close>, \<open>Tool_Dispatch\<close> and \<open>Doom_Loop\<close> (\<open>behest-runtime\<close>: \<open>tool_scope.rs\<close>,
    \<open>tool_runtime.rs\<close>, \<open>tool_output.rs\<close>, \<open>tool_dispatch.rs\<close>, \<open>doom_loop.rs\<close>); \<open>Approval_Gate\<close>
    (\<open>behest-approval\<close>).
  \<^item> The run, in \<open>behest-runtime\<close>: \<open>Runtime_Policy\<close> (\<open>policy.rs\<close>), \<open>Turn_Machine\<close> (\<open>turn.rs\<close>, \<open>snapshot.rs\<close>),
    \<open>Agent_Runtime\<close> (the model call and the helpers of \<open>agent.rs\<close>), \<open>Run_Loop\<close> (\<open>run_loop.rs\<close>) with its proofs
    in \<open>Run_Loop_Calm\<close>, \<open>Run_Loop_Progress\<close>, \<open>Run_Loop_Safety\<close> and \<open>Run_Loop_Properties\<close>, \<open>Agent_Run\<close> (\<open>run\<close>
    and \<open>resume\<close> of \<open>agent.rs\<close>), \<open>Session_Gate\<close>, \<open>Shutdown_Token\<close> (\<open>lifecycle.rs\<close>), \<open>Input_Admission\<close>
    (\<open>input.rs\<close>), \<open>Run_State\<close> (\<open>state.rs\<close>), \<open>Run_Store\<close> (\<open>memory.rs\<close>, \<open>store.rs\<close>), \<open>Invocation\<close>,
    \<open>Redis_Session_Data\<close> (\<open>session_data_store.rs\<close>), \<open>Extension_Point\<close> (\<open>extension.rs\<close>, \<open>extensions.rs\<close>),
    \<open>Cache_Stats\<close>.
  \<^item> Components: \<open>Component_Registry\<close> and \<open>Registry_Lifecycle\<close> (\<open>registry.rs\<close>), \<open>Component_Factories\<close>
    (\<open>factory_registry.rs\<close>, \<open>components.rs\<close>, \<open>component_factory.rs\<close>), \<open>Managed_Runtime\<close> (\<open>managed.rs\<close>,
    \<open>health.rs\<close>).
  \<^item> Events: \<open>Agent_Events\<close> and \<open>Hook_Stack\<close> (\<open>behest-event\<close>), \<open>Event_Store\<close> (\<open>event_store.rs\<close>),
    \<open>Durable_Events\<close> (\<open>event_store/postgres.rs\<close>, \<open>event_store/redis.rs\<close>), \<open>Event_Subscription\<close> (\<open>stream.rs\<close>,
    \<open>stream_adapter.rs\<close>, \<open>subscription.rs\<close>), \<open>Stream_Accumulator\<close> (\<open>accumulator.rs\<close>).
  \<^item> Context: \<open>Context_Pipeline\<close> (\<open>behest-context/src/factory.rs\<close>, \<open>behest-runtime/src/context.rs\<close>),
    \<open>Compaction_Select\<close> and \<open>Compaction_Service\<close> (\<open>behest-runtime/src/compaction\<close>), \<open>Skills\<close> and \<open>Run_Contexts\<close>
    (\<open>behest-context\<close>), \<open>Rag_Context\<close> (\<open>behest/src/rag\<close>).
  \<^item> Providers: \<open>Model_Router\<close> (\<open>behest-provider/src/registry.rs\<close>, \<open>behest-runtime/src/router.rs\<close>), \<open>Provider_Http\<close>,
    \<open>Sse_Stream\<close>, \<open>Anthropic_Adapter\<close>, \<open>OpenAI_Adapter\<close> and \<open>OpenAI_Embeddings\<close> (the two adapter crates).
  \<^item> Stores, in \<open>behest-store\<close>: \<open>Store_Records\<close> (\<open>lib.rs\<close>), \<open>Memory_Stores\<close> (\<open>memory\<close>), \<open>Sql_Sessions\<close> and
    \<open>Sql_Executions\<close> (\<open>sql\<close>, the three engines), \<open>Redis_Sessions\<close>, \<open>Mongo_Sessions\<close>, \<open>Artifact_Objects\<close>
    (\<open>object\<close>).
  \<^item> The facade crate \<open>behest\<close>: \<open>Config_Loader\<close> and \<open>Agent_Config\<close> (\<open>config\<close>), \<open>Agent_Directory\<close> (\<open>agent\<close>).

  \<^bold>\<open>How state and effects are modelled.\<close> A struct is a record, an enum a datatype, an error a value of the
  error type of its crate. Counters that the code keeps in \<open>u64\<close> and that can wrap or saturate are words;
  \<open>usize\<close> is \<open>nat\<close>, with its saturating operations written out. Strings are UTF-8 bytes wherever the code cuts
  them. What a component reaches through trait objects acts on an environment of arbitrary type, so what is
  proved holds of every implementation. A hash map is an association list, and where the code iterates over
  it the order is arbitrary. Operations that other tasks can come between are
  several steps, taken in any order: by an \<open>inductive\<close> set of reachable states in \<open>Session_Gate\<close>,
  \<open>Shutdown_Token\<close>, \<open>Event_Subscription\<close> and \<open>Invocation\<close>, by arbitrary lists of steps in \<open>Run_Store\<close>.
  \<open>Extension_Point\<close> has the two halves of its \<open>unregister\<close> as operations of their own. Other
  operations hold their lock to the end and are one step. A request to a database may
  fail where a list of faults says so, and what the statements before it changed stays, unless the engine's
  transaction takes it back.

  \<^bold>\<open>Interfaces.\<close> Locales state what a client relies on and are interpreted on the model's definitions:
  \<open>replay_source\<close> (pages of an event log; in-memory store), \<open>message_log\<close> (appending and listing messages),
  \<open>session_data\<close> (in-memory, file and Redis stores), \<open>conversation_memory\<close>, \<open>circuit_breaker\<close> (both breakers),
  \<open>index_partition\<close> (both groupings of a history), \<open>component_step\<close> (the three phases of the registry) and
  \<open>step_relation\<close> (what the sections of the loop body keep).

  \<^bold>\<open>What the lemmas show\<close>, by group, with the claims of the theories.

  \<^item> The turn loop (C1 to C6): it returns; it ends with exactly one terminal event on success; the log of a
    completed run rebuilds its result; calls to the model are bounded by the iterations and stop at the token
    budget; and a run resumed before its model call never returns.
  \<^item> A whole run (C22 to C24): locks and scopes are given back, its events are framed by start and
    completion, and a refused duplicate never starts.
  \<^item> Events (C7, C25, C32, C39): replay is exact, also when it is joined with live events under any interleaving;
    the PostgreSQL log answers as the in-memory one; the kept projection of a run is the replay of its
    log.
  \<^item> History (C8 to C11, C18): what is in the prompt after compaction and after a checkpoint, turns that compaction
    loses, incremental persistence of the journal, the round trip of a conversation.
  \<^item> Components (C12, C13, C19): the initialization order, the order of start and stop, the registry's
    invariant.
  \<^item> Bounds and state machines (C14 to C16, C20, C29 to C31): fan-out, quota, doom loops, the sans-IO run machine,
    the session lock, the shutdown token, the listener's limit.
  \<^item> Tools (C26 to C28): the scoped registry refines a stack of maps, limits hold of what is delivered, a batch
    answers its calls.
  \<^item> Streams and adapters (C21, C33, C34, C36): server-sent events do not depend on chunks, and what becomes of
    streamed tool calls in the accumulator and in both adapters.
  \<^item> Durable stores (C17, C35, C37): what a failure in the middle of an operation leaves, and the round trip of
    messages and artifacts.
  \<^item> Configuration (C38, C40): the providers of a built runtime, the round trip of a skill file.

  \<^bold>\<open>Fuel and bounds.\<close> \<open>run_loop\<close> takes fuel; two more than the iterations left are enough from every state
  it can be resumed from, which is C1, except those of C6. \<open>replay_pages\<close> needs more fuel than the log has
  events, since every page but the last is not empty. \<open>kahn\<close> is a \<open>partial_function\<close>, and C12 shows that it returns.
  \<open>scan_session_keys\<close> takes the number of \<open>SCAN\<close> calls, which Redis does not bound; nothing is
  claimed of how many are enough. Everything else is total by its recursion.

  \<^bold>\<open>Parameters.\<close> JSON and BSON printers and parsers, hash functions, Unicode tables, regular expressions, schema
  validation, clocks and fresh identifiers, HTTP responses, the Redis server and the order that a database
  gives to equal keys are arguments of the definitions that use them. Documented laws about them are
  hypotheses of the theorems that need them, and each of these has a witness with concrete functions.

  \<^bold>\<open>Not modelled.\<close> Rounding of \<open>f32\<close> and \<open>f64\<close> (exact numbers or uninterpreted bits stand for them); the
  \<open>pgvector\<close> statements of the SQL embedding store, and the forwarders of Redis Pub/Sub and JetStream and the queue
  publishers, whose behaviour is the server's; identifier newtypes, trait declarations, tracing and
  re-exports, which do no work of their own; the facade's copies of runtime files; examples and tests.
\<close>

end
